(* ===== verification/Prelude.thy ===== *)
theory Prelude
  imports Main "HOL-Library.AList" "HOL-Library.Multiset"
    "HOL-Library.Product_Lexorder" "HOL-Library.List_Lexorder" "HOL-Library.Char_ord"
begin

text \<open>
  Shared vocabulary of the development. Python exceptions are values of
  \<open>py_error\<close>, one constructor per exception class the modelled code raises; a function
  that may raise returns \<open>py_error + 'a\<close>. A Python \<open>for\<close> loop over a sequence whose body may
  raise is \<open>rfold\<close>; a comprehension whose element may raise is \<open>rmap\<close>. A \<open>dict\<close> is an
  association list in insertion order (\<open>AList.update\<close> overwrites in place and appends a new
  key at the end, as Python does); a \<open>collections.Counter\<close> is a \<open>dict\<close> into \<open>int\<close>; an
  \<open>OrderedDict\<close> used as a recency list is the list of its keys, oldest first.
  The generic lemmas the component theories share are collected in \<open>res_simps\<close>,
  \<open>dict_simps\<close> and \<open>od_simps\<close>.
\<close>

named_theorems res_simps "evaluation and inversion of the error monad"
named_theorems dict_simps "insertion-ordered dictionaries and counters"
named_theorems od_simps "ordered dictionaries used as recency lists"

section \<open>Exceptions\<close>

datatype py_error =
    ValueError string
  | TraceValidationError int string
  | TokenSequenceError string
  | RecommendationInputError string
  | KeyError
  | IndexError
  | StopIteration
  | TypeError
  | OverflowError
  | ZeroDivisionError
  | AttributeError
  | OSError
  | RuntimeError string

type_synonym 'a res = "py_error + 'a"

definition rbind :: "'a res \<Rightarrow> ('a \<Rightarrow> 'b res) \<Rightarrow> 'b res" where
  "rbind m f = (case m of Inl e \<Rightarrow> Inl e | Inr x \<Rightarrow> f x)"

definition is_ok :: "'a res \<Rightarrow> bool" where
  "is_ok m = (case m of Inl _ \<Rightarrow> False | Inr _ \<Rightarrow> True)"

lemma rbind_Inl [simp, res_simps]: "rbind (Inl e) f = Inl e"
  by (simp add: rbind_def)

lemma rbind_Inr [simp, res_simps]: "rbind (Inr x) f = f x"
  by (simp add: rbind_def)

lemma rbind_eq_Inr [res_simps]: "rbind m f = Inr y \<longleftrightarrow> (\<exists>x. m = Inr x \<and> f x = Inr y)"
  by (cases m) auto

lemma rbind_eq_Inl: "rbind m f = Inl e \<longleftrightarrow> m = Inl e \<or> (\<exists>x. m = Inr x \<and> f x = Inl e)"
  by (cases m) auto

lemma rbind_cong [fundef_cong]:
  "m = m' \<Longrightarrow> (\<And>x. m' = Inr x \<Longrightarrow> f x = f' x) \<Longrightarrow> rbind m f = rbind m' f'"
  by (cases m') auto

lemma if_Inl_eq_Inr [res_simps]:
  "(if c then Inl e else r) = Inr y \<longleftrightarrow> \<not> c \<and> r = Inr y"
  by auto

lemma is_ok_Inr [simp, res_simps]: "is_ok (Inr x)"
  by (simp add: is_ok_def)

lemma is_ok_Inl [simp, res_simps]: "\<not> is_ok (Inl e)"
  by (simp add: is_ok_def)

lemma is_ok_iff: "is_ok m \<longleftrightarrow> (\<exists>x. m = Inr x)"
  by (cases m) auto

lemma is_ok_rbind: "is_ok (rbind m f) \<longleftrightarrow> (\<exists>x. m = Inr x \<and> is_ok (f x))"
  by (cases m) auto

subsection \<open>Loops and comprehensions that may raise\<close>

fun rfold :: "('s \<Rightarrow> 'a \<Rightarrow> 's res) \<Rightarrow> 's \<Rightarrow> 'a list \<Rightarrow> 's res" where
  "rfold f s [] = Inr s"
| "rfold f s (x # xs) = rbind (f s x) (\<lambda>s'. rfold f s' xs)"

fun rmap :: "('a \<Rightarrow> 'b res) \<Rightarrow> 'a list \<Rightarrow> 'b list res" where
  "rmap f [] = Inr []"
| "rmap f (x # xs) = rbind (f x) (\<lambda>y. rbind (rmap f xs) (\<lambda>ys. Inr (y # ys)))"

lemma rmap_cong [fundef_cong]:
  "xs = ys \<Longrightarrow> (\<And>x. x \<in> set ys \<Longrightarrow> f x = g x) \<Longrightarrow> rmap f xs = rmap g ys"
  by (induction ys arbitrary: xs) auto

lemma rfold_append: "rfold f s (xs @ ys) = rbind (rfold f s xs) (\<lambda>s'. rfold f s' ys)"
proof (induction xs arbitrary: s)
  case Nil
  then show ?case by simp
next
  case (Cons x xs)
  then show ?case by (cases "f s x") simp_all
qed

lemma rfold_invariant:
  assumes "rfold f s xs = Inr s'" and "P s"
    and "\<And>s x s'. x \<in> set xs \<Longrightarrow> P s \<Longrightarrow> f s x = Inr s' \<Longrightarrow> P s'"
  shows "P s'"
  using assms
proof (induction xs arbitrary: s)
  case Nil
  then show ?case by simp
next
  case (Cons x xs)
  from Cons.prems(1) obtain t where t: "f s x = Inr t" and r: "rfold f t xs = Inr s'"
    by (auto simp: rbind_eq_Inr)
  have "P t" using Cons.prems(2,3) t by auto
  with r Cons.prems(3) show ?case by (auto intro: Cons.IH)
qed

lemma rfold_total:
  assumes "P s"
    and "\<And>s x. x \<in> set xs \<Longrightarrow> P s \<Longrightarrow> \<exists>s'. f s x = Inr s' \<and> P s'"
  shows "\<exists>s'. rfold f s xs = Inr s' \<and> P s'"
  using assms
proof (induction xs arbitrary: s)
  case Nil
  then show ?case by simp
next
  case (Cons x xs)
  then obtain t where t: "f s x = Inr t" "P t" by (meson list.set_intros(1))
  from Cons.IH [OF t(2)] Cons.prems(2) obtain s' where "rfold f t xs = Inr s'" "P s'"
    by (meson list.set_intros(2))
  with t show ?case by simp
qed

lemma rmap_eq_Inr: "rmap f xs = Inr ys \<longleftrightarrow> list_all2 (\<lambda>x y. f x = Inr y) xs ys"
  by (induction xs arbitrary: ys) (auto simp: rbind_eq_Inr list_all2_Cons1)

lemma rmap_length: "rmap f xs = Inr ys \<Longrightarrow> length ys = length xs"
  by (auto simp: rmap_eq_Inr dest: list_all2_lengthD)

lemma rmap_elem: "rmap f xs = Inr ys \<Longrightarrow> y \<in> set ys \<Longrightarrow> \<exists>x \<in> set xs. f x = Inr y"
  by (auto simp: rmap_eq_Inr list_all2_conv_all_nth in_set_conv_nth) (metis nth_mem)

lemma rmap_elem_fwd: "rmap f xs = Inr ys \<Longrightarrow> x \<in> set xs \<Longrightarrow> \<exists>y \<in> set ys. f x = Inr y"
  by (induction xs arbitrary: ys) (auto simp: rbind_eq_Inr)

lemma rmap_Inr_map [simp]: "rmap (\<lambda>x. Inr (f x)) xs = Inr (map f xs)"
  by (induction xs) auto

lemma rmap_all_ok: "(\<And>x. x \<in> set xs \<Longrightarrow> f x = Inr (g x)) \<Longrightarrow> rmap f xs = Inr (map g xs)"
  by (induction xs) auto

lemma rmap_ex: "(\<And>x. x \<in> set xs \<Longrightarrow> is_ok (f x)) \<Longrightarrow> \<exists>ys. rmap f xs = Inr ys"
proof (induction xs)
  case Nil
  then show ?case by simp
next
  case (Cons x xs)
  then obtain y where "f x = Inr y" by (auto simp: is_ok_iff)
  moreover from Cons obtain ys where "rmap f xs = Inr ys" by auto
  ultimately show ?case by simp
qed

lemma is_ok_rmap: "is_ok (rmap f xs) \<longleftrightarrow> (\<forall>x \<in> set xs. is_ok (f x))"
  by (induction xs) (auto simp: is_ok_rbind is_ok_iff rbind_eq_Inr)

lemma rmap_eq_InlD:
  "rmap f xs = Inl e \<Longrightarrow> \<exists>i < length xs. f (xs ! i) = Inl e \<and> (\<forall>j < i. is_ok (f (xs ! j)))"
proof (induction xs)
  case Nil
  then show ?case by simp
next
  case (Cons x xs)
  show ?case
  proof (cases "f x")
    case (Inl e')
    with Cons.prems show ?thesis by (intro exI [of _ 0]) simp
  next
    case (Inr y)
    with Cons obtain i where "i < length xs" "f (xs ! i) = Inl e" "\<forall>j < i. is_ok (f (xs ! j))"
      by (auto simp: rbind_eq_Inl)
    with Inr show ?thesis
      by (intro exI [of _ "Suc i"]) (auto simp: less_Suc_eq_0_disj)
  qed
qed

section \<open>Insertion-ordered dictionaries\<close>

type_synonym ('k, 'v) dict = "('k \<times> 'v) list"

abbreviation dict_set :: "'k \<Rightarrow> 'v \<Rightarrow> ('k, 'v) dict \<Rightarrow> ('k, 'v) dict" where
  "dict_set \<equiv> AList.update"

definition dict_get :: "('k, 'v) dict \<Rightarrow> 'k \<Rightarrow> 'v \<Rightarrow> 'v" where
  "dict_get d k v0 = (case map_of d k of None \<Rightarrow> v0 | Some v \<Rightarrow> v)"

text \<open>\<open>d[k]\<close> raises \<open>KeyError\<close> for an absent key.\<close>

definition dict_index :: "('k, 'v) dict \<Rightarrow> 'k \<Rightarrow> 'v res" where
  "dict_index d k = (case map_of d k of None \<Rightarrow> Inl KeyError | Some v \<Rightarrow> Inr v)"

text \<open>\<open>d.setdefault(k, v)\<close>, as the effect it has on the dictionary.\<close>

definition dict_setdefault :: "'k \<Rightarrow> 'v \<Rightarrow> ('k, 'v) dict \<Rightarrow> ('k, 'v) dict" where
  "dict_setdefault k v d = dict_set k (dict_get d k v) d"

text \<open>\<open>dict.fromkeys(xs)\<close>: the distinct elements, in the order of their first occurrence.\<close>

definition fromkeys :: "'a list \<Rightarrow> 'a list" where
  "fromkeys xs = rev (remdups (rev xs))"

text \<open>\<open>len(set(xs)) == len(xs)\<close> is \<^const>\<open>distinct\<close>.\<close>

lemma dict_get_set [dict_simps]:
  "dict_get (dict_set k v d) k' v0 = (if k' = k then v else dict_get d k' v0)"
  by (simp add: dict_get_def update_conv')

lemma dict_get_Nil [simp, dict_simps]: "dict_get [] k v = v"
  by (simp add: dict_get_def)

lemma dict_get_setdefault [simp, dict_simps]: "dict_get (dict_setdefault k v d) k' v = dict_get d k' v"
  by (simp add: dict_setdefault_def dict_get_set)

lemma keys_dict_set [dict_simps]: "fst ` set (dict_set k v d) = insert k (fst ` set d)"
  by (simp add: dom_update)

lemma dict_set_new [dict_simps]: "k \<notin> fst ` set d \<Longrightarrow> dict_set k v d = d @ [(k, v)]"
  by (induction d) auto

lemma set_dict_set: "set (dict_set k v d) \<subseteq> insert (k, v) (set d)"
  by (induction d) auto

lemma dict_get_default_or_in: "dict_get d k v = v \<or> (k, dict_get d k v) \<in> set d"
  by (auto simp: dict_get_def split: option.split dest: map_of_SomeD)

lemma distinct_dict_set [intro]: "distinct (map fst d) \<Longrightarrow> distinct (map fst (dict_set k v d))"
  by (rule distinct_update)

lemma set_fromkeys [simp, dict_simps]: "set (fromkeys xs) = set xs"
  by (simp add: fromkeys_def)

lemma distinct_fromkeys [simp, dict_simps]: "distinct (fromkeys xs)"
  by (simp add: fromkeys_def)

lemma map_of_eq_dict_get: "k \<in> fst ` set d \<Longrightarrow> map_of d k = Some (dict_get d k v0)"
  by (cases "map_of d k") (auto simp: dict_get_def map_of_eq_None_iff)

lemma dict_get_in_set: "k \<in> fst ` set d \<Longrightarrow> (k, dict_get d k v0) \<in> set d"
  by (blast intro: map_of_SomeD map_of_eq_dict_get)

lemma dict_get_absent: "k \<notin> fst ` set d \<Longrightarrow> dict_get d k v0 = v0"
  by (simp add: dict_get_def map_of_eq_None_iff [THEN iffD2])

lemma dict_get_distinct:
  "distinct (map fst d) \<Longrightarrow> (k, v) \<in> set d \<Longrightarrow> dict_get d k v0 = v"
  by (simp add: dict_get_def)

text \<open>\<open>str(n)\<close> of an integer.\<close>

fun nat_digits :: "nat \<Rightarrow> string" where
  "nat_digits n = (if n < 10 then [char_of (48 + n)] else nat_digits (n div 10) @ [char_of (48 + n mod 10)])"

declare nat_digits.simps [simp del]

definition int_str :: "int \<Rightarrow> string" where
  "int_str i = (if i < 0 then ''-'' @ nat_digits (nat (- i)) else nat_digits (nat i))"

text \<open>Rows collected by a key, in order of the first appearance of the keys.\<close>

definition group_by :: "('a \<Rightarrow> 'k) \<Rightarrow> 'a list \<Rightarrow> ('k, 'a list) dict" where
  "group_by f rows = foldl (\<lambda>g row. dict_set (f row) (dict_get g (f row) [] @ [row]) g) [] rows"

lemma group_by_snoc: "group_by f (rows @ [row]) =
    dict_set (f row) (dict_get (group_by f rows) (f row) [] @ [row]) (group_by f rows)"
  by (simp add: group_by_def)

lemma distinct_group_by [intro]: "distinct (map fst (group_by f rows))"
  by (induction rows rule: rev_induct) (auto simp: group_by_snoc, simp add: group_by_def)

lemma group_by_get: "dict_get (group_by f rows) k [] = filter (\<lambda>row. f row = k) rows"
  by (induction rows rule: rev_induct) (auto simp: group_by_snoc dict_get_set, simp add: group_by_def)

lemma keys_group_by: "fst ` set (group_by f rows) = f ` set rows"
  by (induction rows rule: rev_induct) (auto simp: group_by_snoc keys_dict_set, simp_all add: group_by_def)

lemma group_by_entry: "(k, g) \<in> set (group_by f rows) \<Longrightarrow> g = filter (\<lambda>row. f row = k) rows \<and> g \<noteq> []"
proof -
  assume kg: "(k, g) \<in> set (group_by f rows)"
  then have "g = dict_get (group_by f rows) k []" by (simp add: dict_get_distinct distinct_group_by)
  then have g: "g = filter (\<lambda>row. f row = k) rows" by (simp add: group_by_get)
  have "k \<in> f ` set rows" using kg keys_group_by [of f rows] by force
  then show ?thesis using g by (auto simp: filter_empty_conv)
qed

text \<open>Each row is in exactly one group.\<close>

lemma group_by_sum:
  fixes h :: "'a \<Rightarrow> int"
  shows "sum_list (map (\<lambda>(k, g). sum_list (map h g)) (group_by f rows)) = sum_list (map h rows)"
proof (induction rows rule: rev_induct)
  case Nil
  then show ?case by (simp add: group_by_def)
next
  case (snoc row rows)
  have "sum_list (map (\<lambda>(k, g). sum_list (map h g)) (dict_set k (dict_get d k [] @ [row]) d))
      = sum_list (map (\<lambda>(k, g). sum_list (map h g)) d) + h row" for k and d :: "('b, 'a list) dict"
    by (induction d) (auto simp: dict_get_def)
  with snoc show ?case by (simp add: group_by_snoc)
qed

section \<open>Counters\<close>

type_synonym 'k counter = "('k, int) dict"

definition counter_get :: "'k counter \<Rightarrow> 'k \<Rightarrow> int" where
  "counter_get c k = dict_get c k 0"

definition counter_inc :: "'k counter \<Rightarrow> 'k \<Rightarrow> 'k counter" where
  "counter_inc c k = dict_set k (counter_get c k + 1) c"

text \<open>\<open>Counter.update(iterable)\<close>.\<close>

definition counter_update :: "'k counter \<Rightarrow> 'k list \<Rightarrow> 'k counter" where
  "counter_update c ks = foldl counter_inc c ks"

text \<open>\<open>Counter.total()\<close>.\<close>

definition counter_total :: "'k counter \<Rightarrow> int" where
  "counter_total c = sum_list (map snd c)"

lemma counter_get_Nil [simp, dict_simps]: "counter_get [] k = 0"
  by (simp add: counter_get_def)

lemma counter_get_inc [dict_simps]:
  "counter_get (counter_inc c k) k' = counter_get c k' + (if k' = k then 1 else 0)"
  by (simp add: counter_get_def counter_inc_def dict_get_set)

lemma counter_get_update [dict_simps]:
  "counter_get (counter_update c ks) k = counter_get c k + int (count_list ks k)"
  unfolding counter_update_def
  by (induction ks arbitrary: c) (auto simp: counter_get_inc)

lemma keys_counter_inc [dict_simps]: "fst ` set (counter_inc c k) = insert k (fst ` set c)"
  by (simp add: counter_inc_def keys_dict_set)

lemma keys_counter_update [dict_simps]:
  "fst ` set (counter_update c ks) = fst ` set c \<union> set ks"
  unfolding counter_update_def
  by (induction ks arbitrary: c) (auto simp: keys_counter_inc)

lemma distinct_counter_update [intro]:
  "distinct (map fst c) \<Longrightarrow> distinct (map fst (counter_update c ks))"
  unfolding counter_update_def
  by (induction ks arbitrary: c) (auto simp: counter_inc_def)

lemma counter_total_dict_set:
  "distinct (map fst c) \<Longrightarrow>
     counter_total (dict_set k v c) = counter_total c - counter_get c k + v"
proof (induction c)
  case Nil
  then show ?case by (simp add: counter_total_def)
next
  case (Cons p c)
  then show ?case
    by (cases p) (auto simp: counter_total_def counter_get_def dict_get_def
        map_of_eq_None_iff [THEN iffD2] image_iff split: if_splits)
qed

lemma counter_total_update:
  "distinct (map fst c) \<Longrightarrow>
     counter_total (counter_update c ks) = counter_total c + int (length ks)"
proof (induction ks arbitrary: c)
  case Nil
  then show ?case by (simp add: counter_update_def)
next
  case (Cons k ks)
  have "counter_total (counter_update (counter_inc c k) ks)
      = counter_total (counter_inc c k) + int (length ks)"
    using Cons by (auto simp: counter_inc_def intro!: Cons.IH)
  with Cons.prems show ?case
    by (simp add: counter_update_def counter_inc_def counter_total_dict_set)
qed

lemma counter_entry_get:
  "distinct (map fst c) \<Longrightarrow> (k, n) \<in> set c \<Longrightarrow> n = counter_get c k"
  by (simp add: counter_get_def dict_get_distinct)

section \<open>Ordered dictionaries as recency lists\<close>

text \<open>
  An \<open>OrderedDict[int, None]\<close> is the list of its keys, oldest first. \<open>move_to_end\<close> makes a
  present key the newest one, \<open>cache[k] = None\<close> appends a new key and leaves a present key
  where it is, \<open>popitem(last=False)\<close> drops the oldest key.
\<close>

definition move_to_end :: "'k \<Rightarrow> 'k list \<Rightarrow> 'k list" where
  "move_to_end k c = remove1 k c @ [k]"

definition od_insert :: "'k \<Rightarrow> 'k list \<Rightarrow> 'k list" where
  "od_insert k c = (if k \<in> set c then c else c @ [k])"

lemma set_move_to_end [simp, od_simps]: "k \<in> set c \<Longrightarrow> set (move_to_end k c) = set c"
  by (induction c) (auto simp: move_to_end_def)

lemma distinct_move_to_end [simp, od_simps]: "distinct c \<Longrightarrow> distinct (move_to_end k c)"
  by (auto simp: move_to_end_def)

lemma length_move_to_end [simp, od_simps]: "k \<in> set c \<Longrightarrow> length (move_to_end k c) = length c"
  by (cases c) (auto simp: move_to_end_def length_remove1 dest: length_pos_if_in_set)

lemma set_od_insert [simp, od_simps]: "set (od_insert k c) = insert k (set c)"
  by (auto simp: od_insert_def)

lemma distinct_od_insert [simp, od_simps]: "distinct c \<Longrightarrow> distinct (od_insert k c)"
  by (simp add: od_insert_def)

lemma length_od_insert: "length (od_insert k c) \<le> Suc (length c)"
  by (simp add: od_insert_def)

lemma length_od_insert_new [simp, od_simps]:
  "k \<notin> set c \<Longrightarrow> length (od_insert k c) = Suc (length c)"
  by (simp add: od_insert_def)

section \<open>Lists\<close>

text \<open>\<open>sorted(xs)\<close> and \<open>sum(f(x) for x in xs)\<close> of integers.\<close>

abbreviation sum_of :: "('a \<Rightarrow> int) \<Rightarrow> 'a list \<Rightarrow> int" where
  "sum_of f xs \<equiv> sum_list (map f xs)"

lemma sum_of_nonneg: "(\<And>x. x \<in> set xs \<Longrightarrow> 0 \<le> f x) \<Longrightarrow> 0 \<le> sum_of f xs"
  by (rule sum_list_nonneg) auto

lemma elem_le_sum_list: "\<forall>v \<in> set xs. 0 \<le> v \<Longrightarrow> (n :: int) \<in> set xs \<Longrightarrow> n \<le> sum_list xs"
proof (induction xs)
  case (Cons v xs)
  then have "0 \<le> sum_list xs" by (intro sum_list_nonneg) auto
  with Cons show ?case by auto
qed simp

lemma sum_of_concat: "sum_of f (concat xss) = sum_of (sum_of f) xss"
  by (induction xss) auto

lemma sum_of_mono: "(\<And>x. x \<in> set xs \<Longrightarrow> f x \<le> g x) \<Longrightarrow> sum_of f xs \<le> sum_of g xs"
  by (induction xs) (auto simp: add_mono)

lemma sum_of_sort_key: "sum_of f (sort_key k xs) = sum_of f xs"
  by (metis mset_map mset_sort sum_mset_sum_list)

lemma sort_key_empty [simp]: "sort_key f xs = [] \<longleftrightarrow> xs = []"
  by (metis length_0_conv length_sort)

lemma card_insert_le_Suc: "card (insert x A) \<le> Suc (card A)"
  by (cases "finite A") (auto simp: card_insert_if)

lemma count_list_distinct: "distinct xs \<Longrightarrow> count_list xs x = (if x \<in> set xs then 1 else 0)"
  by (induction xs) auto

lemma filter_neq_id: "k \<notin> set p \<Longrightarrow> filter (\<lambda>x. x \<noteq> k) p = p"
  by (auto simp: filter_id_conv)

lemma remove1_filter: "distinct c \<Longrightarrow> remove1 k c = filter (\<lambda>x. x \<noteq> k) c"
  by (induction c) (auto simp: filter_neq_id)

lemma length_filter_partition:
  "length (filter P xs) + length (filter (\<lambda>x. \<not> P x) xs) = length xs"
  by (rule sum_length_filter_compl)

lemma length_filter_swap:
  assumes "distinct xs" and "distinct ys"
  shows "length (filter (\<lambda>x. x \<in> set ys) xs) = length (filter (\<lambda>x. x \<in> set xs) ys)"
proof -
  have "set (filter (\<lambda>x. x \<in> set ys) xs) = set (filter (\<lambda>x. x \<in> set xs) ys)" by auto
  then show ?thesis using assms by (metis distinct_card distinct_filter)
qed

lemma distinct_subset_length: "distinct xs \<Longrightarrow> set xs \<subseteq> set ys \<Longrightarrow> length xs \<le> length ys"
  by (metis card_length card_mono distinct_card List.finite_set le_trans)

lemma full_cache_has_victim:
  assumes "distinct c" and "k \<notin> set c" and "k \<in> R" and "finite R" and "card R \<le> length c"
  shows "\<exists>v \<in> set c. v \<notin> R"
proof (rule ccontr)
  assume "\<not> ?thesis"
  then have "insert k (set c) \<subseteq> R" using assms(3) by auto
  then have "card (insert k (set c)) \<le> card R" using assms(4) by (intro card_mono)
  moreover have "card (insert k (set c)) = Suc (length c)"
    using assms(1,2) by (simp add: distinct_card)
  ultimately show False using assms(5) by simp
qed

lemma find_append_pre:
  assumes "find P (xs @ ys) = Some v" and "\<forall>y \<in> set ys. \<not> P y"
  shows "\<exists>a b. xs = a @ v # b \<and> P v \<and> (\<forall>x \<in> set a. \<not> P x)"
  using assms(1)
proof (induction xs)
  case Nil
  with assms(2) show ?case by (auto simp: find_Some_iff)
next
  case (Cons x xs)
  show ?case
  proof (cases "P x")
    case True
    with Cons.prems show ?thesis by (intro exI [of _ "[]"] exI [of _ xs]) auto
  next
    case False
    with Cons obtain a b where "xs = a @ v # b" "P v" "\<forall>x \<in> set a. \<not> P x" by auto
    with False show ?thesis by (intro exI [of _ "x # a"] exI [of _ b]) auto
  qed
qed

section \<open>Minimum by a key\<close>

text \<open>\<open>min(available, key=key)\<close>: the first element with the smallest key.\<close>

definition min_by :: "('a \<Rightarrow> 'k :: linorder) \<Rightarrow> 'a list \<Rightarrow> 'a" where
  "min_by key xs = hd (sort_key key xs)"

lemma min_by_mem: "xs \<noteq> [] \<Longrightarrow> min_by key xs \<in> set xs"
  unfolding min_by_def by (metis list.set_sel(1) set_sort sort_key_empty)

lemma min_by_le: "x \<in> set xs \<Longrightarrow> key (min_by key xs) \<le> key x"
proof -
  assume x: "x \<in> set xs"
  have s: "sorted (map key (sort_key key xs))" "x \<in> set (sort_key key xs)" using x by simp_all
  then show ?thesis unfolding min_by_def by (cases "sort_key key xs") auto
qed

subsection \<open>Short-circuit search\<close>

text \<open>\<open>any(p(x) for x in xs)\<close> where the test may raise.\<close>

fun rany :: "('a \<Rightarrow> bool res) \<Rightarrow> 'a list \<Rightarrow> bool res" where
  "rany p [] = Inr False"
| "rany p (x # xs) = rbind (p x) (\<lambda>b. if b then Inr True else rany p xs)"

lemma rany_False: "rany p xs = Inr False \<longleftrightarrow> (\<forall>x \<in> set xs. p x = Inr False)"
  by (induction xs) (auto simp: rbind_eq_Inr split: if_splits)

end
