(* ===== verification/PyFloat.thy ===== *)
theory PyFloat
  imports Complex_Main Prelude "HOL-Library.Log_Nat"
begin

text \<open>
  Python's \<open>float\<close>: IEEE 754 binary64. A finite value is the rational it denotes, and every
  arithmetic result is the exact rational result rounded to 53 significant bits, ties to even,
  with the subnormal exponent \<open>-1074\<close> as the smallest step and overflow to infinity above the
  largest binade. The sign of zero is not kept: no modelled code distinguishes the two zeros.
  \<open>int / int\<close> is correctly rounded in Python, so it is the rounding of the exact quotient.
  The lemmas show that rounding is monotone and exact on \<open>0\<close> and \<open>1\<close>, which is what the rates and
  the ordering comparisons of the components need.
\<close>

section \<open>Powers of two with integer exponents\<close>

definition pow2 :: "int \<Rightarrow> rat" where
  "pow2 e = (if 0 \<le> e then 2 ^ nat e else 1 / 2 ^ nat (- e))"

lemma pow2_power_int: "pow2 e = 2 powi e"
  by (auto simp: pow2_def power_int_def field_simps power_inverse)

lemma pow2_pos [simp]: "0 < pow2 e"
  by (simp add: pow2_def)

lemma pow2_nonneg [simp]: "0 \<le> pow2 e"
  by (simp add: pow2_def)

lemma pow2_nonzero [simp]: "pow2 e \<noteq> 0"
  by (simp add: pow2_def)

lemma pow2_0 [simp]: "pow2 0 = 1"
  by (simp add: pow2_def)

lemma pow2_nat: "pow2 (int k) = of_int (2 ^ k)"
  by (simp add: pow2_def)

lemma pow2_add: "pow2 (a + b) = pow2 a * pow2 b"
  by (simp add: pow2_power_int power_int_add)

lemma pow2_mono: "a \<le> b \<Longrightarrow> pow2 a \<le> pow2 b"
  by (simp add: pow2_power_int power_int_increasing)

lemma pow2_le_iff: "pow2 a \<le> pow2 b \<longleftrightarrow> a \<le> b"
  by (metis linorder_not_le order_less_irrefl order_le_less_trans pow2_mono pow2_power_int
      power_int_strict_increasing one_less_numeral_iff semiring_norm(76))

lemma pow2_diff_nat: "b \<le> a \<Longrightarrow> pow2 a / pow2 b = of_int (2 ^ nat (a - b))"
proof -
  assume "b \<le> a"
  have "pow2 a = pow2 (a - b) * pow2 b" by (simp flip: pow2_add)
  with \<open>b \<le> a\<close> show ?thesis by (simp add: pow2_def)
qed

section \<open>Rounding to an integer, ties to even\<close>

definition rhe :: "rat \<Rightarrow> int" where
  "rhe x = (let f = \<lfloor>x\<rfloor>; r = x - of_int f
            in if r < 1 / 2 then f else if 1 / 2 < r then f + 1
               else if even f then f else f + 1)"

lemma rhe_of_int [simp]: "rhe (of_int n) = n"
  by (simp add: rhe_def)

lemma rhe_0 [simp]: "rhe 0 = 0" and rhe_1 [simp]: "rhe 1 = 1"
  using rhe_of_int [of 0] rhe_of_int [of 1] by simp_all

lemma rhe_floor: "rhe x = \<lfloor>x\<rfloor> \<or> rhe x = \<lfloor>x\<rfloor> + 1"
  by (simp add: rhe_def Let_def)

lemma rhe_mono: "x \<le> y \<Longrightarrow> rhe x \<le> rhe y"
proof (cases "\<lfloor>x\<rfloor> = \<lfloor>y\<rfloor>")
  case True
  assume "x \<le> y"
  with True show ?thesis by (auto simp: rhe_def Let_def)
next
  case False
  assume "x \<le> y"
  with False have "\<lfloor>x\<rfloor> + 1 \<le> \<lfloor>y\<rfloor>" using floor_mono [of x y] by linarith
  then show ?thesis using rhe_floor [of x] rhe_floor [of y] by linarith
qed

lemma rhe_le_int: "x \<le> of_int n \<Longrightarrow> rhe x \<le> n"
  using rhe_mono [of x "of_int n"] by simp

lemma rhe_ge_int: "of_int n \<le> x \<Longrightarrow> n \<le> rhe x"
  using rhe_mono [of "of_int n" x] by simp

lemma rhe_minus: "rhe (- x) = - rhe x"
proof (cases "x \<in> \<int>")
  case True
  then obtain n where "x = of_int n" by (auto elim: Ints_cases)
  then have "- x = of_int (- n)" by simp
  then show ?thesis using rhe_of_int [of "- n"] \<open>x = of_int n\<close> by (simp del: rhe_of_int) simp
next
  case False
  then have "\<lfloor>- x\<rfloor> = - \<lfloor>x\<rfloor> - 1"
    by (auto simp: floor_minus ceiling_altdef Ints_def image_iff)
  then show ?thesis by (auto simp: rhe_def Let_def)
qed

section \<open>Rounding to binary64\<close>

text \<open>\<open>rexp x\<close> is the binary exponent of a positive \<open>x\<close>: \<open>2\<^sup>e \<le> x < 2\<^sup>e\<^sup>+\<^sup>1\<close>.\<close>

definition rexp :: "rat \<Rightarrow> int" where
  "rexp x = (let (n, d) = quotient_of x; k = bitlen n - bitlen d
             in if pow2 k \<le> x then k else k - 1)"

lemma rexp_bounds:
  assumes "0 < x"
  shows "pow2 (rexp x) \<le> x" and "x < pow2 (rexp x + 1)"
proof -
  obtain n d where q: "quotient_of x = (n, d)" by (cases "quotient_of x")
  have d: "0 < d" using quotient_of_denom_pos [OF q] .
  have x: "x = of_int n / of_int d" using quotient_of_div [OF q] .
  have n: "0 < n" using assms d unfolding x by (simp add: zero_less_divide_iff)
  let ?k = "bitlen n - bitlen d"
  have bounds: "pow2 (bitlen m - 1) \<le> of_int m \<and> of_int m < pow2 (bitlen m)" if "0 < m" for m
  proof -
    have "1 \<le> bitlen m" using that bitlen_eq_zero_iff [of m] bitlen_nonneg [of m] by linarith
    then have "pow2 (bitlen m - 1) = of_int (2 ^ nat (bitlen m - 1))"
      and "pow2 (bitlen m) = of_int (2 ^ nat (bitlen m))"
      by (simp_all add: pow2_def)
    then show ?thesis using bitlen_bounds [OF that] by (simp only: of_int_le_iff of_int_less_iff)
  qed
  from bounds [OF n] bounds [OF d]
  have nb: "pow2 (bitlen n - 1) \<le> of_int n" "of_int n < pow2 (bitlen n)"
    and db: "pow2 (bitlen d - 1) \<le> of_int d" "of_int d < pow2 (bitlen d)" by auto
  have "of_int n < pow2 (bitlen n) * 1" using nb by simp
  also have "\<dots> = pow2 (?k + 1) * pow2 (bitlen d - 1)" by (simp flip: pow2_add)
  also have "\<dots> \<le> pow2 (?k + 1) * of_int d" using db by simp
  finally have upper: "x < pow2 (?k + 1)" using d by (simp add: x field_simps)
  have "pow2 (?k - 1) * of_int d \<le> pow2 (?k - 1) * pow2 (bitlen d)" using db by simp
  also have "\<dots> = pow2 (bitlen n - 1)" by (simp flip: pow2_add)
  also have "\<dots> \<le> of_int n" using nb by simp
  finally have lower: "pow2 (?k - 1) \<le> x" using d by (simp add: x field_simps)
  show "pow2 (rexp x) \<le> x" and "x < pow2 (rexp x + 1)"
    using upper lower by (auto simp: rexp_def q Let_def)
qed

lemma rexp_mono: "0 < x \<Longrightarrow> x \<le> y \<Longrightarrow> rexp x \<le> rexp y"
proof -
  assume x: "0 < x" "x \<le> y"
  have "pow2 (rexp x) < pow2 (rexp y + 1)"
    using rexp_bounds [OF x(1)] rexp_bounds [of y] x by auto
  then show ?thesis using pow2_mono [of "rexp y + 1" "rexp x"] by linarith
qed

text \<open>The step of the grid at \<open>x\<close>, and rounding of an exact value onto it.\<close>

definition grid :: "rat \<Rightarrow> int" where
  "grid x = max (rexp x - 52) (- 1074)"

definition dround :: "rat \<Rightarrow> rat" where
  "dround x = (if x = 0 then 0
               else of_int (rhe (x / pow2 (grid \<bar>x\<bar>))) * pow2 (grid \<bar>x\<bar>))"

lemma dround_0 [simp]: "dround 0 = 0"
  by (simp add: dround_def)

lemma dround_minus: "dround (- x) = - dround x"
  by (simp add: dround_def rhe_minus)

lemma dround_nonneg: "0 \<le> x \<Longrightarrow> 0 \<le> dround x"
proof -
  assume "0 \<le> x"
  then have "0 \<le> rhe (x / pow2 (grid \<bar>x\<bar>))" by (intro rhe_ge_int) simp
  then show ?thesis by (simp add: dround_def)
qed

text \<open>A power of two on the grid of \<open>x\<close> bounds the rounding of \<open>x\<close>.\<close>

lemma dround_le_pow2:
  assumes "0 < x" and "x \<le> pow2 e" and "grid x \<le> e"
  shows "dround x \<le> pow2 e"
proof -
  let ?g = "grid x"
  have "x / pow2 ?g \<le> pow2 e / pow2 ?g" using assms(2) by (simp add: divide_right_mono)
  then have "rhe (x / pow2 ?g) \<le> 2 ^ nat (e - ?g)"
    using pow2_diff_nat [OF assms(3)] by (intro rhe_le_int) simp
  then have "of_int (rhe (x / pow2 ?g)) * pow2 ?g \<le> of_int (2 ^ nat (e - ?g)) * pow2 ?g"
    by (intro mult_right_mono) (simp_all only: of_int_le_iff pow2_nonneg)
  also have "\<dots> = pow2 e" using pow2_diff_nat [OF assms(3)] by (simp add: field_simps)
  finally show ?thesis using assms(1) by (simp add: dround_def)
qed

lemma dround_ge_pow2:
  assumes "0 < x" and "pow2 e \<le> x" and "grid x \<le> e"
  shows "pow2 e \<le> dround x"
proof -
  let ?g = "grid x"
  have "pow2 e / pow2 ?g \<le> x / pow2 ?g" using assms(2) by (simp add: divide_right_mono)
  then have "2 ^ nat (e - ?g) \<le> rhe (x / pow2 ?g)"
    using pow2_diff_nat [OF assms(3)] by (intro rhe_ge_int) simp
  then have le: "of_int (2 ^ nat (e - ?g)) * pow2 ?g \<le> of_int (rhe (x / pow2 ?g)) * pow2 ?g"
    by (intro mult_right_mono) (simp_all only: of_int_le_iff pow2_nonneg)
  have "pow2 e = of_int (2 ^ nat (e - ?g)) * pow2 ?g"
    using pow2_diff_nat [OF assms(3)] by (simp add: field_simps)
  also note le
  finally show ?thesis using assms(1) by (simp add: dround_def)
qed

lemma dround_mono_pos:
  assumes "0 < x" and "x \<le> y"
  shows "dround x \<le> dround y"
proof (cases "grid x = grid y")
  case True
  have "rhe (x / pow2 (grid y)) \<le> rhe (y / pow2 (grid y))"
    using assms by (intro rhe_mono) (simp add: divide_right_mono)
  with True assms show ?thesis by (simp add: dround_def mult_right_mono)
next
  case False
  have "rexp x \<le> rexp y" using rexp_mono assms by blast
  with False have lt: "rexp x < rexp y" and gy: "grid y = rexp y - 52"
    by (auto simp: grid_def split: if_splits)
  have "x \<le> pow2 (rexp y)"
    using rexp_bounds(2) [OF assms(1)] pow2_mono [of "rexp x + 1" "rexp y"] lt by auto
  moreover have "grid x \<le> rexp y" using lt gy by (auto simp: grid_def)
  ultimately have "dround x \<le> pow2 (rexp y)" using assms(1) by (intro dround_le_pow2)
  also have "\<dots> \<le> dround y" using assms rexp_bounds(1) [of y] gy by (intro dround_ge_pow2) auto
  finally show ?thesis .
qed

theorem dround_mono: "x \<le> y \<Longrightarrow> dround x \<le> dround y"
proof -
  assume le: "x \<le> y"
  consider "0 < x" | "x \<le> 0" "0 \<le> y" | "y < 0" by linarith
  then show ?thesis
  proof cases
    case 1
    then show ?thesis using le by (rule dround_mono_pos)
  next
    case 2
    have "dround x \<le> 0" using dround_nonneg [of "- x"] 2 by (simp add: dround_minus)
    also have "\<dots> \<le> dround y" using dround_nonneg 2 by simp
    finally show ?thesis .
  next
    case 3
    then have "dround (- y) \<le> dround (- x)" using le by (intro dround_mono_pos) auto
    then show ?thesis by (simp add: dround_minus)
  qed
qed

lemma dround_1 [simp]: "dround 1 = 1"
  by (rule antisym) (use dround_le_pow2 [of 1 0] dround_ge_pow2 [of 1 0] in
      \<open>auto simp: grid_def rexp_def pow2_def bitlen_def floorlog_def\<close>)

lemma rexp_pow2 [simp]: "rexp (pow2 e) = e"
proof -
  have "pow2 (rexp (pow2 e)) \<le> pow2 e" "pow2 e < pow2 (rexp (pow2 e) + 1)"
    using rexp_bounds [of "pow2 e"] by auto
  then show ?thesis unfolding not_le [symmetric] pow2_le_iff by simp
qed

lemma dround_pow2: "- 1074 \<le> e \<Longrightarrow> dround (pow2 e) = pow2 e"
  by (rule antisym) (auto intro!: dround_le_pow2 dround_ge_pow2 simp: grid_def)

section \<open>The type of floats\<close>

datatype pyfloat = NInf | Fin rat | PInf | NaN

text \<open>
  The order used for sorting and for the ordering lemmas. Python's comparisons agree with it
  on every pair without a NaN; a comparison with a NaN is false, see \<open>py_le\<close> and \<open>py_less\<close>.
\<close>

fun pyfloat_le :: "pyfloat \<Rightarrow> pyfloat \<Rightarrow> bool" where
  "pyfloat_le NInf _ = True"
| "pyfloat_le (Fin x) (Fin y) = (x \<le> y)"
| "pyfloat_le (Fin _) PInf = True"
| "pyfloat_le PInf PInf = True"
| "pyfloat_le _ NaN = True"
| "pyfloat_le _ _ = False"

instantiation pyfloat :: linorder
begin

definition less_eq_pyfloat :: "pyfloat \<Rightarrow> pyfloat \<Rightarrow> bool" where
  "less_eq_pyfloat x y = pyfloat_le x y"

definition less_pyfloat :: "pyfloat \<Rightarrow> pyfloat \<Rightarrow> bool" where
  "less_pyfloat x y = (pyfloat_le x y \<and> x \<noteq> y)"

instance
proof
  fix x y z :: pyfloat
  show "(x < y) = (x \<le> y \<and> \<not> y \<le> x)"
    by (cases x; cases y) (auto simp: less_eq_pyfloat_def less_pyfloat_def)
  show "x \<le> x" by (cases x) (simp_all add: less_eq_pyfloat_def)
  show "x \<le> y \<Longrightarrow> y \<le> z \<Longrightarrow> x \<le> z"
    by (cases x; cases y; cases z) (auto simp: less_eq_pyfloat_def)
  show "x \<le> y \<Longrightarrow> y \<le> x \<Longrightarrow> x = y"
    by (cases x; cases y) (auto simp: less_eq_pyfloat_def)
  show "x \<le> y \<or> y \<le> x" by (cases x; cases y) (auto simp: less_eq_pyfloat_def)
qed

end

lemma Fin_le [simp]: "Fin x \<le> Fin y \<longleftrightarrow> x \<le> y"
  by (simp add: less_eq_pyfloat_def)

lemma Fin_less [simp]: "Fin x < Fin y \<longleftrightarrow> x < y"
  by (auto simp: less_pyfloat_def)

definition py_le :: "pyfloat \<Rightarrow> pyfloat \<Rightarrow> bool" where
  "py_le x y = (x \<noteq> NaN \<and> y \<noteq> NaN \<and> x \<le> y)"

definition py_less :: "pyfloat \<Rightarrow> pyfloat \<Rightarrow> bool" where
  "py_less x y = (x \<noteq> NaN \<and> y \<noteq> NaN \<and> x < y)"

definition py_eq :: "pyfloat \<Rightarrow> pyfloat \<Rightarrow> bool" where
  "py_eq x y = (x \<noteq> NaN \<and> x = y)"

definition isfinite :: "pyfloat \<Rightarrow> bool" where
  "isfinite x = (case x of Fin _ \<Rightarrow> True | _ \<Rightarrow> False)"

text \<open>\<open>max(a, b)\<close> keeps the first of two equal or unordered arguments.\<close>

definition py_max :: "pyfloat \<Rightarrow> pyfloat \<Rightarrow> pyfloat" where
  "py_max a b = (if py_less a b then b else a)"

section \<open>Rounding, conversion and arithmetic\<close>

text \<open>The float nearest to an exact value; beyond the largest binade the result is infinite.\<close>

definition dbl :: "rat \<Rightarrow> pyfloat" where
  "dbl x = (let r = dround x in
     if pow2 1024 \<le> r then PInf else if r \<le> - pow2 1024 then NInf else Fin r)"

fun fneg :: "pyfloat \<Rightarrow> pyfloat" where
  "fneg NInf = PInf"
| "fneg (Fin x) = Fin (- x)"
| "fneg PInf = NInf"
| "fneg NaN = NaN"

definition fabs :: "pyfloat \<Rightarrow> pyfloat" where
  "fabs x = (case x of NInf \<Rightarrow> PInf | Fin v \<Rightarrow> Fin \<bar>v\<bar> | PInf \<Rightarrow> PInf | NaN \<Rightarrow> NaN)"

fun fadd :: "pyfloat \<Rightarrow> pyfloat \<Rightarrow> pyfloat" where
  "fadd NaN _ = NaN"
| "fadd _ NaN = NaN"
| "fadd (Fin x) (Fin y) = dbl (x + y)"
| "fadd PInf NInf = NaN"
| "fadd NInf PInf = NaN"
| "fadd PInf _ = PInf"
| "fadd NInf _ = NInf"
| "fadd (Fin _) y = y"

definition fsub :: "pyfloat \<Rightarrow> pyfloat \<Rightarrow> pyfloat" where
  "fsub x y = fadd x (fneg y)"

definition fsign :: "pyfloat \<Rightarrow> int" where
  "fsign x = (case x of NInf \<Rightarrow> - 1 | Fin v \<Rightarrow> (if v < 0 then - 1 else if v = 0 then 0 else 1)
              | PInf \<Rightarrow> 1 | NaN \<Rightarrow> 0)"

text \<open>A product with an infinite factor takes its sign; infinity times zero is a NaN.\<close>

definition fmul :: "pyfloat \<Rightarrow> pyfloat \<Rightarrow> pyfloat" where
  "fmul x y = (case (x, y) of (NaN, _) \<Rightarrow> NaN | (_, NaN) \<Rightarrow> NaN
     | (Fin v, Fin w) \<Rightarrow> dbl (v * w)
     | _ \<Rightarrow> (let s = fsign x * fsign y in if s = 0 then NaN else if s < 0 then NInf else PInf))"

text \<open>Division by zero raises; dividing by an infinity gives zero.\<close>

definition fdiv :: "pyfloat \<Rightarrow> pyfloat \<Rightarrow> pyfloat res" where
  "fdiv x y = (if y = Fin 0 then Inl ZeroDivisionError else Inr
     (case (x, y) of (NaN, _) \<Rightarrow> NaN | (_, NaN) \<Rightarrow> NaN
       | (Fin v, Fin w) \<Rightarrow> dbl (v / w)
       | (Fin _, _) \<Rightarrow> Fin 0
       | (_, Fin w) \<Rightarrow> (if fsign x * (if w < 0 then - 1 else 1) < 0 then NInf else PInf)
       | _ \<Rightarrow> NaN))"

text \<open>\<open>float(n)\<close> and the implicit conversion of an \<open>int\<close> operand.\<close>

definition float_of_int :: "int \<Rightarrow> pyfloat res" where
  "float_of_int n = (case dbl (of_int n) of Fin r \<Rightarrow> Inr (Fin r) | _ \<Rightarrow> Inl OverflowError)"

text \<open>\<open>a / b\<close> on two \<open>int\<close>s.\<close>

definition int_truediv :: "int \<Rightarrow> int \<Rightarrow> pyfloat res" where
  "int_truediv a b = (if b = 0 then Inl ZeroDivisionError
     else case dbl (of_int a / of_int b) of Fin r \<Rightarrow> Inr (Fin r) | _ \<Rightarrow> Inl OverflowError)"

text \<open>\<open>round(x, 6)\<close> of a finite float: the nearest six-digit decimal, ties to even, as a float.\<close>

definition fround6 :: "pyfloat \<Rightarrow> pyfloat" where
  "fround6 x = (case x of Fin v \<Rightarrow> dbl (of_int (rhe (v * 10 ^ 6)) / 10 ^ 6) | _ \<Rightarrow> x)"

lemma dbl_0 [simp]: "dbl 0 = Fin 0" and dbl_1 [simp]: "dbl 1 = Fin 1"
  by (simp_all add: dbl_def pow2_def)

lemma dbl_mono: "x \<le> y \<Longrightarrow> dbl x \<le> dbl y"
  using dround_mono [of x y] pow2_pos [of 1024]
  by (auto simp: dbl_def Let_def less_eq_pyfloat_def)

lemma dbl_not_NaN [simp]: "dbl x \<noteq> NaN"
  by (simp add: dbl_def Let_def)

lemma dbl_unit_interval:
  assumes "0 \<le> x" and "x \<le> 1"
  obtains r where "dbl x = Fin r" and "0 \<le> r" and "r \<le> 1"
proof -
  have "Fin 0 \<le> dbl x" "dbl x \<le> Fin 1"
    using dbl_mono [OF assms(1)] dbl_mono [OF assms(2)] by simp_all
  then show thesis by (cases "dbl x") (auto simp: less_eq_pyfloat_def intro: that)
qed

text \<open>A rate \<open>a / b\<close> with \<open>0 \<le> a \<le> b\<close> and \<open>b > 0\<close> is a float between zero and one.\<close>

lemma int_truediv_rate:
  assumes "0 \<le> a" and "a \<le> b" and "0 < b"
  shows "\<exists>r. int_truediv a b = Inr (Fin r) \<and> 0 \<le> r \<and> r \<le> 1"
proof -
  have "0 \<le> (of_int a / of_int b :: rat)" "of_int a / of_int b \<le> (1 :: rat)"
    using assms by (simp_all add: divide_le_eq_1)
  then obtain r where "dbl (of_int a / of_int b) = Fin r" "0 \<le> r" "r \<le> 1"
    by (rule dbl_unit_interval)
  with assms(3) show ?thesis by (simp add: int_truediv_def)
qed

lemma float_of_int_overflow: "2 ^ 1024 \<le> n \<Longrightarrow> float_of_int n = Inl OverflowError"
proof -
  assume "2 ^ 1024 \<le> n"
  then have "(of_int (2 ^ 1024) :: rat) \<le> of_int n" by (simp only: of_int_le_iff)
  then have "pow2 1024 \<le> of_int n"
    using pow2_nat [of 1024] by (simp only: of_nat_numeral)
  from dround_mono [OF this] have "pow2 1024 \<le> dround (of_int n)"
    by (simp only: dround_pow2)
  then have "dbl (of_int n) = PInf" by (simp only: dbl_def Let_def if_True)
  then show ?thesis by (simp add: float_of_int_def)
qed

lemma int_truediv_mono:
  assumes "a \<le> c" and "0 < b" and "int_truediv a b = Inr x" and "int_truediv c b = Inr y"
  shows "x \<le> y"
proof -
  have "(of_int a / of_int b :: rat) \<le> of_int c / of_int b"
    using assms(1,2) by (simp add: divide_right_mono)
  from dbl_mono [OF this] show ?thesis
    using assms(2-4) by (auto simp: int_truediv_def split: pyfloat.splits)
qed

lemma dbl_finite:
  assumes "0 \<le> x" and "x \<le> pow2 1000"
  shows "\<exists>r. dbl x = Fin r \<and> 0 \<le> r"
proof -
  have "0 \<le> dround x" using assms(1) by (rule dround_nonneg)
  moreover have "dround x \<le> pow2 1000"
    using dround_mono [OF assms(2)] by (simp only: dround_pow2)
  moreover have "pow2 1000 < pow2 1024" unfolding not_le [symmetric] pow2_le_iff by simp
  moreover have "- pow2 1024 < 0" using pow2_pos [of 1024] by linarith
  ultimately show ?thesis by (simp only: dbl_def Let_def) (intro exI [of _ "dround x"], auto)
qed

lemma float_of_int_finite:
  assumes "0 \<le> n" and "n \<le> 2 ^ 1000"
  shows "\<exists>r. float_of_int n = Inr (Fin r) \<and> 0 \<le> r"
proof -
  have "(of_int n :: rat) \<le> of_int (2 ^ 1000)" using assms(2) by (simp only: of_int_le_iff)
  then have "of_int n \<le> pow2 1000" using pow2_nat [of 1000] by (simp only: of_nat_numeral)
  moreover have "(0::rat) \<le> of_int n" using assms(1) by simp
  ultimately obtain r where "dbl (of_int n) = Fin r" "0 \<le> r" using dbl_finite by blast
  then show ?thesis by (simp add: float_of_int_def)
qed

lemma float_of_int_pos:
  assumes "1 \<le> n" and "n \<le> 2 ^ 1000"
  shows "\<exists>r. float_of_int n = Inr (Fin r) \<and> 1 \<le> r"
proof -
  obtain r where r: "float_of_int n = Inr (Fin r)" using float_of_int_finite [of n] assms by auto
  have "Fin 1 \<le> dbl (of_int n)" using dbl_mono [of 1 "of_int n"] assms(1) by simp
  then show ?thesis using r by (auto simp: float_of_int_def split: pyfloat.splits)
qed

lemma int_truediv_finite:
  assumes "0 \<le> n" and "n \<le> 2 ^ 1000" and "0 < b"
  shows "\<exists>r. int_truediv n b = Inr (Fin r) \<and> 0 \<le> r"
proof -
  have "(of_int n :: rat) \<le> of_int (2 ^ 1000)" using assms(2) by (simp only: of_int_le_iff)
  then have n: "of_int n \<le> pow2 1000" using pow2_nat [of 1000] by (simp only: of_nat_numeral)
  have "(of_int n / of_int b :: rat) \<le> of_int n"
    using assms(1,3) by (simp add: divide_le_eq mult_le_cancel_left1)
  moreover have "(0::rat) \<le> of_int n / of_int b" using assms by simp
  ultimately obtain r where "dbl (of_int n / of_int b) = Fin r" "0 \<le> r"
    using dbl_finite [of "of_int n / of_int b"] n by (meson order_trans)
  then show ?thesis using assms(3) by (simp add: int_truediv_def)
qed

text \<open>Integers of up to 53 bits are floats.\<close>

lemma abs_less_pow2: "\<bar>n\<bar> < 2 ^ 53 \<Longrightarrow> \<bar>of_int n :: rat\<bar> < pow2 53"
proof -
  assume "\<bar>n\<bar> < 2 ^ 53"
  then have "(of_int \<bar>n\<bar> :: rat) < of_int (2 ^ 53)" by (simp only: of_int_less_iff)
  moreover have "pow2 53 = of_int (2 ^ 53)" using pow2_nat [of 53] by simp
  ultimately show ?thesis by (simp only: of_int_abs)
qed

lemma dround_int:
  assumes "\<bar>n\<bar> < 2 ^ 53"
  shows "dround (of_int n) = of_int n"
proof (cases "n = 0")
  case False
  let ?x = "of_int n :: rat" and ?g = "grid \<bar>of_int n :: rat\<bar>"
  have "pow2 (rexp \<bar>?x\<bar>) \<le> \<bar>?x\<bar>" using False by (intro rexp_bounds) simp
  also have "\<dots> < pow2 53" using assms by (rule abs_less_pow2)
  finally have "rexp \<bar>?x\<bar> < 53" using pow2_mono [of 53 "rexp \<bar>?x\<bar>"] by linarith
  then have g: "?g \<le> 0" by (simp add: grid_def)
  have "?x / pow2 ?g = ?x * of_int (2 ^ nat (- ?g))"
    using pow2_diff_nat [of ?g 0] g by (simp add: divide_inverse)
  then have "?x / pow2 ?g = of_int (n * 2 ^ nat (- ?g))" by simp
  then have "of_int (rhe (?x / pow2 ?g)) = ?x / pow2 ?g" by (metis rhe_of_int)
  then show ?thesis using False by (simp add: dround_def)
qed simp

lemma dbl_int: "\<bar>n\<bar> < 2 ^ 53 \<Longrightarrow> dbl (of_int n) = Fin (of_int n)"
proof -
  assume n: "\<bar>n\<bar> < 2 ^ 53"
  have "\<bar>of_int n :: rat\<bar> < pow2 53"
    using n by (rule abs_less_pow2)
  also have "\<dots> \<le> pow2 1024" by (rule pow2_mono) simp
  finally show ?thesis using dround_int [OF n] by (simp add: dbl_def Let_def abs_less_iff)
qed

end
