(* ===== verification/Json.thy ===== *)
theory Json
  imports PyFloat
begin

text \<open>
  Decoded JSON documents, the input of every validator of the program. \<open>JInt\<close> is a Python
  \<open>int\<close>, \<open>JFloat\<close> a Python \<open>float\<close>, \<open>JObj\<close> a \<open>dict\<close> with string keys in insertion order.
  \<open>isinstance(v, int) and not isinstance(v, bool)\<close> holds of \<open>JInt\<close> only; \<open>record.get(field)\<close>
  is \<open>jget\<close>, with \<open>JNull\<close> for an absent key.
\<close>

datatype json =
    JNull
  | JBool bool
  | JInt int
  | JFloat pyfloat
  | JStr string
  | JArr "json list"
  | JObj "(string \<times> json) list"

type_synonym jrecord = "(string \<times> json) list"

definition jget :: "jrecord \<Rightarrow> string \<Rightarrow> json" where
  "jget r field = dict_get r field JNull"

definition jkeys :: "jrecord \<Rightarrow> string list" where
  "jkeys r = map fst r"

text \<open>\<open>float(value)\<close> for a number; an \<open>int\<close> too large for a float raises \<open>OverflowError\<close>.\<close>

definition json_float :: "json \<Rightarrow> pyfloat res" where
  "json_float v = (case v of JInt n \<Rightarrow> float_of_int n | JFloat x \<Rightarrow> Inr x | _ \<Rightarrow> Inl TypeError)"

lemma jget_Cons [simp]: "jget ((k, v) # r) f = (if f = k then v else jget r f)"
  by (simp add: jget_def dict_get_def)

lemma jget_Nil [simp]: "jget [] f = JNull"
  by (simp add: jget_def)

end
