(* ===== verification/Trace.thy ===== *)
theory Trace
  imports Json
begin

text \<open>
  \<open>trace/schema.py\<close>, \<open>trace/io.py\<close> and \<open>trace/parity.py\<close>: the strict schema of router trace
  records, the numbered line reader, and the comparison of two token sequences. A validator
  takes the decoded JSON value; \<open>json.loads\<close> of a line is the argument \<open>loads\<close>. Error messages
  keep their fixed text, the values interpolated into them and the quotation marks inside them are
  left out. The lemmas give the
  schema every accepted record satisfies, the round trip through the record's JSON form, and
  the meaning of the first mismatch.
\<close>

section \<open>Router events\<close>

record router_trace_event =
  ev_schema_version :: string
  ev_request_id :: string
  ev_conversation_id :: string
  ev_turn_index :: int
  ev_phase :: string
  ev_forward_id :: int
  ev_hook_order :: int
  ev_token_index :: int
  ev_token_id :: int
  ev_layer_id :: int
  ev_selected_expert_ids :: "int list"
  ev_selected_expert_weights :: "pyfloat list option"
  ev_observed_at_ns :: int

definition SCHEMA_VERSION :: string where
  "SCHEMA_VERSION = ''1.0.0''"

definition event_fields :: "string list" where
  "event_fields = [''schema_version'', ''request_id'', ''conversation_id'', ''turn_index'',
     ''phase'', ''forward_id'', ''hook_order'', ''token_index'', ''token_id'', ''layer_id'',
     ''selected_expert_ids'', ''selected_expert_weights'', ''observed_at_ns'']"

definition trace_fail :: "int \<Rightarrow> string \<Rightarrow> py_error" where
  "trace_fail record_number reason = TraceValidationError record_number reason"

definition trace_string :: "jrecord \<Rightarrow> string \<Rightarrow> int \<Rightarrow> string res" where
  "trace_string r field n = (case jget r field of
     JStr s \<Rightarrow> if s = [] then Inl (trace_fail n (field @ '' must be a non-empty string'')) else Inr s
   | _ \<Rightarrow> Inl (trace_fail n (field @ '' must be a non-empty string'')))"

definition trace_uint :: "jrecord \<Rightarrow> string \<Rightarrow> int \<Rightarrow> int option \<Rightarrow> int res" where
  "trace_uint r field n maximum = (case jget r field of
     JInt v \<Rightarrow>
       if v < 0 then Inl (trace_fail n (field @ '' must be a non-negative integer''))
       else (case maximum of
           None \<Rightarrow> Inr v
         | Some m \<Rightarrow> if m < v then Inl (trace_fail n (field @ '' exceeds the maximum'')) else Inr v)
   | _ \<Rightarrow> Inl (trace_fail n (field @ '' must be a non-negative integer'')))"

definition expert_id :: "int \<Rightarrow> json \<Rightarrow> int res" where
  "expert_id n value = (case value of
     JInt v \<Rightarrow> if 0 \<le> v \<and> v \<le> 65535 then Inr v
               else Inl (trace_fail n ''selected_expert_ids must fit unsigned 16-bit'')
   | _ \<Rightarrow> Inl (trace_fail n ''selected_expert_ids must contain integers''))"

definition expert_ids :: "jrecord \<Rightarrow> int \<Rightarrow> int list res" where
  "expert_ids r n = (case jget r ''selected_expert_ids'' of
     JArr (v # vs) \<Rightarrow> rbind (rmap (expert_id n) (v # vs)) (\<lambda>result.
       if \<not> distinct result then Inl (trace_fail n ''selected_expert_ids must be unique'')
       else Inr result)
   | _ \<Rightarrow> Inl (trace_fail n ''selected_expert_ids must be a non-empty array''))"

definition expert_weight :: "int \<Rightarrow> json \<Rightarrow> pyfloat res" where
  "expert_weight n value = (case value of
     JInt _ \<Rightarrow> rbind (json_float value) (\<lambda>converted.
       if \<not> isfinite converted \<or> py_less converted (Fin 0)
       then Inl (trace_fail n ''selected_expert_weights must be finite and non-negative'')
       else Inr converted)
   | JFloat converted \<Rightarrow>
       if \<not> isfinite converted \<or> py_less converted (Fin 0)
       then Inl (trace_fail n ''selected_expert_weights must be finite and non-negative'')
       else Inr converted
   | _ \<Rightarrow> Inl (trace_fail n ''selected_expert_weights must contain numbers''))"

definition expert_weights :: "jrecord \<Rightarrow> int \<Rightarrow> int \<Rightarrow> pyfloat list option res" where
  "expert_weights r expert_count n = (case jget r ''selected_expert_weights'' of
     JNull \<Rightarrow> Inr None
   | JArr vs \<Rightarrow>
       if int (length vs) \<noteq> expert_count
       then Inl (trace_fail n ''selected_expert_weights must have the same length as selected_expert_ids'')
       else rbind (rmap (expert_weight n) vs) (\<lambda>ws. Inr (Some ws))
   | _ \<Rightarrow> Inl (trace_fail n ''selected_expert_weights must be an array or null''))"

definition router_event_of_json :: "json \<Rightarrow> int \<Rightarrow> router_trace_event res" where
  "router_event_of_json j n = (case j of
     JObj r \<Rightarrow>
       if \<not> set (jkeys r) \<subseteq> set event_fields then Inl (trace_fail n ''unknown fields'')
       else if \<not> set event_fields \<subseteq> set (jkeys r) then Inl (trace_fail n ''missing fields'')
       else
         rbind (trace_string r ''schema_version'' n) (\<lambda>schema_version.
         if schema_version \<noteq> SCHEMA_VERSION then Inl (trace_fail n ''unsupported schema_version'') else
         rbind (trace_string r ''phase'' n) (\<lambda>phase.
         if phase \<notin> {''prefill'', ''decode''}
         then Inl (trace_fail n ''phase must be prefill or decode'') else
         rbind (expert_ids r n) (\<lambda>ids.
         rbind (expert_weights r (int (length ids)) n) (\<lambda>weights.
         rbind (trace_string r ''request_id'' n) (\<lambda>request_id.
         rbind (trace_string r ''conversation_id'' n) (\<lambda>conversation_id.
         rbind (trace_uint r ''turn_index'' n (Some 65535)) (\<lambda>turn_index.
         rbind (trace_uint r ''forward_id'' n None) (\<lambda>forward_id.
         rbind (trace_uint r ''hook_order'' n None) (\<lambda>hook_order.
         rbind (trace_uint r ''token_index'' n None) (\<lambda>token_index.
         rbind (trace_uint r ''token_id'' n (Some 4294967295)) (\<lambda>token_id.
         rbind (trace_uint r ''layer_id'' n (Some 65535)) (\<lambda>layer_id.
         rbind (trace_uint r ''observed_at_ns'' n None) (\<lambda>observed_at_ns.
           Inr \<lparr>ev_schema_version = schema_version, ev_request_id = request_id,
             ev_conversation_id = conversation_id, ev_turn_index = turn_index, ev_phase = phase,
             ev_forward_id = forward_id, ev_hook_order = hook_order,
             ev_token_index = token_index, ev_token_id = token_id, ev_layer_id = layer_id,
             ev_selected_expert_ids = ids, ev_selected_expert_weights = weights,
             ev_observed_at_ns = observed_at_ns\<rparr>)))))))))))))
   | _ \<Rightarrow> Inl (trace_fail n ''router event must be a JSON object''))"

text \<open>\<open>loads line\<close> is the decoded document or the decoder's message.\<close>

definition parse_router_event ::
    "('line \<Rightarrow> string + json) \<Rightarrow> 'line \<Rightarrow> int \<Rightarrow> router_trace_event res" where
  "parse_router_event loads line n = (case loads line of
     Inl msg \<Rightarrow> Inl (trace_fail n (''invalid JSON: '' @ msg))
   | Inr record \<Rightarrow> router_event_of_json record n)"

text \<open>The records of a stream, numbered from one, up to the first failure.\<close>

definition load_router_events ::
    "('line \<Rightarrow> string + json) \<Rightarrow> 'line list \<Rightarrow> router_trace_event list res" where
  "load_router_events loads lines =
     rmap (\<lambda>(k, line). parse_router_event loads line (int k)) (enumerate 1 lines)"

subsection \<open>The schema of an accepted record\<close>

definition wf_event :: "router_trace_event \<Rightarrow> bool" where
  "wf_event e \<longleftrightarrow>
     ev_schema_version e = SCHEMA_VERSION \<and> ev_request_id e \<noteq> [] \<and> ev_conversation_id e \<noteq> [] \<and>
     0 \<le> ev_turn_index e \<and> ev_turn_index e \<le> 65535 \<and>
     (ev_phase e = ''prefill'' \<or> ev_phase e = ''decode'') \<and>
     0 \<le> ev_forward_id e \<and> 0 \<le> ev_hook_order e \<and> 0 \<le> ev_token_index e \<and>
     0 \<le> ev_token_id e \<and> ev_token_id e \<le> 4294967295 \<and>
     0 \<le> ev_layer_id e \<and> ev_layer_id e \<le> 65535 \<and>
     ev_selected_expert_ids e \<noteq> [] \<and> distinct (ev_selected_expert_ids e) \<and>
     (\<forall>x \<in> set (ev_selected_expert_ids e). 0 \<le> x \<and> x \<le> 65535) \<and>
     (\<forall>ws. ev_selected_expert_weights e = Some ws \<longrightarrow>
        length ws = length (ev_selected_expert_ids e) \<and>
        (\<forall>w \<in> set ws. \<exists>v. w = Fin v \<and> 0 \<le> v)) \<and>
     0 \<le> ev_observed_at_ns e"

lemma trace_string_InrD: "trace_string r f n = Inr s \<Longrightarrow> jget r f = JStr s \<and> s \<noteq> []"
  by (auto simp: trace_string_def split: json.splits if_splits)

lemma trace_uint_InrD:
  "trace_uint r f n (Some m) = Inr v \<Longrightarrow> jget r f = JInt v \<and> 0 \<le> v \<and> v \<le> m"
  "trace_uint r f n None = Inr v \<Longrightarrow> jget r f = JInt v \<and> 0 \<le> v"
  by (auto simp: trace_uint_def split: json.splits if_splits)

lemma not_notin_pair: "\<not> x \<notin> {a, b} \<Longrightarrow> x = a \<or> x = b"
  by auto

lemma expert_id_InrD: "expert_id n j = Inr v \<Longrightarrow> j = JInt v \<and> 0 \<le> v \<and> v \<le> 65535"
  by (auto simp: expert_id_def split: json.splits if_splits)

lemma expert_id_list:
  "list_all2 (\<lambda>j i. expert_id n j = Inr i) js ids \<Longrightarrow>
     js = map JInt ids \<and> (\<forall>x \<in> set ids. 0 \<le> x \<and> x \<le> 65535)"
  by (induction js ids rule: list_all2_induct) (auto dest: expert_id_InrD)

lemma expert_ids_InrD:
  assumes "expert_ids r n = Inr ids"
  shows "jget r ''selected_expert_ids'' = JArr (map JInt ids) \<and> ids \<noteq> [] \<and> distinct ids
    \<and> (\<forall>x \<in> set ids. 0 \<le> x \<and> x \<le> 65535)"
proof -
  obtain v vs where r: "jget r ''selected_expert_ids'' = JArr (v # vs)"
    and m: "rmap (expert_id n) (v # vs) = Inr ids" and d: "distinct ids"
    using assms
    by (auto simp: expert_ids_def rbind_eq_Inr split: json.splits list.splits if_splits)
  have "v # vs = map JInt ids \<and> (\<forall>x \<in> set ids. 0 \<le> x \<and> x \<le> 65535)"
    by (rule expert_id_list) (use m in \<open>simp only: rmap_eq_Inr\<close>)
  then show ?thesis using r d by (cases ids) auto
qed

lemma isfinite_iff: "isfinite x \<longleftrightarrow> (\<exists>v. x = Fin v)"
  by (cases x) (auto simp: isfinite_def)

lemma expert_weight_InrD: "expert_weight n j = Inr w \<Longrightarrow> \<exists>v. w = Fin v \<and> 0 \<le> v"
  by (auto simp: expert_weight_def rbind_eq_Inr isfinite_iff py_less_def
      split: json.splits if_splits)

lemma expert_weights_InrD:
  assumes "expert_weights r (int k) n = Inr weights"
  shows "\<forall>ws. weights = Some ws \<longrightarrow>
    length ws = k \<and> (\<forall>w \<in> set ws. \<exists>v. w = Fin v \<and> 0 \<le> v)"
proof (intro allI impI)
  fix ws
  assume "weights = Some ws"
  then obtain vs where l: "length vs = k" and m: "rmap (expert_weight n) vs = Inr ws"
    using assms by (auto simp: expert_weights_def rbind_eq_Inr split: json.splits if_splits)
  have "list_all2 (\<lambda>j w. \<exists>v. w = Fin v \<and> 0 \<le> v) vs ws"
    using m unfolding rmap_eq_Inr by (rule list_all2_mono) (rule expert_weight_InrD)
  with l show "length ws = k \<and> (\<forall>w \<in> set ws. \<exists>v. w = Fin v \<and> 0 \<le> v)"
    by (auto simp: list_all2_conv_all_nth in_set_conv_nth)
qed

text \<open>Inversion of an accepted record, used by the schema lemma and by the round trip.\<close>

lemma router_event_of_json_wf:
  assumes "router_event_of_json j n = Inr e"
  shows "wf_event e"
proof -
  obtain r where j: "j = JObj r"
    using assms by (cases j) (simp_all add: router_event_of_json_def)
  show ?thesis
    using assms unfolding j router_event_of_json_def json.case
    apply (simp only: res_simps)
    apply (elim exE conjE)
    apply (drule trace_string_InrD trace_uint_InrD expert_ids_InrD expert_weights_InrD
        not_notin_pair)+
    apply (elim conjE)
    apply (drule Inr_inject, hypsubst)
    apply (simp (no_asm) only: wf_event_def router_trace_event.select_convs)
    apply (intro conjI)
    apply (assumption | simp only: not_not)+
    done
qed

subsection \<open>Round trip through the record's JSON form\<close>

text \<open>The JSON object with exactly the schema's fields, in the dataclass order.\<close>

definition event_record :: "router_trace_event \<Rightarrow> jrecord" where
  "event_record e =
     [(''schema_version'', JStr (ev_schema_version e)),
      (''request_id'', JStr (ev_request_id e)),
      (''conversation_id'', JStr (ev_conversation_id e)),
      (''turn_index'', JInt (ev_turn_index e)),
      (''phase'', JStr (ev_phase e)),
      (''forward_id'', JInt (ev_forward_id e)),
      (''hook_order'', JInt (ev_hook_order e)),
      (''token_index'', JInt (ev_token_index e)),
      (''token_id'', JInt (ev_token_id e)),
      (''layer_id'', JInt (ev_layer_id e)),
      (''selected_expert_ids'', JArr (map JInt (ev_selected_expert_ids e))),
      (''selected_expert_weights'', (case ev_selected_expert_weights e of
          None \<Rightarrow> JNull | Some ws \<Rightarrow> JArr (map JFloat ws))),
      (''observed_at_ns'', JInt (ev_observed_at_ns e))]"

lemma jkeys_event_record [simp]: "jkeys (event_record e) = event_fields"
  by (simp add: jkeys_def event_record_def event_fields_def)

lemma jget_event_record [simp]:
  "jget (event_record e) ''schema_version'' = JStr (ev_schema_version e)"
  "jget (event_record e) ''request_id'' = JStr (ev_request_id e)"
  "jget (event_record e) ''conversation_id'' = JStr (ev_conversation_id e)"
  "jget (event_record e) ''turn_index'' = JInt (ev_turn_index e)"
  "jget (event_record e) ''phase'' = JStr (ev_phase e)"
  "jget (event_record e) ''forward_id'' = JInt (ev_forward_id e)"
  "jget (event_record e) ''hook_order'' = JInt (ev_hook_order e)"
  "jget (event_record e) ''token_index'' = JInt (ev_token_index e)"
  "jget (event_record e) ''token_id'' = JInt (ev_token_id e)"
  "jget (event_record e) ''layer_id'' = JInt (ev_layer_id e)"
  "jget (event_record e) ''selected_expert_ids'' = JArr (map JInt (ev_selected_expert_ids e))"
  "jget (event_record e) ''selected_expert_weights'' =
     (case ev_selected_expert_weights e of None \<Rightarrow> JNull | Some ws \<Rightarrow> JArr (map JFloat ws))"
  "jget (event_record e) ''observed_at_ns'' = JInt (ev_observed_at_ns e)"
  by (simp_all add: event_record_def)

lemma expert_ids_ok:
  assumes "jget r ''selected_expert_ids'' = JArr (map JInt ids)"
    and "ids \<noteq> []" and "distinct ids" and "\<forall>x \<in> set ids. 0 \<le> x \<and> x \<le> 65535"
  shows "expert_ids r n = Inr ids"
proof -
  have "rmap (expert_id n) (map JInt ids) = Inr ids"
    using assms(4) by (simp add: rmap_eq_Inr list_all2_map1 list_all2_same expert_id_def)
  moreover obtain i rest where "ids = i # rest" using assms(2) by (cases ids) auto
  ultimately show ?thesis using assms(1,3) by (simp add: expert_ids_def)
qed

lemma expert_weights_ok:
  assumes "jget r ''selected_expert_weights'' =
      (case weights of None \<Rightarrow> JNull | Some ws \<Rightarrow> JArr (map JFloat ws))"
    and "\<And>ws. weights = Some ws \<Longrightarrow> length ws = k \<and> (\<forall>w \<in> set ws. \<exists>v. w = Fin v \<and> 0 \<le> v)"
  shows "expert_weights r (int k) n = Inr weights"
proof (cases weights)
  case None
  then show ?thesis using assms(1) by (simp add: expert_weights_def)
next
  case (Some ws)
  have "expert_weight n (JFloat w) = Inr w" if "w \<in> set ws" for w
    using assms(2) [OF Some] that by (auto simp: expert_weight_def isfinite_def py_less_def)
  then have "rmap (expert_weight n) (map JFloat ws) = Inr ws"
    by (simp add: rmap_eq_Inr list_all2_map1 list_all2_same)
  then show ?thesis using assms Some by (simp add: expert_weights_def)
qed

lemmas event_record_checks =
  expert_ids_ok [OF jget_event_record(11)] expert_weights_ok [OF jget_event_record(12)]

lemma router_event_roundtrip_lemma:
  assumes "wf_event e"
  shows "router_event_of_json (JObj (event_record e)) n = Inr e"
proof -
  have ids: "expert_ids (event_record e) n = Inr (ev_selected_expert_ids e)"
    using assms by (intro event_record_checks(1)) (auto simp: wf_event_def)
  have ws: "expert_weights (event_record e) (int (length (ev_selected_expert_ids e))) n
      = Inr (ev_selected_expert_weights e)"
    using assms by (intro event_record_checks(2)) (auto simp: wf_event_def)
  have strs: "ev_schema_version e = SCHEMA_VERSION" "SCHEMA_VERSION \<noteq> []" "ev_phase e \<noteq> []"
    "ev_request_id e \<noteq> []" "ev_conversation_id e \<noteq> []"
    and phase: "ev_phase e \<in> {''prefill'', ''decode''}"
    using assms by (auto simp: wf_event_def SCHEMA_VERSION_def)
  show ?thesis
    using assms strs phase
    by (simp add: router_event_of_json_def trace_string_def trace_uint_def ids ws wf_event_def)
qed

section \<open>Token sequences\<close>

record token_sequence =
  prompt_token_ids :: "int list"
  generated_token_ids :: "int list"

definition token_fields :: "string list" where
  "token_fields = [''schema_version'', ''prompt_token_ids'', ''generated_token_ids'']"

definition token_id :: "string \<Rightarrow> json \<Rightarrow> int res" where
  "token_id field value = (case value of
     JInt v \<Rightarrow> if 0 \<le> v \<and> v \<le> 4294967295 then Inr v
       else Inl (TokenSequenceError (field @ '' must contain unsigned 32-bit integers''))
   | _ \<Rightarrow> Inl (TokenSequenceError (field @ '' must contain unsigned 32-bit integers'')))"

definition token_ids :: "jrecord \<Rightarrow> string \<Rightarrow> int list res" where
  "token_ids r field = (case jget r field of
     JArr vs \<Rightarrow> rmap (token_id field) vs
   | _ \<Rightarrow> Inl (TokenSequenceError (field @ '' must be an array'')))"

text \<open>\<open>contents\<close> is the decoded file, or the reader's or decoder's message.\<close>

definition load_token_sequence :: "string + json \<Rightarrow> token_sequence res" where
  "load_token_sequence contents = (case contents of
     Inl msg \<Rightarrow> Inl (TokenSequenceError (''cannot read token sequence: '' @ msg))
   | Inr (JObj r) \<Rightarrow>
       if \<not> set (jkeys r) \<subseteq> set token_fields then Inl (TokenSequenceError ''unknown fields'')
       else if \<not> set token_fields \<subseteq> set (jkeys r) then Inl (TokenSequenceError ''missing fields'')
       else if jget r ''schema_version'' \<noteq> JStr SCHEMA_VERSION
       then Inl (TokenSequenceError ''unsupported schema_version'')
       else rbind (token_ids r ''prompt_token_ids'') (\<lambda>prompt.
         rbind (token_ids r ''generated_token_ids'') (\<lambda>generated.
           Inr \<lparr>prompt_token_ids = prompt, generated_token_ids = generated\<rparr>))
   | Inr _ \<Rightarrow> Inl (TokenSequenceError ''token sequence must be a JSON object''))"

text \<open>
  The loop \<open>for index in range(max(len(baseline), len(instrumented)))\<close> visits the two tuples
  in step; past the end of one of them its token is \<open>None\<close>.
\<close>

fun first_mismatch_from :: "nat \<Rightarrow> int list \<Rightarrow> int list \<Rightarrow> (nat \<times> int option \<times> int option) option" where
  "first_mismatch_from i [] [] = None"
| "first_mismatch_from i (b # bs) [] = Some (i, Some b, None)"
| "first_mismatch_from i [] (c # cs) = Some (i, None, Some c)"
| "first_mismatch_from i (b # bs) (c # cs) =
     (if b \<noteq> c then Some (i, Some b, Some c) else first_mismatch_from (Suc i) bs cs)"

definition first_mismatch :: "int list \<Rightarrow> int list \<Rightarrow> (nat \<times> int option \<times> int option) option" where
  "first_mismatch baseline instrumented = first_mismatch_from 0 baseline instrumented"

record parity_report =
  par_prompt_matches :: bool
  par_generated_matches :: bool
  par_baseline_generated_count :: int
  par_instrumented_generated_count :: int
  par_first_generated_mismatch :: "(nat \<times> int option \<times> int option) option"

definition compare_token_sequences :: "string + json \<Rightarrow> string + json \<Rightarrow> parity_report res" where
  "compare_token_sequences baseline_file instrumented_file =
     rbind (load_token_sequence baseline_file) (\<lambda>baseline.
     rbind (load_token_sequence instrumented_file) (\<lambda>instrumented.
     let mismatch = first_mismatch (generated_token_ids baseline) (generated_token_ids instrumented)
     in Inr \<lparr>par_prompt_matches = (prompt_token_ids baseline = prompt_token_ids instrumented),
          par_generated_matches = (mismatch = None),
          par_baseline_generated_count = int (length (generated_token_ids baseline)),
          par_instrumented_generated_count = int (length (generated_token_ids instrumented)),
          par_first_generated_mismatch = mismatch\<rparr>))"

definition nth_option :: "'a list \<Rightarrow> nat \<Rightarrow> 'a option" where
  "nth_option xs i = (if i < length xs then Some (xs ! i) else None)"

lemma first_mismatch_from_None: "first_mismatch_from i bs cs = None \<longleftrightarrow> bs = cs"
  by (induction i bs cs rule: first_mismatch_from.induct) auto

lemma first_mismatch_from_Some:
  "first_mismatch_from i bs cs = Some (k, x, y) \<Longrightarrow>
     \<exists>j. k = i + j \<and> take j bs = take j cs \<and> x = nth_option bs j \<and> y = nth_option cs j \<and> x \<noteq> y"
proof (induction i bs cs rule: first_mismatch_from.induct)
  case (4 i b bs c cs)
  show ?case
  proof (cases "b = c")
    case True
    with 4 obtain j where "k = Suc i + j" "take j bs = take j cs"
      "x = nth_option bs j" "y = nth_option cs j" "x \<noteq> y" by auto
    with True show ?thesis by (intro exI [of _ "Suc j"]) (auto simp: nth_option_def)
  next
    case False
    with 4 show ?thesis by (intro exI [of _ 0]) (auto simp: nth_option_def)
  qed
qed (auto simp: nth_option_def)

section \<open>Properties\<close>

text \<open>A small well-formed event, at which the properties of the development are applied.\<close>

definition example_event :: "int \<Rightarrow> int \<Rightarrow> int list \<Rightarrow> router_trace_event" where
  "example_event forward layer ids =
     \<lparr>ev_schema_version = SCHEMA_VERSION, ev_request_id = ''r'', ev_conversation_id = ''c'',
      ev_turn_index = 0, ev_phase = ''decode'', ev_forward_id = forward, ev_hook_order = forward,
      ev_token_index = forward, ev_token_id = 7, ev_layer_id = layer,
      ev_selected_expert_ids = ids, ev_selected_expert_weights = None,
      ev_observed_at_ns = 1000000 * forward + layer\<rparr>"

lemma example_event_simps [simp]:
  "ev_request_id (example_event f l ids) = ''r''"
  "ev_conversation_id (example_event f l ids) = ''c''"
  "ev_turn_index (example_event f l ids) = 0"
  "ev_phase (example_event f l ids) = ''decode''"
  "ev_forward_id (example_event f l ids) = f"
  "ev_hook_order (example_event f l ids) = f"
  "ev_token_index (example_event f l ids) = f"
  "ev_token_id (example_event f l ids) = 7"
  "ev_layer_id (example_event f l ids) = l"
  "ev_selected_expert_ids (example_event f l ids) = ids"
  "ev_selected_expert_weights (example_event f l ids) = None"
  "ev_observed_at_ns (example_event f l ids) = 1000000 * f + l"
  by (simp_all add: example_event_def)

lemma wf_example_event:
  "0 \<le> f \<Longrightarrow> 0 \<le> l \<Longrightarrow> l \<le> 65535 \<Longrightarrow> ids \<noteq> [] \<Longrightarrow> distinct ids \<Longrightarrow>
     \<forall>x \<in> set ids. 0 \<le> x \<and> x \<le> 65535 \<Longrightarrow> wf_event (example_event f l ids)"
  by (simp add: wf_event_def) (simp add: example_event_def SCHEMA_VERSION_def)

text \<open>
  C21. Every record the parser accepts satisfies the schema: supported version, non-empty
  identifiers, a known phase, non-negative indices within their widths, a non-empty list of
  distinct 16-bit expert ids, and, when present, one finite non-negative weight per expert.
\<close>

theorem parse_router_event_schema:
  assumes "parse_router_event loads line n = Inr e"
  shows "wf_event e"
  using assms by (auto simp: parse_router_event_def split: sum.splits intro: router_event_of_json_wf)

text \<open>
  Round trip: the parser returns exactly the event whose fields it is given, for every
  well-formed event and whatever the record number.
\<close>

theorem router_event_roundtrip:
  assumes "wf_event e"
  shows "parse_router_event (\<lambda>line. Inr (JObj (event_record line))) e n = Inr e"
  using router_event_roundtrip_lemma [OF assms] by (simp add: parse_router_event_def)

lemma router_event_roundtrip_witness:
  "wf_event (example_event 3 1 [4, 2]) \<and>
   parse_router_event (\<lambda>line. Inr (JObj (event_record line))) (example_event 3 1 [4, 2]) 9
     = Inr (example_event 3 1 [4, 2])"
  using router_event_roundtrip [of "example_event 3 1 [4, 2]" 9]
    wf_example_event [of 3 1 "[4, 2]"] by simp

lemma parse_router_event_schema_witness: "wf_event (example_event 0 5 [1, 0])"
  by (rule parse_router_event_schema
      [of "\<lambda>line. Inr (JObj (event_record line))" "example_event 0 5 [1, 0]" 1])
    (simp add: parse_router_event_def router_event_roundtrip_lemma wf_example_event)

text \<open>
  C22. Reading a stream fails at the first bad record and with that record's one-based number:
  the reported failure is the failure of one line, and every earlier line parses.
\<close>

theorem load_router_events_first_failure:
  assumes "load_router_events loads lines = Inl err"
  shows "\<exists>i < length lines. parse_router_event loads (lines ! i) (int (i + 1)) = Inl err
    \<and> (\<forall>j < i. is_ok (parse_router_event loads (lines ! j) (int (j + 1))))"
proof -
  from rmap_eq_InlD [OF assms [unfolded load_router_events_def]] obtain i
    where "i < length lines"
      "(case enumerate 1 lines ! i of (k, line) \<Rightarrow> parse_router_event loads line (int k)) = Inl err"
      "\<forall>j < i. is_ok (case enumerate 1 lines ! j of (k, line) \<Rightarrow> parse_router_event loads line (int k))"
    by auto
  then show ?thesis by (intro exI [of _ i]) (auto simp: nth_enumerate_eq)
qed

lemma load_router_events_first_failure_witness:
  "\<exists>i < length [JObj (event_record (example_event 0 0 [1])), JNull].
     parse_router_event Inr ([JObj (event_record (example_event 0 0 [1])), JNull] ! i) (int (i + 1))
       = Inl (TraceValidationError 2 ''router event must be a JSON object'')
     \<and> (\<forall>j < i. is_ok (parse_router_event Inr
          ([JObj (event_record (example_event 0 0 [1])), JNull] ! j) (int (j + 1))))"
  by (rule load_router_events_first_failure)
    (simp add: load_router_events_def parse_router_event_def router_event_roundtrip_lemma
      wf_example_event, simp add: router_event_of_json_def trace_fail_def)

text \<open>
  A record is not always rejected with its number: an integer weight beyond the float range
  makes the conversion \<open>float(value)\<close> raise \<open>OverflowError\<close> instead of a validation error.
\<close>

theorem expert_weight_overflow_escapes:
  assumes "2 ^ 1024 \<le> k"
  shows "expert_weight n (JInt k) = Inl OverflowError"
  using float_of_int_overflow [OF assms] by (simp add: expert_weight_def json_float_def)

lemma expert_weight_overflow_escapes_witness:
  "expert_weight 1 (JInt (2 ^ 1024)) = Inl OverflowError"
  by (rule expert_weight_overflow_escapes) simp

text \<open>
  The first mismatch of two token sequences: none exactly when they are equal; otherwise an
  index up to which they agree, with the differing token of each side, absent past its end.
\<close>

theorem first_mismatch_correct:
  "(first_mismatch bs cs = None \<longleftrightarrow> bs = cs) \<and>
   (\<forall>k x y. first_mismatch bs cs = Some (k, x, y) \<longrightarrow>
      take k bs = take k cs \<and> x = nth_option bs k \<and> y = nth_option cs k \<and> x \<noteq> y)"
  using first_mismatch_from_None [of 0 bs cs] first_mismatch_from_Some [of 0 bs cs]
  by (auto simp: first_mismatch_def)

lemma first_mismatch_correct_witness:
  "first_mismatch [1, 2] [1, 2, 3] = Some (2, None, Some 3) \<and>
   take 2 [1, 2 :: int] = take 2 [1, 2, 3]"
  using first_mismatch_correct [of "[1, 2]" "[1, 2, 3]"] by (simp add: first_mismatch_def nth_option_def)

end
