(* ===== verification/Recency.thy ===== *)
theory Recency
  imports Prelude
begin

text \<open>
  The contract of the program's least-recently-used caches, as an interface. \<open>touch\<close> is the
  unbounded recency order of the keys seen so far; a cache of capacity \<open>n\<close> holds the last \<open>n\<close>
  of them. The locale \<open>lru_cache\<close> states that one demand step computes exactly that, and
  proves once what every client needs: a run of demands never fails, and its hits are the
  accesses whose key is among the \<open>n\<close> most recent. That hits can only grow with the capacity is
  then a fact about the specification. The three copies of \<open>_demand\<close> in the predictor package
  are interpretations.
\<close>

section \<open>The last \<open>n\<close> elements\<close>

definition lastn :: "nat \<Rightarrow> 'a list \<Rightarrow> 'a list" where
  "lastn n xs = drop (length xs - n) xs"

lemma lastn_all [simp]: "length xs \<le> n \<Longrightarrow> lastn n xs = xs"
  by (simp add: lastn_def)

lemma length_lastn [simp]: "length (lastn n xs) = min n (length xs)"
  by (auto simp: lastn_def)

lemma distinct_lastn [simp, intro]: "distinct xs \<Longrightarrow> distinct (lastn n xs)"
  by (simp add: lastn_def)

lemma lastn_append_le: "n \<le> length ys \<Longrightarrow> lastn n (xs @ ys) = lastn n ys"
  by (simp add: lastn_def)

lemma lastn_append_ge: "length ys \<le> n \<Longrightarrow> lastn n (xs @ ys) = lastn (n - length ys) xs @ ys"
  by (simp add: lastn_def)

lemma lastn_decomp: obtains p where "xs = p @ lastn n xs" and "p = [] \<or> length (lastn n xs) = n"
proof
  show "xs = take (length xs - n) xs @ lastn n xs" by (simp add: lastn_def)
  show "take (length xs - n) xs = [] \<or> length (lastn n xs) = n" by auto
qed

lemma set_lastn_mono: "m \<le> n \<Longrightarrow> set (lastn m xs) \<subseteq> set (lastn n xs)"
  unfolding lastn_def by (intro set_drop_subset_set_drop diff_le_mono2)

lemma set_lastn_subset: "set (lastn n xs) \<subseteq> set xs"
  by (simp add: lastn_def set_drop_subset)

section \<open>Recency order and the specification of a cache\<close>

definition touch :: "'k list \<Rightarrow> 'k \<Rightarrow> 'k list" where
  "touch r k = filter (\<lambda>x. x \<noteq> k) r @ [k]"

lemma distinct_touch [simp, intro]: "distinct r \<Longrightarrow> distinct (touch r k)"
  by (simp add: touch_def)

lemma distinct_foldl_touch: "distinct r \<Longrightarrow> distinct (foldl touch r ks)"
  by (induction ks arbitrary: r) auto

lemma set_touch [simp]: "set (touch r k) = insert k (set r)"
  by (auto simp: touch_def)

text \<open>The hits of a sequence of accesses against the \<open>n\<close> most recent keys.\<close>

fun recency_hits :: "nat \<Rightarrow> 'k list \<Rightarrow> 'k list \<Rightarrow> bool list" where
  "recency_hits n r [] = []"
| "recency_hits n r (k # ks) = (k \<in> set (lastn n r)) # recency_hits n (touch r k) ks"

definition hit_total :: "bool list \<Rightarrow> nat" where
  "hit_total hs = length (filter id hs)"

lemma hit_total_simps [simp]:
  "hit_total [] = 0" "hit_total (h # hs) = (if h then 1 else 0) + hit_total hs"
  by (simp_all add: hit_total_def)

lemma length_recency_hits [simp]: "length (recency_hits n r ks) = length ks"
  by (induction ks arbitrary: r) auto

text \<open>The stack property: every hit of a smaller cache is a hit of a larger one.\<close>

lemma recency_hits_mono:
  "m \<le> n \<Longrightarrow> list_all2 (\<longrightarrow>) (recency_hits m r ks) (recency_hits n r ks)"
  by (induction ks arbitrary: r) (auto dest: subsetD [OF set_lastn_mono])

lemma hit_total_mono: "list_all2 (\<longrightarrow>) xs ys \<Longrightarrow> hit_total xs \<le> hit_total ys"
  by (induction xs ys rule: list_all2_induct) auto

section \<open>The interface of a demand cache\<close>

text \<open>A run of demands through any demand operation; a raise ends it.\<close>

fun demand_run ::
    "('c \<Rightarrow> 'k \<Rightarrow> (bool \<times> 'c) res) \<Rightarrow> 'c \<Rightarrow> 'k list \<Rightarrow> (bool list \<times> 'c) res" where
  "demand_run demand c [] = Inr ([], c)"
| "demand_run demand c (k # ks) = rbind (demand c k) (\<lambda>(h, c').
     rbind (demand_run demand c' ks) (\<lambda>(hs, c''). Inr (h # hs, c'')))"

locale lru_cache =
  fixes demand :: "'k list \<Rightarrow> 'k \<Rightarrow> (bool \<times> 'k list) res"
    and capacity :: nat
  assumes demand_step: "distinct r \<Longrightarrow>
    demand (lastn capacity r) k
      = Inr (k \<in> set (lastn capacity r), lastn capacity (touch r k))"
begin

lemma demand_bounded:
  assumes "distinct c" and "length c \<le> capacity"
  shows "\<exists>c'. demand c k = Inr (k \<in> set c, c') \<and> distinct c' \<and> length c' \<le> capacity"
  using demand_step [of c k] assms by (auto simp: min_def)

lemma demand_resident:
  assumes "distinct c" and "length c \<le> capacity" and "0 < capacity" and "demand c k = Inr (h, c')"
  shows "k \<in> set c'"
proof -
  have "c' = lastn capacity (touch c k)" using demand_step [of c k] assms by simp
  also have "\<dots> = lastn (capacity - 1) (filter (\<lambda>x. x \<noteq> k) c) @ [k]"
    using assms(3) unfolding touch_def by (subst lastn_append_ge) auto
  finally show ?thesis by simp
qed

lemma run_refines:
  "distinct r \<Longrightarrow> demand_run demand (lastn capacity r) ks
     = Inr (recency_hits capacity r ks, lastn capacity (foldl touch r ks))"
  by (induction ks arbitrary: r) (simp_all add: demand_step)

lemma run_from_empty:
  "demand_run demand [] ks = Inr (recency_hits capacity [] ks, lastn capacity (foldl touch [] ks))"
  using run_refines [of "[]" ks] by simp

end

text \<open>
  The implementation all copies share: a hit moves the key to the end; a miss in a full cache
  first drops the oldest key. \<open>popitem\<close> on an empty dictionary raises \<open>KeyError\<close>.
\<close>

definition demand_impl :: "int \<Rightarrow> 'k list \<Rightarrow> 'k \<Rightarrow> (bool \<times> 'k list) res" where
  "demand_impl capacity c k =
     (if k \<in> set c then Inr (True, move_to_end k c)
      else if capacity \<le> int (length c) then
        (case c of [] \<Rightarrow> Inl KeyError | _ # c' \<Rightarrow> Inr (False, od_insert k c'))
      else Inr (False, od_insert k c))"

lemma demand_impl_step:
  assumes "distinct r"
  shows "demand_impl (int (Suc n)) (lastn (Suc n) r) k
    = Inr (k \<in> set (lastn (Suc n) r), lastn (Suc n) (touch r k))"
proof -
  let ?c = "lastn (Suc n) r"
  obtain p where r: "r = p @ ?c" and full: "p = [] \<or> length ?c = Suc n" by (rule lastn_decomp)
  have dist: "distinct (p @ ?c)" using assms r by metis
  show ?thesis
  proof (cases "k \<in> set ?c")
    case True
    then have "k \<notin> set p" using dist by auto
    then have "touch r k = p @ (remove1 k ?c @ [k])"
      using dist by (subst r) (simp add: touch_def remove1_filter filter_neq_id)
    moreover have "length (remove1 k ?c @ [k]) = length ?c"
      using True length_move_to_end [of k ?c] by (simp add: move_to_end_def)
    ultimately have "lastn (Suc n) (touch r k) = move_to_end k ?c"
      using full by (auto simp: lastn_append_le move_to_end_def)
    with True show ?thesis by (simp add: demand_impl_def)
  next
    case False
    then have t: "touch r k = filter (\<lambda>x. x \<noteq> k) p @ (?c @ [k])"
      by (subst r) (simp add: touch_def filter_neq_id)
    show ?thesis
    proof (cases "length ?c = Suc n")
      case True
      then obtain x c' where c: "?c = x # c'" and lc: "length c' = n" by (cases ?c) auto
      have "lastn (Suc n) (touch r k) = c' @ [k]"
        using lc unfolding t c by (simp add: lastn_def)
      moreover have "k \<notin> set c'" using False c by simp
      ultimately show ?thesis using False lc c by (simp add: demand_impl_def od_insert_def)
    next
      case short: False
      then have "p = []" "length ?c < Suc n" using full by auto
      then have "lastn (Suc n) (touch r k) = ?c @ [k]" unfolding t by simp
      moreover have "length r < Suc n" using \<open>length ?c < Suc n\<close> by auto
      ultimately show ?thesis using False by (simp add: demand_impl_def od_insert_def)
    qed
  qed
qed

end
