(* ===== verification/Cache_Sim.thy ===== *)
theory Cache_Sim
  imports Trace Recency
begin

text \<open>
  \<open>analysis/cache_sim.py\<close>: the three residency policies over a router trace. A trace is a list
  of events; per-layer state is a \<open>dict\<close> from layer to the layer's state. \<open>reactive\<close> keeps
  nothing, \<open>static_hotset\<close> keeps the most frequent experts of each layer, \<open>lru\<close> keeps a
  recency list per layer and admits the missing experts of an event together, evicting the
  oldest expert the event does not need. The lemmas show that no eviction search fails on a
  validated trace, what the recency list holds after each event, that every policy accounts
  for each demand exactly once, and that the static hot set is optimal among fixed resident
  sets of its size.
\<close>

section \<open>Results\<close>

record policy_result =
  pr_policy :: string
  pr_demand_count :: int
  pr_hit_count :: int
  pr_miss_count :: int
  pr_load_count :: int
  pr_preload_count :: int
  pr_hit_rate :: pyfloat

record cache_simulation_report =
  cs_measurement_kind :: string
  cs_capacity_per_layer :: int
  cs_reactive :: policy_result
  cs_static_hotset :: policy_result
  cs_lru :: policy_result

record policy_event_outcome =
  po_event :: router_trace_event
  po_ready :: "int list"
  po_blocking :: "int list"

definition policy_result_of :: "string \<Rightarrow> int \<Rightarrow> int \<Rightarrow> int \<Rightarrow> int \<Rightarrow> policy_result res" where
  "policy_result_of policy demand_count hit_count load_count preload_count =
     rbind (if demand_count \<noteq> 0 then int_truediv hit_count demand_count else Inr (Fin 0)) (\<lambda>rate.
       Inr \<lparr>pr_policy = policy, pr_demand_count = demand_count, pr_hit_count = hit_count,
         pr_miss_count = demand_count - hit_count, pr_load_count = load_count,
         pr_preload_count = preload_count, pr_hit_rate = rate\<rparr>)"

definition ev_width :: "router_trace_event \<Rightarrow> int" where
  "ev_width e = int (length (ev_selected_expert_ids e))"

definition validated_trace :: "router_trace_event list \<Rightarrow> int \<Rightarrow> router_trace_event list res" where
  "validated_trace events capacity =
     (if capacity \<le> 0 then Inl (ValueError ''capacity_per_layer must be positive'')
      else if \<exists>e \<in> set events. capacity < ev_width e
      then Inl (ValueError ''capacity_per_layer cannot be below router top-k'')
      else Inr events)"

section \<open>The static hot set\<close>

text \<open>\<open>defaultdict(Counter)\<close>, updated with the experts of each event in turn.\<close>

definition layer_counts :: "router_trace_event list \<Rightarrow> (int, int counter) dict" where
  "layer_counts trace = foldl (\<lambda>d e.
     dict_set (ev_layer_id e)
       (counter_update (dict_get d (ev_layer_id e) []) (ev_selected_expert_ids e)) d) [] trace"

text \<open>\<open>sorted(counts.items(), key=lambda item: (-item[1], item[0]))\<close>.\<close>

definition by_frequency :: "int counter \<Rightarrow> (int \<times> int) list" where
  "by_frequency counts = sort_key (\<lambda>item. (- snd item, fst item)) counts"

definition hot_set :: "int counter \<Rightarrow> int \<Rightarrow> int set" where
  "hot_set counts capacity = set (map fst (take (nat capacity) (by_frequency counts)))"

definition static_residents :: "router_trace_event list \<Rightarrow> int \<Rightarrow> (int, int set) dict" where
  "static_residents trace capacity =
     map (\<lambda>(layer_id, counts). (layer_id, hot_set counts capacity)) (layer_counts trace)"

definition static_outcome ::
    "(int, int set) dict \<Rightarrow> router_trace_event \<Rightarrow> policy_event_outcome res" where
  "static_outcome residents e = rbind (dict_index residents (ev_layer_id e)) (\<lambda>R.
     Inr \<lparr>po_event = e,
       po_ready = filter (\<lambda>x. x \<in> R) (ev_selected_expert_ids e),
       po_blocking = filter (\<lambda>x. x \<notin> R) (ev_selected_expert_ids e)\<rparr>)"

section \<open>The online LRU policy\<close>

text \<open>First pass over the event's experts: present ones become the newest, the rest block.\<close>

fun lru_scan :: "int list \<Rightarrow> int list \<Rightarrow> int list \<times> int list \<times> int list" where
  "lru_scan cache [] = (cache, [], [])"
| "lru_scan cache (x # xs) =
     (if x \<in> set cache
      then let (cache', ready, blocking) = lru_scan (move_to_end x cache) xs
           in (cache', x # ready, blocking)
      else let (cache', ready, blocking) = lru_scan cache xs
           in (cache', ready, x # blocking))"

text \<open>
  \<open>while len(cache) >= capacity\<close>: delete the oldest expert the event does not require;
  \<open>next\<close> on an exhausted generator raises \<open>StopIteration\<close>.
\<close>

function evict_until :: "int \<Rightarrow> int list \<Rightarrow> int list \<Rightarrow> int list res" where
  "evict_until capacity required cache =
     (if int (length cache) < capacity then Inr cache
      else case find (\<lambda>x. x \<notin> set required) cache of
          None \<Rightarrow> Inl StopIteration
        | Some victim \<Rightarrow> evict_until capacity required (remove1 victim cache))"
  by pat_completeness auto
termination
  by (relation "measure (\<lambda>(capacity, required, cache). length cache)")
    (auto simp: find_Some_iff length_remove1 intro!: diff_less dest: nth_mem)

declare evict_until.simps [simp del]

definition lru_admit :: "int \<Rightarrow> int list \<Rightarrow> int list \<Rightarrow> int \<Rightarrow> int list res" where
  "lru_admit capacity required cache x =
     rbind (evict_until capacity required cache) (\<lambda>cache'. Inr (od_insert x cache'))"

definition lru_event ::
    "int \<Rightarrow> int list \<Rightarrow> router_trace_event \<Rightarrow> (int list \<times> policy_event_outcome) res" where
  "lru_event capacity cache e =
     (let ids = ev_selected_expert_ids e; (cache', ready, blocking) = lru_scan cache ids
      in rbind (rfold (lru_admit capacity ids) cache' blocking) (\<lambda>cache''.
        Inr (cache'', \<lparr>po_event = e, po_ready = ready, po_blocking = blocking\<rparr>)))"

definition lru_step ::
    "int \<Rightarrow> (int, int list) dict \<times> policy_event_outcome list \<Rightarrow> router_trace_event
      \<Rightarrow> ((int, int list) dict \<times> policy_event_outcome list) res" where
  "lru_step capacity s e =
     (let (caches, outcomes) = s in
      rbind (lru_event capacity (dict_get caches (ev_layer_id e) []) e) (\<lambda>(cache, outcome).
        Inr (dict_set (ev_layer_id e) cache caches, outcomes @ [outcome])))"

definition policy_outcomes ::
    "router_trace_event list \<Rightarrow> string \<Rightarrow> int \<Rightarrow> policy_event_outcome list res" where
  "policy_outcomes events policy capacity =
     rbind (validated_trace events capacity) (\<lambda>trace.
       if policy = ''reactive'' then
         Inr (map (\<lambda>e. \<lparr>po_event = e, po_ready = [], po_blocking = ev_selected_expert_ids e\<rparr>) trace)
       else if policy = ''static_hotset'' then
         rmap (static_outcome (static_residents trace capacity)) trace
       else if policy \<noteq> ''lru'' then Inl (ValueError ''unsupported policy'')
       else rbind (rfold (lru_step capacity) ([], []) trace) (\<lambda>(caches, outcomes). Inr outcomes))"

definition demand_total :: "router_trace_event list \<Rightarrow> int" where
  "demand_total trace = sum_list (map ev_width trace)"

definition ready_total :: "policy_event_outcome list \<Rightarrow> int" where
  "ready_total outcomes = sum_list (map (\<lambda>po. int (length (po_ready po))) outcomes)"

definition blocking_total :: "policy_event_outcome list \<Rightarrow> int" where
  "blocking_total outcomes = sum_list (map (\<lambda>po. int (length (po_blocking po))) outcomes)"

definition simulate_policies ::
    "router_trace_event list \<Rightarrow> int \<Rightarrow> cache_simulation_report res" where
  "simulate_policies events capacity =
     rbind (validated_trace events capacity) (\<lambda>trace.
     let demand_count = demand_total trace in
     rbind (policy_result_of ''reactive'' demand_count 0 demand_count 0) (\<lambda>reactive.
     let residents = static_residents trace capacity in
     rbind (policy_outcomes trace ''static_hotset'' capacity) (\<lambda>static_outcomes.
     let static_hits = ready_total static_outcomes;
         static_preloads = sum_list (map (\<lambda>(l, R). int (card R)) residents) in
     rbind (policy_result_of ''static_hotset'' demand_count static_hits
              (demand_count - static_hits) static_preloads) (\<lambda>static_hotset.
     rbind (policy_outcomes trace ''lru'' capacity) (\<lambda>lru_outcomes.
     let lru_hits = ready_total lru_outcomes; lru_loads = blocking_total lru_outcomes in
     rbind (policy_result_of ''lru'' demand_count lru_hits lru_loads 0) (\<lambda>lru.
       Inr \<lparr>cs_measurement_kind = ''estimated'', cs_capacity_per_layer = capacity,
         cs_reactive = reactive, cs_static_hotset = static_hotset, cs_lru = lru\<rparr>))))))"

section \<open>One LRU event\<close>

text \<open>The experts of an event as the simulator sees them: no repeats, at most the capacity.\<close>

definition fits :: "int \<Rightarrow> router_trace_event \<Rightarrow> bool" where
  "fits capacity e \<longleftrightarrow> distinct (ev_selected_expert_ids e) \<and> ev_width e \<le> capacity"

lemma lru_scan_eq:
  "distinct xs \<Longrightarrow> distinct cache \<Longrightarrow> lru_scan cache xs =
     (filter (\<lambda>x. x \<notin> set xs) cache @ filter (\<lambda>x. x \<in> set cache) xs,
      filter (\<lambda>x. x \<in> set cache) xs, filter (\<lambda>x. x \<notin> set cache) xs)"
proof (induction xs arbitrary: cache)
  case Nil
  then show ?case by simp
next
  case (Cons x xs)
  show ?case
  proof (cases "x \<in> set cache")
    case True
    have "filter (\<lambda>y. y \<notin> set xs) (move_to_end x cache)
        = filter (\<lambda>y. y \<notin> set (x # xs)) cache @ [x]"
      using Cons.prems by (auto simp: move_to_end_def remove1_filter intro!: filter_cong)
    with True Cons show ?thesis by simp
  next
    case False
    then have "filter (\<lambda>y. y \<notin> set (x # xs)) cache = filter (\<lambda>y. y \<notin> set xs) cache"
      by (auto intro!: filter_cong)
    with False Cons show ?thesis by simp
  qed
qed

text \<open>Eviction in a cache whose newest part is required and whose older part is not.\<close>

lemma evict_until_split:
  assumes "length old + length cur \<le> nat capacity" and "length cur < nat capacity"
    and "set cur \<subseteq> set required" and "set old \<inter> set required = {}"
  shows "evict_until capacity required (old @ cur)
    = Inr (drop (Suc (length old + length cur) - nat capacity) old @ cur)"
proof (cases "length old + length cur < nat capacity")
  case True
  then have "int (length (old @ cur)) < capacity" by simp
  then show ?thesis using True by (simp add: evict_until.simps)
next
  case False
  with assms obtain v old' where old: "old = v # old'" by (cases old) auto
  with assms have "find (\<lambda>x. x \<notin> set required) (old @ cur) = Some v" by simp
  moreover have "\<not> int (length (old @ cur)) < capacity" using False by simp
  moreover have "int (length (old' @ cur)) < capacity" using assms old by simp
  moreover have "Suc (length old + length cur) - nat capacity = 1" using False assms(1) by simp
  ultimately show ?thesis
    using old by (simp add: evict_until.simps [of _ _ "v # old' @ cur"] evict_until.simps [of _ _ "old' @ cur"])
qed

lemma lru_admit_all:
  assumes "length old + length cur \<le> nat capacity" and "length cur + length bs \<le> nat capacity"
    and "set cur \<subseteq> set required" and "set bs \<subseteq> set required" and "distinct bs"
    and "set bs \<inter> set cur = {}" and "set old \<inter> set required = {}"
  shows "rfold (lru_admit capacity required) (old @ cur) bs
    = Inr (lastn (nat capacity) (old @ cur @ bs))"
  using assms
proof (induction bs arbitrary: old cur)
  case Nil
  then show ?case by simp
next
  case (Cons b bs)
  let ?k = "Suc (length old + length cur) - nat capacity"
  have ev: "evict_until capacity required (old @ cur) = Inr (drop ?k old @ cur)"
    using Cons.prems by (intro evict_until_split) auto
  have new: "b \<notin> set (drop ?k old @ cur)"
    using Cons.prems set_drop_subset [of ?k old] by auto
  have "rfold (lru_admit capacity required) (drop ?k old @ (cur @ [b])) bs
      = Inr (lastn (nat capacity) (drop ?k old @ (cur @ [b]) @ bs))"
    using Cons.prems set_drop_subset [of ?k old] by (intro Cons.IH) auto
  moreover have "lastn (nat capacity) (drop ?k old @ cur @ b # bs)
      = lastn (nat capacity) (old @ cur @ b # bs)"
  proof -
    have "?k = 0 \<or> ?k = 1 \<and> 1 \<le> length old" using Cons.prems(1,2) by auto
    then show ?thesis by (auto simp: lastn_def drop_append Suc_diff_le)
  qed
  moreover have "lru_admit capacity required (old @ cur) b = Inr (drop ?k old @ cur @ [b])"
    using ev new by (simp add: lru_admit_def od_insert_def)
  ultimately show ?case by simp
qed

text \<open>The invariant of a layer's cache.\<close>

definition cache_ok :: "int \<Rightarrow> int list \<Rightarrow> bool" where
  "cache_ok capacity cache \<longleftrightarrow> distinct cache \<and> int (length cache) \<le> capacity"

lemma cache_ok_Nil [simp]: "0 \<le> capacity \<Longrightarrow> cache_ok capacity []"
  by (simp add: cache_ok_def)

text \<open>Making room in a cache that is not full, and in one that is exactly full.\<close>

lemma evict_until_room: "int (length cache) < capacity \<Longrightarrow> evict_until capacity required cache = Inr cache"
  by (simp add: evict_until.simps)

lemma evict_until_full:
  assumes "int (length cache) = capacity" and "find (\<lambda>x. x \<notin> set required) cache = Some v"
  shows "evict_until capacity required cache = Inr (remove1 v cache)"
proof -
  have v: "v \<in> set cache" using assms(2) by (auto simp: find_Some_iff dest: nth_mem)
  then have "length (remove1 v cache) = length cache - 1" by (simp add: length_remove1)
  then have "int (length (remove1 v cache)) < capacity"
    using assms(1) length_pos_if_in_set [OF v] by linarith
  then show ?thesis
    using assms by (simp add: evict_until.simps [of _ _ cache] evict_until.simps [of _ _ "remove1 v cache"])
qed

text \<open>The cache after an event: the last \<open>capacity\<close> of the older experts, then the event's.\<close>

lemma lru_event_eq:
  assumes "fits capacity e" and "distinct cache" and "int (length cache) \<le> capacity"
  defines "ids \<equiv> ev_selected_expert_ids e"
  shows "lru_event capacity cache e = Inr
    (lastn (nat capacity) (filter (\<lambda>x. x \<notin> set ids) cache
        @ filter (\<lambda>x. x \<in> set cache) ids @ filter (\<lambda>x. x \<notin> set cache) ids),
     \<lparr>po_event = e, po_ready = filter (\<lambda>x. x \<in> set cache) ids,
       po_blocking = filter (\<lambda>x. x \<notin> set cache) ids\<rparr>)"
proof -
  let ?old = "filter (\<lambda>x. x \<notin> set ids) cache"
  let ?ready = "filter (\<lambda>x. x \<in> set cache) ids"
  let ?blocking = "filter (\<lambda>x. x \<notin> set cache) ids"
  have ids: "distinct ids" "length ids \<le> nat capacity"
    using assms(1) by (auto simp: fits_def ids_def ev_width_def)
  have "length ?ready \<le> length (filter (\<lambda>x. x \<in> set ids) cache)"
    using ids(1) by (intro distinct_subset_length) auto
  then have "length ?old + length ?ready \<le> nat capacity"
    using assms(3) length_filter_partition [of "\<lambda>x. x \<in> set ids" cache] by linarith
  moreover have "length ?ready + length ?blocking \<le> nat capacity"
    using ids(2) length_filter_partition [of "\<lambda>x. x \<in> set cache" ids] by linarith
  ultimately have "rfold (lru_admit capacity ids) (?old @ ?ready) ?blocking
      = Inr (lastn (nat capacity) (?old @ ?ready @ ?blocking))"
    using ids(1) by (intro lru_admit_all) auto
  then show ?thesis
    using ids(1) assms(2) by (simp add: lru_event_def ids_def [symmetric] lru_scan_eq)
qed

lemma lru_event_ok:
  assumes "fits capacity e" and "cache_ok capacity cache" and "0 \<le> capacity"
  obtains cache' where "lru_event capacity cache e = Inr (cache',
      \<lparr>po_event = e, po_ready = filter (\<lambda>x. x \<in> set cache) (ev_selected_expert_ids e),
       po_blocking = filter (\<lambda>x. x \<notin> set cache) (ev_selected_expert_ids e)\<rparr>)"
    and "cache_ok capacity cache'" and "set (ev_selected_expert_ids e) \<subseteq> set cache'"
    and "set cache' \<subseteq> set cache \<union> set (ev_selected_expert_ids e)"
proof -
  let ?ids = "ev_selected_expert_ids e"
  let ?old = "filter (\<lambda>x. x \<notin> set ?ids) cache"
  let ?new = "filter (\<lambda>x. x \<in> set cache) ?ids @ filter (\<lambda>x. x \<notin> set cache) ?ids"
  let ?cache' = "lastn (nat capacity) (?old @ ?new)"
  have ids: "distinct ?ids" "length ?ids \<le> nat capacity" and c: "distinct cache"
    using assms by (auto simp: fits_def ev_width_def cache_ok_def)
  have len: "length ?new \<le> nat capacity"
    using ids(2) length_filter_partition [of "\<lambda>x. x \<in> set cache" ?ids] by simp
  have "distinct (?old @ ?new)" using ids c by auto
  then have ok: "cache_ok capacity ?cache'"
    using assms(3) by (simp add: cache_ok_def)
  have "set ?new \<subseteq> set ?cache'" using len by (subst lastn_append_ge) auto
  then have sub: "set ?ids \<subseteq> set ?cache'" by auto
  have "set ?cache' \<subseteq> set cache \<union> set ?ids" using set_lastn_subset by fastforce
  with ok sub that show thesis
    using assms by (simp add: lru_event_eq cache_ok_def)
qed

section \<open>Whole traces\<close>

text \<open>An outcome accounts for every demand of its event exactly once.\<close>

definition partitions :: "policy_event_outcome \<Rightarrow> bool" where
  "partitions po \<longleftrightarrow>
     mset (po_ready po) + mset (po_blocking po) = mset (ev_selected_expert_ids (po_event po))"

lemma partitions_filter [simp]:
  "partitions \<lparr>po_event = e, po_ready = filter P (ev_selected_expert_ids e),
     po_blocking = filter (\<lambda>x. \<not> P x) (ev_selected_expert_ids e)\<rparr>"
  by (simp add: partitions_def flip: multiset_partition)

lemma partitions_totals:
  "\<forall>po \<in> set outs. partitions po \<Longrightarrow> ready_total outs + blocking_total outs = demand_total (map po_event outs)"
proof (induction outs)
  case Nil
  then show ?case by (simp add: ready_total_def blocking_total_def demand_total_def)
next
  case (Cons po outs)
  have "size (mset (po_ready po) + mset (po_blocking po)) = length (ev_selected_expert_ids (po_event po))"
    using Cons.prems by (simp add: partitions_def)
  with Cons show ?case
    by (simp add: ready_total_def blocking_total_def demand_total_def ev_width_def)
qed

definition caches_ok :: "int \<Rightarrow> (int, int list) dict \<Rightarrow> bool" where
  "caches_ok capacity caches \<longleftrightarrow> (\<forall>l. cache_ok capacity (dict_get caches l []))"

lemma lru_step_ok:
  assumes "fits capacity e" and "caches_ok capacity caches" and "0 \<le> capacity"
  obtains caches' po where "lru_step capacity (caches, outs) e = Inr (caches', outs @ [po])"
    and "caches_ok capacity caches'" and "po_event po = e" and "partitions po"
    and "set (ev_selected_expert_ids e) \<subseteq> set (dict_get caches' (ev_layer_id e) [])"
proof -
  have "cache_ok capacity (dict_get caches (ev_layer_id e) [])"
    using assms(2) by (simp add: caches_ok_def)
  then obtain cache' where "lru_event capacity (dict_get caches (ev_layer_id e) []) e
      = Inr (cache', \<lparr>po_event = e,
          po_ready = filter (\<lambda>x. x \<in> set (dict_get caches (ev_layer_id e) [])) (ev_selected_expert_ids e),
          po_blocking = filter (\<lambda>x. x \<notin> set (dict_get caches (ev_layer_id e) [])) (ev_selected_expert_ids e)\<rparr>)"
    and "cache_ok capacity cache'" and "set (ev_selected_expert_ids e) \<subseteq> set cache'"
    using assms(1,3) by (blast intro: lru_event_ok)
  with assms(2) show thesis
    by (intro that [of "dict_set (ev_layer_id e) cache' caches" "\<lparr>po_event = e,
          po_ready = filter (\<lambda>x. x \<in> set (dict_get caches (ev_layer_id e) [])) (ev_selected_expert_ids e),
          po_blocking = filter (\<lambda>x. x \<notin> set (dict_get caches (ev_layer_id e) [])) (ev_selected_expert_ids e)\<rparr>"])
      (auto simp: lru_step_def caches_ok_def dict_get_set)
qed

lemma lru_run_ok:
  assumes "\<forall>e \<in> set trace. fits capacity e" and "caches_ok capacity caches" and "0 \<le> capacity"
  shows "\<exists>caches' outs'. rfold (lru_step capacity) (caches, outs) trace = Inr (caches', outs @ outs')
    \<and> caches_ok capacity caches' \<and> map po_event outs' = trace \<and> (\<forall>po \<in> set outs'. partitions po)"
  using assms
proof (induction trace arbitrary: caches outs)
  case Nil
  then show ?case by simp
next
  case (Cons e trace)
  from Cons.prems have "fits capacity e" by simp
  then obtain caches1 po where step: "lru_step capacity (caches, outs) e = Inr (caches1, outs @ [po])"
    "caches_ok capacity caches1" "po_event po = e" "partitions po"
    using Cons.prems(2,3) by (rule lru_step_ok)
  from Cons.IH [of caches1 "outs @ [po]"] Cons.prems step(2)
  obtain caches' outs' where "rfold (lru_step capacity) (caches1, outs @ [po]) trace
      = Inr (caches', (outs @ [po]) @ outs')" "caches_ok capacity caches'"
    "map po_event outs' = trace" "\<forall>po \<in> set outs'. partitions po" by auto
  with step show ?case by (intro exI [of _ caches'] exI [of _ "po # outs'"]) auto
qed

subsection \<open>Frequencies per layer\<close>

definition layer_demand :: "router_trace_event list \<Rightarrow> int \<Rightarrow> int list" where
  "layer_demand trace l = concat (map ev_selected_expert_ids (filter (\<lambda>e. ev_layer_id e = l) trace))"

lemma layer_counts_snoc:
  "layer_counts (trace @ [e]) = dict_set (ev_layer_id e)
     (counter_update (dict_get (layer_counts trace) (ev_layer_id e) []) (ev_selected_expert_ids e))
     (layer_counts trace)"
  by (simp add: layer_counts_def)

lemma layer_counts_Nil [simp]: "layer_counts [] = []"
  by (simp add: layer_counts_def)

lemma keys_layer_counts: "fst ` set (layer_counts trace) = ev_layer_id ` set trace"
  by (induction trace rule: rev_induct) (auto simp: layer_counts_snoc keys_dict_set)

lemma distinct_layer_counts: "distinct (map fst (layer_counts trace))"
  by (induction trace rule: rev_induct) (auto simp: layer_counts_snoc)

lemma layer_counts_get:
  "counter_get (dict_get (layer_counts trace) l []) x = int (count_list (layer_demand trace l) x)"
  by (induction trace rule: rev_induct)
    (auto simp: layer_counts_snoc layer_demand_def dict_get_set counter_get_update count_list_append)

lemma distinct_layer_counter: "distinct (map fst (dict_get (layer_counts trace) l []))"
  by (induction trace rule: rev_induct) (auto simp: layer_counts_snoc dict_get_set)

lemma keys_layer_counter:
  "fst ` set (dict_get (layer_counts trace) l []) = set (layer_demand trace l)"
  by (induction trace rule: rev_induct)
    (auto simp: layer_counts_snoc layer_demand_def dict_get_set keys_counter_update)

lemma map_of_layer_counts:
  "map_of (layer_counts trace) l =
     (if l \<in> ev_layer_id ` set trace then Some (dict_get (layer_counts trace) l []) else None)"
  using keys_layer_counts [of trace] map_of_eq_dict_get [of l "layer_counts trace" "[]"]
  by (auto simp: map_of_eq_None_iff)

lemma residents_index:
  "dict_index (static_residents trace capacity) l =
     (if l \<in> ev_layer_id ` set trace
      then Inr (hot_set (dict_get (layer_counts trace) l []) capacity) else Inl KeyError)"
proof -
  have "map_of (static_residents trace capacity) l
      = map_option (\<lambda>c. hot_set c capacity) (map_of (layer_counts trace) l)"
    by (simp add: static_residents_def map_of_map)
  then show ?thesis by (simp add: dict_index_def map_of_layer_counts)
qed

lemma static_outcomes_eq:
  assumes "set evs \<subseteq> set trace"
  shows "rmap (static_outcome (static_residents trace capacity)) evs
    = Inr (map (\<lambda>e. \<lparr>po_event = e,
        po_ready = filter (\<lambda>x. x \<in> hot_set (dict_get (layer_counts trace) (ev_layer_id e) []) capacity)
          (ev_selected_expert_ids e),
        po_blocking = filter (\<lambda>x. x \<notin> hot_set (dict_get (layer_counts trace) (ev_layer_id e) []) capacity)
          (ev_selected_expert_ids e)\<rparr>) evs)"
  using assms by (intro rmap_all_ok) (auto simp: static_outcome_def residents_index)

section \<open>Optimality of the static hot set\<close>

lemma sum_exchange:
  fixes f :: "'a \<Rightarrow> int"
  assumes "finite R" and "finite T" and "card R \<le> card T"
    and "\<And>x y. x \<in> T \<Longrightarrow> y \<in> R - T \<Longrightarrow> f y \<le> f x" and "\<And>x. x \<in> T \<Longrightarrow> 0 \<le> f x"
  shows "sum f R \<le> sum f T"
proof -
  have "card (R - T) \<le> card (T - R)"
    using assms(1-3) card_le_sym_Diff by blast
  then obtain g where g: "g ` (R - T) \<subseteq> T - R" "inj_on g (R - T)"
    using assms(1,2) card_le_inj [of "R - T" "T - R"] by auto
  have "sum f (R - T) \<le> sum (f \<circ> g) (R - T)" using g(1) assms(4) by (intro sum_mono) auto
  also have "\<dots> = sum f (g ` (R - T))" using g(2) by (simp add: sum.reindex)
  also have "\<dots> \<le> sum f (T - R)" using g(1) assms(2,5) by (intro sum_mono2) auto
  finally have "sum f (R \<inter> T) + sum f (R - T) \<le> sum f (R \<inter> T) + sum f (T - R)" by simp
  moreover have "sum f R = sum f (R \<inter> T) + sum f (R - T)"
    using assms(1) by (rule sum.Int_Diff)
  moreover have "sum f T = sum f (R \<inter> T) + sum f (T - R)"
    using assms(2) sum.Int_Diff [of T f R] by (simp add: Int_commute)
  ultimately show ?thesis by simp
qed

lemma by_frequency_simps [simp]:
  "mset (by_frequency c) = mset c" "set (by_frequency c) = set c"
  "length (by_frequency c) = length c"
  by (simp_all add: by_frequency_def)

lemma by_frequency_sorted:
  assumes "i \<le> j" and "j < length c"
  shows "snd (by_frequency c ! j) \<le> snd (by_frequency c ! i)"
proof -
  have "sorted (map (\<lambda>item. (- snd item, fst item)) (by_frequency c))"
    unfolding by_frequency_def by (rule sorted_sort_key)
  then have "(- snd (by_frequency c ! i), fst (by_frequency c ! i))
      \<le> (- snd (by_frequency c ! j), fst (by_frequency c ! j))"
    using assms by (auto dest: sorted_nth_mono)
  then show ?thesis by (auto simp: less_eq_prod_def)
qed

lemma hot_set_dominates:
  assumes "distinct (map fst c)" and "x \<in> hot_set c k" and "y \<in> fst ` set c" and "y \<notin> hot_set c k"
  shows "counter_get c y \<le> counter_get c x"
proof -
  let ?ys = "by_frequency c"
  obtain i where i: "i < length c" "i < nat k" "x = fst (?ys ! i)"
    using assms(2) by (auto simp: hot_set_def in_set_conv_nth)
  obtain j where j: "j < length c" "y = fst (?ys ! j)"
    using assms(3) by (metis (no_types, lifting) by_frequency_simps(2,3) image_iff in_set_conv_nth)
  have "\<not> j < nat k"
  proof
    assume "j < nat k"
    then have "?ys ! j \<in> set (take (nat k) ?ys)" using j(1) by (auto simp: in_set_conv_nth)
    then show False using assms(4) j(2) by (auto simp: hot_set_def)
  qed
  with i(2) have "snd (?ys ! j) \<le> snd (?ys ! i)" using j(1) by (intro by_frequency_sorted) auto
  moreover have "?ys ! i \<in> set c" "?ys ! j \<in> set c"
    using i(1) j(1) by (metis by_frequency_simps(2,3) nth_mem)+
  then have "snd (?ys ! i) = counter_get c x" "snd (?ys ! j) = counter_get c y"
    using i(3) j(2) assms(1) by (metis counter_entry_get prod.collapse)+
  ultimately show ?thesis by simp
qed

lemma card_hot_set:
  assumes "distinct (map fst c)"
  shows "card (hot_set c k) = min (length c) (nat k)"
proof -
  have "distinct (map fst (by_frequency c))"
    using assms mset_eq_imp_distinct_iff [of "map fst (by_frequency c)" "map fst c"] by simp
  then have "distinct (map fst (take (nat k) (by_frequency c)))"
    by (simp only: distinct_take flip: take_map)
  then show ?thesis
    unfolding hot_set_def by (simp only: distinct_card length_map length_take by_frequency_simps)
qed

lemma hot_set_optimal:
  assumes "distinct (map fst c)" and "\<And>x. 0 \<le> counter_get c x" and "finite R" and "card R \<le> nat k"
  shows "sum (counter_get c) R \<le> sum (counter_get c) (hot_set c k)"
proof -
  let ?K = "fst ` set c"
  let ?T = "hot_set c k"
  have zero: "counter_get c x = 0" if "x \<notin> ?K" for x
    using that by (simp add: counter_get_def dict_get_absent)
  have fin: "finite ?T" by (simp add: hot_set_def)
  have TK: "?T \<subseteq> ?K" unfolding hot_set_def by (force dest: in_set_takeD)
  have "sum (counter_get c) R = sum (counter_get c) (R \<inter> ?K)"
    using assms(3) zero by (intro sum.mono_neutral_right) auto
  also have "\<dots> \<le> sum (counter_get c) ?T"
  proof (cases "length c \<le> nat k")
    case True
    then have "?T = ?K" by (simp add: hot_set_def)
    then show ?thesis using assms(2) fin by (intro sum_mono2) auto
  next
    case False
    have "card (R \<inter> ?K) \<le> card R" using assms(3) by (intro card_mono) auto
    with False assms have "card (R \<inter> ?K) \<le> card ?T" by (simp add: card_hot_set)
    then show ?thesis using assms(1-3) fin by (intro sum_exchange) (auto intro: hot_set_dominates)
  qed
  finally show ?thesis .
qed

text \<open>The demands of a trace a fixed choice \<open>R\<close> of resident sets serves.\<close>

definition served_by :: "(int \<Rightarrow> int set) \<Rightarrow> router_trace_event list \<Rightarrow> int" where
  "served_by R trace =
     sum_list (map (\<lambda>e. int (length (filter (\<lambda>x. x \<in> R (ev_layer_id e)) (ev_selected_expert_ids e)))) trace)"

lemma length_filter_sum_count:
  assumes "finite R"
  shows "int (length (filter (\<lambda>x. x \<in> R) xs)) = (\<Sum>x \<in> R. int (count_list xs x))"
proof (induction xs)
  case Nil
  then show ?case by simp
next
  case (Cons a xs)
  have "(\<Sum>x \<in> R. int (count_list (a # xs) x))
      = (\<Sum>x \<in> R. (if a = x then 1 else 0) + int (count_list xs x))"
    by (intro sum.cong) auto
  also have "\<dots> = (if a \<in> R then 1 else 0) + int (length (filter (\<lambda>x. x \<in> R) xs))"
    using assms Cons by (simp add: sum.distrib sum.delta)
  finally show ?case by simp
qed

lemma sum_list_by_group:
  fixes f :: "'a \<Rightarrow> int"
  shows "finite L \<Longrightarrow> g ` set xs \<subseteq> L \<Longrightarrow>
    sum_list (map f xs) = (\<Sum>l \<in> L. sum_list (map f (filter (\<lambda>x. g x = l) xs)))"
proof (induction xs)
  case Nil
  then show ?case by simp
next
  case (Cons x xs)
  have "(\<Sum>l \<in> L. sum_list (map f (filter (\<lambda>y. g y = l) (x # xs))))
      = (\<Sum>l \<in> L. (if g x = l then f x else 0) + sum_list (map f (filter (\<lambda>y. g y = l) xs)))"
    by (intro sum.cong) auto
  also have "\<dots> = f x + sum_list (map f xs)"
    using Cons by (simp add: sum.distrib sum.delta')
  finally show ?case by simp
qed

lemma served_by_layers:
  assumes "\<And>l. finite (R l)"
  shows "served_by R trace = (\<Sum>l \<in> ev_layer_id ` set trace.
    \<Sum>x \<in> R l. int (count_list (layer_demand trace l) x))"
proof -
  have "sum_list (map (\<lambda>e. int (length (filter (\<lambda>x. x \<in> R (ev_layer_id e)) (ev_selected_expert_ids e))))
        (filter (\<lambda>e. ev_layer_id e = l) trace))
      = (\<Sum>x \<in> R l. int (count_list (layer_demand trace l) x))" for l
    using assms [of l] unfolding layer_demand_def
    by (induction trace) (auto simp: length_filter_sum_count count_list_append sum.distrib)
  then show ?thesis
    unfolding served_by_def by (subst sum_list_by_group [of "ev_layer_id ` set trace" ev_layer_id]) auto
qed

lemma served_by_hot_set_max:
  assumes "\<And>l. finite (R l) \<and> card (R l) \<le> nat capacity"
  shows "served_by R trace \<le>
    served_by (\<lambda>l. hot_set (dict_get (layer_counts trace) l []) capacity) trace"
proof -
  have "served_by R trace = (\<Sum>l \<in> ev_layer_id ` set trace.
      sum (counter_get (dict_get (layer_counts trace) l [])) (R l))"
    using assms by (simp add: served_by_layers layer_counts_get)
  also have "\<dots> \<le> (\<Sum>l \<in> ev_layer_id ` set trace. sum (counter_get (dict_get (layer_counts trace) l []))
      (hot_set (dict_get (layer_counts trace) l []) capacity))"
    using assms by (intro sum_mono hot_set_optimal)
      (auto simp: distinct_layer_counter layer_counts_get)
  also have "\<dots> = served_by (\<lambda>l. hot_set (dict_get (layer_counts trace) l []) capacity) trace"
    by (subst served_by_layers) (auto simp: hot_set_def layer_counts_get)
  finally show ?thesis .
qed

section \<open>Every policy on a validated trace\<close>

definition trace_fits :: "int \<Rightarrow> router_trace_event list \<Rightarrow> bool" where
  "trace_fits capacity events \<longleftrightarrow> 0 < capacity \<and> (\<forall>e \<in> set events. fits capacity e)"

lemma validated_trace_ok [simp]: "trace_fits capacity events \<Longrightarrow> validated_trace events capacity = Inr events"
  by (auto simp: trace_fits_def validated_trace_def fits_def not_less)

lemma wf_trace_fits:
  assumes "validated_trace events capacity = Inr trace" and "\<forall>e \<in> set events. wf_event e"
  shows "trace_fits capacity events"
  using assms by (auto simp: trace_fits_def validated_trace_def fits_def wf_event_def not_less
      split: if_splits)

lemma reactive_outcomes:
  "trace_fits capacity events \<Longrightarrow> policy_outcomes events ''reactive'' capacity =
     Inr (map (\<lambda>e. \<lparr>po_event = e, po_ready = [], po_blocking = ev_selected_expert_ids e\<rparr>) events)"
  by (simp add: policy_outcomes_def)

lemma static_outcomes:
  "trace_fits capacity events \<Longrightarrow> \<exists>outs. policy_outcomes events ''static_hotset'' capacity = Inr outs
     \<and> map po_event outs = events \<and> (\<forall>po \<in> set outs. partitions po)
     \<and> ready_total outs
         = served_by (\<lambda>l. hot_set (dict_get (layer_counts events) l []) capacity) events"
  by (auto simp: policy_outcomes_def static_outcomes_eq ready_total_def served_by_def o_def)

lemma lru_outcomes:
  assumes "trace_fits capacity events"
  shows "\<exists>outs. policy_outcomes events ''lru'' capacity = Inr outs
    \<and> map po_event outs = events \<and> (\<forall>po \<in> set outs. partitions po)"
proof -
  have "caches_ok capacity []" using assms by (simp add: caches_ok_def trace_fits_def)
  then obtain caches outs where "rfold (lru_step capacity) ([], []) events = Inr (caches, outs)"
    "map po_event outs = events" "\<forall>po \<in> set outs. partitions po"
    using lru_run_ok [of events capacity "[]" "[]"] assms by (auto simp: trace_fits_def)
  then show ?thesis using assms by (simp add: policy_outcomes_def)
qed

lemma policy_outcomes_accounts_lemma:
  assumes "trace_fits capacity events" and "policy \<in> {''reactive'', ''static_hotset'', ''lru''}"
  shows "\<exists>outs. policy_outcomes events policy capacity = Inr outs
    \<and> map po_event outs = events \<and> (\<forall>po \<in> set outs. partitions po)"
  using assms(2) reactive_outcomes [OF assms(1)] static_outcomes [OF assms(1)]
    lru_outcomes [OF assms(1)]
  by (auto simp: partitions_def o_def)

lemma demand_total_nonneg: "0 \<le> demand_total events"
  unfolding demand_total_def by (intro sum_list_nonneg) (auto simp: ev_width_def)

lemma ready_total_nonneg: "0 \<le> ready_total outs"
  unfolding ready_total_def by (intro sum_list_nonneg) auto

lemma blocking_total_nonneg: "0 \<le> blocking_total outs"
  unfolding blocking_total_def by (intro sum_list_nonneg) auto

text \<open>The hits of a policy as a number between zero and the demand, and the result built from it.\<close>

definition result_consistent :: "policy_result \<Rightarrow> bool" where
  "result_consistent r \<longleftrightarrow> 0 \<le> pr_hit_count r \<and> 0 \<le> pr_miss_count r \<and>
     pr_hit_count r + pr_miss_count r = pr_demand_count r \<and> pr_load_count r = pr_miss_count r \<and>
     (\<exists>rate. pr_hit_rate r = Fin rate \<and> 0 \<le> rate \<and> rate \<le> 1)"

lemma policy_result_of_ok:
  assumes "0 \<le> hits" and "hits \<le> demand"
  shows "\<exists>r. policy_result_of policy demand hits (demand - hits) preload = Inr r
    \<and> result_consistent r \<and> pr_policy r = policy \<and> pr_demand_count r = demand
    \<and> pr_hit_count r = hits \<and> pr_preload_count r = preload"
proof (cases "demand = 0")
  case True
  then show ?thesis using assms by (simp add: policy_result_of_def result_consistent_def)
next
  case False
  with assms obtain rate where "int_truediv hits demand = Inr (Fin rate)" "0 \<le> rate" "rate \<le> 1"
    using int_truediv_rate [of hits demand] by auto
  with False assms show ?thesis by (simp add: policy_result_of_def result_consistent_def)
qed

lemma simulate_policies_ok:
  assumes "trace_fits capacity events"
  shows "\<exists>r static_outs lru_outs. simulate_policies events capacity = Inr r
    \<and> policy_outcomes events ''static_hotset'' capacity = Inr static_outs
    \<and> policy_outcomes events ''lru'' capacity = Inr lru_outs
    \<and> result_consistent (cs_reactive r) \<and> result_consistent (cs_static_hotset r)
    \<and> result_consistent (cs_lru r)
    \<and> pr_demand_count (cs_reactive r) = demand_total events
    \<and> pr_demand_count (cs_static_hotset r) = demand_total events
    \<and> pr_demand_count (cs_lru r) = demand_total events
    \<and> pr_hit_count (cs_reactive r) = 0
    \<and> pr_hit_count (cs_static_hotset r) = ready_total static_outs
    \<and> pr_hit_count (cs_lru r) = ready_total lru_outs
    \<and> ready_total lru_outs + blocking_total lru_outs = demand_total events
    \<and> ready_total static_outs + blocking_total static_outs = demand_total events"
proof -
  obtain so where so: "policy_outcomes events ''static_hotset'' capacity = Inr so"
    "map po_event so = events" "\<forall>po \<in> set so. partitions po"
    using static_outcomes [OF assms] by blast
  obtain lo where lo: "policy_outcomes events ''lru'' capacity = Inr lo"
    "map po_event lo = events" "\<forall>po \<in> set lo. partitions po"
    using lru_outcomes [OF assms] by blast
  have st: "ready_total so + blocking_total so = demand_total events"
    and lt: "ready_total lo + blocking_total lo = demand_total events"
    using partitions_totals [OF so(3)] partitions_totals [OF lo(3)] by (simp_all only: so(2) lo(2))
  let ?D = "demand_total events"
  have bl: "blocking_total lo = ?D - ready_total lo" using lt by simp
  obtain r1 where r1: "policy_result_of ''reactive'' ?D 0 ?D 0 = Inr r1"
    "result_consistent r1" "pr_demand_count r1 = ?D" "pr_hit_count r1 = 0"
    using policy_result_of_ok [of 0 ?D "''reactive''" 0] demand_total_nonneg [of events] by auto
  obtain r2 where r2: "policy_result_of ''static_hotset'' ?D (ready_total so) (?D - ready_total so)
      (sum_list (map (\<lambda>(l, R). int (card R)) (static_residents events capacity))) = Inr r2"
    "result_consistent r2" "pr_demand_count r2 = ?D" "pr_hit_count r2 = ready_total so"
    using policy_result_of_ok [of "ready_total so" ?D] st blocking_total_nonneg [of so]
      ready_total_nonneg [of so] by (metis add_increasing2 order_refl)
  obtain r3 where r3: "policy_result_of ''lru'' ?D (ready_total lo) (?D - ready_total lo) 0 = Inr r3"
    "result_consistent r3" "pr_demand_count r3 = ?D" "pr_hit_count r3 = ready_total lo"
    using policy_result_of_ok [of "ready_total lo" ?D] lt blocking_total_nonneg [of lo]
      ready_total_nonneg [of lo] by (metis add_increasing2 order_refl)
  let ?r = "\<lparr>cs_measurement_kind = ''estimated'', cs_capacity_per_layer = capacity,
    cs_reactive = r1, cs_static_hotset = r2, cs_lru = r3\<rparr>"
  have "simulate_policies events capacity = Inr ?r"
    by (simp only: simulate_policies_def Let_def validated_trace_ok [OF assms] so(1) lo(1) bl
        r1(1) r2(1) r3(1) rbind_Inr)
  with so lo r1 r2 r3 st lt show ?thesis
    by (intro exI [of _ ?r] exI [of _ so] exI [of _ lo])
      (simp only: cache_simulation_report.select_convs)
qed

section \<open>Properties\<close>

text \<open>
  C16. On a trace of well-formed events that passes validation, every policy returns: no eviction
  search raises \<open>StopIteration\<close>, there is one outcome per event in trace order, and the ready and
  blocking experts of an outcome are together exactly the experts the event demands.
\<close>

theorem policy_outcomes_account_for_demand:
  assumes "validated_trace events capacity = Inr trace" and "\<forall>e \<in> set events. wf_event e"
    and "policy \<in> {''reactive'', ''static_hotset'', ''lru''}"
  shows "\<exists>outs. policy_outcomes events policy capacity = Inr outs
    \<and> map po_event outs = events \<and> (\<forall>po \<in> set outs. partitions po)"
  using policy_outcomes_accounts_lemma [OF wf_trace_fits [OF assms(1,2)] assms(3)] .

definition example_trace :: "router_trace_event list" where
  "example_trace = [example_event 0 0 [1, 2], example_event 1 0 [2, 3], example_event 2 0 [1, 2]]"

lemma example_trace_wf [simp]: "\<forall>e \<in> set example_trace. wf_event e"
  by (simp add: example_trace_def wf_example_event)

lemma example_trace_valid [simp]: "validated_trace example_trace 2 = Inr example_trace"
  by (simp add: validated_trace_def example_trace_def ev_width_def)

lemma example_trace_fits: "trace_fits 2 example_trace"
  by (rule wf_trace_fits [OF example_trace_valid example_trace_wf])

lemma policy_outcomes_account_for_demand_witness:
  "\<exists>outs. policy_outcomes example_trace ''lru'' 2 = Inr outs
    \<and> map po_event outs = example_trace \<and> (\<forall>po \<in> set outs. partitions po)"
  by (rule policy_outcomes_account_for_demand [OF example_trace_valid example_trace_wf]) simp

text \<open>
  C18. The LRU step implements the recency specification: from a cache of distinct experts within
  the capacity, an event of at most \<open>capacity\<close> distinct experts leaves the newest \<open>capacity\<close> of the
  sequence (older experts not demanded, demanded and resident, demanded and missing), and its
  ready and blocking lists are the demanded experts in and out of the old cache.
\<close>

theorem lru_event_refines_recency:
  assumes "fits capacity e" and "distinct cache" and "int (length cache) \<le> capacity"
  shows "lru_event capacity cache e = Inr
    (lastn (nat capacity)
       (filter (\<lambda>x. x \<notin> set (ev_selected_expert_ids e)) cache
        @ filter (\<lambda>x. x \<in> set cache) (ev_selected_expert_ids e)
        @ filter (\<lambda>x. x \<notin> set cache) (ev_selected_expert_ids e)),
     \<lparr>po_event = e, po_ready = filter (\<lambda>x. x \<in> set cache) (ev_selected_expert_ids e),
       po_blocking = filter (\<lambda>x. x \<notin> set cache) (ev_selected_expert_ids e)\<rparr>)"
  by (rule lru_event_eq [OF assms])

lemma lru_event_refines_recency_witness:
  "lru_event 3 [7, 5, 9] (example_event 0 0 [4, 5]) = Inr ([9, 5, 4],
     \<lparr>po_event = example_event 0 0 [4, 5], po_ready = [5], po_blocking = [4]\<rparr>)"
  using lru_event_refines_recency [of 3 "example_event 0 0 [4, 5]" "[7, 5, 9]"]
  by (simp add: fits_def ev_width_def lastn_def numeral_2_eq_2 numeral_3_eq_3)

text \<open>
  C17. The static hot set is optimal: no assignment of at most \<open>capacity\<close> fixed resident experts to
  each layer serves more demands of the trace than the policy reports as ready.
\<close>

theorem static_hotset_optimal:
  assumes "validated_trace events capacity = Inr trace" and "\<forall>e \<in> set events. wf_event e"
    and "policy_outcomes events ''static_hotset'' capacity = Inr outs"
    and "\<forall>l. finite (R l) \<and> card (R l) \<le> nat capacity"
  shows "served_by R events \<le> ready_total outs"
proof -
  from static_outcomes [OF wf_trace_fits [OF assms(1,2)]] assms(3)
  have "ready_total outs = served_by (\<lambda>l. hot_set (dict_get (layer_counts events) l []) capacity) events"
    by auto
  then show ?thesis using served_by_hot_set_max [of R capacity events] assms(4) by simp
qed

lemma static_hotset_optimal_witness:
  "\<exists>outs. policy_outcomes example_trace ''static_hotset'' 2 = Inr outs
    \<and> served_by (\<lambda>l. {1, 3}) example_trace \<le> ready_total outs"
  using static_outcomes [OF example_trace_fits]
    static_hotset_optimal [OF example_trace_valid example_trace_wf, of _ "\<lambda>l. {1, 3}"] by auto

text \<open>
  C19. The aggregate simulation of well-formed events that pass validation returns, and its three
  results are consistent: hits and misses are non-negative and add up to the demand of the trace,
  loads equal misses, and the hit rate is a float between zero and one; the reactive policy never
  hits.
\<close>

theorem simulate_policies_consistent:
  assumes "validated_trace events capacity = Inr trace" and "\<forall>e \<in> set events. wf_event e"
  shows "\<exists>r. simulate_policies events capacity = Inr r
    \<and> result_consistent (cs_reactive r) \<and> pr_demand_count (cs_reactive r) = demand_total events
    \<and> pr_hit_count (cs_reactive r) = 0
    \<and> result_consistent (cs_static_hotset r) \<and> pr_demand_count (cs_static_hotset r) = demand_total events
    \<and> result_consistent (cs_lru r) \<and> pr_demand_count (cs_lru r) = demand_total events"
  using simulate_policies_ok [OF wf_trace_fits [OF assms]] by (elim exE conjE) (intro exI conjI; assumption)

lemma simulate_policies_consistent_witness:
  "\<exists>r. simulate_policies example_trace 2 = Inr r
    \<and> result_consistent (cs_reactive r) \<and> pr_demand_count (cs_reactive r) = demand_total example_trace
    \<and> pr_hit_count (cs_reactive r) = 0
    \<and> result_consistent (cs_static_hotset r)
    \<and> pr_demand_count (cs_static_hotset r) = demand_total example_trace
    \<and> result_consistent (cs_lru r) \<and> pr_demand_count (cs_lru r) = demand_total example_trace"
  by (rule simulate_policies_consistent [OF example_trace_valid example_trace_wf])

end
