(* ===== verification/Replay.thy ===== *)
theory Replay
  imports Cache_Sim
begin

text \<open>
  \<open>analysis/replay.py\<close>: the causal timeline of one policy, built from the outcomes of the cache
  simulator, or from a hot set fitted on separate training events. The lemmas show that the
  replay and the aggregate simulation report the same hits and misses, and that a held-out
  replay accounts for every demand.
\<close>

record replay_timeline_event =
  rt_request_id :: string
  rt_phase :: string
  rt_forward_id :: int
  rt_token_index :: int
  rt_token_id :: int
  rt_layer_id :: int
  rt_ready_expert_ids :: "int list"
  rt_blocking_expert_ids :: "int list"
  rt_status :: string

record policy_replay =
  rp_measurement_kind :: string
  rp_policy :: string
  rp_capacity_per_layer :: int
  rp_event_count :: int
  rp_demand_count :: int
  rp_hit_count :: int
  rp_miss_count :: int
  rp_timeline :: "replay_timeline_event list"

definition timeline_event :: "policy_event_outcome \<Rightarrow> replay_timeline_event" where
  "timeline_event outcome =
     \<lparr>rt_request_id = ev_request_id (po_event outcome), rt_phase = ev_phase (po_event outcome),
      rt_forward_id = ev_forward_id (po_event outcome),
      rt_token_index = ev_token_index (po_event outcome),
      rt_token_id = ev_token_id (po_event outcome), rt_layer_id = ev_layer_id (po_event outcome),
      rt_ready_expert_ids = po_ready outcome, rt_blocking_expert_ids = po_blocking outcome,
      rt_status = (if po_blocking outcome \<noteq> [] then ''blocking'' else ''ready'')\<rparr>"

text \<open>The outcomes of a hot set fitted on \<open>training\<close>, with the checks in the code's order.\<close>

definition trained_outcomes ::
    "router_trace_event list \<Rightarrow> string \<Rightarrow> int \<Rightarrow> router_trace_event list
      \<Rightarrow> policy_event_outcome list res" where
  "trained_outcomes events policy capacity training =
     (if policy \<noteq> ''static_hotset''
      then Inl (ValueError ''static_training_events require the static_hotset policy'')
      else if training = [] then Inl (ValueError ''static_training_events must not be empty'')
      else if capacity \<le> 0 \<or> (\<exists>e \<in> set (training @ events). capacity < ev_width e)
      then Inl (ValueError ''capacity cannot be below router top-k'')
      else let residents = static_residents training capacity in
        if \<not> ev_layer_id ` set events \<subseteq> fst ` set residents
        then Inl (ValueError ''training events do not cover every evaluation layer'')
        else rmap (static_outcome residents) events)"

definition replay_policy ::
    "router_trace_event list \<Rightarrow> string \<Rightarrow> int \<Rightarrow> router_trace_event list option \<Rightarrow> policy_replay res" where
  "replay_policy events policy capacity static_training_events =
     rbind (case static_training_events of
         None \<Rightarrow> policy_outcomes events policy capacity
       | Some training \<Rightarrow> trained_outcomes events policy capacity training) (\<lambda>outcomes.
     let timeline = map timeline_event outcomes;
         hit_count = sum_list (map (\<lambda>t. int (length (rt_ready_expert_ids t))) timeline);
         miss_count = sum_list (map (\<lambda>t. int (length (rt_blocking_expert_ids t))) timeline)
     in Inr \<lparr>rp_measurement_kind = ''estimated'', rp_policy = policy,
          rp_capacity_per_layer = capacity, rp_event_count = int (length timeline),
          rp_demand_count = hit_count + miss_count, rp_hit_count = hit_count,
          rp_miss_count = miss_count, rp_timeline = timeline\<rparr>)"

lemma timeline_totals [simp]:
  "sum_list (map ((\<lambda>t. int (length (rt_ready_expert_ids t))) \<circ> timeline_event) outs) = ready_total outs"
  "sum_list (map ((\<lambda>t. int (length (rt_blocking_expert_ids t))) \<circ> timeline_event) outs) = blocking_total outs"
  by (simp_all add: ready_total_def blocking_total_def timeline_event_def o_def)

lemma replay_counts:
  "replay_policy events policy capacity None = Inr p \<Longrightarrow>
     policy_outcomes events policy capacity = Inr outs \<Longrightarrow>
     rp_hit_count p = ready_total outs \<and> rp_miss_count p = blocking_total outs
       \<and> rp_demand_count p = rp_hit_count p + rp_miss_count p"
  by (auto simp: replay_policy_def Let_def)

lemma keys_static_residents:
  "fst ` set (static_residents training capacity) = ev_layer_id ` set training"
  using keys_layer_counts [of training] by (force simp: static_residents_def)

lemma trained_outcomes_ok:
  assumes "training \<noteq> []" and "0 < capacity"
    and "\<forall>e \<in> set (training @ events). ev_width e \<le> capacity"
    and "ev_layer_id ` set events \<subseteq> ev_layer_id ` set training"
  shows "\<exists>outs. trained_outcomes events ''static_hotset'' capacity training = Inr outs
    \<and> map po_event outs = events \<and> (\<forall>po \<in> set outs. partitions po
      \<and> set (po_ready po) = set (ev_selected_expert_ids (po_event po)) \<inter>
          hot_set (dict_get (layer_counts training) (ev_layer_id (po_event po)) []) capacity)"
proof -
  have narrow: "\<not> (\<exists>e \<in> set (training @ events). capacity < ev_width e)"
    using assms(3) by (meson not_less)
  let ?R = "\<lambda>e. hot_set (dict_get (layer_counts training) (ev_layer_id e) []) capacity"
  have "rmap (static_outcome (static_residents training capacity)) events
    = Inr (map (\<lambda>e. \<lparr>po_event = e,
        po_ready = filter (\<lambda>x. x \<in> ?R e) (ev_selected_expert_ids e),
        po_blocking = filter (\<lambda>x. x \<notin> ?R e) (ev_selected_expert_ids e)\<rparr>) events)"
    using assms(4) by (intro rmap_all_ok) (auto simp: static_outcome_def residents_index)
  then show ?thesis
    using assms(1,2,4) narrow
    by (simp only: trained_outcomes_def keys_static_residents Let_def) (auto simp: o_def not_le)
qed

section \<open>Properties\<close>

text \<open>
  C20. Replay and aggregate simulation agree: on a trace the simulation accepts, the replay of the
  LRU and of the static policy reports the same hits and misses as the simulation, and its
  timeline has one entry per event, marked blocking exactly when an expert blocks.
\<close>

theorem replay_matches_simulation:
  assumes "validated_trace events capacity = Inr trace" and "\<forall>e \<in> set events. wf_event e"
  shows "\<exists>r lru static. simulate_policies events capacity = Inr r
    \<and> replay_policy events ''lru'' capacity None = Inr lru
    \<and> rp_hit_count lru = pr_hit_count (cs_lru r) \<and> rp_miss_count lru = pr_miss_count (cs_lru r)
    \<and> replay_policy events ''static_hotset'' capacity None = Inr static
    \<and> rp_hit_count static = pr_hit_count (cs_static_hotset r)
    \<and> rp_miss_count static = pr_miss_count (cs_static_hotset r)"
proof -
  from simulate_policies_ok [OF wf_trace_fits [OF assms]] obtain r so lo
    where sim: "simulate_policies events capacity = Inr r"
    and so: "policy_outcomes events ''static_hotset'' capacity = Inr so"
    and lo: "policy_outcomes events ''lru'' capacity = Inr lo"
    and c: "result_consistent (cs_static_hotset r)" "result_consistent (cs_lru r)"
      "pr_demand_count (cs_static_hotset r) = demand_total events"
      "pr_demand_count (cs_lru r) = demand_total events"
      "pr_hit_count (cs_static_hotset r) = ready_total so"
      "pr_hit_count (cs_lru r) = ready_total lo"
      "ready_total lo + blocking_total lo = demand_total events"
      "ready_total so + blocking_total so = demand_total events"
    by (elim exE conjE)
  have m: "pr_miss_count (cs_lru r) = blocking_total lo"
    "pr_miss_count (cs_static_hotset r) = blocking_total so"
    using c by (auto simp: result_consistent_def)
  obtain pl where pl: "replay_policy events ''lru'' capacity None = Inr pl"
    using lo by (simp add: replay_policy_def Let_def)
  obtain ps where ps: "replay_policy events ''static_hotset'' capacity None = Inr ps"
    using so by (simp add: replay_policy_def Let_def)
  from replay_counts [OF pl lo] replay_counts [OF ps so] sim pl ps c(5,6) m show ?thesis
    by (intro exI [of _ r] exI [of _ pl] exI [of _ ps]) simp
qed

lemma replay_matches_simulation_witness:
  "\<exists>r lru static. simulate_policies example_trace 2 = Inr r
    \<and> replay_policy example_trace ''lru'' 2 None = Inr lru
    \<and> rp_hit_count lru = pr_hit_count (cs_lru r) \<and> rp_miss_count lru = pr_miss_count (cs_lru r)
    \<and> replay_policy example_trace ''static_hotset'' 2 None = Inr static
    \<and> rp_hit_count static = pr_hit_count (cs_static_hotset r)
    \<and> rp_miss_count static = pr_miss_count (cs_static_hotset r)"
  by (rule replay_matches_simulation [OF example_trace_valid example_trace_wf])

text \<open>
  A replay with separate training events never looks at the evaluation events to choose its
  residents: with training that covers every evaluated layer and experts within the capacity it
  returns, counts every demand once, and each ready expert belongs to the hot set of the training
  events' frequencies alone.
\<close>

theorem heldout_replay_uses_training_only:
  assumes "training \<noteq> []" and "0 < capacity"
    and "\<forall>e \<in> set (training @ events). ev_width e \<le> capacity"
    and "ev_layer_id ` set events \<subseteq> ev_layer_id ` set training"
  shows "\<exists>p. replay_policy events ''static_hotset'' capacity (Some training) = Inr p
    \<and> rp_demand_count p = demand_total events
    \<and> list_all2 (\<lambda>t e. rt_layer_id t = ev_layer_id e
        \<and> set (rt_ready_expert_ids t) =
            set (ev_selected_expert_ids e) \<inter> hot_set (dict_get (layer_counts training) (ev_layer_id e) []) capacity)
      (rp_timeline p) events"
proof -
  from trained_outcomes_ok [OF assms] obtain outs
    where outs: "trained_outcomes events ''static_hotset'' capacity training = Inr outs"
    "map po_event outs = events" and parts: "\<forall>po \<in> set outs. partitions po"
    and ready: "\<forall>po \<in> set outs. set (po_ready po) = set (ev_selected_expert_ids (po_event po)) \<inter>
        hot_set (dict_get (layer_counts training) (ev_layer_id (po_event po)) []) capacity"
    by blast
  have "list_all2 (\<lambda>t e. rt_layer_id t = ev_layer_id e
        \<and> set (rt_ready_expert_ids t) = set (ev_selected_expert_ids e)
          \<inter> hot_set (dict_get (layer_counts training) (ev_layer_id e) []) capacity)
      (map timeline_event outs) (map po_event outs)"
    using ready by (simp add: list_all2_map1 list_all2_map2 list_all2_same timeline_event_def)
  then show ?thesis
    using outs partitions_totals [OF parts] by (simp add: replay_policy_def Let_def)
qed

lemma heldout_replay_uses_training_only_witness:
  "\<exists>p. replay_policy [example_event 5 0 [2, 9]] ''static_hotset'' 2 (Some example_trace) = Inr p
    \<and> rp_demand_count p = demand_total [example_event 5 0 [2, 9]]"
  using heldout_replay_uses_training_only [of example_trace 2 "[example_event 5 0 [2, 9]]"]
  by (auto simp: example_trace_def ev_width_def)

end
