(* ===== verification/Prefetch.thy ===== *)
theory Prefetch
  imports Cache_Sim
begin

text \<open>
  \<open>analysis/prefetch_sim.py\<close>: conversations interleaved into steps over shared per-layer
  caches, with a bounded number of prefetch transfers before the demand of each step. The
  accumulators of the loop are the fields of \<open>prefetch_state\<close>; \<open>issued\<close> maps a layer to the
  experts transferred in the step. The lemmas show that the caches stay distinct and within
  the capacity, that no eviction search fails, that a step transfers at most its budget, and
  that every demand of every trace is counted once.
\<close>

record prefetch_step_outcome =
  ps_step_index :: int
  ps_demand_count :: int
  ps_hit_count :: int
  ps_miss_count :: int
  ps_transfers_issued :: int
  ps_predicted_candidates :: int
  ps_ready_useful :: int
  ps_wasted_transfers :: int

record prefetch_simulation_report =
  pf_measurement_kind :: string
  pf_prediction :: string
  pf_capacity_per_layer :: int
  pf_max_transfers_per_step :: int
  pf_expert_transfer_ms :: pyfloat
  pf_slot_bytes :: int
  pf_conversation_count :: int
  pf_step_count :: int
  pf_demand_count :: int
  pf_hit_count :: int
  pf_miss_count :: int
  pf_hit_rate :: pyfloat
  pf_transfers_issued :: int
  pf_ready_useful :: int
  pf_wasted_transfers :: int
  pf_wasted_transfer_mib :: pyfloat
  pf_estimated_saved_blocking_ms :: pyfloat
  pf_steps :: "prefetch_step_outcome list"

type_synonym caches = "(int, int list) dict"
type_synonym issued = "(int, int set) dict"

definition prefetch_validated ::
    "router_trace_event list list \<Rightarrow> string \<Rightarrow> int \<Rightarrow> int \<Rightarrow> pyfloat \<Rightarrow> int \<Rightarrow> unit res" where
  "prefetch_validated traces prediction capacity max_transfers expert_transfer_ms slot_bytes =
     (if prediction \<notin> {''none'', ''oracle'', ''frequency''}
      then Inl (ValueError ''prediction must be none, oracle, or frequency'')
      else if traces = [] \<or> [] \<in> set traces
      then Inl (ValueError ''traces must be a non-empty sequence of non-empty traces'')
      else if \<exists>trace \<in> set traces. \<exists>e \<in> set trace. capacity < ev_width e
      then Inl (ValueError ''capacity_per_layer cannot be below router top-k'')
      else if max_transfers < 0 then Inl (ValueError ''max_transfers_per_step must be non-negative'')
      else if py_less expert_transfer_ms (Fin 0)
      then Inl (ValueError ''expert_transfer_ms must be non-negative'')
      else if slot_bytes \<le> 0 then Inl (ValueError ''slot_bytes must be positive'')
      else Inr ())"

section \<open>Steps\<close>

text \<open>The events of a trace grouped by forward pass, in order of first appearance.\<close>

definition group_events :: "router_trace_event list \<Rightarrow> (int, router_trace_event list) dict" where
  "group_events trace = foldl (\<lambda>g e.
     dict_set (ev_forward_id e) (dict_get g (ev_forward_id e) [] @ [e]) g) [] trace"

definition forward_groups :: "router_trace_event list \<Rightarrow> router_trace_event list list" where
  "forward_groups trace = map (\<lambda>(f, events).
     sort_key (\<lambda>e. (ev_layer_id e, ev_token_index e, ev_hook_order e)) events) (group_events trace)"

definition step_events :: "router_trace_event list list list \<Rightarrow> nat \<Rightarrow> router_trace_event list" where
  "step_events grouped i = concat (map (\<lambda>groups. if i < length groups then groups ! i else []) grouped)"

section \<open>Prefetch\<close>

text \<open>Candidates \<open>(-score, layer, expert)\<close> in ascending order.\<close>

definition frequency_candidates ::
    "caches \<Rightarrow> (int, int counter) dict \<Rightarrow> (int \<times> int \<times> int) list" where
  "frequency_candidates caches frequencies = sort (concat (map (\<lambda>(l, cache).
     let freq = dict_get frequencies l [] in
     map (\<lambda>(x, n). (- counter_get freq x, l, x))
       (filter (\<lambda>(x, n). 0 < counter_get freq x \<and> x \<notin> set cache) freq)) caches))"

definition step_demand :: "router_trace_event list \<Rightarrow> (int \<times> int) counter" where
  "step_demand events = foldl counter_inc []
     (concat (map (\<lambda>e. map (Pair (ev_layer_id e)) (ev_selected_expert_ids e)) events))"

definition oracle_candidates :: "caches \<Rightarrow> router_trace_event list \<Rightarrow> (int \<times> int \<times> int) list" where
  "oracle_candidates caches events = sort (map (\<lambda>((l, x), count). (- count, l, x))
     (filter (\<lambda>((l, x), count). x \<notin> set (dict_get caches l [])) (step_demand events)))"

text \<open>Experts of a layer a transfer may not evict: issued or demanded in this step.\<close>

definition protected_experts :: "issued \<Rightarrow> router_trace_event list \<Rightarrow> int \<Rightarrow> int set" where
  "protected_experts issued events l = dict_get issued l {} \<union>
     set (concat (map ev_selected_expert_ids (filter (\<lambda>e. ev_layer_id e = l) events)))"

definition add_issued :: "int \<Rightarrow> int \<Rightarrow> issued \<Rightarrow> issued" where
  "add_issued l x issued = dict_set l (insert x (dict_get issued l {})) issued"

fun issue_transfers ::
    "int \<Rightarrow> router_trace_event list \<Rightarrow> int \<Rightarrow> caches \<Rightarrow> issued \<Rightarrow> (int \<times> int \<times> int) list
      \<Rightarrow> caches \<times> issued" where
  "issue_transfers capacity events budget caches issued [] = (caches, issued)"
| "issue_transfers capacity events budget caches issued ((score, l, x) # scored) =
     (if budget \<le> 0 then (caches, issued)
      else let caches = dict_setdefault l [] caches; cache = dict_get caches l [] in
        if x \<in> set cache then issue_transfers capacity events budget caches issued scored
        else if int (length cache) < capacity then
          issue_transfers capacity events (budget - 1) (dict_set l (od_insert x cache) caches)
            (add_issued l x issued) scored
        else case find (\<lambda>c. c \<notin> protected_experts issued events l) cache of
            None \<Rightarrow> issue_transfers capacity events budget caches issued scored
          | Some victim \<Rightarrow>
              issue_transfers capacity events (budget - 1)
                (dict_set l (od_insert x (remove1 victim cache)) caches)
                (add_issued l x issued) scored)"

definition issued_ids :: "issued \<Rightarrow> (int \<times> int) set" where
  "issued_ids issued = (\<Union>(l, experts) \<in> set issued. Pair l ` experts)"

section \<open>Demand\<close>

text \<open>One expert of an event; the state is \<open>(cache, counted_ready, hits, misses)\<close>.\<close>

definition consume_expert ::
    "int \<Rightarrow> router_trace_event \<Rightarrow> int set \<Rightarrow> int list \<times> (int \<times> int) set \<times> int \<times> int \<Rightarrow> int
      \<Rightarrow> (int list \<times> (int \<times> int) set \<times> int \<times> int) res" where
  "consume_expert capacity e issued s x =
     (let (cache, counted, hits, misses) = s in
      if x \<in> set cache then
        Inr (move_to_end x cache,
          (if x \<in> issued \<and> (ev_layer_id e, x) \<notin> counted then insert (ev_layer_id e, x) counted
           else counted), hits + 1, misses)
      else rbind (evict_until capacity (ev_selected_expert_ids e) cache) (\<lambda>cache'.
        Inr (od_insert x cache', counted, hits, misses + 1)))"

definition consume_demand ::
    "int \<Rightarrow> router_trace_event \<Rightarrow> int set \<Rightarrow> int list \<Rightarrow> (int \<times> int) set
      \<Rightarrow> (int list \<times> (int \<times> int) set \<times> int \<times> int) res" where
  "consume_demand capacity e issued cache counted =
     rfold (consume_expert capacity e issued) (cache, counted, 0, 0) (ev_selected_expert_ids e)"

text \<open>
  One event of a step; the state is \<open>(caches, frequencies, counted_ready, step_hits,
  step_misses)\<close>.
\<close>

type_synonym demand_state =
  "caches \<times> (int, int counter) dict \<times> (int \<times> int) set \<times> int \<times> int"

definition demand_event ::
    "int \<Rightarrow> string \<Rightarrow> issued \<Rightarrow> demand_state \<Rightarrow> router_trace_event \<Rightarrow> demand_state res" where
  "demand_event capacity prediction issued s e =
     (let (caches, frequencies, counted, step_hits, step_misses) = s; l = ev_layer_id e in
      rbind (consume_demand capacity e (dict_get issued l {}) (dict_get caches l []) counted)
        (\<lambda>(cache, counted', hits, misses).
          Inr (dict_set l cache caches,
            (if prediction = ''frequency''
             then dict_set l (counter_update (dict_get frequencies l []) (ev_selected_expert_ids e)) frequencies
             else frequencies),
            counted', step_hits + hits, step_misses + misses)))"

section \<open>The simulation\<close>

record prefetch_state =
  pt_caches :: caches
  pt_frequencies :: "(int, int counter) dict"
  pt_total_demands :: int
  pt_total_hits :: int
  pt_total_misses :: int
  pt_total_issued :: int
  pt_total_ready_useful :: int
  pt_total_wasted :: int
  pt_total_predicted_candidates :: int
  pt_step_outcomes :: "prefetch_step_outcome list"

definition prefetch_initial :: prefetch_state where
  "prefetch_initial = \<lparr>pt_caches = [], pt_frequencies = [], pt_total_demands = 0, pt_total_hits = 0,
     pt_total_misses = 0, pt_total_issued = 0, pt_total_ready_useful = 0, pt_total_wasted = 0,
     pt_total_predicted_candidates = 0, pt_step_outcomes = []\<rparr>"

text \<open>
  The prefetch of one step: candidates, transfers, and the number of candidates.
  \<open>frequencies_for\<close> and \<open>cache_for\<close> insert an empty entry for every layer they look at.
\<close>

definition prefetch_phase ::
    "string \<Rightarrow> int \<Rightarrow> int \<Rightarrow> caches \<Rightarrow> (int, int counter) dict \<Rightarrow> router_trace_event list
      \<Rightarrow> caches \<times> (int, int counter) dict \<times> issued \<times> int" where
  "prefetch_phase prediction capacity max_transfers caches frequencies events =
     (if prediction = ''none'' then (caches, frequencies, [], 0)
      else
        let scored = (if prediction = ''frequency'' then frequency_candidates caches frequencies
              else oracle_candidates caches events);
            frequencies' = (if prediction = ''frequency''
              then foldl (\<lambda>f l. dict_setdefault l [] f) frequencies (map fst caches) else frequencies);
            caches' = (if prediction = ''frequency'' then caches
              else foldl (\<lambda>c k. dict_setdefault (fst k) [] c) caches (map fst (step_demand events)));
            (caches'', issued) = issue_transfers capacity events max_transfers caches' [] scored
        in (caches'', frequencies', issued, int (length scored)))"

definition prefetch_step ::
    "string \<Rightarrow> int \<Rightarrow> int \<Rightarrow> router_trace_event list list list \<Rightarrow> prefetch_state \<Rightarrow> nat
      \<Rightarrow> prefetch_state res" where
  "prefetch_step prediction capacity max_transfers grouped s i =
     (let events = step_events grouped i;
          (caches, frequencies, issued, candidates) =
            prefetch_phase prediction capacity max_transfers (pt_caches s) (pt_frequencies s) events;
          step_issued = int (card (issued_ids issued))
      in rbind (rfold (demand_event capacity prediction issued) (caches, frequencies, {}, 0, 0) events)
        (\<lambda>(caches', frequencies', counted, step_hits, step_misses).
          let step_demands = demand_total events;
              ready_useful = int (card counted);
              wasted = step_issued - ready_useful
          in Inr \<lparr>pt_caches = caches', pt_frequencies = frequencies',
               pt_total_demands = pt_total_demands s + step_demands,
               pt_total_hits = pt_total_hits s + step_hits,
               pt_total_misses = pt_total_misses s + step_misses,
               pt_total_issued = pt_total_issued s + step_issued,
               pt_total_ready_useful = pt_total_ready_useful s + ready_useful,
               pt_total_wasted = pt_total_wasted s + wasted,
               pt_total_predicted_candidates = pt_total_predicted_candidates s + candidates,
               pt_step_outcomes = pt_step_outcomes s @
                 [\<lparr>ps_step_index = int i, ps_demand_count = step_demands, ps_hit_count = step_hits,
                   ps_miss_count = step_misses, ps_transfers_issued = step_issued,
                   ps_predicted_candidates = candidates, ps_ready_useful = ready_useful,
                   ps_wasted_transfers = wasted\<rparr>]\<rparr>))"

definition step_count :: "router_trace_event list list list \<Rightarrow> nat" where
  "step_count grouped = Max (set (map length grouped))"

definition prefetch_report ::
    "string \<Rightarrow> int \<Rightarrow> int \<Rightarrow> pyfloat \<Rightarrow> int \<Rightarrow> int \<Rightarrow> nat \<Rightarrow> prefetch_state
      \<Rightarrow> prefetch_simulation_report res" where
  "prefetch_report prediction capacity max_transfers expert_transfer_ms slot_bytes conversations steps s =
     rbind (if pt_total_demands s \<noteq> 0 then int_truediv (pt_total_hits s) (pt_total_demands s)
            else Inr (Fin 0)) (\<lambda>hit_rate.
     rbind (int_truediv (pt_total_wasted s * slot_bytes) (1024 ^ 2)) (\<lambda>wasted_mib.
     rbind (float_of_int (pt_total_ready_useful s)) (\<lambda>useful.
       Inr \<lparr>pf_measurement_kind = ''estimated'', pf_prediction = prediction,
         pf_capacity_per_layer = capacity, pf_max_transfers_per_step = max_transfers,
         pf_expert_transfer_ms = expert_transfer_ms, pf_slot_bytes = slot_bytes,
         pf_conversation_count = conversations, pf_step_count = int steps,
         pf_demand_count = pt_total_demands s, pf_hit_count = pt_total_hits s,
         pf_miss_count = pt_total_misses s, pf_hit_rate = hit_rate,
         pf_transfers_issued = pt_total_issued s, pf_ready_useful = pt_total_ready_useful s,
         pf_wasted_transfers = pt_total_wasted s, pf_wasted_transfer_mib = fround6 wasted_mib,
         pf_estimated_saved_blocking_ms = fround6 (fmul useful expert_transfer_ms),
         pf_steps = pt_step_outcomes s\<rparr>)))"

definition simulate_concurrent_prefetch ::
    "router_trace_event list list \<Rightarrow> string \<Rightarrow> int \<Rightarrow> int \<Rightarrow> pyfloat \<Rightarrow> int
      \<Rightarrow> prefetch_simulation_report res" where
  "simulate_concurrent_prefetch traces prediction capacity max_transfers expert_transfer_ms slot_bytes =
     rbind (prefetch_validated traces prediction capacity max_transfers expert_transfer_ms slot_bytes)
       (\<lambda>_. let grouped = map forward_groups traces; steps = step_count grouped in
     rbind (rfold (prefetch_step prediction capacity max_transfers grouped) prefetch_initial [0..<steps])
       (prefetch_report prediction capacity max_transfers expert_transfer_ms slot_bytes
          (int (length traces)) steps))"

section \<open>Demand implements the recency order\<close>

text \<open>
  Experts of an event demanded one by one: \<open>A\<close> is the part of the cache not yet touched, \<open>pre\<close>
  the touched experts, \<open>xs\<close> the ones to come.
\<close>

lemma consume_run:
  assumes "distinct (A @ pre)" and "distinct (pre @ xs)" and "set (ev_selected_expert_ids e) = set (pre @ xs)"
    and "int (length (A @ pre)) \<le> capacity" and "int (length (pre @ xs)) \<le> capacity"
  shows "rfold (consume_expert capacity e issued) (A @ pre, counted, h, m) xs
    = Inr (drop (length (A @ pre) + length (filter (\<lambda>x. x \<notin> set A) xs) - nat capacity)
             (filter (\<lambda>x. x \<notin> set xs) A) @ pre @ xs,
           counted \<union> Pair (ev_layer_id e) ` (set xs \<inter> set A \<inter> issued),
           h + int (length (filter (\<lambda>x. x \<in> set A) xs)),
           m + int (length (filter (\<lambda>x. x \<notin> set A) xs)))"
  using assms
proof (induction xs arbitrary: A pre counted h m)
  case Nil
  then show ?case by simp
next
  case (Cons x xs)
  let ?l = "ev_layer_id e"
  have x: "x \<notin> set pre" "x \<notin> set xs" using Cons.prems(2) by auto
  show ?case
  proof (cases "x \<in> set A")
    case True
    let ?A = "remove1 x A" and ?c = "if x \<in> issued \<and> (?l, x) \<notin> counted then insert (?l, x) counted else counted"
    have rm: "?A = filter (\<lambda>y. y \<noteq> x) A" using Cons.prems(1) by (simp add: remove1_filter)
    have len: "length (?A @ pre @ [x]) = length (A @ pre)"
      using True length_pos_if_in_set [OF True] by (simp add: length_remove1)
    have step: "consume_expert capacity e issued (A @ pre, counted, h, m) x
        = Inr (?A @ (pre @ [x]), ?c, h + 1, m)"
      using True x Cons.prems(1) by (simp add: consume_expert_def move_to_end_def remove1_append)
    have IH: "rfold (consume_expert capacity e issued) (?A @ (pre @ [x]), ?c, h + 1, m) xs
      = Inr (drop (length (?A @ pre @ [x]) + length (filter (\<lambda>y. y \<notin> set ?A) xs) - nat capacity)
             (filter (\<lambda>y. y \<notin> set xs) ?A) @ (pre @ [x]) @ xs,
           ?c \<union> Pair ?l ` (set xs \<inter> set ?A \<inter> issued),
           (h + 1) + int (length (filter (\<lambda>y. y \<in> set ?A) xs)),
           m + int (length (filter (\<lambda>y. y \<notin> set ?A) xs)))"
      using Cons.prems x len by (intro Cons.IH) (auto simp: rm)
    have f1: "filter (\<lambda>y. y \<notin> set ?A) xs = filter (\<lambda>y. y \<notin> set A) (x # xs)"
      using True x(2) by (auto simp: rm intro!: filter_cong)
    have f2: "filter (\<lambda>y. y \<in> set A) (x # xs) = x # filter (\<lambda>y. y \<in> set ?A) xs"
      using True x(2) by (auto simp: rm intro!: filter_cong)
    have f3: "filter (\<lambda>y. y \<notin> set xs) ?A = filter (\<lambda>y. y \<notin> set (x # xs)) A"
      by (auto simp: rm intro!: filter_cong)
    have f4: "?c \<union> Pair ?l ` (set xs \<inter> set ?A \<inter> issued)
        = counted \<union> Pair ?l ` (set (x # xs) \<inter> set A \<inter> issued)"
      using True x(2) by (auto simp: rm)
    show ?thesis
      unfolding rfold.simps step rbind_Inr IH f1 f2 f3 f4 len by simp
  next
    case False
    have f1: "filter (\<lambda>y. y \<notin> set A) (x # xs) = x # filter (\<lambda>y. y \<notin> set A) xs"
      "filter (\<lambda>y. y \<in> set A) (x # xs) = filter (\<lambda>y. y \<in> set A) xs"
      using False by auto
    show ?thesis
    proof (cases "int (length (A @ pre)) < capacity")
      case True
      have step: "consume_expert capacity e issued (A @ pre, counted, h, m) x
          = Inr (A @ (pre @ [x]), counted, h, m + 1)"
        using False x True by (simp add: consume_expert_def evict_until_room od_insert_def)
      have IH: "rfold (consume_expert capacity e issued) (A @ (pre @ [x]), counted, h, m + 1) xs
        = Inr (drop (length (A @ pre @ [x]) + length (filter (\<lambda>y. y \<notin> set A) xs) - nat capacity)
               (filter (\<lambda>y. y \<notin> set xs) A) @ (pre @ [x]) @ xs,
             counted \<union> Pair ?l ` (set xs \<inter> set A \<inter> issued),
             h + int (length (filter (\<lambda>y. y \<in> set A) xs)),
             (m + 1) + int (length (filter (\<lambda>y. y \<notin> set A) xs)))"
        using Cons.prems x False True by (intro Cons.IH) auto
      have f3: "filter (\<lambda>y. y \<notin> set (x # xs)) A = filter (\<lambda>y. y \<notin> set xs) A"
        using False by (auto intro!: filter_cong)
      have f4: "set (x # xs) \<inter> set A \<inter> issued = set xs \<inter> set A \<inter> issued" using False by auto
      show ?thesis unfolding rfold.simps step rbind_Inr IH f1 f3 f4 by simp
    next
      case full: False
      let ?R = "set (ev_selected_expert_ids e)"
      have len: "int (length (A @ pre)) = capacity" using full Cons.prems(4) by simp
      have cardR: "card ?R \<le> length (A @ pre)"
        using Cons.prems(3,5) len card_length [of "pre @ x # xs"] by (metis le_trans of_nat_le_iff)
      obtain u where "u \<in> set (A @ pre)" "u \<notin> ?R"
        using full_cache_has_victim [of "A @ pre" x ?R] Cons.prems x False cardR by auto
      then obtain v where v: "find (\<lambda>y. y \<notin> ?R) (A @ pre) = Some v"
        by (metis find_None_iff option.exhaust)
      then obtain a b where A: "A = a @ v # b" and vR: "v \<notin> ?R" and aR: "\<forall>y \<in> set a. y \<in> ?R"
        using find_append_pre [OF v] Cons.prems(3) by auto
      let ?A = "a @ b"
      have rm: "remove1 v (A @ pre) = ?A @ pre" using Cons.prems(1) by (simp add: A remove1_append)
      have step: "consume_expert capacity e issued (A @ pre, counted, h, m) x
          = Inr (?A @ (pre @ [x]), counted, h, m + 1)"
        using False x evict_until_full [OF len v] rm A by (simp add: consume_expert_def od_insert_def)
      have vx: "v \<notin> set xs" "v \<noteq> x" using vR Cons.prems(3) by auto
      have IH: "rfold (consume_expert capacity e issued) (?A @ (pre @ [x]), counted, h, m + 1) xs
        = Inr (drop (length (?A @ pre @ [x]) + length (filter (\<lambda>y. y \<notin> set ?A) xs) - nat capacity)
               (filter (\<lambda>y. y \<notin> set xs) ?A) @ (pre @ [x]) @ xs,
             counted \<union> Pair ?l ` (set xs \<inter> set ?A \<inter> issued),
             h + int (length (filter (\<lambda>y. y \<in> set ?A) xs)),
             (m + 1) + int (length (filter (\<lambda>y. y \<notin> set ?A) xs)))"
        using Cons.prems x False len by (intro Cons.IH) (auto simp: A)
      have f2: "filter (\<lambda>y. y \<notin> set ?A) xs = filter (\<lambda>y. y \<notin> set A) xs"
        "filter (\<lambda>y. y \<in> set ?A) xs = filter (\<lambda>y. y \<in> set A) xs"
        using vx by (auto simp: A intro!: filter_cong)
      have a_xs: "filter (\<lambda>y. y \<notin> set xs) a = []"
        using aR False Cons.prems(1,3) by (auto simp: A filter_empty_conv)
      have f3: "filter (\<lambda>y. y \<notin> set (x # xs)) A = v # filter (\<lambda>y. y \<notin> set xs) ?A"
      proof -
        have "filter (\<lambda>y. y \<notin> set (x # xs)) A = filter (\<lambda>y. y \<notin> set xs) A"
          using False by (auto intro!: filter_cong)
        then show ?thesis using a_xs vx by (simp add: A)
      qed
      have f4: "set (x # xs) \<inter> set A \<inter> issued = set xs \<inter> set ?A \<inter> issued"
        using False vx by (auto simp: A)
      have l: "length (?A @ pre @ [x]) = nat capacity" "length (A @ pre) = nat capacity"
        using len by (auto simp: A)
      show ?thesis unfolding rfold.simps step rbind_Inr IH f1 f2 f3 f4 l by simp
    qed
  qed
qed

lemma consume_demand_eq:
  assumes "fits capacity e" and "cache_ok capacity cache"
  defines "ids \<equiv> ev_selected_expert_ids e"
  shows "consume_demand capacity e issued cache counted = Inr
    (lastn (nat capacity) (foldl touch cache ids),
     counted \<union> Pair (ev_layer_id e) ` (set ids \<inter> set cache \<inter> issued),
     int (length (filter (\<lambda>x. x \<in> set cache) ids)), int (length (filter (\<lambda>x. x \<notin> set cache) ids)))"
proof -
  have ids: "distinct ids" "int (length ids) \<le> capacity" and c: "distinct cache" "int (length cache) \<le> capacity"
    using assms(1,2) by (auto simp: fits_def ev_width_def cache_ok_def ids_def)
  have touched: "foldl touch (filter (\<lambda>x. x \<notin> set pre) r @ pre) xs
      = filter (\<lambda>x. x \<notin> set (pre @ xs)) r @ pre @ xs" if "distinct (pre @ xs)" for r pre xs :: "int list"
    using that
  proof (induction xs arbitrary: pre)
    case Nil
    then show ?case by simp
  next
    case (Cons x xs)
    have "touch (filter (\<lambda>x. x \<notin> set pre) r @ pre) x = filter (\<lambda>y. y \<notin> set (pre @ [x])) r @ (pre @ [x])"
      using Cons.prems by (auto simp: touch_def filter_neq_id intro!: filter_cong)
    then show ?case using Cons.IH [of "pre @ [x]"] Cons.prems by simp
  qed
  let ?old = "filter (\<lambda>x. x \<notin> set ids) cache" and ?m = "length (filter (\<lambda>x. x \<notin> set cache) ids)"
  let ?h = "length (filter (\<lambda>x. x \<in> set ids) cache)"
  have h: "?h = length (filter (\<lambda>x. x \<in> set cache) ids)"
    by (rule length_filter_swap [OF c(1) ids(1)])
  have "length ?old + length ids = length cache + ?m"
    using h length_filter_partition [of "\<lambda>x. x \<in> set ids" cache]
      length_filter_partition [of "\<lambda>x. x \<in> set cache" ids] by linarith
  then have "drop (length cache + ?m - nat capacity) ?old @ ids = lastn (nat capacity) (?old @ ids)"
    using ids(2) by (simp add: lastn_def)
  moreover have "foldl touch cache ids = ?old @ ids" using touched [of "[]" ids cache] ids(1) by simp
  ultimately show ?thesis
    using consume_run [of cache "[]" ids e capacity issued counted 0 0] ids c
    by (simp add: consume_demand_def ids_def)
qed

text \<open>What a demand leaves behind, in the form the step invariant needs.\<close>

lemma consume_demand_ok:
  assumes "fits capacity e" and "cache_ok capacity cache"
  obtains cache' hits misses where "consume_demand capacity e issued cache counted = Inr
      (cache', counted \<union> Pair (ev_layer_id e) ` (set (ev_selected_expert_ids e) \<inter> set cache \<inter> issued), hits, misses)"
    and "cache_ok capacity cache'" and "0 \<le> hits" and "0 \<le> misses" and "hits + misses = ev_width e"
proof -
  let ?ids = "ev_selected_expert_ids e"
  have "distinct (foldl touch cache ?ids)"
    using assms(2) by (intro distinct_foldl_touch) (simp add: cache_ok_def)
  moreover have "0 \<le> capacity" using assms(2) by (auto simp: cache_ok_def)
  ultimately have "cache_ok capacity (lastn (nat capacity) (foldl touch cache ?ids))"
    by (simp add: cache_ok_def)
  then show thesis
    using that [OF consume_demand_eq [OF assms]] length_filter_partition [of "\<lambda>x. x \<in> set cache" ?ids]
    by (simp add: ev_width_def)
qed

section \<open>Transfers\<close>

lemma issued_ids_iff: "distinct (map fst issued) \<Longrightarrow> (l, x) \<in> issued_ids issued \<longleftrightarrow> x \<in> dict_get issued l {}"
proof -
  assume d: "distinct (map fst issued)"
  have "(l, x) \<in> issued_ids issued \<longleftrightarrow> (\<exists>xs. (l, xs) \<in> set issued \<and> x \<in> xs)"
    by (auto simp: issued_ids_def)
  also have "\<dots> \<longleftrightarrow> (\<exists>xs. map_of issued l = Some xs \<and> x \<in> xs)"
    using d by simp
  finally show ?thesis by (simp add: dict_get_def split: option.split)
qed

lemma issued_ids_Nil [simp]: "issued_ids [] = {}"
  by (simp add: issued_ids_def)

lemma issued_ids_add:
  assumes "distinct (map fst issued)"
  shows "issued_ids (add_issued l x issued) = insert (l, x) (issued_ids issued)"
proof -
  have "distinct (map fst (add_issued l x issued))" using assms by (auto simp: add_issued_def)
  then have "p \<in> issued_ids (add_issued l x issued) \<longleftrightarrow> p \<in> insert (l, x) (issued_ids issued)" for p
    using assms by (cases p) (auto simp: issued_ids_iff add_issued_def dict_get_set)
  then show ?thesis by blast
qed

definition issue_ok :: "int \<Rightarrow> caches \<Rightarrow> issued \<Rightarrow> bool" where
  "issue_ok capacity caches issued \<longleftrightarrow>
     caches_ok capacity caches \<and> distinct (map fst issued) \<and> finite (issued_ids issued)"

lemma issue_ok_add:
  assumes "issue_ok capacity caches issued" and "cache_ok capacity cache"
  shows "issue_ok capacity (dict_set l cache caches) (add_issued l x issued)"
  using assms issued_ids_add [of issued l x]
  by (auto simp: issue_ok_def caches_ok_def dict_get_set add_issued_def)

lemma issue_transfers_ok:
  assumes "issue_ok capacity caches issued"
  shows "issue_ok capacity (fst (issue_transfers capacity events budget caches issued scored))
      (snd (issue_transfers capacity events budget caches issued scored)) \<and>
    card (issued_ids (snd (issue_transfers capacity events budget caches issued scored)))
      \<le> card (issued_ids issued) + min (nat budget) (length scored)"
  using assms
proof (induction capacity events budget caches issued scored rule: issue_transfers.induct)
  case (1 capacity events budget caches issued)
  then show ?case by simp
next
  case (2 capacity events budget caches issued score l x scored)
  let ?caches = "dict_setdefault l [] caches"
  let ?cache = "dict_get ?caches l []"
  have ok: "issue_ok capacity ?caches issued" using 2(5) by (simp add: issue_ok_def caches_ok_def)
  then have c: "cache_ok capacity ?cache" by (simp add: issue_ok_def caches_ok_def)
  have card: "card (issued_ids (add_issued l x issued)) \<le> Suc (card (issued_ids issued))"
    using ok issued_ids_add [of issued l x] by (simp add: issue_ok_def card_insert_le_Suc)
  have weaken: "n \<le> k + min (nat budget) (length scored) \<Longrightarrow> n \<le> k + min (nat budget) (Suc (length scored))"
    for n k :: nat by (rule order_trans) auto
  have spend: "n \<le> k + min (nat budget) (Suc (length scored))"
    if "n \<le> k' + min (nat (budget - 1)) (length scored)" "k' \<le> Suc k" "\<not> budget \<le> 0" for n k k' :: nat
    using that by (cases "nat (budget - 1) \<le> length scored") (auto simp: min_def split: if_splits)
  show ?case
  proof (cases "budget \<le> 0")
    case True
    then show ?thesis using 2(5) by simp
  next
    case b: False
    show ?thesis
    proof (cases "x \<in> set ?cache")
      case True
      with 2(1) [OF b refl refl True ok] b True show ?thesis by (auto simp: Let_def intro: weaken)
    next
      case x: False
      show ?thesis
      proof (cases "int (length ?cache) < capacity")
        case True
        have "cache_ok capacity (od_insert x ?cache)" using c x True by (simp add: cache_ok_def)
        from 2(2) [OF b refl refl x True issue_ok_add [OF ok this]] b x True show ?thesis
          by (auto simp: Let_def intro: spend [OF _ card])
      next
        case full: False
        show ?thesis
        proof (cases "find (\<lambda>c. c \<notin> protected_experts issued events l) ?cache")
          case None
          with 2(3) [OF b refl refl x full None ok] b x full None show ?thesis by (auto simp: Let_def intro: weaken)
        next
          case (Some v)
          then have v: "v \<in> set ?cache" by (auto simp: find_Some_iff dest: nth_mem)
          then have "length (od_insert x (remove1 v ?cache)) \<le> length ?cache"
            using length_od_insert [of x "remove1 v ?cache"] length_pos_if_in_set [OF v]
            by (simp add: length_remove1)
          then have "cache_ok capacity (od_insert x (remove1 v ?cache))" using c by (simp add: cache_ok_def)
          from 2(4) [OF b refl refl x full Some issue_ok_add [OF ok this]] b x full Some
          show ?thesis by (auto simp: Let_def intro: spend [OF _ card])
        qed
      qed
    qed
  qed
qed

section \<open>Steps and totals\<close>

definition demand_run_ok :: "int \<Rightarrow> issued \<Rightarrow> demand_state \<Rightarrow> int \<Rightarrow> bool" where
  "demand_run_ok capacity issued s demand = (case s of (caches, frequencies, counted, hits, misses) \<Rightarrow>
     caches_ok capacity caches \<and> counted \<subseteq> issued_ids issued \<and> 0 \<le> hits \<and> 0 \<le> misses
     \<and> hits + misses = demand)"

lemma demand_event_ok:
  assumes "fits capacity e" and "distinct (map fst issued)" and "demand_run_ok capacity issued s d"
  shows "\<exists>s'. demand_event capacity prediction issued s e = Inr s'
    \<and> demand_run_ok capacity issued s' (d + ev_width e)"
proof -
  obtain caches frequencies counted h m where s: "s = (caches, frequencies, counted, h, m)"
    by (cases s) auto
  let ?l = "ev_layer_id e"
  have "cache_ok capacity (dict_get caches ?l [])"
    using assms(3) by (simp add: demand_run_ok_def s caches_ok_def)
  then obtain cache' hits misses where "consume_demand capacity e (dict_get issued ?l {}) (dict_get caches ?l []) counted
      = Inr (cache', counted \<union> Pair ?l ` (set (ev_selected_expert_ids e) \<inter> set (dict_get caches ?l [])
          \<inter> dict_get issued ?l {}), hits, misses)"
    and "cache_ok capacity cache'" "0 \<le> hits" "0 \<le> misses" "hits + misses = ev_width e"
    using assms(1) by (blast intro: consume_demand_ok)
  moreover have "Pair ?l ` (A \<inter> dict_get issued ?l {}) \<subseteq> issued_ids issued" for A
    using assms(2) by (auto simp: issued_ids_iff)
  ultimately show ?thesis
    using assms(3) by (auto simp: demand_event_def s demand_run_ok_def caches_ok_def dict_get_set Let_def)
qed

lemma demand_events_ok:
  assumes "\<forall>e \<in> set events. fits capacity e" and "distinct (map fst issued)"
    and "demand_run_ok capacity issued s d"
  shows "\<exists>s'. rfold (demand_event capacity prediction issued) s events = Inr s'
    \<and> demand_run_ok capacity issued s' (d + demand_total events)"
  using assms(1,3)
proof (induction events arbitrary: s d)
  case Nil
  then show ?case by (simp add: demand_total_def)
next
  case (Cons e events)
  then obtain s1 where s1: "demand_event capacity prediction issued s e = Inr s1"
    "demand_run_ok capacity issued s1 (d + ev_width e)"
    using demand_event_ok [OF _ assms(2), of capacity e s d prediction] by auto
  from Cons.IH [OF _ s1(2)] Cons.prems(1) s1(1) show ?case by (auto simp: demand_total_def add.assoc)
qed

text \<open>The accounting of one step.\<close>

definition step_consistent :: "int \<Rightarrow> prefetch_step_outcome \<Rightarrow> bool" where
  "step_consistent max_transfers st \<longleftrightarrow>
     0 \<le> ps_hit_count st \<and> 0 \<le> ps_miss_count st \<and> ps_hit_count st + ps_miss_count st = ps_demand_count st
     \<and> 0 \<le> ps_ready_useful st \<and> ps_ready_useful st \<le> ps_transfers_issued st
     \<and> ps_wasted_transfers st = ps_transfers_issued st - ps_ready_useful st
     \<and> ps_transfers_issued st \<le> max_transfers \<and> ps_transfers_issued st \<le> ps_predicted_candidates st"

text \<open>The invariant of the simulation loop: accumulators are the sums over the steps.\<close>

definition prefetch_inv :: "int \<Rightarrow> int \<Rightarrow> prefetch_state \<Rightarrow> bool" where
  "prefetch_inv capacity max_transfers s \<longleftrightarrow>
     caches_ok capacity (pt_caches s) \<and> (\<forall>st \<in> set (pt_step_outcomes s). step_consistent max_transfers st)
     \<and> pt_total_demands s = sum_of ps_demand_count (pt_step_outcomes s)
     \<and> pt_total_hits s = sum_of ps_hit_count (pt_step_outcomes s)
     \<and> pt_total_misses s = sum_of ps_miss_count (pt_step_outcomes s)
     \<and> pt_total_issued s = sum_of ps_transfers_issued (pt_step_outcomes s)
     \<and> pt_total_ready_useful s = sum_of ps_ready_useful (pt_step_outcomes s)
     \<and> pt_total_wasted s = sum_of ps_wasted_transfers (pt_step_outcomes s)
     \<and> pt_total_predicted_candidates s = sum_of ps_predicted_candidates (pt_step_outcomes s)"

lemma caches_ok_setdefaults:
  "caches_ok capacity (foldl (\<lambda>c k. dict_setdefault (f k) [] c) caches ks) = caches_ok capacity caches"
  by (induction ks arbitrary: caches) (simp_all add: caches_ok_def)

lemma prefetch_phase_ok:
  assumes "caches_ok capacity caches" and "0 \<le> max_transfers"
    and "prefetch_phase prediction capacity max_transfers caches frequencies events
      = (caches', frequencies', issued, candidates)"
  shows "issue_ok capacity caches' issued \<and> int (card (issued_ids issued)) \<le> max_transfers
    \<and> int (card (issued_ids issued)) \<le> candidates"
proof (cases "prediction = ''none''")
  case True
  then show ?thesis using assms by (auto simp: prefetch_phase_def issue_ok_def)
next
  case False
  have start: "issue_ok capacity (foldl (\<lambda>c k. dict_setdefault (fst k) [] c) caches ks) []" for ks :: "(int \<times> int) list"
    using assms(1) by (simp add: issue_ok_def caches_ok_setdefaults)
  have start': "issue_ok capacity caches []" using assms(1) by (simp add: issue_ok_def)
  obtain c0 scored where c0: "issue_ok capacity c0 []"
    and r: "issue_transfers capacity events max_transfers c0 [] scored = (caches', issued)"
      "candidates = int (length scored)"
    using assms(3) False start start' by (auto simp: prefetch_phase_def Let_def split: prod.splits if_splits)
  from issue_transfers_ok [OF c0, of events max_transfers scored] r assms(2)
  show ?thesis by auto
qed

lemma prefetch_step_ok:
  assumes "prefetch_inv capacity max_transfers s" and "0 \<le> max_transfers"
    and "\<forall>e \<in> set (step_events grouped i). fits capacity e"
  shows "\<exists>s' out. prefetch_step prediction capacity max_transfers grouped s i = Inr s'
    \<and> prefetch_inv capacity max_transfers s' \<and> pt_step_outcomes s' = pt_step_outcomes s @ [out]
    \<and> ps_demand_count out = demand_total (step_events grouped i)"
proof -
  let ?events = "step_events grouped i"
  obtain caches' frequencies' issued candidates where ph:
    "prefetch_phase prediction capacity max_transfers (pt_caches s) (pt_frequencies s) ?events
      = (caches', frequencies', issued, candidates)" by (metis prod_cases4)
  have "caches_ok capacity (pt_caches s)" using assms(1) by (simp add: prefetch_inv_def)
  from prefetch_phase_ok [OF this assms(2) ph]
  have iss: "caches_ok capacity caches'" "distinct (map fst issued)" "finite (issued_ids issued)"
    and lim: "int (card (issued_ids issued)) \<le> max_transfers" "int (card (issued_ids issued)) \<le> candidates"
    by (auto simp: issue_ok_def)
  have "demand_run_ok capacity issued (caches', frequencies', {}, 0, 0) 0"
    using iss(1) by (simp add: demand_run_ok_def)
  from demand_events_ok [OF assms(3) iss(2) this, of prediction]
  obtain c2 f2 counted h m where run: "rfold (demand_event capacity prediction issued)
      (caches', frequencies', {}, 0, 0) ?events = Inr (c2, f2, counted, h, m)"
    and ok: "caches_ok capacity c2" "counted \<subseteq> issued_ids issued" "0 \<le> h" "0 \<le> m"
      "h + m = demand_total ?events"
    by (auto simp: demand_run_ok_def)
  have "card counted \<le> card (issued_ids issued)" using ok(2) iss(3) by (rule card_mono [rotated])
  then show ?thesis
    using assms(1) lim ok(1,3-5) by (simp add: prefetch_step_def ph run Let_def prefetch_inv_def step_consistent_def)
qed

lemma prefetch_run_ok:
  assumes "prefetch_inv capacity max_transfers s" and "0 \<le> max_transfers"
    and "\<forall>i \<in> set steps. \<forall>e \<in> set (step_events grouped i). fits capacity e"
  shows "\<exists>s' os. rfold (prefetch_step prediction capacity max_transfers grouped) s steps = Inr s'
    \<and> prefetch_inv capacity max_transfers s' \<and> pt_step_outcomes s' = pt_step_outcomes s @ os
    \<and> map ps_demand_count os = map (demand_total \<circ> step_events grouped) steps"
  using assms(1,3)
proof (induction steps arbitrary: s)
  case Nil
  then show ?case by simp
next
  case (Cons i steps)
  then obtain s1 o1 where s1: "prefetch_step prediction capacity max_transfers grouped s i = Inr s1"
    "prefetch_inv capacity max_transfers s1" "pt_step_outcomes s1 = pt_step_outcomes s @ [o1]"
    "ps_demand_count o1 = demand_total (step_events grouped i)"
    using prefetch_step_ok [OF _ assms(2), of capacity s grouped i prediction] by auto
  from Cons.IH [OF s1(2)] Cons.prems(2) obtain s' os
    where "rfold (prefetch_step prediction capacity max_transfers grouped) s1 steps = Inr s'"
      "prefetch_inv capacity max_transfers s'" "pt_step_outcomes s' = pt_step_outcomes s1 @ os"
      "map ps_demand_count os = map (demand_total \<circ> step_events grouped) steps" by auto
  with s1 show ?case by (intro exI [of _ s'] exI [of _ "o1 # os"]) simp
qed

text \<open>Every event of a trace belongs to one group, every group to one step.\<close>

lemma group_events_total:
  "sum_of (\<lambda>(f, evs). sum_of ev_width evs) (group_events trace) = sum_of ev_width trace"
proof (induction trace rule: rev_induct)
  case Nil
  then show ?case by (simp add: group_events_def)
next
  case (snoc e trace)
  have set1: "sum_of (\<lambda>(f, evs). sum_of ev_width evs) (dict_set k (dict_get d k [] @ [e]) d)
      = sum_of (\<lambda>(f, evs). sum_of ev_width evs) d + ev_width e" for k and d :: "(int, router_trace_event list) dict"
    by (induction d) (auto simp: dict_get_def)
  show ?case using snoc by (simp add: group_events_def set1)
qed

lemma forward_groups_total: "sum_of demand_total (forward_groups trace) = demand_total trace"
proof -
  show ?thesis
    using group_events_total [of trace]
    by (simp add: forward_groups_def demand_total_def o_def case_prod_unfold sum_of_sort_key)
qed

lemma sum_nth_padded:
  "length xs \<le> n \<Longrightarrow> sum_of (\<lambda>i. if i < length xs then f (xs ! i) else 0) [0..<n] = sum_of f xs"
proof (induction xs arbitrary: n)
  case Nil
  then show ?case by (simp add: sum_list_0)
next
  case (Cons x xs)
  then obtain m where n: "n = Suc m" and m: "length xs \<le> m" by (cases n) auto
  have "sum_of (\<lambda>i. if i < length (x # xs) then f ((x # xs) ! i) else 0) [0..<n]
      = f x + sum_of ((\<lambda>i. if i < length (x # xs) then f ((x # xs) ! i) else 0) \<circ> Suc) [0..<m]"
    by (simp add: n upt_conv_Cons map_Suc_upt [symmetric] del: upt_Suc)
  with Cons.IH [OF m] show ?case by (simp add: o_def cong: if_cong)
qed

lemma step_events_total:
  assumes "\<forall>groups \<in> set grouped. length groups \<le> n"
  shows "sum_of (demand_total \<circ> step_events grouped) [0..<n] = sum_of (sum_of demand_total) grouped"
  using assms
proof (induction grouped)
  case Nil
  then show ?case by (simp add: step_events_def demand_total_def o_def)
next
  case (Cons groups grouped)
  have "demand_total (step_events (groups # grouped) i)
      = (if i < length groups then demand_total (groups ! i) else 0) + demand_total (step_events grouped i)" for i
    by (simp add: step_events_def demand_total_def)
  with Cons sum_nth_padded [of groups n demand_total] show ?case
    by (simp add: o_def sum_list_addf)
qed

lemma step_events_subset: "set (step_events (map forward_groups traces) i) \<subseteq> set (concat traces)"
proof -
  have in_group: "set (concat (map snd (group_events trace))) = set trace" for trace
  proof (induction trace rule: rev_induct)
    case Nil
    then show ?case by (simp add: group_events_def)
  next
    case (snoc e trace)
    have "set (concat (map snd (dict_set k (dict_get d k [] @ [e]) d))) = insert e (set (concat (map snd d)))"
      for k and d :: "(int, router_trace_event list) dict"
      by (induction d) (auto simp: dict_get_def)
    with snoc show ?case by (simp add: group_events_def)
  qed
  have "set groups \<subseteq> set trace" if "groups \<in> set (forward_groups trace)" for groups trace
    using that unfolding in_group [of trace, symmetric]
    by (auto simp: forward_groups_def)
  then show ?thesis by (auto simp: step_events_def split: if_splits) (meson nth_mem subsetD)
qed

lemma length_forward_groups: "length (forward_groups trace) \<le> length trace"
proof (induction trace rule: rev_induct)
  case Nil
  then show ?case by (simp add: forward_groups_def group_events_def)
next
  case (snoc e trace)
  have "length (dict_set k v d) \<le> Suc (length d)" for k and v :: "router_trace_event list" and d :: "(int, router_trace_event list) dict"
    by (induction d) auto
  with snoc show ?case
    by (simp add: forward_groups_def group_events_def) (meson le_trans Suc_le_mono)
qed

lemma step_count_bounds:
  assumes "traces \<noteq> []"
  shows "\<forall>groups \<in> set (map forward_groups traces). length groups \<le> step_count (map forward_groups traces)"
    and "step_count (map forward_groups traces) \<le> length (concat traces)"
proof -
  show "\<forall>groups \<in> set (map forward_groups traces). length groups \<le> step_count (map forward_groups traces)"
    by (auto simp: step_count_def)
  have "length (forward_groups t) \<le> length (concat traces)" if "t \<in> set traces" for t
    using length_forward_groups [of t] member_le_sum_list [of "length t" "map length traces"] that
    by (simp add: length_concat)
  then show "step_count (map forward_groups traces) \<le> length (concat traces)"
    using assms by (simp add: step_count_def)
qed

lemma prefetch_inv_initial: "0 \<le> capacity \<Longrightarrow> prefetch_inv capacity max_transfers prefetch_initial"
  by (simp add: prefetch_inv_def prefetch_initial_def caches_ok_def)

lemma prefetch_inv_totals:
  assumes "prefetch_inv capacity m s" and "0 \<le> m"
  shows "pt_total_hits s + pt_total_misses s = pt_total_demands s"
    and "pt_total_wasted s = pt_total_issued s - pt_total_ready_useful s"
    and "0 \<le> pt_total_hits s" and "0 \<le> pt_total_misses s" and "0 \<le> pt_total_ready_useful s"
    and "pt_total_ready_useful s \<le> pt_total_issued s"
    and "pt_total_issued s \<le> m * int (length (pt_step_outcomes s))"
proof -
  let ?os = "pt_step_outcomes s"
  have c: "step_consistent m st" if "st \<in> set ?os" for st using assms(1) that by (simp add: prefetch_inv_def)
  have t: "pt_total_demands s = sum_of ps_demand_count ?os" "pt_total_hits s = sum_of ps_hit_count ?os"
    "pt_total_misses s = sum_of ps_miss_count ?os" "pt_total_issued s = sum_of ps_transfers_issued ?os"
    "pt_total_ready_useful s = sum_of ps_ready_useful ?os" "pt_total_wasted s = sum_of ps_wasted_transfers ?os"
    using assms(1) by (auto simp: prefetch_inv_def)
  have "sum_of (\<lambda>st. ps_hit_count st + ps_miss_count st) ?os = sum_of ps_demand_count ?os"
    using c by (intro arg_cong [of _ _ sum_list] map_cong) (auto simp: step_consistent_def)
  then show "pt_total_hits s + pt_total_misses s = pt_total_demands s" by (simp add: t sum_list_addf)
  have "sum_of ps_wasted_transfers ?os = sum_of (\<lambda>st. ps_transfers_issued st - ps_ready_useful st) ?os"
    using c by (intro arg_cong [of _ _ sum_list] map_cong) (auto simp: step_consistent_def)
  then show "pt_total_wasted s = pt_total_issued s - pt_total_ready_useful s" by (simp add: t sum_list_subtractf)
  show "0 \<le> pt_total_hits s" "0 \<le> pt_total_misses s" "0 \<le> pt_total_ready_useful s"
    unfolding t using c by (auto intro!: sum_of_nonneg simp: step_consistent_def)
  show "pt_total_ready_useful s \<le> pt_total_issued s"
    unfolding t using c by (auto intro!: sum_of_mono simp: step_consistent_def)
  have "sum_of ps_transfers_issued ?os \<le> sum_of (\<lambda>_. m) ?os"
    using c by (intro sum_of_mono) (auto simp: step_consistent_def)
  then show "pt_total_issued s \<le> m * int (length ?os)" by (simp add: t sum_list_triv algebra_simps)
qed

lemma prefetch_report_ok:
  assumes "prefetch_inv capacity m s" and "0 \<le> m" and "0 < slot_bytes"
    and "m * int (length (pt_step_outcomes s)) * slot_bytes \<le> 2 ^ 1000"
  shows "\<exists>r. prefetch_report prediction capacity m transfer_ms slot_bytes n steps s = Inr r
    \<and> pf_demand_count r = pt_total_demands s \<and> pf_hit_count r = pt_total_hits s
    \<and> pf_miss_count r = pt_total_misses s \<and> pf_transfers_issued r = pt_total_issued s
    \<and> pf_ready_useful r = pt_total_ready_useful s \<and> pf_wasted_transfers r = pt_total_wasted s
    \<and> pf_steps r = pt_step_outcomes s \<and> pf_step_count r = int steps
    \<and> (\<exists>rate. pf_hit_rate r = Fin rate \<and> 0 \<le> rate \<and> rate \<le> 1)"
proof -
  note t = prefetch_inv_totals [OF assms(1,2)]
  have rate: "\<exists>rate. (if pt_total_demands s \<noteq> 0 then int_truediv (pt_total_hits s) (pt_total_demands s)
      else Inr (Fin 0)) = Inr (Fin rate) \<and> 0 \<le> rate \<and> rate \<le> 1"
    using int_truediv_rate [of "pt_total_hits s" "pt_total_demands s"] t(1,3,4) by auto
  let ?M = "m * int (length (pt_step_outcomes s))"
  have M: "?M * 1 \<le> ?M * slot_bytes" using assms(2,3) by (intro mult_left_mono) auto
  have "pt_total_wasted s * slot_bytes \<le> ?M * slot_bytes"
    using t(2,5,7) assms(3) by (intro mult_right_mono) auto
  then have "pt_total_wasted s * slot_bytes \<le> 2 ^ 1000" using assms(4) by (rule order_trans)
  moreover have "0 \<le> pt_total_wasted s * slot_bytes" using t(2,6) assms(3) by simp
  ultimately have "\<exists>r. int_truediv (pt_total_wasted s * slot_bytes) (1024 ^ 2) = Inr (Fin r) \<and> 0 \<le> r"
    by (intro int_truediv_finite) auto
  moreover have "\<exists>r. float_of_int (pt_total_ready_useful s) = Inr (Fin r) \<and> 0 \<le> r"
    using t(5-7) M assms(4) by (intro float_of_int_finite) auto
  ultimately show ?thesis using rate by (elim exE conjE) (simp add: prefetch_report_def)
qed

text \<open>A resident expert a transfer may not evict, and what transfers preserve of it.\<close>

definition kept :: "router_trace_event list \<Rightarrow> caches \<Rightarrow> issued \<Rightarrow> int \<Rightarrow> int \<Rightarrow> bool" where
  "kept events caches issued l x \<longleftrightarrow>
     x \<in> set (dict_get caches l []) \<and> x \<in> protected_experts issued events l"

lemma kept_transfer:
  assumes "kept events caches issued l' y"
    and "\<And>z. z \<in> set (dict_get caches l []) \<Longrightarrow> z \<in> protected_experts issued events l \<Longrightarrow> z \<in> set cache"
  shows "kept events (dict_set l cache caches) (add_issued l x issued) l' y"
  using assms by (auto simp: kept_def protected_experts_def add_issued_def dict_get_set)

lemma issue_transfers_kept:
  assumes "issue_ok capacity caches issued" and "\<forall>(l, x) \<in> issued_ids issued. kept events caches issued l x"
  shows "(\<forall>l x. kept events caches issued l x \<longrightarrow>
        kept events (fst (issue_transfers capacity events budget caches issued scored))
          (snd (issue_transfers capacity events budget caches issued scored)) l x)
    \<and> (\<forall>(l, x) \<in> issued_ids (snd (issue_transfers capacity events budget caches issued scored)).
        kept events (fst (issue_transfers capacity events budget caches issued scored))
          (snd (issue_transfers capacity events budget caches issued scored)) l x)"
  using assms
proof (induction capacity events budget caches issued scored rule: issue_transfers.induct)
  case (1 capacity events budget caches issued)
  then show ?case by simp
next
  case (2 capacity events budget caches issued score l x scored)
  let ?caches = "dict_setdefault l [] caches"
  let ?cache = "dict_get ?caches l []"
  have eq: "kept events ?caches issued = kept events caches issued" by (simp add: kept_def fun_eq_iff)
  have ok: "issue_ok capacity ?caches issued" using 2(5) by (simp add: issue_ok_def caches_ok_def)
  have res: "\<forall>(l, x) \<in> issued_ids issued. kept events ?caches issued l x" using 2(6) eq by simp
  have d: "distinct (map fst issued)" using ok by (simp add: issue_ok_def)
  have grow: "(\<forall>l' y. kept events caches issued l' y \<longrightarrow> kept events (dict_set l cache ?caches) (add_issued l x issued) l' y)
      \<and> (\<forall>(l', y) \<in> issued_ids (add_issued l x issued). kept events (dict_set l cache ?caches) (add_issued l x issued) l' y)"
    if "x \<in> set cache" "\<And>z. z \<in> set ?cache \<Longrightarrow> z \<in> protected_experts issued events l \<Longrightarrow> z \<in> set cache" for cache
  proof -
    have keep: "kept events (dict_set l cache ?caches) (add_issued l x issued) l' y"
      if "kept events caches issued l' y" for l' y
      using that \<open>\<And>z. _ \<Longrightarrow> _ \<Longrightarrow> z \<in> set cache\<close> eq by (intro kept_transfer) auto
    moreover have "kept events (dict_set l cache ?caches) (add_issued l x issued) l x"
      using that(1) by (simp add: kept_def protected_experts_def add_issued_def dict_get_set)
    ultimately show ?thesis using 2(6) by (auto simp: issued_ids_add [OF d])
  qed
  show ?case
  proof (cases "budget \<le> 0")
    case True
    then show ?thesis using 2(6) by simp
  next
    case b: False
    show ?thesis
    proof (cases "x \<in> set ?cache")
      case True
      with 2(1) [OF b refl refl True ok res] b eq show ?thesis by (simp add: Let_def)
    next
      case x: False
      have c: "cache_ok capacity ?cache" using ok by (simp add: issue_ok_def caches_ok_def)
      show ?thesis
      proof (cases "int (length ?cache) < capacity")
        case True
        have "cache_ok capacity (od_insert x ?cache)" using c x True by (simp add: cache_ok_def)
        note g = grow [of "od_insert x ?cache"]
        have "\<forall>(l', y) \<in> issued_ids (add_issued l x issued).
            kept events (dict_set l (od_insert x ?cache) ?caches) (add_issued l x issued) l' y"
          using g by simp
        from 2(2) [OF b refl refl x True issue_ok_add [OF ok \<open>cache_ok capacity (od_insert x ?cache)\<close>] this]
          g b x True show ?thesis by (simp add: Let_def)
      next
        case full: False
        show ?thesis
        proof (cases "find (\<lambda>c. c \<notin> protected_experts issued events l) ?cache")
          case None
          with 2(3) [OF b refl refl x full None ok res] b x full eq show ?thesis by (simp add: Let_def)
        next
          case (Some v)
          then have v: "v \<in> set ?cache" "v \<notin> protected_experts issued events l"
            by (auto simp: find_Some_iff dest: nth_mem)
          then have "length (od_insert x (remove1 v ?cache)) \<le> length ?cache"
            using length_od_insert [of x "remove1 v ?cache"] length_pos_if_in_set [OF v(1)]
            by (simp add: length_remove1)
          then have ok': "cache_ok capacity (od_insert x (remove1 v ?cache))" using c by (simp add: cache_ok_def)
          note g = grow [of "od_insert x (remove1 v ?cache)"]
          have g': "z \<in> set (od_insert x (remove1 v ?cache))"
            if "z \<in> set ?cache" "z \<in> protected_experts issued events l" for z
            using that v by (cases "z = v") (auto simp: in_set_remove1)
          have "\<forall>(l', y) \<in> issued_ids (add_issued l x issued).
              kept events (dict_set l (od_insert x (remove1 v ?cache)) ?caches) (add_issued l x issued) l' y"
            using g g' by simp
          from 2(4) [OF b refl refl x full Some issue_ok_add [OF ok ok'] this] g g' b x full Some
          show ?thesis by (simp add: Let_def)
        qed
      qed
    qed
  qed
qed

section \<open>Properties\<close>

text \<open>
  C23. The simulation of well-formed traces that pass validation returns (the transferred bytes
  within the float range): every demand of every conversation is counted once, as a hit or a
  miss; every step keeps to its transfer budget and to its candidates, and counts no more useful
  transfers than it issued, so the wasted transfers are never negative; the totals are the sums.
\<close>

theorem prefetch_accounts_for_demand:
  assumes "prefetch_validated traces prediction capacity m transfer_ms slot_bytes = Inr ()"
    and "\<forall>trace \<in> set traces. \<forall>e \<in> set trace. wf_event e"
    and "m * int (length (concat traces)) * slot_bytes \<le> 2 ^ 1000"
  shows "\<exists>r. simulate_concurrent_prefetch traces prediction capacity m transfer_ms slot_bytes = Inr r
    \<and> pf_demand_count r = sum_of demand_total traces
    \<and> pf_hit_count r + pf_miss_count r = pf_demand_count r
    \<and> pf_wasted_transfers r = pf_transfers_issued r - pf_ready_useful r \<and> 0 \<le> pf_wasted_transfers r
    \<and> (\<exists>rate. pf_hit_rate r = Fin rate \<and> 0 \<le> rate \<and> rate \<le> 1)
    \<and> pf_step_count r = int (length (pf_steps r))
    \<and> (\<forall>st \<in> set (pf_steps r). step_consistent m st)"
proof -
  let ?g = "map forward_groups traces" and ?n = "step_count (map forward_groups traces)"
  have v: "traces \<noteq> []" "0 \<le> m" "0 < slot_bytes" "\<forall>e \<in> set (concat traces). ev_width e \<le> capacity"
    and ne: "[] \<notin> set traces"
    using assms(1) by (auto simp: prefetch_validated_def not_less split: if_splits)
  have fits: "\<forall>e \<in> set (concat traces). fits capacity e"
    using v(4) assms(2) by (auto simp: fits_def wf_event_def)
  obtain t e where "t \<in> set traces" "e \<in> set t" using v(1) ne by (metis list.set_intros(1) neq_Nil_conv)
  with v(4) have "0 \<le> capacity" by (force simp: ev_width_def)
  then have inv0: "prefetch_inv capacity m prefetch_initial" by (rule prefetch_inv_initial)
  have "\<forall>i \<in> set [0..<?n]. \<forall>e \<in> set (step_events ?g i). fits capacity e"
    using fits step_events_subset by blast
  from prefetch_run_ok [OF inv0 v(2) this, of prediction] obtain s os where s:
    "rfold (prefetch_step prediction capacity m ?g) prefetch_initial [0..<?n] = Inr s"
    "prefetch_inv capacity m s" "pt_step_outcomes s = pt_step_outcomes prefetch_initial @ os"
    "map ps_demand_count os = map (demand_total \<circ> step_events ?g) [0..<?n]" by blast
  have os: "pt_step_outcomes s = os" using s(3) by (simp add: prefetch_initial_def)
  have len: "length os = ?n" using s(4) by (metis length_map length_upt minus_nat.diff_0)
  have "pt_total_demands s = sum_of (demand_total \<circ> step_events ?g) [0..<?n]"
    using s(2,4) os by (simp add: prefetch_inv_def)
  also have "\<dots> = sum_of (sum_of demand_total) ?g"
    using step_count_bounds(1) [OF v(1)] by (rule step_events_total)
  also have "\<dots> = sum_of demand_total traces" by (simp add: o_def forward_groups_total)
  finally have total: "pt_total_demands s = sum_of demand_total traces" .
  have "m * int (length (pt_step_outcomes s)) * slot_bytes \<le> m * int (length (concat traces)) * slot_bytes"
    using step_count_bounds(2) [OF v(1)] v(2,3) len os by (intro mult_right_mono mult_left_mono) auto
  then have "m * int (length (pt_step_outcomes s)) * slot_bytes \<le> 2 ^ 1000" using assms(3) by (rule order_trans)
  from prefetch_report_ok [OF s(2) v(2,3) this, of prediction transfer_ms "int (length traces)" ?n]
    prefetch_inv_totals [OF s(2) v(2)] s(1,2) total len os assms(1)
  show ?thesis by (auto simp: simulate_concurrent_prefetch_def Let_def prefetch_inv_def)
qed

lemma prefetch_accounts_for_demand_witness:
  "\<exists>r. simulate_concurrent_prefetch [example_trace, example_trace] ''frequency'' 2 1 (Fin 3) 4096 = Inr r
    \<and> pf_demand_count r = sum_of demand_total [example_trace, example_trace]
    \<and> pf_hit_count r + pf_miss_count r = pf_demand_count r"
  using prefetch_accounts_for_demand [of "[example_trace, example_trace]" "''frequency''" 2 1 "Fin 3" 4096]
  by (auto simp: prefetch_validated_def py_less_def example_trace_def ev_width_def wf_example_event)

text \<open>
  The demand loop implements the recency specification: from a cache of distinct experts
  within the capacity, an event of at most \<open>capacity\<close> distinct experts leaves the newest
  \<open>capacity\<close> keys of the recency order, hits exactly the experts that were resident, and marks as
  useful exactly the hits among the experts transferred in the step.
\<close>

theorem consume_demand_refines_recency:
  assumes "fits capacity e" and "cache_ok capacity cache"
  shows "consume_demand capacity e issued cache counted = Inr
    (lastn (nat capacity) (foldl touch cache (ev_selected_expert_ids e)),
     counted \<union> Pair (ev_layer_id e) ` (set (ev_selected_expert_ids e) \<inter> set cache \<inter> issued),
     int (length (filter (\<lambda>x. x \<in> set cache) (ev_selected_expert_ids e))),
     int (length (filter (\<lambda>x. x \<notin> set cache) (ev_selected_expert_ids e))))"
  by (rule consume_demand_eq [OF assms])

lemma consume_demand_refines_recency_witness:
  "consume_demand 3 (example_event 0 4 [8, 5]) {5} [7, 5, 9] {} = Inr ([9, 8, 5], {(4, 5)}, 1, 1)"
  using consume_demand_refines_recency [of 3 "example_event 0 4 [8, 5]" "[7, 5, 9]" "{5}" "{}"]
  by (simp add: fits_def ev_width_def cache_ok_def touch_def lastn_def numeral_2_eq_2 numeral_3_eq_3)

text \<open>
  C24. Transfers never harm the step they serve: from caches within the capacity, every resident
  expert that an event of the step demands is still resident after the transfers, and so is every
  expert transferred in the step, while the caches stay within the capacity.
\<close>

theorem transfers_keep_demanded_experts:
  assumes "caches_ok capacity caches"
    and "issue_transfers capacity events budget caches [] scored = (caches', issued)"
  shows "caches_ok capacity caches'
    \<and> (\<forall>(l, x) \<in> issued_ids issued. x \<in> set (dict_get caches' l []))
    \<and> (\<forall>e \<in> set events. \<forall>x \<in> set (ev_selected_expert_ids e).
         x \<in> set (dict_get caches (ev_layer_id e) []) \<longrightarrow> x \<in> set (dict_get caches' (ev_layer_id e) []))"
proof -
  have ok: "issue_ok capacity caches []" using assms(1) by (simp add: issue_ok_def)
  from issue_transfers_kept [OF ok, of events budget scored] issue_transfers_ok [OF ok, of events budget scored]
  have k: "\<forall>l x. kept events caches [] l x \<longrightarrow> kept events caches' issued l x"
    "\<forall>(l, x) \<in> issued_ids issued. kept events caches' issued l x" and c: "caches_ok capacity caches'"
    by (simp_all add: assms(2) issue_ok_def)
  have "kept events caches [] (ev_layer_id e) x"
    if "e \<in> set events" "x \<in> set (ev_selected_expert_ids e)" "x \<in> set (dict_get caches (ev_layer_id e) [])" for e x
    using that by (auto simp: kept_def protected_experts_def)
  then show ?thesis using k c by (fastforce simp: kept_def)
qed

lemma transfers_keep_demanded_experts_witness:
  "caches_ok 2 [(0, [6, 2])] \<and> (\<exists>caches' issued.
     issue_transfers 2 [example_event 0 0 [1, 2]] 3 [(0, [6, 2])] [] [(-1, 0, 1)] = (caches', issued)
     \<and> 2 \<in> set (dict_get caches' 0 []))"
proof -
  have c: "caches_ok 2 [(0, [6, 2])]" by (simp add: caches_ok_def cache_ok_def dict_get_def)
  show ?thesis
    using transfers_keep_demanded_experts [OF c, of "[example_event 0 0 [1, 2]]" 3 "[(-1, 0, 1)]"] c
    by (cases "issue_transfers 2 [example_event 0 0 [1, 2]] 3 [(0, [6, 2])] [] [(-1, 0, 1)]")
      (auto simp: dict_get_def)
qed

end
