(* ===== verification/Capacity_Curve.thy ===== *)
theory Capacity_Curve
  imports Cache_Sim
begin

text \<open>
  \<open>analysis/capacity_curve.py\<close>: the policy results over a list of cache capacities, either on
  one workload (in sample) or with a static hot set fitted on training events and scored on
  untouched evaluation events (held out), the evaluation cut into conversations at whose start
  the caches are empty. The lemmas show that the curves return for capacities that hold an
  event, that each point accounts for every demand, that the static curve never falls as the
  capacity grows, and that cutting the evaluation into groups loses no demand.
\<close>

record policy_point =
  pp_result :: policy_result
  pp_serial_h2d_ms :: pyfloat

record capacity_point =
  cp_capacity_per_layer :: int
  cp_projected_cache_bytes :: int
  cp_reactive :: policy_point
  cp_static_hotset :: policy_point
  cp_lru :: policy_point

record capacity_curve =
  cc_fit_scope :: string
  cc_lru_reset_scope :: "string option"
  cc_training_event_count :: "int option"
  cc_event_count :: int
  cc_expert_demand_count :: int
  cc_layer_ids :: "int list"
  cc_router_top_k :: int
  cc_slot_bytes :: int
  cc_expert_transfer_ms :: pyfloat
  cc_points :: "capacity_point list"

text \<open>\<open>layer_count * router_top_k * (1.0 - hit_rate) * expert_transfer_ms\<close>.\<close>

definition policy_point :: "policy_result \<Rightarrow> int \<Rightarrow> int \<Rightarrow> pyfloat \<Rightarrow> policy_point res" where
  "policy_point result layer_count router_top_k expert_transfer_ms =
     rbind (float_of_int (layer_count * router_top_k)) (\<lambda>experts.
       Inr \<lparr>pp_result = result,
         pp_serial_h2d_ms = fmul (fmul experts (fsub (Fin 1) (pr_hit_rate result))) expert_transfer_ms\<rparr>)"

definition combine_policy_results :: "string \<Rightarrow> policy_result list \<Rightarrow> policy_result res" where
  "combine_policy_results policy results =
     (let demand_count = sum_of pr_demand_count results; hit_count = sum_of pr_hit_count results
      in rbind (int_truediv hit_count demand_count) (\<lambda>rate.
        Inr \<lparr>pr_policy = policy, pr_demand_count = demand_count, pr_hit_count = hit_count,
          pr_miss_count = sum_of pr_miss_count results, pr_load_count = sum_of pr_load_count results,
          pr_preload_count = sum_of pr_preload_count results, pr_hit_rate = rate\<rparr>))"

definition layer_ids_of :: "router_trace_event list \<Rightarrow> int list" where
  "layer_ids_of trace = sort (remdups (map ev_layer_id trace))"

definition capacity_point_of ::
    "int \<Rightarrow> int \<Rightarrow> int \<Rightarrow> int \<Rightarrow> pyfloat \<Rightarrow> policy_result \<Rightarrow> policy_result \<Rightarrow> policy_result
      \<Rightarrow> capacity_point res" where
  "capacity_point_of capacity layer_count router_top_k slot_bytes transfer_ms reactive static lru =
     rbind (policy_point reactive layer_count router_top_k transfer_ms) (\<lambda>reactive_point.
     rbind (policy_point static layer_count router_top_k transfer_ms) (\<lambda>static_point.
     rbind (policy_point lru layer_count router_top_k transfer_ms) (\<lambda>lru_point.
       Inr \<lparr>cp_capacity_per_layer = capacity,
         cp_projected_cache_bytes = capacity * layer_count * slot_bytes,
         cp_reactive = reactive_point, cp_static_hotset = static_point, cp_lru = lru_point\<rparr>)))"

definition in_sample_point ::
    "router_trace_event list \<Rightarrow> int \<Rightarrow> int \<Rightarrow> pyfloat \<Rightarrow> int \<Rightarrow> capacity_point res" where
  "in_sample_point trace router_top_k slot_bytes transfer_ms capacity =
     rbind (simulate_policies trace capacity) (\<lambda>simulation.
       capacity_point_of capacity (int (length (layer_ids_of trace))) router_top_k slot_bytes transfer_ms
         (cs_reactive simulation) (cs_static_hotset simulation) (cs_lru simulation))"

definition build_capacity_curve ::
    "router_trace_event list \<Rightarrow> int list \<Rightarrow> int \<Rightarrow> pyfloat \<Rightarrow> capacity_curve res" where
  "build_capacity_curve trace capacities slot_bytes transfer_ms =
     (if trace = [] then Inl (ValueError ''events must not be empty'')
      else if capacities = [] \<or> (\<exists>c \<in> set capacities. c \<le> 0)
      then Inl (ValueError ''capacities must contain positive values'')
      else if slot_bytes \<le> 0 then Inl (ValueError ''slot_bytes must be positive'')
      else if py_le transfer_ms (Fin 0) then Inl (ValueError ''expert_transfer_ms must be positive'')
      else case remdups (map ev_width trace) of
          [router_top_k] \<Rightarrow>
            rbind (rmap (in_sample_point trace router_top_k slot_bytes transfer_ms) (fromkeys capacities))
              (\<lambda>points. Inr \<lparr>cc_fit_scope = ''in_sample'', cc_lru_reset_scope = None,
                cc_training_event_count = None, cc_event_count = int (length trace),
                cc_expert_demand_count = demand_total trace, cc_layer_ids = layer_ids_of trace,
                cc_router_top_k = router_top_k, cc_slot_bytes = slot_bytes,
                cc_expert_transfer_ms = transfer_ms, cc_points = points\<rparr>)
        | _ \<Rightarrow> Inl (ValueError ''router top-k must be constant across the workload''))"

text \<open>Hits of the evaluation events against residents fitted on the training events.\<close>

definition static_hits :: "(int, int set) dict \<Rightarrow> router_trace_event list \<Rightarrow> int res" where
  "static_hits residents evaluation = rbind (rmap (\<lambda>e.
     rbind (dict_index residents (ev_layer_id e)) (\<lambda>R.
       Inr (int (length (filter (\<lambda>x. x \<in> R) (ev_selected_expert_ids e)))))) evaluation)
     (\<lambda>hits. Inr (sum_list hits))"

definition held_out_point ::
    "router_trace_event list \<Rightarrow> router_trace_event list \<Rightarrow> router_trace_event list list \<Rightarrow> int \<Rightarrow> int
      \<Rightarrow> pyfloat \<Rightarrow> int \<Rightarrow> capacity_point res" where
  "held_out_point training evaluation groups router_top_k slot_bytes transfer_ms capacity =
     (if capacity < router_top_k then Inl (ValueError ''capacity cannot be below router top-k'')
      else let residents = static_residents training capacity; demand_count = demand_total evaluation in
        rbind (static_hits residents evaluation) (\<lambda>hits.
        rbind (int_truediv hits demand_count) (\<lambda>rate.
        let static = \<lparr>pr_policy = ''static_hotset'', pr_demand_count = demand_count,
              pr_hit_count = hits, pr_miss_count = demand_count - hits,
              pr_load_count = demand_count - hits,
              pr_preload_count = sum_of (\<lambda>(l, R). int (card R)) residents, pr_hit_rate = rate\<rparr> in
        rbind (rmap (\<lambda>group. simulate_policies group capacity) groups) (\<lambda>simulations.
        rbind (combine_policy_results ''reactive'' (map cs_reactive simulations)) (\<lambda>reactive.
        rbind (combine_policy_results ''lru'' (map cs_lru simulations)) (\<lambda>lru.
          capacity_point_of capacity (int (length (layer_ids_of evaluation))) router_top_k slot_bytes
            transfer_ms reactive static lru))))))"

definition build_held_out_capacity_curve ::
    "router_trace_event list \<Rightarrow> router_trace_event list \<Rightarrow> router_trace_event list list option \<Rightarrow> int list
      \<Rightarrow> int \<Rightarrow> pyfloat \<Rightarrow> capacity_curve res" where
  "build_held_out_capacity_curve training evaluation evaluation_groups capacities slot_bytes transfer_ms =
     (if training = [] \<or> evaluation = []
      then Inl (ValueError ''training and evaluation events must not be empty'')
      else if capacities = [] \<or> (\<exists>c \<in> set capacities. c \<le> 0)
      then Inl (ValueError ''capacities must contain positive values'')
      else if slot_bytes \<le> 0 \<or> py_le transfer_ms (Fin 0)
      then Inl (ValueError ''slot bytes and transfer time must be positive'')
      else let groups = (case evaluation_groups of None \<Rightarrow> [evaluation] | Some groups \<Rightarrow> groups) in
        if groups = [] \<or> [] \<in> set groups then Inl (ValueError ''evaluation groups must not be empty'')
        else if concat groups \<noteq> evaluation
        then Inl (ValueError ''evaluation groups must partition evaluation events'')
        else case remdups (map ev_width (training @ evaluation)) of
          [router_top_k] \<Rightarrow>
            if set (map ev_layer_id training) \<noteq> set (map ev_layer_id evaluation)
            then Inl (ValueError ''training and evaluation layer sets must match'')
            else rbind (rmap (held_out_point training evaluation groups router_top_k slot_bytes transfer_ms)
                (fromkeys capacities)) (\<lambda>points.
              Inr \<lparr>cc_fit_scope = ''held_out'',
                cc_lru_reset_scope = Some (case evaluation_groups of None \<Rightarrow> ''evaluation_set''
                  | Some _ \<Rightarrow> ''conversation''),
                cc_training_event_count = Some (int (length training)),
                cc_event_count = int (length evaluation),
                cc_expert_demand_count = demand_total evaluation,
                cc_layer_ids = layer_ids_of evaluation, cc_router_top_k = router_top_k,
                cc_slot_bytes = slot_bytes, cc_expert_transfer_ms = transfer_ms, cc_points = points\<rparr>)
        | _ \<Rightarrow> Inl (ValueError ''router top-k must be constant across both workloads''))"

lemma served_by_mono: "(\<And>l. R l \<subseteq> S l) \<Longrightarrow> served_by R events \<le> served_by S events"
  unfolding served_by_def
proof (induction events)
  case (Cons e events)
  have "length (filter (\<lambda>x. x \<in> R (ev_layer_id e)) xs) \<le> length (filter (\<lambda>x. x \<in> S (ev_layer_id e)) xs)" for xs
    using Cons.prems [of "ev_layer_id e"] by (induction xs) auto
  with Cons show ?case by (auto intro: add_mono)
qed simp

lemma hot_set_mono: "c \<le> c' \<Longrightarrow> hot_set counts c \<subseteq> hot_set counts c'"
  unfolding hot_set_def by (intro image_mono set_take_subset_set_take | simp add: image_mono set_take_subset_set_take nat_mono)+

lemma layer_ids_bound:
  assumes "\<forall>e \<in> set trace. wf_event e"
  shows "length (layer_ids_of trace) \<le> 65536"
proof -
  have "set (layer_ids_of trace) \<subseteq> {0..65535}" using assms by (auto simp: layer_ids_of_def wf_event_def)
  from card_mono [OF _ this] have "card (set (layer_ids_of trace)) \<le> 65536" by simp
  moreover have "distinct (layer_ids_of trace)" by (simp add: layer_ids_of_def)
  ultimately show ?thesis by (simp add: distinct_card)
qed

lemma width_bound:
  assumes "wf_event e"
  shows "0 < ev_width e" and "ev_width e \<le> 65536"
proof -
  have "set (ev_selected_expert_ids e) \<subseteq> {0..65535}" and d: "distinct (ev_selected_expert_ids e)"
    using assms by (auto simp: wf_event_def)
  from card_mono [OF _ this(1)] show "ev_width e \<le> 65536" using d by (simp add: ev_width_def distinct_card)
  show "0 < ev_width e" using assms by (auto simp: ev_width_def wf_event_def)
qed

lemma capacity_point_of_ok:
  assumes "0 \<le> n" and "n \<le> 65536" and "0 \<le> k" and "k \<le> 65536"
  shows "\<exists>p. capacity_point_of c n k slot ms r s l = Inr p \<and> cp_capacity_per_layer p = c
    \<and> cp_projected_cache_bytes p = c * n * slot \<and> pp_result (cp_reactive p) = r
    \<and> pp_result (cp_static_hotset p) = s \<and> pp_result (cp_lru p) = l"
proof -
  have "n * k \<le> 65536 * 65536" using assms by (intro mult_mono) auto
  then have "\<exists>x. float_of_int (n * k) = Inr (Fin x) \<and> 0 \<le> x"
    using assms(1,3) by (intro float_of_int_finite) auto
  then show ?thesis by (auto simp: capacity_point_of_def policy_point_def)
qed

lemma wf_fits: "wf_event e \<Longrightarrow> ev_width e \<le> c \<Longrightarrow> fits c e"
  by (simp add: fits_def wf_event_def)

text \<open>What a point of either curve promises.\<close>

definition point_consistent :: "int \<Rightarrow> capacity_point \<Rightarrow> bool" where
  "point_consistent demand p \<longleftrightarrow>
     (\<forall>r \<in> {pp_result (cp_reactive p), pp_result (cp_static_hotset p), pp_result (cp_lru p)}.
        result_consistent r \<and> pr_demand_count r = demand)
     \<and> pr_hit_count (pp_result (cp_reactive p)) = 0"

lemma in_sample_point_ok:
  assumes "\<forall>e \<in> set trace. wf_event e" and "\<forall>e \<in> set trace. ev_width e = k" and "k \<le> c" and "trace \<noteq> []"
  shows "\<exists>p. in_sample_point trace k slot ms c = Inr p \<and> cp_capacity_per_layer p = c
    \<and> cp_projected_cache_bytes p = c * int (length (layer_ids_of trace)) * slot
    \<and> point_consistent (demand_total trace) p
    \<and> pr_hit_count (pp_result (cp_static_hotset p))
        = served_by (\<lambda>l. hot_set (dict_get (layer_counts trace) l []) c) trace"
proof -
  obtain e where e: "e \<in> set trace" using assms(4) by (cases trace) auto
  then have k: "0 < k" "k \<le> 65536" using assms(1,2) width_bound [of e] by auto
  have "fits c e" if "e \<in> set trace" for e using assms(1-3) that by (intro wf_fits) auto
  moreover have "0 < c" using k(1) assms(3) by linarith
  ultimately have tf: "trace_fits c trace" by (simp add: trace_fits_def)
  from simulate_policies_ok [OF tf] obtain r so where r: "simulate_policies trace c = Inr r"
    and so: "policy_outcomes trace ''static_hotset'' c = Inr so"
    and rc: "result_consistent (cs_reactive r)" "result_consistent (cs_static_hotset r)"
      "result_consistent (cs_lru r)"
      "pr_demand_count (cs_reactive r) = demand_total trace"
      "pr_demand_count (cs_static_hotset r) = demand_total trace"
      "pr_demand_count (cs_lru r) = demand_total trace"
      "pr_hit_count (cs_reactive r) = 0" "pr_hit_count (cs_static_hotset r) = ready_total so"
    by (elim exE conjE)
  have st: "ready_total so = served_by (\<lambda>l. hot_set (dict_get (layer_counts trace) l []) c) trace"
    using static_outcomes [OF tf] so by auto
  from capacity_point_of_ok [of "int (length (layer_ids_of trace))" k c slot ms
      "cs_reactive r" "cs_static_hotset r" "cs_lru r"] k layer_ids_bound [OF assms(1)]
  obtain p where "capacity_point_of c (int (length (layer_ids_of trace))) k slot ms (cs_reactive r)
      (cs_static_hotset r) (cs_lru r) = Inr p" "cp_capacity_per_layer p = c"
    "cp_projected_cache_bytes p = c * int (length (layer_ids_of trace)) * slot"
    "pp_result (cp_reactive p) = cs_reactive r" "pp_result (cp_static_hotset p) = cs_static_hotset r"
    "pp_result (cp_lru p) = cs_lru r" by auto
  with r rc st show ?thesis by (simp add: in_sample_point_def point_consistent_def)
qed

lemma remdups_constant: "xs \<noteq> [] \<Longrightarrow> \<forall>x \<in> set xs. x = k \<Longrightarrow> remdups xs = [k]"
proof (induction xs)
  case (Cons x xs)
  then show ?case by (cases xs) auto
qed simp

text \<open>The checks both curves make on their numbers, and the shape of a workload.\<close>

definition curve_inputs :: "int list \<Rightarrow> int \<Rightarrow> pyfloat \<Rightarrow> int \<Rightarrow> router_trace_event list \<Rightarrow> bool" where
  "curve_inputs capacities slot ms k trace \<longleftrightarrow>
     capacities \<noteq> [] \<and> (\<forall>c \<in> set capacities. 0 < c \<and> k \<le> c) \<and> 0 < slot \<and> \<not> py_le ms (Fin 0)
     \<and> trace \<noteq> [] \<and> (\<forall>e \<in> set trace. wf_event e \<and> ev_width e = k)"

lemma curve_inputs_top_k:
  assumes "curve_inputs capacities slot ms k trace"
  shows "remdups (map ev_width trace) = [k]"
  using assms unfolding curve_inputs_def by (intro remdups_constant) auto

lemma rmap_points:
  assumes "\<And>c. c \<in> set cs \<Longrightarrow> \<exists>p. f c = Inr p \<and> P c p"
  shows "\<exists>ps. rmap f cs = Inr ps \<and> list_all2 P cs ps"
  using assms
proof (induction cs)
  case (Cons c cs)
  then obtain p ps where "f c = Inr p" "P c p" "rmap f cs = Inr ps" "list_all2 P cs ps" by fastforce
  then show ?case by simp
qed simp

lemma capacity_curve_ok:
  assumes "curve_inputs capacities slot ms k trace"
  shows "\<exists>r. build_capacity_curve trace capacities slot ms = Inr r
    \<and> cc_expert_demand_count r = demand_total trace
    \<and> list_all2 (\<lambda>c p. cp_capacity_per_layer p = c
        \<and> cp_projected_cache_bytes p = c * int (length (layer_ids_of trace)) * slot
        \<and> point_consistent (demand_total trace) p
        \<and> pr_hit_count (pp_result (cp_static_hotset p))
            = served_by (\<lambda>l. hot_set (dict_get (layer_counts trace) l []) c) trace)
      (fromkeys capacities) (cc_points r)"
proof -
  note a = assms [unfolded curve_inputs_def]
  let ?P = "\<lambda>c p. cp_capacity_per_layer p = c
        \<and> cp_projected_cache_bytes p = c * int (length (layer_ids_of trace)) * slot
        \<and> point_consistent (demand_total trace) p
        \<and> pr_hit_count (pp_result (cp_static_hotset p))
            = served_by (\<lambda>l. hot_set (dict_get (layer_counts trace) l []) c) trace"
  have "\<exists>ps. rmap (in_sample_point trace k slot ms) (fromkeys capacities) = Inr ps
      \<and> list_all2 ?P (fromkeys capacities) ps"
    by (rule rmap_points, rule in_sample_point_ok) (use a in auto)
  then obtain ps where ps: "rmap (in_sample_point trace k slot ms) (fromkeys capacities) = Inr ps"
    "list_all2 ?P (fromkeys capacities) ps" by blast
  have "\<not> (\<exists>c \<in> set capacities. c \<le> 0)" using a by (meson not_less)
  then show ?thesis
    using a ps by (simp add: build_capacity_curve_def curve_inputs_top_k [OF assms])
qed

section \<open>Held-out points\<close>

lemma simulations_ok:
  assumes "\<forall>g \<in> set groups. trace_fits c g"
  shows "\<exists>sims. rmap (\<lambda>g. simulate_policies g c) groups = Inr sims
    \<and> list_all2 (\<lambda>g s. result_consistent (cs_reactive s) \<and> result_consistent (cs_lru s)
        \<and> pr_demand_count (cs_reactive s) = demand_total g \<and> pr_demand_count (cs_lru s) = demand_total g
        \<and> pr_hit_count (cs_reactive s) = 0) groups sims"
proof (rule rmap_points)
  fix g assume "g \<in> set groups"
  then have "trace_fits c g" using assms by blast
  from simulate_policies_ok [OF this] show "\<exists>s. simulate_policies g c = Inr s
    \<and> result_consistent (cs_reactive s) \<and> result_consistent (cs_lru s)
    \<and> pr_demand_count (cs_reactive s) = demand_total g \<and> pr_demand_count (cs_lru s) = demand_total g
    \<and> pr_hit_count (cs_reactive s) = 0"
    by (elim exE conjE) (intro exI conjI; assumption)
qed

lemma combine_ok:
  assumes "list_all2 (\<lambda>g r. result_consistent r \<and> pr_demand_count r = demand_total g) groups results"
    and "0 < demand_total (concat groups)"
  shows "\<exists>r. combine_policy_results policy results = Inr r \<and> result_consistent r
    \<and> pr_demand_count r = demand_total (concat groups) \<and> pr_hit_count r = sum_of pr_hit_count results"
proof -
  have d: "sum_of pr_demand_count results = demand_total (concat groups)"
    using assms(1) by (induction rule: list_all2_induct) (simp_all add: demand_total_def)
  have c: "\<forall>r \<in> set results. result_consistent r"
    using assms(1) by (induction rule: list_all2_induct) simp_all
  have hm: "sum_of pr_hit_count results + sum_of pr_miss_count results = sum_of pr_demand_count results"
    "sum_of pr_load_count results = sum_of pr_miss_count results"
    "0 \<le> sum_of pr_hit_count results" "0 \<le> sum_of pr_miss_count results"
    using c by (induction results) (auto simp: result_consistent_def)
  obtain rate where "int_truediv (sum_of pr_hit_count results) (sum_of pr_demand_count results) = Inr (Fin rate)"
    "0 \<le> rate" "rate \<le> 1"
    using int_truediv_rate [of "sum_of pr_hit_count results" "sum_of pr_demand_count results"] hm d assms(2) by auto
  then show ?thesis using hm d by (auto simp: combine_policy_results_def result_consistent_def)
qed

lemma static_hits_ok:
  assumes "ev_layer_id ` set evaluation \<subseteq> ev_layer_id ` set training"
  shows "static_hits (static_residents training c) evaluation
    = Inr (served_by (\<lambda>l. hot_set (dict_get (layer_counts training) l []) c) evaluation)"
proof -
  have "rmap (\<lambda>e. rbind (dict_index (static_residents training c) (ev_layer_id e)) (\<lambda>R.
       Inr (int (length (filter (\<lambda>x. x \<in> R) (ev_selected_expert_ids e)))))) evaluation
    = Inr (map (\<lambda>e. int (length (filter (\<lambda>x. x \<in> hot_set (dict_get (layer_counts training) (ev_layer_id e) []) c)
        (ev_selected_expert_ids e)))) evaluation)"
    using assms by (intro rmap_all_ok) (auto simp: residents_index)
  then show ?thesis by (simp add: static_hits_def served_by_def)
qed

lemma served_by_bounds: "0 \<le> served_by R events \<and> served_by R events \<le> demand_total events"
proof (induction events)
  case Nil
  then show ?case by (simp add: served_by_def demand_total_def)
next
  case (Cons e events)
  have "length (filter (\<lambda>x. x \<in> R (ev_layer_id e)) (ev_selected_expert_ids e)) \<le> length (ev_selected_expert_ids e)"
    by (rule length_filter_le)
  with Cons show ?case by (auto simp: served_by_def demand_total_def ev_width_def intro: add_mono)
qed

lemma held_out_point_ok:
  assumes "\<forall>e \<in> set evaluation. wf_event e \<and> ev_width e = k" and "k \<le> c" and "0 < c"
    and "concat groups = evaluation" and "evaluation \<noteq> []"
    and "ev_layer_id ` set evaluation \<subseteq> ev_layer_id ` set training"
  shows "\<exists>p. held_out_point training evaluation groups k slot ms c = Inr p \<and> cp_capacity_per_layer p = c
    \<and> point_consistent (demand_total evaluation) p
    \<and> pr_hit_count (pp_result (cp_static_hotset p))
        = served_by (\<lambda>l. hot_set (dict_get (layer_counts training) l []) c) evaluation"
proof -
  let ?D = "demand_total evaluation" and ?H = "served_by (\<lambda>l. hot_set (dict_get (layer_counts training) l []) c) evaluation"
  obtain e where e: "e \<in> set evaluation" using assms(5) by (cases evaluation) auto
  then have k: "0 < k" "k \<le> 65536" using assms(1) width_bound [of e] by auto
  have "fits c e" if "e \<in> set evaluation" for e using assms(1,2) that by (intro wf_fits) auto
  moreover have "set g \<subseteq> set evaluation" if "g \<in> set groups" for g using that assms(4) by auto
  ultimately have tf: "\<forall>g \<in> set groups. trace_fits c g"
    using assms(3) by (auto simp: trace_fits_def)
  have "?D = k * int (length evaluation)"
    unfolding demand_total_def using assms(1) by (induction evaluation) (auto simp: algebra_simps)
  then have D: "0 < ?D" using k assms(5) by simp
  from simulations_ok [OF tf] obtain sims where sims: "rmap (\<lambda>g. simulate_policies g c) groups = Inr sims"
    and all: "list_all2 (\<lambda>g s. result_consistent (cs_reactive s) \<and> result_consistent (cs_lru s)
        \<and> pr_demand_count (cs_reactive s) = demand_total g \<and> pr_demand_count (cs_lru s) = demand_total g
        \<and> pr_hit_count (cs_reactive s) = 0) groups sims" by blast
  have Dg: "0 < demand_total (concat groups)" using D assms(4) by simp
  have "list_all2 (\<lambda>g r. result_consistent r \<and> pr_demand_count r = demand_total g) groups (map cs_reactive sims)"
    "list_all2 (\<lambda>g r. result_consistent r \<and> pr_demand_count r = demand_total g) groups (map cs_lru sims)"
    using all by (auto simp: list_all2_map2 elim: list_all2_mono)
  from combine_ok [OF this(1) Dg, of "''reactive''"] combine_ok [OF this(2) Dg, of "''lru''"]
  obtain rr rl where rr: "combine_policy_results ''reactive'' (map cs_reactive sims) = Inr rr"
    "result_consistent rr" "pr_demand_count rr = ?D" "pr_hit_count rr = sum_of pr_hit_count (map cs_reactive sims)"
    and rl: "combine_policy_results ''lru'' (map cs_lru sims) = Inr rl" "result_consistent rl" "pr_demand_count rl = ?D"
    using assms(4) by auto
  have "sum_of pr_hit_count (map cs_reactive sims) = 0"
    using all by (induction rule: list_all2_induct) simp_all
  then have zero: "pr_hit_count rr = 0" using rr(4) by simp
  obtain rate where rate: "int_truediv ?H ?D = Inr (Fin rate)" "0 \<le> rate" "rate \<le> 1"
    using int_truediv_rate [of ?H ?D] served_by_bounds D by blast
  let ?st = "\<lparr>pr_policy = ''static_hotset'', pr_demand_count = ?D, pr_hit_count = ?H, pr_miss_count = ?D - ?H,
    pr_load_count = ?D - ?H, pr_preload_count = sum_of (\<lambda>(l, R). int (card R)) (static_residents training c),
    pr_hit_rate = Fin rate\<rparr>"
  have st: "result_consistent ?st" using served_by_bounds rate by (simp add: result_consistent_def)
  have "length (layer_ids_of evaluation) \<le> 65536" using assms(1) by (intro layer_ids_bound) auto
  then obtain p where p: "capacity_point_of c (int (length (layer_ids_of evaluation))) k slot ms rr ?st rl = Inr p"
    "cp_capacity_per_layer p = c" "pp_result (cp_reactive p) = rr" "pp_result (cp_static_hotset p) = ?st" "pp_result (cp_lru p) = rl"
    using capacity_point_of_ok [of "int (length (layer_ids_of evaluation))" k c slot ms rr ?st rl] k by auto
  have "held_out_point training evaluation groups k slot ms c = Inr p"
    using assms(2) by (simp add: held_out_point_def static_hits_ok [OF assms(6)] rate(1) Let_def sims rr(1) rl(1) p(1))
  then show ?thesis using p(2-5) rr(2,3) rl(2,3) st zero by (simp add: point_consistent_def)
qed

section \<open>Properties\<close>

text \<open>
  The in-sample curve returns on a workload of constant width for positive capacities that
  hold an event: it has one point per distinct capacity in the given order, the projected bytes of
  a point are capacity times layers times slot size, and each of its three results accounts for
  every demand of the workload.
\<close>

theorem capacity_curve_accounts:
  assumes "curve_inputs capacities slot ms k trace"
  shows "\<exists>r. build_capacity_curve trace capacities slot ms = Inr r
    \<and> cc_expert_demand_count r = demand_total trace
    \<and> list_all2 (\<lambda>c p. cp_capacity_per_layer p = c
        \<and> cp_projected_cache_bytes p = c * int (length (layer_ids_of trace)) * slot
        \<and> point_consistent (demand_total trace) p)
      (fromkeys capacities) (cc_points r)"
  using capacity_curve_ok [OF assms] by (blast intro: list_all2_mono)

lemma example_curve_inputs: "curve_inputs [2, 4, 2] 4096 (Fin 3) 2 example_trace"
  by (simp add: curve_inputs_def py_le_def example_trace_def wf_example_event ev_width_def)

lemma capacity_curve_accounts_witness:
  "\<exists>r. build_capacity_curve example_trace [2, 4, 2] 4096 (Fin 3) = Inr r
    \<and> cc_expert_demand_count r = demand_total example_trace
    \<and> list_all2 (\<lambda>c p. cp_capacity_per_layer p = c
        \<and> cp_projected_cache_bytes p = c * int (length (layer_ids_of example_trace)) * 4096
        \<and> point_consistent (demand_total example_trace) p)
      (fromkeys [2, 4, 2]) (cc_points r)"
  by (rule capacity_curve_accounts [OF example_curve_inputs])

text \<open>
  More capacity never costs the static policy a hit: between any two points of an in-sample
  curve the one with the larger capacity has at least as many static hits.
\<close>

theorem static_curve_monotone:
  assumes "curve_inputs capacities slot ms k trace"
    and "build_capacity_curve trace capacities slot ms = Inr r"
    and "p \<in> set (cc_points r)" and "q \<in> set (cc_points r)"
    and "cp_capacity_per_layer p \<le> cp_capacity_per_layer q"
  shows "pr_hit_count (pp_result (cp_static_hotset p)) \<le> pr_hit_count (pp_result (cp_static_hotset q))"
proof -
  have hits: "pr_hit_count (pp_result (cp_static_hotset p))
      = served_by (\<lambda>l. hot_set (dict_get (layer_counts trace) l []) (cp_capacity_per_layer p)) trace"
    if "p \<in> set (cc_points r)" for p
    using capacity_curve_ok [OF assms(1)] assms(2) that by (auto simp: list_all2_conv_all_nth in_set_conv_nth)
  show ?thesis
    unfolding hits [OF assms(3)] hits [OF assms(4)] by (intro served_by_mono hot_set_mono assms(5))
qed

lemma static_curve_monotone_witness:
  "\<exists>r p q. build_capacity_curve example_trace [2, 4, 2] 4096 (Fin 3) = Inr r
    \<and> p \<in> set (cc_points r) \<and> q \<in> set (cc_points r)
    \<and> cp_capacity_per_layer p = 2 \<and> cp_capacity_per_layer q = 4
    \<and> pr_hit_count (pp_result (cp_static_hotset p)) \<le> pr_hit_count (pp_result (cp_static_hotset q))"
proof -
  obtain r where r: "build_capacity_curve example_trace [2, 4, 2] 4096 (Fin 3) = Inr r"
    and a: "list_all2 (\<lambda>c p. cp_capacity_per_layer p = c) [2, 4] (cc_points r)"
    using capacity_curve_ok [OF example_curve_inputs] by (auto simp: fromkeys_def list_all2_Cons1)
  obtain p q where "cc_points r = [p, q]" "cp_capacity_per_layer p = 2" "cp_capacity_per_layer q = 4"
    using a by (auto simp: list_all2_Cons1)
  with r static_curve_monotone [OF example_curve_inputs r, of p q] show ?thesis
    by (intro exI [of _ r] exI [of _ p] exI [of _ q]) simp
qed

text \<open>
  C25. The held-out curve returns on workloads of one width and equal layers, for any cut of the
  evaluation events into non-empty groups: each point accounts for every evaluated demand exactly
  once, although the LRU policy starts afresh in each group, and its static hits are those of the
  hot set fitted on the training events alone.
\<close>

theorem held_out_curve_accounts:
  assumes "curve_inputs capacities slot ms k evaluation" and "curve_inputs capacities slot ms k training"
    and "ev_layer_id ` set training = ev_layer_id ` set evaluation"
    and "concat groups = evaluation" and "[] \<notin> set groups"
  shows "\<exists>r. build_held_out_capacity_curve training evaluation (Some groups) capacities slot ms = Inr r
    \<and> cc_expert_demand_count r = demand_total evaluation
    \<and> list_all2 (\<lambda>c p. cp_capacity_per_layer p = c \<and> point_consistent (demand_total evaluation) p
        \<and> pr_hit_count (pp_result (cp_static_hotset p))
            = served_by (\<lambda>l. hot_set (dict_get (layer_counts training) l []) c) evaluation)
      (fromkeys capacities) (cc_points r)"
proof -
  note a = assms(1) [unfolded curve_inputs_def] and b = assms(2) [unfolded curve_inputs_def]
  let ?P = "\<lambda>c p. cp_capacity_per_layer p = c \<and> point_consistent (demand_total evaluation) p
        \<and> pr_hit_count (pp_result (cp_static_hotset p))
            = served_by (\<lambda>l. hot_set (dict_get (layer_counts training) l []) c) evaluation"
  have "\<exists>ps. rmap (held_out_point training evaluation groups k slot ms) (fromkeys capacities) = Inr ps
      \<and> list_all2 ?P (fromkeys capacities) ps"
    by (rule rmap_points, rule held_out_point_ok) (use a assms(3,4) in auto)
  then obtain ps where ps: "rmap (held_out_point training evaluation groups k slot ms) (fromkeys capacities) = Inr ps"
    "list_all2 ?P (fromkeys capacities) ps" by blast
  have "\<not> (\<exists>c \<in> set capacities. c \<le> 0)" using a by (meson not_less)
  moreover have "remdups (map ev_width (training @ evaluation)) = [k]"
    using a b by (intro remdups_constant) auto
  moreover have "groups \<noteq> []" using a assms(4) by auto
  moreover have "set (map ev_layer_id training) = set (map ev_layer_id evaluation)" using assms(3) by simp
  ultimately show ?thesis
    using a b ps assms(4,5)
    by (simp only: build_held_out_capacity_curve_def Let_def option.case list.case if_False if_True
        rbind_Inr) auto
qed

lemma held_out_curve_accounts_witness:
  "\<exists>r. build_held_out_capacity_curve [example_event 9 0 [3, 1]] example_trace
      (Some [take 1 example_trace, drop 1 example_trace]) [2, 4, 2] 4096 (Fin 3) = Inr r
    \<and> cc_expert_demand_count r = demand_total example_trace"
proof -
  have "curve_inputs [2, 4, 2] 4096 (Fin 3) 2 [example_event 9 0 [3, 1]]"
    by (simp add: curve_inputs_def py_le_def wf_example_event ev_width_def)
  from held_out_curve_accounts [OF example_curve_inputs this, of "[take 1 example_trace, drop 1 example_trace]"]
  show ?thesis by (auto simp: example_trace_def)
qed

end
