(* ===== verification/Pilot_Dataset.thy ===== *)
theory Pilot_Dataset
  imports Trace
begin

text \<open>
  \<open>predictor/dataset.py\<close>: adjacent-layer samples from a manifest of trace shards. The decoded
  manifest is an argument, and \<open>traces path\<close> stands for \<open>load_router_events\<close> of a shard's file.
  The lemmas show that a loaded dataset leaks nothing across its splits: a conversation belongs to
  one split, a sample to its conversation's split, unrequested splits stay empty, and each sample
  joins two adjacent layers of one execution.
\<close>

definition SPLITS :: "string list" where
  "SPLITS = [''train'', ''validation'', ''test'']"

record prediction_sample =
  smp_conversation_id :: string
  smp_split :: string
  smp_domain :: string
  smp_phase :: string
  smp_forward_id :: int
  smp_token_index :: int
  smp_token_id :: int
  smp_source_layer :: int
  smp_target_layer :: int
  smp_source_expert_ids :: "int list"
  smp_target_expert_ids :: "int list"
  smp_source_expert_weights :: "pyfloat list option"
  smp_source_vector :: "pyfloat list"
  smp_previous_target_vector :: "pyfloat list option"

record pilot_dataset =
  pd_train :: "prediction_sample list"
  pd_validation :: "prediction_sample list"
  pd_test :: "prediction_sample list"
  pd_conversation_ids :: "(string, string list) dict"

section \<open>Vectors\<close>

text \<open>
  \<open>zip(ids, values, strict=True)\<close> fails after the shorter sequence; each id in turn must be in
  range, and sets its entry of the vector.
\<close>

fun set_entries :: "pyfloat list \<Rightarrow> int list \<Rightarrow> pyfloat list \<Rightarrow> pyfloat list res" where
  "set_entries result [] [] = Inr result"
| "set_entries result (x # xs) (v # vs) =
     (if \<not> (0 \<le> x \<and> x < 128)
      then Inl (ValueError ''expert ID is outside the canonical 128-expert range'')
      else set_entries (result[nat x := v]) xs vs)"
| "set_entries result _ _ = Inl (ValueError ''zip() arguments have different lengths'')"

definition expert_vector :: "int list \<Rightarrow> pyfloat list option \<Rightarrow> pyfloat list res" where
  "expert_vector ids weights = set_entries (replicate 128 (Fin 0)) ids
     (case weights of None \<Rightarrow> replicate (length ids) (Fin 1) | Some ws \<Rightarrow> ws)"

definition execution_key :: "router_trace_event \<Rightarrow> int \<times> int \<times> int" where
  "execution_key e = (ev_forward_id e, ev_token_index e, ev_token_id e)"

section \<open>Shards\<close>

text \<open>A shard row is its conversation, split, domain and trace path.\<close>

type_synonym shard_row = "string \<times> string \<times> string \<times> string"

record shard_scan =
  sc_split_by_conversation :: "(string, string) dict"
  sc_shard_rows :: "shard_row list"
  sc_prompt_hashes :: "string list"
  sc_domain_counts :: "(string, string counter) dict"

definition shard_scan_initial :: shard_scan where
  "shard_scan_initial = \<lparr>sc_split_by_conversation = [], sc_shard_rows = [], sc_prompt_hashes = [],
     sc_domain_counts = []\<rparr>"

definition check_prompt_hash :: "bool \<Rightarrow> string list \<Rightarrow> jrecord \<Rightarrow> string list res" where
  "check_prompt_hash required hashes shard =
     (if \<not> required then Inr hashes
      else case jget shard ''prompt_sha256'' of
          JStr h \<Rightarrow>
            if h = [] then Inl (ValueError ''prompt hash is required'')
            else if h \<in> set hashes then Inl (ValueError ''duplicate prompt hash'')
            else Inr (hashes @ [h])
        | _ \<Rightarrow> Inl (ValueError ''prompt hash is required''))"

definition check_new_conversation :: "(string, string) dict \<Rightarrow> string \<Rightarrow> string \<Rightarrow> unit res" where
  "check_new_conversation split_by_conversation conversation split =
     (case map_of split_by_conversation conversation of
        None \<Rightarrow> Inr ()
      | Some other \<Rightarrow>
          if other \<noteq> split then Inl (ValueError ''conversation appears in multiple splits'')
          else Inl (ValueError ''duplicate shard for conversation''))"

text \<open>\<open>trace\<close> must be an object with a string \<open>path\<close>.\<close>

definition shard_trace_path :: "jrecord \<Rightarrow> string res" where
  "shard_trace_path shard = (case jget shard ''trace'' of
     JObj t \<Rightarrow> (case jget t ''path'' of JStr path \<Rightarrow> Inr path
        | _ \<Rightarrow> Inl (ValueError ''shard trace path is invalid''))
   | _ \<Rightarrow> Inl (ValueError ''shard trace path is invalid''))"

definition shard_labels :: "jrecord \<Rightarrow> (string \<times> string \<times> string) res" where
  "shard_labels shard = (case (jget shard ''conversation_id'', jget shard ''split'', jget shard ''domain'') of
     (JStr conversation, JStr split, JStr domain) \<Rightarrow>
       if split \<in> set SPLITS then Inr (conversation, split, domain)
       else Inl (ValueError ''shard conversation, split, and domain are invalid'')
   | _ \<Rightarrow> Inl (ValueError ''shard conversation, split, and domain are invalid''))"

definition scan_add ::
    "string list \<Rightarrow> shard_scan \<Rightarrow> string list \<Rightarrow> string \<Rightarrow> string \<Rightarrow> string \<Rightarrow> string \<Rightarrow> shard_scan" where
  "scan_add materialized s hashes conversation split domain path =
     \<lparr>sc_split_by_conversation = dict_set conversation split (sc_split_by_conversation s),
      sc_shard_rows = sc_shard_rows s @
        (if split \<in> set materialized then [(conversation, split, domain, path)] else []),
      sc_prompt_hashes = hashes,
      sc_domain_counts = dict_set split (counter_inc (dict_get (sc_domain_counts s) split []) domain)
        (sc_domain_counts s)\<rparr>"

definition pilot_shard :: "bool \<Rightarrow> string list \<Rightarrow> shard_scan \<Rightarrow> json \<Rightarrow> shard_scan res" where
  "pilot_shard require_hashes materialized s shard = (case shard of
     JObj r \<Rightarrow>
       if jget r ''status'' \<noteq> JStr ''passed''
       then Inl (ValueError ''every predictor shard must be a passed object'')
       else rbind (shard_labels r) (\<lambda>(conversation, split, domain).
         rbind (check_prompt_hash require_hashes (sc_prompt_hashes s) r) (\<lambda>hashes.
         rbind (check_new_conversation (sc_split_by_conversation s) conversation split) (\<lambda>_.
         rbind (shard_trace_path r) (\<lambda>path.
           Inr (scan_add materialized s hashes conversation split domain path)))))
   | _ \<Rightarrow> Inl (ValueError ''every predictor shard must be a passed object''))"

text \<open>Equality of two dictionaries, whatever the order of their keys.\<close>

definition dict_eq :: "('k, 'v) dict \<Rightarrow> ('k, 'v) dict \<Rightarrow> bool" where
  "dict_eq d d' = (set d = set d')"

definition check_counts ::
    "(string, int) dict \<Rightarrow> (string, string counter) dict option \<Rightarrow> shard_scan \<Rightarrow> unit res" where
  "check_counts expected expected_domain_counts s =
     (if \<not> dict_eq (counter_update [] (map snd (sc_split_by_conversation s))) expected
      then Inl (ValueError ''frozen split counts do not match'')
      else case expected_domain_counts of
          None \<Rightarrow> Inr ()
        | Some counts \<Rightarrow>
            if dict_eq (map (map_prod id set) (sc_domain_counts s)) (map (map_prod id set) counts) then Inr ()
            else Inl (ValueError ''frozen domain counts do not match''))"

text \<open>\<open>expected_split_counts or {...}\<close>: a missing or empty dictionary takes the default.\<close>

definition pilot_expected_counts :: "(string, int) dict option \<Rightarrow> (string, int) dict" where
  "pilot_expected_counts expected = (case expected of Some (c # cs) \<Rightarrow> c # cs
     | _ \<Rightarrow> [(''train'', 7), (''validation'', 4), (''test'', 3)])"

definition materialized_splits :: "string list option \<Rightarrow> string list res" where
  "materialized_splits materialize =
     (let m = (case materialize of None \<Rightarrow> SPLITS | Some xs \<Rightarrow> xs) in
      if m = [] \<or> \<not> set m \<subseteq> set SPLITS
      then Inl (ValueError ''materialized splits must be a non-empty subset of train/validation/test'')
      else Inr m)"

definition manifest_shards :: "json \<Rightarrow> json list res" where
  "manifest_shards manifest = (case manifest of
     JObj r \<Rightarrow>
       if jget r ''canonical_runtime'' \<noteq> JStr ''expertflow-canonical-observer-v1''
       then Inl (ValueError ''manifest is not from the canonical Observer v1 runtime'')
       else if jget r ''trace_generation'' \<noteq> JStr ''trace_v2_canonical_segmented''
       then Inl (ValueError ''manifest is not from the accepted canonical trace generation'')
       else (case jget r ''shards'' of JArr (x # xs) \<Rightarrow> Inr (x # xs)
          | _ \<Rightarrow> Inl (ValueError ''manifest shards must be a non-empty array''))
   | _ \<Rightarrow> Inl AttributeError)"

section \<open>Executions\<close>

type_synonym execution_groups = "(int \<times> int \<times> int, (int, router_trace_event) dict) dict"

definition pilot_event ::
    "string \<Rightarrow> execution_groups \<times> int list \<Rightarrow> router_trace_event \<Rightarrow> (execution_groups \<times> int list) res" where
  "pilot_event conversation s e =
     (let (groups, layers) = s; key = execution_key e; group = dict_get groups key [] in
      if ev_conversation_id e \<noteq> conversation then Inl (ValueError ''conversation mismatch'')
      else if ev_layer_id e \<in> fst ` set group
      then Inl (ValueError ''duplicate layer event for execution'')
      else Inr (dict_set key (dict_set (ev_layer_id e) e group) groups,
        if ev_layer_id e \<in> set layers then layers else layers @ [ev_layer_id e]))"

type_synonym shard_groups = "string \<times> string \<times> string \<times> execution_groups"

definition pilot_shard_groups ::
    "(string \<Rightarrow> router_trace_event list res) \<Rightarrow> shard_groups list \<times> int list \<Rightarrow> shard_row
      \<Rightarrow> (shard_groups list \<times> int list) res" where
  "pilot_shard_groups traces s row =
     (let (grouped, layers) = s; (conversation, split, domain, path) = row in
      rbind (traces path) (\<lambda>events.
      rbind (rfold (pilot_event conversation) ([], layers) events) (\<lambda>(groups, layers').
        Inr (grouped @ [(conversation, split, domain, groups)], layers'))))"

definition pairs :: "'a list \<Rightarrow> ('a \<times> 'a) list" where
  "pairs xs = zip xs (tl xs)"

definition pilot_sample ::
    "string \<Rightarrow> string \<Rightarrow> string \<Rightarrow> (int, router_trace_event) dict \<Rightarrow> (int, pyfloat list) dict \<Rightarrow> int \<times> int
      \<Rightarrow> prediction_sample res" where
  "pilot_sample conversation split domain layer_events previous_by_target layers =
     (let (source_layer, target_layer) = layers in
      rbind (dict_index layer_events source_layer) (\<lambda>source.
      rbind (dict_index layer_events target_layer) (\<lambda>target.
      if target_layer \<noteq> source_layer + 1
      then Inl (ValueError ''target layer is not the true next MoE layer'')
      else rbind (expert_vector (ev_selected_expert_ids source) (ev_selected_expert_weights source)) (\<lambda>vector.
        Inr \<lparr>smp_conversation_id = conversation, smp_split = split, smp_domain = domain,
          smp_phase = ev_phase source, smp_forward_id = ev_forward_id source,
          smp_token_index = ev_token_index source, smp_token_id = ev_token_id source,
          smp_source_layer = source_layer, smp_target_layer = target_layer,
          smp_source_expert_ids = ev_selected_expert_ids source,
          smp_target_expert_ids = ev_selected_expert_ids target,
          smp_source_expert_weights = ev_selected_expert_weights source,
          smp_source_vector = vector,
          smp_previous_target_vector = map_of previous_by_target target_layer\<rparr>))))"

definition pilot_execution ::
    "string \<Rightarrow> string \<Rightarrow> string \<Rightarrow> int list
      \<Rightarrow> (int, pyfloat list) dict \<times> prediction_sample list
      \<Rightarrow> (int \<times> int \<times> int) \<times> (int, router_trace_event) dict
      \<Rightarrow> ((int, pyfloat list) dict \<times> prediction_sample list) res" where
  "pilot_execution conversation split domain ordered_layers s execution =
     (let (previous_by_target, samples) = s; (key, layer_events) = execution in
      if sort (map fst layer_events) \<noteq> ordered_layers
      then Inl (ValueError ''incomplete layer sequence for execution'')
      else if length (remdups (map (ev_phase \<circ> snd) layer_events)) \<noteq> 1
      then Inl (ValueError ''phase mismatch for execution'')
      else rbind (rmap (pilot_sample conversation split domain layer_events previous_by_target)
            (pairs ordered_layers)) (\<lambda>new.
        rbind (rmap (\<lambda>(layer, e). rbind (expert_vector (ev_selected_expert_ids e) None)
            (\<lambda>v. Inr (layer, v))) layer_events) (\<lambda>previous.
          Inr (previous, samples @ new))))"

definition execution_order ::
    "execution_groups \<Rightarrow> ((int \<times> int \<times> int) \<times> (int, router_trace_event) dict) list" where
  "execution_order groups = sort_key (\<lambda>(key, evs). Min (set (map (ev_hook_order \<circ> snd) evs))) groups"

definition pilot_conversation ::
    "int list \<Rightarrow> (string, prediction_sample list) dict \<Rightarrow> shard_groups
      \<Rightarrow> (string, prediction_sample list) dict res" where
  "pilot_conversation ordered_layers samples shard =
     (let (conversation, split, domain, groups) = shard in
      rbind (rfold (pilot_execution conversation split domain ordered_layers) ([], [])
          (execution_order groups)) (\<lambda>(previous, new).
        Inr (dict_set split (dict_get samples split [] @ new) samples)))"

text \<open>\<open>tuple(sorted(conversation for ... if value == split))\<close>, for every split.\<close>

definition split_identifiers :: "(string, string) dict \<Rightarrow> (string, string list) dict" where
  "split_identifiers split_by_conversation = map (\<lambda>split.
     (split, sort (map fst (filter (\<lambda>(c, value). value = split) split_by_conversation)))) SPLITS"

definition consecutive_layers :: "int list \<Rightarrow> bool" where
  "consecutive_layers layers \<longleftrightarrow>
     \<not> (length layers < 2 \<or> (\<exists>(left, right) \<in> set (pairs layers). right \<noteq> left + 1))"

definition load_pilot_dataset ::
    "(string \<Rightarrow> router_trace_event list res) \<Rightarrow> json \<Rightarrow> (string, int) dict option
      \<Rightarrow> (string, string counter) dict option \<Rightarrow> bool \<Rightarrow> string list option \<Rightarrow> pilot_dataset res" where
  "load_pilot_dataset traces manifest expected_split_counts expected_domain_counts require_hashes
       materialize =
     rbind (manifest_shards manifest) (\<lambda>shards.
     rbind (materialized_splits materialize) (\<lambda>materialized.
     rbind (rfold (pilot_shard require_hashes materialized) shard_scan_initial shards) (\<lambda>scan.
     rbind (check_counts (pilot_expected_counts expected_split_counts) expected_domain_counts scan) (\<lambda>_.
     rbind (rfold (pilot_shard_groups traces) ([], []) (sc_shard_rows scan)) (\<lambda>(grouped, layers).
     let ordered_layers = sort layers in
     if \<not> consecutive_layers ordered_layers
     then Inl (ValueError ''canonical MoE layers must form one consecutive sequence'')
     else rbind (rfold (pilot_conversation ordered_layers) (map (\<lambda>split. (split, [])) SPLITS) grouped)
       (\<lambda>samples. Inr \<lparr>pd_train = dict_get samples ''train'' [],
          pd_validation = dict_get samples ''validation'' [], pd_test = dict_get samples ''test'' [],
          pd_conversation_ids = split_identifiers (sc_split_by_conversation scan)\<rparr>))))))"

section \<open>The scan of the shards\<close>

definition scan_ok :: "string list \<Rightarrow> shard_scan \<Rightarrow> bool" where
  "scan_ok materialized s \<longleftrightarrow> distinct (map fst (sc_split_by_conversation s)) \<and>
     distinct (map fst (sc_shard_rows s)) \<and>
     (\<forall>(c, split, d, p) \<in> set (sc_shard_rows s).
        (c, split) \<in> set (sc_split_by_conversation s) \<and> split \<in> set materialized)"

lemma check_new_conversation_ok:
  "check_new_conversation d c split = Inr u \<longleftrightarrow> c \<notin> fst ` set d"
proof (cases "map_of d c")
  case None
  then have "c \<notin> fst ` set d" by (simp add: map_of_eq_None_iff)
  with None show ?thesis by (simp add: check_new_conversation_def)
next
  case (Some other)
  then have "c \<in> fst ` set d" by (force dest: map_of_SomeD)
  then show ?thesis using Some by (simp add: check_new_conversation_def)
qed

lemma scan_add_ok:
  assumes "scan_ok materialized s" and "c \<notin> fst ` set (sc_split_by_conversation s)"
  shows "scan_ok materialized (scan_add materialized s hashes c split d path)"
proof -
  have "c \<notin> fst ` set (sc_shard_rows s)" using assms by (force simp: scan_ok_def)
  then show ?thesis using assms by (auto simp: scan_ok_def scan_add_def dict_set_new)
qed

lemma pilot_shard_ok:
  assumes "pilot_shard h materialized s shard = Inr s'" and "scan_ok materialized s"
  shows "scan_ok materialized s'"
  using assms by (auto simp: pilot_shard_def rbind_eq_Inr check_new_conversation_ok
      intro: scan_add_ok split: json.splits if_splits)

lemma pilot_scan_ok:
  assumes "rfold (pilot_shard h materialized) shard_scan_initial shards = Inr s"
  shows "scan_ok materialized s"
  using assms
proof (rule rfold_invariant)
  show "scan_ok materialized shard_scan_initial" by (simp add: scan_ok_def shard_scan_initial_def)
qed (rule pilot_shard_ok)

lemma split_identifiers_get:
  assumes "split \<in> set SPLITS"
  shows "dict_get (split_identifiers d) split []
    = sort (map fst (filter (\<lambda>(c, value). value = split) d))"
  using assms by (auto simp: split_identifiers_def SPLITS_def dict_get_def)

lemma split_identifiers_iff:
  assumes "split \<in> set SPLITS" and "distinct (map fst d)"
  shows "c \<in> set (dict_get (split_identifiers d) split []) \<longleftrightarrow> map_of d c = Some split"
  using assms by (auto simp: split_identifiers_get image_iff)

section \<open>Executions of one conversation\<close>

text \<open>A group holds, per layer, an event of the trace with the group's key.\<close>

definition groups_ok :: "string \<Rightarrow> router_trace_event list \<Rightarrow> execution_groups \<Rightarrow> bool" where
  "groups_ok conversation events groups \<longleftrightarrow> (\<forall>(key, g) \<in> set groups. \<forall>(l, e) \<in> set g.
     e \<in> set events \<and> ev_conversation_id e = conversation \<and> execution_key e = key \<and> ev_layer_id e = l)"

lemma pilot_event_ok:
  assumes "pilot_event conversation (groups, layers) e = Inr (groups', layers')"
    and "groups_ok conversation events groups" and "e \<in> set events"
  shows "groups_ok conversation events groups'"
proof -
  let ?key = "execution_key e"
  let ?g = "dict_get groups ?key []"
  have c: "ev_conversation_id e = conversation"
    and g': "groups' = dict_set ?key (dict_set (ev_layer_id e) e ?g) groups"
    using assms(1) by (auto simp: pilot_event_def Let_def split: if_splits)
  have old: "\<forall>(l, e') \<in> set ?g. e' \<in> set events \<and> ev_conversation_id e' = conversation
      \<and> execution_key e' = ?key \<and> ev_layer_id e' = l"
    using dict_get_default_or_in [of groups ?key "[]"] assms(2) by (auto simp: groups_ok_def)
  have "\<forall>(l, e') \<in> set (dict_set (ev_layer_id e) e ?g). e' \<in> set events \<and> ev_conversation_id e' = conversation
      \<and> execution_key e' = ?key \<and> ev_layer_id e' = l"
    using old set_dict_set [of "ev_layer_id e" e ?g] c assms(3) by blast
  then show ?thesis
    using set_dict_set [of ?key "dict_set (ev_layer_id e) e ?g" groups] assms(2)
    unfolding g' groups_ok_def by blast
qed

lemma pilot_events_ok:
  assumes "rfold (pilot_event conversation) ([], layers) events = Inr (groups, layers')"
  shows "groups_ok conversation events groups"
proof -
  have "case (groups, layers') of (g, l) \<Rightarrow> groups_ok conversation events g"
    using assms
  proof (rule rfold_invariant)
    show "case ([], layers) of (g, l) \<Rightarrow> groups_ok conversation events g" by (simp add: groups_ok_def)
  qed (auto intro: pilot_event_ok)
  then show ?thesis by simp
qed

text \<open>Where a sample comes from: two events of one execution, on adjacent layers.\<close>

definition adjacent_join :: "router_trace_event list \<Rightarrow> prediction_sample \<Rightarrow> bool" where
  "adjacent_join events smp \<longleftrightarrow> (\<exists>source \<in> set events. \<exists>target \<in> set events.
     execution_key source = execution_key target
     \<and> execution_key source = (smp_forward_id smp, smp_token_index smp, smp_token_id smp)
     \<and> ev_conversation_id source = smp_conversation_id smp \<and> ev_conversation_id target = smp_conversation_id smp
     \<and> ev_layer_id source = smp_source_layer smp \<and> ev_layer_id target = smp_target_layer smp
     \<and> smp_target_layer smp = smp_source_layer smp + 1
     \<and> smp_source_expert_ids smp = ev_selected_expert_ids source
     \<and> smp_target_expert_ids smp = ev_selected_expert_ids target)"

definition sample_ok :: "string \<Rightarrow> string \<Rightarrow> router_trace_event list \<Rightarrow> prediction_sample \<Rightarrow> bool" where
  "sample_ok conversation split events smp \<longleftrightarrow>
     smp_conversation_id smp = conversation \<and> smp_split smp = split \<and> adjacent_join events smp"

lemma pilot_sample_ok:
  assumes "pilot_sample conversation split domain g previous layers = Inr smp"
    and "\<forall>(l, e) \<in> set g. e \<in> set events \<and> ev_conversation_id e = conversation \<and> execution_key e = key \<and> ev_layer_id e = l"
  shows "sample_ok conversation split events smp"
proof -
  obtain sl tl where l: "layers = (sl, tl)" by (cases layers)
  from assms(1) obtain source target v where s: "map_of g sl = Some source" "map_of g tl = Some target"
    and t: "tl = sl + 1" and smp: "smp = \<lparr>smp_conversation_id = conversation, smp_split = split, smp_domain = domain,
          smp_phase = ev_phase source, smp_forward_id = ev_forward_id source,
          smp_token_index = ev_token_index source, smp_token_id = ev_token_id source,
          smp_source_layer = sl, smp_target_layer = tl,
          smp_source_expert_ids = ev_selected_expert_ids source,
          smp_target_expert_ids = ev_selected_expert_ids target,
          smp_source_expert_weights = ev_selected_expert_weights source,
          smp_source_vector = v, smp_previous_target_vector = map_of previous tl\<rparr>"
    by (auto simp: pilot_sample_def l rbind_eq_Inr dict_index_def split: option.splits if_splits)
  have "(sl, source) \<in> set g" "(tl, target) \<in> set g" using s by (auto dest: map_of_SomeD)
  then have "source \<in> set events" "target \<in> set events" "ev_conversation_id source = conversation"
    "ev_conversation_id target = conversation" "execution_key source = key" "execution_key target = key"
    "ev_layer_id source = sl" "ev_layer_id target = tl"
    using assms(2) by auto
  then show ?thesis
    unfolding sample_ok_def adjacent_join_def smp using t
    by (intro conjI, simp, simp, intro bexI [of _ target] bexI [of _ source]) (auto simp: execution_key_def)
qed

lemma pilot_conversation_samples:
  assumes "rfold (pilot_execution conversation split domain layers) ([], []) (execution_order groups)
      = Inr (previous, new)" and "groups_ok conversation events groups"
  shows "\<forall>smp \<in> set new. sample_ok conversation split events smp"
proof -
  have "case (previous, new) of (p, n) \<Rightarrow> \<forall>smp \<in> set n. sample_ok conversation split events smp"
    using assms(1)
  proof (rule rfold_invariant)
    fix s execution s'
    assume ex: "execution \<in> set (execution_order groups)"
      and s: "case s of (p, n) \<Rightarrow> \<forall>smp \<in> set n. sample_ok conversation split events smp"
      and step: "pilot_execution conversation split domain layers s execution = Inr s'"
    obtain key g p n where eq: "execution = (key, g)" "s = (p, n)" by (cases execution, cases s)
    have g: "\<forall>(l, e) \<in> set g. e \<in> set events \<and> ev_conversation_id e = conversation
        \<and> execution_key e = key \<and> ev_layer_id e = l"
      using ex assms(2) by (auto simp: eq execution_order_def groups_ok_def)
    obtain more q where more: "rmap (pilot_sample conversation split domain g p) (pairs layers) = Inr more"
      and s': "s' = (q, n @ more)"
      using step by (auto simp: pilot_execution_def eq rbind_eq_Inr split: if_splits)
    have "sample_ok conversation split events smp" if smp: "smp \<in> set more" for smp
    proof -
      obtain ls where "pilot_sample conversation split domain g p ls = Inr smp"
        using rmap_elem [OF more smp] by blast
      then show ?thesis using g by (rule pilot_sample_ok)
    qed
    then show "case s' of (p, n) \<Rightarrow> \<forall>smp \<in> set n. sample_ok conversation split events smp"
      using s by (auto simp: s' eq)
  qed simp
  then show ?thesis by simp
qed

section \<open>The whole dataset\<close>

lemma pilot_groups_ok:
  assumes "rfold (pilot_shard_groups traces) ([], []) rows = Inr (grouped, layers)"
  shows "\<forall>(c, split, d, groups) \<in> set grouped. \<exists>p events. (c, split, d, p) \<in> set rows
    \<and> traces p = Inr events \<and> groups_ok c events groups"
proof -
  let ?P = "\<lambda>s. case s of (grouped, l) \<Rightarrow> \<forall>(c, split, d, groups) \<in> set grouped. \<exists>p events.
    (c, split, d, p) \<in> set rows \<and> traces p = Inr events \<and> groups_ok c events groups"
  have "?P (grouped, layers)"
    using assms
  proof (rule rfold_invariant)
    fix s row s'
    assume row: "row \<in> set rows" and P: "?P s" and step: "pilot_shard_groups traces s row = Inr s'"
    obtain g l c split d p where eq: "s = (g, l)" "row = (c, split, d, p)" by (cases s, cases row)
    obtain events groups l' where e: "traces p = Inr events"
      and r: "rfold (pilot_event c) ([], l) events = Inr (groups, l')"
      and s': "s' = (g @ [(c, split, d, groups)], l')"
      using step by (auto simp: pilot_shard_groups_def eq rbind_eq_Inr)
    have "groups_ok c events groups" using r by (rule pilot_events_ok)
    then show "?P s'" using P row e by (auto simp: s' eq)
  qed simp
  then show ?thesis by simp
qed

text \<open>What every sample filed under a split satisfies, given the rows of the manifest.\<close>

definition filed :: "(string \<Rightarrow> router_trace_event list res) \<Rightarrow> shard_row list \<Rightarrow> string \<Rightarrow> prediction_sample \<Rightarrow> bool" where
  "filed traces rows split smp \<longleftrightarrow> (\<exists>d p events. (smp_conversation_id smp, split, d, p) \<in> set rows
     \<and> traces p = Inr events \<and> smp_split smp = split \<and> adjacent_join events smp)"

lemma pilot_samples_filed:
  assumes "rfold (pilot_conversation layers) (map (\<lambda>split. (split, [])) SPLITS) grouped = Inr samples"
    and "rfold (pilot_shard_groups traces) ([], []) rows = Inr (grouped, layers')"
  shows "\<forall>split. \<forall>smp \<in> set (dict_get samples split []). filed traces rows split smp"
  using assms(1)
proof (rule rfold_invariant)
  show "\<forall>split. \<forall>smp \<in> set (dict_get (map (\<lambda>split. (split, [])) SPLITS) split []). filed traces rows split smp"
    by (simp add: SPLITS_def dict_get_def)
next
  fix s shard s'
  assume shard: "shard \<in> set grouped" and P: "\<forall>split. \<forall>smp \<in> set (dict_get s split []). filed traces rows split smp"
    and step: "pilot_conversation layers s shard = Inr s'"
  obtain c split d groups where eq: "shard = (c, split, d, groups)" by (cases shard)
  obtain previous new where r: "rfold (pilot_execution c split d layers) ([], []) (execution_order groups)
      = Inr (previous, new)" and s': "s' = dict_set split (dict_get s split [] @ new) s"
    using step by (auto simp: pilot_conversation_def eq rbind_eq_Inr)
  obtain p events where row: "(c, split, d, p) \<in> set rows" "traces p = Inr events" "groups_ok c events groups"
    using pilot_groups_ok [OF assms(2)] shard eq by fast
  have "filed traces rows split smp" if "smp \<in> set new" for smp
    using pilot_conversation_samples [OF r row(3)] row(1,2) that by (auto simp: sample_ok_def filed_def)
  then show "\<forall>split. \<forall>smp \<in> set (dict_get s' split []). filed traces rows split smp"
    using P by (auto simp: s' dict_get_set)
qed

definition split_samples :: "pilot_dataset \<Rightarrow> string \<Rightarrow> prediction_sample list" where
  "split_samples ds split = (if split = ''train'' then pd_train ds
     else if split = ''validation'' then pd_validation ds else pd_test ds)"

definition split_conversations :: "pilot_dataset \<Rightarrow> string \<Rightarrow> string list" where
  "split_conversations ds split = dict_get (pd_conversation_ids ds) split []"

section \<open>Properties\<close>

text \<open>
  C26. A loaded dataset is leakage-safe: no conversation belongs to two splits; every sample of a
  split belongs to a conversation of that split and joins the events of two adjacent layers of
  one execution of that conversation's trace; a split that was not asked for stays empty.
\<close>

theorem pilot_dataset_leakage_safe:
  assumes "load_pilot_dataset traces manifest split_counts domain_counts hashes materialize = Inr ds"
    and "split \<in> set SPLITS"
  shows "(\<forall>other \<in> set SPLITS. other \<noteq> split \<longrightarrow>
        set (split_conversations ds split) \<inter> set (split_conversations ds other) = {})
    \<and> (\<forall>smp \<in> set (split_samples ds split). smp_split smp = split
        \<and> smp_conversation_id smp \<in> set (split_conversations ds split)
        \<and> (\<exists>path events. traces path = Inr events \<and> adjacent_join events smp))
    \<and> (\<forall>wanted. materialize = Some wanted \<longrightarrow> split \<notin> set wanted \<longrightarrow> split_samples ds split = [])"
proof -
  from assms(1) obtain shards m scan grouped layers samples
    where m: "materialized_splits materialize = Inr m"
      and scan: "rfold (pilot_shard hashes m) shard_scan_initial shards = Inr scan"
      and grouped: "rfold (pilot_shard_groups traces) ([], []) (sc_shard_rows scan) = Inr (grouped, layers)"
      and samples: "rfold (pilot_conversation (sort layers)) (map (\<lambda>split. (split, [])) SPLITS) grouped = Inr samples"
      and ds: "ds = \<lparr>pd_train = dict_get samples ''train'' [],
          pd_validation = dict_get samples ''validation'' [], pd_test = dict_get samples ''test'' [],
          pd_conversation_ids = split_identifiers (sc_split_by_conversation scan)\<rparr>"
    by (auto simp: load_pilot_dataset_def rbind_eq_Inr Let_def split: if_splits)
  let ?sbc = "sc_split_by_conversation scan"
  from pilot_scan_ok [OF scan] have dist: "distinct (map fst ?sbc)"
    and rows: "\<And>c s d p. (c, s, d, p) \<in> set (sc_shard_rows scan) \<Longrightarrow> (c, s) \<in> set ?sbc \<and> s \<in> set m"
    by (auto simp: scan_ok_def)
  have ids: "c \<in> set (split_conversations ds s) \<longleftrightarrow> map_of ?sbc c = Some s" if "s \<in> set SPLITS" for c s
    using split_identifiers_iff [OF that dist] by (simp add: split_conversations_def ds)
  have smp: "split_samples ds split = dict_get samples split []"
    using assms(2) by (auto simp: split_samples_def ds SPLITS_def)
  have filed: "filed traces (sc_shard_rows scan) split smp" if "smp \<in> set (split_samples ds split)" for smp
    using pilot_samples_filed [OF samples grouped] that by (simp add: smp)
  have "set (split_conversations ds split) \<inter> set (split_conversations ds other) = {}"
    if "other \<in> set SPLITS" "other \<noteq> split" for other
    using ids [OF assms(2)] ids [OF that(1)] that(2) by auto
  moreover have "smp_split x = split \<and> smp_conversation_id x \<in> set (split_conversations ds split)
      \<and> (\<exists>path events. traces path = Inr events \<and> adjacent_join events x)"
    if x: "x \<in> set (split_samples ds split)" for x
  proof -
    obtain d p events where f: "(smp_conversation_id x, split, d, p) \<in> set (sc_shard_rows scan)"
      "traces p = Inr events" "smp_split x = split" "adjacent_join events x"
      using filed [OF x] by (auto simp: filed_def)
    have "map_of ?sbc (smp_conversation_id x) = Some split" using rows [OF f(1)] dist by simp
    then show ?thesis using f ids [OF assms(2)] by blast
  qed
  moreover have "split_samples ds split = []" if "materialize = Some wanted" "split \<notin> set wanted" for wanted
  proof (rule ccontr)
    assume "split_samples ds split \<noteq> []"
    then obtain x where "x \<in> set (split_samples ds split)" by (cases "split_samples ds split") auto
    from filed [OF this] rows have "split \<in> set m" by (auto simp: filed_def)
    moreover have "m = wanted" using m that(1) by (auto simp: materialized_splits_def Let_def split: if_splits)
    ultimately show False using that(2) by simp
  qed
  ultimately show ?thesis by blast
qed

definition example_shard :: "string \<Rightarrow> string \<Rightarrow> json" where
  "example_shard conversation split = JObj [(''status'', JStr ''passed''), (''conversation_id'', JStr conversation),
     (''split'', JStr split), (''domain'', JStr ''code''), (''trace'', JObj [(''path'', JStr conversation)])]"

definition example_manifest :: json where
  "example_manifest = JObj [(''canonical_runtime'', JStr ''expertflow-canonical-observer-v1''),
     (''trace_generation'', JStr ''trace_v2_canonical_segmented''),
     (''shards'', JArr [example_shard ''c'' ''train'', example_shard ''d'' ''test''])]"

definition example_traces :: "string \<Rightarrow> router_trace_event list res" where
  "example_traces path = (if path = ''c'' then Inr [example_event 0 4 [2, 5], example_event 0 3 [1, 2]]
     else Inl (ValueError ''sealed''))"

lemma example_dataset:
  "\<exists>ds. load_pilot_dataset example_traces example_manifest (Some [(''test'', 1), (''train'', 1)]) None False
      (Some [''train'']) = Inr ds \<and> map smp_target_layer (pd_train ds) = [4]"
proof -
  have "is_ok (rbind (load_pilot_dataset example_traces example_manifest (Some [(''test'', 1), (''train'', 1)]) None False
      (Some [''train''])) (\<lambda>ds. if map smp_target_layer (pd_train ds) = [4] then Inr () else Inl KeyError))"
    by code_simp
  then show ?thesis by (auto simp: is_ok_rbind split: if_splits)
qed

lemma pilot_dataset_leakage_safe_witness:
  "\<exists>ds. load_pilot_dataset example_traces example_manifest (Some [(''test'', 1), (''train'', 1)]) None False
      (Some [''train'']) = Inr ds
    \<and> set (split_conversations ds ''train'') \<inter> set (split_conversations ds ''test'') = {}
    \<and> split_samples ds ''test'' = []"
proof -
  obtain ds where ds: "load_pilot_dataset example_traces example_manifest (Some [(''test'', 1), (''train'', 1)]) None False
      (Some [''train'']) = Inr ds" using example_dataset by blast
  from pilot_dataset_leakage_safe [OF ds, of "''train''"] pilot_dataset_leakage_safe [OF ds, of "''test''"] ds
  show ?thesis by (simp add: SPLITS_def)
qed

end
