(* ===== verification/Temporal_Dataset.thy ===== *)
theory Temporal_Dataset
  imports Pilot_Dataset
begin

text \<open>
  \<open>predictor/temporal_dataset.py\<close>: pairs of consecutive decode tokens on layer 24. The scan of the
  manifest differs from the adjacent-layer dataset in the order of its checks; the split counts and
  the identifiers are computed as there. The lemmas show that each sample pairs two consecutive
  decode records of one request, that the samples of a conversation form one chain, and that the
  splits stay disjoint and sealed.
\<close>

definition TARGET_LAYER :: int where
  "TARGET_LAYER = 24"

definition EXPERT_COUNT :: int where
  "EXPERT_COUNT = 128"

definition ROUTER_WIDTH :: int where
  "ROUTER_WIDTH = 8"

record temporal_sample =
  ts_conversation_id :: string
  ts_split :: string
  ts_domain :: string
  ts_request_id :: string
  ts_turn_index :: int
  ts_phase :: string
  ts_layer_id :: int
  ts_source_forward_id :: int
  ts_target_forward_id :: int
  ts_source_token_index :: int
  ts_target_token_index :: int
  ts_source_token_id :: int
  ts_target_token_id :: int
  ts_source_hook_order :: int
  ts_target_hook_order :: int
  ts_source_expert_ids :: "int list"
  ts_target_expert_ids :: "int list"

record temporal_dataset =
  td_train :: "temporal_sample list"
  td_validation :: "temporal_sample list"
  td_test :: "temporal_sample list"
  td_conversation_ids :: "(string, string list) dict"

definition validate_router_set :: "router_trace_event \<Rightarrow> unit res" where
  "validate_router_set e =
     (if int (length (ev_selected_expert_ids e)) \<noteq> ROUTER_WIDTH
      then Inl (ValueError ''layer-24 routing must contain exactly eight experts'')
      else if \<exists>x \<in> set (ev_selected_expert_ids e). \<not> (0 \<le> x \<and> x < EXPERT_COUNT)
      then Inl (ValueError ''expert ID is outside the canonical range 0..127'')
      else Inr ())"

definition temporal_sample_of ::
    "string \<Rightarrow> string \<Rightarrow> string \<Rightarrow> router_trace_event \<Rightarrow> router_trace_event \<Rightarrow> temporal_sample res" where
  "temporal_sample_of conversation split domain source target =
     (if ev_request_id source \<noteq> ev_request_id target
      then Inl (ValueError ''request changed inside decode sequence'')
      else if ev_turn_index source \<noteq> ev_turn_index target
      then Inl (ValueError ''turn changed inside decode sequence'')
      else if ev_forward_id target \<noteq> ev_forward_id source + 1
      then Inl (ValueError ''decode records do not have consecutive forward IDs'')
      else if ev_token_index target \<noteq> ev_token_index source + 1
      then Inl (ValueError ''decode records do not have consecutive token indices'')
      else if ev_hook_order target \<le> ev_hook_order source
      then Inl (ValueError ''decode records do not have causal hook ordering'')
      else if ev_phase source \<noteq> ''decode'' \<or> ev_phase target \<noteq> ''decode''
      then Inl (ValueError ''temporal samples must remain decode-only'')
      else if ev_layer_id source \<noteq> TARGET_LAYER \<or> ev_layer_id target \<noteq> TARGET_LAYER
      then Inl (ValueError ''temporal samples must remain on layer 24'')
      else Inr \<lparr>ts_conversation_id = conversation, ts_split = split, ts_domain = domain,
        ts_request_id = ev_request_id source, ts_turn_index = ev_turn_index source,
        ts_phase = ''decode'', ts_layer_id = TARGET_LAYER,
        ts_source_forward_id = ev_forward_id source, ts_target_forward_id = ev_forward_id target,
        ts_source_token_index = ev_token_index source, ts_target_token_index = ev_token_index target,
        ts_source_token_id = ev_token_id source, ts_target_token_id = ev_token_id target,
        ts_source_hook_order = ev_hook_order source, ts_target_hook_order = ev_hook_order target,
        ts_source_expert_ids = ev_selected_expert_ids source,
        ts_target_expert_ids = ev_selected_expert_ids target\<rparr>)"

text \<open>One shard: the prompt hash is checked last, after the trace path.\<close>

definition temporal_shard :: "bool \<Rightarrow> string list \<Rightarrow> shard_scan \<Rightarrow> json \<Rightarrow> shard_scan res" where
  "temporal_shard require_hashes materialized s shard = (case shard of
     JObj r \<Rightarrow>
       if jget r ''status'' \<noteq> JStr ''passed''
       then Inl (ValueError ''every temporal shard must be a passed object'')
       else rbind (shard_labels r) (\<lambda>(conversation, split, domain).
         rbind (check_new_conversation (sc_split_by_conversation s) conversation split) (\<lambda>_.
         rbind (shard_trace_path r) (\<lambda>path.
         rbind (check_prompt_hash require_hashes (sc_prompt_hashes s) r) (\<lambda>hashes.
           Inr (scan_add materialized s hashes conversation split domain path)))))
   | _ \<Rightarrow> Inl (ValueError ''every temporal shard must be a passed object''))"

definition temporal_expected_counts :: "(string, int) dict option \<Rightarrow> (string, int) dict" where
  "temporal_expected_counts expected = (case expected of Some (c # cs) \<Rightarrow> c # cs
     | _ \<Rightarrow> [(''train'', 60), (''validation'', 12), (''test'', 12)])"

text \<open>One event of a shard: other phases and layers are skipped.\<close>

definition temporal_event ::
    "string \<Rightarrow> (int, router_trace_event) dict \<Rightarrow> router_trace_event \<Rightarrow> (int, router_trace_event) dict res" where
  "temporal_event conversation by_forward e =
     (if ev_conversation_id e \<noteq> conversation then Inl (ValueError ''conversation mismatch'')
      else if ev_phase e \<noteq> ''decode'' \<or> ev_layer_id e \<noteq> TARGET_LAYER then Inr by_forward
      else rbind (validate_router_set e) (\<lambda>_.
        if ev_forward_id e \<in> fst ` set by_forward
        then Inl (ValueError ''duplicate layer-24 decode record'')
        else Inr (dict_set (ev_forward_id e) e by_forward)))"

definition temporal_conversation ::
    "(string \<Rightarrow> router_trace_event list res) \<Rightarrow> (string, temporal_sample list) dict \<Rightarrow> shard_row
      \<Rightarrow> (string, temporal_sample list) dict res" where
  "temporal_conversation traces samples row =
     (let (conversation, split, domain, path) = row in
      rbind (traces path) (\<lambda>events.
      rbind (rfold (temporal_event conversation) [] events) (\<lambda>by_forward.
      if length by_forward < 2
      then Inl (ValueError ''conversation has fewer than two decode layer-24 records'')
      else let ordered = sort_key ev_forward_id (map snd by_forward) in
        rbind (rmap (\<lambda>(source, target). temporal_sample_of conversation split domain source target)
            (pairs ordered)) (\<lambda>new.
          Inr (dict_set split (dict_get samples split [] @ new) samples)))))"

definition load_temporal_dataset ::
    "(string \<Rightarrow> router_trace_event list res) \<Rightarrow> json \<Rightarrow> (string, int) dict option
      \<Rightarrow> (string, string counter) dict option \<Rightarrow> bool \<Rightarrow> string list option \<Rightarrow> temporal_dataset res" where
  "load_temporal_dataset traces manifest expected_split_counts expected_domain_counts require_hashes
       materialize =
     rbind (manifest_shards manifest) (\<lambda>shards.
     rbind (materialized_splits materialize) (\<lambda>materialized.
     rbind (rfold (temporal_shard require_hashes materialized) shard_scan_initial shards) (\<lambda>scan.
     rbind (check_counts (temporal_expected_counts expected_split_counts) expected_domain_counts scan) (\<lambda>_.
     rbind (rfold (temporal_conversation traces) (map (\<lambda>split. (split, [])) SPLITS) (sc_shard_rows scan))
       (\<lambda>samples. Inr \<lparr>td_train = dict_get samples ''train'' [],
          td_validation = dict_get samples ''validation'' [], td_test = dict_get samples ''test'' [],
          td_conversation_ids = split_identifiers (sc_split_by_conversation scan)\<rparr>)))))"

section \<open>Samples of one conversation\<close>

text \<open>What a sample promises, and that the samples of one conversation are a chain.\<close>

definition decode_pair :: "temporal_sample \<Rightarrow> bool" where
  "decode_pair s \<longleftrightarrow> ts_phase s = ''decode'' \<and> ts_layer_id s = 24
     \<and> ts_target_forward_id s = ts_source_forward_id s + 1
     \<and> ts_target_token_index s = ts_source_token_index s + 1
     \<and> ts_source_hook_order s < ts_target_hook_order s
     \<and> length (ts_source_expert_ids s) = 8 \<and> length (ts_target_expert_ids s) = 8
     \<and> set (ts_source_expert_ids s) \<union> set (ts_target_expert_ids s) \<subseteq> {0..127}"

definition chained :: "temporal_sample list \<Rightarrow> bool" where
  "chained samples \<longleftrightarrow> (\<forall>(a, b) \<in> set (pairs samples).
     ts_conversation_id a = ts_conversation_id b \<longrightarrow>
       ts_target_expert_ids a = ts_source_expert_ids b \<and> ts_target_forward_id a = ts_source_forward_id b)"

definition router_ok :: "router_trace_event \<Rightarrow> bool" where
  "router_ok e \<longleftrightarrow> length (ev_selected_expert_ids e) = 8 \<and> set (ev_selected_expert_ids e) \<subseteq> {0..127}"

lemma validate_router_set_ok: "validate_router_set e = Inr u \<longleftrightarrow> router_ok e"
  by (auto simp: validate_router_set_def router_ok_def ROUTER_WIDTH_def EXPERT_COUNT_def)

lemma temporal_sample_of_ok:
  assumes "temporal_sample_of c split d source target = Inr s" and "router_ok source" and "router_ok target"
  shows "decode_pair s" and "ts_conversation_id s = c" and "ts_split s = split"
    and "ts_source_expert_ids s = ev_selected_expert_ids source"
    and "ts_target_expert_ids s = ev_selected_expert_ids target"
    and "ts_source_forward_id s = ev_forward_id source" and "ts_target_forward_id s = ev_forward_id target"
  using assms
  by (auto simp: temporal_sample_of_def decode_pair_def router_ok_def TARGET_LAYER_def split: if_splits)

lemma temporal_events_ok:
  assumes "rfold (temporal_event c) [] events = Inr by_forward"
  shows "\<forall>(f, e) \<in> set by_forward. router_ok e"
  using assms
proof (rule rfold_invariant)
  fix d e d'
  assume "\<forall>(f, e) \<in> set d. router_ok e" and "temporal_event c d e = Inr d'"
  then show "\<forall>(f, e) \<in> set d'. router_ok e"
    using set_dict_set [of "ev_forward_id e" e d]
    by (auto simp: temporal_event_def rbind_eq_Inr validate_router_set_ok split: if_splits)
qed simp

lemma rmap_pairs_chain:
  assumes "rmap (\<lambda>(a, b). f a b) (pairs xs) = Inr ys"
    and "\<And>a b y. f a b = Inr y \<Longrightarrow> src y = key a \<and> tgt y = key b"
  shows "\<forall>(y, z) \<in> set (pairs ys). tgt y = src z"
  using assms(1)
proof (induction xs arbitrary: ys)
  case Nil
  then show ?case by (simp add: pairs_def)
next
  case (Cons a xs)
  show ?case
  proof (cases xs)
    case Nil
    then show ?thesis using Cons.prems by (simp add: pairs_def)
  next
    case (Cons b xs')
    have p: "pairs (a # xs) = (a, b) # pairs xs" by (simp add: pairs_def Cons)
    from Cons.prems obtain y zs where y: "f a b = Inr y" and zs: "rmap (\<lambda>(a, b). f a b) (pairs xs) = Inr zs"
      and ys: "ys = y # zs" by (auto simp: p rbind_eq_Inr)
    have IH: "\<forall>(y, z) \<in> set (pairs zs). tgt y = src z" using Cons.IH [OF zs] .
    show ?thesis
    proof (cases zs)
      case Nil
      then show ?thesis by (simp add: ys pairs_def)
    next
      case zs': (Cons z zs')
      then obtain c where "f b c = Inr z"
        using zs by (cases xs') (auto simp: Cons pairs_def rbind_eq_Inr)
      then have "tgt y = src z" using assms(2) [OF y] assms(2) by metis
      then show ?thesis using IH by (simp add: ys zs' pairs_def)
    qed
  qed
qed

lemma temporal_shard_ok:
  assumes "temporal_shard h materialized s shard = Inr s'" and "scan_ok materialized s"
  shows "scan_ok materialized s'"
  using assms by (auto simp: temporal_shard_def rbind_eq_Inr check_new_conversation_ok
      intro: scan_add_ok split: json.splits if_splits)

lemma temporal_scan_ok:
  assumes "rfold (temporal_shard h materialized) shard_scan_initial shards = Inr s"
  shows "scan_ok materialized s"
  using assms
proof (rule rfold_invariant)
  show "scan_ok materialized shard_scan_initial" by (simp add: scan_ok_def shard_scan_initial_def)
qed (rule temporal_shard_ok)

text \<open>The samples one conversation contributes.\<close>

lemma temporal_conversation_ok:
  assumes "temporal_conversation traces samples (c, split, d, p) = Inr samples'"
  obtains new where "samples' = dict_set split (dict_get samples split [] @ new) samples"
    and "\<forall>s \<in> set new. decode_pair s \<and> ts_conversation_id s = c \<and> ts_split s = split" and "chained new"
proof -
  from assms obtain events by_forward new where ev: "rfold (temporal_event c) [] events = Inr by_forward"
    and new: "rmap (\<lambda>(source, target). temporal_sample_of c split d source target)
        (pairs (sort_key ev_forward_id (map snd by_forward))) = Inr new"
    and s': "samples' = dict_set split (dict_get samples split [] @ new) samples"
    by (auto simp: temporal_conversation_def rbind_eq_Inr Let_def split: if_splits)
  let ?ordered = "sort_key ev_forward_id (map snd by_forward)"
  have ok: "\<forall>e \<in> set ?ordered. router_ok e" using temporal_events_ok [OF ev] by auto
  have "\<exists>source target. (source, target) \<in> set (pairs ?ordered) \<and> temporal_sample_of c split d source target = Inr s"
    if "s \<in> set new" for s
    using rmap_elem [OF new that] by auto
  moreover have "source \<in> set ?ordered \<and> target \<in> set ?ordered" if "(source, target) \<in> set (pairs ?ordered)" for source target
    using that unfolding pairs_def by (metis list.set_sel(2) set_zip_leftD set_zip_rightD tl_Nil)
  ultimately have "decode_pair s \<and> ts_conversation_id s = c \<and> ts_split s = split" if "s \<in> set new" for s
    using that ok temporal_sample_of_ok(1-3) by meson
  moreover have "chained new"
  proof -
    have "ts_source_expert_ids y = ev_selected_expert_ids a \<and> ts_source_forward_id y = ev_forward_id a
        \<and> ts_target_expert_ids y = ev_selected_expert_ids b \<and> ts_target_forward_id y = ev_forward_id b"
      if "temporal_sample_of c split d a b = Inr y" for a b y
      using that by (auto simp: temporal_sample_of_def split: if_splits)
    then have "\<forall>(y, z) \<in> set (pairs new). (ts_target_expert_ids y, ts_target_forward_id y)
        = (ts_source_expert_ids z, ts_source_forward_id z)"
      by (intro rmap_pairs_chain [OF new, where key = "\<lambda>e. (ev_selected_expert_ids e, ev_forward_id e)"]) auto
    then show ?thesis by (auto simp: chained_def)
  qed
  ultimately show thesis using s' that by blast
qed

lemma pairs_append: "set (pairs (xs @ ys)) \<subseteq> set (pairs xs) \<union> set (pairs ys) \<union> set xs \<times> set ys"
proof (induction xs)
  case (Cons x xs)
  then show ?case by (cases xs; cases ys) (auto simp: pairs_def)
qed simp

lemma chained_append:
  assumes "chained xs" and "chained ys"
    and "\<And>a b. a \<in> set xs \<Longrightarrow> b \<in> set ys \<Longrightarrow> ts_conversation_id a \<noteq> ts_conversation_id b"
  shows "chained (xs @ ys)"
  using assms pairs_append [of xs ys] unfolding chained_def by blast

definition samples_ok :: "shard_row list \<Rightarrow> (string, temporal_sample list) dict \<Rightarrow> bool" where
  "samples_ok rows samples \<longleftrightarrow> (\<forall>split. chained (dict_get samples split [])
     \<and> (\<forall>s \<in> set (dict_get samples split []). decode_pair s \<and> ts_split s = split
         \<and> (\<exists>row \<in> set rows. fst row = ts_conversation_id s \<and> fst (snd row) = split)))"

lemma temporal_conversations_ok:
  assumes "rfold (temporal_conversation traces) samples rows = Inr samples'"
    and "samples_ok seen samples" and "distinct (map fst (seen @ rows))"
  shows "samples_ok (seen @ rows) samples'"
  using assms
proof (induction rows arbitrary: seen samples)
  case Nil
  then show ?case by simp
next
  case (Cons row rows)
  obtain c split d p where row: "row = (c, split, d, p)" by (cases row)
  from Cons.prems(1) obtain s1 where s1: "temporal_conversation traces samples (c, split, d, p) = Inr s1"
    and rest: "rfold (temporal_conversation traces) s1 rows = Inr samples'"
    by (auto simp: row rbind_eq_Inr)
  from s1 obtain new where new: "s1 = dict_set split (dict_get samples split [] @ new) samples"
    "\<forall>s \<in> set new. decode_pair s \<and> ts_conversation_id s = c \<and> ts_split s = split" "chained new"
    by (rule temporal_conversation_ok)
  have "c \<notin> fst ` set seen" using Cons.prems(3) by (auto simp: row)
  then have "ts_conversation_id a \<noteq> ts_conversation_id b"
    if "a \<in> set (dict_get samples split [])" "b \<in> set new" for a b
    using Cons.prems(2) new(2) that unfolding samples_ok_def by force
  then have "chained (dict_get samples split [] @ new)"
    using Cons.prems(2) new(3) by (intro chained_append) (auto simp: samples_ok_def)
  then have "samples_ok (seen @ [row]) s1"
    using Cons.prems(2) new(2) by (auto simp: samples_ok_def new(1) dict_get_set row)
  then show ?case using Cons.IH [OF rest, of "seen @ [row]"] Cons.prems(3) by simp
qed

definition temporal_split_samples :: "temporal_dataset \<Rightarrow> string \<Rightarrow> temporal_sample list" where
  "temporal_split_samples ds split = (if split = ''train'' then td_train ds
     else if split = ''validation'' then td_validation ds else td_test ds)"

definition temporal_split_conversations :: "temporal_dataset \<Rightarrow> string \<Rightarrow> string list" where
  "temporal_split_conversations ds split = dict_get (td_conversation_ids ds) split []"

section \<open>Properties\<close>

lemma temporal_dataset_facts:
  assumes "load_temporal_dataset traces manifest split_counts domain_counts hashes materialize = Inr ds"
    and "split \<in> set SPLITS"
  shows "(\<forall>s \<in> set (temporal_split_samples ds split). decode_pair s \<and> ts_split s = split
        \<and> ts_conversation_id s \<in> set (temporal_split_conversations ds split))
    \<and> chained (temporal_split_samples ds split)
    \<and> (\<forall>other \<in> set SPLITS. other \<noteq> split \<longrightarrow>
        set (temporal_split_conversations ds split) \<inter> set (temporal_split_conversations ds other) = {})
    \<and> (\<forall>wanted. materialize = Some wanted \<longrightarrow> split \<notin> set wanted \<longrightarrow> temporal_split_samples ds split = [])"
proof -
  from assms(1) obtain shards m scan samples
    where m: "materialized_splits materialize = Inr m"
      and scan: "rfold (temporal_shard hashes m) shard_scan_initial shards = Inr scan"
      and samples: "rfold (temporal_conversation traces) (map (\<lambda>split. (split, [])) SPLITS) (sc_shard_rows scan) = Inr samples"
      and ds: "ds = \<lparr>td_train = dict_get samples ''train'' [],
          td_validation = dict_get samples ''validation'' [], td_test = dict_get samples ''test'' [],
          td_conversation_ids = split_identifiers (sc_split_by_conversation scan)\<rparr>"
    by (auto simp: load_temporal_dataset_def rbind_eq_Inr)
  let ?sbc = "sc_split_by_conversation scan"
  from temporal_scan_ok [OF scan] have dist: "distinct (map fst ?sbc)" "distinct (map fst (sc_shard_rows scan))"
    and rows: "\<And>c s d p. (c, s, d, p) \<in> set (sc_shard_rows scan) \<Longrightarrow> (c, s) \<in> set ?sbc \<and> s \<in> set m"
    by (auto simp: scan_ok_def)
  have ids: "c \<in> set (temporal_split_conversations ds s) \<longleftrightarrow> map_of ?sbc c = Some s" if "s \<in> set SPLITS" for c s
    using split_identifiers_iff [OF that dist(1)] by (simp add: temporal_split_conversations_def ds)
  have "samples_ok [] (map (\<lambda>split. (split, [])) SPLITS)"
    by (simp add: samples_ok_def SPLITS_def dict_get_def chained_def pairs_def)
  from temporal_conversations_ok [OF samples this] dist(2) have ok: "samples_ok (sc_shard_rows scan) samples" by simp
  have smp: "temporal_split_samples ds split = dict_get samples split []"
    using assms(2) by (auto simp: temporal_split_samples_def ds SPLITS_def)
  have "decode_pair s \<and> ts_split s = split \<and> ts_conversation_id s \<in> set (temporal_split_conversations ds split)"
    if s: "s \<in> set (temporal_split_samples ds split)" for s
  proof -
    obtain d p where row: "(ts_conversation_id s, split, d, p) \<in> set (sc_shard_rows scan)"
      and s': "decode_pair s" "ts_split s = split"
      using ok s by (fastforce simp: samples_ok_def smp)
    then show ?thesis using rows [OF row] dist(1) by (simp add: ids [OF assms(2)])
  qed
  moreover have "chained (temporal_split_samples ds split)" using ok by (simp add: smp samples_ok_def)
  moreover have "set (temporal_split_conversations ds split) \<inter> set (temporal_split_conversations ds other) = {}"
    if "other \<in> set SPLITS" "other \<noteq> split" for other
    using ids [OF assms(2)] ids [OF that(1)] that(2) by auto
  moreover have "temporal_split_samples ds split = []" if w: "materialize = Some wanted" "split \<notin> set wanted" for wanted
  proof (rule ccontr)
    assume "temporal_split_samples ds split \<noteq> []"
    then obtain x where "x \<in> set (dict_get samples split [])" by (cases "dict_get samples split []") (auto simp: smp)
    then obtain c d p where "(c, split, d, p) \<in> set (sc_shard_rows scan)"
      using ok by (fastforce simp: samples_ok_def)
    then have "split \<in> set m" using rows by blast
    moreover have "m = wanted" using m w(1) by (auto simp: materialized_splits_def Let_def split: if_splits)
    ultimately show False using w(2) by simp
  qed
  ultimately show ?thesis by blast
qed

text \<open>
  Every sample of a loaded temporal dataset pairs two consecutive decode records of layer 24
  with eight experts each out of 128, belongs to its split and to a conversation of that split; the
  samples of a split are chained: two neighbours of one conversation share the middle token, so its
  target experts are the next source experts; no conversation belongs to two splits, and a split
  that was not asked for stays empty.
\<close>

theorem temporal_dataset_chained:
  assumes "load_temporal_dataset traces manifest split_counts domain_counts hashes materialize = Inr ds"
    and "split \<in> set SPLITS"
  shows "(\<forall>s \<in> set (temporal_split_samples ds split). decode_pair s \<and> ts_split s = split
        \<and> ts_conversation_id s \<in> set (temporal_split_conversations ds split))
    \<and> chained (temporal_split_samples ds split)
    \<and> (\<forall>other \<in> set SPLITS. other \<noteq> split \<longrightarrow>
        set (temporal_split_conversations ds split) \<inter> set (temporal_split_conversations ds other) = {})
    \<and> (\<forall>wanted. materialize = Some wanted \<longrightarrow> split \<notin> set wanted \<longrightarrow> temporal_split_samples ds split = [])"
  by (rule temporal_dataset_facts [OF assms])

definition decode_event :: "int \<Rightarrow> int list \<Rightarrow> router_trace_event" where
  "decode_event forward ids = example_event forward 24 ids"

definition decode_traces :: "string \<Rightarrow> router_trace_event list res" where
  "decode_traces path = (if path = ''c''
     then Inr [decode_event 1 [8..15], decode_event 0 [0..7], decode_event 2 [3..10]] else Inl (ValueError ''sealed''))"

lemma example_temporal_dataset:
  "\<exists>ds. load_temporal_dataset decode_traces example_manifest (Some [(''test'', 1), (''train'', 1)]) None False
      (Some [''train'']) = Inr ds \<and> length (td_train ds) = 2"
proof -
  have "is_ok (rbind (load_temporal_dataset decode_traces example_manifest (Some [(''test'', 1), (''train'', 1)]) None False
      (Some [''train''])) (\<lambda>ds. if length (td_train ds) = 2 then Inr () else Inl KeyError))"
    by code_simp
  then show ?thesis by (auto simp: is_ok_rbind split: if_splits)
qed

lemma temporal_dataset_chained_witness:
  "\<exists>ds. load_temporal_dataset decode_traces example_manifest (Some [(''test'', 1), (''train'', 1)]) None False
      (Some [''train'']) = Inr ds
    \<and> length (temporal_split_samples ds ''train'') = 2 \<and> chained (temporal_split_samples ds ''train'')
    \<and> temporal_split_samples ds ''test'' = []"
proof -
  obtain ds where ds: "load_temporal_dataset decode_traces example_manifest (Some [(''test'', 1), (''train'', 1)]) None False
      (Some [''train'']) = Inr ds" "length (td_train ds) = 2"
    using example_temporal_dataset by blast
  have len: "length (temporal_split_samples ds ''train'') = 2"
    using ds(2) unfolding temporal_split_samples_def if_P [OF refl] .
  have split: "''train'' \<in> set SPLITS" "''test'' \<in> set SPLITS" by (simp_all add: SPLITS_def)
  have chain: "chained (temporal_split_samples ds ''train'')"
    by (rule temporal_dataset_chained [OF ds(1) split(1), THEN conjunct2, THEN conjunct1])
  have "''test'' \<notin> set [''train'']" by simp
  then have "temporal_split_samples ds ''test'' = []"
    using temporal_dataset_chained [OF ds(1) split(2), THEN conjunct2, THEN conjunct2, THEN conjunct2] by blast
  with ds(1) len chain show ?thesis by blast
qed

end
