(* ===== verification/Ranking.thy ===== *)
theory Ranking
  imports Temporal_Dataset Cache_Sim
begin

text \<open>
  \<open>predictor/models.py\<close> and \<open>predictor/temporal_models.py\<close>: the deterministic expert rankers. The
  program's protocol \<open>Ranker\<close> is the locale \<open>ranker\<close>: on the samples it supports, a ranker
  returns a permutation of the 128 experts. Its consequences for any consumer (a prefix of width
  \<open>w\<close> holds \<open>w\<close> distinct experts, longer prefixes cover more) are proved once; the copy,
  frequency, transition, session-frequency and combined rankers are interpretations. Sorting is
  by the code's keys; scores of the normalised rankers are binary64 floats. A NaN score, which
  only a NaN weight can cause, sorts last here, whereas Python leaves its place undefined.
\<close>

definition experts :: "int list" where
  "experts = map int [0..<128]"

definition is_permutation :: "int list \<Rightarrow> bool" where
  "is_permutation r \<longleftrightarrow> length r = 128 \<and> set r = set experts"

lemma experts_simps [simp]: "length experts = 128" "distinct experts" "set experts = {0..<128}"
proof -
  show "length experts = 128" "distinct experts" by (simp_all add: experts_def distinct_map)
  have "int ` {0..<128} = {0..<128}" using image_int_atLeastLessThan [of 0 128] by simp
  then show "set experts = {0..<128}" by (simp add: experts_def)
qed

lemma is_permutation_mset: "mset r = mset experts \<Longrightarrow> is_permutation r"
  unfolding is_permutation_def by (metis size_mset experts_simps(1) set_mset_mset)

lemma is_permutation_sort [simp]: "is_permutation (sort_key f experts)"
  by (rule is_permutation_mset) simp

lemma is_permutation_distinct: "is_permutation r \<Longrightarrow> distinct r"
  unfolding is_permutation_def by (metis card_distinct distinct_card experts_simps(1,2))

section \<open>The interface of a ranker\<close>

locale ranker =
  fixes rank :: "'s \<Rightarrow> int list res" and supports :: "'s \<Rightarrow> bool"
  assumes rank_permutation: "supports s \<Longrightarrow> \<exists>r. rank s = Inr r \<and> is_permutation r"
begin

lemma prefix_distinct: "supports s \<Longrightarrow> rank s = Inr r \<Longrightarrow> w \<le> 128 \<Longrightarrow>
    distinct (take w r) \<and> length (take w r) = w \<and> set (take w r) \<subseteq> {0..<128}"
  using rank_permutation [of s] is_permutation_distinct [of r]
  by (auto simp: is_permutation_def dest: in_set_takeD)

lemma full_prefix_covers: "supports s \<Longrightarrow> rank s = Inr r \<Longrightarrow> set (take 128 r) = {0..<128}"
  using rank_permutation [of s] by (auto simp: is_permutation_def)

lemma ranks_all: "\<forall>s \<in> set ss. supports s \<Longrightarrow>
    \<exists>rs. rmap rank ss = Inr rs \<and> length rs = length ss \<and> (\<forall>r \<in> set rs. is_permutation r)"
proof (induction ss)
  case (Cons s ss)
  moreover from Cons.prems obtain r where "rank s = Inr r" "is_permutation r"
    using rank_permutation by auto
  ultimately show ?case by auto
qed simp

end

section \<open>Adjacent-layer rankers\<close>

text \<open>First occurrences of the prefix, then the other experts by descending score and id.\<close>

definition complete :: "int list \<Rightarrow> int counter \<Rightarrow> int list" where
  "complete prefix scores = (let ordered = fromkeys prefix in
     ordered @ sort_key (\<lambda>x. (- counter_get scores x, x)) (filter (\<lambda>x. x \<notin> set ordered) experts))"

definition copy_rank :: "prediction_sample \<Rightarrow> int list" where
  "copy_rank sample = complete (smp_source_expert_ids sample) []"

record frequency_predictor =
  fp_counts :: "(int, int counter) dict"

definition frequency_fit :: "prediction_sample list \<Rightarrow> frequency_predictor" where
  "frequency_fit samples = \<lparr>fp_counts = foldl (\<lambda>d s. dict_set (smp_target_layer s)
     (counter_update (dict_get d (smp_target_layer s) []) (smp_target_expert_ids s)) d) [] samples\<rparr>"

definition frequency_rank :: "frequency_predictor \<Rightarrow> prediction_sample \<Rightarrow> int list" where
  "frequency_rank p sample = (let counts = dict_get (fp_counts p) (smp_target_layer sample) [] in
     sort_key (\<lambda>x. (- counter_get counts x, x)) experts)"

text \<open>phase, target layer, source expert, target expert\<close>

type_synonym transition_table = "(string, (int, (int, int counter) dict) dict) dict"

record transition_predictor =
  tp_transitions :: transition_table
  tp_fallback :: frequency_predictor
  tp_weighting :: string
  tp_phase_mode :: string

definition phase_key :: "string \<Rightarrow> prediction_sample \<Rightarrow> string" where
  "phase_key phase_mode sample = (if phase_mode = ''separate'' then smp_phase sample else ''*'')"

definition count_transition :: "string \<Rightarrow> int \<Rightarrow> int list \<Rightarrow> transition_table \<Rightarrow> int \<Rightarrow> transition_table" where
  "count_transition phase layer targets t source =
     (let by_layer = dict_get t phase []; by_source = dict_get by_layer layer [];
          counts = dict_get by_source source []
      in dict_set phase (dict_set layer (dict_set source (counter_update counts targets) by_source)
           by_layer) t)"

definition transition_fit ::
    "prediction_sample list \<Rightarrow> string \<Rightarrow> string \<Rightarrow> transition_predictor res" where
  "transition_fit samples weighting phase_mode =
     (if weighting \<notin> {''raw_count'', ''source_normalized''}
      then Inl (ValueError ''transition weighting must be raw_count or source_normalized'')
      else if phase_mode \<notin> {''pooled'', ''separate''}
      then Inl (ValueError ''transition phase mode must be pooled or separate'')
      else Inr \<lparr>tp_transitions = foldl (\<lambda>t s. foldl
            (count_transition (phase_key phase_mode s) (smp_target_layer s) (smp_target_expert_ids s))
            t (smp_source_expert_ids s)) [] samples,
          tp_fallback = frequency_fit samples, tp_weighting = weighting, tp_phase_mode = phase_mode\<rparr>)"

definition source_rows :: "transition_predictor \<Rightarrow> prediction_sample \<Rightarrow> int counter list" where
  "source_rows p sample =
     (let by_source = dict_get (dict_get (tp_transitions p) (phase_key (tp_phase_mode p) sample) [])
            (smp_target_layer sample) []
      in map (\<lambda>source. dict_get by_source source []) (smp_source_expert_ids sample))"

text \<open>\<open>Counter.update\<close> of a counter adds its counts.\<close>

definition counter_add :: "int counter \<Rightarrow> int counter \<Rightarrow> int counter" where
  "counter_add c d = foldl (\<lambda>c (k, n). dict_set k (counter_get c k + n) c) c d"

definition raw_scores :: "transition_predictor \<Rightarrow> prediction_sample \<Rightarrow> int counter" where
  "raw_scores p sample = foldl counter_add [] (source_rows p sample)"

text \<open>\<open>scores[target] += count / row_total\<close> for the entries of one row; a missing score is zero.\<close>

definition add_share :: "int \<Rightarrow> (int, pyfloat) dict \<Rightarrow> int \<times> int \<Rightarrow> (int, pyfloat) dict res" where
  "add_share row_total scores entry = (let (target, n) = entry in
     rbind (int_truediv n row_total) (\<lambda>share.
       Inr (dict_set target (fadd (dict_get scores target (Fin 0)) share) scores)))"

definition add_normalized_row :: "(int, pyfloat) dict \<Rightarrow> int counter \<Rightarrow> (int, pyfloat) dict res" where
  "add_normalized_row scores row = (let row_total = counter_total row in
     if row_total = 0 then Inr scores else rfold (add_share row_total) scores row)"

definition normalized_scores :: "transition_predictor \<Rightarrow> prediction_sample \<Rightarrow> (int, pyfloat) dict res" where
  "normalized_scores p sample = rfold add_normalized_row [] (source_rows p sample)"

definition transition_rank :: "transition_predictor \<Rightarrow> prediction_sample \<Rightarrow> int list res" where
  "transition_rank p sample =
     (if tp_weighting p = ''raw_count'' then
        let scores = raw_scores p sample in
        if scores = [] then Inr (frequency_rank (tp_fallback p) sample)
        else Inr (sort_key (\<lambda>x. (- counter_get scores x, x)) experts)
      else rbind (normalized_scores p sample) (\<lambda>scores.
        if scores = [] then Inr (frequency_rank (tp_fallback p) sample)
        else Inr (sort_key (\<lambda>x. (fneg (dict_get scores x (Fin 0)), x)) experts)))"

definition has_support :: "transition_predictor \<Rightarrow> prediction_sample \<Rightarrow> int \<Rightarrow> bool res" where
  "has_support p sample x =
     (if tp_weighting p = ''raw_count'' then Inr (0 < counter_get (raw_scores p sample) x)
      else rbind (normalized_scores p sample) (\<lambda>scores. Inr (py_less (Fin 0) (dict_get scores x (Fin 0)))))"

section \<open>Temporal rankers\<close>

definition temporal_complete :: "int list \<Rightarrow> int counter option \<Rightarrow> int list" where
  "temporal_complete prefix scores = (let ordered = fromkeys prefix;
       rest = filter (\<lambda>x. x \<notin> set ordered) experts
     in ordered @ (case scores of None \<Rightarrow> rest | Some c \<Rightarrow> sort_key (\<lambda>x. (- counter_get c x, x)) rest))"

definition temporal_copy_rank :: "temporal_sample \<Rightarrow> int counter \<Rightarrow> int list" where
  "temporal_copy_rank sample session_counts = temporal_complete (ts_source_expert_ids sample) None"

text \<open>\<open>{expert: index for index, expert in enumerate(xs)}\<close>: a repeated expert keeps its last index.\<close>

definition index_by :: "int list \<Rightarrow> (int, int) dict" where
  "index_by xs = foldl (\<lambda>d (i, x). dict_set x (int i) d) [] (enumerate 0 xs)"

definition session_rank :: "temporal_sample \<Rightarrow> int counter \<Rightarrow> int list" where
  "session_rank sample session_counts =
     (let current_order = index_by (ts_source_expert_ids sample) in
      sort_key (\<lambda>x. (- counter_get session_counts x, dict_get current_order x EXPERT_COUNT, x)) experts)"

record temporal_transition =
  tt_transitions :: "(int, int counter) dict"
  tt_target_frequency :: "int counter"

definition temporal_transition_fit :: "temporal_sample list \<Rightarrow> temporal_transition" where
  "temporal_transition_fit samples = foldl (\<lambda>p s.
     \<lparr>tt_transitions = foldl (\<lambda>rows source.
          dict_set source (counter_update (dict_get rows source []) (ts_target_expert_ids s)) rows)
        (tt_transitions p) (ts_source_expert_ids s),
      tt_target_frequency = counter_update (tt_target_frequency p) (ts_target_expert_ids s)\<rparr>)
     \<lparr>tt_transitions = [], tt_target_frequency = []\<rparr> samples"

text \<open>An index into a Python list: a negative one counts from the end.\<close>

definition py_index :: "nat \<Rightarrow> int \<Rightarrow> nat res" where
  "py_index n i = (if 0 \<le> i \<and> i < int n then Inr (nat i)
     else if - int n \<le> i \<and> i < 0 then Inr (nat (int n + i)) else Inl IndexError)"

definition add_temporal_share :: "int \<Rightarrow> pyfloat list \<Rightarrow> int \<times> int \<Rightarrow> pyfloat list res" where
  "add_temporal_share row_total scores entry = (let (target, n) = entry in
     rbind (py_index (length scores) target) (\<lambda>i.
     rbind (int_truediv n row_total) (\<lambda>share. Inr (scores[i := fadd (scores ! i) share]))))"

definition add_temporal_row :: "temporal_transition \<Rightarrow> pyfloat list \<Rightarrow> int \<Rightarrow> pyfloat list res" where
  "add_temporal_row p scores source =
     (let row = dict_get (tt_transitions p) source []; row_total = counter_total row in
      if row_total = 0 then Inr scores else rfold (add_temporal_share row_total) scores row)"

definition temporal_scores :: "temporal_transition \<Rightarrow> temporal_sample \<Rightarrow> pyfloat list res" where
  "temporal_scores p sample =
     rfold (add_temporal_row p) (replicate (nat EXPERT_COUNT) (Fin 0)) (ts_source_expert_ids sample)"

definition temporal_transition_rank ::
    "temporal_transition \<Rightarrow> temporal_sample \<Rightarrow> int counter \<Rightarrow> int list res" where
  "temporal_transition_rank p sample session_counts = rbind (temporal_scores p sample) (\<lambda>scores.
     Inr (sort_key (\<lambda>x. (fneg (scores ! nat x), - counter_get (tt_target_frequency p) x, x)) experts))"

subsection \<open>The combined ranker\<close>

record temporal_combined =
  tc_transition :: temporal_transition
  tc_weights :: "pyfloat \<times> pyfloat \<times> pyfloat"

text \<open>
  \<open>__post_init__\<close>. The built-in \<open>sum\<close> of floats is the argument \<open>float_sum\<close>: it adds left to
  right up to Python 3.11 and with compensation from 3.12 on, and the program supports both.
\<close>

definition combined_init ::
    "(pyfloat list \<Rightarrow> pyfloat) \<Rightarrow> temporal_transition \<Rightarrow> pyfloat \<times> pyfloat \<times> pyfloat \<Rightarrow> temporal_combined res" where
  "combined_init float_sum transition weights =
     (let (a, b, c) = weights in
      if py_less a (Fin 0) \<or> py_less b (Fin 0) \<or> py_less c (Fin 0)
         \<or> py_less (dbl (1 / 10 ^ 12)) (fabs (fsub (float_sum [a, b, c]) (Fin 1)))
      then Inl (ValueError ''combined temporal weights must be non-negative and sum to one'')
      else Inr \<lparr>tc_transition = transition, tc_weights = weights\<rparr>)"

text \<open>\<open>max(scores)\<close> of a non-empty list, and \<open>max(...) or one\<close>.\<close>

definition py_max_list :: "pyfloat list \<Rightarrow> pyfloat" where
  "py_max_list xs = (case xs of [] \<Rightarrow> NaN | y # ys \<Rightarrow> foldl py_max y ys)"

definition or_one :: "pyfloat \<Rightarrow> pyfloat" where
  "or_one x = (if x = Fin 0 then Fin 1 else x)"

definition session_scale :: "int counter \<Rightarrow> int" where
  "session_scale session_counts = (let m = (case map snd session_counts of [] \<Rightarrow> 0 | v # vs \<Rightarrow> foldl max v vs)
     in if m = 0 then 1 else m)"

definition combined_score ::
    "pyfloat \<times> pyfloat \<times> pyfloat \<Rightarrow> pyfloat list \<Rightarrow> pyfloat \<Rightarrow> int \<Rightarrow> int list \<Rightarrow> int counter \<Rightarrow> int \<Rightarrow> pyfloat res" where
  "combined_score weights scores scale sscale current session_counts x =
     (let (transition_weight, retention_weight, session_weight) = weights in
      rbind (fdiv (fmul transition_weight (scores ! nat x)) scale) (\<lambda>transition.
      rbind (float_of_int (counter_get session_counts x)) (\<lambda>seen.
      rbind (float_of_int sscale) (\<lambda>divisor.
      rbind (fdiv (fmul session_weight seen) divisor) (\<lambda>session.
        Inr (fadd (fadd transition (fmul retention_weight (Fin (if x \<in> set current then 1 else 0)))) session))))))"

definition combined_rank :: "temporal_combined \<Rightarrow> temporal_sample \<Rightarrow> int counter \<Rightarrow> int list res" where
  "combined_rank p sample session_counts =
     rbind (temporal_scores (tc_transition p) sample) (\<lambda>transition_scores.
     rbind (rmap (combined_score (tc_weights p) transition_scores (or_one (py_max_list transition_scores))
         (session_scale session_counts) (ts_source_expert_ids sample) session_counts) experts) (\<lambda>scores.
       Inr (sort_key (\<lambda>x. (fneg (scores ! nat x), x)) experts)))"

subsection \<open>Ranking a sequence of samples\<close>

text \<open>State of the loop: current conversation, session counts, previous sample.\<close>

record rank_state =
  rk_conversation :: "string option"
  rk_session_counts :: "int counter"
  rk_previous :: "temporal_sample option"
  rk_rankings :: "int list list"

definition same_conversation :: "rank_state \<Rightarrow> temporal_sample \<Rightarrow> bool" where
  "same_conversation s sample = (rk_conversation s = Some (ts_conversation_id sample))"

definition broken_chain :: "rank_state \<Rightarrow> temporal_sample \<Rightarrow> bool" where
  "broken_chain s sample = (same_conversation s sample \<and> (case rk_previous s of None \<Rightarrow> False
     | Some p \<Rightarrow> ts_source_expert_ids sample \<noteq> ts_target_expert_ids p))"

definition next_counts :: "rank_state \<Rightarrow> temporal_sample \<Rightarrow> int counter" where
  "next_counts s sample = counter_update (if same_conversation s sample then rk_session_counts s else [])
     (ts_source_expert_ids sample)"

definition rank_step ::
    "(temporal_sample \<Rightarrow> int counter \<Rightarrow> int list res) \<Rightarrow> rank_state \<Rightarrow> temporal_sample \<Rightarrow> rank_state res" where
  "rank_step rank s sample =
     (if broken_chain s sample
      then Inl (ValueError ''temporal samples are not a continuous causal conversation sequence'')
      else rbind (rank sample (next_counts s sample)) (\<lambda>ranking.
        if \<not> is_permutation ranking
        then Inl (ValueError ''temporal predictor ranking must be a permutation of 128 experts'')
        else Inr \<lparr>rk_conversation = Some (ts_conversation_id sample),
          rk_session_counts = next_counts s sample, rk_previous = Some sample,
          rk_rankings = rk_rankings s @ [ranking]\<rparr>))"

definition rank_temporal_samples ::
    "(temporal_sample \<Rightarrow> int counter \<Rightarrow> int list res) \<Rightarrow> temporal_sample list \<Rightarrow> int list list res" where
  "rank_temporal_samples rank samples = rbind (rfold (rank_step rank)
     \<lparr>rk_conversation = None, rk_session_counts = [], rk_previous = None, rk_rankings = []\<rparr> samples)
     (\<lambda>s. Inr (rk_rankings s))"

section \<open>Every ranker returns a permutation\<close>

lemma is_permutation_intro: "distinct r \<Longrightarrow> set r = {0..<128} \<Longrightarrow> is_permutation r"
  by (simp add: is_permutation_def flip: distinct_card)

lemma complete_permutation:
  assumes "set prefix \<subseteq> {0..<128}"
  shows "is_permutation (complete prefix scores)"
  using assms by (intro is_permutation_intro) (auto simp: complete_def Let_def)

lemma temporal_complete_permutation:
  assumes "set prefix \<subseteq> {0..<128}"
  shows "is_permutation (temporal_complete prefix scores)"
  using assms by (intro is_permutation_intro) (auto simp: temporal_complete_def Let_def split: option.splits)

interpretation copy: ranker "\<lambda>s. Inr (copy_rank s)" "\<lambda>s. set (smp_source_expert_ids s) \<subseteq> {0..<128}"
  by unfold_locales (simp add: copy_rank_def complete_permutation)

interpretation frequency: ranker "\<lambda>s. Inr (frequency_rank p s)" "\<lambda>s. True" for p
  by unfold_locales (simp add: frequency_rank_def Let_def)

text \<open>Rows of counts: non-negative entries, so a share is a rate.\<close>

definition row_ok :: "int counter \<Rightarrow> bool" where
  "row_ok row \<longleftrightarrow> (\<forall>(k, n) \<in> set row. 0 \<le> n)"

lemma row_ok_Nil [simp]: "row_ok []"
  by (simp add: row_ok_def)

lemma row_ok_get: "row_ok row \<Longrightarrow> 0 \<le> counter_get row k"
  unfolding counter_get_def row_ok_def using dict_get_default_or_in [of row k 0] by auto

lemma row_ok_update: "row_ok row \<Longrightarrow> row_ok (counter_update row ks)"
  unfolding counter_update_def
proof (induction ks arbitrary: row)
  case (Cons k ks)
  have "row_ok (counter_inc row k)"
    using Cons.prems row_ok_get [OF Cons.prems, of k] set_dict_set [of k "counter_get row k + 1" row]
    by (auto simp: counter_inc_def row_ok_def)
  with Cons.IH show ?case by simp
qed simp

lemma row_share:
  assumes "row_ok row" and "(k, n) \<in> set row" and "counter_total row \<noteq> 0"
  shows "\<exists>x. int_truediv n (counter_total row) = Inr (Fin x) \<and> 0 \<le> x \<and> x \<le> 1"
proof -
  have nn: "\<forall>v \<in> set (map snd row). 0 \<le> v" using assms(1) by (auto simp: row_ok_def)
  have n: "n \<in> set (map snd row)" using assms(2) by force
  then have "n \<le> counter_total row"
    unfolding counter_total_def using nn by (rule elem_le_sum_list [rotated])
  moreover have "0 \<le> counter_total row" unfolding counter_total_def using nn by (intro sum_list_nonneg) auto
  ultimately show ?thesis using assms(3) nn n by (intro int_truediv_rate) auto
qed

lemma normalized_row_ok:
  assumes "row_ok row"
  shows "\<exists>s'. add_normalized_row s row = Inr s'"
proof (cases "counter_total row = 0")
  case False
  have "\<exists>s'. rfold (add_share (counter_total row)) s row = Inr s' \<and> True"
    by (intro rfold_total) (use row_share [OF assms _ False] in \<open>fastforce simp: add_share_def\<close>)+
  then show ?thesis using False by (simp add: add_normalized_row_def Let_def)
qed (simp add: add_normalized_row_def Let_def)

definition transition_ok :: "transition_predictor \<Rightarrow> bool" where
  "transition_ok p \<longleftrightarrow> (\<forall>ph l s. row_ok (dict_get (dict_get (dict_get (tp_transitions p) ph []) l []) s []))"

lemma transition_rank_ok:
  assumes "transition_ok p"
  shows "\<exists>r. transition_rank p s = Inr r \<and> is_permutation r"
proof -
  have "\<exists>scores. normalized_scores p s = Inr scores \<and> True"
    unfolding normalized_scores_def
    by (rule rfold_total) (use assms normalized_row_ok in \<open>auto simp: source_rows_def transition_ok_def Let_def\<close>)
  then show ?thesis by (auto simp: transition_rank_def frequency_rank_def Let_def)
qed

interpretation transition: ranker "transition_rank p" "\<lambda>s. transition_ok p" for p
  by unfold_locales (rule transition_rank_ok)

lemma transition_fit_ok:
  assumes "transition_fit samples weighting phase_mode = Inr p"
  shows "transition_ok p"
proof -
  let ?ok = "\<lambda>t :: transition_table. \<forall>ph l s. row_ok (dict_get (dict_get (dict_get t ph []) l []) s [])"
  have step: "?ok (count_transition ph l targets t source)" if "?ok t" for ph l targets t source
    using that by (auto simp: count_transition_def Let_def dict_get_set row_ok_update)
  have inner: "?ok (foldl (count_transition ph l targets) t sources)" if "?ok t" for ph l targets t sources
    using that by (induction sources arbitrary: t) (auto simp: step)
  have "?ok (foldl (\<lambda>t s. foldl
            (count_transition (phase_key phase_mode s) (smp_target_layer s) (smp_target_expert_ids s))
            t (smp_source_expert_ids s)) t samples)" if "?ok t" for t
    using that by (induction samples arbitrary: t) (auto simp: inner)
  from this [of "[]"] assms show ?thesis
    by (auto simp: transition_fit_def transition_ok_def split: if_splits)
qed

section \<open>Temporal rankers\<close>

interpretation temporal_copy: ranker "\<lambda>(s, c). Inr (temporal_copy_rank s c)"
    "\<lambda>(s, c). set (ts_source_expert_ids s) \<subseteq> {0..<128}"
  by unfold_locales (auto simp: temporal_copy_rank_def temporal_complete_permutation)

interpretation session: ranker "\<lambda>(s, c). Inr (session_rank s c)" "\<lambda>_. True"
  by unfold_locales (auto simp: session_rank_def Let_def)

definition temporal_ok :: "temporal_transition \<Rightarrow> bool" where
  "temporal_ok p \<longleftrightarrow> (\<forall>s. row_ok (dict_get (tt_transitions p) s [])
     \<and> fst ` set (dict_get (tt_transitions p) s []) \<subseteq> {0..<128})"

lemma temporal_row_ok:
  assumes "temporal_ok p" and "length scores = 128"
  shows "\<exists>scores'. add_temporal_row p scores source = Inr scores' \<and> length scores' = 128"
proof -
  let ?row = "dict_get (tt_transitions p) source []"
  have row: "row_ok ?row" "fst ` set ?row \<subseteq> {0..<128}" using assms(1) by (auto simp: temporal_ok_def)
  show ?thesis
  proof (cases "counter_total ?row = 0")
    case False
    have "\<exists>scores'. rfold (add_temporal_share (counter_total ?row)) scores ?row = Inr scores' \<and> length scores' = 128"
    proof (rule rfold_total)
      fix sc :: "pyfloat list" and entry
      assume e: "entry \<in> set ?row" and len: "length sc = 128"
      obtain k n where kn: "entry = (k, n)" by (cases entry)
      have "k \<in> {0..<128}" using e row(2) by (force simp: kn)
      then have "py_index 128 k = Inr (nat k)" by (simp add: py_index_def)
      then show "\<exists>sc'. add_temporal_share (counter_total ?row) sc entry = Inr sc' \<and> length sc' = 128"
        using row_share [OF row(1) _ False, of k n] e len by (auto simp: add_temporal_share_def kn)
    qed (rule assms(2))
    then show ?thesis using False by (simp add: add_temporal_row_def Let_def)
  qed (simp add: add_temporal_row_def Let_def assms(2))
qed

lemma temporal_scores_ok:
  assumes "temporal_ok p"
  shows "\<exists>scores. temporal_scores p s = Inr scores \<and> length scores = 128"
  unfolding temporal_scores_def
  by (rule rfold_total) (use assms temporal_row_ok in \<open>auto simp: EXPERT_COUNT_def\<close>)

interpretation temporal_transition: ranker "\<lambda>(s, c). temporal_transition_rank p s c" "\<lambda>_. temporal_ok p" for p
proof
  fix s :: "temporal_sample \<times> int counter"
  assume "temporal_ok p"
  then obtain scores where "temporal_scores p (fst s) = Inr scores" using temporal_scores_ok by blast
  then show "\<exists>r. (case s of (s, c) \<Rightarrow> temporal_transition_rank p s c) = Inr r \<and> is_permutation r"
    by (simp add: temporal_transition_rank_def case_prod_unfold)
qed

lemma temporal_transition_fit_ok:
  assumes "\<forall>s \<in> set samples. set (ts_target_expert_ids s) \<subseteq> {0..<128}"
  shows "temporal_ok (temporal_transition_fit samples)"
proof -
  let ?ok = "\<lambda>rows :: (int, int counter) dict. \<forall>s. row_ok (dict_get rows s []) \<and> fst ` set (dict_get rows s []) \<subseteq> {0..<128}"
  have inner: "?ok (foldl (\<lambda>rows source. dict_set source (counter_update (dict_get rows source []) ts) rows) rows sources)"
    if "?ok rows" "set ts \<subseteq> {0..<128}" for rows sources ts
    using that by (induction sources arbitrary: rows) (auto simp: dict_get_set row_ok_update keys_counter_update)
  have "temporal_ok (foldl (\<lambda>p s.
     \<lparr>tt_transitions = foldl (\<lambda>rows source.
          dict_set source (counter_update (dict_get rows source []) (ts_target_expert_ids s)) rows)
        (tt_transitions p) (ts_source_expert_ids s),
      tt_target_frequency = counter_update (tt_target_frequency p) (ts_target_expert_ids s)\<rparr>) p samples)"
    if "temporal_ok p" for p
    using that assms by (induction samples arbitrary: p) (simp_all add: inner temporal_ok_def)
  from this [of "\<lparr>tt_transitions = [], tt_target_frequency = []\<rparr>"] show ?thesis
    by (simp add: temporal_transition_fit_def temporal_ok_def)
qed

text \<open>Session counts a float can hold: bounded by the demands counted so far.\<close>

definition session_ok :: "int counter \<Rightarrow> bool" where
  "session_ok c \<longleftrightarrow> (\<forall>(k, n) \<in> set c. 0 \<le> n \<and> n \<le> 2 ^ 1000)"

lemma session_scale_bounds:
  assumes "session_ok c"
  shows "0 < session_scale c \<and> session_scale c \<le> 2 ^ 1000"
proof -
  have m: "foldl max v vs \<in> set (v # vs)" for v :: int and vs
    by (induction vs arbitrary: v) (auto simp: max_def split: if_splits)
  show ?thesis
  proof (cases "map snd c")
    case Nil
    then show ?thesis by (simp add: session_scale_def)
  next
    case (Cons v vs)
    have "foldl max v vs \<in> set (map snd c)" using m [of v vs] Cons by simp
    then have "0 \<le> foldl max v vs \<and> foldl max v vs \<le> 2 ^ 1000" using assms by (auto simp: session_ok_def)
    then show ?thesis by (auto simp: session_scale_def Cons Let_def)
  qed
qed

lemma fdiv_ok: "y \<noteq> Fin 0 \<Longrightarrow> \<exists>z. fdiv x y = Inr z"
  by (simp add: fdiv_def)

lemma float_of_int_nonzero: "0 < n \<Longrightarrow> n \<le> 2 ^ 1000 \<Longrightarrow> \<exists>r. float_of_int n = Inr (Fin r) \<and> r \<noteq> 0"
  using float_of_int_pos [of n] by force

lemma session_count_finite:
  assumes "session_ok c"
  shows "\<exists>r. float_of_int (counter_get c x) = Inr (Fin r)"
proof -
  have "0 \<le> counter_get c x \<and> counter_get c x \<le> 2 ^ 1000"
    using assms dict_get_default_or_in [of c x 0] by (auto simp: session_ok_def counter_get_def)
  then show ?thesis using float_of_int_finite [of "counter_get c x"] by blast
qed

lemma combined_score_ok:
  assumes "session_ok c" and "scale \<noteq> Fin 0"
  shows "is_ok (combined_score weights scores scale (session_scale c) current c x)"
proof -
  obtain a b d where w: "weights = (a, b, d)" by (cases weights)
  obtain divisor where "float_of_int (session_scale c) = Inr (Fin divisor)" "divisor \<noteq> 0"
    using float_of_int_nonzero session_scale_bounds [OF assms(1)] by blast
  moreover obtain seen where "float_of_int (counter_get c x) = Inr (Fin seen)"
    using session_count_finite [OF assms(1)] by blast
  ultimately show ?thesis
    using assms(2) by (auto simp: combined_score_def w is_ok_rbind fdiv_def)
qed

lemma combined_rank_ok:
  assumes "temporal_ok (tc_transition p)" and "session_ok c"
  shows "\<exists>r. combined_rank p s c = Inr r \<and> is_permutation r"
proof -
  obtain ts where ts: "temporal_scores (tc_transition p) s = Inr ts" using temporal_scores_ok [OF assms(1)] by blast
  have "or_one x \<noteq> Fin 0" for x by (simp add: or_one_def)
  then obtain scores where "rmap (combined_score (tc_weights p) ts (or_one (py_max_list ts)) (session_scale c)
      (ts_source_expert_ids s) c) experts = Inr scores"
    using rmap_ex combined_score_ok [OF assms(2)] by metis
  then show ?thesis by (simp add: combined_rank_def ts)
qed

interpretation combined: ranker "\<lambda>(s, c). combined_rank p s c" "\<lambda>(s, c). temporal_ok (tc_transition p) \<and> session_ok c" for p
  by unfold_locales (auto intro: combined_rank_ok)

section \<open>Ranking a sequence\<close>

text \<open>The session counts before sample \<open>i\<close>: the sources of its conversation so far, itself included.\<close>

lemma rank_step_rankings:
  "rank_step rank s sample = Inr s' \<Longrightarrow> \<exists>r. rk_rankings s' = rk_rankings s @ [r] \<and> is_permutation r"
  by (auto simp: rank_step_def rbind_eq_Inr split: if_splits)

lemma rank_run_prefix:
  "rfold (rank_step rank) s samples = Inr s' \<Longrightarrow>
     \<exists>rs. rk_rankings s' = rk_rankings s @ rs \<and> length rs = length samples"
proof (induction samples arbitrary: s)
  case (Cons sample samples)
  then obtain t where t: "rank_step rank s sample = Inr t" "rfold (rank_step rank) t samples = Inr s'"
    by (auto simp: rbind_eq_Inr)
  from rank_step_rankings [OF t(1)] Cons.IH [OF t(2)] show ?case by (metis append.assoc append_Cons append_Nil length_Cons)
qed simp

abbreviation rank_start :: rank_state where
  "rank_start \<equiv> \<lparr>rk_conversation = None, rk_session_counts = [], rk_previous = None, rk_rankings = []\<rparr>"

text \<open>The loop never sees a broken chain: what it knows of the last sample.\<close>

definition rank_inv :: "temporal_sample list \<Rightarrow> rank_state \<Rightarrow> bool" where
  "rank_inv seen s \<longleftrightarrow> length (rk_rankings s) = length seen \<and> (\<forall>r \<in> set (rk_rankings s). is_permutation r)
     \<and> (if seen = [] then rk_conversation s = None
        else rk_conversation s = Some (ts_conversation_id (last seen)) \<and> rk_previous s = Some (last seen))
     \<and> (\<forall>(k, n) \<in> set (rk_session_counts s). 0 \<le> n \<and> n \<le> int (length (concat (map ts_source_expert_ids seen))))"

lemma counter_update_bound:
  assumes "\<forall>(k, n) \<in> set c. 0 \<le> n \<and> n \<le> b" and "0 \<le> b"
  shows "\<forall>(k, n) \<in> set (counter_update c ks). 0 \<le> n \<and> n \<le> b + int (length ks)"
  using assms
proof (induction ks arbitrary: c b)
  case Nil
  then show ?case by (auto simp: counter_update_def)
next
  case (Cons k ks)
  have "0 \<le> counter_get c k \<and> counter_get c k \<le> b"
    using Cons.prems dict_get_default_or_in [of c k 0] by (auto simp: counter_get_def)
  then have "\<forall>(k, n) \<in> set (counter_inc c k). 0 \<le> n \<and> n \<le> b + 1"
    using Cons.prems set_dict_set [of k "counter_get c k + 1" c] by (fastforce simp: counter_inc_def)
  from Cons.IH [OF this] Cons.prems(2) show ?case
    by (auto simp: counter_update_def algebra_simps)
qed

lemma pairs_snoc: "xs \<noteq> [] \<Longrightarrow> (last xs, x) \<in> set (pairs (xs @ [x]))"
proof (induction xs)
  case (Cons a xs)
  then show ?case by (cases xs) (auto simp: pairs_def)
qed simp

lemma rank_step_total:
  assumes "rank_inv seen s" and "chained (seen @ [x])"
    and "\<And>c. session_ok c \<Longrightarrow> \<exists>r. rank x c = Inr r \<and> is_permutation r"
    and "int (length (concat (map ts_source_expert_ids (seen @ [x])))) \<le> 2 ^ 1000"
  shows "\<exists>s'. rank_step rank s x = Inr s' \<and> rank_inv (seen @ [x]) s'"
proof -
  let ?c = "next_counts s x"
  let ?b = "int (length (concat (map ts_source_expert_ids seen)))"
  have bound: "\<forall>(k, n) \<in> set ?c. 0 \<le> n \<and> n \<le> ?b + int (length (ts_source_expert_ids x))"
    unfolding next_counts_def using assms(1) by (intro counter_update_bound) (auto simp: rank_inv_def)
  then have "session_ok ?c" using assms(4) by (fastforce simp: session_ok_def)
  then obtain r where r: "rank x ?c = Inr r" "is_permutation r" using assms(3) by blast
  have "\<not> broken_chain s x"
  proof
    assume "broken_chain s x"
    then obtain p where p: "rk_conversation s = Some (ts_conversation_id x)" "rk_previous s = Some p"
      "ts_source_expert_ids x \<noteq> ts_target_expert_ids p"
      by (auto simp: broken_chain_def same_conversation_def split: option.splits)
    then have ne: "seen \<noteq> []" using assms(1) by (auto simp: rank_inv_def)
    then have last: "p = last seen" "ts_conversation_id (last seen) = ts_conversation_id x"
      using p assms(1) by (auto simp: rank_inv_def)
    have "(last seen, x) \<in> set (pairs (seen @ [x]))" using ne by (rule pairs_snoc)
    then show False using assms(2) last p(3) by (auto simp: chained_def)
  qed
  then have "rank_step rank s x = Inr \<lparr>rk_conversation = Some (ts_conversation_id x), rk_session_counts = ?c,
      rk_previous = Some x, rk_rankings = rk_rankings s @ [r]\<rparr>"
    using r by (simp add: rank_step_def)
  moreover have "rank_inv (seen @ [x]) \<lparr>rk_conversation = Some (ts_conversation_id x), rk_session_counts = ?c,
      rk_previous = Some x, rk_rankings = rk_rankings s @ [r]\<rparr>"
    using assms(1) r(2) bound by (auto simp: rank_inv_def)
  ultimately show ?thesis by blast
qed

lemma chained_take: "chained (xs @ ys) \<Longrightarrow> chained xs"
proof -
  have "set (pairs xs) \<subseteq> set (pairs (xs @ ys))"
  proof (induction xs)
    case (Cons x xs)
    then show ?case by (cases xs) (auto simp: pairs_def)
  qed (simp add: pairs_def)
  then show "chained (xs @ ys) \<Longrightarrow> chained xs" by (auto simp: chained_def)
qed

lemma rank_run_total:
  assumes "chained samples" and "\<And>x c. x \<in> set samples \<Longrightarrow> session_ok c \<Longrightarrow> \<exists>r. rank x c = Inr r \<and> is_permutation r"
    and "int (length (concat (map ts_source_expert_ids samples))) \<le> 2 ^ 1000"
  shows "\<exists>s. rfold (rank_step rank) rank_start samples = Inr s \<and> rank_inv samples s"
  using assms
proof (induction samples rule: rev_induct)
  case Nil
  then show ?case by (simp add: rank_inv_def)
next
  case (snoc x samples)
  have "int (length (concat (map ts_source_expert_ids samples)))
      \<le> int (length (concat (map ts_source_expert_ids (samples @ [x]))))" by simp
  then obtain s where s: "rfold (rank_step rank) rank_start samples = Inr s" "rank_inv samples s"
    using snoc.IH snoc.prems chained_take [OF snoc.prems(1)] by fastforce
  obtain s' where "rank_step rank s x = Inr s'" "rank_inv (samples @ [x]) s'"
    using rank_step_total [OF s(2) snoc.prems(1) _ snoc.prems(3), of rank] snoc.prems(2) [of x] by auto
  with s(1) show ?case by (simp add: rfold_append)
qed

section \<open>Optimality of the frequency ranking\<close>

lemma sort_prefix_dominates:
  assumes "x \<in> set (take w (sort_key f xs))" and "y \<in> set xs" and "y \<notin> set (take w (sort_key f xs))"
  shows "f x \<le> f y"
proof -
  let ?ys = "sort_key f xs"
  obtain i where i: "i < w" "i < length ?ys" "?ys ! i = x" using assms(1) by (auto simp: in_set_conv_nth)
  obtain j where j: "j < length ?ys" "?ys ! j = y"
    using assms(2) by (metis in_set_conv_nth set_sort)
  have "\<not> j < w" using assms(3) j by (auto simp: in_set_conv_nth)
  then have "map f ?ys ! i \<le> map f ?ys ! j" using i j(1) by (intro sorted_nth_mono sorted_sort_key) auto
  then show ?thesis using i j by simp
qed

definition layer_targets :: "prediction_sample list \<Rightarrow> int \<Rightarrow> int list" where
  "layer_targets samples l = concat (map smp_target_expert_ids (filter (\<lambda>s. smp_target_layer s = l) samples))"

lemma frequency_fit_counts:
  "counter_get (dict_get (fp_counts (frequency_fit samples)) l []) x = int (count_list (layer_targets samples l) x)"
  by (induction samples rule: rev_induct)
    (auto simp: frequency_fit_def layer_targets_def dict_get_set counter_get_update count_list_append)

lemma frequency_prefix_optimal:
  assumes "finite R" and "card R \<le> w" and "w \<le> 128" and "set (layer_targets samples (smp_target_layer s)) \<subseteq> {0..<128}"
  shows "length (filter (\<lambda>x. x \<in> R) (layer_targets samples (smp_target_layer s)))
    \<le> length (filter (\<lambda>x. x \<in> set (take w (frequency_rank (frequency_fit samples) s))) (layer_targets samples (smp_target_layer s)))"
proof -
  let ?L = "layer_targets samples (smp_target_layer s)" and ?r = "frequency_rank (frequency_fit samples) s"
  let ?T = "set (take w ?r)" and ?c = "counter_get (dict_get (fp_counts (frequency_fit samples)) (smp_target_layer s) [])"
  have r: "?r = sort_key (\<lambda>x. (- ?c x, x)) experts" by (simp add: frequency_rank_def Let_def)
  have cnt: "?c x = int (count_list ?L x)" for x by (rule frequency_fit_counts)
  have T: "card ?T = w"
    using frequency.prefix_distinct [of "frequency_fit samples" s ?r w] assms(3) distinct_card by fastforce
  have "sum ?c (R \<inter> {0..<128}) \<le> sum ?c ?T"
  proof (rule sum_exchange)
    show "card (R \<inter> {0..<128}) \<le> card ?T"
      using assms(1,2) T card_mono [of R "R \<inter> {0..<128}"] by simp
    fix x y assume x: "x \<in> ?T" and y: "y \<in> R \<inter> {0..<128} - ?T"
    then have "(- ?c x, x) \<le> (- ?c y, y)"
      unfolding r by (intro sort_prefix_dominates) auto
    then show "?c y \<le> ?c x" by (auto simp: less_eq_prod_def)
  qed (use assms(1) in \<open>auto simp: cnt\<close>)
  moreover have "int (length (filter (\<lambda>x. x \<in> R) ?L)) = sum ?c (R \<inter> {0..<128})"
  proof -
    have "filter (\<lambda>x. x \<in> R) ?L = filter (\<lambda>x. x \<in> R \<inter> {0..<128}) ?L"
      using assms(4) by (auto intro!: filter_cong)
    then show ?thesis using length_filter_sum_count [of "R \<inter> {0..<128}" ?L] assms(1) by (simp add: cnt)
  qed
  moreover have "int (length (filter (\<lambda>x. x \<in> ?T) ?L)) = sum ?c ?T"
    using length_filter_sum_count [of ?T ?L] by (simp add: cnt)
  ultimately show ?thesis by simp
qed

section \<open>Properties\<close>

text \<open>
  The frequency ranker is optimal on what it was fitted on: for every width, no choice of that
  many experts covers more of the training targets of the sample's layer than the first entries of
  its ranking.
\<close>

theorem frequency_ranking_optimal:
  assumes "finite R" and "card R \<le> w" and "w \<le> 128"
    and "\<forall>s \<in> set samples. set (smp_target_expert_ids s) \<subseteq> {0..<128}"
  shows "length (filter (\<lambda>x. x \<in> R) (layer_targets samples (smp_target_layer s)))
    \<le> length (filter (\<lambda>x. x \<in> set (take w (frequency_rank (frequency_fit samples) s))) (layer_targets samples (smp_target_layer s)))"
  by (rule frequency_prefix_optimal) (use assms in \<open>auto simp: layer_targets_def\<close>)

definition example_sample :: "int \<Rightarrow> int list \<Rightarrow> int list \<Rightarrow> prediction_sample" where
  "example_sample layer source target = \<lparr>smp_conversation_id = ''c'', smp_split = ''train'', smp_domain = ''code'',
     smp_phase = ''decode'', smp_forward_id = 0, smp_token_index = 0, smp_token_id = 0, smp_source_layer = layer,
     smp_target_layer = layer + 1, smp_source_expert_ids = source, smp_target_expert_ids = target,
     smp_source_expert_weights = None, smp_source_vector = [], smp_previous_target_vector = None\<rparr>"

lemma example_sample_simps [simp]:
  "smp_source_layer (example_sample l xs ys) = l" "smp_target_layer (example_sample l xs ys) = l + 1"
  "smp_source_expert_ids (example_sample l xs ys) = xs" "smp_target_expert_ids (example_sample l xs ys) = ys"
  "smp_phase (example_sample l xs ys) = ''decode''" "smp_conversation_id (example_sample l xs ys) = ''c''"
  "smp_domain (example_sample l xs ys) = ''code''"
  by (simp_all add: example_sample_def)

lemma frequency_ranking_optimal_witness:
  "length (filter (\<lambda>x. x \<in> {7}) [5, 6, 5 :: int])
    \<le> length (filter (\<lambda>x. x \<in> set (take 1 (frequency_rank (frequency_fit
        [example_sample 3 [1] [5, 6], example_sample 3 [2] [5]]) (example_sample 3 [1] [])))) [5, 6, 5])"
proof -
  have L: "layer_targets [example_sample 3 [1] [5, 6], example_sample 3 [2] [5]] (smp_target_layer (example_sample 3 [1] [])) = [5, 6, 5]"
    by (simp add: layer_targets_def)
  show ?thesis
    using frequency_ranking_optimal [of "{7}" 1 "[example_sample 3 [1] [5, 6], example_sample 3 [2] [5]]" "example_sample 3 [1] []"]
    unfolding L by simp
qed

text \<open>
  A transition ranker fitted on any samples, with either weighting and either phase mode,
  returns a permutation of the 128 experts for every sample.
\<close>

theorem transition_rank_permutation:
  assumes "transition_fit samples weighting phase_mode = Inr p"
  shows "\<exists>r. transition_rank p s = Inr r \<and> is_permutation r"
  by (rule transition.rank_permutation) (rule transition_fit_ok [OF assms])

lemma transition_rank_permutation_witness:
  "\<exists>p r. transition_fit [example_sample 3 [1] [5, 6]] ''source_normalized'' ''separate'' = Inr p
    \<and> transition_rank p (example_sample 3 [1] []) = Inr r \<and> is_permutation r"
proof -
  obtain p where p: "transition_fit [example_sample 3 [1] [5, 6]] ''source_normalized'' ''separate'' = Inr p"
    by (simp add: transition_fit_def)
  from transition_rank_permutation [OF p] p show ?thesis by blast
qed

text \<open>
  Ranking is causal: the rankings of a sequence of temporal samples are a prefix of the
  rankings of any longer sequence the loop accepts, so a ranking never depends on a later sample.
\<close>

theorem temporal_ranking_causal:
  assumes "rank_temporal_samples rank (earlier @ later) = Inr rankings"
  shows "rank_temporal_samples rank earlier = Inr (take (length earlier) rankings)"
proof -
  obtain s t where s: "rfold (rank_step rank) rank_start earlier = Inr s"
    and t: "rfold (rank_step rank) s later = Inr t" and r: "rankings = rk_rankings t"
    using assms by (auto simp: rank_temporal_samples_def rfold_append rbind_eq_Inr)
  from rank_run_prefix [OF s] have "length (rk_rankings s) = length earlier" by auto
  with rank_run_prefix [OF t] have "take (length earlier) rankings = rk_rankings s" by (auto simp: r)
  then show ?thesis by (simp add: rank_temporal_samples_def s)
qed

definition example_temporal :: "int \<Rightarrow> int list \<Rightarrow> int list \<Rightarrow> temporal_sample" where
  "example_temporal forward source target = \<lparr>ts_conversation_id = ''c'', ts_split = ''test'', ts_domain = ''code'',
     ts_request_id = ''r'', ts_turn_index = 0, ts_phase = ''decode'', ts_layer_id = 24, ts_source_forward_id = forward,
     ts_target_forward_id = forward + 1, ts_source_token_index = 0, ts_target_token_index = 1, ts_source_token_id = 7,
     ts_target_token_id = 7, ts_source_hook_order = 0, ts_target_hook_order = 1,
     ts_source_expert_ids = source, ts_target_expert_ids = target\<rparr>"

lemma temporal_ranking_causal_witness:
  "\<exists>rankings. rank_temporal_samples (\<lambda>s c. Inr (session_rank s c))
      ([example_temporal 0 [3, 4] [4, 9]] @ [example_temporal 1 [4, 9] [1, 2]]) = Inr rankings
    \<and> rank_temporal_samples (\<lambda>s c. Inr (session_rank s c)) [example_temporal 0 [3, 4] [4, 9]] = Inr (take 1 rankings)"
proof -
  let ?xs = "[example_temporal 0 [3, 4] [4, 9]] @ [example_temporal 1 [4, 9] [1, 2]]" and ?rank = "\<lambda>s c. Inr (session_rank s c)"
  have chain: "chained ?xs" by (simp add: chained_def pairs_def example_temporal_def)
  have perm: "\<exists>r. ?rank x c = Inr r \<and> is_permutation r" for x c by (simp add: session_rank_def Let_def)
  have "int (length (concat (map ts_source_expert_ids ?xs))) \<le> 2 ^ 1000" by (simp add: example_temporal_def)
  from rank_run_total [of ?xs ?rank, OF chain perm this] obtain s where "rfold (rank_step ?rank) rank_start ?xs = Inr s" by blast
  then have r: "rank_temporal_samples ?rank ?xs = Inr (rk_rankings s)"
    by (simp only: rank_temporal_samples_def rbind_Inr)
  have "length [example_temporal 0 [3, 4] [4, 9]] = 1" by simp
  from temporal_ranking_causal [OF r, unfolded this] r show ?thesis by blast
qed

text \<open>
  The samples of a loaded temporal dataset can be ranked: for a combined ranker fitted on the
  training split, the loop neither finds a broken chain nor a ranking that is not a permutation,
  and returns one permutation per sample.
\<close>

theorem loaded_samples_rank:
  assumes "load_temporal_dataset traces manifest split_counts domain_counts hashes materialize = Inr ds"
    and "split \<in> set SPLITS"
    and "combined_init float_sum (temporal_transition_fit (td_train ds)) weights = Inr p"
    and "8 * int (length (temporal_split_samples ds split)) \<le> 2 ^ 1000"
  shows "\<exists>rankings. rank_temporal_samples (combined_rank p) (temporal_split_samples ds split) = Inr rankings
    \<and> length rankings = length (temporal_split_samples ds split) \<and> (\<forall>r \<in> set rankings. is_permutation r)"
proof -
  let ?samples = "temporal_split_samples ds split"
  have pairs: "\<forall>s \<in> set (temporal_split_samples ds split). decode_pair s" if "split \<in> set SPLITS" for split
    using temporal_dataset_facts [OF assms(1) that] by blast
  have chain: "chained ?samples" using temporal_dataset_facts [OF assms(1,2)] by blast
  have "temporal_split_samples ds ''train'' = td_train ds" by (simp add: temporal_split_samples_def)
  then have "\<forall>s \<in> set (td_train ds). set (ts_target_expert_ids s) \<subseteq> {0..<128}"
    using pairs [of "''train''"] by (fastforce simp: decode_pair_def SPLITS_def)
  then have tok: "temporal_ok (tc_transition p)"
    using assms(3) temporal_transition_fit_ok by (auto simp: combined_init_def split: prod.splits if_splits)
  have "length (concat (map ts_source_expert_ids xs)) = 8 * length xs" if "\<forall>s \<in> set xs. decode_pair s" for xs
    using that by (induction xs) (auto simp: decode_pair_def)
  then have "int (length (concat (map ts_source_expert_ids ?samples))) \<le> 2 ^ 1000"
    using pairs [OF assms(2)] assms(4) by simp
  from rank_run_total [OF chain _ this, of "combined_rank p"] combined_rank_ok [OF tok] obtain s
    where "rfold (rank_step (combined_rank p)) rank_start ?samples = Inr s" "rank_inv ?samples s" by blast
  then show ?thesis by (auto simp: rank_temporal_samples_def rank_inv_def)
qed

lemma example_weights:
  "combined_init (foldl fadd (Fin 0)) t (Fin 1, Fin 0, Fin 0) = Inr \<lparr>tc_transition = t, tc_weights = (Fin 1, Fin 0, Fin 0)\<rparr>"
proof -
  have "dbl 0 \<le> dbl (1 / 10 ^ 12)" by (rule dbl_mono) simp
  then have "\<not> py_less (dbl (1 / 10 ^ 12)) (Fin 0)" by (auto simp: py_less_def)
  then show ?thesis by (simp add: combined_init_def py_less_def fsub_def fabs_def)
qed

lemma loaded_samples_rank_witness:
  "\<exists>ds p rankings. load_temporal_dataset decode_traces example_manifest (Some [(''test'', 1), (''train'', 1)]) None False
      (Some [''train'']) = Inr ds
    \<and> combined_init (foldl fadd (Fin 0)) (temporal_transition_fit (td_train ds)) (Fin 1, Fin 0, Fin 0) = Inr p
    \<and> rank_temporal_samples (combined_rank p) (temporal_split_samples ds ''train'') = Inr rankings
    \<and> length rankings = 2"
proof -
  obtain ds where ds: "load_temporal_dataset decode_traces example_manifest (Some [(''test'', 1), (''train'', 1)]) None False
      (Some [''train'']) = Inr ds" "length (td_train ds) = 2"
    using example_temporal_dataset by blast
  have split: "''train'' \<in> set SPLITS" by (simp add: SPLITS_def)
  have len: "length (temporal_split_samples ds ''train'') = 2"
    using ds(2) unfolding temporal_split_samples_def if_P [OF refl] .
  then have "8 * int (length (temporal_split_samples ds ''train'')) \<le> 2 ^ 1000" by simp
  from loaded_samples_rank [OF ds(1) split example_weights this] ds(1) len example_weights
  show ?thesis by metis
qed

text \<open>
  The check of the combined weights, non-negative with sum one, lets a NaN through: every
  comparison with it is false, so weights that are all NaN are accepted.
\<close>

theorem combined_init_accepts_nan:
  assumes "float_sum [NaN, NaN, NaN] = NaN"
  shows "combined_init float_sum t (NaN, NaN, NaN) = Inr \<lparr>tc_transition = t, tc_weights = (NaN, NaN, NaN)\<rparr>"
  using assms by (simp add: combined_init_def py_less_def fsub_def fabs_def)

lemma combined_init_accepts_nan_witness:
  "combined_init (foldl fadd (Fin 0)) (temporal_transition_fit []) (NaN, NaN, NaN)
    = Inr \<lparr>tc_transition = temporal_transition_fit [], tc_weights = (NaN, NaN, NaN)\<rparr>"
  by (rule combined_init_accepts_nan) simp

end
