(* ===== verification/Shadow.thy ===== *)
theory Shadow
  imports Ranking
begin

text \<open>
  \<open>predictor/shadow.py\<close> and \<open>predictor/temporal_shadow.py\<close>: a reactive LRU cache and a shadow
  cache that also admits predicted experts before each demand, reset at every conversation. Both
  copies of \<open>_demand\<close> interpret the interface \<open>lru_cache\<close> of Recency. Counters that the code
  keeps in a \<open>defaultdict(int)\<close> are the fields of \<open>shadow_totals\<close>; a counter the code never
  touched is zero here and absent from its report. The lemmas show that no \<open>popitem\<close> fails, that
  caches stay within the capacity, that every demand is counted once as ready or blocking, and
  that useful, wasted and evicted insertions balance.
\<close>

section \<open>The demand operation\<close>

definition shadow_demand :: "int \<Rightarrow> int list \<Rightarrow> int \<Rightarrow> (bool \<times> int list) res" where
  "shadow_demand capacity cache expert =
     (let hit = expert \<in> set cache in
      if hit then Inr (hit, move_to_end expert cache)
      else rbind (if capacity \<le> int (length cache)
          then (case cache of [] \<Rightarrow> Inl KeyError | _ # rest \<Rightarrow> Inr rest) else Inr cache)
        (\<lambda>cache'. Inr (hit, od_insert expert cache')))"

definition temporal_demand :: "int \<Rightarrow> int list \<Rightarrow> int \<Rightarrow> (bool \<times> int list) res" where
  "temporal_demand capacity cache expert =
     (let hit = expert \<in> set cache in
      if hit then Inr (hit, move_to_end expert cache)
      else rbind (if capacity \<le> int (length cache)
          then (case cache of [] \<Rightarrow> Inl KeyError | _ # rest \<Rightarrow> Inr rest) else Inr cache)
        (\<lambda>cache'. Inr (hit, od_insert expert cache')))"

lemma shadow_demand_impl: "shadow_demand capacity cache expert = demand_impl capacity cache expert"
  by (auto simp: shadow_demand_def demand_impl_def Let_def split: list.splits)

lemma temporal_demand_impl: "temporal_demand capacity cache expert = demand_impl capacity cache expert"
  by (auto simp: temporal_demand_def demand_impl_def Let_def split: list.splits)

interpretation shadow_cache: lru_cache "shadow_demand (int (Suc n))" "Suc n" for n
  by unfold_locales (simp only: shadow_demand_impl demand_impl_step)

interpretation temporal_cache: lru_cache "temporal_demand (int (Suc n))" "Suc n" for n
  by unfold_locales (simp only: temporal_demand_impl demand_impl_step)

section \<open>Counters\<close>

record shadow_totals =
  st_rejected_candidates :: int
  st_demand_count :: int
  st_reactive_hits :: int
  st_additional_evictions :: int
  st_eviction_regret :: int
  st_useful_insertions :: int
  st_wasted_insertions :: int
  st_ready :: int
  st_predicted_ready :: int
  st_uncovered_misses :: int

definition shadow_totals_zero :: shadow_totals where
  "shadow_totals_zero = \<lparr>st_rejected_candidates = 0, st_demand_count = 0, st_reactive_hits = 0,
     st_additional_evictions = 0, st_eviction_regret = 0, st_useful_insertions = 0,
     st_wasted_insertions = 0, st_ready = 0, st_predicted_ready = 0, st_uncovered_misses = 0\<rparr>"

text \<open>\<open>sum(expert in cache for expert in target)\<close> over the set \<open>target\<close>.\<close>

definition hits_in :: "int list \<Rightarrow> int set \<Rightarrow> int" where
  "hits_in cache target = int (card (target \<inter> set cache))"

definition misses_in :: "int list \<Rightarrow> int set \<Rightarrow> int" where
  "misses_in cache target = int (card (target - set cache))"

text \<open>A predicted expert that is not resident is inserted, dropping the oldest one of a full cache.\<close>

definition insert_predicted ::
    "int \<Rightarrow> int set \<Rightarrow> int list \<times> shadow_totals \<Rightarrow> int \<Rightarrow> (int list \<times> shadow_totals) res" where
  "insert_predicted capacity target s expert =
     (let (cache, t) = s in
      rbind (if capacity \<le> int (length cache) then
          (case cache of [] \<Rightarrow> Inl KeyError
           | victim # rest \<Rightarrow> Inr (rest, t\<lparr>st_additional_evictions := st_additional_evictions t + 1,
               st_eviction_regret := st_eviction_regret t + (if victim \<in> target then 1 else 0)\<rparr>))
          else Inr (cache, t))
        (\<lambda>(cache', t'). Inr (od_insert expert cache',
          (if expert \<in> target then t'\<lparr>st_useful_insertions := st_useful_insertions t' + 1\<rparr>
           else t'\<lparr>st_wasted_insertions := st_wasted_insertions t' + 1\<rparr>))))"

section \<open>Adjacent-layer shadow\<close>

record shadow_state =
  sh_reactive :: "(int, int list) dict"
  sh_shadow :: "(int, int list) dict"
  sh_conversation :: "string option"
  sh_totals :: shadow_totals

definition shadow_initial :: shadow_state where
  "shadow_initial = \<lparr>sh_reactive = [], sh_shadow = [], sh_conversation = None, sh_totals = shadow_totals_zero\<rparr>"

text \<open>A resident candidate keeps its place in the recency order.\<close>

definition speculate ::
    "int \<Rightarrow> int set \<Rightarrow> int list \<times> shadow_totals \<Rightarrow> int \<Rightarrow> (int list \<times> shadow_totals) res" where
  "speculate capacity target s expert =
     (if expert \<in> set (fst s) then Inr s else insert_predicted capacity target s expert)"

text \<open>Both caches see each demanded expert, the reactive one first.\<close>

definition demand_both ::
    "(int list \<Rightarrow> int \<Rightarrow> (bool \<times> int list) res) \<Rightarrow> int list \<times> int list \<Rightarrow> int \<Rightarrow> (int list \<times> int list) res" where
  "demand_both demand s expert = (let (reactive, shadow) = s in
     rbind (demand reactive expert) (\<lambda>(_, reactive').
     rbind (demand shadow expert) (\<lambda>(_, shadow'). Inr (reactive', shadow'))))"

definition shadow_row ::
    "int \<Rightarrow> int \<Rightarrow> shadow_state \<Rightarrow> prediction_sample \<times> int list \<times> int list option \<Rightarrow> shadow_state res" where
  "shadow_row width capacity s row =
     (let (sample, ranking, admitted) = row;
          fresh = (sh_conversation s \<noteq> Some (smp_conversation_id sample));
          reactives = (if fresh then [] else sh_reactive s);
          shadows = (if fresh then [] else sh_shadow s);
          target = set (smp_target_expert_ids sample);
          l = smp_target_layer sample;
          reactive = dict_get reactives l []; shadow = dict_get shadows l [];
          prefix = take (nat width) ranking;
          candidates = (case admitted of None \<Rightarrow> prefix | Some xs \<Rightarrow> xs);
          t = sh_totals s
      in if \<not> set candidates \<subseteq> set prefix
         then Inl (ValueError ''admitted candidates must come from the selected ranking prefix'')
         else rbind (rfold (speculate capacity target) (shadow,
             t\<lparr>st_rejected_candidates := st_rejected_candidates t + (width - int (length candidates)),
               st_demand_count := st_demand_count t + int (card target),
               st_reactive_hits := st_reactive_hits t + hits_in reactive target\<rparr>) candidates)
           (\<lambda>(shadow', t').
           rbind (rfold (demand_both (shadow_demand capacity)) (reactive, shadow')
               (smp_target_expert_ids sample)) (\<lambda>(reactive'', shadow'').
             Inr \<lparr>sh_reactive = dict_set l reactive'' reactives, sh_shadow = dict_set l shadow'' shadows,
               sh_conversation = Some (smp_conversation_id sample),
               sh_totals = t'\<lparr>st_ready := st_ready t' + hits_in shadow' target,
                 st_predicted_ready := st_predicted_ready t'
                   + int (card (target \<inter> set candidates - set shadow)),
                 st_uncovered_misses := st_uncovered_misses t' + misses_in shadow' target\<rparr>\<rparr>)))"

record shadow_report =
  sr_totals :: shadow_totals
  sr_late_predictions :: int
  sr_useful_bytes :: int
  sr_wasted_bytes :: int
  sr_reactive_blocking_misses :: int
  sr_ready_improvement :: int
  sr_candidate_width :: int
  sr_capacity :: int
  sr_expert_bytes :: int

definition shadow_report_of :: "int \<Rightarrow> int \<Rightarrow> int \<Rightarrow> shadow_totals \<Rightarrow> shadow_report" where
  "shadow_report_of width capacity expert_bytes t =
     \<lparr>sr_totals = t, sr_late_predictions = 0,
      sr_useful_bytes = st_useful_insertions t * expert_bytes,
      sr_wasted_bytes = st_wasted_insertions t * expert_bytes,
      sr_reactive_blocking_misses = st_demand_count t - st_reactive_hits t,
      sr_ready_improvement = st_ready t - st_reactive_hits t,
      sr_candidate_width = width, sr_capacity = capacity, sr_expert_bytes = expert_bytes\<rparr>"

definition simulate_shadow ::
    "prediction_sample list \<Rightarrow> int list list \<Rightarrow> int list list option \<Rightarrow> int \<Rightarrow> int \<Rightarrow> int \<Rightarrow> shadow_report res" where
  "simulate_shadow samples rankings admitted_rankings width capacity expert_bytes =
     (if length samples \<noteq> length rankings
      then Inl (ValueError ''samples and rankings must have identical length'')
      else if (case admitted_rankings of None \<Rightarrow> False | Some a \<Rightarrow> length samples \<noteq> length a)
      then Inl (ValueError ''samples and admitted rankings must have identical length'')
      else if width \<notin> {8, 12, 16} \<and> \<not> (1 \<le> width \<and> width \<le> 128)
      then Inl (ValueError ''candidate width is invalid'')
      else if capacity < width
      then Inl (ValueError ''cache capacity must be at least the candidate width'')
      else let admitted = (case admitted_rankings of None \<Rightarrow> map (\<lambda>_. None) samples | Some a \<Rightarrow> map Some a) in
        rbind (rfold (shadow_row width capacity) shadow_initial (zip samples (zip rankings admitted)))
          (\<lambda>s. Inr (shadow_report_of width capacity expert_bytes (sh_totals s))))"

section \<open>Temporal shadow\<close>

record temporal_shadow_state =
  th_reactive :: "int list"
  th_shadow :: "int list"
  th_conversation :: "string option"
  th_previous :: "temporal_sample option"
  th_totals :: shadow_totals

definition temporal_shadow_initial :: temporal_shadow_state where
  "temporal_shadow_initial = \<lparr>th_reactive = [], th_shadow = [], th_conversation = None,
     th_previous = None, th_totals = shadow_totals_zero\<rparr>"

text \<open>A resident candidate becomes the newest.\<close>

definition temporal_speculate ::
    "int \<Rightarrow> int set \<Rightarrow> int list \<times> shadow_totals \<Rightarrow> int \<Rightarrow> (int list \<times> shadow_totals) res" where
  "temporal_speculate capacity target s expert =
     (if expert \<in> set (fst s) then Inr (move_to_end expert (fst s), snd s)
      else insert_predicted capacity target s expert)"

text \<open>The caches before a sample: a new conversation starts from the sample's source experts.\<close>

definition temporal_caches ::
    "int \<Rightarrow> temporal_shadow_state \<Rightarrow> temporal_sample \<Rightarrow> (int list \<times> int list) res" where
  "temporal_caches capacity s sample =
     (if th_conversation s \<noteq> Some (ts_conversation_id sample)
      then rfold (demand_both (temporal_demand capacity)) ([], []) (ts_source_expert_ids sample)
      else case th_previous s of
          None \<Rightarrow> Inr (th_reactive s, th_shadow s)
        | Some p \<Rightarrow>
            if ts_source_expert_ids sample \<noteq> ts_target_expert_ids p
            then Inl (ValueError ''temporal shadow input is not a continuous conversation sequence'')
            else Inr (th_reactive s, th_shadow s))"

definition temporal_shadow_row ::
    "int \<Rightarrow> int \<Rightarrow> temporal_shadow_state \<Rightarrow> temporal_sample \<times> int list \<Rightarrow> temporal_shadow_state res" where
  "temporal_shadow_row width capacity s row =
     (let (sample, ranking) = row; target = set (ts_target_expert_ids sample); t = th_totals s in
      rbind (temporal_caches capacity s sample) (\<lambda>(reactive, shadow).
      rbind (rfold (temporal_speculate capacity target) (shadow,
          t\<lparr>st_demand_count := st_demand_count t + int (card target),
            st_reactive_hits := st_reactive_hits t + hits_in reactive target\<rparr>)
          (take (nat width) ranking)) (\<lambda>(shadow', t').
      let ready = hits_in shadow' target in
      rbind (rfold (demand_both (temporal_demand capacity)) (reactive, shadow')
          (ts_target_expert_ids sample)) (\<lambda>(reactive'', shadow'').
        Inr \<lparr>th_reactive = reactive'', th_shadow = shadow'',
          th_conversation = Some (ts_conversation_id sample), th_previous = Some sample,
          th_totals = t'\<lparr>st_ready := st_ready t' + ready,
            st_uncovered_misses := st_uncovered_misses t' + (int (card target) - ready)\<rparr>\<rparr>))))"

definition simulate_temporal_shadow ::
    "temporal_sample list \<Rightarrow> int list list \<Rightarrow> int \<Rightarrow> int \<Rightarrow> int \<Rightarrow> shadow_report res" where
  "simulate_temporal_shadow samples rankings width capacity expert_bytes =
     (if length samples \<noteq> length rankings
      then Inl (ValueError ''samples and rankings must have identical length'')
      else if \<not> (1 \<le> width \<and> width \<le> 128) \<or> capacity < width
      then Inl (ValueError ''temporal width and capacity are incompatible'')
      else rbind (rfold (temporal_shadow_row width capacity) temporal_shadow_initial (zip samples rankings))
        (\<lambda>s. Inr (shadow_report_of width capacity expert_bytes (th_totals s))))"

section \<open>Accounting of insertions and demands\<close>

definition cache_bounded :: "int \<Rightarrow> int list \<Rightarrow> bool" where
  "cache_bounded capacity cache \<longleftrightarrow> distinct cache \<and> int (length cache) \<le> capacity"

lemma cache_bounded_Nil [simp]: "0 \<le> capacity \<Longrightarrow> cache_bounded capacity []"
  by (simp add: cache_bounded_def)

text \<open>How speculation changes the counters.\<close>

definition speculated :: "shadow_totals \<Rightarrow> shadow_totals \<Rightarrow> bool" where
  "speculated t t' \<longleftrightarrow> st_rejected_candidates t' = st_rejected_candidates t \<and> st_demand_count t' = st_demand_count t
     \<and> st_reactive_hits t' = st_reactive_hits t \<and> st_ready t' = st_ready t
     \<and> st_predicted_ready t' = st_predicted_ready t \<and> st_uncovered_misses t' = st_uncovered_misses t
     \<and> st_useful_insertions t \<le> st_useful_insertions t' \<and> st_wasted_insertions t \<le> st_wasted_insertions t'
     \<and> st_eviction_regret t \<le> st_eviction_regret t'
     \<and> st_eviction_regret t' - st_eviction_regret t \<le> st_additional_evictions t' - st_additional_evictions t
     \<and> st_additional_evictions t' - st_additional_evictions t
         \<le> (st_useful_insertions t' + st_wasted_insertions t') - (st_useful_insertions t + st_wasted_insertions t)"

lemma speculated_refl [simp]: "speculated t t"
  by (simp add: speculated_def)

lemma speculated_trans: "speculated t u \<Longrightarrow> speculated u v \<Longrightarrow> speculated t v"
  unfolding speculated_def by (elim conjE, intro conjI) linarith+

lemma insert_predicted_ok:
  assumes "cache_bounded capacity cache" and "0 < capacity" and "x \<notin> set cache"
  shows "\<exists>t'. insert_predicted capacity target (cache, t) x
      = Inr ((if capacity \<le> int (length cache) then tl cache else cache) @ [x], t') \<and> speculated t t'"
proof (cases "capacity \<le> int (length cache)")
  case True
  then obtain v rest where c: "cache = v # rest" using assms(2) by (cases cache) auto
  then have "x \<notin> set rest" using assms(3) by simp
  then show ?thesis using True by (simp add: insert_predicted_def c od_insert_def speculated_def)
next
  case False
  then show ?thesis using assms(3) by (simp add: insert_predicted_def od_insert_def speculated_def)
qed

lemma insert_predicted_bounded:
  assumes "cache_bounded capacity cache" and "0 < capacity" and "x \<notin> set cache"
  shows "cache_bounded capacity ((if capacity \<le> int (length cache) then tl cache else cache) @ [x])"
proof (cases cache)
  case Nil
  then show ?thesis using assms(2) by (simp add: cache_bounded_def)
next
  case (Cons v rest)
  then show ?thesis using assms by (auto simp: cache_bounded_def)
qed

lemma move_to_end_bounded: "cache_bounded capacity cache \<Longrightarrow> x \<in> set cache \<Longrightarrow> cache_bounded capacity (move_to_end x cache)"
  by (simp add: cache_bounded_def)

lemma speculate_ok:
  assumes "cache_bounded capacity (fst s)" and "0 < capacity"
  shows "\<exists>s'. speculate capacity target s x = Inr s' \<and> cache_bounded capacity (fst s') \<and> speculated (snd s) (snd s')"
    and "\<exists>s'. temporal_speculate capacity target s x = Inr s' \<and> cache_bounded capacity (fst s') \<and> speculated (snd s) (snd s')"
proof -
  obtain cache t where s: "s = (cache, t)" by (cases s)
  have new: "\<exists>s'. insert_predicted capacity target s x = Inr s' \<and> cache_bounded capacity (fst s') \<and> speculated (snd s) (snd s')"
    if "x \<notin> set cache"
    using insert_predicted_ok [of capacity cache x target t] insert_predicted_bounded [of capacity cache x] assms that
    by (fastforce simp: s)
  show "\<exists>s'. speculate capacity target s x = Inr s' \<and> cache_bounded capacity (fst s') \<and> speculated (snd s) (snd s')"
    using assms(1) new by (cases "x \<in> set cache") (auto simp: speculate_def s)
  show "\<exists>s'. temporal_speculate capacity target s x = Inr s' \<and> cache_bounded capacity (fst s') \<and> speculated (snd s) (snd s')"
    using assms(1) new move_to_end_bounded [of capacity cache x]
    by (cases "x \<in> set cache") (auto simp: temporal_speculate_def s)
qed

lemma speculate_run_ok:
  assumes "cache_bounded capacity (fst s)" and "0 < capacity"
    and "step \<in> {speculate capacity target, temporal_speculate capacity target}"
  shows "\<exists>s'. rfold step s xs = Inr s' \<and> cache_bounded capacity (fst s') \<and> speculated (snd s) (snd s')"
proof -
  have "\<exists>s'. rfold step s xs = Inr s' \<and> (cache_bounded capacity (fst s') \<and> speculated (snd s) (snd s'))"
  proof (rule rfold_total)
    fix u x assume "cache_bounded capacity (fst u) \<and> speculated (snd s) (snd u)"
    then show "\<exists>s'. step u x = Inr s' \<and> cache_bounded capacity (fst s') \<and> speculated (snd s) (snd s')"
      using speculate_ok [of capacity u target x] assms(2,3) speculated_trans by blast
  qed (simp add: assms(1))
  then show ?thesis .
qed

text \<open>The demand of one row, through the interface of the LRU caches.\<close>

lemma demand_both_ok:
  assumes "cache_bounded capacity reactive" and "cache_bounded capacity shadow" and "0 < capacity"
    and "demand \<in> {shadow_demand capacity, temporal_demand capacity}"
  shows "\<exists>r' s'. rfold (demand_both demand) (reactive, shadow) xs = Inr (r', s')
    \<and> cache_bounded capacity r' \<and> cache_bounded capacity s'"
proof -
  obtain n where n: "capacity = int (Suc n)" using assms(3) by (metis gr0_conv_Suc zero_less_imp_eq_int)
  have step: "\<exists>c'. demand c k = Inr (k \<in> set c, c') \<and> cache_bounded capacity c'" if "cache_bounded capacity c" for c k
    using shadow_cache.demand_bounded [of c n k] temporal_cache.demand_bounded [of c n k] that assms(4)
    by (auto simp: n cache_bounded_def)
  have "\<exists>s'. rfold (demand_both demand) (reactive, shadow) xs = Inr s'
      \<and> (cache_bounded capacity (fst s') \<and> cache_bounded capacity (snd s'))"
  proof (rule rfold_total)
    fix u x assume "cache_bounded capacity (fst u) \<and> cache_bounded capacity (snd u)"
    then show "\<exists>s'. demand_both demand u x = Inr s' \<and> cache_bounded capacity (fst s') \<and> cache_bounded capacity (snd s')"
      using step [of "fst u" x] step [of "snd u" x] by (auto simp: demand_both_def case_prod_unfold)
  qed (simp add: assms(1,2))
  then show ?thesis by auto
qed

lemma hits_misses: "finite target \<Longrightarrow> hits_in cache target + misses_in cache target = int (card target)"
  unfolding hits_in_def misses_in_def
  by (metis card_Int_Diff of_nat_add)

lemma hits_bounds: "finite target \<Longrightarrow> 0 \<le> hits_in cache target \<and> hits_in cache target \<le> int (card target)"
  by (simp add: hits_in_def card_mono)

text \<open>The invariant of the counters between rows.\<close>

definition totals_ok :: "shadow_totals \<Rightarrow> bool" where
  "totals_ok t \<longleftrightarrow> st_ready t + st_uncovered_misses t = st_demand_count t
     \<and> 0 \<le> st_ready t \<and> st_ready t \<le> st_demand_count t
     \<and> 0 \<le> st_reactive_hits t \<and> st_reactive_hits t \<le> st_demand_count t
     \<and> 0 \<le> st_useful_insertions t \<and> 0 \<le> st_wasted_insertions t
     \<and> 0 \<le> st_eviction_regret t \<and> st_eviction_regret t \<le> st_additional_evictions t
     \<and> st_additional_evictions t \<le> st_useful_insertions t + st_wasted_insertions t"

lemma totals_ok_zero [simp]: "totals_ok shadow_totals_zero"
  by (simp add: totals_ok_def shadow_totals_zero_def)

text \<open>One row: \<open>d\<close> demands of which \<open>h\<close> hit reactively, speculation, then \<open>ready\<close> of them resident.\<close>

lemma totals_ok_row:
  assumes "totals_ok t" and "speculated (t\<lparr>st_rejected_candidates := rej, st_demand_count := st_demand_count t + d,
      st_reactive_hits := st_reactive_hits t + h\<rparr>) t'"
    and "0 \<le> h" and "h \<le> d" and "0 \<le> ready" and "ready \<le> d"
  shows "totals_ok (t'\<lparr>st_ready := st_ready t' + ready, st_predicted_ready := pr,
      st_uncovered_misses := st_uncovered_misses t' + (d - ready)\<rparr>)"
  using assms by (simp add: totals_ok_def speculated_def)

section \<open>Rows\<close>

definition shadow_inv :: "int \<Rightarrow> shadow_state \<Rightarrow> bool" where
  "shadow_inv capacity s \<longleftrightarrow> (\<forall>l. cache_bounded capacity (dict_get (sh_reactive s) l []))
     \<and> (\<forall>l. cache_bounded capacity (dict_get (sh_shadow s) l [])) \<and> totals_ok (sh_totals s)"

definition target_total :: "prediction_sample list \<Rightarrow> int" where
  "target_total samples = sum_of (\<lambda>s. int (card (set (smp_target_expert_ids s)))) samples"

lemma shadow_row_ok:
  assumes "shadow_inv capacity s" and "0 < capacity"
    and "case admitted of None \<Rightarrow> True | Some xs \<Rightarrow> set xs \<subseteq> set (take (nat width) ranking)"
  shows "\<exists>s'. shadow_row width capacity s (sample, ranking, admitted) = Inr s' \<and> shadow_inv capacity s'
    \<and> st_demand_count (sh_totals s') = st_demand_count (sh_totals s) + int (card (set (smp_target_expert_ids sample)))"
proof -
  let ?fresh = "sh_conversation s \<noteq> Some (smp_conversation_id sample)"
  let ?R = "if ?fresh then [] else sh_reactive s" and ?S = "if ?fresh then [] else sh_shadow s"
  let ?l = "smp_target_layer sample" and ?T = "set (smp_target_expert_ids sample)"
  let ?prefix = "take (nat width) ranking"
  let ?C = "case admitted of None \<Rightarrow> ?prefix | Some xs \<Rightarrow> xs"
  let ?t = "sh_totals s"
  let ?t1 = "?t\<lparr>st_rejected_candidates := st_rejected_candidates ?t + (width - int (length ?C)),
    st_demand_count := st_demand_count ?t + int (card ?T),
    st_reactive_hits := st_reactive_hits ?t + hits_in (dict_get ?R ?l []) ?T\<rparr>"
  have sub: "set ?C \<subseteq> set ?prefix" using assms(3) by (cases admitted) auto
  have inv: "\<forall>l. cache_bounded capacity (dict_get ?R l [])" "\<forall>l. cache_bounded capacity (dict_get ?S l [])"
    using assms(1,2) by (auto simp: shadow_inv_def)
  obtain sh t' where sp: "rfold (speculate capacity ?T) (dict_get ?S ?l [], ?t1) ?C = Inr (sh, t')"
    and b: "cache_bounded capacity sh" and st: "speculated ?t1 t'"
    using speculate_run_ok [of capacity "(dict_get ?S ?l [], ?t1)" "speculate capacity ?T" ?T ?C] inv(2) assms(2) by auto
  obtain r2 s2 where dm: "rfold (demand_both (shadow_demand capacity)) (dict_get ?R ?l [], sh) (smp_target_expert_ids sample)
      = Inr (r2, s2)" and b2: "cache_bounded capacity r2" "cache_bounded capacity s2"
    using demand_both_ok [OF spec [OF inv(1)] b assms(2), of "shadow_demand capacity"] by blast
  let ?t2 = "t'\<lparr>st_ready := st_ready t' + hits_in sh ?T,
      st_predicted_ready := st_predicted_ready t' + int (card (?T \<inter> set ?C - set (dict_get ?S ?l []))),
      st_uncovered_misses := st_uncovered_misses t' + misses_in sh ?T\<rparr>"
  have "misses_in sh ?T = int (card ?T) - hits_in sh ?T" using hits_misses [of ?T sh] by simp
  then have tot: "totals_ok ?t2"
    using totals_ok_row [OF _ st, of "hits_in sh ?T"] assms(1) hits_bounds [of ?T]
    by (simp add: shadow_inv_def)
  have row: "shadow_row width capacity s (sample, ranking, admitted)
    = Inr \<lparr>sh_reactive = dict_set ?l r2 ?R, sh_shadow = dict_set ?l s2 ?S,
        sh_conversation = Some (smp_conversation_id sample), sh_totals = ?t2\<rparr>"
    using sub by (simp only: shadow_row_def Let_def case_prod_conv sp dm rbind_Inr not_True_eq_False if_False)
  have "st_demand_count ?t2 = st_demand_count ?t + int (card ?T)" using st by (simp add: speculated_def)
  then show ?thesis using row tot inv b2 assms(1,2) by (simp add: shadow_inv_def dict_get_set)
qed

lemma shadow_run_ok:
  assumes "shadow_inv capacity s" and "0 < capacity"
    and "\<forall>(sample, ranking, admitted) \<in> set rows.
      case admitted of None \<Rightarrow> True | Some xs \<Rightarrow> set xs \<subseteq> set (take (nat width) ranking)"
  shows "\<exists>s'. rfold (shadow_row width capacity) s rows = Inr s' \<and> shadow_inv capacity s'
    \<and> st_demand_count (sh_totals s') = st_demand_count (sh_totals s) + target_total (map fst rows)"
  using assms(1,3)
proof (induction rows arbitrary: s)
  case Nil
  then show ?case by (simp add: target_total_def)
next
  case (Cons row rows)
  obtain sample ranking admitted where row: "row = (sample, ranking, admitted)" by (cases row)
  from Cons.prems(2) have "case admitted of None \<Rightarrow> True | Some xs \<Rightarrow> set xs \<subseteq> set (take (nat width) ranking)"
    by (simp add: row)
  from shadow_row_ok [OF Cons.prems(1) assms(2) this] obtain s1 where s1:
    "shadow_row width capacity s row = Inr s1" "shadow_inv capacity s1"
    "st_demand_count (sh_totals s1) = st_demand_count (sh_totals s) + int (card (set (smp_target_expert_ids sample)))"
    by (auto simp: row)
  from Cons.IH [OF s1(2)] Cons.prems(2) s1 show ?case by (auto simp: target_total_def row)
qed

section \<open>Temporal rows\<close>

text \<open>
  Candidates refreshed or inserted in turn end up as the newest entries of the cache: with at most
  \<open>capacity\<close> distinct candidates all of them are resident when the demand arrives.
\<close>

lemma temporal_candidates_resident:
  assumes "cache_bounded capacity (old @ seen)" and "distinct (seen @ rest)" and "int (length (seen @ rest)) \<le> capacity"
  shows "\<exists>old' t'. rfold (temporal_speculate capacity target) (old @ seen, t) rest = Inr (old' @ seen @ rest, t')"
  using assms
proof (induction rest arbitrary: old seen t)
  case Nil
  then show ?case by auto
next
  case (Cons x rest)
  have x: "x \<notin> set seen" "x \<notin> set rest" using Cons.prems(2) by auto
  have pos: "0 < capacity" "int (length seen) < capacity" using Cons.prems(3) by auto
  have "\<exists>old1 t1. temporal_speculate capacity target (old @ seen, t) x = Inr (old1 @ (seen @ [x]), t1)
      \<and> cache_bounded capacity (old1 @ (seen @ [x]))"
  proof (cases "x \<in> set old")
    case True
    have "move_to_end x (old @ seen) = remove1 x old @ (seen @ [x])" using True by (simp add: move_to_end_def remove1_append)
    moreover have "cache_bounded capacity (move_to_end x (old @ seen))"
      using True Cons.prems(1) by (intro move_to_end_bounded) auto
    ultimately show ?thesis using True by (auto simp: temporal_speculate_def)
  next
    case False
    then have new: "x \<notin> set (old @ seen)" using x by simp
    obtain t1 where t1: "insert_predicted capacity target (old @ seen, t) x
        = Inr ((if capacity \<le> int (length (old @ seen)) then tl (old @ seen) else old @ seen) @ [x], t1)"
      using insert_predicted_ok [OF Cons.prems(1) pos(1) new] by blast
    have "\<exists>old1. (if capacity \<le> int (length (old @ seen)) then tl (old @ seen) else old @ seen) @ [x] = old1 @ (seen @ [x])"
      using pos(2) by (cases old) auto
    then show ?thesis
      using t1 new insert_predicted_bounded [OF Cons.prems(1) pos(1) new] by (auto simp: temporal_speculate_def)
  qed
  then obtain old1 t1 where s1: "temporal_speculate capacity target (old @ seen, t) x = Inr (old1 @ (seen @ [x]), t1)"
    and b1: "cache_bounded capacity (old1 @ (seen @ [x]))" by blast
  from Cons.IH [OF b1, of t1] Cons.prems(2,3) s1 show ?case by auto
qed

definition temporal_target_total :: "temporal_sample list \<Rightarrow> int" where
  "temporal_target_total samples = sum_of (\<lambda>s. int (card (set (ts_target_expert_ids s)))) samples"

text \<open>The targets the first \<open>width\<close> entries of each ranking cover.\<close>

definition covered_total :: "int \<Rightarrow> (temporal_sample \<times> int list) list \<Rightarrow> int" where
  "covered_total width rows =
     sum_of (\<lambda>(s, r). int (card (set (ts_target_expert_ids s) \<inter> set (take (nat width) r)))) rows"

definition temporal_inv :: "int \<Rightarrow> temporal_sample list \<Rightarrow> temporal_shadow_state \<Rightarrow> bool" where
  "temporal_inv capacity seen s \<longleftrightarrow> cache_bounded capacity (th_reactive s) \<and> cache_bounded capacity (th_shadow s)
     \<and> totals_ok (th_totals s)
     \<and> (if seen = [] then th_conversation s = None
        else th_conversation s = Some (ts_conversation_id (last seen)) \<and> th_previous s = Some (last seen))"

lemma temporal_caches_ok:
  assumes "temporal_inv capacity seen s" and "chained (seen @ [x])" and "0 < capacity"
  shows "\<exists>r sh. temporal_caches capacity s x = Inr (r, sh) \<and> cache_bounded capacity r \<and> cache_bounded capacity sh"
proof (cases "th_conversation s = Some (ts_conversation_id x)")
  case True
  have ne: "seen \<noteq> []" using True assms(1) by (auto simp: temporal_inv_def)
  then have last: "th_previous s = Some (last seen)" "ts_conversation_id (last seen) = ts_conversation_id x"
    using True assms(1) by (auto simp: temporal_inv_def)
  have "(last seen, x) \<in> set (pairs (seen @ [x]))" using ne by (rule pairs_snoc)
  then have "ts_source_expert_ids x = ts_target_expert_ids (last seen)"
    using assms(2) last(2) by (auto simp: chained_def)
  then show ?thesis using True last assms(1) by (simp add: temporal_caches_def temporal_inv_def)
next
  case False
  then show ?thesis
    using demand_both_ok [of capacity "[]" "[]" "temporal_demand capacity"] assms(3)
    by (auto simp: temporal_caches_def)
qed

lemma temporal_row_step:
  assumes "temporal_inv capacity seen s" and "chained (seen @ [x])" and "0 < width" and "width \<le> capacity"
    and "distinct ranking"
  shows "\<exists>s'. temporal_shadow_row width capacity s (x, ranking) = Inr s' \<and> temporal_inv capacity (seen @ [x]) s'
    \<and> st_demand_count (th_totals s') = st_demand_count (th_totals s) + int (card (set (ts_target_expert_ids x)))
    \<and> st_ready (th_totals s) + int (card (set (ts_target_expert_ids x) \<inter> set (take (nat width) ranking)))
        \<le> st_ready (th_totals s')"
proof -
  let ?T = "set (ts_target_expert_ids x)" and ?t = "th_totals s" and ?P = "take (nat width) ranking"
  have pos: "0 < capacity" using assms(3,4) by linarith
  obtain r sh where c: "temporal_caches capacity s x = Inr (r, sh)" "cache_bounded capacity r" "cache_bounded capacity sh"
    using temporal_caches_ok [OF assms(1,2) pos] by blast
  let ?t1 = "?t\<lparr>st_demand_count := st_demand_count ?t + int (card ?T), st_reactive_hits := st_reactive_hits ?t + hits_in r ?T\<rparr>"
  obtain sh' t' where sp: "rfold (temporal_speculate capacity ?T) (sh, ?t1) ?P = Inr (sh', t')"
    and b: "cache_bounded capacity sh'" and st: "speculated ?t1 t'"
    using speculate_run_ok [of capacity "(sh, ?t1)" "temporal_speculate capacity ?T" ?T ?P] c(3) pos by auto
  have "\<exists>old t2. rfold (temporal_speculate capacity ?T) (sh @ [], ?t1) ?P = Inr (old @ [] @ ?P, t2)"
    using assms(3-5) c(3) by (intro temporal_candidates_resident) auto
  then have res: "set ?P \<subseteq> set sh'" using sp by auto
  obtain r2 s2 where dm: "rfold (demand_both (temporal_demand capacity)) (r, sh') (ts_target_expert_ids x) = Inr (r2, s2)"
    and b2: "cache_bounded capacity r2" "cache_bounded capacity s2"
    using demand_both_ok [OF c(2) b pos, of "temporal_demand capacity"] by blast
  let ?t2 = "t'\<lparr>st_ready := st_ready t' + hits_in sh' ?T,
      st_uncovered_misses := st_uncovered_misses t' + (int (card ?T) - hits_in sh' ?T)\<rparr>"
  have st0: "speculated (?t\<lparr>st_rejected_candidates := st_rejected_candidates ?t,
      st_demand_count := st_demand_count ?t + int (card ?T), st_reactive_hits := st_reactive_hits ?t + hits_in r ?T\<rparr>) t'"
    using st by simp
  have tot: "totals_ok ?t2"
    using totals_ok_row [OF _ st0, of "hits_in sh' ?T" "st_predicted_ready t'"] assms(1) hits_bounds [of ?T]
    by (simp add: temporal_inv_def)
  have row: "temporal_shadow_row width capacity s (x, ranking)
    = Inr \<lparr>th_reactive = r2, th_shadow = s2, th_conversation = Some (ts_conversation_id x), th_previous = Some x,
        th_totals = ?t2\<rparr>"
    by (simp only: temporal_shadow_row_def Let_def case_prod_conv c(1) sp dm rbind_Inr)
  have "card (?T \<inter> set ?P) \<le> card (?T \<inter> set sh')" using res by (intro card_mono) auto
  then have "int (card (?T \<inter> set ?P)) \<le> hits_in sh' ?T" by (simp add: hits_in_def)
  moreover have "st_demand_count t' = st_demand_count ?t + int (card ?T)" "st_ready t' = st_ready ?t"
    using st by (simp_all add: speculated_def)
  ultimately show ?thesis using row tot b2 by (simp add: temporal_inv_def)
qed

lemma temporal_run_ok:
  assumes "temporal_inv capacity seen s" and "chained (seen @ map fst rows)" and "0 < width" and "width \<le> capacity"
    and "\<forall>(x, r) \<in> set rows. distinct r"
  shows "\<exists>s'. rfold (temporal_shadow_row width capacity) s rows = Inr s' \<and> temporal_inv capacity (seen @ map fst rows) s'
    \<and> st_demand_count (th_totals s') = st_demand_count (th_totals s) + temporal_target_total (map fst rows)
    \<and> st_ready (th_totals s) + covered_total width rows \<le> st_ready (th_totals s')"
  using assms(1,2,5)
proof (induction rows arbitrary: seen s)
  case Nil
  then show ?case by (simp add: temporal_target_total_def covered_total_def)
next
  case (Cons row rows)
  obtain x r where row: "row = (x, r)" by (cases row)
  have ch: "chained (seen @ [x])" using Cons.prems(2) chained_take [of "seen @ [x]" "map fst rows"] by (simp add: row)
  obtain s1 where s1: "temporal_shadow_row width capacity s (x, r) = Inr s1" "temporal_inv capacity (seen @ [x]) s1"
    "st_demand_count (th_totals s1) = st_demand_count (th_totals s) + int (card (set (ts_target_expert_ids x)))"
    "st_ready (th_totals s) + int (card (set (ts_target_expert_ids x) \<inter> set (take (nat width) r))) \<le> st_ready (th_totals s1)"
    using temporal_row_step [OF Cons.prems(1) ch assms(3,4), of r] Cons.prems(3) by (auto simp: row)
  from Cons.IH [OF s1(2)] Cons.prems(2,3) s1 show ?case
    by (fastforce simp: row temporal_target_total_def covered_total_def)
qed

section \<open>Properties\<close>

definition report_accounts :: "int \<Rightarrow> shadow_report \<Rightarrow> bool" where
  "report_accounts demand r \<longleftrightarrow> totals_ok (sr_totals r) \<and> st_demand_count (sr_totals r) = demand
     \<and> sr_reactive_blocking_misses r = demand - st_reactive_hits (sr_totals r)
     \<and> sr_ready_improvement r = st_ready (sr_totals r) - st_reactive_hits (sr_totals r)"

text \<open>
  The adjacent-layer shadow simulation returns on inputs that pass its checks and admit only
  experts of the ranking prefix: no \<open>popitem\<close> meets an empty cache, every distinct demanded expert
  is counted once as ready or as an uncovered miss, the reactive hits are among the demands,
  regretted evictions are among the speculative evictions and those among the insertions.
\<close>

theorem shadow_simulation_accounts:
  assumes "length samples = length rankings" and "1 \<le> width" and "width \<le> 128" and "width \<le> capacity"
    and "case admitted of None \<Rightarrow> True | Some a \<Rightarrow> length a = length samples
      \<and> (\<forall>(r, xs) \<in> set (zip rankings a). set xs \<subseteq> set (take (nat width) r))"
  shows "\<exists>r. simulate_shadow samples rankings admitted width capacity expert_bytes = Inr r
    \<and> report_accounts (target_total samples) r"
proof -
  let ?a = "case admitted of None \<Rightarrow> map (\<lambda>_. None) samples | Some a \<Rightarrow> map Some a"
  let ?rows = "zip samples (zip rankings ?a)"
  have len: "length ?a = length samples" using assms(5) by (auto split: option.splits)
  have rows: "\<forall>(sample, ranking, admitted) \<in> set ?rows.
      case admitted of None \<Rightarrow> True | Some xs \<Rightarrow> set xs \<subseteq> set (take (nat width) ranking)"
  proof clarify
    fix s r x assume "(s, r, x) \<in> set ?rows"
    then have rx: "(r, x) \<in> set (zip rankings ?a)" by (rule set_zip_rightD)
    show "case x of None \<Rightarrow> True | Some xs \<Rightarrow> set xs \<subseteq> set (take (nat width) r)"
    proof (cases admitted)
      case None
      then have "x = None" using set_zip_rightD [OF rx] by auto
      then show ?thesis by simp
    next
      case (Some a)
      then obtain xs where "x = Some xs" "(r, xs) \<in> set (zip rankings a)" using rx by (auto simp: zip_map2)
      then show ?thesis using assms(5) Some by auto
    qed
  qed
  have "shadow_inv capacity shadow_initial"
    using assms(2,4) by (simp add: shadow_inv_def shadow_initial_def)
  from shadow_run_ok [OF this _ rows] assms(2,4) obtain s where s:
    "rfold (shadow_row width capacity) shadow_initial ?rows = Inr s" "shadow_inv capacity s"
    "st_demand_count (sh_totals s) = st_demand_count (sh_totals shadow_initial) + target_total (map fst ?rows)" by auto
  have "map fst ?rows = samples" using assms(1) len by simp
  then have "st_demand_count (sh_totals s) = target_total samples"
    using s(3) by (simp add: shadow_initial_def shadow_totals_zero_def)
  moreover have "simulate_shadow samples rankings admitted width capacity expert_bytes
      = Inr (shadow_report_of width capacity expert_bytes (sh_totals s))"
    using assms s(1) by (cases admitted) (simp_all add: simulate_shadow_def)
  ultimately show ?thesis
    using s(2) by (simp add: report_accounts_def shadow_report_of_def shadow_inv_def)
qed

lemma shadow_simulation_accounts_witness:
  "\<exists>r. simulate_shadow [example_sample 3 [1] [5, 6], example_sample 3 [2] [5]] [[5, 7], [8, 5]]
      (Some [[7], [8, 5]]) 2 2 100 = Inr r
    \<and> report_accounts (target_total [example_sample 3 [1] [5, 6], example_sample 3 [2] [5]]) r"
  by (rule shadow_simulation_accounts) (simp_all add: numeral_2_eq_2)

text \<open>
  C27. The temporal shadow simulation returns on a chained sequence with duplicate-free rankings,
  accounts for every demand as the adjacent-layer one does, and delivers what the rankings promise:
  it has at least as many experts ready as the first \<open>width\<close> entries of the rankings cover, since a
  candidate, once admitted or refreshed, is still resident when the demand arrives.
\<close>

theorem temporal_shadow_covers_recall:
  assumes "chained samples" and "length samples = length rankings" and "\<forall>r \<in> set rankings. distinct r"
    and "1 \<le> width" and "width \<le> 128" and "width \<le> capacity"
  shows "\<exists>r. simulate_temporal_shadow samples rankings width capacity expert_bytes = Inr r
    \<and> report_accounts (temporal_target_total samples) r
    \<and> covered_total width (zip samples rankings) \<le> st_ready (sr_totals r)"
proof -
  have "temporal_inv capacity [] temporal_shadow_initial"
    using assms(4,6) by (simp add: temporal_inv_def temporal_shadow_initial_def)
  moreover have "\<forall>(x, r) \<in> set (zip samples rankings). distinct r"
    using assms(3) by (auto dest: set_zip_rightD)
  moreover have m: "map fst (zip samples rankings) = samples" using assms(2) by simp
  ultimately obtain s where s: "rfold (temporal_shadow_row width capacity) temporal_shadow_initial (zip samples rankings) = Inr s"
    "temporal_inv capacity samples s"
    "st_demand_count (th_totals s) = temporal_target_total samples"
    "covered_total width (zip samples rankings) \<le> st_ready (th_totals s)"
    using temporal_run_ok [of capacity "[]" temporal_shadow_initial "zip samples rankings" width] assms(1,4,6)
    by (auto simp: temporal_shadow_initial_def shadow_totals_zero_def)
  then show ?thesis
    using assms(2,4-6) by (simp add: simulate_temporal_shadow_def report_accounts_def shadow_report_of_def temporal_inv_def)
qed

lemma temporal_shadow_covers_recall_witness:
  "\<exists>r. simulate_temporal_shadow [example_temporal 0 [3, 4] [4, 9], example_temporal 1 [4, 9] [1, 2]] [[4, 9, 1], [2, 8, 1]]
      2 3 100 = Inr r
    \<and> report_accounts (temporal_target_total [example_temporal 0 [3, 4] [4, 9], example_temporal 1 [4, 9] [1, 2]]) r
    \<and> covered_total 2 (zip [example_temporal 0 [3, 4] [4, 9], example_temporal 1 [4, 9] [1, 2]] [[4, 9, 1], [2, 8, 1]])
        \<le> st_ready (sr_totals r)"
  by (rule temporal_shadow_covers_recall) (simp_all add: chained_def pairs_def example_temporal_def)

text \<open>
  Both demand operations implement an LRU cache of the given capacity: from the empty cache, a
  run of demands hits exactly the keys among the \<open>n + 1\<close> most recent ones, and a larger cache
  hits whenever a smaller one does.
\<close>

theorem demand_hits_are_recency_hits:
  "\<exists>c hs. demand_run (shadow_demand (int (Suc n))) [] ks = Inr (hs, c)
    \<and> demand_run (temporal_demand (int (Suc n))) [] ks = Inr (hs, c)
    \<and> hs = recency_hits (Suc n) [] ks \<and> length c \<le> Suc n
    \<and> (\<forall>c' hs'. demand_run (shadow_demand (int (Suc (n + m)))) [] ks = Inr (hs', c') \<longrightarrow>
         list_all2 (\<longrightarrow>) hs hs')"
  using shadow_cache.run_from_empty [of n ks] temporal_cache.run_from_empty [of n ks]
    shadow_cache.run_from_empty [of "n + m" ks] recency_hits_mono [of "Suc n" "Suc (n + m)" "[]" ks]
  by auto

lemma demand_hits_are_recency_hits_witness:
  "\<exists>c hs. demand_run (shadow_demand (int (Suc 1))) [] [1, 2, 1, 3, 2] = Inr (hs, c)
    \<and> hs = recency_hits (Suc 1) [] [1, 2, 1, 3, 2 :: int] \<and> length c \<le> Suc 1"
  using demand_hits_are_recency_hits [of 1 "[1, 2, 1, 3, 2]" 0] by blast

end
