(* ===== verification/Metrics.thy ===== *)
theory Metrics
  imports Ranking
begin

text \<open>
  \<open>predictor/metrics.py\<close> and \<open>predictor/temporal_metrics.py\<close>: recall of the first 8, 12 and 16
  entries of a ranking against the unordered target set, overall and per group. A metric is a
  client of the interface \<open>ranker\<close>: the permutation check never fails on a ranker's output. The
  lemmas show that the rates are floats between zero and one, that recall grows with the width,
  and that each grouping counts every row once.
\<close>

record metric_summary =
  ms_sample_count :: int
  ms_recall_at_8 :: pyfloat
  ms_recall_at_12 :: pyfloat
  ms_recall_at_16 :: pyfloat
  ms_mean_overlap_at_8 :: pyfloat
  ms_exact_set_match_at_8 :: pyfloat

text \<open>\<open>len(target & set(ranking[:width]))\<close>.\<close>

definition overlap :: "int list \<Rightarrow> int set \<Rightarrow> nat \<Rightarrow> int" where
  "overlap ranking target width = int (card (target \<inter> set (take width ranking)))"

text \<open>The hits at the three widths and the exact matches, counted row by row.\<close>

definition count_row ::
    "string \<Rightarrow> int \<times> int \<times> int \<times> int \<Rightarrow> int set \<times> int list \<Rightarrow> (int \<times> int \<times> int \<times> int) res" where
  "count_row reason s row = (let (h8, h12, h16, exact) = s; (target, ranking) = row in
     if \<not> is_permutation ranking
     then Inl (ValueError reason)
     else Inr (h8 + overlap ranking target 8, h12 + overlap ranking target 12,
       h16 + overlap ranking target 16, exact + (if set (take 8 ranking) = target then 1 else 0)))"

definition summary :: "(prediction_sample \<times> int list) list \<Rightarrow> metric_summary res" where
  "summary rows =
     (if rows = [] then Inr \<lparr>ms_sample_count = 0, ms_recall_at_8 = Fin 0, ms_recall_at_12 = Fin 0,
         ms_recall_at_16 = Fin 0, ms_mean_overlap_at_8 = Fin 0, ms_exact_set_match_at_8 = Fin 0\<rparr>
      else rbind (rfold (count_row ''predictor ranking must be a permutation of 128 experts'') (0, 0, 0, 0)
          (map (\<lambda>(s, r). (set (smp_target_expert_ids s), r)) rows)) (\<lambda>(h8, h12, h16, exact).
        let demands = sum_of (\<lambda>(s, r). int (length (smp_target_expert_ids s))) rows;
            count = int (length rows) in
        rbind (int_truediv h8 demands) (\<lambda>r8.
        rbind (int_truediv h12 demands) (\<lambda>r12.
        rbind (int_truediv h16 demands) (\<lambda>r16.
        rbind (int_truediv h8 count) (\<lambda>mean.
        rbind (int_truediv exact count) (\<lambda>ex.
          Inr \<lparr>ms_sample_count = count, ms_recall_at_8 = r8, ms_recall_at_12 = r12,
            ms_recall_at_16 = r16, ms_mean_overlap_at_8 = mean, ms_exact_set_match_at_8 = ex\<rparr>)))))))"

text \<open>\<open>{key: _summary(value) for key, value in sorted(grouped.items())}\<close>.\<close>

definition grouped_summary ::
    "(prediction_sample \<Rightarrow> string) \<Rightarrow> (prediction_sample \<times> int list) list
      \<Rightarrow> (string, metric_summary) dict res" where
  "grouped_summary key rows = rmap (\<lambda>(k, group). rbind (summary group) (\<lambda>s. Inr (k, s)))
     (sort_key fst (group_by (\<lambda>(s, r). key s) rows))"

record evaluation =
  ev_overall :: metric_summary
  ev_per_layer :: "(string, metric_summary) dict"
  ev_per_phase :: "(string, metric_summary) dict"
  ev_per_conversation :: "(string, metric_summary) dict"
  ev_per_domain :: "(string, metric_summary) dict"

definition evaluate_predictions ::
    "prediction_sample list \<Rightarrow> (prediction_sample \<Rightarrow> int list res) \<Rightarrow> evaluation res" where
  "evaluate_predictions samples rank =
     rbind (rmap (\<lambda>s. rbind (rank s) (\<lambda>r. Inr (s, r))) samples) (\<lambda>rows.
     rbind (summary rows) (\<lambda>overall.
     rbind (grouped_summary (\<lambda>s. int_str (smp_target_layer s)) rows) (\<lambda>per_layer.
     rbind (grouped_summary smp_phase rows) (\<lambda>per_phase.
     rbind (grouped_summary smp_conversation_id rows) (\<lambda>per_conversation.
     rbind (grouped_summary smp_domain rows) (\<lambda>per_domain.
       Inr \<lparr>ev_overall = overall, ev_per_layer = per_layer, ev_per_phase = per_phase,
         ev_per_conversation = per_conversation, ev_per_domain = per_domain\<rparr>))))))"

section \<open>Temporal metrics\<close>

record temporal_summary =
  tm_sample_count :: int
  tm_recall_at_8 :: pyfloat
  tm_recall_at_12 :: pyfloat
  tm_recall_at_16 :: pyfloat
  tm_exact_set_match_at_8 :: pyfloat

text \<open>Here a repeated target expert is one demand.\<close>

definition temporal_summary_of :: "(temporal_sample \<times> int list) list \<Rightarrow> temporal_summary res" where
  "temporal_summary_of rows =
     (if rows = [] then Inr \<lparr>tm_sample_count = 0, tm_recall_at_8 = Fin 0, tm_recall_at_12 = Fin 0,
         tm_recall_at_16 = Fin 0, tm_exact_set_match_at_8 = Fin 0\<rparr>
      else rbind (rfold (count_row ''temporal ranking must be a permutation of 128 experts'') (0, 0, 0, 0)
          (map (\<lambda>(s, r). (set (ts_target_expert_ids s), r)) rows)) (\<lambda>(h8, h12, h16, exact).
        let demands = sum_of (\<lambda>(s, r). int (card (set (ts_target_expert_ids s)))) rows in
        rbind (int_truediv h8 demands) (\<lambda>r8.
        rbind (int_truediv h12 demands) (\<lambda>r12.
        rbind (int_truediv h16 demands) (\<lambda>r16.
        rbind (int_truediv exact (int (length rows))) (\<lambda>ex.
          Inr \<lparr>tm_sample_count = int (length rows), tm_recall_at_8 = r8, tm_recall_at_12 = r12,
            tm_recall_at_16 = r16, tm_exact_set_match_at_8 = ex\<rparr>))))))"

definition temporal_grouped_summary ::
    "(temporal_sample \<Rightarrow> string) \<Rightarrow> (temporal_sample \<times> int list) list
      \<Rightarrow> (string, temporal_summary) dict res" where
  "temporal_grouped_summary key rows = rmap (\<lambda>(k, group). rbind (temporal_summary_of group) (\<lambda>s. Inr (k, s)))
     (sort_key fst (group_by (\<lambda>(s, r). key s) rows))"

record temporal_evaluation =
  te_overall :: temporal_summary
  te_per_conversation :: "(string, temporal_summary) dict"
  te_per_domain :: "(string, temporal_summary) dict"

definition evaluate_temporal_predictions ::
    "temporal_sample list \<Rightarrow> int list list \<Rightarrow> temporal_evaluation res" where
  "evaluate_temporal_predictions samples rankings =
     (if length samples \<noteq> length rankings
      then Inl (ValueError ''zip() arguments have different lengths'')
      else let rows = zip samples rankings in
        rbind (temporal_summary_of rows) (\<lambda>overall.
        rbind (temporal_grouped_summary ts_conversation_id rows) (\<lambda>per_conversation.
        rbind (temporal_grouped_summary ts_domain rows) (\<lambda>per_domain.
          Inr \<lparr>te_overall = overall, te_per_conversation = per_conversation, te_per_domain = per_domain\<rparr>))))"

section \<open>Counting\<close>

lemma overlap_mono: "v \<le> w \<Longrightarrow> finite target \<Longrightarrow> overlap r target v \<le> overlap r target w"
  unfolding overlap_def using set_take_subset_set_take [of v w r]
  by (intro iffD2 [OF of_nat_le_iff] card_mono) auto

lemma overlap_bounds: "finite target \<Longrightarrow> 0 \<le> overlap r target 8 \<and> overlap r target 8 \<le> overlap r target 12
    \<and> overlap r target 12 \<le> overlap r target 16 \<and> overlap r target 16 \<le> int (card target)"
  by (intro conjI overlap_mono) (simp_all add: overlap_def card_mono)

lemma count_rows_ok:
  assumes "\<forall>(T, r) \<in> set rows. is_permutation r"
  shows "rfold (count_row reason) (a, b, c, e) rows = Inr
    (a + sum_of (\<lambda>(T, r). overlap r T 8) rows, b + sum_of (\<lambda>(T, r). overlap r T 12) rows,
     c + sum_of (\<lambda>(T, r). overlap r T 16) rows,
     e + sum_of (\<lambda>(T, r). if set (take 8 r) = T then 1 else 0) rows)"
  using assms by (induction rows arbitrary: a b c e) (auto simp: count_row_def)

text \<open>The rates of one summary, from non-empty finite targets and permutations.\<close>

lemma rates_ok:
  assumes "rows \<noteq> []" and "\<forall>(T, r) \<in> set rows. is_permutation r \<and> finite T"
    and "sum_of (\<lambda>(T, r). int (card T)) rows \<le> demands" and "0 < demands"
  shows "\<exists>h8 h12 h16 ex r8 r12 r16 x. rfold (count_row reason) (0, 0, 0, 0) rows = Inr (h8, h12, h16, ex)
    \<and> int_truediv h8 demands = Inr (Fin r8) \<and> int_truediv h12 demands = Inr (Fin r12)
    \<and> int_truediv h16 demands = Inr (Fin r16) \<and> int_truediv ex (int (length rows)) = Inr (Fin x)
    \<and> 0 \<le> r8 \<and> r8 \<le> r12 \<and> r12 \<le> r16 \<and> r16 \<le> 1 \<and> 0 \<le> x \<and> x \<le> 1 \<and> 0 \<le> h8 \<and> h8 \<le> demands"
proof -
  let ?h = "\<lambda>w. sum_of (\<lambda>(T, r). overlap r T w) rows"
  let ?e = "sum_of (\<lambda>(T, r). if set (take 8 r) = T then 1 else (0 :: int)) rows"
  have perm: "\<forall>(T, r) \<in> set rows. is_permutation r" and fin: "\<forall>(T, r) \<in> set rows. finite T" using assms(2) by auto
  have h: "0 \<le> ?h 8 \<and> ?h 8 \<le> ?h 12 \<and> ?h 12 \<le> ?h 16 \<and> ?h 16 \<le> sum_of (\<lambda>(T, r). int (card T)) rows"
    using fin
  proof (induction rows)
    case (Cons row rows)
    then show ?case using overlap_bounds [of "fst row" "snd row"] by (auto simp: case_prod_unfold)
  qed simp
  have e: "0 \<le> ?e \<and> ?e \<le> int (length rows)" by (induction rows) auto
  obtain r8 where r8: "int_truediv (?h 8) demands = Inr (Fin r8)" "0 \<le> r8" "r8 \<le> 1"
    using int_truediv_rate [of "?h 8" demands] h assms(3,4) by auto
  obtain r12 where r12: "int_truediv (?h 12) demands = Inr (Fin r12)" "0 \<le> r12" "r12 \<le> 1"
    using int_truediv_rate [of "?h 12" demands] h assms(3,4) by auto
  obtain r16 where r16: "int_truediv (?h 16) demands = Inr (Fin r16)" "0 \<le> r16" "r16 \<le> 1"
    using int_truediv_rate [of "?h 16" demands] h assms(3,4) by auto
  obtain x where x: "int_truediv ?e (int (length rows)) = Inr (Fin x)" "0 \<le> x" "x \<le> 1"
    using int_truediv_rate [of ?e "int (length rows)"] e assms(1) by auto
  have "Fin r8 \<le> Fin r12" "Fin r12 \<le> Fin r16"
    using int_truediv_mono [OF _ assms(4) r8(1) r12(1)] int_truediv_mono [OF _ assms(4) r12(1) r16(1)] h by auto
  then show ?thesis
    using count_rows_ok [OF perm, where a = 0 and b = 0 and c = 0 and e = 0 and reason = reason] r8 r12 r16 x h assms(3) by auto
qed

definition summary_valid :: "int \<Rightarrow> metric_summary \<Rightarrow> bool" where
  "summary_valid n m \<longleftrightarrow> ms_sample_count m = n \<and> (\<exists>r8 r12 r16 x.
     ms_recall_at_8 m = Fin r8 \<and> ms_recall_at_12 m = Fin r12 \<and> ms_recall_at_16 m = Fin r16
     \<and> ms_exact_set_match_at_8 m = Fin x
     \<and> 0 \<le> r8 \<and> r8 \<le> r12 \<and> r12 \<le> r16 \<and> r16 \<le> 1 \<and> 0 \<le> x \<and> x \<le> 1)"

text \<open>A row the metrics accept: a permutation and at least one demand.\<close>

definition row_valid :: "prediction_sample \<times> int list \<Rightarrow> bool" where
  "row_valid row \<longleftrightarrow> is_permutation (snd row) \<and> smp_target_expert_ids (fst row) \<noteq> []
     \<and> length (smp_target_expert_ids (fst row)) \<le> 2 ^ 100"

lemma summary_ok:
  assumes "\<forall>row \<in> set rows. row_valid row" and "int (length rows) \<le> 2 ^ 100"
  shows "\<exists>m. summary rows = Inr m \<and> summary_valid (int (length rows)) m"
proof (cases "rows = []")
  case True
  then show ?thesis by (simp add: summary_def summary_valid_def)
next
  case False
  let ?rows = "map (\<lambda>(s, r). (set (smp_target_expert_ids s), r)) rows"
  let ?reason = "''predictor ranking must be a permutation of 128 experts''"
  let ?d = "sum_of (\<lambda>(s, r). int (length (smp_target_expert_ids s))) rows"
  have len: "1 \<le> int (length (smp_target_expert_ids s))" "int (length (smp_target_expert_ids s)) \<le> 2 ^ 100"
    if "(s, r) \<in> set rows" for s r
    using assms(1) that by (auto simp: row_valid_def Suc_le_eq dest!: bspec)
  have "sum_of (\<lambda>_. 1) rows \<le> ?d" "?d \<le> sum_of (\<lambda>_. 2 ^ 100) rows"
    using len by (intro sum_of_mono; auto)+
  moreover have "sum_of (\<lambda>(T, r). int (card T)) ?rows \<le> ?d"
    unfolding map_map by (intro sum_of_mono) (auto simp: card_length)
  ultimately have bounds: "int (length rows) \<le> ?d \<and> ?d \<le> 2 ^ 100 * int (length rows)
      \<and> sum_of (\<lambda>(T, r). int (card T)) ?rows \<le> ?d"
    by (simp add: sum_list_triv mult.commute)
  have pos: "0 < ?d" using bounds False by (cases rows) auto
  obtain h8 h12 h16 ex r8 r12 r16 x where r: "rfold (count_row ?reason) (0, 0, 0, 0) ?rows = Inr (h8, h12, h16, ex)"
    "int_truediv h8 ?d = Inr (Fin r8)" "int_truediv h12 ?d = Inr (Fin r12)" "int_truediv h16 ?d = Inr (Fin r16)"
    "int_truediv ex (int (length ?rows)) = Inr (Fin x)" "0 \<le> r8" "r8 \<le> r12" "r12 \<le> r16" "r16 \<le> 1" "0 \<le> x" "x \<le> 1"
    "0 \<le> h8" "h8 \<le> ?d"
    using rates_ok [where rows = ?rows and demands = ?d and reason = ?reason] False assms(1) bounds pos by (fastforce simp: row_valid_def)
  have "?d \<le> 2 ^ 100 * 2 ^ 100" using bounds assms(2) by (auto intro: order_trans mult_left_mono)
  then have "h8 \<le> 2 ^ 1000" using r(13) by simp
  then obtain mean where "int_truediv h8 (int (length rows)) = Inr mean"
    using int_truediv_finite [of h8 "int (length rows)"] r(12) False by auto
  then show ?thesis using False r by (simp add: summary_def summary_valid_def)
qed

lemma grouped_summary_ok:
  assumes "\<forall>row \<in> set rows. row_valid row" and "int (length rows) \<le> 2 ^ 100"
  shows "\<exists>groups. grouped_summary key rows = Inr groups
    \<and> sum_of (\<lambda>(k, m). ms_sample_count m) groups = int (length rows)
    \<and> (\<forall>(k, m) \<in> set groups. summary_valid (ms_sample_count m) m)"
proof -
  let ?g = "sort_key fst (group_by (\<lambda>(s, r). key s) rows)"
  have "\<exists>ms. rmap (\<lambda>(k, group). rbind (summary group) (\<lambda>s. Inr (k, s))) gs = Inr ms
      \<and> sum_of (\<lambda>(k, m). ms_sample_count m) ms = sum_of (\<lambda>(k, g). int (length g)) gs
      \<and> (\<forall>(k, m) \<in> set ms. summary_valid (ms_sample_count m) m)" if "set gs \<subseteq> set ?g" for gs
    using that
  proof (induction gs)
    case (Cons kg gs)
    obtain k g where kg: "kg = (k, g)" by (cases kg)
    have "g = filter (\<lambda>row. (case row of (s, r) \<Rightarrow> key s) = k) rows"
      using Cons.prems group_by_entry [of k g "\<lambda>(s, r). key s" rows] by (auto simp: kg)
    then have "\<forall>row \<in> set g. row_valid row" "int (length g) \<le> int (length rows)"
      using assms(1) by (auto simp: length_filter_le)
    then obtain m where "summary g = Inr m" "summary_valid (int (length g)) m"
      using summary_ok [of g] assms(2) by auto
    with Cons show ?case by (auto simp: kg summary_valid_def)
  qed simp
  from this [OF order_refl] obtain ms where ms: "grouped_summary key rows = Inr ms"
    "sum_of (\<lambda>(k, m). ms_sample_count m) ms = sum_of (\<lambda>(k, g). int (length g)) ?g"
    "\<forall>(k, m) \<in> set ms. summary_valid (ms_sample_count m) m" unfolding grouped_summary_def by blast
  have "sum_of (\<lambda>(k, g). int (length g)) ?g = sum_of (\<lambda>(k, g). int (length g)) (group_by (\<lambda>(s, r). key s) rows)"
    by (rule sum_of_sort_key)
  also have "\<dots> = int (length rows)"
    using group_by_sum [of "\<lambda>_. 1" "\<lambda>(s, r). key s" rows] by (simp add: sum_list_triv case_prod_unfold)
  finally show ?thesis using ms by simp
qed

section \<open>Evaluation of a ranker\<close>

definition sample_valid :: "prediction_sample \<Rightarrow> bool" where
  "sample_valid s \<longleftrightarrow> smp_target_expert_ids s \<noteq> [] \<and> length (smp_target_expert_ids s) \<le> 2 ^ 100"

text \<open>Overall and in every grouping: valid summaries that count each sample once.\<close>

definition evaluation_valid :: "int \<Rightarrow> evaluation \<Rightarrow> bool" where
  "evaluation_valid n e \<longleftrightarrow> summary_valid n (ev_overall e)
     \<and> (\<forall>groups \<in> {ev_per_layer e, ev_per_phase e, ev_per_conversation e, ev_per_domain e}.
          sum_of (\<lambda>(k, m). ms_sample_count m) groups = n
          \<and> (\<forall>(k, m) \<in> set groups. summary_valid (ms_sample_count m) m))"

locale sample_ranker = ranker rank supports
  for rank :: "prediction_sample \<Rightarrow> int list res" and supports :: "prediction_sample \<Rightarrow> bool"
begin

lemma evaluate_ok:
  assumes "\<forall>s \<in> set samples. supports s \<and> sample_valid s" and "int (length samples) \<le> 2 ^ 100"
  shows "\<exists>e. evaluate_predictions samples rank = Inr e \<and> evaluation_valid (int (length samples)) e"
proof -
  have "\<exists>rows. rmap (\<lambda>s. rbind (rank s) (\<lambda>r. Inr (s, r))) samples = Inr rows
      \<and> length rows = length samples \<and> (\<forall>row \<in> set rows. row_valid row)"
    using assms(1)
  proof (induction samples)
    case (Cons s samples)
    moreover from Cons.prems obtain r where "rank s = Inr r" "is_permutation r"
      using rank_permutation by auto
    ultimately show ?case by (auto simp: row_valid_def sample_valid_def)
  qed simp
  then obtain rows where rows: "rmap (\<lambda>s. rbind (rank s) (\<lambda>r. Inr (s, r))) samples = Inr rows"
    and len: "length rows = length samples" and v: "\<forall>row \<in> set rows. row_valid row" by blast
  have l: "int (length rows) \<le> 2 ^ 100" using assms(2) len by simp
  note g = grouped_summary_ok [OF v l]
  obtain m where "summary rows = Inr m" "summary_valid (int (length rows)) m" using summary_ok [OF v l] by blast
  with rows len g [of "\<lambda>s. int_str (smp_target_layer s)"] g [of smp_phase] g [of smp_conversation_id] g [of smp_domain]
  show ?thesis by (elim exE conjE) (simp add: evaluate_predictions_def evaluation_valid_def)
qed

end

interpretation copy_evaluation: sample_ranker "\<lambda>s. Inr (copy_rank s)" "\<lambda>s. set (smp_source_expert_ids s) \<subseteq> {0..<128}"
  by unfold_locales

interpretation frequency_evaluation: sample_ranker "\<lambda>s. Inr (frequency_rank p s)" "\<lambda>s. True" for p
  by unfold_locales

interpretation transition_evaluation: sample_ranker "transition_rank p" "\<lambda>s. transition_ok p" for p
  by unfold_locales

section \<open>Evaluation of temporal rankings\<close>

definition temporal_summary_valid :: "int \<Rightarrow> temporal_summary \<Rightarrow> bool" where
  "temporal_summary_valid n m \<longleftrightarrow> tm_sample_count m = n \<and> (\<exists>r8 r12 r16 x.
     tm_recall_at_8 m = Fin r8 \<and> tm_recall_at_12 m = Fin r12 \<and> tm_recall_at_16 m = Fin r16
     \<and> tm_exact_set_match_at_8 m = Fin x
     \<and> 0 \<le> r8 \<and> r8 \<le> r12 \<and> r12 \<le> r16 \<and> r16 \<le> 1 \<and> 0 \<le> x \<and> x \<le> 1)"

definition temporal_row_valid :: "temporal_sample \<times> int list \<Rightarrow> bool" where
  "temporal_row_valid row \<longleftrightarrow> is_permutation (snd row) \<and> ts_target_expert_ids (fst row) \<noteq> []"

lemma temporal_summary_ok:
  assumes "\<forall>row \<in> set rows. temporal_row_valid row"
  shows "\<exists>m. temporal_summary_of rows = Inr m \<and> temporal_summary_valid (int (length rows)) m"
proof (cases "rows = []")
  case True
  then show ?thesis by (simp add: temporal_summary_of_def temporal_summary_valid_def)
next
  case False
  let ?rows = "map (\<lambda>(s, r). (set (ts_target_expert_ids s), r)) rows"
  let ?reason = "''temporal ranking must be a permutation of 128 experts''"
  let ?d = "sum_of (\<lambda>(s, r). int (card (set (ts_target_expert_ids s)))) rows"
  have "1 \<le> int (card (set (ts_target_expert_ids s)))" if "(s, r) \<in> set rows" for s r
    using assms that by (auto simp: temporal_row_valid_def Suc_le_eq card_gt_0_iff dest!: bspec)
  then have "sum_of (\<lambda>_. 1) rows \<le> ?d" by (intro sum_of_mono) auto
  then have pos: "0 < ?d" using False by (cases rows) (auto simp: sum_list_triv)
  have "sum_of (\<lambda>(T, r). int (card T)) ?rows \<le> ?d"
    unfolding map_map by (intro sum_of_mono) auto
  then obtain h8 h12 h16 ex r8 r12 r16 x where r: "rfold (count_row ?reason) (0, 0, 0, 0) ?rows = Inr (h8, h12, h16, ex)"
    "int_truediv h8 ?d = Inr (Fin r8)" "int_truediv h12 ?d = Inr (Fin r12)" "int_truediv h16 ?d = Inr (Fin r16)"
    "int_truediv ex (int (length ?rows)) = Inr (Fin x)" "0 \<le> r8" "r8 \<le> r12" "r12 \<le> r16" "r16 \<le> 1" "0 \<le> x" "x \<le> 1"
    using rates_ok [where rows = ?rows and demands = ?d and reason = ?reason] False assms pos by (fastforce simp: temporal_row_valid_def)
  then show ?thesis using False by (simp add: temporal_summary_of_def temporal_summary_valid_def)
qed

lemma temporal_grouped_summary_ok:
  assumes "\<forall>row \<in> set rows. temporal_row_valid row"
  shows "\<exists>groups. temporal_grouped_summary key rows = Inr groups
    \<and> sum_of (\<lambda>(k, m). tm_sample_count m) groups = int (length rows)
    \<and> (\<forall>(k, m) \<in> set groups. temporal_summary_valid (tm_sample_count m) m)"
proof -
  let ?g = "sort_key fst (group_by (\<lambda>(s, r). key s) rows)"
  have "\<exists>ms. rmap (\<lambda>(k, group). rbind (temporal_summary_of group) (\<lambda>s. Inr (k, s))) gs = Inr ms
      \<and> sum_of (\<lambda>(k, m). tm_sample_count m) ms = sum_of (\<lambda>(k, g). int (length g)) gs
      \<and> (\<forall>(k, m) \<in> set ms. temporal_summary_valid (tm_sample_count m) m)" if "set gs \<subseteq> set ?g" for gs
    using that
  proof (induction gs)
    case (Cons kg gs)
    obtain k g where kg: "kg = (k, g)" by (cases kg)
    have "g = filter (\<lambda>row. (case row of (s, r) \<Rightarrow> key s) = k) rows"
      using Cons.prems group_by_entry [of k g "\<lambda>(s, r). key s" rows] by (auto simp: kg)
    then have "\<forall>row \<in> set g. temporal_row_valid row" using assms by auto
    then obtain m where "temporal_summary_of g = Inr m" "temporal_summary_valid (int (length g)) m"
      using temporal_summary_ok [of g] by auto
    with Cons show ?case by (auto simp: kg temporal_summary_valid_def)
  qed simp
  from this [OF order_refl] obtain ms where ms: "temporal_grouped_summary key rows = Inr ms"
    "sum_of (\<lambda>(k, m). tm_sample_count m) ms = sum_of (\<lambda>(k, g). int (length g)) ?g"
    "\<forall>(k, m) \<in> set ms. temporal_summary_valid (tm_sample_count m) m" unfolding temporal_grouped_summary_def by blast
  have "sum_of (\<lambda>(k, g). int (length g)) ?g = sum_of (\<lambda>(k, g). int (length g)) (group_by (\<lambda>(s, r). key s) rows)"
    by (rule sum_of_sort_key)
  also have "\<dots> = int (length rows)"
    using group_by_sum [of "\<lambda>_. 1" "\<lambda>(s, r). key s" rows] by (simp add: sum_list_triv case_prod_unfold)
  finally show ?thesis using ms by simp
qed

section \<open>Properties\<close>

text \<open>
  Evaluating a fitted transition ranker always returns on samples with at least one target:
  its rankings pass the permutation check, no rate divides by zero, recall at 8, 12 and 16 are
  floats in ascending order between zero and one, the exact-match rate is between zero and one,
  and each of the four groupings counts every sample exactly once.
\<close>

theorem transition_evaluation_valid:
  assumes "transition_fit training weighting phase_mode = Inr p"
    and "\<forall>s \<in> set samples. sample_valid s" and "int (length samples) \<le> 2 ^ 100"
  shows "\<exists>e. evaluate_predictions samples (transition_rank p) = Inr e \<and> evaluation_valid (int (length samples)) e"
  by (rule transition_evaluation.evaluate_ok) (use assms transition_fit_ok in auto)

lemma transition_evaluation_valid_witness:
  "\<exists>p e. transition_fit [example_sample 3 [1] [5, 6]] ''raw_count'' ''pooled'' = Inr p
    \<and> evaluate_predictions [example_sample 3 [1] [5, 7], example_sample 4 [2] [5]] (transition_rank p) = Inr e
    \<and> evaluation_valid 2 e"
proof -
  obtain p where p: "transition_fit [example_sample 3 [1] [5, 6]] ''raw_count'' ''pooled'' = Inr p"
    by (simp add: transition_fit_def)
  from transition_evaluation_valid [OF p, of "[example_sample 3 [1] [5, 7], example_sample 4 [2] [5]]"] p
  show ?thesis by (simp add: sample_valid_def)
qed

text \<open>
  Evaluating one ranking per temporal sample returns when the rankings are permutations and
  every sample has a target, with the same bounds, and each grouping counts every sample once;
  with different numbers of samples and rankings it raises instead of pairing them wrongly.
\<close>

theorem temporal_evaluation_valid:
  assumes "\<forall>s \<in> set samples. ts_target_expert_ids s \<noteq> []" and "\<forall>r \<in> set rankings. is_permutation r"
  shows "if length samples = length rankings
    then \<exists>e. evaluate_temporal_predictions samples rankings = Inr e
      \<and> temporal_summary_valid (int (length samples)) (te_overall e)
      \<and> (\<forall>groups \<in> {te_per_conversation e, te_per_domain e}.
          sum_of (\<lambda>(k, m). tm_sample_count m) groups = int (length samples)
          \<and> (\<forall>(k, m) \<in> set groups. temporal_summary_valid (tm_sample_count m) m))
    else \<not> is_ok (evaluate_temporal_predictions samples rankings)"
proof (cases "length samples = length rankings")
  case True
  let ?rows = "zip samples rankings"
  have v: "\<forall>row \<in> set ?rows. temporal_row_valid row"
    using assms by (auto simp: temporal_row_valid_def dest: set_zip_leftD set_zip_rightD)
  note g = temporal_grouped_summary_ok [OF v]
  obtain m where "temporal_summary_of ?rows = Inr m" "temporal_summary_valid (int (length ?rows)) m"
    using temporal_summary_ok [OF v] by blast
  with True g [of ts_conversation_id] g [of ts_domain] show ?thesis
    by (elim exE conjE) (simp add: evaluate_temporal_predictions_def Let_def)
next
  case False
  then show ?thesis by (simp add: evaluate_temporal_predictions_def)
qed

lemma temporal_evaluation_valid_witness:
  "\<exists>e. evaluate_temporal_predictions [example_temporal 0 [3] [4, 9]] [experts] = Inr e
    \<and> temporal_summary_valid 1 (te_overall e)"
  using temporal_evaluation_valid [of "[example_temporal 0 [3] [4, 9]]" "[experts]"]
  by (auto simp: example_temporal_def is_permutation_def)

end
