(* ===== verification/Pyvalue.thy ===== *)
theory Pyvalue
  imports Json
begin

text \<open>
  Python's operations on values whose type is only known at run time, for the validators of the
  compiler: equality (numbers compare by exact value across \<open>bool\<close>, \<open>int\<close> and \<open>float\<close>, dictionaries
  regardless of order), truth, arithmetic of mixed \<open>int\<close> and \<open>float\<close> operands, and the checks of
  \<open>compiler/schema.py\<close> that every normalised input starts with. A check returns the value it has
  narrowed, so the code that follows a check reads a typed value.
\<close>

section \<open>Equality and truth\<close>

text \<open>The exact value of a number; \<open>True\<close> is one.\<close>

definition exact_num :: "json \<Rightarrow> pyfloat option" where
  "exact_num v = (case v of JBool b \<Rightarrow> Some (Fin (if b then 1 else 0)) | JInt n \<Rightarrow> Some (Fin (of_int n))
     | JFloat x \<Rightarrow> Some x | _ \<Rightarrow> None)"

function jeq :: "json \<Rightarrow> json \<Rightarrow> bool" where
  "jeq (JArr xs) v = (case v of JArr ys \<Rightarrow> length xs = length ys \<and> list_all (\<lambda>(x, y). jeq x y) (zip xs ys)
     | _ \<Rightarrow> False)"
| "jeq (JObj d) v = (case v of JObj e \<Rightarrow> length d = length e \<and>
       list_all (\<lambda>(k, x). case map_of e k of None \<Rightarrow> False | Some y \<Rightarrow> jeq x y) d
     | _ \<Rightarrow> False)"
| "jeq JNull v = (v = JNull)"
| "jeq (JStr s) v = (v = JStr s)"
| "jeq (JBool b) v = (case exact_num v of None \<Rightarrow> False | Some y \<Rightarrow> py_eq (Fin (if b then 1 else 0)) y)"
| "jeq (JInt n) v = (case exact_num v of None \<Rightarrow> False | Some y \<Rightarrow> py_eq (Fin (of_int n)) y)"
| "jeq (JFloat x) v = (case exact_num v of None \<Rightarrow> False | Some y \<Rightarrow> py_eq x y)"
  by pat_completeness auto

lemma size_json_pair: "(k, x) \<in> set d \<Longrightarrow> size x < Suc (size_list (size_prod (\<lambda>_. 0) size) d)"
  by (induction d) (auto simp: less_Suc_eq)

lemma size_json_zip: "(x, y) \<in> set (zip xs ys) \<Longrightarrow> size x < Suc (size_list size xs)"
  by (auto dest!: set_zip_leftD intro: le_imp_less_Suc size_list_estimation')

termination jeq
  by (relation "measure (size \<circ> fst)") (auto simp: size_json_pair size_json_zip)

text \<open>\<open>bool(v)\<close>.\<close>

definition truthy :: "json \<Rightarrow> bool" where
  "truthy v = (case v of JNull \<Rightarrow> False | JBool b \<Rightarrow> b | JInt n \<Rightarrow> n \<noteq> 0 | JFloat x \<Rightarrow> x \<noteq> Fin 0
     | JStr s \<Rightarrow> s \<noteq> [] | JArr xs \<Rightarrow> xs \<noteq> [] | JObj d \<Rightarrow> d \<noteq> [])"

lemma jeq_JStr [simp]: "jeq v (JStr s) \<longleftrightarrow> v = JStr s"
  by (cases v) (auto simp: exact_num_def)

lemma jeq_JInt_JInt [simp]: "jeq (JInt a) (JInt b) \<longleftrightarrow> a = b"
  by (simp add: exact_num_def py_eq_def)

section \<open>Numbers of mixed type\<close>

definition num_op :: "(int \<Rightarrow> int \<Rightarrow> json res) \<Rightarrow> (pyfloat \<Rightarrow> pyfloat \<Rightarrow> pyfloat res) \<Rightarrow> json \<Rightarrow> json \<Rightarrow> json res" where
  "num_op f g a b = (case (a, b) of (JInt m, JInt n) \<Rightarrow> f m n
     | _ \<Rightarrow> rbind (json_float a) (\<lambda>x. rbind (json_float b) (\<lambda>y. rbind (g x y) (\<lambda>z. Inr (JFloat z)))))"

definition num_sub :: "json \<Rightarrow> json \<Rightarrow> json res" where
  "num_sub = num_op (\<lambda>m n. Inr (JInt (m - n))) (\<lambda>x y. Inr (fsub x y))"

definition num_mul :: "json \<Rightarrow> json \<Rightarrow> json res" where
  "num_mul = num_op (\<lambda>m n. Inr (JInt (m * n))) (\<lambda>x y. Inr (fmul x y))"

definition num_div :: "json \<Rightarrow> json \<Rightarrow> json res" where
  "num_div = num_op (\<lambda>m n. rbind (int_truediv m n) (\<lambda>q. Inr (JFloat q))) fdiv"

definition num_abs :: "json \<Rightarrow> json" where
  "num_abs a = (case a of JInt n \<Rightarrow> JInt \<bar>n\<bar> | JFloat x \<Rightarrow> JFloat (fabs x) | _ \<Rightarrow> a)"

definition num_neg :: "json \<Rightarrow> json" where
  "num_neg a = (case a of JInt n \<Rightarrow> JInt (- n) | JFloat x \<Rightarrow> JFloat (fneg x) | _ \<Rightarrow> a)"

text \<open>The exact value used by comparisons; only applied to numbers.\<close>

definition num_val :: "json \<Rightarrow> pyfloat" where
  "num_val a = (case exact_num a of Some x \<Rightarrow> x | None \<Rightarrow> NaN)"

definition num_less :: "json \<Rightarrow> json \<Rightarrow> bool" where
  "num_less a b = py_less (num_val a) (num_val b)"

text \<open>\<open>max(a, b)\<close> keeps the first of two equal arguments, whatever their types.\<close>

definition num_max :: "json \<Rightarrow> json \<Rightarrow> json" where
  "num_max a b = (if num_less a b then b else a)"

text \<open>\<open>type(v) is int\<close> and \<open>type(v) is bool\<close>.\<close>

definition is_int_value :: "json \<Rightarrow> bool" where
  "is_int_value v = (case v of JInt _ \<Rightarrow> True | _ \<Rightarrow> False)"

definition is_bool_value :: "json \<Rightarrow> bool" where
  "is_bool_value v = (case v of JBool _ \<Rightarrow> True | _ \<Rightarrow> False)"

section \<open>Containers\<close>

text \<open>A value used as a dictionary, with \<open>v.get\<close> and with \<open>v[k]\<close>.\<close>

definition as_record :: "json \<Rightarrow> jrecord res" where
  "as_record v = (case v of JObj d \<Rightarrow> Inr d | _ \<Rightarrow> Inl AttributeError)"

definition subscript :: "json \<Rightarrow> string \<Rightarrow> json res" where
  "subscript v k = (case v of JObj d \<Rightarrow> dict_index d k | _ \<Rightarrow> Inl TypeError)"

text \<open>Iteration over a value: the items of a list, the characters of a string, the keys of a dictionary.\<close>

definition py_iter :: "json \<Rightarrow> json list res" where
  "py_iter v = (case v of JArr xs \<Rightarrow> Inr xs | JStr s \<Rightarrow> Inr (map (\<lambda>c. JStr [c]) s)
     | JObj d \<Rightarrow> Inr (map (JStr \<circ> fst) d) | _ \<Rightarrow> Inl TypeError)"

definition unhashable :: "json \<Rightarrow> bool" where
  "unhashable v = (case v of JArr _ \<Rightarrow> True | JObj _ \<Rightarrow> True | _ \<Rightarrow> False)"

text \<open>\<open>len(set(xs)) == len(xs)\<close>; an unhashable item raises.\<close>

definition unique_values :: "json list \<Rightarrow> bool res" where
  "unique_values xs = (if list_ex unhashable xs then Inl TypeError
     else Inr (\<forall>i < length xs. \<forall>j < i. \<not> jeq (xs ! i) (xs ! j)))"

text \<open>\<open>len(set(xs))\<close>.\<close>

definition count_values :: "json list \<Rightarrow> int res" where
  "count_values xs = (if list_ex unhashable xs then Inl TypeError
     else Inr (int (length (foldl (\<lambda>s x. if list_ex (\<lambda>y. jeq y x) s then s else s @ [x]) [] xs))))"

text \<open>\<open>max(xs)\<close> of numbers.\<close>

definition max_number :: "json list \<Rightarrow> json res" where
  "max_number xs = (case xs of [] \<Rightarrow> Inl (ValueError ''max() iterable argument is empty'')
     | x # ys \<Rightarrow> if list_ex (\<lambda>v. exact_num v = None) xs then Inl TypeError else Inr (foldl num_max x ys))"

definition num_le :: "json \<Rightarrow> json \<Rightarrow> bool" where
  "num_le a b = py_le (num_val a) (num_val b)"

text \<open>\<open>pattern in text\<close>.\<close>

definition contains :: "string \<Rightarrow> string \<Rightarrow> bool" where
  "contains pattern s \<longleftrightarrow> list_ex (\<lambda>i. take (length pattern) (drop i s) = pattern) [0..<Suc (length s)]"

definition py_len :: "json \<Rightarrow> int res" where
  "py_len v = (case v of JArr xs \<Rightarrow> Inr (int (length xs)) | JStr s \<Rightarrow> Inr (int (length s))
     | JObj d \<Rightarrow> Inr (int (length d)) | _ \<Rightarrow> Inl TypeError)"

text \<open>\<open>x in container\<close>.\<close>

definition py_in :: "json \<Rightarrow> json \<Rightarrow> bool res" where
  "py_in x container = (case container of JArr xs \<Rightarrow> Inr (list_ex (\<lambda>y. jeq x y) xs)
     | JObj d \<Rightarrow> (case x of JArr _ \<Rightarrow> Inl TypeError | JObj _ \<Rightarrow> Inl TypeError | JStr s \<Rightarrow> Inr (s \<in> fst ` set d) | _ \<Rightarrow> Inr False)
     | JStr t \<Rightarrow> (case x of JStr s \<Rightarrow> Inr (contains s t) | _ \<Rightarrow> Inl TypeError)
     | _ \<Rightarrow> Inl TypeError)"

section \<open>Checks\<close>

definition require_int :: "json \<Rightarrow> string \<Rightarrow> int \<Rightarrow> int res" where
  "require_int value name minimum = (case value of
     JInt n \<Rightarrow> if n < minimum then Inl (ValueError (name @ '' must be an integer >= '' @ int_str minimum)) else Inr n
   | _ \<Rightarrow> Inl (ValueError (name @ '' must be an integer >= '' @ int_str minimum)))"

text \<open>\<open>math.isfinite\<close> of an \<open>int\<close> converts it first; the overflow is caught and refused.\<close>

definition valid_number :: "json \<Rightarrow> pyfloat \<Rightarrow> bool" where
  "valid_number value minimum = (case value of
     JInt n \<Rightarrow> is_ok (float_of_int n) \<and> py_le minimum (Fin (of_int n))
   | JFloat x \<Rightarrow> isfinite x \<and> py_le minimum x
   | _ \<Rightarrow> False)"

definition require_number :: "json \<Rightarrow> string \<Rightarrow> pyfloat \<Rightarrow> json res" where
  "require_number value name minimum =
     (if valid_number value minimum then Inr value else Inl (ValueError (name @ '' must be finite and >= minimum'')))"

text \<open>The literal \<open>0.000001\<close>.\<close>

definition MICRO :: pyfloat where
  "MICRO = dbl (1 / 10 ^ 6)"

definition hex_char :: "char \<Rightarrow> bool" where
  "hex_char c \<longleftrightarrow> c \<in> set ''0123456789abcdef''"

definition is_hash :: "string \<Rightarrow> bool" where
  "is_hash s \<longleftrightarrow> length s = 64 \<and> list_all hex_char s"

definition require_hash :: "json \<Rightarrow> string \<Rightarrow> string res" where
  "require_hash value name = (case value of
     JStr s \<Rightarrow> if is_hash s then Inr s else Inl (ValueError (name @ '' must be a lowercase SHA-256''))
   | _ \<Rightarrow> Inl (ValueError (name @ '' must be a lowercase SHA-256'')))"

text \<open>The characters \<open>str.strip\<close> removes, among the first 256 code points.\<close>

definition py_isspace :: "char \<Rightarrow> bool" where
  "py_isspace c = (let n = (of_char c :: nat) in 9 \<le> n \<and> n \<le> 13 \<or> 28 \<le> n \<and> n \<le> 32 \<or> n = 133 \<or> n = 160)"

definition is_text :: "string \<Rightarrow> bool" where
  "is_text s \<longleftrightarrow> \<not> list_all py_isspace s"

definition require_text :: "json \<Rightarrow> string \<Rightarrow> string res" where
  "require_text value name = (case value of
     JStr s \<Rightarrow> if is_text s then Inr s else Inl (ValueError (name @ '' must be nonempty text''))
   | _ \<Rightarrow> Inl (ValueError (name @ '' must be nonempty text'')))"

text \<open>\<open>reference.SCHEMA_VERSION\<close> of the compiler, and its check.\<close>

definition PLAN_SCHEMA :: string where
  "PLAN_SCHEMA = ''1.0.0''"

definition require_schema :: "json \<Rightarrow> string res" where
  "require_schema value = (if jeq value (JStr PLAN_SCHEMA) then Inr PLAN_SCHEMA
     else Inl (ValueError ''unsupported schema''))"

named_theorems require_simps "what a check accepts"

lemma require_int_ok [require_simps]: "require_int v name m = Inr n \<longleftrightarrow> v = JInt n \<and> m \<le> n"
  by (cases v) (auto simp: require_int_def)

lemma require_hash_ok [require_simps]: "require_hash v name = Inr s \<longleftrightarrow> v = JStr s \<and> is_hash s"
  by (cases v) (auto simp: require_hash_def)

lemma require_text_ok [require_simps]: "require_text v name = Inr s \<longleftrightarrow> v = JStr s \<and> is_text s"
  by (cases v) (auto simp: require_text_def)

lemma require_schema_ok [require_simps]: "require_schema v = Inr s \<longleftrightarrow> v = JStr PLAN_SCHEMA \<and> s = PLAN_SCHEMA"
  by (auto simp: require_schema_def)

lemma require_number_ok [require_simps]: "require_number v name m = Inr w \<longleftrightarrow> w = v \<and> valid_number v m"
  by (auto simp: require_number_def)

lemma valid_number_cases:
  assumes "valid_number v m"
  obtains (int) n where "v = JInt n" "m \<le> Fin (of_int n)" "m \<noteq> NaN" "is_ok (float_of_int n)"
    | (float) x where "v = JFloat (Fin x)" "m \<le> Fin x" "m \<noteq> NaN"
  using assms by (auto simp: valid_number_def isfinite_def py_le_def split: json.splits pyfloat.splits)

lemma valid_number_val: "valid_number v m \<Longrightarrow> \<exists>x. num_val v = Fin x \<and> m \<le> Fin x"
  by (erule valid_number_cases) (auto simp: num_val_def exact_num_def)

lemma MICRO_pos: "\<exists>x. MICRO = Fin x \<and> 0 < x"
proof -
  have "pow2 (- 20) \<le> (1 / 10 ^ 6 :: rat)" "1 / 10 ^ 6 \<le> (1 :: rat)" by (simp_all add: pow2_def)
  then have "dround (pow2 (- 20)) \<le> dround (1 / 10 ^ 6)" "dbl (1 / 10 ^ 6) \<le> dbl 1" "0 \<le> (1 / 10 ^ 6 :: rat)"
    by (auto intro: dround_mono dbl_mono simp del: dbl_1)
  then obtain r where r: "dbl (1 / 10 ^ 6) = Fin r" "pow2 (- 20) \<le> r"
    using dbl_unit_interval [of "1 / 10 ^ 6"] dround_pow2 [of "- 20"]
    by (auto simp: dbl_def Let_def split: if_splits)
  then have "0 < r" using pow2_pos [of "- 20"] by linarith
  with r show ?thesis by (simp add: MICRO_def)
qed

lemma valid_number_int: "1 \<le> n \<Longrightarrow> n \<le> 2 ^ 1000 \<Longrightarrow> valid_number (JInt n) MICRO"
proof -
  assume n: "1 \<le> n" "n \<le> 2 ^ 1000"
  have "MICRO \<le> dbl 1" unfolding MICRO_def by (rule dbl_mono) simp
  also have "\<dots> \<le> Fin (of_int n)" using n(1) by simp
  finally show ?thesis using float_of_int_finite [of n] n MICRO_pos
    by (auto simp: valid_number_def py_le_def is_ok_iff)
qed

section \<open>Canonical payloads\<close>

text \<open>
  \<open>canonical_payload\<close> copies a JSON value and refuses a non-finite float. \<open>canonical_json\<close> sorts
  the keys of every object, so the text depends on the value up to the order of the keys;
  \<open>canonical_sha256\<close> is a digest of the value with its keys sorted. The digest itself (SHA-256 of
  the compact JSON text) is the argument \<open>digest\<close>.
\<close>

fun canonical_payload :: "json \<Rightarrow> json res" where
  "canonical_payload (JFloat x) = rbind (require_number (JFloat (fabs x)) ''JSON number'' (Fin 0)) (\<lambda>_. Inr (JFloat x))"
| "canonical_payload (JArr xs) = rbind (rmap canonical_payload xs) (\<lambda>ys. Inr (JArr ys))"
| "canonical_payload (JObj d) =
     rbind (rmap (\<lambda>(k, v). rbind (canonical_payload v) (\<lambda>w. Inr (k, w))) d) (\<lambda>e. Inr (JObj e))"
| "canonical_payload v = Inr v"

fun sort_keys :: "json \<Rightarrow> json" where
  "sort_keys (JArr xs) = JArr (map sort_keys xs)"
| "sort_keys (JObj d) = JObj (sort_key fst (map (\<lambda>(k, v). (k, sort_keys v)) d))"
| "sort_keys v = v"

definition canonical_sha256 :: "(json \<Rightarrow> string) \<Rightarrow> json \<Rightarrow> string res" where
  "canonical_sha256 digest v = rbind (canonical_payload v) (\<lambda>p. Inr (digest (sort_keys p)))"

lemma rmap_id: "(\<And>x y. x \<in> set xs \<Longrightarrow> f x = Inr y \<Longrightarrow> y = x) \<Longrightarrow> rmap f xs = Inr ys \<Longrightarrow> ys = xs"
  by (induction xs arbitrary: ys) (auto simp: rbind_eq_Inr)

lemma canonical_payload_id: "canonical_payload v = Inr p \<Longrightarrow> p = v"
proof (induction v arbitrary: p rule: canonical_payload.induct)
  case (2 xs)
  then show ?case by (auto simp: rbind_eq_Inr dest: rmap_id [rotated])
next
  case (3 d)
  from "3.prems" obtain e where e: "rmap (\<lambda>(k, v). rbind (canonical_payload v) (\<lambda>w. Inr (k, w))) d = Inr e" "p = JObj e"
    by (auto simp: rbind_eq_Inr)
  have "e = d" using e(1) by (rule rmap_id [rotated]) (use "3.IH" in \<open>fastforce simp: rbind_eq_Inr\<close>)
  with e(2) show ?case by simp
qed (auto simp: rbind_eq_Inr)

end
