(* ===== verification/Compiler_Schema.thy ===== *)
theory Compiler_Schema
  imports Pyvalue
begin

text \<open>
  \<open>compiler/schema.py\<close>: the immutable, normalised inputs of the compiler. A constructor takes the
  values a caller may pass (\<open>json\<close> where the class checks the type itself) and is the class's
  \<open>__post_init__\<close>: it either raises or returns the frozen record. \<open>WorkloadIR\<close> takes the
  dictionary of keyword arguments its callers build, with the class's defaults for absent ones.
  The lemmas give the invariant each record satisfies, the independence of the order in which the
  layers are listed, and the round trip of a workload through its canonical payload.
\<close>

section \<open>Identities and model\<close>

record artifact_identity =
  ai_path :: string
  ai_size_bytes :: int
  ai_sha256 :: string

definition ArtifactIdentity :: "json \<Rightarrow> json \<Rightarrow> json \<Rightarrow> artifact_identity res" where
  "ArtifactIdentity path size_bytes sha256 =
     rbind (require_text path ''artifact path'') (\<lambda>p.
     rbind (require_int size_bytes ''artifact size'' 1) (\<lambda>n.
     rbind (require_hash sha256 ''sha256'') (\<lambda>h.
       Inr \<lparr>ai_path = p, ai_size_bytes = n, ai_sha256 = h\<rparr>)))"

record moe_layer_ir =
  ml_layer_id :: int
  ml_expert_count :: int
  ml_expert_top_k :: int
  ml_expert_bundle_bytes :: int
  ml_routed_expert_bank_bytes :: int
  ml_component_bank_bytes :: "int list"

definition MoELayerIR :: "json \<Rightarrow> json \<Rightarrow> json \<Rightarrow> json \<Rightarrow> json \<Rightarrow> json list \<Rightarrow> moe_layer_ir res" where
  "MoELayerIR layer_id expert_count expert_top_k expert_bundle_bytes routed_expert_bank_bytes component_bank_bytes =
     rbind (require_int layer_id ''layer_id'' 0) (\<lambda>i.
     rbind (require_int expert_count ''expert_count'' 1) (\<lambda>n.
     rbind (require_int expert_top_k ''expert_top_k'' 1) (\<lambda>k.
     rbind (require_int expert_bundle_bytes ''expert_bundle_bytes'' 1) (\<lambda>bundle.
     rbind (require_int routed_expert_bank_bytes ''routed_expert_bank_bytes'' 1) (\<lambda>bank.
     if n < k then Inl (ValueError ''top_k exceeds expert_count'')
     else let components = if component_bank_bytes = [] then [JInt bank] else component_bank_bytes in
     rbind (rmap (\<lambda>v. require_int v ''component bytes'' 1) components) (\<lambda>cs.
     if sum_list cs \<noteq> bank then Inl (ValueError ''component bytes do not sum to expert bank'')
     else Inr \<lparr>ml_layer_id = i, ml_expert_count = n, ml_expert_top_k = k, ml_expert_bundle_bytes = bundle,
       ml_routed_expert_bank_bytes = bank, ml_component_bank_bytes = cs\<rparr>))))))"

record model_ir =
  md_schema_version :: string
  md_identity :: artifact_identity
  md_family :: string
  md_architecture :: string
  md_quantization :: string
  md_expert_count :: int
  md_expert_top_k :: int
  md_moe_layers :: "moe_layer_ir list"
  md_kv_kind :: string
  md_mtp_kind :: string
  md_alignment_bytes :: int
  md_inventory_sha256 :: "string option"

text \<open>An optional digest: \<open>None\<close>, or checked.\<close>

definition optional_hash :: "json \<Rightarrow> string option res" where
  "optional_hash v = (if v = JNull then Inr None else rbind (require_hash v ''sha256'') (\<lambda>h. Inr (Some h)))"

definition ModelIR :: "json \<Rightarrow> artifact_identity \<Rightarrow> json \<Rightarrow> json \<Rightarrow> json \<Rightarrow> json \<Rightarrow> json \<Rightarrow> moe_layer_ir list
    \<Rightarrow> json \<Rightarrow> json \<Rightarrow> json \<Rightarrow> json \<Rightarrow> model_ir res" where
  "ModelIR schema_version identity family architecture quantization expert_count expert_top_k moe_layers
      kv_kind mtp_kind alignment_bytes inventory_sha256 =
     rbind (require_schema schema_version) (\<lambda>version.
     rbind (require_text family ''family'') (\<lambda>fam.
     rbind (require_text architecture ''architecture'') (\<lambda>arch.
     rbind (require_text quantization ''quantization'') (\<lambda>quant.
     rbind (require_text kv_kind ''kv_kind'') (\<lambda>kv.
     rbind (require_text mtp_kind ''mtp_kind'') (\<lambda>mtp.
     rbind (require_int expert_count ''expert_count'' 1) (\<lambda>n.
     rbind (require_int expert_top_k ''expert_top_k'' 1) (\<lambda>k.
     rbind (require_int alignment_bytes ''alignment_bytes'' 1) (\<lambda>align.
     if n < k then Inl (ValueError ''top_k exceeds expert_count'')
     else rbind (optional_hash inventory_sha256) (\<lambda>inventory.
     if moe_layers = [] then Inl (ValueError ''model requires normalized MoE layers'')
     else let layers = sort_key ml_layer_id moe_layers in
     if \<not> distinct (map ml_layer_id layers) then Inl (ValueError ''duplicate layer IDs'')
     else if list_ex (\<lambda>x. (ml_expert_count x, ml_expert_top_k x) \<noteq> (n, k)) layers
     then Inl (ValueError ''inconsistent layer expert counts/top_k'')
     else Inr \<lparr>md_schema_version = version, md_identity = identity, md_family = fam, md_architecture = arch,
       md_quantization = quant, md_expert_count = n, md_expert_top_k = k, md_moe_layers = layers, md_kv_kind = kv,
       md_mtp_kind = mtp, md_alignment_bytes = align, md_inventory_sha256 = inventory\<rparr>))))))))))"

section \<open>Hardware\<close>

record hardware_ir =
  hw_gpu_uuid :: string
  hw_gpu_name :: string
  hw_compute_capability :: string
  hw_total_vram_bytes :: int
  hw_usable_vram_bytes :: int
  hw_driver_version :: string
  hw_cuda_version :: string
  hw_cuda_runtime_sha256 :: string
  hw_minimum_reserve_bytes :: int
  hw_supported_features :: "string list"
  hw_calibration_sha256 :: "string option"

definition feature :: "json \<Rightarrow> string res" where
  "feature x = (case x of JStr s \<Rightarrow> if s = [] then Inl (ValueError ''invalid hardware features'') else Inr s
     | _ \<Rightarrow> Inl (ValueError ''invalid hardware features''))"

definition HardwareIR :: "json \<Rightarrow> json \<Rightarrow> json \<Rightarrow> json \<Rightarrow> json \<Rightarrow> json \<Rightarrow> json \<Rightarrow> json \<Rightarrow> json \<Rightarrow> json list
    \<Rightarrow> json \<Rightarrow> hardware_ir res" where
  "HardwareIR gpu_uuid gpu_name compute_capability total_vram_bytes usable_vram_bytes driver_version cuda_version
      cuda_runtime_sha256 minimum_reserve_bytes supported_features calibration_sha256 =
     rbind (require_text gpu_uuid ''gpu_uuid'') (\<lambda>uuid.
     rbind (require_text gpu_name ''gpu_name'') (\<lambda>gpu.
     rbind (require_text compute_capability ''compute_capability'') (\<lambda>cc.
     rbind (require_text driver_version ''driver_version'') (\<lambda>driver.
     rbind (require_text cuda_version ''cuda_version'') (\<lambda>cuda.
     rbind (require_int total_vram_bytes ''total_vram_bytes'' 1) (\<lambda>all.
     rbind (require_int usable_vram_bytes ''usable_vram_bytes'' 1) (\<lambda>usable.
     rbind (require_int minimum_reserve_bytes ''minimum_reserve_bytes'' 1) (\<lambda>reserve.
     if all < usable + reserve then Inl (ValueError ''usable VRAM exceeds reserved allocation frontier'')
     else rbind (require_hash cuda_runtime_sha256 ''sha256'') (\<lambda>runtime.
     rbind (optional_hash calibration_sha256) (\<lambda>calibration.
     rbind (rmap feature supported_features) (\<lambda>features.
       Inr \<lparr>hw_gpu_uuid = uuid, hw_gpu_name = gpu, hw_compute_capability = cc, hw_total_vram_bytes = all,
         hw_usable_vram_bytes = usable, hw_driver_version = driver, hw_cuda_version = cuda,
         hw_cuda_runtime_sha256 = runtime, hw_minimum_reserve_bytes = reserve,
         hw_supported_features = sort (remdups features), hw_calibration_sha256 = calibration\<rparr>)))))))))))"

section \<open>Workload\<close>

datatype exactness_policy = EXACT | APPROXIMATE

datatype objective = DECODE_TPS

record workload_ir =
  wl_prompt :: string
  wl_context_size :: int
  wl_predict_tokens :: int
  wl_schema_version :: string
  wl_objective :: objective
  wl_policy :: exactness_policy
  wl_runtime_interface :: string
  wl_concurrency :: int
  wl_threads :: int
  wl_seed :: int
  wl_temperature :: json
  wl_ignore_eos :: bool
  wl_cache_prompt :: bool
  wl_kv_type_k :: json
  wl_kv_type_v :: json
  wl_cuda_graphs :: string
  wl_batch_size :: int
  wl_microbatch_size :: int
  wl_warmup_runs :: int
  wl_measured_runs :: int
  wl_minimum_vram_reserve_mib :: int
  wl_maximum_cv_pct :: json
  wl_confirmation_pairs :: int
  wl_bootstrap_samples :: int
  wl_bootstrap_seed :: int
  wl_replay_tolerance_pct :: json
  wl_health_timeout_seconds :: int
  wl_completion_timeout_seconds :: int
  wl_approximate_quality_budget :: json

definition policy_of :: "json \<Rightarrow> exactness_policy res" where
  "policy_of v = (if v = JStr ''exact'' then Inr EXACT else if v = JStr ''approximate'' then Inr APPROXIMATE
     else Inl (ValueError ''unsupported objective/policy''))"

definition policy_value :: "exactness_policy \<Rightarrow> json" where
  "policy_value p = (case p of EXACT \<Rightarrow> JStr ''exact'' | APPROXIMATE \<Rightarrow> JStr ''approximate'')"

definition objective_of :: "json \<Rightarrow> objective res" where
  "objective_of v = (if v = JStr ''decode_tps'' then Inr DECODE_TPS
     else Inl (ValueError ''unsupported objective/policy''))"

text \<open>The fields in declaration order, with the class's defaults; the first three have none.\<close>

definition workload_defaults :: "(string \<times> json option) list" where
  "workload_defaults = [(''prompt'', None), (''context_size'', None), (''predict_tokens'', None),
     (''schema_version'', Some (JStr PLAN_SCHEMA)), (''objective'', Some (JStr ''decode_tps'')),
     (''policy'', Some (JStr ''exact'')), (''runtime_interface'', Some (JStr ''server_completion'')),
     (''concurrency'', Some (JInt 1)), (''threads'', Some (JInt 12)), (''seed'', Some (JInt 42)),
     (''temperature'', Some (JFloat (Fin 0))), (''ignore_eos'', Some (JBool True)),
     (''cache_prompt'', Some (JBool False)), (''kv_type_k'', Some (JStr ''f16'')),
     (''kv_type_v'', Some (JStr ''f16'')), (''cuda_graphs'', Some (JStr ''on'')),
     (''batch_size'', Some (JInt 2048)), (''microbatch_size'', Some (JInt 512)),
     (''warmup_runs'', Some (JInt 1)), (''measured_runs'', Some (JInt 3)),
     (''minimum_vram_reserve_mib'', Some (JInt 256)), (''maximum_cv_pct'', Some (JFloat (Fin 10))),
     (''confirmation_pairs'', Some (JInt 10)), (''bootstrap_samples'', Some (JInt 10000)),
     (''bootstrap_seed'', Some (JInt 20261003)), (''replay_tolerance_pct'', Some (JFloat (Fin 2))),
     (''health_timeout_seconds'', Some (JInt 180)), (''completion_timeout_seconds'', Some (JInt 300)),
     (''approximate_quality_budget'', Some JNull)]"

text \<open>Binding of keyword arguments: an unknown or a missing one raises \<open>TypeError\<close>.\<close>

definition bind_kwargs :: "(string \<times> json option) list \<Rightarrow> jrecord \<Rightarrow> jrecord res" where
  "bind_kwargs specs kwargs =
     (if list_ex (\<lambda>k. k \<notin> fst ` set specs) (jkeys kwargs) then Inl TypeError
      else rmap (\<lambda>(name, default). case map_of kwargs name of Some v \<Rightarrow> Inr (name, v)
         | None \<Rightarrow> (case default of Some v \<Rightarrow> Inr (name, v) | None \<Rightarrow> Inl TypeError)) specs)"

definition require_bool :: "json \<Rightarrow> string \<Rightarrow> bool res" where
  "require_bool v message = (case v of JBool b \<Rightarrow> Inr b | _ \<Rightarrow> Inl (ValueError message))"

text \<open>\<open>value in {'on', 'off'}\<close>; a list or a dictionary is not hashable.\<close>

definition on_off :: "json \<Rightarrow> string \<Rightarrow> string res" where
  "on_off v message = (case v of JStr s \<Rightarrow> if s = ''on'' \<or> s = ''off'' then Inr s else Inl (ValueError message)
     | JArr _ \<Rightarrow> Inl TypeError | JObj _ \<Rightarrow> Inl TypeError | _ \<Rightarrow> Inl (ValueError message))"

text \<open>The integer and the number fields, checked in this order.\<close>

definition workload_int_fields :: "string list" where
  "workload_int_fields = [''context_size'', ''predict_tokens'', ''threads'', ''batch_size'', ''microbatch_size'',
     ''warmup_runs'', ''measured_runs'', ''minimum_vram_reserve_mib'', ''confirmation_pairs'',
     ''bootstrap_samples'', ''health_timeout_seconds'', ''completion_timeout_seconds'']"

definition the_int :: "json \<Rightarrow> int" where
  "the_int v = (case v of JInt n \<Rightarrow> n | _ \<Rightarrow> 0)"

text \<open>The exact policy refuses every setting that could change the output.\<close>

definition approximate_setting :: "jrecord \<Rightarrow> bool" where
  "approximate_setting r \<longleftrightarrow> \<not> jeq (jget r ''temperature'') (JInt 0) \<or> jget r ''ignore_eos'' \<noteq> JBool True
     \<or> jget r ''cache_prompt'' \<noteq> JBool False \<or> jget r ''kv_type_k'' \<noteq> JStr ''f16''
     \<or> jget r ''kv_type_v'' \<noteq> JStr ''f16'' \<or> jget r ''approximate_quality_budget'' \<noteq> JNull"

definition WorkloadIR :: "jrecord \<Rightarrow> workload_ir res" where
  "WorkloadIR kwargs =
     rbind (bind_kwargs workload_defaults kwargs) (\<lambda>r.
     rbind (require_schema (jget r ''schema_version'')) (\<lambda>version.
     rbind (objective_of (jget r ''objective'')) (\<lambda>goal.
     rbind (policy_of (jget r ''policy'')) (\<lambda>policy.
     rbind (require_text (jget r ''prompt'') ''prompt'') (\<lambda>prompt.
     rbind (rmap (\<lambda>name. require_int (jget r name) name 1) workload_int_fields) (\<lambda>_.
     rbind (rmap (\<lambda>name. require_int (jget r name) name 0) [''seed'', ''bootstrap_seed'']) (\<lambda>_.
     rbind (rmap (\<lambda>name. require_number (jget r name) name (Fin 0))
       [''temperature'', ''maximum_cv_pct'', ''replay_tolerance_pct'']) (\<lambda>_.
     if jget r ''concurrency'' \<noteq> JInt 1 then Inl (ValueError ''only concurrency one is supported'')
     else if jget r ''runtime_interface'' \<noteq> JStr ''server_completion''
     then Inl (ValueError ''product requires server_completion'')
     else if the_int (jget r ''batch_size'') < the_int (jget r ''microbatch_size'')
     then Inl (ValueError ''microbatch exceeds batch'')
     else rbind (on_off (jget r ''cuda_graphs'') ''invalid CUDA graph setting'') (\<lambda>graphs.
     rbind (require_bool (jget r ''ignore_eos'') ''invalid boolean workload control'') (\<lambda>eos.
     rbind (require_bool (jget r ''cache_prompt'') ''invalid boolean workload control'') (\<lambda>cache.
     if policy = EXACT \<and> approximate_setting r then Inl (ValueError ''approximate settings in exact workload'')
     else rbind (if policy = APPROXIMATE
         then require_number (jget r ''approximate_quality_budget'') ''approximate_quality_budget'' MICRO
         else Inr JNull) (\<lambda>_.
       let int_of = (\<lambda>name. the_int (jget r name)) in
       Inr \<lparr>wl_prompt = prompt, wl_context_size = int_of ''context_size'',
         wl_predict_tokens = int_of ''predict_tokens'', wl_schema_version = version, wl_objective = goal,
         wl_policy = policy, wl_runtime_interface = ''server_completion'', wl_concurrency = 1,
         wl_threads = int_of ''threads'', wl_seed = int_of ''seed'', wl_temperature = jget r ''temperature'',
         wl_ignore_eos = eos, wl_cache_prompt = cache, wl_kv_type_k = jget r ''kv_type_k'',
         wl_kv_type_v = jget r ''kv_type_v'', wl_cuda_graphs = graphs, wl_batch_size = int_of ''batch_size'',
         wl_microbatch_size = int_of ''microbatch_size'', wl_warmup_runs = int_of ''warmup_runs'',
         wl_measured_runs = int_of ''measured_runs'',
         wl_minimum_vram_reserve_mib = int_of ''minimum_vram_reserve_mib'',
         wl_maximum_cv_pct = jget r ''maximum_cv_pct'', wl_confirmation_pairs = int_of ''confirmation_pairs'',
         wl_bootstrap_samples = int_of ''bootstrap_samples'', wl_bootstrap_seed = int_of ''bootstrap_seed'',
         wl_replay_tolerance_pct = jget r ''replay_tolerance_pct'',
         wl_health_timeout_seconds = int_of ''health_timeout_seconds'',
         wl_completion_timeout_seconds = int_of ''completion_timeout_seconds'',
         wl_approximate_quality_budget = jget r ''approximate_quality_budget''\<rparr>))))))))))))"

text \<open>The fields of a workload as \<open>canonical_payload\<close> lists them.\<close>

definition workload_fields :: "workload_ir \<Rightarrow> jrecord" where
  "workload_fields w = [(''prompt'', JStr (wl_prompt w)), (''context_size'', JInt (wl_context_size w)),
     (''predict_tokens'', JInt (wl_predict_tokens w)), (''schema_version'', JStr (wl_schema_version w)),
     (''objective'', JStr ''decode_tps''), (''policy'', policy_value (wl_policy w)),
     (''runtime_interface'', JStr (wl_runtime_interface w)), (''concurrency'', JInt (wl_concurrency w)),
     (''threads'', JInt (wl_threads w)), (''seed'', JInt (wl_seed w)), (''temperature'', wl_temperature w),
     (''ignore_eos'', JBool (wl_ignore_eos w)), (''cache_prompt'', JBool (wl_cache_prompt w)),
     (''kv_type_k'', wl_kv_type_k w), (''kv_type_v'', wl_kv_type_v w), (''cuda_graphs'', JStr (wl_cuda_graphs w)),
     (''batch_size'', JInt (wl_batch_size w)), (''microbatch_size'', JInt (wl_microbatch_size w)),
     (''warmup_runs'', JInt (wl_warmup_runs w)), (''measured_runs'', JInt (wl_measured_runs w)),
     (''minimum_vram_reserve_mib'', JInt (wl_minimum_vram_reserve_mib w)),
     (''maximum_cv_pct'', wl_maximum_cv_pct w), (''confirmation_pairs'', JInt (wl_confirmation_pairs w)),
     (''bootstrap_samples'', JInt (wl_bootstrap_samples w)), (''bootstrap_seed'', JInt (wl_bootstrap_seed w)),
     (''replay_tolerance_pct'', wl_replay_tolerance_pct w),
     (''health_timeout_seconds'', JInt (wl_health_timeout_seconds w)),
     (''completion_timeout_seconds'', JInt (wl_completion_timeout_seconds w)),
     (''approximate_quality_budget'', wl_approximate_quality_budget w)]"

text \<open>\<open>WorkloadIR.from_reference\<close>: a copy of the reference payload without its prompt file.\<close>

definition workload_from_reference :: "jrecord \<Rightarrow> workload_ir res" where
  "workload_from_reference payload = WorkloadIR (filter (\<lambda>(k, v). k \<noteq> ''prompt_file'') payload)"

section \<open>Lemmas\<close>

definition wf_layer :: "moe_layer_ir \<Rightarrow> bool" where
  "wf_layer l \<longleftrightarrow> 0 \<le> ml_layer_id l \<and> 1 \<le> ml_expert_top_k l \<and> ml_expert_top_k l \<le> ml_expert_count l
     \<and> 1 \<le> ml_expert_bundle_bytes l \<and> ml_component_bank_bytes l \<noteq> [] \<and> (\<forall>b \<in> set (ml_component_bank_bytes l). 1 \<le> b)
     \<and> sum_list (ml_component_bank_bytes l) = ml_routed_expert_bank_bytes l"

lemma MoELayerIR_wf:
  assumes "MoELayerIR i n k bundle bank components = Inr l"
  shows "wf_layer l \<and> i = JInt (ml_layer_id l) \<and> n = JInt (ml_expert_count l) \<and> k = JInt (ml_expert_top_k l)
    \<and> bundle = JInt (ml_expert_bundle_bytes l) \<and> bank = JInt (ml_routed_expert_bank_bytes l)"
proof -
  let ?cs = "ml_component_bank_bytes l"
  have cs: "rmap (\<lambda>v. require_int v ''component bytes'' 1)
      (if components = [] then [JInt (ml_routed_expert_bank_bytes l)] else components) = Inr ?cs"
    and l: "sum_list ?cs = ml_routed_expert_bank_bytes l"
      "0 \<le> ml_layer_id l" "1 \<le> ml_expert_top_k l" "ml_expert_top_k l \<le> ml_expert_count l" "1 \<le> ml_expert_bundle_bytes l"
      "i = JInt (ml_layer_id l)" "n = JInt (ml_expert_count l)" "k = JInt (ml_expert_top_k l)"
      "bundle = JInt (ml_expert_bundle_bytes l)" "bank = JInt (ml_routed_expert_bank_bytes l)"
    using assms by (auto simp: MoELayerIR_def Let_def rbind_eq_Inr if_Inl_eq_Inr require_simps)
  have "?cs \<noteq> []" using rmap_length [OF cs] by (auto split: if_splits)
  moreover have "\<forall>b \<in> set ?cs. 1 \<le> b" using rmap_elem [OF cs] by (auto simp: require_simps)
  ultimately show ?thesis using l by (simp add: wf_layer_def)
qed

text \<open>Sorting by an injective key depends on the elements only.\<close>

lemma sort_key_perm:
  assumes "mset xs = mset ys" and "distinct (map f xs)"
  shows "sort_key f xs = sort_key f ys"
proof -
  have keys: "mset (map f (sort_key f ys)) = mset (map f xs)" "set (sort_key f ys) = set xs"
    using assms(1) by (auto simp: dest: mset_eq_setD)
  then have "distinct (map f (sort_key f ys))" using assms(2) by (metis mset_eq_imp_distinct_iff)
  moreover have "mset (map f (sort_key f xs)) = mset (map f xs)" by simp
  then have "distinct (map f (sort_key f xs))" using assms(2) by (metis mset_eq_imp_distinct_iff)
  ultimately show ?thesis
    using assms(2) keys(2) by (intro map_sorted_distinct_set_unique) (auto simp: distinct_map)
qed

text \<open>
  The order in which a caller lists the layers of a model does not matter: the constructor
  gives the same model, or raises the same error, for every reordering.
\<close>

theorem model_layer_order_irrelevant:
  assumes "mset layers = mset layers'"
  shows "ModelIR version identity family architecture quantization n k layers kv mtp alignment inventory
    = ModelIR version identity family architecture quantization n k layers' kv mtp alignment inventory"
proof -
  have empty: "layers = [] \<longleftrightarrow> layers' = []" using assms by auto
  have d: "distinct (map ml_layer_id (sort_key ml_layer_id ls)) \<longleftrightarrow> distinct (map ml_layer_id layers)"
    if "mset ls = mset layers" for ls
    by (rule mset_eq_imp_distinct_iff) (simp add: that)
  show ?thesis
  proof (cases "distinct (map ml_layer_id layers)")
    case True
    show ?thesis unfolding ModelIR_def empty sort_key_perm [OF assms True] by (rule refl)
  next
    case False
    then show ?thesis using d [of layers] d [of layers'] assms by (simp add: ModelIR_def Let_def empty cong: if_cong)
  qed
qed

definition wf_model :: "model_ir \<Rightarrow> bool" where
  "wf_model m \<longleftrightarrow> md_moe_layers m \<noteq> [] \<and> sorted_wrt (\<lambda>a b. ml_layer_id a < ml_layer_id b) (md_moe_layers m)
     \<and> (\<forall>l \<in> set (md_moe_layers m). wf_layer l \<and> ml_expert_count l = md_expert_count m \<and> ml_expert_top_k l = md_expert_top_k m)
     \<and> 1 \<le> md_expert_top_k m \<and> md_expert_top_k m \<le> md_expert_count m \<and> 1 \<le> md_alignment_bytes m"

lemma ModelIR_eq_Inr:
  "ModelIR version identity family architecture quantization n k layers kv mtp alignment inventory = Inr m \<longleftrightarrow>
    version = JStr PLAN_SCHEMA \<and> md_schema_version m = PLAN_SCHEMA \<and> md_identity m = identity
    \<and> family = JStr (md_family m) \<and> is_text (md_family m) \<and> architecture = JStr (md_architecture m)
    \<and> is_text (md_architecture m) \<and> quantization = JStr (md_quantization m) \<and> is_text (md_quantization m)
    \<and> kv = JStr (md_kv_kind m) \<and> is_text (md_kv_kind m) \<and> mtp = JStr (md_mtp_kind m) \<and> is_text (md_mtp_kind m)
    \<and> n = JInt (md_expert_count m) \<and> k = JInt (md_expert_top_k m) \<and> alignment = JInt (md_alignment_bytes m)
    \<and> 1 \<le> md_expert_count m \<and> 1 \<le> md_expert_top_k m \<and> 1 \<le> md_alignment_bytes m
    \<and> md_expert_top_k m \<le> md_expert_count m \<and> optional_hash inventory = Inr (md_inventory_sha256 m)
    \<and> layers \<noteq> [] \<and> md_moe_layers m = sort_key ml_layer_id layers \<and> distinct (map ml_layer_id layers)
    \<and> (\<forall>l \<in> set layers. ml_expert_count l = md_expert_count m \<and> ml_expert_top_k l = md_expert_top_k m)"
proof -
  have d: "distinct (map ml_layer_id (sort_key ml_layer_id layers)) = distinct (map ml_layer_id layers)"
    by (rule mset_eq_imp_distinct_iff) simp
  show ?thesis
    by (cases m) (auto simp: ModelIR_def Let_def rbind_eq_Inr if_Inl_eq_Inr require_simps d list_ex_iff not_less)
qed

text \<open>
  A model built from well-formed layers is normalised: its layers are exactly the given ones,
  in strictly ascending order of their identifiers, and all have the model's expert counts.
\<close>

theorem model_normalised:
  assumes "ModelIR version identity family architecture quantization n k layers kv mtp alignment inventory = Inr m"
    and "\<forall>l \<in> set layers. wf_layer l"
  shows "wf_model m \<and> mset (md_moe_layers m) = mset layers"
proof -
  note m = assms(1) [unfolded ModelIR_eq_Inr]
  have "sorted (map ml_layer_id (sort_key ml_layer_id layers))" by simp
  moreover have "mset (map ml_layer_id (sort_key ml_layer_id layers)) = mset (map ml_layer_id layers)" by simp
  then have "distinct (map ml_layer_id (sort_key ml_layer_id layers))" using m by (metis mset_eq_imp_distinct_iff)
  ultimately have "sorted_wrt (<) (map ml_layer_id (sort_key ml_layer_id layers))" by (simp add: strict_sorted_iff)
  then show ?thesis using m assms(2) by (auto simp: wf_model_def sorted_wrt_map)
qed

section \<open>Workloads\<close>

lemma bind_kwargs_keys:
  assumes "bind_kwargs specs kwargs = Inr r"
  shows "map fst r = map fst specs"
proof -
  have "rmap (\<lambda>(name, default). case map_of kwargs name of Some v \<Rightarrow> Inr (name, v)
         | None \<Rightarrow> (case default of Some v \<Rightarrow> Inr (name, v) | None \<Rightarrow> Inl TypeError)) specs = Inr r"
    using assms by (simp add: bind_kwargs_def if_Inl_eq_Inr)
  then have "list_all2 (\<lambda>s e. fst s = fst e) specs r"
    unfolding rmap_eq_Inr by (rule list_all2_mono) (auto split: option.splits)
  then show ?thesis by (induction rule: list_all2_induct) auto
qed

text \<open>Arguments that already name every field once are bound as they are.\<close>

lemma bind_kwargs_id:
  assumes "map fst r = map fst specs" and "distinct (map fst specs)"
  shows "bind_kwargs specs r = Inr r"
proof -
  let ?f = "\<lambda>(name, default). case map_of r name of Some v \<Rightarrow> Inr (name, v)
         | None \<Rightarrow> (case default of Some v \<Rightarrow> Inr (name, v) | None \<Rightarrow> Inl TypeError)"
  have d: "distinct (map fst r)" using assms by simp
  have "list_all2 (\<lambda>s e. ?f s = Inr e) specs r"
  proof (rule list_all2_all_nthI)
    show len: "length specs = length r" using assms(1) by (metis length_map)
    fix i assume i: "i < length specs"
    have "fst (specs ! i) = fst (r ! i)" using i len assms(1) by (metis nth_map)
    moreover have "map_of r (fst (r ! i)) = Some (snd (r ! i))" using d i len by (intro map_of_is_SomeI) auto
    ultimately show "?f (specs ! i) = Inr (r ! i)" by (cases "specs ! i"; cases "r ! i") auto
  qed
  moreover have "\<forall>k \<in> set (jkeys r). k \<in> fst ` set specs"
    using assms(1) by (metis jkeys_def list.set_map)
  ultimately show ?thesis by (simp add: bind_kwargs_def rmap_eq_Inr list_ex_iff)
qed

lemma jrecord_by_keys: "distinct (map fst r) \<Longrightarrow> r = map (\<lambda>name. (name, jget r name)) (map fst r)"
proof -
  assume d: "distinct (map fst r)"
  have "\<forall>e \<in> set r. (fst e, jget r (fst e)) = e"
    using dict_get_distinct [OF d] by (auto simp: jget_def)
  then show ?thesis by (simp add: map_idI)
qed

lemma policy_of_ok: "policy_of v = Inr p \<longleftrightarrow> v = policy_value p"
  by (cases p) (auto simp: policy_of_def policy_value_def)

lemma objective_of_ok: "objective_of v = Inr g \<longleftrightarrow> v = JStr ''decode_tps''"
  by (cases g) (auto simp: objective_of_def)

lemma on_off_ok: "on_off v m = Inr s \<longleftrightarrow> v = JStr s \<and> (s = ''on'' \<or> s = ''off'')"
  by (auto simp: on_off_def split: json.splits if_splits)

lemma require_bool_ok: "require_bool v m = Inr b \<longleftrightarrow> v = JBool b"
  by (cases v) (auto simp: require_bool_def)

lemma require_ints_ok:
  "rmap (\<lambda>name. require_int (jget r name) name m) names = Inr ns \<Longrightarrow> name \<in> set names \<Longrightarrow>
    jget r name = JInt (the_int (jget r name)) \<and> m \<le> the_int (jget r name)"
  by (induction names arbitrary: ns) (auto simp: rbind_eq_Inr require_simps the_int_def)

text \<open>The bound arguments of an accepted workload are the fields of the record it becomes.\<close>

lemma WorkloadIR_fields:
  assumes "WorkloadIR kwargs = Inr w"
  shows "bind_kwargs workload_defaults kwargs = Inr (workload_fields w)"
proof -
  obtain r where r: "bind_kwargs workload_defaults kwargs = Inr r"
    using assms by (auto simp: WorkloadIR_def rbind_eq_Inr)
  have keys: "map fst r = map fst workload_defaults" using bind_kwargs_keys [OF r] .
  have "distinct (map fst workload_defaults)" by (simp add: workload_defaults_def)
  then have eq: "r = map (\<lambda>name. (name, jget r name)) (map fst workload_defaults)"
    using jrecord_by_keys [of r] keys by metis
  obtain ns ms where ns: "rmap (\<lambda>name. require_int (jget r name) name 1) workload_int_fields = Inr ns"
    and ms: "rmap (\<lambda>name. require_int (jget r name) name 0) [''seed'', ''bootstrap_seed''] = Inr ms"
    and w: "jget r ''schema_version'' = JStr (wl_schema_version w)"
      "jget r ''objective'' = JStr ''decode_tps''" "jget r ''policy'' = policy_value (wl_policy w)"
      "jget r ''prompt'' = JStr (wl_prompt w)" "jget r ''concurrency'' = JInt (wl_concurrency w)"
      "jget r ''runtime_interface'' = JStr (wl_runtime_interface w)"
      "jget r ''cuda_graphs'' = JStr (wl_cuda_graphs w)" "jget r ''ignore_eos'' = JBool (wl_ignore_eos w)"
      "jget r ''cache_prompt'' = JBool (wl_cache_prompt w)"
      "jget r ''temperature'' = wl_temperature w" "jget r ''kv_type_k'' = wl_kv_type_k w"
      "jget r ''kv_type_v'' = wl_kv_type_v w" "jget r ''maximum_cv_pct'' = wl_maximum_cv_pct w"
      "jget r ''replay_tolerance_pct'' = wl_replay_tolerance_pct w"
      "jget r ''approximate_quality_budget'' = wl_approximate_quality_budget w"
    and i: "wl_context_size w = the_int (jget r ''context_size'')" "wl_predict_tokens w = the_int (jget r ''predict_tokens'')"
      "wl_threads w = the_int (jget r ''threads'')" "wl_seed w = the_int (jget r ''seed'')"
      "wl_batch_size w = the_int (jget r ''batch_size'')" "wl_microbatch_size w = the_int (jget r ''microbatch_size'')"
      "wl_warmup_runs w = the_int (jget r ''warmup_runs'')" "wl_measured_runs w = the_int (jget r ''measured_runs'')"
      "wl_minimum_vram_reserve_mib w = the_int (jget r ''minimum_vram_reserve_mib'')"
      "wl_confirmation_pairs w = the_int (jget r ''confirmation_pairs'')"
      "wl_bootstrap_samples w = the_int (jget r ''bootstrap_samples'')"
      "wl_bootstrap_seed w = the_int (jget r ''bootstrap_seed'')"
      "wl_health_timeout_seconds w = the_int (jget r ''health_timeout_seconds'')"
      "wl_completion_timeout_seconds w = the_int (jget r ''completion_timeout_seconds'')"
    using assms unfolding WorkloadIR_def r rbind_Inr
    by (auto simp: rbind_eq_Inr if_Inl_eq_Inr require_simps policy_of_ok objective_of_ok on_off_ok require_bool_ok Let_def)
  note int = require_ints_ok [OF ns, THEN conjunct1, unfolded workload_int_fields_def]
    require_ints_ok [OF ms, THEN conjunct1]
  have "r = workload_fields w"
    by (subst eq) (simp add: workload_defaults_def workload_fields_def w i int [symmetric])
  with r show ?thesis by simp
qed

lemma WorkloadIR_again:
  assumes "WorkloadIR kwargs = Inr w"
  shows "WorkloadIR (workload_fields w) = Inr w"
proof -
  have "bind_kwargs workload_defaults (workload_fields w) = Inr (workload_fields w)"
    by (rule bind_kwargs_id) (simp_all add: workload_fields_def workload_defaults_def)
  with assms WorkloadIR_fields [OF assms] show ?thesis by (simp add: WorkloadIR_def)
qed

text \<open>
  Round trip: constructing a workload from its own fields, which is how a loaded plan decodes
  the workload it stored, gives the same workload back, whatever arguments it was first built from.
\<close>

theorem workload_roundtrip:
  assumes "WorkloadIR kwargs = Inr w"
  shows "WorkloadIR (workload_fields w) = Inr w"
  by (rule WorkloadIR_again [OF assms])

definition example_workload :: jrecord where
  "example_workload = [(''prompt'', JStr ''p''), (''context_size'', JInt 8), (''predict_tokens'', JInt 4), (''seed'', JInt 0)]"

lemma example_workload_ok: "is_ok (WorkloadIR example_workload)"
  by code_simp

theorem workload_roundtrip_witness:
  "\<exists>w. WorkloadIR example_workload = Inr w \<and> WorkloadIR (workload_fields w) = Inr w"
  using example_workload_ok workload_roundtrip by (auto simp: is_ok_iff)

definition example_layer :: "int \<Rightarrow> moe_layer_ir" where
  "example_layer i = \<lparr>ml_layer_id = i, ml_expert_count = 4, ml_expert_top_k = 2, ml_expert_bundle_bytes = 8,
     ml_routed_expert_bank_bytes = 32, ml_component_bank_bytes = [32]\<rparr>"

definition example_identity :: artifact_identity where
  "example_identity = \<lparr>ai_path = ''m'', ai_size_bytes = 100, ai_sha256 = replicate 64 CHR ''0''\<rparr>"

definition example_model :: "moe_layer_ir list \<Rightarrow> model_ir res" where
  "example_model layers = ModelIR (JStr PLAN_SCHEMA) example_identity (JStr ''f'') (JStr ''a'') (JStr ''q'') (JInt 4)
     (JInt 2) layers (JStr ''k'') (JStr ''m'') (JInt 256) JNull"

lemma example_model_ok: "is_ok (example_model [example_layer 1, example_layer 0])"
  by code_simp

theorem model_layer_order_irrelevant_witness:
  "example_model [example_layer 1, example_layer 0] = example_model [example_layer 0, example_layer 1]"
  unfolding example_model_def by (rule model_layer_order_irrelevant) simp

theorem model_normalised_witness:
  "\<exists>m. example_model [example_layer 1, example_layer 0] = Inr m \<and> wf_model m
     \<and> mset (md_moe_layers m) = mset [example_layer 1, example_layer 0]"
proof -
  have "\<forall>l \<in> set [example_layer 1, example_layer 0]. wf_layer l" by (simp add: wf_layer_def example_layer_def)
  then show ?thesis using example_model_ok model_normalised unfolding example_model_def is_ok_iff by blast
qed

text \<open>
  An accepted description of a GPU never promises more usable memory than its total less the
  reserve, and keeps each feature once, in order.
\<close>

theorem hardware_frontier:
  assumes "HardwareIR uuid gpu cc vram usable driver cuda runtime reserve features calibration = Inr h"
  shows "0 < hw_usable_vram_bytes h \<and> hw_usable_vram_bytes h + hw_minimum_reserve_bytes h \<le> hw_total_vram_bytes h
    \<and> sorted (hw_supported_features h) \<and> distinct (hw_supported_features h)
    \<and> JStr ` set (hw_supported_features h) = set features"
proof -
  obtain fs where fs: "rmap feature features = Inr fs" and h: "hw_supported_features h = sort (remdups fs)"
    "0 < hw_usable_vram_bytes h" "hw_usable_vram_bytes h + hw_minimum_reserve_bytes h \<le> hw_total_vram_bytes h"
    using assms by (auto simp: HardwareIR_def rbind_eq_Inr if_Inl_eq_Inr require_simps)
  have "list_all2 (\<lambda>x s. x = JStr s) features fs"
    using fs unfolding rmap_eq_Inr
    by (rule list_all2_mono) (auto simp: feature_def split: json.splits if_splits)
  then have "features = map JStr fs" by (induction rule: list_all2_induct) auto
  with h show ?thesis by simp
qed

theorem hardware_frontier_witness:
  "\<exists>h. HardwareIR (JStr ''u'') (JStr ''g'') (JStr ''8.9'') (JInt 1000) (JInt 700) (JStr ''d'') (JStr ''c'')
      (JStr (replicate 64 CHR ''a'')) (JInt 256) [JStr ''x'', JStr ''b'', JStr ''x''] JNull = Inr h
    \<and> hw_usable_vram_bytes h + hw_minimum_reserve_bytes h \<le> hw_total_vram_bytes h"
proof -
  have "is_ok (HardwareIR (JStr ''u'') (JStr ''g'') (JStr ''8.9'') (JInt 1000) (JInt 700) (JStr ''d'') (JStr ''c'')
      (JStr (replicate 64 CHR ''a'')) (JInt 256) [JStr ''x'', JStr ''b'', JStr ''x''] JNull)"
    by code_simp
  then show ?thesis using hardware_frontier unfolding is_ok_iff by blast
qed

end
