(* ===== verification/Pystats.thy ===== *)
theory Pystats
  imports Pyvalue
begin

text \<open>
  The functions of Python's \<open>statistics\<close> module the program uses, on finite numbers. They work on
  exact fractions and round once at the end: \<open>mean\<close> rounds the exact mean, \<open>stdev\<close> rounds the root
  of the exact sample variance by the integer square root the library uses, and \<open>median\<close> sorts by
  value. A number stays the \<open>int\<close> or \<open>float\<close> it was.
\<close>

section \<open>Integer square root\<close>

function isqrt :: "int \<Rightarrow> int" where
  "isqrt n = (if n \<le> 0 then 0 else let s = 2 * isqrt (n div 4) in if (s + 1) ^ 2 \<le> n then s + 1 else s)"
  by pat_completeness auto

termination
  by (relation "measure nat") auto

declare isqrt.simps [simp del]

lemma isqrt_bounds: "0 \<le> n \<Longrightarrow> 0 \<le> isqrt n \<and> (isqrt n) ^ 2 \<le> n \<and> n < (isqrt n + 1) ^ 2"
proof (induction n rule: isqrt.induct)
  case (1 n)
  show ?case
  proof (cases "n = 0")
    case True
    then show ?thesis by (simp add: isqrt.simps)
  next
    case False
    let ?m = "isqrt (n div 4)"
    have ih: "0 \<le> ?m" "?m ^ 2 \<le> n div 4" "n div 4 < (?m + 1) ^ 2" using "1.IH" "1.prems" False by auto
    have "n div 4 + 1 \<le> (?m + 1) ^ 2" using ih(3) by simp
    then have "4 * (n div 4) + 4 \<le> 4 * (?m + 1) ^ 2" by linarith
    moreover have "n < 4 * (n div 4) + 4" by simp
    ultimately have "n < 4 * (?m + 1) ^ 2" by linarith
    also have "\<dots> = (2 * ?m + 2) ^ 2" by (simp add: power2_eq_square algebra_simps)
    finally have upper: "n < (2 * ?m + 2) ^ 2" .
    have "(2 * ?m) ^ 2 = 4 * ?m ^ 2" by (simp add: power2_eq_square)
    also have "\<dots> \<le> n" using ih(2) by linarith
    finally have "(2 * ?m) ^ 2 \<le> n" .
    moreover have "isqrt n = (if (2 * ?m + 1) ^ 2 \<le> n then 2 * ?m + 1 else 2 * ?m)"
      using False "1.prems" by (subst isqrt.simps) (simp add: Let_def)
    ultimately show ?thesis using ih(1) upper by (cases "(2 * ?m + 1) ^ 2 \<le> n") (simp_all add: add.assoc)
  qed
qed

section \<open>Mean\<close>

text \<open>The exact value of a finite number.\<close>

definition ratio :: "json \<Rightarrow> rat" where
  "ratio a = (case a of JInt n \<Rightarrow> of_int n | JFloat (Fin x) \<Rightarrow> x | _ \<Rightarrow> 0)"

definition is_int_number :: "json \<Rightarrow> bool" where
  "is_int_number a = (case a of JInt _ \<Rightarrow> True | _ \<Rightarrow> False)"

definition float_of_ratio :: "rat \<Rightarrow> pyfloat res" where
  "float_of_ratio q = (case dbl q of Fin r \<Rightarrow> Inr (Fin r) | _ \<Rightarrow> Inl OverflowError)"

text \<open>The mean of integers is an \<open>int\<close> when it is integral.\<close>

definition stat_mean :: "json list \<Rightarrow> json res" where
  "stat_mean xs = (if xs = [] then Inl (ValueError ''mean requires at least one data point'')
     else let m = sum_list (map ratio xs) / of_nat (length xs)
       in if list_all is_int_number xs \<and> snd (quotient_of m) = 1 then Inr (JInt \<lfloor>m\<rfloor>)
          else rbind (float_of_ratio m) (\<lambda>x. Inr (JFloat x)))"

section \<open>Standard deviation\<close>

text \<open>\<open>_integer_sqrt_of_frac_rto\<close>: the root of \<open>n / m\<close>, rounded to odd.\<close>

definition sqrt_rto :: "int \<Rightarrow> int \<Rightarrow> int" where
  "sqrt_rto n m = (let a = isqrt (n div m) in if a * a * m \<noteq> n \<and> even a then a + 1 else a)"

text \<open>\<open>_float_sqrt_of_frac\<close>: enough bits of the root for one correct rounding.\<close>

definition float_sqrt :: "rat \<Rightarrow> pyfloat res" where
  "float_sqrt x = (let (n, m) = quotient_of x; q = (bitlen n - bitlen m - 109) div 2 in
     if 0 \<le> q then int_truediv (sqrt_rto n (m * 4 ^ nat q) * 2 ^ nat q) 1
     else int_truediv (sqrt_rto (n * 4 ^ nat (- q)) m) (2 ^ nat (- q)))"

definition stat_stdev :: "json list \<Rightarrow> pyfloat res" where
  "stat_stdev xs = (if length xs < 2 then Inl (ValueError ''stdev requires at least two data points'')
     else let n = of_nat (length xs); sx = sum_list (map ratio xs); sxx = sum_list (map (\<lambda>x. ratio x ^ 2) xs)
       in float_sqrt ((n * sxx - sx * sx) / n / (n - 1)))"

section \<open>Median\<close>

text \<open>The middle element, or the mean \<open>(a + b) / 2\<close> of the two middle elements.\<close>

definition num_add :: "json \<Rightarrow> json \<Rightarrow> json res" where
  "num_add = num_op (\<lambda>m n. Inr (JInt (m + n))) (\<lambda>x y. Inr (fadd x y))"

definition stat_median :: "json list \<Rightarrow> json res" where
  "stat_median xs = (let data = sort_key num_val xs; n = length data in
     if n = 0 then Inl (ValueError ''no median for empty data'')
     else if odd n then Inr (data ! (n div 2))
     else rbind (num_add (data ! (n div 2 - 1)) (data ! (n div 2))) (\<lambda>s. num_div s (JInt 2)))"

section \<open>Lemmas\<close>

lemma float_sqrt_0: "float_sqrt 0 = Inr (Fin 0)"
  by (simp add: float_sqrt_def sqrt_rto_def isqrt.simps [of 0] int_truediv_def bitlen_def floorlog_def Let_def)

lemma stat_stdev_short: "length xs < 2 \<Longrightarrow> stat_stdev xs = Inl (ValueError ''stdev requires at least two data points'')"
  by (simp add: stat_stdev_def)

text \<open>The mean of numbers that lie in an interval lies in it, after rounding too.\<close>

lemma sum_list_bounds:
  fixes xs :: "rat list"
  assumes "\<forall>x \<in> set xs. a \<le> x \<and> x \<le> b"
  shows "of_nat (length xs) * a \<le> sum_list xs \<and> sum_list xs \<le> of_nat (length xs) * b"
  using assms by (induction xs) (auto simp: algebra_simps)

lemma exact_mean_bounds:
  assumes "xs \<noteq> []" and "\<forall>x \<in> set xs. a \<le> ratio x \<and> ratio x \<le> b"
  shows "a \<le> sum_list (map ratio xs) / of_nat (length xs) \<and> sum_list (map ratio xs) / of_nat (length xs) \<le> b"
proof -
  have "0 < (of_nat (length xs) :: rat)" using assms(1) by simp
  then show ?thesis using sum_list_bounds [of "map ratio xs" a b] assms(2)
    by (simp add: field_simps mult.commute)
qed

end
