(* ===== verification/Plan.thy ===== *)
theory Plan
  imports Compiler_Schema Pystats
begin

text \<open>
  \<open>compiler/plan.py\<close>: candidate contracts and evidence-backed, hashed execution plans. The
  constructors are the classes' \<open>__post_init__\<close>. \<open>digest\<close> is the SHA-256 of the compact JSON text
  of a payload with sorted keys; an evidence store is the function \<open>verify\<close> that returns the
  verified row of a measurement, or raises; \<open>now\<close> is the UTC time stamp of a sealing. An
  \<open>ExecutionPlan\<close> refers to its fallback, so plans are a datatype and validation recurses along it.
\<close>

section \<open>Settings and candidates\<close>

datatype candidate_status = ESTIMATED | UNMEASURED | INVALID | REJECTED | MEASURED

definition status_value :: "candidate_status \<Rightarrow> string" where
  "status_value s = (case s of ESTIMATED \<Rightarrow> ''estimated'' | UNMEASURED \<Rightarrow> ''unmeasured'' | INVALID \<Rightarrow> ''invalid''
     | REJECTED \<Rightarrow> ''rejected'' | MEASURED \<Rightarrow> ''measured'')"

definition CandidateStatus :: "json \<Rightarrow> candidate_status res" where
  "CandidateStatus v = (case find (\<lambda>s. v = JStr (status_value s)) [ESTIMATED, UNMEASURED, INVALID, REJECTED, MEASURED] of
     Some s \<Rightarrow> Inr s | None \<Rightarrow> Inl (ValueError ''is not a valid CandidateStatus''))"

record static_placement =
  sp_layer_ids :: "int list"
  sp_arena_bytes :: int

definition static_specs :: "(string \<times> json option) list" where
  "static_specs = [(''layer_ids'', None), (''precompute'', Some (JBool True)), (''arena_bytes'', Some (JInt 0))]"

definition StaticPlacement :: "jrecord \<Rightarrow> static_placement res" where
  "StaticPlacement kwargs = rbind (bind_kwargs static_specs kwargs) (\<lambda>r.
     rbind (require_int (jget r ''arena_bytes'') ''static arena bytes'' 0) (\<lambda>arena.
     if \<not> truthy (jget r ''layer_ids'') then Inl (ValueError ''static placement requires 1-12 layers'')
     else rbind (py_iter (jget r ''layer_ids'')) (\<lambda>items.
     if 12 < length items then Inl (ValueError ''static placement requires 1-12 layers'')
     else rbind (rmap (\<lambda>v. require_int v ''static layer'' 0) items) (\<lambda>layers.
     if \<not> distinct layers then Inl (ValueError ''duplicate static layers'')
     else if jget r ''precompute'' \<noteq> JBool True then Inl (ValueError ''static precompute must be enabled'')
     else Inr \<lparr>sp_layer_ids = sort layers, sp_arena_bytes = arena\<rparr>))))"

record runtime_settings =
  rs_gpu_layers :: json
  rs_cpu_moe :: bool
  rs_cuda_graphs :: string
  rs_batch_size :: int
  rs_microbatch_size :: int
  rs_static :: "static_placement option"
  rs_cuda_pdl :: "string option"

text \<open>The arguments other than \<open>static\<close>, which the callers build separately.\<close>

definition settings_specs :: "(string \<times> json option) list" where
  "settings_specs = [(''gpu_layers'', None), (''cpu_moe'', None), (''cuda_graphs'', Some (JStr ''on'')),
     (''kv_type_k'', Some (JStr ''f16'')), (''kv_type_v'', Some (JStr ''f16'')), (''batch_size'', Some (JInt 2048)),
     (''microbatch_size'', Some (JInt 512)), (''cuda_pdl'', Some JNull)]"

definition gpu_layers_ok :: "json \<Rightarrow> bool" where
  "gpu_layers_ok v = (case v of JInt n \<Rightarrow> 0 \<le> n | JStr s \<Rightarrow> s = ''auto'' \<or> s = ''all'' | _ \<Rightarrow> False)"

definition cuda_pdl_control :: "json \<Rightarrow> string option res" where
  "cuda_pdl_control v = (case v of JNull \<Rightarrow> Inr None
     | JStr s \<Rightarrow> if s = ''on'' \<or> s = ''off'' then Inr (Some s) else Inl (ValueError ''invalid CUDA PDL control'')
     | _ \<Rightarrow> Inl (ValueError ''invalid CUDA PDL control''))"

definition RuntimeSettings :: "static_placement option \<Rightarrow> jrecord \<Rightarrow> runtime_settings res" where
  "RuntimeSettings static kwargs = rbind (bind_kwargs settings_specs kwargs) (\<lambda>r.
     rbind (cuda_pdl_control (jget r ''cuda_pdl'')) (\<lambda>pdl.
     if \<not> gpu_layers_ok (jget r ''gpu_layers'') then Inl (ValueError ''invalid GPU layers'')
     else rbind (require_bool (jget r ''cpu_moe'') ''invalid runtime controls'') (\<lambda>moe.
     rbind (on_off (jget r ''cuda_graphs'') ''invalid runtime controls'') (\<lambda>graphs.
     if jget r ''kv_type_k'' \<noteq> JStr ''f16'' \<or> jget r ''kv_type_v'' \<noteq> JStr ''f16''
     then Inl (ValueError ''Phase 3 requires exact F16 KV'')
     else rbind (require_int (jget r ''batch_size'') ''batch_size'' 1) (\<lambda>batch.
     rbind (require_int (jget r ''microbatch_size'') ''microbatch_size'' 1) (\<lambda>micro.
     if batch < micro then Inl (ValueError ''microbatch exceeds batch'')
     else if static \<noteq> None \<and> \<not> moe then Inl (ValueError ''static placement requires CPU-MoE baseline'')
     else Inr \<lparr>rs_gpu_layers = jget r ''gpu_layers'', rs_cpu_moe = moe, rs_cuda_graphs = graphs,
       rs_batch_size = batch, rs_microbatch_size = micro, rs_static = static, rs_cuda_pdl = pdl\<rparr>))))))"

record plan_identities =
  pi_model_sha256 :: string
  pi_hardware_sha256 :: string
  pi_workload_sha256 :: string
  pi_runtime_sha256 :: string
  pi_workload :: workload_ir

definition workload_payload :: "workload_ir \<Rightarrow> json" where
  "workload_payload w = JObj (workload_fields w)"

definition PlanIdentities :: "(json \<Rightarrow> string) \<Rightarrow> json \<Rightarrow> json \<Rightarrow> json \<Rightarrow> json \<Rightarrow> workload_ir \<Rightarrow> plan_identities res" where
  "PlanIdentities digest model_sha256 hardware_sha256 workload_sha256 runtime_sha256 workload =
     rbind (require_hash model_sha256 ''model_sha256'') (\<lambda>m.
     rbind (require_hash hardware_sha256 ''hardware_sha256'') (\<lambda>h.
     rbind (require_hash workload_sha256 ''workload_sha256'') (\<lambda>w.
     rbind (require_hash runtime_sha256 ''runtime_sha256'') (\<lambda>r.
     rbind (canonical_sha256 digest (workload_payload workload)) (\<lambda>actual.
     if actual \<noteq> w then Inl (ValueError ''workload identity mismatch'')
     else Inr \<lparr>pi_model_sha256 = m, pi_hardware_sha256 = h, pi_workload_sha256 = w, pi_runtime_sha256 = r,
       pi_workload = workload\<rparr>)))))"

record candidate_plan =
  cp_identities :: plan_identities
  cp_settings :: runtime_settings
  cp_status :: candidate_status
  cp_estimated_decode_tps :: json
  cp_measurement_ids :: "string list"
  cp_rejection_reasons :: "string list"
  cp_validation :: "(string \<times> bool) list"

definition text_items :: "json \<Rightarrow> string \<Rightarrow> string list res" where
  "text_items v name = rbind (py_iter v) (\<lambda>items. rmap (\<lambda>x. require_text x name) items)"

definition settings_match :: "runtime_settings \<Rightarrow> workload_ir \<Rightarrow> bool" where
  "settings_match s w \<longleftrightarrow> rs_cuda_graphs s = wl_cuda_graphs w \<and> wl_kv_type_k w = JStr ''f16''
     \<and> wl_kv_type_v w = JStr ''f16'' \<and> rs_batch_size s = wl_batch_size w
     \<and> rs_microbatch_size s = wl_microbatch_size w"

definition CandidatePlan :: "plan_identities \<Rightarrow> runtime_settings \<Rightarrow> json \<Rightarrow> json \<Rightarrow> json \<Rightarrow> json
    \<Rightarrow> (string \<times> bool) list \<Rightarrow> candidate_plan res" where
  "CandidatePlan identities settings status estimated measurement_ids rejection_reasons validation =
     rbind (CandidateStatus status) (\<lambda>st.
     rbind (if estimated = JNull then Inr JNull else require_number estimated ''estimated TPS'' MICRO) (\<lambda>_.
     rbind (text_items measurement_ids ''measurement_ids'') (\<lambda>ids.
     rbind (text_items rejection_reasons ''rejection_reasons'') (\<lambda>reasons.
     if \<not> settings_match settings (pi_workload identities) then Inl (ValueError ''settings/workload mismatch'')
     else Inr \<lparr>cp_identities = identities, cp_settings = settings, cp_status = st,
       cp_estimated_decode_tps = estimated, cp_measurement_ids = ids, cp_rejection_reasons = reasons,
       cp_validation = sort validation\<rparr>))))"

section \<open>Payloads\<close>

definition static_payload :: "static_placement \<Rightarrow> json" where
  "static_payload s = JObj [(''layer_ids'', JArr (map JInt (sp_layer_ids s))), (''precompute'', JBool True),
     (''arena_bytes'', JInt (sp_arena_bytes s))]"

definition settings_payload :: "runtime_settings \<Rightarrow> json" where
  "settings_payload s = JObj ([(''gpu_layers'', rs_gpu_layers s), (''cpu_moe'', JBool (rs_cpu_moe s)),
     (''cuda_graphs'', JStr (rs_cuda_graphs s)), (''kv_type_k'', JStr ''f16''), (''kv_type_v'', JStr ''f16''),
     (''batch_size'', JInt (rs_batch_size s)), (''microbatch_size'', JInt (rs_microbatch_size s)),
     (''static'', case rs_static s of None \<Rightarrow> JNull | Some p \<Rightarrow> static_payload p)]
     @ (case rs_cuda_pdl s of None \<Rightarrow> [] | Some c \<Rightarrow> [(''cuda_pdl'', JStr c)]))"

definition identities_payload :: "plan_identities \<Rightarrow> json" where
  "identities_payload i = JObj [(''model_sha256'', JStr (pi_model_sha256 i)),
     (''hardware_sha256'', JStr (pi_hardware_sha256 i)), (''workload_sha256'', JStr (pi_workload_sha256 i)),
     (''runtime_sha256'', JStr (pi_runtime_sha256 i)), (''workload'', workload_payload (pi_workload i))]"

definition candidate_payload :: "candidate_plan \<Rightarrow> json" where
  "candidate_payload c = JObj [(''identities'', identities_payload (cp_identities c)),
     (''settings'', settings_payload (cp_settings c)), (''status'', JStr (status_value (cp_status c))),
     (''estimated_decode_tps'', cp_estimated_decode_tps c), (''measurement_ids'', JArr (map JStr (cp_measurement_ids c))),
     (''rejection_reasons'', JArr (map JStr (cp_rejection_reasons c))),
     (''validation'', JArr (map (\<lambda>(k, b). JArr [JStr k, JBool b]) (cp_validation c)))]"

definition candidate_id :: "(json \<Rightarrow> string) \<Rightarrow> candidate_plan \<Rightarrow> string res" where
  "candidate_id digest c = canonical_sha256 digest (JObj [(''identities'', identities_payload (cp_identities c)),
     (''settings'', settings_payload (cp_settings c))])"

section \<open>Execution plans\<close>

datatype execution_plan = ExecPlan (ep_compiler_version: string) (ep_candidate: candidate_plan)
  (ep_fallback: "execution_plan option") (ep_sealed_at: string) (ep_plan_sha256: string)

definition ExecutionPlan :: "json \<Rightarrow> json \<Rightarrow> json \<Rightarrow> candidate_plan \<Rightarrow> execution_plan option \<Rightarrow> json \<Rightarrow> json
    \<Rightarrow> execution_plan res" where
  "ExecutionPlan schema_version compiler_version launcher_abi candidate fallback sealed_at plan_sha256 =
     rbind (require_schema schema_version) (\<lambda>_.
     rbind (require_schema launcher_abi) (\<lambda>_.
     rbind (require_text compiler_version ''compiler_version'') (\<lambda>version.
     rbind (require_text sealed_at ''sealed_at'') (\<lambda>sealed.
     rbind (require_hash plan_sha256 ''plan hash'') (\<lambda>h.
       Inr (ExecPlan version candidate fallback sealed h))))))"

text \<open>The payload of a plan, and \<open>without_hash\<close>, which drops the plan's own hash.\<close>

fun plan_payload :: "execution_plan \<Rightarrow> json" where
  "plan_payload (ExecPlan version candidate fallback sealed h) = JObj [(''schema_version'', JStr PLAN_SCHEMA),
     (''compiler_version'', JStr version), (''launcher_abi'', JStr PLAN_SCHEMA),
     (''candidate'', candidate_payload candidate),
     (''fallback'', case fallback of None \<Rightarrow> JNull | Some p \<Rightarrow> plan_payload p), (''sealed_at'', JStr sealed),
     (''plan_sha256'', JStr h)]"

definition without_hash :: "execution_plan \<Rightarrow> json" where
  "without_hash p = (case plan_payload p of JObj d \<Rightarrow> JObj (filter (\<lambda>(k, v). k \<noteq> ''plan_sha256'') d) | v \<Rightarrow> v)"

definition validate_candidate :: "candidate_plan \<Rightarrow> unit res" where
  "validate_candidate c = (let w = pi_workload (cp_identities c); ids = cp_measurement_ids c in
     if cp_status c \<noteq> MEASURED \<or> cp_rejection_reasons c \<noteq> []
     then Inl (ValueError ''requires a measured passing candidate'')
     else if int (length ids) < wl_measured_runs w then Inl (ValueError ''missing measured evidence'')
     else if \<not> distinct ids then Inl (ValueError ''duplicate measurement IDs'')
     else if wl_policy w \<noteq> EXACT then Inl (ValueError ''Phase 3 only seals exact candidates'')
     else if rs_static (cp_settings c) \<noteq> None then Inl (ValueError ''numerical_path_change'')
     else Inr ())"

text \<open>\<open>row.get('validations', {}).get(name) is not True\<close>.\<close>

definition row_validation :: "jrecord \<Rightarrow> string \<Rightarrow> bool res" where
  "row_validation row name = (case map_of row ''validations'' of None \<Rightarrow> Inr False
     | Some (JObj d) \<Rightarrow> Inr (jget d name = JBool True) | Some _ \<Rightarrow> Inl AttributeError)"

definition row_valid_flags :: "jrecord \<Rightarrow> string list \<Rightarrow> bool res" where
  "row_valid_flags row names = rfold (\<lambda>ok name. if ok then row_validation row name else Inr False) True names"

record seal_scan =
  sl_owned :: "string list"
  sl_tokens :: "string list"
  sl_prompts :: "string list"
  sl_tps :: "json list"

definition seal_row :: "(json \<Rightarrow> string) \<Rightarrow> (string \<Rightarrow> jrecord res) \<Rightarrow> candidate_plan \<Rightarrow> plan_identities
    \<Rightarrow> seal_scan \<Rightarrow> string \<Rightarrow> seal_scan res" where
  "seal_row digest verify c identities s mid =
     rbind (verify mid) (\<lambda>row.
     rbind (require_hash (jget row ''owned_run_sha256'') ''owned run hash'') (\<lambda>owned.
     if owned \<in> set (sl_owned s) then Inl (ValueError ''duplicate owned run'')
     else rbind (candidate_id digest c) (\<lambda>cid.
     rbind (if jget row ''candidate_id'' \<noteq> JStr cid then Inr True
       else rbind (canonical_payload (identities_payload identities)) (\<lambda>p. Inr (\<not> jeq (jget row ''identities'') p))) (\<lambda>foreign.
     if foreign then Inl (ValueError ''foreign candidate evidence or identity mismatch'')
     else rbind (canonical_sha256 digest (settings_payload (cp_settings c))) (\<lambda>settings.
     if jget row ''settings_sha256'' \<noteq> JStr settings then Inl (ValueError ''measurement settings mismatch'')
     else if \<not> jeq (jget row ''exit_code'') (JInt 0) \<or> jget row ''measured'' \<noteq> JBool True
     then Inl (ValueError ''measurement failed or is warmup'')
     else rbind (row_valid_flags row [''exact_tokens'', ''memory'', ''cleanup'']) (\<lambda>valid.
     if \<not> valid then Inl (ValueError ''measurement validation failed'')
     else rbind (require_hash (jget row ''generated_tokens_sha256'') ''generated token hash'') (\<lambda>tokens.
     rbind (require_hash (jget row ''prompt_tokens_sha256'') ''prompt token hash'') (\<lambda>prompt.
     rbind (require_number (jget row ''decode_tps'') ''measured TPS'' MICRO) (\<lambda>tps.
       Inr \<lparr>sl_owned = sl_owned s @ [owned], sl_tokens = List.insert tokens (sl_tokens s),
         sl_prompts = List.insert prompt (sl_prompts s), sl_tps = sl_tps s @ [tps]\<rparr>)))))))))"

text \<open>The coefficient of variation in per cent, \<open>stdev(xs) * 100 / mean(xs)\<close>.\<close>

definition cv_pct :: "json list \<Rightarrow> json res" where
  "cv_pct xs = rbind (stat_stdev xs) (\<lambda>s. rbind (num_mul (JFloat s) (JInt 100)) (\<lambda>h.
     rbind (stat_mean xs) (\<lambda>m. num_div h m)))"

definition seal_evidence :: "(json \<Rightarrow> string) \<Rightarrow> (string \<Rightarrow> jrecord res) \<Rightarrow> candidate_plan \<Rightarrow> plan_identities \<Rightarrow> unit res" where
  "seal_evidence digest verify c identities =
     rbind (rfold (seal_row digest verify c identities)
       \<lparr>sl_owned = [], sl_tokens = [], sl_prompts = [], sl_tps = []\<rparr> (cp_measurement_ids c)) (\<lambda>s.
     if length (sl_tokens s) \<noteq> 1 then Inl (ValueError ''unstable generated tokens'')
     else if length (sl_prompts s) \<noteq> 1 then Inl (ValueError ''unstable prompt tokens'')
     else rbind (cv_pct (sl_tps s)) (\<lambda>cv.
     if num_less (wl_maximum_cv_pct (pi_workload identities)) cv
     then Inl (ValueError ''inconclusive measurement variance'') else Inr ()))"

definition zero_hash :: string where
  "zero_hash = replicate 64 CHR ''0''"

text \<open>The sealed plan: built with a zero hash, then replaced by one with the hash of its payload.\<close>

definition sealed_plan :: "(json \<Rightarrow> string) \<Rightarrow> string \<Rightarrow> candidate_plan \<Rightarrow> execution_plan option \<Rightarrow> execution_plan res" where
  "sealed_plan digest now c fallback =
     (let make = ExecutionPlan (JStr PLAN_SCHEMA) (JStr ''0.1.0'') (JStr PLAN_SCHEMA) c fallback (JStr now) in
      rbind (make (JStr zero_hash)) (\<lambda>p.
      rbind (canonical_sha256 digest (without_hash p)) (\<lambda>h. make (JStr h))))"

fun fallback_depth :: "execution_plan option \<Rightarrow> nat" where
  "fallback_depth None = 0"
| "fallback_depth (Some (ExecPlan v c fallback t h)) = Suc (fallback_depth fallback)"

text \<open>
  \<open>==\<close> of two identities: the same object, or equal fields, numbers by value.
\<close>

definition identities_equal :: "plan_identities \<Rightarrow> plan_identities \<Rightarrow> bool" where
  "identities_equal a b \<longleftrightarrow> a = b \<or> jeq (identities_payload a) (identities_payload b)"

definition same_execution :: "plan_identities \<Rightarrow> plan_identities \<Rightarrow> bool" where
  "same_execution a b \<longleftrightarrow> pi_model_sha256 a = pi_model_sha256 b \<and> pi_hardware_sha256 a = pi_hardware_sha256 b
     \<and> pi_workload_sha256 a = pi_workload_sha256 b"

function (sequential) validate_execution_plan :: "(json \<Rightarrow> string) \<Rightarrow> string \<Rightarrow> execution_plan \<Rightarrow> plan_identities option
      \<Rightarrow> (string \<Rightarrow> jrecord res) option \<Rightarrow> unit res"
  and validate_fallback :: "(json \<Rightarrow> string) \<Rightarrow> string \<Rightarrow> candidate_plan \<Rightarrow> execution_plan option \<Rightarrow> unit res"
  and seal_candidate :: "(json \<Rightarrow> string) \<Rightarrow> string \<Rightarrow> candidate_plan \<Rightarrow> (string \<Rightarrow> jrecord res) \<Rightarrow> plan_identities
      \<Rightarrow> execution_plan option \<Rightarrow> execution_plan res"
where
  "validate_execution_plan digest now plan identities store =
     rbind (canonical_sha256 digest (without_hash plan)) (\<lambda>h.
     if h \<noteq> ep_plan_sha256 plan then Inl (ValueError ''plan hash mismatch'')
     else rbind (validate_candidate (ep_candidate plan)) (\<lambda>_.
     if \<not> (case identities of None \<Rightarrow> True | Some i \<Rightarrow> identities_equal (cp_identities (ep_candidate plan)) i)
     then Inl (ValueError ''execution identity mismatch'')
     else rbind (validate_fallback digest now (ep_candidate plan) (ep_fallback plan)) (\<lambda>_.
     case store of None \<Rightarrow> Inr ()
     | Some verify \<Rightarrow> rbind (seal_candidate digest now (ep_candidate plan) verify
         (cp_identities (ep_candidate plan)) (ep_fallback plan)) (\<lambda>_. Inr ()))))"
| "validate_fallback digest now c None =
     (if rs_static (cp_settings c) \<noteq> None then Inl (ValueError ''static candidate requires measured fallback'')
      else Inr ())"
| "validate_fallback digest now c (Some fallback) =
     rbind (validate_execution_plan digest now fallback None None) (\<lambda>_.
     if \<not> same_execution (cp_identities c) (cp_identities (ep_candidate fallback))
       \<or> rs_static (cp_settings (ep_candidate fallback)) \<noteq> None
     then Inl (ValueError ''incompatible fallback'') else Inr ())"
| "seal_candidate digest now c verify identities fallback =
     rbind (validate_candidate c) (\<lambda>_.
     if \<not> identities_equal (cp_identities c) identities then Inl (ValueError ''candidate identity mismatch'')
     else rbind (validate_fallback digest now c fallback) (\<lambda>_.
     rbind (case fallback of None \<Rightarrow> Inr () | Some p \<Rightarrow> validate_execution_plan digest now p None (Some verify)) (\<lambda>_.
     rbind (seal_evidence digest verify c identities) (\<lambda>_.
       sealed_plan digest now c fallback))))"
  by pat_completeness auto

lemma fallback_depth_plan: "fallback_depth (Some p) = Suc (fallback_depth (ep_fallback p))"
  by (cases p) simp

termination validate_execution_plan
  by (relation "measure (\<lambda>x. case x of
        Inl (digest, now, plan, identities, store) \<Rightarrow> 3 * fallback_depth (Some plan)
      | Inr (Inl (digest, now, c, fallback)) \<Rightarrow> 3 * fallback_depth fallback + 1
      | Inr (Inr (digest, now, c, verify, identities, fallback)) \<Rightarrow> 3 * fallback_depth fallback + 2)")
    (auto simp: fallback_depth_plan simp del: fallback_depth.simps(2))

declare validate_execution_plan.simps [simp del] seal_candidate.simps [simp del]

section \<open>Loading\<close>

text \<open>
  \<open>dict(value)\<close>: a copy of a dictionary, or a dictionary built from a list of pairs, each a
  two-element list or an object of two keys. (A two-character string is a pair too, whose key names
  no field, so it is refused here rather than by the constructor it reaches.)
\<close>

definition py_pair :: "json \<Rightarrow> (string \<times> json) res" where
  "py_pair x = (case x of JArr [JStr k, v] \<Rightarrow> Inr (k, v) | JObj [(k, _), (k', _)] \<Rightarrow> Inr (k, JStr k')
     | _ \<Rightarrow> Inl TypeError)"

definition py_dict :: "json \<Rightarrow> jrecord res" where
  "py_dict v = (case v of JObj d \<Rightarrow> Inr d
     | JArr xs \<Rightarrow> rbind (rmap py_pair xs) (\<lambda>ps. Inr (foldl (\<lambda>d (k, x). dict_set k x d) [] ps))
     | JStr [] \<Rightarrow> Inr [] | _ \<Rightarrow> Inl TypeError)"

text \<open>A mapping to unpack with \<open>**\<close>.\<close>

definition unpack :: "json \<Rightarrow> jrecord res" where
  "unpack v = (case v of JObj d \<Rightarrow> Inr d | _ \<Rightarrow> Inl TypeError)"

definition decode_identities :: "(json \<Rightarrow> string) \<Rightarrow> json \<Rightarrow> plan_identities res" where
  "decode_identities digest v = rbind (py_dict v) (\<lambda>i.
     rbind (dict_index i ''workload'') (\<lambda>w. rbind (unpack w) (\<lambda>kwargs. rbind (WorkloadIR kwargs) (\<lambda>workload.
     rbind (bind_kwargs [(''model_sha256'', None), (''hardware_sha256'', None), (''workload_sha256'', None),
       (''runtime_sha256'', None), (''workload'', None)] i) (\<lambda>r.
       PlanIdentities digest (jget r ''model_sha256'') (jget r ''hardware_sha256'') (jget r ''workload_sha256'')
         (jget r ''runtime_sha256'') workload)))))"

definition decode_settings :: "json \<Rightarrow> runtime_settings res" where
  "decode_settings v = rbind (py_dict v) (\<lambda>s.
     rbind (dict_index s ''static'') (\<lambda>p.
     rbind (if p = JNull then Inr None
       else rbind (unpack p) (\<lambda>kwargs. rbind (StaticPlacement kwargs) (\<lambda>q. Inr (Some q)))) (\<lambda>static.
       RuntimeSettings static (filter (\<lambda>(k, v). k \<noteq> ''static'') s))))"

definition decode_validation :: "json \<Rightarrow> (string \<times> bool) list res" where
  "decode_validation v = rbind (py_iter v) (\<lambda>items. rmap (\<lambda>x. case x of
       JArr [JStr k, JBool b] \<Rightarrow> Inr (k, b) | _ \<Rightarrow> Inl (ValueError ''invalid candidate validation'')) items)"

definition candidate_specs :: "(string \<times> json option) list" where
  "candidate_specs = [(''identities'', None), (''settings'', None), (''status'', Some (JStr ''unmeasured'')),
     (''estimated_decode_tps'', Some JNull), (''measurement_ids'', Some (JArr [])),
     (''rejection_reasons'', Some (JArr [])), (''validation'', Some (JArr []))]"

definition decode_candidate :: "(json \<Rightarrow> string) \<Rightarrow> json \<Rightarrow> candidate_plan res" where
  "decode_candidate digest v = rbind (py_dict v) (\<lambda>c.
     rbind (dict_index c ''identities'') (\<lambda>i. rbind (decode_identities digest i) (\<lambda>identities.
     rbind (dict_index c ''settings'') (\<lambda>s. rbind (decode_settings s) (\<lambda>settings.
     rbind (bind_kwargs candidate_specs c) (\<lambda>r.
     rbind (decode_validation (jget r ''validation'')) (\<lambda>validation.
       CandidatePlan identities settings (jget r ''status'') (jget r ''estimated_decode_tps'')
         (jget r ''measurement_ids'') (jget r ''rejection_reasons'') validation)))))))"

definition plan_specs :: "(string \<times> json option) list" where
  "plan_specs = [(''schema_version'', None), (''compiler_version'', None), (''launcher_abi'', None),
     (''candidate'', None), (''fallback'', None), (''sealed_at'', None), (''plan_sha256'', None)]"

definition catch_invalid :: "'a res \<Rightarrow> 'a res" where
  "catch_invalid m = (case m of Inl TypeError \<Rightarrow> Inl (ValueError ''invalid execution plan'')
     | Inl KeyError \<Rightarrow> Inl (ValueError ''invalid execution plan'') | _ \<Rightarrow> m)"

text \<open>The nesting of a document, which decreases along the fallbacks.\<close>

fun jsize :: "json \<Rightarrow> nat" where
  "jsize (JArr xs) = Suc (sum_list (map jsize xs))"
| "jsize (JObj d) = Suc (sum_list (map (\<lambda>(k, v). jsize v) d))"
| "jsize _ = 0"

lemma sum_list_mem: "x \<in> set xs \<Longrightarrow> f x \<le> (sum_list (map f xs) :: nat)"
  by (simp add: member_le_sum_list)

lemma py_pair_size: "py_pair x = Inr (k, v) \<Longrightarrow> jsize v \<le> jsize x"
  by (auto simp: py_pair_def split: json.splits list.splits)

lemma py_dict_size:
  assumes "py_dict v = Inr d" and "(k, x) \<in> set d"
  shows "jsize x < jsize v"
proof (cases v)
  case (JObj e)
  then have "(k, x) \<in> set e" using assms by (simp add: py_dict_def)
  then have "(case (k, x) of (k, v) \<Rightarrow> jsize v) \<le> sum_list (map (\<lambda>(k, v). jsize v) e)" by (rule sum_list_mem)
  then show ?thesis using JObj by simp
next
  case (JArr xs)
  then obtain ps where ps: "rmap py_pair xs = Inr ps" and d: "d = foldl (\<lambda>d (k, x). dict_set k x d) [] ps"
    using assms(1) by (auto simp: py_dict_def rbind_eq_Inr)
  have "set (foldl (\<lambda>d (k, x). dict_set k x d) e ps) \<subseteq> set e \<union> set ps" for e
    by (induction ps arbitrary: e) (use set_dict_set in \<open>fastforce\<close>)+
  from this [of "[]"] have "(k, x) \<in> set ps" using d assms(2) by auto
  then obtain p where "p \<in> set xs" "py_pair p = Inr (k, x)" using rmap_elem [OF ps] by blast
  then show ?thesis using sum_list_mem [of p xs jsize] py_pair_size [of p k x] JArr by simp
qed (use assms in \<open>auto simp: py_dict_def split: list.splits\<close>)

function decode_plan :: "(json \<Rightarrow> string) \<Rightarrow> json \<Rightarrow> execution_plan res" where
  "decode_plan digest payload = catch_invalid (rbind (py_dict payload) (\<lambda>value.
     rbind (dict_index value ''candidate'') (\<lambda>c. rbind (decode_candidate digest c) (\<lambda>candidate.
     rbind (dict_index value ''fallback'') (\<lambda>f.
     rbind (if f = JNull then Inr None else rbind (decode_plan digest f) (\<lambda>p. Inr (Some p))) (\<lambda>fallback.
     rbind (bind_kwargs plan_specs value) (\<lambda>r.
       ExecutionPlan (jget r ''schema_version'') (jget r ''compiler_version'') (jget r ''launcher_abi'')
         candidate fallback (jget r ''sealed_at'') (jget r ''plan_sha256''))))))))"
  by pat_completeness auto

termination decode_plan
  by (relation "measure (jsize \<circ> snd)")
    (auto simp: dict_index_def split: option.splits dest!: map_of_SomeD dest: py_dict_size)

declare decode_plan.simps [simp del]

text \<open>\<open>load_execution_plan\<close>, with the document read from the file as its argument.\<close>

definition load_execution_plan :: "(json \<Rightarrow> string) \<Rightarrow> string \<Rightarrow> jrecord res \<Rightarrow> plan_identities option
    \<Rightarrow> (string \<Rightarrow> jrecord res) option \<Rightarrow> execution_plan res" where
  "load_execution_plan digest now document identities store =
     rbind document (\<lambda>d. rbind (decode_plan digest (JObj d)) (\<lambda>p.
     rbind (validate_execution_plan digest now p identities store) (\<lambda>_. Inr p)))"

section \<open>Sealing\<close>

lemma without_hash_ExecPlan: "without_hash (ExecPlan version c fallback sealed h) =
    JObj [(''schema_version'', JStr PLAN_SCHEMA), (''compiler_version'', JStr version),
     (''launcher_abi'', JStr PLAN_SCHEMA), (''candidate'', candidate_payload c),
     (''fallback'', case fallback of None \<Rightarrow> JNull | Some p \<Rightarrow> plan_payload p), (''sealed_at'', JStr sealed)]"
  by (simp add: without_hash_def)

lemma ExecutionPlan_ok: "ExecutionPlan s v a c fallback t h = Inr p \<longleftrightarrow> s = JStr PLAN_SCHEMA \<and> a = JStr PLAN_SCHEMA
    \<and> v = JStr (ep_compiler_version p) \<and> is_text (ep_compiler_version p) \<and> t = JStr (ep_sealed_at p)
    \<and> is_text (ep_sealed_at p) \<and> h = JStr (ep_plan_sha256 p) \<and> is_hash (ep_plan_sha256 p)
    \<and> ep_candidate p = c \<and> ep_fallback p = fallback"
  by (cases p) (auto simp: ExecutionPlan_def rbind_eq_Inr require_simps)

lemma sealed_plan_ok:
  assumes "sealed_plan digest now c fallback = Inr p"
  shows "is_text now \<and> (\<exists>h. p = ExecPlan ''0.1.0'' c fallback now h \<and> is_hash h
    \<and> canonical_sha256 digest (without_hash p) = Inr h)"
proof -
  obtain p0 h where p0: "ExecutionPlan (JStr PLAN_SCHEMA) (JStr ''0.1.0'') (JStr PLAN_SCHEMA) c fallback (JStr now)
      (JStr zero_hash) = Inr p0" and h: "canonical_sha256 digest (without_hash p0) = Inr h"
    and p: "ExecutionPlan (JStr PLAN_SCHEMA) (JStr ''0.1.0'') (JStr PLAN_SCHEMA) c fallback (JStr now) (JStr h) = Inr p"
    using assms by (auto simp: sealed_plan_def Let_def rbind_eq_Inr)
  have "p0 = ExecPlan ''0.1.0'' c fallback now zero_hash" using p0 by (cases p0) (auto simp: ExecutionPlan_ok)
  moreover have "p = ExecPlan ''0.1.0'' c fallback now h" "is_hash h" "is_text now"
    using p by (cases p; auto simp: ExecutionPlan_ok)+
  ultimately show ?thesis using h by (simp add: without_hash_ExecPlan)
qed

text \<open>What is sealed does not depend on the time of sealing, apart from the time stamp itself.\<close>

lemma sealed_plan_time:
  assumes "is_text now" and "\<forall>v. is_hash (digest v)"
  shows "is_ok (sealed_plan digest now c fallback) \<longleftrightarrow>
    is_ok (canonical_payload (JObj [(''candidate'', candidate_payload c),
      (''fallback'', case fallback of None \<Rightarrow> JNull | Some p \<Rightarrow> plan_payload p)]))"
proof -
  have version: "is_text ''0.1.0''" "is_hash zero_hash"
    by (simp_all add: is_text_def py_isspace_def is_hash_def zero_hash_def hex_char_def list_all_iff)
  have make: "ExecutionPlan (JStr PLAN_SCHEMA) (JStr ''0.1.0'') (JStr PLAN_SCHEMA) c fallback (JStr now) (JStr h)
      = Inr (ExecPlan ''0.1.0'' c fallback now h)" if "is_hash h" for h
    using that version assms(1) by (simp add: ExecutionPlan_ok)
  have "sealed_plan digest now c fallback =
      rbind (canonical_payload (without_hash (ExecPlan ''0.1.0'' c fallback now zero_hash)))
        (\<lambda>q. Inr (ExecPlan ''0.1.0'' c fallback now (digest (sort_keys q))))"
    by (cases "canonical_payload (without_hash (ExecPlan ''0.1.0'' c fallback now zero_hash))")
      (simp_all add: sealed_plan_def Let_def make version(2) assms(2) canonical_sha256_def)
  then show ?thesis by (auto simp: is_ok_rbind is_ok_iff without_hash_ExecPlan rbind_eq_Inr)
qed

lemma validate_now: "validate_execution_plan digest now p i None = validate_execution_plan digest now' p i None"
proof (induction p arbitrary: i rule: execution_plan.induct)
  case (ExecPlan v c fallback t h)
  have "validate_fallback digest now c fallback = validate_fallback digest now' c fallback"
    by (cases fallback) (use ExecPlan in \<open>simp_all\<close>)
  then show ?case
    by (simp add: validate_execution_plan.simps [of digest _ "ExecPlan v c fallback t h"] cong: if_cong)
qed

lemma validate_fallback_now: "validate_fallback digest now c fallback = validate_fallback digest now' c fallback"
  by (cases fallback) (auto simp: validate_now [of digest now _ None now'])

lemma is_ok_rbind_cong: "m = m' \<Longrightarrow> (\<And>x. m = Inr x \<Longrightarrow> is_ok (f x) = is_ok (g x)) \<Longrightarrow> is_ok (rbind m f) = is_ok (rbind m' g)"
  by (cases m') auto

lemma is_ok_unit: "is_ok (m :: unit res) \<longleftrightarrow> m = Inr ()"
  by (cases m) auto

lemma is_ok_rbind_unit: "is_ok (rbind (m :: unit res) f) \<longleftrightarrow> is_ok m \<and> is_ok (f ())"
  by (cases m) auto

lemma seal_now:
  assumes "is_text now" and "is_text now'" and "\<forall>v. is_hash (digest v)"
    and "\<And>p. fallback = Some p \<Longrightarrow> is_ok (validate_execution_plan digest now p None (Some verify))
      \<longleftrightarrow> is_ok (validate_execution_plan digest now' p None (Some verify))"
  shows "is_ok (seal_candidate digest now c verify i fallback) \<longleftrightarrow> is_ok (seal_candidate digest now' c verify i fallback)"
  using assms(4) validate_fallback_now [of digest now c fallback now']
    sealed_plan_time [OF assms(1,3)] sealed_plan_time [OF assms(2,3)]
  by (auto simp: seal_candidate.simps [of digest now] seal_candidate.simps [of digest now'] is_ok_rbind_unit
      split: option.splits)

lemma validate_store_now:
  assumes "is_text now" and "is_text now'" and "\<forall>v. is_hash (digest v)"
  shows "is_ok (validate_execution_plan digest now p i (Some verify))
    \<longleftrightarrow> is_ok (validate_execution_plan digest now' p i (Some verify))"
proof (induction p arbitrary: i rule: execution_plan.induct)
  case (ExecPlan v c fallback t h)
  have "is_ok (seal_candidate digest now c verify (cp_identities c) fallback)
      \<longleftrightarrow> is_ok (seal_candidate digest now' c verify (cp_identities c) fallback)"
    by (rule seal_now [OF assms]) (use ExecPlan in auto)
  then have seal: "rbind (seal_candidate digest now c verify (cp_identities c) fallback) (\<lambda>_. Inr ()) = Inr ()
      \<longleftrightarrow> rbind (seal_candidate digest now' c verify (cp_identities c) fallback) (\<lambda>_. Inr ()) = Inr ()"
    by (auto simp: rbind_eq_Inr is_ok_iff)
  then show ?case
    by (auto simp: validate_execution_plan.simps [of digest _ "ExecPlan v c fallback t h"] is_ok_unit
        validate_fallback_now [of digest now c fallback now'] rbind_eq_Inr)
qed

text \<open>
  C28. A sealed plan is valid: the plan that sealing a candidate for its own identities returns passes
  the validation that loading runs, against those identities and the same evidence store, at any later time. The
  digest is only required to be what SHA-256 gives, 64 lower-case hexadecimal characters.
\<close>

theorem seal_then_validate:
  assumes "seal_candidate digest now c verify (cp_identities c) fallback = Inr p"
    and "\<forall>v. is_hash (digest v)" and "is_text later"
  shows "validate_execution_plan digest later p (Some (cp_identities c)) (Some verify) = Inr ()"
proof -
  have s: "validate_candidate c = Inr ()" "validate_fallback digest now c fallback = Inr ()"
    "sealed_plan digest now c fallback = Inr p"
    using assms(1) by (auto simp: seal_candidate.simps rbind_eq_Inr split: if_splits)
  obtain h where p: "p = ExecPlan ''0.1.0'' c fallback now h" and h: "canonical_sha256 digest (without_hash p) = Inr h"
    and now: "is_text now" using sealed_plan_ok [OF s(3)] by blast
  have "is_ok (seal_candidate digest later c verify (cp_identities c) fallback)"
    using assms(1) seal_now [OF now assms(3,2) validate_store_now [OF now assms(3,2)],
      where c = c and verify = verify and i = "cp_identities c" and fallback = fallback] by (auto simp: is_ok_iff)
  moreover have "identities_equal (cp_identities c) (cp_identities c)" by (simp add: identities_equal_def)
  ultimately show ?thesis
    using s h by (auto simp: p validate_execution_plan.simps validate_fallback_now [of digest later _ _ now] is_ok_iff)
qed

text \<open>
  The row of a passing run of the candidate: it names the candidate, the identities and the settings,
  it is a successful measured run, its tokens, memory and cleanup were validated, and its rate is a
  proper number.
\<close>

definition row_accepted :: "(json \<Rightarrow> string) \<Rightarrow> candidate_plan \<Rightarrow> plan_identities \<Rightarrow> jrecord \<Rightarrow> bool" where
  "row_accepted digest c identities row \<longleftrightarrow> (\<exists>cid settings flags. candidate_id digest c = Inr cid
     \<and> jget row ''candidate_id'' = JStr cid \<and> jeq (jget row ''identities'') (identities_payload identities)
     \<and> canonical_sha256 digest (settings_payload (cp_settings c)) = Inr settings \<and> jget row ''settings_sha256'' = JStr settings
     \<and> jeq (jget row ''exit_code'') (JInt 0) \<and> jget row ''measured'' = JBool True
     \<and> map_of row ''validations'' = Some (JObj flags) \<and> jget flags ''exact_tokens'' = JBool True
     \<and> jget flags ''memory'' = JBool True \<and> jget flags ''cleanup'' = JBool True
     \<and> valid_number (jget row ''decode_tps'') MICRO)"

lemma row_valid_flags_ok:
  "row_valid_flags row [''exact_tokens'', ''memory'', ''cleanup''] = Inr True \<longleftrightarrow>
    (\<exists>flags. map_of row ''validations'' = Some (JObj flags) \<and> jget flags ''exact_tokens'' = JBool True
      \<and> jget flags ''memory'' = JBool True \<and> jget flags ''cleanup'' = JBool True)"
  by (auto simp: row_valid_flags_def row_validation_def rbind_eq_Inr split: option.splits json.splits if_splits)

lemma seal_row_ok:
  assumes "seal_row digest verify c identities s mid = Inr t"
  shows "\<exists>row owned tokens prompt. verify mid = Inr row \<and> row_accepted digest c identities row
    \<and> jget row ''owned_run_sha256'' = JStr owned \<and> owned \<notin> set (sl_owned s)
    \<and> jget row ''generated_tokens_sha256'' = JStr tokens \<and> jget row ''prompt_tokens_sha256'' = JStr prompt
    \<and> t = \<lparr>sl_owned = sl_owned s @ [owned], sl_tokens = List.insert tokens (sl_tokens s),
         sl_prompts = List.insert prompt (sl_prompts s), sl_tps = sl_tps s @ [jget row ''decode_tps'']\<rparr>"
proof -
  obtain row owned cid foreign settings valid tokens prompt tps where row: "verify mid = Inr row"
    and o: "require_hash (jget row ''owned_run_sha256'') ''owned run hash'' = Inr owned" "owned \<notin> set (sl_owned s)"
    and cid: "candidate_id digest c = Inr cid"
    and foreign: "(if jget row ''candidate_id'' \<noteq> JStr cid then Inr True
       else rbind (canonical_payload (identities_payload identities)) (\<lambda>p. Inr (\<not> jeq (jget row ''identities'') p))) = Inr foreign"
      "\<not> foreign"
    and settings: "canonical_sha256 digest (settings_payload (cp_settings c)) = Inr settings"
      "\<not> jget row ''settings_sha256'' \<noteq> JStr settings"
    and run: "\<not> (\<not> jeq (jget row ''exit_code'') (JInt 0) \<or> jget row ''measured'' \<noteq> JBool True)"
    and valid: "row_valid_flags row [''exact_tokens'', ''memory'', ''cleanup''] = Inr valid" "\<not> \<not> valid"
    and hashes: "require_hash (jget row ''generated_tokens_sha256'') ''generated token hash'' = Inr tokens"
      "require_hash (jget row ''prompt_tokens_sha256'') ''prompt token hash'' = Inr prompt"
    and tps: "require_number (jget row ''decode_tps'') ''measured TPS'' MICRO = Inr tps"
    and t: "Inr \<lparr>sl_owned = sl_owned s @ [owned], sl_tokens = List.insert tokens (sl_tokens s),
         sl_prompts = List.insert prompt (sl_prompts s), sl_tps = sl_tps s @ [tps]\<rparr> = (Inr t :: seal_scan res)"
    using assms unfolding seal_row_def rbind_eq_Inr if_Inl_eq_Inr by (elim exE conjE) (rule that)
  have "jget row ''candidate_id'' = JStr cid" "jeq (jget row ''identities'') (identities_payload identities)"
    using foreign by (auto simp: rbind_eq_Inr split: if_splits dest: canonical_payload_id)
  moreover obtain flags where "map_of row ''validations'' = Some (JObj flags)" "jget flags ''exact_tokens'' = JBool True"
    "jget flags ''memory'' = JBool True" "jget flags ''cleanup'' = JBool True"
    using valid row_valid_flags_ok [of row] by auto
  moreover have "valid_number (jget row ''decode_tps'') MICRO" "tps = jget row ''decode_tps''"
    using tps by (simp_all add: require_simps)
  ultimately have "row_accepted digest c identities row"
    using cid settings run unfolding row_accepted_def not_not de_Morgan_disj by blast
  then show ?thesis
    using row o hashes t \<open>tps = jget row ''decode_tps''\<close> by (auto simp: require_simps)
qed

text \<open>The scan of the evidence: one accepted row per measurement, each of its own run.\<close>

lemma seal_scan_rows:
  assumes "rfold (seal_row digest verify c identities) s mids = Inr s'" and "distinct (sl_owned s)"
  shows "\<exists>rows owned. list_all2 (\<lambda>mid row. verify mid = Inr row) mids rows \<and> list_all (row_accepted digest c identities) rows
    \<and> map (\<lambda>row. jget row ''owned_run_sha256'') rows = map JStr owned \<and> distinct (sl_owned s @ owned)
    \<and> set (sl_tokens s) \<subseteq> set (sl_tokens s') \<and> set (sl_prompts s) \<subseteq> set (sl_prompts s')
    \<and> list_all (\<lambda>row. jget row ''generated_tokens_sha256'' \<in> JStr ` set (sl_tokens s')
        \<and> jget row ''prompt_tokens_sha256'' \<in> JStr ` set (sl_prompts s')) rows
    \<and> sl_tps s' = sl_tps s @ map (\<lambda>row. jget row ''decode_tps'') rows"
  using assms
proof (induction mids arbitrary: s)
  case Nil
  then show ?case by (intro exI [of _ "[]"]) simp
next
  case (Cons mid mids)
  then obtain t where t: "seal_row digest verify c identities s mid = Inr t"
    and r: "rfold (seal_row digest verify c identities) t mids = Inr s'" by (auto simp: rbind_eq_Inr)
  obtain row run tokens prompt where row: "verify mid = Inr row" "row_accepted digest c identities row"
    "jget row ''owned_run_sha256'' = JStr run" "run \<notin> set (sl_owned s)"
    "jget row ''generated_tokens_sha256'' = JStr tokens" "jget row ''prompt_tokens_sha256'' = JStr prompt"
    and t': "t = \<lparr>sl_owned = sl_owned s @ [run], sl_tokens = List.insert tokens (sl_tokens s),
         sl_prompts = List.insert prompt (sl_prompts s), sl_tps = sl_tps s @ [jget row ''decode_tps'']\<rparr>"
    using seal_row_ok [OF t] by (elim exE conjE)
  have "distinct (sl_owned t)" using Cons.prems(2) row(4) by (simp add: t')
  from Cons.IH [OF r this] obtain rows owned where IH:
    "list_all2 (\<lambda>mid row. verify mid = Inr row) mids rows" "list_all (row_accepted digest c identities) rows"
    "map (\<lambda>row. jget row ''owned_run_sha256'') rows = map JStr owned" "distinct (sl_owned t @ owned)"
    "set (sl_tokens t) \<subseteq> set (sl_tokens s')" "set (sl_prompts t) \<subseteq> set (sl_prompts s')"
    "list_all (\<lambda>row. jget row ''generated_tokens_sha256'' \<in> JStr ` set (sl_tokens s')
        \<and> jget row ''prompt_tokens_sha256'' \<in> JStr ` set (sl_prompts s')) rows"
    "sl_tps s' = sl_tps t @ map (\<lambda>row. jget row ''decode_tps'') rows"
    by (elim exE conjE)
  show ?case
    by (intro exI [of _ "row # rows"] exI [of _ "run # owned"]) (use row IH in \<open>auto simp: t'\<close>)
qed

text \<open>
  C29. Sealing is evidence-backed: a sealed plan carries the given candidate, which was measured,
  has no rejection reason, follows the exact policy without a static placement and has at least
  the required number of measurements. Each of them verifies as a passing row of this very
  candidate with these identities and settings: a successful measured run with valid tokens,
  memory and cleanup. No two rows come from the same owned run, all have the same prompt and the
  same generated tokens, and the variation of their rates stays within the workload's bound.
\<close>

theorem seal_evidence_backed:
  assumes "seal_candidate digest now c verify identities fallback = Inr p"
  shows "ep_candidate p = c \<and> identities_equal (cp_identities c) identities \<and> cp_status c = MEASURED
    \<and> cp_rejection_reasons c = [] \<and> wl_policy (pi_workload (cp_identities c)) = EXACT \<and> rs_static (cp_settings c) = None
    \<and> wl_measured_runs (pi_workload (cp_identities c)) \<le> int (length (cp_measurement_ids c))
    \<and> (\<exists>rows tokens prompt cv. list_all2 (\<lambda>mid row. verify mid = Inr row) (cp_measurement_ids c) rows
         \<and> (\<forall>row \<in> set rows. row_accepted digest c identities row
              \<and> jget row ''generated_tokens_sha256'' = JStr tokens \<and> jget row ''prompt_tokens_sha256'' = JStr prompt)
         \<and> distinct (map (\<lambda>row. jget row ''owned_run_sha256'') rows)
         \<and> cv_pct (map (\<lambda>row. jget row ''decode_tps'') rows) = Inr cv
         \<and> \<not> num_less (wl_maximum_cv_pct (pi_workload identities)) cv)"
proof -
  have s: "validate_candidate c = Inr ()" "identities_equal (cp_identities c) identities"
    "seal_evidence digest verify c identities = Inr ()" "sealed_plan digest now c fallback = Inr p"
    using assms by (auto simp: seal_candidate.simps rbind_eq_Inr split: if_splits)
  obtain s' cv where scan: "rfold (seal_row digest verify c identities)
      \<lparr>sl_owned = [], sl_tokens = [], sl_prompts = [], sl_tps = []\<rparr> (cp_measurement_ids c) = Inr s'"
    and one: "length (sl_tokens s') = 1" "length (sl_prompts s') = 1"
    and cv: "cv_pct (sl_tps s') = Inr cv" "\<not> num_less (wl_maximum_cv_pct (pi_workload identities)) cv"
    using s(3) by (auto simp: seal_evidence_def rbind_eq_Inr if_Inl_eq_Inr)
  obtain rows owned where rows: "list_all2 (\<lambda>mid row. verify mid = Inr row) (cp_measurement_ids c) rows"
    "list_all (row_accepted digest c identities) rows" "distinct owned"
    "map (\<lambda>row. jget row ''owned_run_sha256'') rows = map JStr owned"
    "list_all (\<lambda>row. jget row ''generated_tokens_sha256'' \<in> JStr ` set (sl_tokens s')
        \<and> jget row ''prompt_tokens_sha256'' \<in> JStr ` set (sl_prompts s')) rows"
    "sl_tps s' = map (\<lambda>row. jget row ''decode_tps'') rows"
    using seal_scan_rows [OF scan] by auto
  obtain tokens prompt where tp: "sl_tokens s' = [tokens]" "sl_prompts s' = [prompt]"
    using one by (auto simp: length_Suc_conv)
  have "distinct (map (\<lambda>row. jget row ''owned_run_sha256'') rows)"
    unfolding rows(4) using rows(3) by (simp add: distinct_map inj_on_def)
  moreover have "\<forall>row \<in> set rows. row_accepted digest c identities row
      \<and> jget row ''generated_tokens_sha256'' = JStr tokens \<and> jget row ''prompt_tokens_sha256'' = JStr prompt"
    using rows(2,5) by (auto simp: list_all_iff tp)
  moreover note rows(1) cv [unfolded rows(6)]
  ultimately have "\<exists>rows tokens prompt cv. list_all2 (\<lambda>mid row. verify mid = Inr row) (cp_measurement_ids c) rows
         \<and> (\<forall>row \<in> set rows. row_accepted digest c identities row
              \<and> jget row ''generated_tokens_sha256'' = JStr tokens \<and> jget row ''prompt_tokens_sha256'' = JStr prompt)
         \<and> distinct (map (\<lambda>row. jget row ''owned_run_sha256'') rows)
         \<and> cv_pct (map (\<lambda>row. jget row ''decode_tps'') rows) = Inr cv
         \<and> \<not> num_less (wl_maximum_cv_pct (pi_workload identities)) cv" by blast
  moreover have "ep_candidate p = c" using sealed_plan_ok [OF s(4)] by auto
  ultimately show ?thesis
    using s(1,2) by (auto simp: validate_candidate_def Let_def split: if_splits)
qed

text \<open>
  C31. A single measurement cannot be sealed: a workload may ask for one measured run, but the
  variance check of sealing takes the standard deviation of the measured rates, which raises for
  fewer than two of them.
\<close>

theorem seal_needs_two_measurements:
  assumes "length (cp_measurement_ids c) < 2"
  shows "\<exists>e. seal_candidate digest now c verify identities fallback = Inl e"
proof (rule ccontr)
  assume "\<not> ?thesis"
  then obtain p where "seal_candidate digest now c verify identities fallback = Inr p"
    by (cases "seal_candidate digest now c verify identities fallback") auto
  then have ev: "seal_evidence digest verify c identities = Inr ()"
    by (auto simp: seal_candidate.simps rbind_eq_Inr split: if_splits)
  then obtain s cv where rows: "rfold (seal_row digest verify c identities)
      \<lparr>sl_owned = [], sl_tokens = [], sl_prompts = [], sl_tps = []\<rparr> (cp_measurement_ids c) = Inr s"
    and cv: "cv_pct (sl_tps s) = Inr cv"
    by (auto simp: seal_evidence_def rbind_eq_Inr split: if_splits)
  have len: "length (sl_tps s') = length (sl_tps s0) + length mids"
    if "rfold (seal_row digest verify c identities) s0 mids = Inr s'" for s0 s' mids
    using that
    by (induction mids arbitrary: s0) (auto simp: rbind_eq_Inr seal_row_def if_Inl_eq_Inr)
  have "length (sl_tps s) < 2" using len [OF rows] assms by simp
  then show False using cv by (simp add: cv_pct_def stat_stdev_short)
qed

section \<open>Round trip of plans\<close>

definition wf_static :: "static_placement \<Rightarrow> bool" where
  "wf_static s \<longleftrightarrow> sp_layer_ids s \<noteq> [] \<and> length (sp_layer_ids s) \<le> 12 \<and> sorted (sp_layer_ids s)
     \<and> distinct (sp_layer_ids s) \<and> (\<forall>l \<in> set (sp_layer_ids s). 0 \<le> l) \<and> 0 \<le> sp_arena_bytes s"

definition wf_settings :: "runtime_settings \<Rightarrow> bool" where
  "wf_settings s \<longleftrightarrow> gpu_layers_ok (rs_gpu_layers s) \<and> rs_cuda_graphs s \<in> {''on'', ''off''}
     \<and> 1 \<le> rs_microbatch_size s \<and> rs_microbatch_size s \<le> rs_batch_size s
     \<and> (\<forall>p. rs_static s = Some p \<longrightarrow> wf_static p \<and> rs_cpu_moe s)
     \<and> rs_cuda_pdl s \<in> {None, Some ''on'', Some ''off''}"

definition wf_identities :: "(json \<Rightarrow> string) \<Rightarrow> plan_identities \<Rightarrow> bool" where
  "wf_identities digest i \<longleftrightarrow> is_hash (pi_model_sha256 i) \<and> is_hash (pi_hardware_sha256 i)
     \<and> is_hash (pi_workload_sha256 i) \<and> is_hash (pi_runtime_sha256 i)
     \<and> WorkloadIR (workload_fields (pi_workload i)) = Inr (pi_workload i)
     \<and> canonical_sha256 digest (workload_payload (pi_workload i)) = Inr (pi_workload_sha256 i)"

definition wf_candidate :: "(json \<Rightarrow> string) \<Rightarrow> candidate_plan \<Rightarrow> bool" where
  "wf_candidate digest c \<longleftrightarrow> wf_identities digest (cp_identities c) \<and> wf_settings (cp_settings c)
     \<and> (cp_estimated_decode_tps c = JNull \<or> valid_number (cp_estimated_decode_tps c) MICRO)
     \<and> list_all is_text (cp_measurement_ids c) \<and> list_all is_text (cp_rejection_reasons c)
     \<and> sorted (cp_validation c) \<and> settings_match (cp_settings c) (pi_workload (cp_identities c))"

fun wf_plan :: "(json \<Rightarrow> string) \<Rightarrow> execution_plan \<Rightarrow> bool" where
  "wf_plan digest (ExecPlan v c fallback t h) \<longleftrightarrow> is_text v \<and> wf_candidate digest c
     \<and> (case fallback of None \<Rightarrow> True | Some p \<Rightarrow> wf_plan digest p) \<and> is_text t \<and> is_hash h"

subsection \<open>The constructors give well-formed values\<close>

lemma rmap_ints: "rmap (\<lambda>v. require_int v name m) items = Inr ns \<Longrightarrow> items = map JInt ns \<and> (\<forall>n \<in> set ns. m \<le> n)"
  by (induction items arbitrary: ns) (auto simp: rbind_eq_Inr require_simps)

lemma rmap_texts: "rmap (\<lambda>v. require_text v name) items = Inr ss \<Longrightarrow> items = map JStr ss \<and> list_all is_text ss"
  by (induction items arbitrary: ss) (auto simp: rbind_eq_Inr require_simps)

lemma truthy_iter: "truthy v \<Longrightarrow> py_iter v = Inr xs \<Longrightarrow> xs \<noteq> []"
  by (cases v) (auto simp: truthy_def py_iter_def)

lemma StaticPlacement_wf:
  assumes "StaticPlacement kwargs = Inr s"
  shows "wf_static s"
proof -
  obtain v items layers where v: "truthy v" "py_iter v = Inr items" and layers: "rmap (\<lambda>v. require_int v ''static layer'' 0) items = Inr layers"
    and s: "length items \<le> 12" "distinct layers" "sp_layer_ids s = sort layers" "0 \<le> sp_arena_bytes s"
    using assms by (auto simp: StaticPlacement_def rbind_eq_Inr if_Inl_eq_Inr require_simps)
  have "items = map JInt layers" "\<forall>n \<in> set layers. 0 \<le> n" using rmap_ints [OF layers] by auto
  with s truthy_iter [OF v] show ?thesis by (auto simp: wf_static_def)
qed

lemma cuda_pdl_control_ok: "cuda_pdl_control v = Inr c \<Longrightarrow> c \<in> {None, Some ''on'', Some ''off''}"
  by (auto simp: cuda_pdl_control_def split: json.splits if_splits)

lemma RuntimeSettings_wf:
  assumes "RuntimeSettings static kwargs = Inr s" and "\<forall>p. static = Some p \<longrightarrow> wf_static p"
  shows "wf_settings s"
proof -
  obtain r where r: "cuda_pdl_control (jget r ''cuda_pdl'') = Inr (rs_cuda_pdl s)" "gpu_layers_ok (rs_gpu_layers s)"
    "on_off (jget r ''cuda_graphs'') ''invalid runtime controls'' = Inr (rs_cuda_graphs s)"
    "1 \<le> rs_microbatch_size s" "rs_microbatch_size s \<le> rs_batch_size s" "rs_static s = static" "static \<noteq> None \<longrightarrow> rs_cpu_moe s"
    using assms(1) by (auto simp: RuntimeSettings_def rbind_eq_Inr if_Inl_eq_Inr require_simps)
  have "rs_cuda_graphs s \<in> {''on'', ''off''}" using r(3) unfolding on_off_ok by blast
  then show ?thesis using r assms(2) cuda_pdl_control_ok [OF r(1)] by (simp add: wf_settings_def)
qed

lemma PlanIdentities_wf:
  "PlanIdentities digest m h w r workload = Inr i \<Longrightarrow> WorkloadIR kwargs = Inr workload \<Longrightarrow> wf_identities digest i"
  using WorkloadIR_again
  by (auto simp: PlanIdentities_def rbind_eq_Inr if_Inl_eq_Inr require_simps wf_identities_def)

lemma CandidatePlan_wf:
  "CandidatePlan i s status est ids reasons validation = Inr c \<Longrightarrow> wf_identities digest i \<Longrightarrow> wf_settings s
    \<Longrightarrow> wf_candidate digest c"
  by (auto simp: CandidatePlan_def text_items_def rbind_eq_Inr if_Inl_eq_Inr require_simps wf_candidate_def
      dest!: rmap_texts split: if_splits)

lemma decode_identities_wf: "decode_identities digest v = Inr i \<Longrightarrow> wf_identities digest i"
  by (auto simp: decode_identities_def rbind_eq_Inr intro: PlanIdentities_wf)

lemma decode_settings_wf: "decode_settings v = Inr s \<Longrightarrow> wf_settings s"
  using RuntimeSettings_wf StaticPlacement_wf
  by (fastforce simp: decode_settings_def rbind_eq_Inr split: if_splits)

lemma decode_candidate_wf: "decode_candidate digest v = Inr c \<Longrightarrow> wf_candidate digest c"
  using CandidatePlan_wf decode_identities_wf decode_settings_wf
  by (fastforce simp: decode_candidate_def rbind_eq_Inr)

lemma catch_invalid_Inr [simp]: "catch_invalid m = Inr x \<longleftrightarrow> m = Inr x"
  by (auto simp: catch_invalid_def split: sum.splits py_error.splits)

lemma decode_plan_wf: "decode_plan digest v = Inr p \<Longrightarrow> wf_plan digest p"
proof (induction p arbitrary: v rule: execution_plan.induct)
  case (ExecPlan ver c fallback t h)
  obtain c' f where cand: "decode_candidate digest c' = Inr c"
    and f: "(if f = JNull then Inr None else rbind (decode_plan digest f) (\<lambda>p. Inr (Some p))) = Inr fallback"
    and rest: "is_text ver" "is_text t" "is_hash h"
    using ExecPlan.prems by (auto simp: decode_plan.simps rbind_eq_Inr ExecutionPlan_ok)
  have "case fallback of None \<Rightarrow> True | Some p \<Rightarrow> wf_plan digest p"
    using f by (auto simp: rbind_eq_Inr split: if_splits intro: ExecPlan.IH)
  with decode_candidate_wf [OF cand] rest show ?case by simp
qed

subsection \<open>Decoding the payload\<close>

lemma rmap_require_ints: "\<forall>n \<in> set ns. m \<le> n \<Longrightarrow> rmap (\<lambda>v. require_int v name m) (map JInt ns) = Inr ns"
  by (induction ns) (auto simp: require_int_def)

lemma rmap_require_texts: "list_all is_text ss \<Longrightarrow> rmap (\<lambda>v. require_text v name) (map JStr ss) = Inr ss"
  by (induction ss) (auto simp: require_text_def)

lemma require_int_intro: "m \<le> n \<Longrightarrow> require_int (JInt n) name m = Inr n"
  by (simp add: require_int_def)

lemma require_hash_intro: "is_hash s \<Longrightarrow> require_hash (JStr s) name = Inr s"
  by (simp add: require_hash_def)

lemma require_text_intro: "is_text s \<Longrightarrow> require_text (JStr s) name = Inr s"
  by (simp add: require_text_def)

definition static_fields :: "static_placement \<Rightarrow> jrecord" where
  "static_fields s = [(''layer_ids'', JArr (map JInt (sp_layer_ids s))), (''precompute'', JBool True),
     (''arena_bytes'', JInt (sp_arena_bytes s))]"

lemma decode_static: "wf_static s \<Longrightarrow> StaticPlacement (static_fields s) = Inr s"
proof -
  assume wf: "wf_static s"
  have "bind_kwargs static_specs (static_fields s) = Inr (static_fields s)"
    by (rule bind_kwargs_id) (simp_all add: static_specs_def static_fields_def)
  then show ?thesis using wf
    by (simp add: StaticPlacement_def static_fields_def wf_static_def require_int_intro truthy_def py_iter_def
        rmap_require_ints sorted_sort_id)
qed

definition settings_fields :: "runtime_settings \<Rightarrow> jrecord" where
  "settings_fields s = [(''gpu_layers'', rs_gpu_layers s), (''cpu_moe'', JBool (rs_cpu_moe s)),
     (''cuda_graphs'', JStr (rs_cuda_graphs s)), (''kv_type_k'', JStr ''f16''), (''kv_type_v'', JStr ''f16''),
     (''batch_size'', JInt (rs_batch_size s)), (''microbatch_size'', JInt (rs_microbatch_size s))]
     @ (case rs_cuda_pdl s of None \<Rightarrow> [] | Some c \<Rightarrow> [(''cuda_pdl'', JStr c)])"

lemma bind_settings: "bind_kwargs settings_specs (settings_fields s) = Inr
    [(''gpu_layers'', rs_gpu_layers s), (''cpu_moe'', JBool (rs_cpu_moe s)),
     (''cuda_graphs'', JStr (rs_cuda_graphs s)), (''kv_type_k'', JStr ''f16''), (''kv_type_v'', JStr ''f16''),
     (''batch_size'', JInt (rs_batch_size s)), (''microbatch_size'', JInt (rs_microbatch_size s)),
     (''cuda_pdl'', case rs_cuda_pdl s of None \<Rightarrow> JNull | Some c \<Rightarrow> JStr c)]"
  by (cases "rs_cuda_pdl s") (simp_all add: bind_kwargs_def settings_specs_def settings_fields_def jkeys_def)

lemma decode_runtime_settings: "wf_settings s \<Longrightarrow> RuntimeSettings (rs_static s) (settings_fields s) = Inr s"
proof -
  assume wf: "wf_settings s"
  then have "cuda_pdl_control (case rs_cuda_pdl s of None \<Rightarrow> JNull | Some c \<Rightarrow> JStr c) = Inr (rs_cuda_pdl s)"
    by (auto simp: wf_settings_def cuda_pdl_control_def)
  moreover have "on_off (JStr (rs_cuda_graphs s)) m = Inr (rs_cuda_graphs s)" for m
    using wf by (auto simp: wf_settings_def on_off_def)
  ultimately show ?thesis using wf
    by (auto simp: RuntimeSettings_def bind_settings wf_settings_def require_int_intro require_bool_def)
qed

lemma decode_settings_payload: "wf_settings s \<Longrightarrow> decode_settings (settings_payload s) = Inr s"
proof -
  assume wf: "wf_settings s"
  let ?static = "case rs_static s of None \<Rightarrow> JNull | Some p \<Rightarrow> static_payload p"
  obtain d where d: "settings_payload s = JObj d" "map_of d ''static'' = Some ?static"
    "filter (\<lambda>(k, v). k \<noteq> ''static'') d = settings_fields s"
    by (cases "rs_cuda_pdl s") (auto simp: settings_payload_def settings_fields_def)
  have "(if ?static = JNull then Inr None
       else rbind (unpack ?static) (\<lambda>kwargs. rbind (StaticPlacement kwargs) (\<lambda>q. Inr (Some q)))) = Inr (rs_static s)"
    using wf decode_static
    by (auto simp: wf_settings_def static_payload_def static_fields_def unpack_def split: option.splits)
  then show ?thesis
    unfolding decode_settings_def d(1) by (simp add: py_dict_def dict_index_def d decode_runtime_settings wf)
qed

lemma decode_identities_payload: "wf_identities digest i \<Longrightarrow> decode_identities digest (identities_payload i) = Inr i"
proof -
  assume wf: "wf_identities digest i"
  let ?d = "[(''model_sha256'', JStr (pi_model_sha256 i)), (''hardware_sha256'', JStr (pi_hardware_sha256 i)),
    (''workload_sha256'', JStr (pi_workload_sha256 i)), (''runtime_sha256'', JStr (pi_runtime_sha256 i)),
    (''workload'', workload_payload (pi_workload i))]"
  let ?specs = "[(''model_sha256'', None), (''hardware_sha256'', None), (''workload_sha256'', None),
       (''runtime_sha256'', None), (''workload'', None)] :: (string \<times> json option) list"
  have "bind_kwargs ?specs ?d = Inr ?d" by (rule bind_kwargs_id) simp_all
  moreover have "unpack (workload_payload (pi_workload i)) = Inr (workload_fields (pi_workload i))"
    by (simp add: workload_payload_def unpack_def)
  ultimately show ?thesis using wf
    by (simp add: decode_identities_def identities_payload_def py_dict_def dict_index_def wf_identities_def
        PlanIdentities_def require_hash_intro)
qed

lemma decode_validation_payload:
  "decode_validation (JArr (map (\<lambda>(k, b). JArr [JStr k, JBool b]) vs)) = Inr vs"
  by (induction vs) (auto simp: decode_validation_def py_iter_def)

lemma CandidateStatus_value: "CandidateStatus (JStr (status_value s)) = Inr s"
  by (cases s) (simp_all add: CandidateStatus_def status_value_def)

lemma decode_candidate_payload: "wf_candidate digest c \<Longrightarrow> decode_candidate digest (candidate_payload c) = Inr c"
proof -
  assume wf: "wf_candidate digest c"
  let ?d = "[(''identities'', identities_payload (cp_identities c)),
     (''settings'', settings_payload (cp_settings c)), (''status'', JStr (status_value (cp_status c))),
     (''estimated_decode_tps'', cp_estimated_decode_tps c), (''measurement_ids'', JArr (map JStr (cp_measurement_ids c))),
     (''rejection_reasons'', JArr (map JStr (cp_rejection_reasons c))),
     (''validation'', JArr (map (\<lambda>(k, b). JArr [JStr k, JBool b]) (cp_validation c)))]"
  have "bind_kwargs candidate_specs ?d = Inr ?d" by (rule bind_kwargs_id) (simp_all add: candidate_specs_def)
  then have "decode_candidate digest (candidate_payload c) = CandidatePlan (cp_identities c) (cp_settings c)
      (JStr (status_value (cp_status c))) (cp_estimated_decode_tps c) (JArr (map JStr (cp_measurement_ids c)))
      (JArr (map JStr (cp_rejection_reasons c))) (cp_validation c)"
    using wf by (simp add: decode_candidate_def candidate_payload_def py_dict_def dict_index_def wf_candidate_def
        decode_identities_payload decode_settings_payload decode_validation_payload)
  also have "\<dots> = Inr c"
    using wf by (auto simp: CandidatePlan_def CandidateStatus_value text_items_def py_iter_def rmap_require_texts
        wf_candidate_def require_number_def sorted_sort_id)
  finally show ?thesis .
qed

text \<open>
  C30. Round trip of a plan through its stored form: decoding the payload of a plan, with all of its
  fallbacks, gives the plan back exactly when the plan is well formed.
\<close>

theorem plan_roundtrip: "decode_plan digest (plan_payload p) = Inr p \<longleftrightarrow> wf_plan digest p"
proof
  show "wf_plan digest p \<Longrightarrow> decode_plan digest (plan_payload p) = Inr p"
  proof (induction p rule: execution_plan.induct)
    case (ExecPlan ver c fallback t h)
    let ?d = "[(''schema_version'', JStr PLAN_SCHEMA), (''compiler_version'', JStr ver),
      (''launcher_abi'', JStr PLAN_SCHEMA), (''candidate'', candidate_payload c),
      (''fallback'', case fallback of None \<Rightarrow> JNull | Some p \<Rightarrow> plan_payload p), (''sealed_at'', JStr t),
      (''plan_sha256'', JStr h)]"
    have bind: "bind_kwargs plan_specs ?d = Inr ?d" by (rule bind_kwargs_id) (simp_all add: plan_specs_def)
    have not_null: "plan_payload p \<noteq> JNull" for p by (cases p) simp
    have "(if (case fallback of None \<Rightarrow> JNull | Some p \<Rightarrow> plan_payload p) = JNull then Inr None
        else rbind (decode_plan digest (case fallback of None \<Rightarrow> JNull | Some p \<Rightarrow> plan_payload p)) (\<lambda>p. Inr (Some p)))
      = Inr fallback"
      using ExecPlan by (cases fallback) (auto simp: not_null)
    then show ?case
      using ExecPlan.prems decode_candidate_payload [of digest c] bind
      by (subst decode_plan.simps) (simp add: py_dict_def dict_index_def ExecutionPlan_ok)
  qed
next
  show "decode_plan digest (plan_payload p) = Inr p \<Longrightarrow> wf_plan digest p" by (rule decode_plan_wf)
qed

section \<open>A sealed example\<close>

definition example_workload_ir :: workload_ir where
  "example_workload_ir = \<lparr>wl_prompt = ''p'', wl_context_size = 8, wl_predict_tokens = 4,
     wl_schema_version = PLAN_SCHEMA, wl_objective = DECODE_TPS, wl_policy = EXACT,
     wl_runtime_interface = ''server_completion'', wl_concurrency = 1, wl_threads = 12, wl_seed = 0,
     wl_temperature = JFloat (Fin 0), wl_ignore_eos = True, wl_cache_prompt = False, wl_kv_type_k = JStr ''f16'',
     wl_kv_type_v = JStr ''f16'', wl_cuda_graphs = ''on'', wl_batch_size = 2048, wl_microbatch_size = 512,
     wl_warmup_runs = 1, wl_measured_runs = 3, wl_minimum_vram_reserve_mib = 256,
     wl_maximum_cv_pct = JFloat (Fin 10), wl_confirmation_pairs = 10, wl_bootstrap_samples = 10000,
     wl_bootstrap_seed = 20261003, wl_replay_tolerance_pct = JFloat (Fin 2), wl_health_timeout_seconds = 180,
     wl_completion_timeout_seconds = 300, wl_approximate_quality_budget = JNull\<rparr>"

lemma example_workload_valid: "WorkloadIR example_workload = Inr example_workload_ir"
  by code_simp

text \<open>One digest for every payload is enough for the checks; three runs at the same rate.\<close>

definition example_digest :: "json \<Rightarrow> string" where
  "example_digest v = zero_hash"

definition example_identities :: plan_identities where
  "example_identities = \<lparr>pi_model_sha256 = zero_hash, pi_hardware_sha256 = zero_hash,
     pi_workload_sha256 = zero_hash, pi_runtime_sha256 = zero_hash, pi_workload = example_workload_ir\<rparr>"

definition example_settings :: runtime_settings where
  "example_settings = \<lparr>rs_gpu_layers = JInt 99, rs_cpu_moe = True, rs_cuda_graphs = ''on'', rs_batch_size = 2048,
     rs_microbatch_size = 512, rs_static = None, rs_cuda_pdl = None\<rparr>"

definition example_candidate :: "string list \<Rightarrow> candidate_plan" where
  "example_candidate ids = \<lparr>cp_identities = example_identities, cp_settings = example_settings, cp_status = MEASURED,
     cp_estimated_decode_tps = JNull, cp_measurement_ids = ids, cp_rejection_reasons = [], cp_validation = []\<rparr>"

definition example_row :: "string \<Rightarrow> jrecord res" where
  "example_row mid = Inr [(''owned_run_sha256'', JStr (mid @ replicate 63 CHR ''0'')), (''candidate_id'', JStr zero_hash),
     (''identities'', identities_payload example_identities), (''settings_sha256'', JStr zero_hash),
     (''exit_code'', JInt 0), (''measured'', JBool True),
     (''validations'', JObj [(''exact_tokens'', JBool True), (''memory'', JBool True), (''cleanup'', JBool True)]),
     (''generated_tokens_sha256'', JStr zero_hash), (''prompt_tokens_sha256'', JStr zero_hash),
     (''decode_tps'', JInt 20)]"

lemma is_hash_zero: "is_hash zero_hash"
  by (simp add: is_hash_def zero_hash_def hex_char_def list_all_iff)

lemma is_hash_example: "hex_char c \<Longrightarrow> is_hash (c # replicate 63 CHR ''0'')"
  by (simp add: is_hash_def hex_char_def list_all_iff)

lemma canonical_example: "canonical_payload (identities_payload example_identities) = Inr (identities_payload example_identities)"
  "canonical_payload (settings_payload example_settings) = Inr (settings_payload example_settings)"
  "jeq (identities_payload example_identities) (identities_payload example_identities)"
  by code_simp+

lemma example_candidate_id: "candidate_id example_digest (example_candidate ids) = Inr zero_hash"
  by (simp add: candidate_id_def canonical_sha256_def example_candidate_def canonical_example example_digest_def)

lemma example_tps: "require_number (JInt 20) name MICRO = Inr (JInt 20)"
proof -
  have "valid_number (JInt 20) MICRO" by (rule valid_number_int) simp_all
  then show ?thesis by (simp add: require_number_def)
qed

lemma example_seal_row:
  assumes "hex_char c" and "c # replicate 63 CHR ''0'' \<notin> set (sl_owned s)"
  shows "seal_row example_digest example_row (example_candidate ids) example_identities s [c] =
    Inr \<lparr>sl_owned = sl_owned s @ [c # replicate 63 CHR ''0''], sl_tokens = List.insert zero_hash (sl_tokens s),
      sl_prompts = List.insert zero_hash (sl_prompts s), sl_tps = sl_tps s @ [JInt 20]\<rparr>"
proof -
  have settings: "canonical_sha256 example_digest (settings_payload (cp_settings (example_candidate ids))) = Inr zero_hash"
    by (simp add: canonical_sha256_def example_candidate_def canonical_example example_digest_def)
  show ?thesis
    using assms
    by (simp add: seal_row_def example_row_def require_hash_intro is_hash_example is_hash_zero example_candidate_id
        settings canonical_example row_valid_flags_def row_validation_def example_tps exact_num_def py_eq_def del: replicate.simps)
qed

lemma example_cv: "cv_pct [JInt 20, JInt 20, JInt 20] = Inr (JFloat (Fin 0))"
proof -
  have "stat_stdev [JInt 20, JInt 20, JInt 20] = Inr (Fin 0)" by (simp add: stat_stdev_def ratio_def float_sqrt_0)
  moreover have "stat_mean [JInt 20, JInt 20, JInt 20] = Inr (JInt 20)"
    by (simp add: stat_mean_def ratio_def is_int_number_def)
  moreover obtain r q where "float_of_int 100 = Inr (Fin r)" "float_of_int 20 = Inr (Fin q)" "1 \<le> q"
    using float_of_int_pos [of 100] float_of_int_pos [of 20] by auto
  ultimately show ?thesis
    by (simp add: cv_pct_def num_mul_def num_div_def num_op_def json_float_def fmul_def fdiv_def)
qed

lemma example_seal_ok: "is_ok (seal_candidate example_digest ''now'' (example_candidate [''a'', ''b'', ''c''])
    example_row example_identities None)"
proof -
  let ?c = "example_candidate [''a'', ''b'', ''c'']"
  have hex: "hex_char CHR ''a''" "hex_char CHR ''b''" "hex_char CHR ''c''" by (simp_all add: hex_char_def)
  have "rfold (seal_row example_digest example_row ?c example_identities)
      \<lparr>sl_owned = [], sl_tokens = [], sl_prompts = [], sl_tps = []\<rparr> [''a'', ''b'', ''c''] = Inr
      \<lparr>sl_owned = map (\<lambda>c. c # replicate 63 CHR ''0'') ''abc'', sl_tokens = [zero_hash], sl_prompts = [zero_hash],
        sl_tps = [JInt 20, JInt 20, JInt 20]\<rparr>"
    by (simp add: example_seal_row hex List.insert_def del: replicate.simps)
  moreover have "cp_measurement_ids ?c = [''a'', ''b'', ''c'']" by (simp add: example_candidate_def)
  moreover have "wl_maximum_cv_pct (pi_workload example_identities) = JFloat (Fin 10)"
    by (simp add: example_identities_def example_workload_ir_def)
  ultimately have "seal_evidence example_digest example_row ?c example_identities = Inr ()"
    by (simp add: seal_evidence_def example_cv num_less_def num_val_def exact_num_def py_less_def)
  moreover have "validate_candidate ?c = Inr ()"
    by (simp add: validate_candidate_def example_candidate_def example_identities_def example_workload_ir_def
        example_settings_def)
  moreover have "is_ok (sealed_plan example_digest ''now'' ?c None)"
  proof -
    have "is_ok (canonical_payload (JObj [(''candidate'', candidate_payload ?c), (''fallback'', JNull)]))" by code_simp
    moreover have "is_text ''now''" by (simp add: is_text_def py_isspace_def)
    ultimately show ?thesis using sealed_plan_time [of "''now''" example_digest ?c None]
      by (simp add: example_digest_def is_hash_zero)
  qed
  ultimately show ?thesis
    by (simp add: seal_candidate.simps) (simp add: example_candidate_def example_settings_def identities_equal_def)
qed

theorem seal_then_validate_witness:
  "\<exists>p. seal_candidate example_digest ''now'' (example_candidate [''a'', ''b'', ''c'']) example_row example_identities None = Inr p
    \<and> validate_execution_plan example_digest ''later'' p (Some example_identities) (Some example_row) = Inr ()"
proof -
  let ?c = "example_candidate [''a'', ''b'', ''c'']"
  have i: "cp_identities ?c = example_identities" by (simp add: example_candidate_def)
  obtain p where p: "seal_candidate example_digest ''now'' ?c example_row (cp_identities ?c) None = Inr p"
    using example_seal_ok unfolding is_ok_iff i by blast
  have "is_text ''later''" "\<forall>v. is_hash (example_digest v)"
    by (simp_all add: is_text_def py_isspace_def example_digest_def is_hash_zero)
  then have "validate_execution_plan example_digest ''later'' p (Some (cp_identities ?c)) (Some example_row) = Inr ()"
    by (intro seal_then_validate [OF p])
  then show ?thesis using p unfolding i by (intro exI conjI)
qed

theorem seal_evidence_backed_witness:
  "\<exists>p. seal_candidate example_digest ''now'' (example_candidate [''a'', ''b'', ''c'']) example_row example_identities None = Inr p
    \<and> ep_candidate p = example_candidate [''a'', ''b'', ''c'']"
  using example_seal_ok seal_evidence_backed unfolding is_ok_iff by blast

theorem seal_needs_two_measurements_witness:
  "\<exists>e. seal_candidate example_digest ''now'' (example_candidate [''a'']) example_row example_identities None = Inl e"
  by (rule seal_needs_two_measurements) (simp add: example_candidate_def)

end
