(* ===== verification/Passes.thy ===== *)
theory Passes
  imports Plan
begin

text \<open>
  \<open>compiler/passes/base.py\<close>: the compiler state and the pass manager, which orders passes by the
  capabilities they require and provide, runs them one after the other and checks what each one
  reports. A pass is a record of its declared sets and its \<open>run\<close>. \<open>resolve\<close> repeatedly takes the
  ready pass with the smallest name. The lemmas show that a resolution is a permutation of the
  passes in which every requirement is met by an earlier pass, that the cycle error is raised only
  if no such order exists, that the result does not depend on the order of registration, and that
  a run of passes that keep their contract (the locale \<open>pass_contract\<close>) never fails in the manager:
  it goes through them in the resolved order, handing each one's state to the next.
\<close>

section \<open>State\<close>

text \<open>Analyses are pairs of a name and the canonical JSON text of the value.\<close>

record compiler_state =
  cs_model :: "model_ir option"
  cs_hardware :: "hardware_ir option"
  cs_workload :: "workload_ir option"
  cs_candidates :: "candidate_plan list"
  cs_analyses :: "(string \<times> string) list"
  cs_diagnostics :: "string list"
  cs_capabilities :: "string set"

text \<open>
  The check of \<open>CompilerState.__post_init__\<close>; \<open>loads\<close> and \<open>dumps\<close> are \<open>json.loads\<close> and
  \<open>canonical_json\<close>.
\<close>

definition CompilerState :: "(string \<Rightarrow> json res) \<Rightarrow> (json \<Rightarrow> string) \<Rightarrow> compiler_state \<Rightarrow> compiler_state res" where
  "CompilerState loads dumps s = (let entries = sort (cs_analyses s) in
     if \<not> distinct (map fst entries) then Inl (ValueError ''duplicate analysis'')
     else rbind (rfold (\<lambda>_ (name, payload).
         if name = [] then Inl (ValueError ''analysis must be canonical JSON'')
         else rbind (loads payload) (\<lambda>v. if dumps v \<noteq> payload
           then Inl (ValueError ''analysis must be canonical JSON'') else Inr ())) () entries) (\<lambda>_.
       Inr (s\<lparr>cs_analyses := entries\<rparr>)))"

definition with_analysis :: "(string \<Rightarrow> json res) \<Rightarrow> (json \<Rightarrow> string) \<Rightarrow> compiler_state \<Rightarrow> string \<Rightarrow> json
    \<Rightarrow> compiler_state res" where
  "with_analysis loads dumps s name v = rbind (canonical_payload v) (\<lambda>p.
     CompilerState loads dumps (s\<lparr>cs_analyses := dict_set name (dumps p) (cs_analyses s)\<rparr>))"

definition analysis :: "(string \<Rightarrow> json res) \<Rightarrow> compiler_state \<Rightarrow> string \<Rightarrow> json res" where
  "analysis loads s name = rbind (dict_index (cs_analyses s) name) loads"

section \<open>Passes\<close>

record pass_result =
  pr_state :: compiler_state
  pr_provided :: "string set"

record compiler_pass =
  ps_name :: string
  ps_requires :: "string set"
  ps_provides :: "string set"
  ps_conflicts :: "string set"
  ps_run :: "compiler_state \<Rightarrow> pass_result res"

text \<open>
  The scan of the passes: conflicts with another pass's name or with any capability, then the
  unique provider of each capability. \<open>providers\<close> holds the capabilities provided so far.
\<close>

definition check_pass :: "string set \<Rightarrow> compiler_pass list \<Rightarrow> string set \<Rightarrow> compiler_pass \<Rightarrow> string set res" where
  "check_pass initial passes providers p =
     (if ps_conflicts p \<inter> set (map ps_name passes) \<noteq> {}
         \<or> ps_conflicts p \<inter> (initial \<union> \<Union> (set (map ps_provides passes))) \<noteq> {}
      then Inl (ValueError ''pass conflict'')
      else if ps_provides p \<inter> (providers \<union> initial) \<noteq> {}
      then Inl (ValueError ''ambiguous capability provider'')
      else Inr (providers \<union> ps_provides p))"

definition check_requirements :: "string set \<Rightarrow> compiler_pass list \<Rightarrow> unit res" where
  "check_requirements known passes =
     rfold (\<lambda>_ p. if ps_requires p - known \<noteq> {} then Inl (ValueError ''missing capability'') else Inr ()) () passes"

text \<open>The loop: the ready pass with the smallest name is ordered next.\<close>

definition ready :: "string set \<Rightarrow> compiler_pass list \<Rightarrow> compiler_pass list" where
  "ready available pending = sort_key ps_name (filter (\<lambda>p. ps_requires p \<subseteq> available) pending)"

function schedule :: "string set \<Rightarrow> compiler_pass list \<Rightarrow> compiler_pass list res" where
  "schedule available pending = (if length pending = 0 then Inr [] else case ready available pending of
     [] \<Rightarrow> Inl (ValueError ''compiler pass dependency cycle'')
   | p # _ \<Rightarrow> rbind (schedule (available \<union> ps_provides p) (filter (\<lambda>q. ps_name q \<noteq> ps_name p) pending))
       (\<lambda>ordered. Inr (p # ordered)))"
  by pat_completeness auto

lemma ready_mem: "p \<in> set (ready available pending) \<longleftrightarrow> p \<in> set pending \<and> ps_requires p \<subseteq> available"
  by (simp add: ready_def)

termination schedule
proof (relation "measure (length \<circ> snd)", goal_cases)
  case (2 available pending p rest)
  then have "p \<in> set pending" using ready_mem [of p available pending] by simp
  then show ?case by (auto intro: length_filter_less)
qed simp

declare schedule.simps [simp del]

definition resolve :: "compiler_pass list \<Rightarrow> string set \<Rightarrow> compiler_pass list res" where
  "resolve passes initial =
     (if \<not> distinct (map ps_name passes) then Inl (ValueError ''duplicate pass names'')
      else rbind (rfold (check_pass initial passes) {} passes) (\<lambda>providers.
           rbind (check_requirements (initial \<union> providers) passes) (\<lambda>_. schedule initial passes)))"

text \<open>One iteration of \<open>PassManager.run\<close>.\<close>

definition run_pass :: "compiler_state \<Rightarrow> compiler_pass \<Rightarrow> compiler_state res" where
  "run_pass s p =
     (if \<not> ps_requires p \<subseteq> cs_capabilities s then Inl (ValueError ''required capability not produced'')
      else rbind (ps_run p s) (\<lambda>result. let s' = pr_state result in
        if pr_provided result - ps_provides p \<noteq> {} \<or> cs_capabilities s' - cs_capabilities s \<noteq> {}
        then Inl (ValueError ''undeclared capability'')
        else if take (length (cs_diagnostics s)) (cs_diagnostics s') \<noteq> cs_diagnostics s
        then Inl (ValueError ''pass discarded diagnostics'')
        else Inr (s'\<lparr>cs_capabilities := cs_capabilities s \<union> pr_provided result\<rparr>)))"

definition run_passes :: "compiler_pass list \<Rightarrow> compiler_state \<Rightarrow> compiler_state res" where
  "run_passes passes s = rbind (resolve passes (cs_capabilities s)) (rfold run_pass s)"

section \<open>Resolution\<close>

text \<open>An order is valid when each pass finds what it requires provided before it.\<close>

fun valid_order :: "string set \<Rightarrow> compiler_pass list \<Rightarrow> bool" where
  "valid_order available [] = True"
| "valid_order available (p # ps) \<longleftrightarrow> ps_requires p \<subseteq> available \<and> valid_order (available \<union> ps_provides p) ps"

lemma valid_order_mono: "valid_order a ps \<Longrightarrow> a \<subseteq> b \<Longrightarrow> valid_order b ps"
proof (induction ps arbitrary: a b)
  case (Cons p ps)
  then show ?case by (auto intro: Cons.IH [of "a \<union> ps_provides p"])
qed simp

lemma filter_other_names: "f p \<notin> f ` set ps \<Longrightarrow> filter (\<lambda>q. f q \<noteq> f p) ps = ps"
  by (induction ps) auto

text \<open>A pass that could run now may be moved to the front of a valid order.\<close>

lemma valid_order_remove:
  "valid_order a ps \<Longrightarrow> p \<in> set ps \<Longrightarrow> valid_order (a \<union> ps_provides p) (filter (\<lambda>q. ps_name q \<noteq> ps_name p) ps)"
  if "distinct (map ps_name ps)"
  using that
proof (induction ps arbitrary: a)
  case (Cons q ps)
  show ?case
  proof (cases "q = p")
    case True
    then have "filter (\<lambda>q. ps_name q \<noteq> ps_name p) ps = ps" using Cons.prems(3) filter_other_names [of ps_name p ps] by auto
    then show ?thesis using Cons.prems(1) True by simp
  next
    case False
    then have p: "p \<in> set ps" using Cons.prems(2) by simp
    then have ne: "ps_name q \<noteq> ps_name p" using Cons.prems(3) by (auto simp: image_iff)
    have "valid_order (a \<union> ps_provides q \<union> ps_provides p) (filter (\<lambda>q. ps_name q \<noteq> ps_name p) ps)"
      using Cons.IH [of "a \<union> ps_provides q"] Cons.prems p by simp
    then show ?thesis using Cons.prems(1) ne by (auto simp: ac_simps)
  qed
qed simp

lemma filter_name_mset: "distinct (map ps_name ps) \<Longrightarrow> p \<in> set ps \<Longrightarrow>
    add_mset p (mset (filter (\<lambda>q. ps_name q \<noteq> ps_name p) ps)) = mset ps"
proof (induction ps)
  case (Cons q ps)
  show ?case
  proof (cases "q = p")
    case True
    then have "filter (\<lambda>q. ps_name q \<noteq> ps_name p) ps = ps" using Cons.prems(1) filter_other_names [of ps_name p ps] by auto
    with True show ?thesis by simp
  next
    case False
    then have "ps_name q \<noteq> ps_name p" using Cons.prems by (auto simp: image_iff)
    with False Cons show ?thesis by simp
  qed
qed simp

lemma distinct_filter_map: "distinct (map f xs) \<Longrightarrow> distinct (map f (filter P xs))"
  by (induction xs) auto

text \<open>What the loop returns is a valid order of the pending passes.\<close>

lemma schedule_sound:
  "schedule a ps = Inr order \<Longrightarrow> distinct (map ps_name ps) \<Longrightarrow> mset order = mset ps \<and> valid_order a order"
proof (induction a ps arbitrary: order rule: schedule.induct)
  case (1 a ps)
  show ?case
  proof (cases "length ps = 0")
    case True
    then show ?thesis using "1.prems" by (simp add: schedule.simps)
  next
    case False
    then obtain p rest ordered where r: "ready a ps = p # rest" and order: "order = p # ordered"
      and s: "schedule (a \<union> ps_provides p) (filter (\<lambda>q. ps_name q \<noteq> ps_name p) ps) = Inr ordered"
      using "1.prems"(1) by (subst (asm) schedule.simps) (auto simp: rbind_eq_Inr split: list.splits)
    have p: "p \<in> set ps" "ps_requires p \<subseteq> a" using ready_mem [of p a ps] r by auto
    have "mset ordered = mset (filter (\<lambda>q. ps_name q \<noteq> ps_name p) ps) \<and> valid_order (a \<union> ps_provides p) ordered"
      using "1.IH" [OF False r s] "1.prems"(2) by (simp add: distinct_filter_map)
    then show ?thesis using order p filter_name_mset [OF "1.prems"(2) p(1)] by auto
  qed
qed

text \<open>The loop only fails when no order of the pending passes is valid.\<close>

lemma schedule_complete:
  "valid_order a order \<Longrightarrow> mset order = mset ps \<Longrightarrow> distinct (map ps_name ps) \<Longrightarrow> is_ok (schedule a ps)"
proof (induction a ps arbitrary: order rule: schedule.induct)
  case (1 a ps)
  show ?case
  proof (cases "length ps = 0")
    case True
    then show ?thesis by (simp add: schedule.simps)
  next
    case False
    then obtain q order' where "order = q # order'" using "1.prems"(2) by (cases order) auto
    then have "q \<in> set (ready a ps)" using "1.prems"(1) mset_eq_setD [OF "1.prems"(2)] by (auto simp: ready_mem)
    then obtain p rest where r: "ready a ps = p # rest" by (cases "ready a ps") auto
    have p: "p \<in> set ps" "ps_requires p \<subseteq> a" using ready_mem [of p a ps] r by auto
    let ?f = "filter (\<lambda>q. ps_name q \<noteq> ps_name p)"
    have d: "distinct (map ps_name order)"
      using "1.prems"(2,3) by (metis mset_eq_imp_distinct_iff mset_map)
    have "p \<in> set order" using p(1) "1.prems"(2) by (metis mset_eq_setD)
    then have "valid_order (a \<union> ps_provides p) (?f order)" using valid_order_remove [OF d "1.prems"(1)] by simp
    moreover have "mset (?f order) = mset (?f ps)" using "1.prems"(2) by simp
    ultimately have "is_ok (schedule (a \<union> ps_provides p) (?f ps))"
      using "1.IH" [OF False r] "1.prems"(3) by (simp add: distinct_filter_map)
    then show ?thesis using False r by (subst schedule.simps) (auto simp: is_ok_iff)
  qed
qed

text \<open>The scan succeeds exactly when nothing conflicts and no capability has two providers.\<close>

definition conflict_free :: "string set \<Rightarrow> compiler_pass list \<Rightarrow> compiler_pass \<Rightarrow> bool" where
  "conflict_free initial passes p \<longleftrightarrow> ps_conflicts p \<inter> set (map ps_name passes) = {}
     \<and> ps_conflicts p \<inter> (initial \<union> \<Union> (set (map ps_provides passes))) = {}"

lemma check_passes_ok: "rfold (check_pass initial passes) providers ps = Inr providers' \<longleftrightarrow>
    (\<forall>p \<in> set ps. conflict_free initial passes p)
    \<and> (\<forall>c. (if c \<in> providers \<union> initial then 1 else 0) + length (filter (\<lambda>p. c \<in> ps_provides p) ps) \<le> 1)
    \<and> providers' = providers \<union> \<Union> (ps_provides ` set ps)"
proof (induction ps arbitrary: providers)
  case Nil
  then show ?case by auto
next
  case (Cons p ps)
  have one: "(\<forall>c. (if c \<in> providers \<union> initial then 1 else 0) + length (filter (\<lambda>p. c \<in> ps_provides p) (p # ps)) \<le> 1)
      \<longleftrightarrow> ps_provides p \<inter> (providers \<union> initial) = {} \<and>
        (\<forall>c. (if c \<in> providers \<union> ps_provides p \<union> initial then 1 else 0) + length (filter (\<lambda>p. c \<in> ps_provides p) ps) \<le> 1)"
    (is "(\<forall>c. ?l c) \<longleftrightarrow> ?e \<and> (\<forall>c. ?r c)")
  proof -
    have "?l c \<longleftrightarrow> (c \<in> ps_provides p \<longrightarrow> c \<notin> providers \<union> initial) \<and> ?r c" for c by auto
    then show ?thesis by blast
  qed
  show ?case
    unfolding one rfold.simps rbind_eq_Inr Cons.IH
    by (auto simp: check_pass_def conflict_free_def)
qed

lemma check_requirements_ok:
  "check_requirements known ps = Inr () \<longleftrightarrow> (\<forall>p \<in> set ps. ps_requires p \<subseteq> known)"
  by (induction ps) (auto simp: check_requirements_def rbind_eq_Inr split: if_splits)

lemma resolve_ok: "resolve passes initial = Inr order \<longleftrightarrow> distinct (map ps_name passes)
    \<and> (\<forall>p \<in> set passes. conflict_free initial passes p)
    \<and> (\<forall>c. (if c \<in> initial then 1 else 0) + length (filter (\<lambda>p. c \<in> ps_provides p) passes) \<le> 1)
    \<and> (\<forall>p \<in> set passes. ps_requires p \<subseteq> initial \<union> \<Union> (ps_provides ` set passes))
    \<and> schedule initial passes = Inr order"
  by (auto simp: resolve_def rbind_eq_Inr if_Inl_eq_Inr check_passes_ok check_requirements_ok)

text \<open>
  C32. Dependency order: a successful resolution lists every pass exactly once, and each pass finds
  all the capabilities it requires among the initial ones and those of the passes before it.
\<close>

theorem resolve_dependency_order:
  assumes "resolve passes initial = Inr order"
  shows "mset order = mset passes \<and> valid_order initial order
    \<and> (\<forall>i < length order. ps_requires (order ! i) \<subseteq> initial \<union> \<Union> (ps_provides ` set (take i order)))"
proof -
  have s: "mset order = mset passes" "valid_order initial order"
    using assms schedule_sound by (auto simp: resolve_ok)
  have "ps_requires (ps ! i) \<subseteq> a \<union> \<Union> (ps_provides ` set (take i ps))" if "valid_order a ps" "i < length ps" for a ps i
    using that
  proof (induction ps arbitrary: a i)
    case (Cons p ps)
    then show ?case
    proof (cases i)
      case (Suc j)
      then have "ps_requires (ps ! j) \<subseteq> a \<union> ps_provides p \<union> \<Union> (ps_provides ` set (take j ps))"
        using Cons.prems by (intro Cons.IH) auto
      with Suc show ?thesis by auto
    qed simp
  qed simp
  then show ?thesis using s by auto
qed

text \<open>
  The cycle error is never spurious: when resolution reports a dependency cycle, no order of
  the passes at all meets every requirement before it is needed.
\<close>

theorem resolve_cycle_genuine:
  assumes "resolve passes initial = Inl (ValueError ''compiler pass dependency cycle'')"
    and "mset order = mset passes"
  shows "\<not> valid_order initial order"
proof
  assume v: "valid_order initial order"
  have check: "rfold (check_pass initial passes) a ps \<noteq> Inl (ValueError ''compiler pass dependency cycle'')" for a ps
    by (induction ps arbitrary: a) (auto simp: rbind_eq_Inl check_pass_def split: if_splits)
  have req: "check_requirements a ps \<noteq> Inl (ValueError ''compiler pass dependency cycle'')" for a ps
    by (induction ps) (auto simp: check_requirements_def rbind_eq_Inl split: if_splits)
  have "distinct (map ps_name passes) \<and> schedule initial passes = Inl (ValueError ''compiler pass dependency cycle'')"
    using assms(1) check req by (auto simp: resolve_def rbind_eq_Inl split: if_splits)
  then show False using schedule_complete [OF v assms(2)] by (simp add: is_ok_def)
qed

lemma schedule_perm:
  "mset ps = mset ps' \<Longrightarrow> distinct (map ps_name ps) \<Longrightarrow> schedule a ps = schedule a ps'"
proof (induction a ps arbitrary: ps' rule: schedule.induct)
  case (1 a ps)
  show ?case
  proof (cases "length ps = 0")
    case True
    then show ?thesis using "1.prems" by (simp add: schedule.simps)
  next
    case False
    have ne: "length ps' \<noteq> 0" using False "1.prems"(1) by (metis size_mset)
    have r: "ready a ps = ready a ps'"
      unfolding ready_def using "1.prems" by (intro sort_key_perm) (auto intro: distinct_filter_map)
    show ?thesis
    proof (cases "ready a ps")
      case Nil
      then show ?thesis using False ne r by (simp add: schedule.simps)
    next
      case (Cons p rest)
      let ?f = "filter (\<lambda>q. ps_name q \<noteq> ps_name p)"
      have "schedule (a \<union> ps_provides p) (?f ps) = schedule (a \<union> ps_provides p) (?f ps')"
        using "1.IH" [OF False Cons] "1.prems" by (simp add: distinct_filter_map)
      moreover have "ready a ps' = p # rest" using Cons r by simp
      ultimately show ?thesis
        using False ne Cons by (simp add: schedule.simps [of a ps] schedule.simps [of a ps'])
    qed
  qed
qed

text \<open>
  C33. Scheduling is deterministic: the order in which passes are registered does not influence the
  resolution. Any reordering of the same passes resolves to the same sequence.
\<close>

theorem resolve_registration_order_irrelevant:
  assumes "resolve passes initial = Inr order" and "mset passes = mset passes'"
  shows "resolve passes' initial = Inr order"
proof -
  have sets: "set passes' = set passes" using assms(2) by (metis mset_eq_setD)
  have "distinct (map ps_name passes')" using assms by (metis mset_eq_imp_distinct_iff mset_map resolve_ok)
  moreover have "length (filter P passes') = length (filter P passes)" for P
    using assms(2) by (metis mset_filter size_mset)
  moreover have "schedule initial passes' = Inr order"
    using assms schedule_perm [OF assms(2)] by (simp add: resolve_ok)
  moreover have "conflict_free initial passes' p = conflict_free initial passes p" for p
    by (simp add: conflict_free_def sets)
  ultimately show ?thesis using assms(1) by (simp add: resolve_ok sets)
qed

section \<open>Running\<close>

text \<open>
  The contract of a pass, as the manager checks it: it reports exactly the capabilities it declares
  and leaves the set of capabilities and the diagnostics it was given in place.
\<close>

locale pass_contract =
  fixes run :: "compiler_state \<Rightarrow> pass_result res" and provides :: "string set"
  assumes reported: "run s = Inr r \<Longrightarrow> pr_provided r = provides"
    and capabilities_kept: "run s = Inr r \<Longrightarrow> cs_capabilities (pr_state r) = cs_capabilities s"
    and diagnostics_kept: "run s = Inr r \<Longrightarrow> \<exists>d. cs_diagnostics (pr_state r) = cs_diagnostics s @ d"
begin

text \<open>The manager's own checks never refuse such a pass once its requirements are met.\<close>

lemma accepted:
  assumes "ps_run p = run" and "ps_provides p = provides" and "ps_requires p \<subseteq> cs_capabilities s"
  shows "run_pass s p = rbind (run s) (\<lambda>r. Inr ((pr_state r)\<lparr>cs_capabilities := cs_capabilities s \<union> provides\<rparr>))"
proof (cases "run s")
  case (Inr r)
  then show ?thesis
    using assms reported [OF Inr] capabilities_kept [OF Inr] diagnostics_kept [OF Inr]
    by (auto simp: run_pass_def Let_def)
qed (use assms in \<open>simp add: run_pass_def\<close>)

end

definition keeps_contract :: "compiler_pass \<Rightarrow> bool" where
  "keeps_contract p \<longleftrightarrow> pass_contract (ps_run p) (ps_provides p)"

text \<open>
  A run without a manager: each pass starts in the state the pass before it returned, with its
  declared capabilities added to those known so far. Nothing else of a returned state, its
  analyses, candidates and diagnostics, is touched on the way to the next pass.
\<close>

inductive pass_steps :: "compiler_state \<Rightarrow> compiler_pass list \<Rightarrow> compiler_state \<Rightarrow> bool" where
  finished: "pass_steps s [] s"
| step: "ps_requires p \<subseteq> cs_capabilities s \<Longrightarrow> ps_run p s = Inr r
    \<Longrightarrow> pass_steps ((pr_state r)\<lparr>cs_capabilities := cs_capabilities s \<union> ps_provides p\<rparr>) ps t
    \<Longrightarrow> pass_steps s (p # ps) t"

inductive_cases pass_steps_ConsE: "pass_steps s (p # ps) t"
inductive_simps pass_steps_Nil: "pass_steps s [] t"

lemma pass_steps_capabilities:
  "pass_steps s ps t \<Longrightarrow> cs_capabilities t = cs_capabilities s \<union> \<Union> (ps_provides ` set ps)"
  by (induction rule: pass_steps.induct) auto

lemma pass_steps_diagnostics:
  "pass_steps s ps t \<Longrightarrow> \<forall>p \<in> set ps. keeps_contract p \<Longrightarrow> \<exists>d. cs_diagnostics t = cs_diagnostics s @ d"
proof (induction rule: pass_steps.induct)
  case (step p s r ps t)
  have "pass_contract (ps_run p) (ps_provides p)" using step.prems by (simp add: keeps_contract_def)
  then obtain d where "cs_diagnostics (pr_state r) = cs_diagnostics s @ d"
    using pass_contract.diagnostics_kept step.hyps(2) by meson
  moreover obtain d' where "cs_diagnostics t = cs_diagnostics (pr_state r) @ d'" using step.IH step.prems by auto
  ultimately show ?case by simp
qed simp

text \<open>The state a run ends in is determined by its start and the order.\<close>

lemma pass_steps_deterministic: "pass_steps s ps t \<Longrightarrow> pass_steps s ps u \<Longrightarrow> t = u"
proof (induction arbitrary: u rule: pass_steps.induct)
  case (step p s r ps t)
  from step.prems show ?case by (rule pass_steps_ConsE) (use step.hyps(2) step.IH in auto)
qed (simp add: pass_steps_Nil)

lemma run_order:
  assumes "valid_order (cs_capabilities s) ps" and "\<forall>p \<in> set ps. keeps_contract p"
  shows "case rfold run_pass s ps of
      Inl e \<Rightarrow> \<exists>before p after t. ps = before @ p # after \<and> pass_steps s before t \<and> ps_run p t = Inl e
    | Inr s' \<Rightarrow> pass_steps s ps s'"
  using assms
proof (induction ps arbitrary: s)
  case (Cons p ps)
  have contract: "pass_contract (ps_run p) (ps_provides p)" using Cons.prems(2) by (simp add: keeps_contract_def)
  have req: "ps_requires p \<subseteq> cs_capabilities s" using Cons.prems(1) by simp
  have step: "run_pass s p = rbind (ps_run p s)
      (\<lambda>r. Inr ((pr_state r)\<lparr>cs_capabilities := cs_capabilities s \<union> ps_provides p\<rparr>))"
    using pass_contract.accepted [OF contract refl refl req] .
  show ?case
  proof (cases "ps_run p s")
    case (Inl e)
    then have run: "rfold run_pass s (p # ps) = Inl e" using step by simp
    have "p # ps = [] @ p # ps" "pass_steps s [] s" by (simp_all add: pass_steps.finished)
    then show ?thesis using Inl unfolding run sum.case by blast
  next
    case (Inr r)
    let ?t = "(pr_state r)\<lparr>cs_capabilities := cs_capabilities s \<union> ps_provides p\<rparr>"
    have run: "rfold run_pass s (p # ps) = rfold run_pass ?t ps" using step Inr by simp
    note next_step = pass_steps.step [OF req Inr]
    have IH: "case rfold run_pass ?t ps of
        Inl e \<Rightarrow> \<exists>before p after t. ps = before @ p # after \<and> pass_steps ?t before t \<and> ps_run p t = Inl e
      | Inr s' \<Rightarrow> pass_steps ?t ps s'" using Cons.prems by (intro Cons.IH) auto
    show ?thesis
    proof (cases "rfold run_pass ?t ps")
      case (Inl e)
      then obtain before q after t where "ps = before @ q # after" "pass_steps ?t before t" "ps_run q t = Inl e"
        using IH by auto
      then have "p # ps = (p # before) @ q # after \<and> pass_steps s (p # before) t \<and> ps_run q t = Inl e"
        using next_step by simp
      then show ?thesis unfolding run Inl sum.case by blast
    next
      case (Inr s')
      then show ?thesis using IH next_step unfolding run by simp
    qed
  qed
qed (simp add: pass_steps.finished)

text \<open>
  C34. The manager is transparent to passes that keep their contract: after a successful resolution
  its own checks never fail. A completed run has gone through all passes in the resolved order, each
  started in the state the previous one returned (with the analyses, candidates and diagnostics
  it recorded) and with the capabilities declared so far; it ends with exactly the initial and the
  declared capabilities and still has every earlier diagnostic. A run fails only with the error
  that a pass of the order raises in the state reached by running the passes before it.
\<close>

theorem run_of_contract_keeping_passes:
  assumes "resolve passes (cs_capabilities s) = Inr order" and "\<forall>p \<in> set passes. keeps_contract p"
  shows "case run_passes passes s of
      Inl e \<Rightarrow> \<exists>before p after t. order = before @ p # after \<and> pass_steps s before t \<and> ps_run p t = Inl e
    | Inr s' \<Rightarrow> pass_steps s order s' \<and> mset order = mset passes
        \<and> cs_capabilities s' = cs_capabilities s \<union> \<Union> (ps_provides ` set passes)
        \<and> (\<exists>d. cs_diagnostics s' = cs_diagnostics s @ d)"
proof -
  have order: "mset order = mset passes" "valid_order (cs_capabilities s) order"
    using assms(1) schedule_sound by (auto simp: resolve_ok)
  then have sets: "set order = set passes" by (metis mset_eq_setD)
  have run: "run_passes passes s = rfold run_pass s order" using assms(1) by (simp add: run_passes_def)
  have keeps: "\<forall>p \<in> set order. keeps_contract p" using assms(2) sets by simp
  note result = run_order [OF order(2) keeps]
  show ?thesis
  proof (cases "rfold run_pass s order")
    case (Inl e)
    then show ?thesis using result by (simp add: run)
  next
    case (Inr s')
    then have "pass_steps s order s'" using result by simp
    then show ?thesis
      using pass_steps_capabilities pass_steps_diagnostics [OF _ keeps] order(1) by (simp add: run Inr sets)
  qed
qed

section \<open>Analyses\<close>

text \<open>
  An analysis is read back as it was recorded, with its object keys sorted, for any JSON codec
  that decodes the canonical text of the value to the value with sorted keys; the other analyses are untouched.
\<close>

theorem analysis_roundtrip:
  assumes "with_analysis loads dumps s name v = Inr s'"
    and "distinct (map fst (cs_analyses s))"
    and "loads (dumps v) = Inr (sort_keys v)"
  shows "analysis loads s' name = Inr (sort_keys v)
    \<and> (\<forall>other. other \<noteq> name \<longrightarrow> analysis loads s' other = analysis loads s other)"
proof -
  obtain p where p: "canonical_payload v = Inr p"
    and c: "CompilerState loads dumps (s\<lparr>cs_analyses := dict_set name (dumps p) (cs_analyses s)\<rparr>) = Inr s'"
    using assms(1) by (auto simp: with_analysis_def rbind_eq_Inr)
  let ?d = "dict_set name (dumps p) (cs_analyses s)"
  have s': "cs_analyses s' = sort ?d" using c by (auto simp: CompilerState_def Let_def rbind_eq_Inr if_Inl_eq_Inr)
  have d: "distinct (map fst ?d)" using assms(2) by (rule distinct_dict_set)
  have "mset (map fst (sort ?d)) = mset (map fst ?d)" by (simp add: mset_map)
  then have "distinct (map fst (sort ?d))" using d by (metis mset_eq_imp_distinct_iff)
  then have "map_of (sort ?d) = map_of ?d" using d by (intro map_of_inject_set [THEN iffD2]) auto
  then show ?thesis
    using canonical_payload_id [OF p] assms(3) by (simp add: analysis_def dict_index_def s' update_conv')
qed

section \<open>Examples\<close>

definition example_pass :: "string \<Rightarrow> string list \<Rightarrow> string list \<Rightarrow> compiler_pass" where
  "example_pass name requires provides = \<lparr>ps_name = name, ps_requires = set requires, ps_provides = set provides,
     ps_conflicts = {}, ps_run = (\<lambda>s. Inr \<lparr>pr_state = s\<lparr>cs_diagnostics := cs_diagnostics s @ [name]\<rparr>,
       pr_provided = set provides\<rparr>)\<rparr>"

definition example_passes :: "compiler_pass list" where
  "example_passes = [example_pass ''b'' [''x''] [''y''], example_pass ''a'' [''y''] [], example_pass ''c'' [] [''x'']]"

definition example_state :: compiler_state where
  "example_state = \<lparr>cs_model = None, cs_hardware = None, cs_workload = None, cs_candidates = [], cs_analyses = [],
     cs_diagnostics = [''start''], cs_capabilities = {}\<rparr>"

lemma example_resolve_ok: "is_ok (resolve example_passes {})"
  by code_simp

lemma example_cycle: "resolve [example_pass ''a'' [''x''] [''y''], example_pass ''b'' [''y''] [''x'']] {}
    = Inl (ValueError ''compiler pass dependency cycle'')"
proof -
  have "case resolve [example_pass ''a'' [''x''] [''y''], example_pass ''b'' [''y''] [''x'']] {} of
      Inl e \<Rightarrow> e = ValueError ''compiler pass dependency cycle'' | Inr _ \<Rightarrow> False"
    by code_simp
  then show ?thesis by (simp split: sum.splits)
qed

lemma example_contract: "keeps_contract (example_pass name requires provides)"
  by (simp add: keeps_contract_def example_pass_def pass_contract_def)

theorem resolve_dependency_order_witness:
  "\<exists>order. resolve example_passes {} = Inr order \<and> mset order = mset example_passes \<and> valid_order {} order"
  using example_resolve_ok resolve_dependency_order unfolding is_ok_iff by blast

theorem resolve_cycle_genuine_witness:
  "\<not> valid_order {} [example_pass ''a'' [''x''] [''y''], example_pass ''b'' [''y''] [''x'']]"
  by (rule resolve_cycle_genuine [OF example_cycle]) simp

theorem resolve_registration_order_irrelevant_witness:
  "\<exists>order. resolve example_passes {} = Inr order \<and> resolve (rev example_passes) {} = Inr order"
proof -
  obtain order where order: "resolve example_passes {} = Inr order" using example_resolve_ok unfolding is_ok_iff by metis
  have "resolve (rev example_passes) {} = Inr order"
    by (rule resolve_registration_order_irrelevant [OF order]) simp
  with order show ?thesis by blast
qed

lemma example_run_ok: "is_ok (run_passes example_passes example_state)"
  by code_simp

theorem run_of_contract_keeping_passes_witness:
  "\<exists>order s'. resolve example_passes {} = Inr order \<and> run_passes example_passes example_state = Inr s'
    \<and> pass_steps example_state order s' \<and> cs_capabilities s' = {''x'', ''y''}
    \<and> (\<exists>d. cs_diagnostics s' = ''start'' # d)"
proof -
  have start: "cs_capabilities example_state = {}" by (simp add: example_state_def)
  then obtain order where order: "resolve example_passes (cs_capabilities example_state) = Inr order"
    using example_resolve_ok unfolding is_ok_iff by metis
  obtain s' where s': "run_passes example_passes example_state = Inr s'" using example_run_ok unfolding is_ok_iff by blast
  have "\<forall>p \<in> set example_passes. keeps_contract p" by (simp add: example_passes_def example_contract)
  from run_of_contract_keeping_passes [OF order this] have "pass_steps example_state order s'"
    "cs_capabilities s' = cs_capabilities example_state \<union> \<Union> (ps_provides ` set example_passes)"
    "\<exists>d. cs_diagnostics s' = cs_diagnostics example_state @ d"
    unfolding s' by simp_all
  then show ?thesis using order s'
    by (intro exI [of _ order] exI [of _ s']) (auto simp: start example_passes_def example_pass_def example_state_def)
qed

theorem analysis_roundtrip_witness:
  "\<exists>s'. with_analysis (\<lambda>_. Inr (JInt 1)) (\<lambda>_. ''1'') example_state ''n'' (JInt 1) = Inr s'
    \<and> analysis (\<lambda>_. Inr (JInt 1)) s' ''n'' = Inr (sort_keys (JInt 1))"
proof -
  have "is_ok (with_analysis (\<lambda>_. Inr (JInt 1)) (\<lambda>_. ''1'') example_state ''n'' (JInt 1))"
    by (simp add: with_analysis_def CompilerState_def example_state_def)
  then obtain s' where s': "with_analysis (\<lambda>_. Inr (JInt 1)) (\<lambda>_. ''1'') example_state ''n'' (JInt 1) = Inr s'"
    unfolding is_ok_iff by blast
  have "distinct (map fst (cs_analyses example_state))" by (simp add: example_state_def)
  then show ?thesis using analysis_roundtrip [OF s', THEN conjunct1] s' by (intro exI [of _ s']) simp
qed

end
