(* ===== verification/Static_Placement.thy ===== *)
theory Static_Placement
  imports Passes
begin

text \<open>
  \<open>compiler/static_placement.py\<close>: ranking of MoE layers by measured benefit per aligned byte, the
  greedy and the historical static placements under the memory, layer and shadow limits, and the
  compiler pass that records them as rejected candidates. Profile identifiers are strings (the
  adapters use file hashes); another type, which no caller produces, is refused. The lemmas show
  that an unrejected placement respects every limit, with the arena its layers need, that the greedy placements are the prefixes of
  the ranking, that the pass keeps the manager's contract, and that nothing it adds can be sealed.
\<close>

section \<open>Benefits\<close>

record layer_benefit =
  lb_layer_id :: int
  lb_median_total_us :: json
  lb_arena_bytes :: int
  lb_score_us_per_mib :: json
  lb_shadow_count :: int

type_synonym profile_samples = "(int, (string, json) dict) dict"

definition profile_key :: "jrecord \<Rightarrow> string res" where
  "profile_key row = (case dict_get row ''profile_id'' (JStr ''single'') of JStr s \<Rightarrow> Inr s | _ \<Rightarrow> Inl TypeError)"

definition add_sample :: "int list \<Rightarrow> profile_samples \<Rightarrow> jrecord \<Rightarrow> profile_samples res" where
  "add_sample layers samples row =
     rbind (require_int (jget row ''layer_id'') ''profile layer'' 0) (\<lambda>layer.
     if layer \<notin> set layers \<or> jget row ''backend'' \<noteq> JStr ''CPU''
     then Inl (ValueError ''profile layer/backend mismatch'')
     else rbind (profile_key row) (\<lambda>pid. let seen = dict_get samples layer [] in
       if pid \<in> fst ` set seen then Inl (ValueError ''duplicate profile layer'')
       else rbind (require_number (jget row ''total_us'') ''profile timing'' MICRO) (\<lambda>v.
         Inr (dict_set layer (dict_set pid v seen) samples))))"

text \<open>A component bank, rounded up to the alignment.\<close>

definition aligned :: "int \<Rightarrow> int \<Rightarrow> int" where
  "aligned alignment b = ((b + alignment - 1) div alignment) * alignment"

definition benefit_key :: "layer_benefit \<Rightarrow> pyfloat \<times> int" where
  "benefit_key b = (num_val (num_neg (lb_score_us_per_mib b)), lb_layer_id b)"

definition layer_benefit_of :: "int \<Rightarrow> moe_layer_ir \<Rightarrow> (string, json) dict \<Rightarrow> layer_benefit res" where
  "layer_benefit_of alignment layer values =
     (let size = sum_of (aligned alignment) (ml_component_bank_bytes layer) in
      rbind (stat_median (map snd values)) (\<lambda>median.
      rbind (num_mul median (JInt (2 ^ 20))) (\<lambda>scaled.
      rbind (num_div scaled (JInt size)) (\<lambda>score.
        Inr \<lparr>lb_layer_id = ml_layer_id layer, lb_median_total_us = median, lb_arena_bytes = size,
          lb_score_us_per_mib = score, lb_shadow_count = 4\<rparr>))))"

definition rank_layer_benefits :: "model_ir \<Rightarrow> jrecord list \<Rightarrow> json \<Rightarrow> int list \<Rightarrow> layer_benefit list res" where
  "rank_layer_benefits model profile_rows minimum_repetitions resident_layers =
     rbind (require_int minimum_repetitions ''profile repetitions'' 1) (\<lambda>minimum.
     let layers = map ml_layer_id (md_moe_layers model) in
     rbind (rfold (add_sample layers) (map (\<lambda>i. (i, [])) layers) profile_rows) (\<lambda>samples.
     if list_ex (\<lambda>(i, values). int (length values) < minimum) samples
     then Inl (ValueError ''missing profile layers/repetitions'')
     else if length (remdups (map (\<lambda>(i, values). sort (map fst values)) samples)) \<noteq> 1
     then Inl (ValueError ''profile repetition set mismatch'')
     else rbind (rmap (\<lambda>layer. layer_benefit_of (md_alignment_bytes model) layer
         (dict_get samples (ml_layer_id layer) []))
       (filter (\<lambda>layer. ml_layer_id layer \<notin> set resident_layers) (md_moe_layers model))) (\<lambda>benefits.
       Inr (sort_key benefit_key benefits))))"

section \<open>Candidates\<close>

record static_candidate =
  sc_layer_ids :: "int list"
  sc_arena_bytes :: int
  sc_shadow_count :: int
  sc_kind :: string
  sc_rejection_reasons :: "string list"

definition static_proposal :: "(int, layer_benefit) dict \<Rightarrow> int \<Rightarrow> int \<Rightarrow> int \<Rightarrow> int list \<Rightarrow> string
    \<Rightarrow> static_candidate res" where
  "static_proposal by_id budget max_layers max_shadows layers kind =
     (let ids = sort layers in
      rbind (rmap (dict_index by_id) ids) (\<lambda>bs.
      let arena = sum_of lb_arena_bytes bs; shadows = sum_of lb_shadow_count bs in
      Inr \<lparr>sc_layer_ids = ids, sc_arena_bytes = arena, sc_shadow_count = shadows, sc_kind = kind,
        sc_rejection_reasons = (if budget < arena then [''vram_budget''] else [])
          @ (if max_layers < int (length ids) then [''runtime_layer_cap''] else [])
          @ (if max_shadows < shadows then [''runtime_shadow_cap''] else [])
          @ [''numerical_path_change'']\<rparr>))"

definition over_limit :: "static_candidate \<Rightarrow> bool" where
  "over_limit c \<longleftrightarrow> list_ex (\<lambda>r. r \<noteq> ''numerical_path_change'') (sc_rejection_reasons c)"

text \<open>The greedy loop; \<open>propose\<close> is the candidate of a list of layers.\<close>

fun greedy :: "(int list \<Rightarrow> static_candidate res) \<Rightarrow> int list \<Rightarrow> static_candidate list \<Rightarrow> layer_benefit list
    \<Rightarrow> static_candidate list res" where
  "greedy propose prefix result [] = Inr result"
| "greedy propose prefix result (b # bs) =
     rbind (propose (prefix @ [lb_layer_id b])) (\<lambda>proposed.
     if over_limit proposed then Inr (if prefix = [] then result @ [proposed] else result)
     else greedy propose (prefix @ [lb_layer_id b]) (result @ [proposed]) bs)"

definition static_off :: static_candidate where
  "static_off = \<lparr>sc_layer_ids = [], sc_arena_bytes = 0, sc_shadow_count = 0, sc_kind = ''static_off'',
     sc_rejection_reasons = []\<rparr>"

definition DIAGNOSTIC_LAYERS :: "int list" where
  "DIAGNOSTIC_LAYERS = [0, 1, 2, 3, 4, 5, 6, 7, 8, 9, 15, 20]"

definition generate_static_candidates :: "layer_benefit list \<Rightarrow> json \<Rightarrow> json \<Rightarrow> json \<Rightarrow> json \<Rightarrow> int list
    \<Rightarrow> static_candidate list res" where
  "generate_static_candidates benefits0 available_bytes reserve_bytes max_static_layers max_static_shadows diagnostic_layers =
     rbind (require_int available_bytes ''available bytes'' 0) (\<lambda>available.
     rbind (require_int reserve_bytes ''reserve bytes'' 0) (\<lambda>reserve.
     rbind (require_int max_static_layers ''runtime layer cap'' 0) (\<lambda>max_layers.
     rbind (require_int max_static_shadows ''runtime shadow cap'' 0) (\<lambda>max_shadows.
     let benefits = sort_key benefit_key benefits0 in
     if \<not> distinct (map lb_layer_id benefits) then Inl (ValueError ''duplicate layer benefits'')
     else let by_id = map (\<lambda>b. (lb_layer_id b, b)) benefits;
       candidate = static_proposal by_id (max 0 (available - reserve)) max_layers max_shadows in
     rbind (greedy (\<lambda>ids. candidate ids ''greedy'') [] [static_off] (take (nat (min 12 max_layers)) benefits)) (\<lambda>result.
     if diagnostic_layers \<noteq> [] \<and> set diagnostic_layers \<subseteq> set (map lb_layer_id benefits)
     then rbind (candidate diagnostic_layers ''historical_diagnostic'') (\<lambda>diagnostic.
       if sc_layer_ids diagnostic \<notin> set (map sc_layer_ids result) then Inr (result @ [diagnostic]) else Inr result)
     else Inr result)))))"

section \<open>The pass\<close>

definition static_candidate_payload :: "static_candidate \<Rightarrow> json" where
  "static_candidate_payload c = JObj [(''layer_ids'', JArr (map JInt (sc_layer_ids c))),
     (''arena_bytes'', JInt (sc_arena_bytes c)), (''shadow_count'', JInt (sc_shadow_count c)),
     (''kind'', JStr (sc_kind c)), (''rejection_reasons'', JArr (map JStr (sc_rejection_reasons c)))]"

text \<open>The stock candidate with a static placement, as a rejected plan.\<close>

definition placed_candidate :: "candidate_plan \<Rightarrow> static_candidate \<Rightarrow> candidate_plan res" where
  "placed_candidate stock c =
     rbind (StaticPlacement [(''layer_ids'', JArr (map JInt (sc_layer_ids c))), (''arena_bytes'', JInt (sc_arena_bytes c))]) (\<lambda>p.
     rbind (RuntimeSettings (Some p) (settings_fields (cp_settings stock))) (\<lambda>settings.
       CandidatePlan (cp_identities stock) settings (JStr (status_value REJECTED)) (cp_estimated_decode_tps stock)
         (JArr []) (JArr (map JStr (sc_rejection_reasons c))) (cp_validation stock)))"

definition some_or :: "'a option \<Rightarrow> py_error \<Rightarrow> 'a res" where
  "some_or x e = (case x of None \<Rightarrow> Inl e | Some v \<Rightarrow> Inr v)"

definition static_placement_run :: "(string \<Rightarrow> json res) \<Rightarrow> (json \<Rightarrow> string) \<Rightarrow> jrecord list \<Rightarrow> int \<Rightarrow> json \<Rightarrow> json
    \<Rightarrow> compiler_state \<Rightarrow> pass_result res" where
  "static_placement_run loads dumps profile_rows baseline_peak_bytes max_static_layers max_static_shadows state =
     (case find (\<lambda>c. cp_status c = MEASURED \<and> rs_static (cp_settings c) = None) (cs_candidates state) of
        None \<Rightarrow> Inl (ValueError ''placement requires measured stock baseline'')
      | Some stock \<Rightarrow>
        if \<not> rs_cpu_moe (cp_settings stock)
        then Inr \<lparr>pr_state = state\<lparr>cs_diagnostics := cs_diagnostics state
              @ [''stock experts already resident: no static duplication'']\<rparr>, pr_provided = {''static-placement''}\<rparr>
        else rbind (some_or (cs_model state) AttributeError) (\<lambda>model.
          rbind (rank_layer_benefits model profile_rows (JInt 3) []) (\<lambda>benefits.
          rbind (some_or (cs_hardware state) AttributeError) (\<lambda>hardware.
          rbind (generate_static_candidates benefits (JInt (max 0 (hw_usable_vram_bytes hardware - baseline_peak_bytes)))
            (JInt 0) max_static_layers max_static_shadows DIAGNOSTIC_LAYERS) (\<lambda>candidates.
          rbind (rmap (placed_candidate stock) (filter (\<lambda>c. sc_layer_ids c \<noteq> [] \<and> \<not> over_limit c) candidates)) (\<lambda>generated.
          rbind (with_analysis loads dumps state ''static_candidates''
            (JArr (map static_candidate_payload candidates))) (\<lambda>output.
            Inr \<lparr>pr_state = output\<lparr>cs_candidates := cs_candidates output @ generated,
                cs_diagnostics := cs_diagnostics output
                  @ [''static CPU-to-CUDA candidates rejected: numerical_path_change'']\<rparr>,
              pr_provided = {''static-placement''}\<rparr>)))))))"

definition static_placement_pass :: "(string \<Rightarrow> json res) \<Rightarrow> (json \<Rightarrow> string) \<Rightarrow> jrecord list \<Rightarrow> int \<Rightarrow> json \<Rightarrow> json
    \<Rightarrow> compiler_pass" where
  "static_placement_pass loads dumps profile_rows baseline_peak_bytes max_static_layers max_static_shadows =
     \<lparr>ps_name = ''static-placement'', ps_requires = {''stock-baseline''}, ps_provides = {''static-placement''},
       ps_conflicts = {}, ps_run = static_placement_run loads dumps profile_rows baseline_peak_bytes
         max_static_layers max_static_shadows\<rparr>"

lemma with_analysis_keeps:
  assumes "with_analysis loads dumps s name v = Inr s'"
  shows "cs_capabilities s' = cs_capabilities s \<and> cs_diagnostics s' = cs_diagnostics s
    \<and> cs_candidates s' = cs_candidates s"
  using assms by (auto simp: with_analysis_def CompilerState_def Let_def rbind_eq_Inr if_Inl_eq_Inr)

text \<open>The facts of a run of the pass: what it reports and what it adds.\<close>

lemma static_placement_run_ok:
  assumes "static_placement_run loads dumps rows peak max_layers max_shadows s = Inr r"
  shows "pr_provided r = {''static-placement''} \<and> cs_capabilities (pr_state r) = cs_capabilities s
    \<and> (\<exists>d. cs_diagnostics (pr_state r) = cs_diagnostics s @ d)
    \<and> (\<exists>stock cs generated. cs_candidates (pr_state r) = cs_candidates s @ generated
         \<and> rmap (placed_candidate stock) cs = Inr generated)"
proof -
  obtain stock where stock: "find (\<lambda>c. cp_status c = MEASURED \<and> rs_static (cp_settings c) = None) (cs_candidates s) = Some stock"
    using assms by (auto simp: static_placement_run_def split: option.splits)
  show ?thesis
  proof (cases "rs_cpu_moe (cp_settings stock)")
    case False
    have "rmap (placed_candidate stock) [] = Inr []" by simp
    moreover have "r = \<lparr>pr_state = s\<lparr>cs_diagnostics := cs_diagnostics s
              @ [''stock experts already resident: no static duplication'']\<rparr>, pr_provided = {''static-placement''}\<rparr>"
      using assms False by (simp add: static_placement_run_def stock)
    ultimately show ?thesis by (auto intro!: exI [of _ stock] exI [of _ "[]"])
  next
    case True
    then obtain cs generated out candidates where g: "rmap (placed_candidate stock) cs = Inr generated"
      and out: "with_analysis loads dumps s ''static_candidates'' (JArr (map static_candidate_payload candidates)) = Inr out"
      and r: "r = \<lparr>pr_state = out\<lparr>cs_candidates := cs_candidates out @ generated,
                cs_diagnostics := cs_diagnostics out
                  @ [''static CPU-to-CUDA candidates rejected: numerical_path_change'']\<rparr>,
              pr_provided = {''static-placement''}\<rparr>"
      using assms by (auto simp: static_placement_run_def stock rbind_eq_Inr)
    show ?thesis using with_analysis_keeps [OF out] g by (auto simp: r)
  qed
qed

interpretation static_placement: pass_contract
  "static_placement_run loads dumps rows peak max_layers max_shadows" "{''static-placement''}"
  for loads dumps rows peak max_layers max_shadows
  by unfold_locales (use static_placement_run_ok in blast)+

section \<open>Limits\<close>

lemma static_proposal_ok:
  assumes "static_proposal by_id budget max_layers max_shadows layers kind = Inr c"
  shows "sc_layer_ids c = sort layers \<and> (\<exists>bs. rmap (dict_index by_id) (sort layers) = Inr bs
      \<and> sc_arena_bytes c = sum_of lb_arena_bytes bs \<and> sc_shadow_count c = sum_of lb_shadow_count bs)
    \<and> sc_kind c = kind
    \<and> (over_limit c \<longleftrightarrow> budget < sc_arena_bytes c \<or> max_layers < int (length layers) \<or> max_shadows < sc_shadow_count c)"
  using assms by (auto simp: static_proposal_def Let_def rbind_eq_Inr over_limit_def split: if_splits)

lemma greedy_elem:
  assumes "greedy propose prefix result bs = Inr result'" and "c \<in> set result'"
  shows "c \<in> set result \<or> (\<exists>ids. propose ids = Inr c)"
  using assms
proof (induction propose prefix result bs rule: greedy.induct)
  case (2 propose prefix result b bs)
  then show ?case by (fastforce simp: rbind_eq_Inr split: if_splits)
qed simp

text \<open>The ranking holds one entry per layer that is not resident, with the bytes of its component banks.\<close>

definition layer_arena :: "int \<Rightarrow> moe_layer_ir \<Rightarrow> int" where
  "layer_arena alignment layer = sum_of (aligned alignment) (ml_component_bank_bytes layer)"

lemma rank_layer_benefits_elem:
  assumes "rank_layer_benefits model rows minimum resident = Inr benefits" and "b \<in> set benefits"
  shows "\<exists>layer \<in> set (md_moe_layers model). ml_layer_id layer \<notin> set resident \<and> lb_layer_id b = ml_layer_id layer
    \<and> lb_arena_bytes b = layer_arena (md_alignment_bytes model) layer \<and> lb_shadow_count b = 4"
proof -
  obtain samples bs where bs: "rmap (\<lambda>layer. layer_benefit_of (md_alignment_bytes model) layer (dict_get samples (ml_layer_id layer) []))
       (filter (\<lambda>layer. ml_layer_id layer \<notin> set resident) (md_moe_layers model)) = Inr bs"
    and benefits: "benefits = sort_key benefit_key bs"
    using assms(1) by (auto simp: rank_layer_benefits_def Let_def rbind_eq_Inr if_Inl_eq_Inr)
  have "b \<in> set bs" using assms(2) by (simp add: benefits)
  then obtain layer where "layer \<in> set (md_moe_layers model)" "ml_layer_id layer \<notin> set resident"
    and "layer_benefit_of (md_alignment_bytes model) layer (dict_get samples (ml_layer_id layer) []) = Inr b"
    using rmap_elem [OF bs] by auto
  then show ?thesis by (intro bexI [of _ layer]) (auto simp: layer_benefit_of_def Let_def rbind_eq_Inr layer_arena_def)
qed

text \<open>What a proposal reports is computed from the layers it lists.\<close>

lemma proposal_layers:
  assumes rank: "rank_layer_benefits model rows minimum resident = Inr benefits" and "set bs \<subseteq> set benefits"
  shows "\<exists>layers. set layers \<subseteq> set (md_moe_layers model) \<and> map ml_layer_id layers = map lb_layer_id bs
    \<and> (\<forall>layer \<in> set layers. ml_layer_id layer \<notin> set resident)
    \<and> sum_of (layer_arena (md_alignment_bytes model)) layers = sum_of lb_arena_bytes bs
    \<and> 4 * int (length layers) = sum_of lb_shadow_count bs"
  using assms(2)
proof (induction bs)
  case Nil
  then show ?case by (intro exI [of _ "[]"]) simp
next
  case (Cons b bs)
  then obtain layers where layers: "set layers \<subseteq> set (md_moe_layers model)" "map ml_layer_id layers = map lb_layer_id bs"
    "\<forall>layer \<in> set layers. ml_layer_id layer \<notin> set resident"
    "sum_of (layer_arena (md_alignment_bytes model)) layers = sum_of lb_arena_bytes bs"
    "4 * int (length layers) = sum_of lb_shadow_count bs" by auto
  have "b \<in> set benefits" using Cons.prems by simp
  from rank_layer_benefits_elem [OF rank this] obtain layer where "layer \<in> set (md_moe_layers model)"
    "ml_layer_id layer \<notin> set resident" "lb_layer_id b = ml_layer_id layer"
    "lb_arena_bytes b = layer_arena (md_alignment_bytes model) layer" "lb_shadow_count b = 4" by auto
  with layers show ?case by (intro exI [of _ "layer # layers"]) simp
qed

lemma static_proposal_benefits:
  assumes "static_proposal (map (\<lambda>b. (lb_layer_id b, b)) benefits) budget max_layers max_shadows ids kind = Inr c"
  shows "\<exists>bs. set bs \<subseteq> set benefits \<and> map lb_layer_id bs = sc_layer_ids c \<and> sc_layer_ids c = sort ids
    \<and> sc_arena_bytes c = sum_of lb_arena_bytes bs \<and> sc_shadow_count c = sum_of lb_shadow_count bs"
proof -
  let ?by_id = "map (\<lambda>b. (lb_layer_id b, b)) benefits"
  obtain bs where bs: "rmap (dict_index ?by_id) (sort ids) = Inr bs"
    and c: "sc_layer_ids c = sort ids" "sc_arena_bytes c = sum_of lb_arena_bytes bs" "sc_shadow_count c = sum_of lb_shadow_count bs"
    using static_proposal_ok [OF assms] by (elim exE conjE)
  have elem: "b \<in> set benefits \<and> lb_layer_id b = i" if "dict_index ?by_id i = Inr b" for i b
    using that by (auto simp: dict_index_def split: option.splits dest: map_of_SomeD)
  have "set bs \<subseteq> set benefits" using rmap_elem [OF bs] elem by blast
  moreover have "map lb_layer_id bs = is'" if "rmap (dict_index ?by_id) is' = Inr bs" for is'
    using that by (induction is' arbitrary: bs) (auto simp: rbind_eq_Inr elem)
  ultimately show ?thesis using bs c by (intro exI [of _ bs]) simp
qed

text \<open>
  C35. Every generated placement that carries no memory, layer or shadow reason respects all three
  limits. When the layers were ranked from a model, a placement lists layers of that model that are
  not resident already, in order; the arena it reports is the sum over those layers of their
  component banks, each rounded up to the model's alignment, and it has four shadows for each of
  them. The arena of an accepted placement fits the available bytes less the reserve, and its
  numbers of layers and of shadows stay within the caps of the runtime.
\<close>

theorem placements_within_limits:
  assumes "rank_layer_benefits model rows minimum resident = Inr benefits"
    and "generate_static_candidates benefits (JInt available) (JInt reserve) (JInt max_layers) (JInt max_shadows) diagnostic
      = Inr candidates"
    and "c \<in> set candidates" and "\<not> over_limit c"
  shows "\<exists>layers. set layers \<subseteq> set (md_moe_layers model) \<and> map ml_layer_id layers = sc_layer_ids c \<and> sorted (sc_layer_ids c)
    \<and> (\<forall>layer \<in> set layers. ml_layer_id layer \<notin> set resident)
    \<and> sc_arena_bytes c = (\<Sum>layer \<leftarrow> layers. \<Sum>bank \<leftarrow> ml_component_bank_bytes layer. aligned (md_alignment_bytes model) bank)
    \<and> sc_shadow_count c = 4 * int (length layers)
    \<and> sc_arena_bytes c \<le> max 0 (available - reserve) \<and> int (length layers) \<le> max_layers
    \<and> 4 * int (length layers) \<le> max_shadows"
proof -
  let ?benefits = "sort_key benefit_key benefits"
  let ?candidate = "static_proposal (map (\<lambda>b. (lb_layer_id b, b)) ?benefits) (max 0 (available - reserve)) max_layers max_shadows"
  obtain result where g: "greedy (\<lambda>ids. ?candidate ids ''greedy'') [] [static_off]
      (take (nat (min 12 max_layers)) ?benefits) = Inr result"
    and c: "c \<in> set result \<or> ?candidate diagnostic ''historical_diagnostic'' = Inr c"
    and caps: "0 \<le> max_layers" "0 \<le> max_shadows"
    using assms(2,3)
    by (auto simp: generate_static_candidates_def Let_def rbind_eq_Inr require_simps if_Inl_eq_Inr split: if_splits)
  have "c = static_off \<or> (\<exists>ids kind. ?candidate ids kind = Inr c)"
    using c greedy_elem [OF g, of c] by auto
  then consider "c = static_off" | ids kind where "?candidate ids kind = Inr c" by blast
  then show ?thesis
  proof cases
    case 1
    then show ?thesis using caps by (intro exI [of _ "[]"]) (simp add: static_off_def)
  next
    case 2
    obtain bs where bs: "set bs \<subseteq> set benefits" "map lb_layer_id bs = sc_layer_ids c" "sc_layer_ids c = sort ids"
      "sc_arena_bytes c = sum_of lb_arena_bytes bs" "sc_shadow_count c = sum_of lb_shadow_count bs"
      using static_proposal_benefits [OF 2] by auto
    obtain layers where "set layers \<subseteq> set (md_moe_layers model)" "map ml_layer_id layers = sc_layer_ids c"
      "\<forall>layer \<in> set layers. ml_layer_id layer \<notin> set resident"
      "sc_arena_bytes c = sum_of (layer_arena (md_alignment_bytes model)) layers"
      "sc_shadow_count c = 4 * int (length layers)"
      using proposal_layers [OF assms(1) bs(1)] bs by auto
    moreover have "sc_arena_bytes c \<le> max 0 (available - reserve)" "int (length (sc_layer_ids c)) \<le> max_layers"
      "sc_shadow_count c \<le> max_shadows"
      using static_proposal_ok [OF 2] assms(4) by (auto simp: max_def)
    moreover have "length layers = length (sc_layer_ids c)" using \<open>map ml_layer_id layers = sc_layer_ids c\<close> by (metis length_map)
    ultimately show ?thesis using bs(3) by (intro exI [of _ layers] conjI) (simp_all add: layer_arena_def [abs_def])
  qed
qed

text \<open>The greedy loop proposes growing prefixes of the ranking.\<close>

lemma greedy_prefixes:
  assumes "greedy propose (map lb_layer_id pre) result bs = Inr result'"
    and "\<And>ids c. propose ids = Inr c \<Longrightarrow> sc_layer_ids c = sort ids"
  shows "\<exists>n \<le> length bs. map sc_layer_ids result' = map sc_layer_ids result
    @ map (\<lambda>i. sort (map lb_layer_id (pre @ take (Suc i) bs))) [0..<n]"
  using assms(1)
proof (induction bs arbitrary: pre result)
  case (Cons b bs)
  let ?pre = "pre @ [b]"
  obtain c where "propose (map lb_layer_id pre @ [lb_layer_id b]) = Inr c"
    and rest: "(if over_limit c then Inr (if map lb_layer_id pre = [] then result @ [c] else result)
      else greedy propose (map lb_layer_id pre @ [lb_layer_id b]) (result @ [c]) bs) = Inr result'"
    using Cons.prems by (auto simp: rbind_eq_Inr)
  then have c: "propose (map lb_layer_id ?pre) = Inr c" by simp
  have ids: "sc_layer_ids c = sort (map lb_layer_id ?pre)" using assms(2) [OF c] .
  show ?case
  proof (cases "over_limit c")
    case True
    then show ?thesis using rest ids by (cases "pre = []") (auto intro: exI [of _ 0] exI [of _ 1])
  next
    case False
    then obtain n where n: "n \<le> length bs" "map sc_layer_ids result' = map sc_layer_ids (result @ [c])
        @ map (\<lambda>i. sort (map lb_layer_id (?pre @ take (Suc i) bs))) [0..<n]"
      using Cons.IH [of ?pre "result @ [c]"] rest by auto
    have "map (\<lambda>i. sort (map lb_layer_id (pre @ take (Suc i) (b # bs)))) [0..<Suc n]
        = sc_layer_ids c # map (\<lambda>i. sort (map lb_layer_id (?pre @ take (Suc i) bs))) [0..<n]"
      unfolding upt_conv_Cons [OF zero_less_Suc] map_Suc_upt [symmetric]
      by (simp add: ids)
    then show ?thesis using n by (intro exI [of _ "Suc n"]) simp
  qed
qed simp

lemma placed_candidate_rejected:
  assumes "placed_candidate stock c = Inr p"
  shows "cp_status p = REJECTED"
proof -
  have "CandidateStatus (JStr (status_value REJECTED)) = Inr REJECTED" by (rule CandidateStatus_value)
  then show ?thesis using assms by (auto simp: placed_candidate_def CandidatePlan_def rbind_eq_Inr if_Inl_eq_Inr)
qed

lemma seal_unmeasured: "cp_status p \<noteq> MEASURED \<Longrightarrow> seal_candidate digest now p verify identities fallback
    = Inl (ValueError ''requires a measured passing candidate'')"
  by (simp add: seal_candidate.simps validate_candidate_def)

text \<open>
  Static placement never reaches a sealed plan: the pass only appends candidates to the given
  ones, and every candidate it appends is refused by the validation that sealing starts with.
\<close>

theorem static_placements_never_sealed:
  assumes "static_placement_run loads dumps rows peak max_layers max_shadows s = Inr r"
  shows "\<exists>generated. cs_candidates (pr_state r) = cs_candidates s @ generated
    \<and> (\<forall>p \<in> set generated. \<forall>digest now verify identities fallback.
         seal_candidate digest now p verify identities fallback
           = Inl (ValueError ''requires a measured passing candidate''))"
proof -
  obtain stock cs generated where g: "cs_candidates (pr_state r) = cs_candidates s @ generated"
    "rmap (placed_candidate stock) cs = Inr generated"
    using static_placement_run_ok [OF assms, THEN conjunct2, THEN conjunct2, THEN conjunct2] by (elim exE conjE)
  have "cp_status p \<noteq> MEASURED" if "p \<in> set generated" for p
    using rmap_elem [OF g(2) that] placed_candidate_rejected by force
  then show ?thesis by (intro exI [of _ generated] conjI g(1) ballI allI seal_unmeasured)
qed

section \<open>Examples\<close>

definition example_profile_model :: model_ir where
  "example_profile_model = \<lparr>md_schema_version = PLAN_SCHEMA, md_identity = example_identity,
     md_family = ''f'', md_architecture = ''a'', md_quantization = ''q'', md_expert_count = 4, md_expert_top_k = 2,
     md_moe_layers = [example_layer 0, example_layer 1], md_kv_kind = ''k'', md_mtp_kind = ''m'',
     md_alignment_bytes = 256, md_inventory_sha256 = None\<rparr>"

definition example_profile_rows :: "jrecord list" where
  "example_profile_rows = map (\<lambda>(i, us). [(''layer_id'', JInt i), (''backend'', JStr ''CPU''), (''total_us'', JInt us)])
     [(0, 100), (1, 300)]"

definition example_samples :: profile_samples where
  "example_samples = [(0, [(''single'', JInt 100)]), (1, [(''single'', JInt 300)])]"

lemma ml_id_example: "ml_layer_id (example_layer i) = i"
  by (simp add: example_layer_def)

lemma example_samples_ok: "rfold (add_sample [0, 1]) [(0, []), (1, [])] example_profile_rows = Inr example_samples"
  by (simp add: example_profile_rows_def example_samples_def add_sample_def profile_key_def jget_def dict_get_def
      require_number_def valid_number_int require_int_def Let_def)


text \<open>The second layer is already resident, so only the first is ranked and may be placed.\<close>

lemma example_ranking:
  "\<exists>b. rank_layer_benefits example_profile_model example_profile_rows (JInt 1) [1] = Inr [b]
    \<and> lb_layer_id b = 0 \<and> lb_arena_bytes b = 256 \<and> lb_shadow_count b = 4"
proof -
  obtain q where "int_truediv 104857600 256 = Inr q" using int_truediv_finite [of 104857600 256] by auto
  then obtain b where b: "layer_benefit_of 256 (example_layer 0) [(''single'', JInt 100)] = Inr b"
    by (simp add: layer_benefit_of_def example_layer_def aligned_def stat_median_def Let_def num_mul_def num_div_def num_op_def)
  have "rank_layer_benefits example_profile_model example_profile_rows (JInt 1) [1] = Inr [b]"
    by (simp add: rank_layer_benefits_def example_profile_model_def example_samples_ok Let_def require_int_def
        example_layer_def [of 1] b ml_id_example) (simp add: example_samples_def dict_get_def ml_id_example b)
  moreover have "lb_layer_id b = 0" "lb_arena_bytes b = 256" "lb_shadow_count b = 4"
    using b by (auto simp: layer_benefit_of_def Let_def rbind_eq_Inr example_layer_def aligned_def)
  ultimately show ?thesis by (intro exI [of _ b] conjI)
qed

lemma example_generate_ok:
  assumes "lb_layer_id b = 0" "lb_arena_bytes b = 256" "lb_shadow_count b = 4"
  shows "\<exists>candidates c. generate_static_candidates [b] (JInt 300) (JInt 0) (JInt 12) (JInt 48) [0, 1] = Inr candidates
    \<and> c \<in> set candidates \<and> \<not> over_limit c \<and> sc_layer_ids c = [0]"
  using assms by (simp add: generate_static_candidates_def Let_def static_proposal_def over_limit_def require_int_def
      dict_index_def)
    (rule exI, rule conjI, rule disjI2, rule refl, simp)

theorem placements_within_limits_witness:
  "\<exists>benefits candidates c (layers :: moe_layer_ir list). rank_layer_benefits example_profile_model example_profile_rows (JInt 1) [1] = Inr benefits
    \<and> generate_static_candidates benefits (JInt 300) (JInt 0) (JInt 12) (JInt 48) [0, 1] = Inr candidates
    \<and> c \<in> set candidates \<and> sc_layer_ids c = [0] \<and> map ml_layer_id layers = [0]
    \<and> sc_arena_bytes c = (\<Sum>layer \<leftarrow> layers. \<Sum>bank \<leftarrow> ml_component_bank_bytes layer. aligned 256 bank)
    \<and> sc_arena_bytes c \<le> 300"
proof -
  obtain b where b: "rank_layer_benefits example_profile_model example_profile_rows (JInt 1) [1] = Inr [b]"
    and b_fields: "lb_layer_id b = 0" "lb_arena_bytes b = 256" "lb_shadow_count b = 4" using example_ranking by (elim exE conjE)
  obtain candidates c where g: "generate_static_candidates [b] (JInt 300) (JInt 0) (JInt 12) (JInt 48) [0, 1] = Inr candidates"
    "c \<in> set candidates" "\<not> over_limit c" "sc_layer_ids c = [0]"
    using example_generate_ok [OF b_fields] by (elim exE conjE)
  obtain layers :: "moe_layer_ir list" where "map ml_layer_id layers = sc_layer_ids c"
    "sc_arena_bytes c = (\<Sum>layer \<leftarrow> layers. \<Sum>bank \<leftarrow> ml_component_bank_bytes layer. aligned (md_alignment_bytes example_profile_model) bank)"
    "sc_arena_bytes c \<le> max 0 (300 - 0)"
    using placements_within_limits [OF b g(1-3)] by (elim exE conjE) (rule that)
  then show ?thesis using b g by (intro exI [of _ "[b]"] exI [of _ candidates] exI [of _ c] exI [of _ layers] conjI)
      (simp_all add: example_profile_model_def)
qed

definition example_stock_state :: compiler_state where
  "example_stock_state = example_state\<lparr>cs_candidates :=
     [(example_candidate [''a'', ''b'', ''c''])\<lparr>cp_settings := example_settings\<lparr>rs_cpu_moe := False\<rparr>\<rparr>]\<rparr>"

theorem static_placements_never_sealed_witness:
  "\<exists>r generated. static_placement_run (\<lambda>_. Inr JNull) (\<lambda>_. ''x'') [] 0 (JInt 12) (JInt 48) example_stock_state = Inr r
    \<and> cs_candidates (pr_state r) = cs_candidates example_stock_state @ generated"
proof -
  have "is_ok (static_placement_run (\<lambda>_. Inr JNull) (\<lambda>_. ''x'') [] 0 (JInt 12) (JInt 48) example_stock_state)"
    by (simp add: static_placement_run_def example_stock_state_def example_candidate_def example_settings_def)
  then show ?thesis using static_placements_never_sealed unfolding is_ok_iff by blast
qed

end
