(* ===== verification/Cost_Model.thy ===== *)
theory Cost_Model
  imports Compiler_Schema
begin

text \<open>
  \<open>compiler/cost_model.py\<close>: conservative estimates, the calibration state that remembers the worst
  prediction error, and the choice of a bounded measurement batch. The lemmas show that calibration
  only ever becomes more pessimistic, and that a batch fills the budget with distinct feasible
  candidates, never prunes one, and tries the predicted winner first.
\<close>

section \<open>Estimates\<close>

record cost_estimate =
  ce_candidate_id :: string
  ce_metrics :: "(string \<times> json) list"
  ce_uncertainty_pct :: json
  ce_constraint_margin :: json
  ce_key_sha256 :: string
  ce_feasible :: bool

text \<open>
  \<open>sorted(tuple(x) for x in metrics)\<close> of pairs with distinct names sorts by name; with a repeated
  name the sort may compare the values, and the next check refuses the estimate anyway.
\<close>

definition CostEstimate :: "json \<Rightarrow> (string \<times> json) list \<Rightarrow> json \<Rightarrow> json \<Rightarrow> json \<Rightarrow> json \<Rightarrow> cost_estimate res" where
  "CostEstimate candidate_id metrics uncertainty_pct constraint_margin key_sha256 feasible =
     rbind (require_text candidate_id ''candidate ID'') (\<lambda>cid.
     rbind (require_hash key_sha256 ''sha256'') (\<lambda>key.
     rbind (require_number uncertainty_pct ''uncertainty'' (Fin 0)) (\<lambda>uncertainty.
     rbind (require_number constraint_margin ''constraint margin'' (Fin 0)) (\<lambda>margin.
     let ms = sort_key fst metrics in
     if \<not> distinct (map fst ms) \<or> ''decode_tps'' \<notin> fst ` set ms
     then Inl (ValueError ''estimates require unique decode_tps metric'')
     else rbind (rmap (\<lambda>(name, value). rbind (require_text (JStr name) ''metric name'') (\<lambda>_.
       require_number value name MICRO)) ms) (\<lambda>_.
     rbind (require_bool feasible ''feasibility must be boolean'') (\<lambda>ok.
       Inr \<lparr>ce_candidate_id = cid, ce_metrics = ms, ce_uncertainty_pct = uncertainty,
         ce_constraint_margin = margin, ce_key_sha256 = key, ce_feasible = ok\<rparr>))))))"

section \<open>Calibration\<close>

record calibration_state =
  cb_key_sha256 :: string
  cb_error_threshold_pct :: json
  cb_empirical_error_pct :: json
  cb_observations :: int
  cb_pruning_suspended :: bool

definition CalibrationState :: "json \<Rightarrow> json \<Rightarrow> json \<Rightarrow> json \<Rightarrow> bool \<Rightarrow> calibration_state res" where
  "CalibrationState key_sha256 error_threshold_pct empirical_error_pct observations pruning_suspended =
     rbind (require_hash key_sha256 ''sha256'') (\<lambda>key.
     rbind (require_number error_threshold_pct ''calibration threshold'' MICRO) (\<lambda>threshold.
     rbind (require_number empirical_error_pct ''empirical error'' (Fin 0)) (\<lambda>error.
     rbind (require_int observations ''observation count'' 0) (\<lambda>n.
       Inr \<lparr>cb_key_sha256 = key, cb_error_threshold_pct = threshold, cb_empirical_error_pct = error,
         cb_observations = n, cb_pruning_suspended = pruning_suspended\<rparr>))))"

definition calibration_empty :: "json \<Rightarrow> json \<Rightarrow> calibration_state res" where
  "calibration_empty error_threshold_pct key_sha256 =
     CalibrationState key_sha256 error_threshold_pct (JFloat (Fin 0)) (JInt 0) False"

text \<open>\<open>abs(prediction - actual) * 100 / actual\<close>.\<close>

definition residual_pct :: "json \<Rightarrow> json \<Rightarrow> json res" where
  "residual_pct prediction actual = rbind (num_sub prediction actual) (\<lambda>d.
     rbind (num_mul (num_abs d) (JInt 100)) (\<lambda>h. num_div h actual))"

definition update_calibration :: "calibration_state \<Rightarrow> (string, json) dict \<Rightarrow> (string, json) dict \<Rightarrow> string
    \<Rightarrow> string option \<Rightarrow> calibration_state res" where
  "update_calibration state predicted measured candidate_role key_sha256 =
     (if key_sha256 \<noteq> None \<and> key_sha256 \<noteq> Some (cb_key_sha256 state)
      then Inl (ValueError ''cross-key calibration is forbidden'')
      else if set (map fst predicted) \<noteq> set (map fst measured) \<or> predicted = []
      then Inl (ValueError ''calibration metric mismatch'')
      else rbind (rfold (\<lambda>error (name, prediction).
          rbind (dict_index measured name) (\<lambda>actual.
          rbind (require_number prediction ''prediction'' MICRO) (\<lambda>_.
          rbind (require_number actual ''measurement'' MICRO) (\<lambda>_.
          rbind (residual_pct prediction actual) (\<lambda>e. Inr (num_max error e)))))) (JFloat (Fin 0)) predicted) (\<lambda>error.
        CalibrationState (JStr (cb_key_sha256 state)) (cb_error_threshold_pct state)
          (num_max (cb_empirical_error_pct state) error) (JInt (cb_observations state + 1))
          (cb_pruning_suspended state
            \<or> candidate_role = ''sentinel'' \<and> num_less (cb_error_threshold_pct state) error)))"

section \<open>Measurement batches\<close>

record measurement_selection =
  se_candidate_id :: string
  se_reason :: string

record calibration_decision =
  cd_selected :: "measurement_selection list"
  cd_pruned :: "string list"
  cd_rejected :: "string list"
  cd_status :: string

definition decode_tps :: "cost_estimate \<Rightarrow> json" where
  "decode_tps e = dict_get (ce_metrics e) ''decode_tps'' JNull"

text \<open>The sort keys of the four reasons; \<open>error\<close> is the empirical error so far.\<close>

definition winner_key :: "cost_estimate \<Rightarrow> pyfloat \<times> string" where
  "winner_key e = (num_val (num_neg (decode_tps e)), ce_candidate_id e)"

definition boundary_key :: "cost_estimate \<Rightarrow> pyfloat \<times> string" where
  "boundary_key e = (num_val (ce_constraint_margin e), ce_candidate_id e)"

definition uncertainty_key :: "json \<Rightarrow> cost_estimate \<Rightarrow> pyfloat \<times> string" where
  "uncertainty_key error e = (num_val (num_neg (num_max (ce_uncertainty_pct e) error)), ce_candidate_id e)"

definition sentinel_key :: "cost_estimate \<Rightarrow> pyfloat \<times> string" where
  "sentinel_key e = (num_val (decode_tps e), ce_candidate_id e)"

text \<open>\<open>take\<close>: moves the chosen estimate from the available ones to the selection.\<close>

definition take_estimate :: "int \<Rightarrow> string \<Rightarrow> (cost_estimate \<Rightarrow> pyfloat \<times> string)
    \<Rightarrow> cost_estimate list \<times> measurement_selection list \<Rightarrow> cost_estimate list \<times> measurement_selection list" where
  "take_estimate budget reason key = (\<lambda>(available, selected).
     if available \<noteq> [] \<and> int (length selected) < budget
     then let chosen = min_by key available in
       (remove1 chosen available, selected @ [\<lparr>se_candidate_id = ce_candidate_id chosen, se_reason = reason\<rparr>])
     else (available, selected))"

text \<open>The exploration loop; each round takes one estimate, so the available ones bound it.\<close>

fun explore :: "nat \<Rightarrow> int \<Rightarrow> json \<Rightarrow> cost_estimate list \<times> measurement_selection list
    \<Rightarrow> cost_estimate list \<times> measurement_selection list" where
  "explore 0 budget error s = s"
| "explore (Suc n) budget error s = (if fst s \<noteq> [] \<and> int (length (snd s)) < budget
     then explore n budget error (take_estimate budget ''exploration'' (uncertainty_key error) s) else s)"

definition select_measurement_batch :: "cost_estimate list \<Rightarrow> json \<Rightarrow> json \<Rightarrow> json \<Rightarrow> calibration_state option
    \<Rightarrow> calibration_decision res" where
  "select_measurement_batch estimates budget0 sentinel_period0 iteration0 calibration =
     rbind (require_int budget0 ''measurement budget'' 1) (\<lambda>budget.
     rbind (require_int sentinel_period0 ''sentinel period'' 1) (\<lambda>sentinel_period.
     rbind (require_int iteration0 ''iteration'' 0) (\<lambda>iteration.
     let keys = remdups (map ce_key_sha256 estimates) in
     if \<not> distinct (map ce_candidate_id estimates) then Inl (ValueError ''duplicate candidate estimates'')
     else if 1 < length keys \<or> (case calibration of None \<Rightarrow> False
         | Some c \<Rightarrow> keys \<noteq> [] \<and> set keys \<noteq> {cb_key_sha256 c})
     then Inl (ValueError ''cross-key candidate calibration'')
     else let available = sort_key ce_candidate_id (filter ce_feasible estimates);
       rejected = sort (map ce_candidate_id (filter (\<lambda>e. \<not> ce_feasible e) estimates)) in
     if int (length available) \<le> budget
     then Inr \<lparr>cd_selected = map (\<lambda>e. \<lparr>se_candidate_id = ce_candidate_id e, se_reason = ''exhaustive''\<rparr>) available,
       cd_pruned = [], cd_rejected = rejected, cd_status = ''ready''\<rparr>
     else let error = (case calibration of None \<Rightarrow> JInt 0 | Some c \<Rightarrow> cb_empirical_error_pct c);
       s1 = take_estimate budget ''predicted_winner'' winner_key (available, []);
       s2 = take_estimate budget ''constraint_boundary'' boundary_key s1;
       s3 = take_estimate budget ''max_uncertainty'' (uncertainty_key error) s2;
       s4 = (if iteration mod sentinel_period = 0 then take_estimate budget ''sentinel'' sentinel_key s3 else s3);
       s5 = explore (length available) budget error s4;
       suspended = (case calibration of None \<Rightarrow> False | Some c \<Rightarrow> cb_pruning_suspended c);
       threshold = (case calibration of None \<Rightarrow> JInt 10 | Some c \<Rightarrow> cb_error_threshold_pct c);
       uncertain = list_ex (\<lambda>e. ce_feasible e \<and> num_less threshold (num_max (ce_uncertainty_pct e) error)) estimates in
     Inr \<lparr>cd_selected = snd s5, cd_pruned = [], cd_rejected = rejected,
       cd_status = (if suspended \<or> uncertain \<or> budget < 4 then ''inconclusive'' else ''ready'')\<rparr>)))"

section \<open>Calibration only becomes more pessimistic\<close>

lemma valid_number_not_NaN: "valid_number v m \<Longrightarrow> num_val v \<noteq> NaN"
  using valid_number_val by fastforce

lemma num_max_ge: "num_val a \<noteq> NaN \<Longrightarrow> num_val a \<le> num_val (num_max a b)"
  by (auto simp: num_max_def num_less_def py_less_def)

text \<open>
  Calibration is monotone: an update keeps the key and the threshold, counts one observation,
  never lowers the recorded error and never lifts a suspension of pruning; a sentinel whose
  residual exceeds the threshold suspends it.
\<close>

theorem calibration_monotone:
  assumes "update_calibration state predicted measured role key = Inr state'"
    and "valid_number (cb_empirical_error_pct state) (Fin 0)"
  shows "cb_key_sha256 state' = cb_key_sha256 state \<and> cb_error_threshold_pct state' = cb_error_threshold_pct state
    \<and> cb_observations state' = cb_observations state + 1
    \<and> num_val (cb_empirical_error_pct state) \<le> num_val (cb_empirical_error_pct state')
    \<and> (cb_pruning_suspended state \<longrightarrow> cb_pruning_suspended state')"
  using assms num_max_ge [OF valid_number_not_NaN [OF assms(2)]]
  by (auto simp: update_calibration_def CalibrationState_def rbind_eq_Inr if_Inl_eq_Inr require_simps)

section \<open>Batches\<close>

text \<open>Every estimate of the pool is either still available or selected.\<close>

definition accounts :: "string list \<Rightarrow> cost_estimate list \<times> measurement_selection list \<Rightarrow> bool" where
  "accounts pool s \<longleftrightarrow> mset (map ce_candidate_id (fst s)) + mset (map se_candidate_id (snd s)) = mset pool"

lemma take_estimate_accounts: "accounts pool s \<Longrightarrow> accounts pool (take_estimate budget reason key s)"
proof (cases s)
  case (Pair available selected)
  assume a: "accounts pool s"
  show ?thesis
  proof (cases "available \<noteq> [] \<and> int (length selected) < budget")
    case True
    then have "min_by key available \<in> set available" by (simp add: min_by_mem)
    then have "mset (map ce_candidate_id available)
        = add_mset (ce_candidate_id (min_by key available)) (mset (map ce_candidate_id (remove1 (min_by key available) available)))"
      by (metis (no_types, lifting) image_mset_add_mset insert_DiffM mset_map mset_remove1 set_mset_mset)
    then show ?thesis using a True Pair by (simp add: accounts_def take_estimate_def Let_def)
  next
    case False
    then have "take_estimate budget reason key s = s" unfolding take_estimate_def Pair by (simp only: prod.case if_False)
    then show ?thesis using a by simp
  qed
qed

lemma take_estimate_length: "length (snd (take_estimate budget reason key s))
    = length (snd s) + (if fst s \<noteq> [] \<and> int (length (snd s)) < budget then 1 else 0)"
  by (cases s) (simp add: take_estimate_def Let_def)

lemma explore_accounts: "accounts pool s \<Longrightarrow> accounts pool (explore n budget error s)"
  by (induction n budget error s rule: explore.induct) (auto simp: take_estimate_accounts)

lemma take_estimate_available: "fst s \<noteq> [] \<Longrightarrow> int (length (snd s)) < budget \<Longrightarrow>
    Suc (length (fst (take_estimate budget reason key s))) = length (fst s)"
  by (cases s) (auto simp: take_estimate_def Let_def length_remove1 min_by_mem dest: length_pos_if_in_set)

lemma take_estimate_fst: "length (fst (take_estimate budget reason key s)) \<le> length (fst s)"
  by (cases s) (auto simp: take_estimate_def Let_def length_remove1)

lemma take_estimate_bound: "int (length (snd s)) \<le> budget \<Longrightarrow> int (length (snd (take_estimate budget reason key s))) \<le> budget"
  by (simp add: take_estimate_length)

text \<open>With enough rounds the exploration stops for lack of estimates or of budget.\<close>

lemma explore_full: "length (fst s) \<le> n \<Longrightarrow> int (length (snd s)) \<le> budget \<Longrightarrow>
    fst (explore n budget error s) = [] \<or> int (length (snd (explore n budget error s))) = budget"
proof (induction n budget error s rule: explore.induct)
  case (2 n budget error s)
  show ?case
  proof (cases "fst s \<noteq> [] \<and> int (length (snd s)) < budget")
    case True
    have "length (fst (take_estimate budget ''exploration'' (uncertainty_key error) s)) \<le> n"
      using take_estimate_available [of s budget "''exploration''" "uncertainty_key error"] True "2.prems"(1) by simp
    then show ?thesis using "2.IH" True "2.prems"(2) take_estimate_bound by simp
  qed (use "2.prems" in auto)
qed simp

lemma explore_bound: "int (length (snd s)) \<le> budget \<Longrightarrow> int (length (snd (explore n budget error s))) \<le> budget"
  by (induction n budget error s rule: explore.induct) (auto simp: take_estimate_bound)

lemma take_estimate_prefix: "\<exists>more. snd (take_estimate budget reason key s) = snd s @ more"
  by (cases s) (simp add: take_estimate_def Let_def)

lemma explore_prefix: "\<exists>more. snd (explore n budget error s) = snd s @ more"
proof (induction n budget error s rule: explore.induct)
  case (2 n budget error s)
  then show ?case
    using take_estimate_prefix [of budget "''exploration''" "uncertainty_key error" s] by (auto split: if_splits)
qed simp

text \<open>The state after the four fixed reasons.\<close>

definition reasons :: "int \<Rightarrow> json \<Rightarrow> bool \<Rightarrow> cost_estimate list \<Rightarrow> cost_estimate list \<times> measurement_selection list" where
  "reasons budget error sentinel available =
     (let s3 = take_estimate budget ''max_uncertainty'' (uncertainty_key error)
        (take_estimate budget ''constraint_boundary'' boundary_key
          (take_estimate budget ''predicted_winner'' winner_key (available, [])))
      in if sentinel then take_estimate budget ''sentinel'' sentinel_key s3 else s3)"

lemma batch_cases:
  assumes "select_measurement_batch estimates (JInt budget) period iteration calibration = Inr d"
    and "budget < int (length (filter ce_feasible estimates))"
  shows "\<exists>error sentinel. cd_selected d = snd (explore (length (filter ce_feasible estimates)) budget error
        (reasons budget error sentinel (sort_key ce_candidate_id (filter ce_feasible estimates))))"
  using assms
  by (intro exI [of _ "case calibration of None \<Rightarrow> JInt 0 | Some c \<Rightarrow> cb_empirical_error_pct c"]
      exI [of _ "the_int iteration mod the_int period = 0"])
    (auto simp: select_measurement_batch_def reasons_def Let_def rbind_eq_Inr if_Inl_eq_Inr require_simps the_int_def
      split: if_splits)

lemma batch_exhaustive:
  assumes "select_measurement_batch estimates (JInt budget) period iteration calibration = Inr d"
    and "int (length (filter ce_feasible estimates)) \<le> budget"
  shows "cd_selected d = map (\<lambda>e. \<lparr>se_candidate_id = ce_candidate_id e, se_reason = ''exhaustive''\<rparr>)
        (sort_key ce_candidate_id (filter ce_feasible estimates))"
  using assms
  by (auto simp: select_measurement_batch_def Let_def rbind_eq_Inr if_Inl_eq_Inr require_simps split: if_splits)

lemma batch_facts:
  assumes "select_measurement_batch estimates (JInt budget) period iteration calibration = Inr d"
  shows "1 \<le> budget" and "distinct (map ce_candidate_id estimates)" and "cd_pruned d = []"
    and "set (cd_rejected d) = ce_candidate_id ` {e \<in> set estimates. \<not> ce_feasible e}"
  using assms
  by (auto simp: select_measurement_batch_def Let_def rbind_eq_Inr if_Inl_eq_Inr require_simps split: if_splits)

lemma reasons_accounts: "accounts (map ce_candidate_id available) (reasons budget error sentinel available)"
  unfolding reasons_def Let_def
  by (auto intro!: take_estimate_accounts simp: accounts_def [of _ "(available, [])"])

lemma reasons_bound: "0 \<le> budget \<Longrightarrow> int (length (snd (reasons budget error sentinel available))) \<le> budget
    \<and> length (fst (reasons budget error sentinel available)) \<le> length available"
proof -
  assume b: "0 \<le> budget"
  have fst: "length (fst s) \<le> n \<Longrightarrow> length (fst (take_estimate budget reason key s)) \<le> n" for s n reason key
    using take_estimate_fst [of budget reason key s] by linarith
  show ?thesis unfolding reasons_def Let_def using b by (auto intro!: take_estimate_bound fst)
qed

text \<open>
  C36. A measurement batch uses its budget fully and fairly: it selects distinct feasible candidates,
  as many as the budget allows or all of them, prunes nothing on an estimate, and reports exactly the
  infeasible candidates as rejected.
\<close>

theorem batch_fills_budget:
  assumes "select_measurement_batch estimates (JInt budget) period iteration calibration = Inr d"
  shows "distinct (map se_candidate_id (cd_selected d))
    \<and> set (map se_candidate_id (cd_selected d)) \<subseteq> ce_candidate_id ` {e \<in> set estimates. ce_feasible e}
    \<and> int (length (cd_selected d)) = min budget (int (length (filter ce_feasible estimates)))
    \<and> cd_pruned d = [] \<and> set (cd_rejected d) = ce_candidate_id ` {e \<in> set estimates. \<not> ce_feasible e}"
proof -
  note facts = batch_facts [OF assms]
  let ?feasible = "filter ce_feasible estimates"
  let ?available = "sort_key ce_candidate_id ?feasible"
  have d: "distinct (map ce_candidate_id ?feasible)" using facts(2) by (induction estimates) auto
  show ?thesis
  proof (cases "budget < int (length ?feasible)")
    case False
    then have sel: "map se_candidate_id (cd_selected d) = map ce_candidate_id ?available"
      using batch_exhaustive [OF assms] by simp
    have "mset (map ce_candidate_id ?available) = mset (map ce_candidate_id ?feasible)" by simp
    then have "distinct (map ce_candidate_id ?available)" using d by (metis mset_eq_imp_distinct_iff)
    moreover have "length (cd_selected d) = length ?feasible" using arg_cong [OF sel, of length] by simp
    ultimately show ?thesis unfolding sel using facts False by auto
  next
    case True
    then obtain error sentinel where sel: "cd_selected d = snd (explore (length ?feasible) budget error
        (reasons budget error sentinel ?available))"
      using batch_cases [OF assms] by blast
    let ?s = "explore (length ?feasible) budget error (reasons budget error sentinel ?available)"
    have acc: "accounts (map ce_candidate_id ?available) ?s" by (intro explore_accounts reasons_accounts)
    have bound: "int (length (snd (reasons budget error sentinel ?available))) \<le> budget"
      "length (fst (reasons budget error sentinel ?available)) \<le> length ?feasible"
      using reasons_bound [of budget error sentinel ?available] facts(1) by auto
    have total: "length (fst ?s) + length (snd ?s) = length ?feasible"
      using arg_cong [OF acc [unfolded accounts_def], of size] by (simp del: mset_filter)
    have "int (length (snd ?s)) \<le> budget" by (rule explore_bound [OF bound(1)])
    then have len: "int (length (snd ?s)) = budget"
      using explore_full [OF bound(2,1), of error] total True by auto
    have m: "mset (map ce_candidate_id (fst ?s)) + mset (map se_candidate_id (snd ?s)) = mset (map ce_candidate_id ?feasible)"
      using acc by (simp add: accounts_def)
    then have "mset (map ce_candidate_id (fst ?s) @ map se_candidate_id (snd ?s)) = mset (map ce_candidate_id ?feasible)"
      by simp
    then have "distinct (map ce_candidate_id (fst ?s) @ map se_candidate_id (snd ?s))"
      "set (map ce_candidate_id (fst ?s) @ map se_candidate_id (snd ?s)) = set (map ce_candidate_id ?feasible)"
      using d by (metis mset_eq_imp_distinct_iff, metis mset_eq_setD)
    then show ?thesis unfolding sel using len True facts by auto
  qed
qed

text \<open>
  The predicted winner is always measured: a batch that cannot take every candidate starts with
  a feasible one whose estimated decode rate is the highest of all feasible estimates.
\<close>

theorem batch_measures_predicted_winner:
  assumes "select_measurement_batch estimates (JInt budget) period iteration calibration = Inr d"
    and "budget < int (length (filter ce_feasible estimates))"
    and "\<forall>e \<in> set estimates. valid_number (decode_tps e) MICRO"
  shows "\<exists>winner more. winner \<in> set estimates \<and> ce_feasible winner
    \<and> cd_selected d = \<lparr>se_candidate_id = ce_candidate_id winner, se_reason = ''predicted_winner''\<rparr> # more
    \<and> (\<forall>e \<in> set estimates. ce_feasible e \<longrightarrow> num_val (decode_tps e) \<le> num_val (decode_tps winner))"
proof -
  let ?feasible = "filter ce_feasible estimates"
  let ?available = "sort_key ce_candidate_id ?feasible"
  obtain error sentinel where sel: "cd_selected d = snd (explore (length ?feasible) budget error
      (reasons budget error sentinel ?available))"
    using batch_cases [OF assms(1,2)] by blast
  have ne: "?available \<noteq> []" using assms(2) batch_facts(1) [OF assms(1)] by auto
  let ?w = "min_by winner_key ?available"
  let ?s = "take_estimate budget ''predicted_winner'' winner_key (?available, [])"
  have w: "?w \<in> set estimates" "ce_feasible ?w" using min_by_mem [OF ne, of winner_key] by auto
  have first: "snd ?s = [\<lparr>se_candidate_id = ce_candidate_id ?w, se_reason = ''predicted_winner''\<rparr>]"
    using ne batch_facts(1) [OF assms(1)] by (simp add: take_estimate_def Let_def)
  have "\<exists>more. snd (reasons budget error sentinel ?available) = snd ?s @ more"
  proof -
    let ?b = "take_estimate budget ''constraint_boundary'' boundary_key ?s"
    let ?u = "take_estimate budget ''max_uncertainty'' (uncertainty_key error) ?b"
    obtain m1 m2 m3 where "snd ?b = snd ?s @ m1" "snd ?u = snd ?b @ m2"
      "snd (take_estimate budget ''sentinel'' sentinel_key ?u) = snd ?u @ m3"
      using take_estimate_prefix by meson
    then show ?thesis by (auto simp: reasons_def Let_def)
  qed
  then obtain more where more: "cd_selected d = snd ?s @ more"
    using explore_prefix [of "length ?feasible" budget error "reasons budget error sentinel ?available"] sel by auto
  have "num_val (decode_tps e) \<le> num_val (decode_tps ?w)" if "e \<in> set estimates" "ce_feasible e" for e
  proof -
    have "winner_key ?w \<le> winner_key e" using that by (intro min_by_le) simp
    then have "num_val (num_neg (decode_tps ?w)) \<le> num_val (num_neg (decode_tps e))" by (auto simp: winner_key_def less_eq_prod_def)
    moreover have "valid_number (decode_tps e) MICRO" "valid_number (decode_tps ?w) MICRO" using assms(3) that w by auto
    ultimately show ?thesis
      by (elim valid_number_cases) (auto simp: num_neg_def num_val_def exact_num_def)
  qed
  with w first more show ?thesis by auto
qed

section \<open>Examples\<close>

definition example_estimate :: "string \<Rightarrow> int \<Rightarrow> bool \<Rightarrow> cost_estimate" where
  "example_estimate cid tps ok = \<lparr>ce_candidate_id = cid, ce_metrics = [(''decode_tps'', JInt tps)],
     ce_uncertainty_pct = JInt 1, ce_constraint_margin = JInt 2, ce_key_sha256 = replicate 64 CHR ''0'', ce_feasible = ok\<rparr>"

definition example_estimates :: "cost_estimate list" where
  "example_estimates = [example_estimate ''a'' 10 True, example_estimate ''b'' 30 True, example_estimate ''c'' 20 False,
     example_estimate ''d'' 25 True]"

lemma example_batch_ok: "is_ok (select_measurement_batch example_estimates (JInt 2) (JInt 1) (JInt 0) None)"
  by code_simp

theorem batch_fills_budget_witness:
  "\<exists>d. select_measurement_batch example_estimates (JInt 2) (JInt 1) (JInt 0) None = Inr d
    \<and> int (length (cd_selected d)) = min 2 (int (length (filter ce_feasible example_estimates)))"
  using example_batch_ok batch_fills_budget unfolding is_ok_iff by blast

theorem batch_measures_predicted_winner_witness:
  "\<exists>d. select_measurement_batch example_estimates (JInt 2) (JInt 1) (JInt 0) None = Inr d
    \<and> (\<exists>winner more. winner \<in> set example_estimates \<and> ce_feasible winner
      \<and> cd_selected d = \<lparr>se_candidate_id = ce_candidate_id winner, se_reason = ''predicted_winner''\<rparr> # more
      \<and> (\<forall>e \<in> set example_estimates. ce_feasible e \<longrightarrow> num_val (decode_tps e) \<le> num_val (decode_tps winner)))"
proof -
  obtain d where d: "select_measurement_batch example_estimates (JInt 2) (JInt 1) (JInt 0) None = Inr d"
    using example_batch_ok unfolding is_ok_iff by blast
  have more: "2 < int (length (filter ce_feasible example_estimates))"
    by (simp add: example_estimates_def example_estimate_def)
  have valid: "\<forall>e \<in> set example_estimates. valid_number (decode_tps e) MICRO"
    by (simp add: example_estimates_def example_estimate_def decode_tps_def dict_get_def valid_number_int)
  show ?thesis by (intro exI [of _ d] conjI d batch_measures_predicted_winner [OF d more valid])
qed

definition example_calibration :: calibration_state where
  "example_calibration = \<lparr>cb_key_sha256 = replicate 64 CHR ''0'', cb_error_threshold_pct = JInt 10,
     cb_empirical_error_pct = JInt 3, cb_observations = 1, cb_pruning_suspended = True\<rparr>"

theorem calibration_monotone_witness:
  "\<exists>state'. update_calibration example_calibration [(''decode_tps'', JInt 20)] [(''decode_tps'', JInt 20)] ''sentinel'' None
      = Inr state' \<and> cb_observations state' = cb_observations example_calibration + 1 \<and> cb_pruning_suspended state'"
proof -
  have three: "valid_number (JInt 3) (Fin 0)"
    using float_of_int_pos [of 3] by (auto simp: valid_number_def is_ok_iff py_le_def)
  have hash: "is_hash (replicate 64 CHR ''0'')" by (simp add: is_hash_def hex_char_def list_all_iff)
  have zero: "residual_pct (JInt 20) (JInt 20) = Inr (JFloat (Fin 0))"
    by (simp add: residual_pct_def num_sub_def num_mul_def num_div_def num_op_def num_abs_def int_truediv_def)
  have "num_max (JInt 3) (num_max (JFloat (Fin 0)) (JFloat (Fin 0))) = JInt 3"
    by (simp add: num_max_def num_less_def num_val_def exact_num_def py_less_def)
  then have "is_ok (update_calibration example_calibration [(''decode_tps'', JInt 20)] [(''decode_tps'', JInt 20)] ''sentinel'' None)"
    using three hash zero
    by (simp add: update_calibration_def example_calibration_def dict_index_def require_number_def valid_number_int
        CalibrationState_def require_hash_def require_int_def del: replicate.simps)
  then obtain state' where s: "update_calibration example_calibration [(''decode_tps'', JInt 20)]
      [(''decode_tps'', JInt 20)] ''sentinel'' None = Inr state'" unfolding is_ok_iff by blast
  have "valid_number (cb_empirical_error_pct example_calibration) (Fin 0)" using three by (simp add: example_calibration_def)
  from calibration_monotone [OF s this] s show ?thesis by (auto simp: example_calibration_def)
qed

end
