(* ===== verification/Adapters.thy ===== *)
theory Adapters
  imports Compiler_Schema
begin

text \<open>
  \<open>compiler/adapters\<close>: the registry of model families and the two adapters that turn a GGUF
  inventory into a normalised model. An inventory, its rows and its tensors are decoded JSON; a row
  or tensor that is not an object has no \<open>get\<close> and raises \<open>AttributeError\<close>. Inventories are compared
  with Python's \<open>==\<close>. The lemmas show that a normalised model has exactly the layers \<open>0 .. n - 1\<close>, each
  with a bank of whole expert bundles, and that the tensors an accepted Granite inventory lists are all
  those of the model and lie in the model file without overlapping.
\<close>

section \<open>Descriptor and registry\<close>

record model_descriptor =
  ds_family :: string
  ds_architecture :: string
  ds_quantization :: string
  ds_expert_count :: int
  ds_expert_top_k :: int
  ds_kv_kind :: string
  ds_mtp_kind :: string

definition ModelDescriptor :: "json \<Rightarrow> json \<Rightarrow> json \<Rightarrow> json \<Rightarrow> json \<Rightarrow> json \<Rightarrow> json \<Rightarrow> model_descriptor res" where
  "ModelDescriptor family architecture quantization expert_count expert_top_k kv_kind mtp_kind =
     rbind (require_text family ''family'') (\<lambda>fam.
     rbind (require_text architecture ''architecture'') (\<lambda>arch.
     rbind (require_text quantization ''quantization'') (\<lambda>quant.
     rbind (require_text kv_kind ''kv_kind'') (\<lambda>kv.
     rbind (require_text mtp_kind ''mtp_kind'') (\<lambda>mtp.
     rbind (require_int expert_count ''expert_count'' 1) (\<lambda>n.
     rbind (require_int expert_top_k ''expert_top_k'' 1) (\<lambda>k.
     if n < k then Inl (ValueError ''expert top_k exceeds count'')
     else Inr \<lparr>ds_family = fam, ds_architecture = arch, ds_quantization = quant, ds_expert_count = n,
       ds_expert_top_k = k, ds_kv_kind = kv, ds_mtp_kind = mtp\<rparr>)))))))"

record model_adapter =
  ad_family :: string
  ad_normalize :: "model_descriptor \<Rightarrow> jrecord \<Rightarrow> artifact_identity \<Rightarrow> model_ir res"

type_synonym adapter_registry = "(string, model_adapter) dict"

definition register :: "model_adapter \<Rightarrow> adapter_registry \<Rightarrow> adapter_registry res" where
  "register adapter adapters =
     (if ad_family adapter \<in> fst ` set adapters then Inl (ValueError ''duplicate adapter'')
      else Inr (dict_set (ad_family adapter) adapter adapters))"

definition resolve_adapter :: "string \<Rightarrow> adapter_registry \<Rightarrow> model_adapter res" where
  "resolve_adapter family adapters = (case map_of adapters family of
     None \<Rightarrow> Inl (ValueError ''unsupported model family'') | Some a \<Rightarrow> Inr a)"

section \<open>Routed banks\<close>

definition check_provenance :: "json \<Rightarrow> artifact_identity \<Rightarrow> unit res" where
  "check_provenance provenance identity =
     (if provenance = JNull then Inr ()
      else rbind (as_record provenance) (\<lambda>p.
        if \<not> jeq (jget p ''sha256'') (JStr (ai_sha256 identity)) \<or> \<not> jeq (jget p ''bytes'') (JInt (ai_size_bytes identity))
        then Inl (ValueError ''inventory/model identity mismatch'') else Inr ()))"

text \<open>The byte counts of the routed tensors of one layer, collected tensor by tensor.\<close>

definition layer_tensor_bytes :: "json \<Rightarrow> jrecord \<Rightarrow> json list res" where
  "layer_tensor_bytes tensors row =
     rbind (py_iter tensors) (\<lambda>ts.
     rbind (rmap (\<lambda>t. rbind (as_record t) (\<lambda>r.
       if jget r ''routed_expert_tensor'' \<noteq> JBool True then Inr None
       else rbind (dict_index row ''layer_id'') (\<lambda>layer_id.
         if jeq (jget r ''layer_id'') layer_id then rbind (dict_index r ''bytes'') (\<lambda>b. Inr (Some b)) else Inr None))) ts) (\<lambda>bs.
       Inr (List.map_filter (\<lambda>b. b) bs)))"

definition routed_layer :: "model_descriptor \<Rightarrow> json \<Rightarrow> json \<Rightarrow> json \<Rightarrow> moe_layer_ir res" where
  "routed_layer descriptor tensors components row0 =
     rbind (as_record row0) (\<lambda>row.
     if \<not> jeq (jget row ''components'') components then Inl (ValueError ''inconsistent component sets'')
     else rbind (layer_tensor_bytes tensors row) (\<lambda>bytes.
     rbind (dict_index row ''layer_id'') (\<lambda>layer_id.
     rbind (dict_index row ''complete_expert_bundle_bytes'') (\<lambda>bundle.
     rbind (dict_index row ''routed_expert_bank_bytes'') (\<lambda>bank.
     rbind (MoELayerIR layer_id (JInt (ds_expert_count descriptor)) (JInt (ds_expert_top_k descriptor)) bundle bank bytes) (\<lambda>layer.
     if ml_expert_bundle_bytes layer * ml_expert_count layer \<noteq> ml_routed_expert_bank_bytes layer
     then Inl (ValueError ''inconsistent per-layer bundle bytes'') else Inr layer))))))"

definition normalize_routed_inventory :: "(json \<Rightarrow> string) \<Rightarrow> model_descriptor \<Rightarrow> jrecord \<Rightarrow> artifact_identity
    \<Rightarrow> model_ir res" where
  "normalize_routed_inventory digest descriptor inventory identity =
     (if jget inventory ''component_sets_consistent'' \<noteq> JBool True then Inl (ValueError ''inconsistent component sets'')
      else if \<not> jeq (jget inventory ''expert_count'') (JInt (ds_expert_count descriptor))
      then Inl (ValueError ''expert-count mismatch'')
      else rbind (check_provenance (jget inventory ''model'') identity) (\<lambda>_.
      let rows = dict_get inventory ''layers'' (JArr []); components = jget inventory ''expert_component_names'' in
      if \<not> truthy rows then Inl (ValueError ''absent routed layers'')
      else rbind (case components of JArr cs \<Rightarrow> if cs = [] then Inr False else unique_values cs | _ \<Rightarrow> Inr False) (\<lambda>ok.
      if \<not> ok then Inl (ValueError ''invalid component sets'')
      else rbind (py_iter rows) (\<lambda>row_list.
      rbind (rmap (routed_layer descriptor (dict_get inventory ''tensors'' (JArr [])) components) row_list) (\<lambda>layers.
      let ids = sort (map ml_layer_id layers) in
      if ids \<noteq> map int [0..<length layers] then Inl (ValueError ''noncontiguous or duplicate routed layer IDs'')
      else if \<not> jeq (jget inventory ''routed_layer_count'') (JInt (int (length layers)))
        \<or> \<not> jeq (jget inventory ''routed_layer_ids'') (JArr (map JInt ids))
      then Inl (ValueError ''routed layer summary mismatch'')
      else rbind (canonical_sha256 digest (JObj inventory)) (\<lambda>sha.
        ModelIR (JStr PLAN_SCHEMA) identity (JStr (ds_family descriptor)) (JStr (ds_architecture descriptor))
          (JStr (ds_quantization descriptor)) (JInt (ds_expert_count descriptor)) (JInt (ds_expert_top_k descriptor))
          layers (JStr (ds_kv_kind descriptor)) (JStr (ds_mtp_kind descriptor)) (JInt 256) (JStr sha)))))))"

section \<open>Gemma 4\<close>

definition gemma_normalize :: "(json \<Rightarrow> string) \<Rightarrow> model_descriptor \<Rightarrow> jrecord \<Rightarrow> artifact_identity \<Rightarrow> model_ir res" where
  "gemma_normalize digest descriptor inventory identity =
     (if ds_family descriptor \<noteq> ''gemma4'' \<or> ds_architecture descriptor \<noteq> ''gemma4-moe''
      then Inl (ValueError ''wrong family/architecture for Gemma 4 adapter'')
      else normalize_routed_inventory digest descriptor inventory identity)"

text \<open>The routed splits of a diagnostic profile: first nodes \<open>ffn_moe_gate_up-<layer>\<close>.\<close>

definition is_digit :: "char \<Rightarrow> bool" where
  "is_digit c \<longleftrightarrow> c \<in> set ''0123456789''"

definition digits_value :: "string \<Rightarrow> int" where
  "digits_value s = foldl (\<lambda>n c. 10 * n + (of_char c - 48)) 0 s"

definition SPLIT_PREFIX :: string where
  "SPLIT_PREFIX = ''ffn_moe_gate_up-''"

definition split_layer :: "string \<Rightarrow> string option" where
  "split_layer node = (let n = length SPLIT_PREFIX; digits = drop n node in
     if take n node = SPLIT_PREFIX \<and> digits \<noteq> [] \<and> list_all is_digit digits then Some digits else None)"

text \<open>\<open>int\<close> of a decimal string refuses more than 4300 digits.\<close>

definition py_int :: "string \<Rightarrow> int res" where
  "py_int s = (if 4300 < length s then Inl (ValueError ''Exceeds the limit for integer string conversion'')
     else Inr (digits_value s))"

definition profile_row :: "string \<Rightarrow> json \<Rightarrow> jrecord option res" where
  "profile_row profile_id v = rbind (as_record v) (\<lambda>r.
     case dict_get r ''first_node'' (JStr []) of
       JStr node \<Rightarrow> (case split_layer node of None \<Rightarrow> Inr None
         | Some digits \<Rightarrow> rbind (py_int digits) (\<lambda>layer.
             rbind (dict_index r ''total_us'') (\<lambda>total_us.
             rbind (dict_index r ''backend'') (\<lambda>backend.
               Inr (Some [(''layer_id'', JInt layer), (''total_us'', total_us), (''backend'', backend),
                 (''profile_id'', JStr profile_id)])))))
     | _ \<Rightarrow> Inl TypeError)"

definition gemma_normalize_profile :: "jrecord \<Rightarrow> string \<Rightarrow> jrecord list res" where
  "gemma_normalize_profile profile profile_id =
     (if jget profile ''diagnostic_synchronization'' \<noteq> JBool True
      then Inl (ValueError ''profile requires diagnostic synchronization'')
      else rbind (py_iter (dict_get profile ''records'' (JArr []))) (\<lambda>records.
      rbind (rmap (profile_row profile_id) records) (\<lambda>rows0. let rows = List.map_filter (\<lambda>r. r) rows0 in
      if rows = [] then Inl (ValueError ''profile contains no routed expert splits'') else Inr rows)))"

section \<open>Granite MoE\<close>

definition granite_key :: "string \<Rightarrow> string" where
  "granite_key key = ''granitemoe.'' @ key"

definition granite_dimension_keys :: "string list" where
  "granite_dimension_keys = [''embedding_length'', ''feed_forward_length'', ''block_count'', ''vocab_size'',
     ''context_length'', ''attention.head_count'', ''attention.head_count_kv'', ''rope.dimension_count'']"

definition granite_scale_keys :: "string list" where
  "granite_scale_keys = [''embedding_scale'', ''logit_scale'', ''residual_scale'', ''attention.scale'',
     ''attention.layer_norm_rms_epsilon'', ''rope.freq_base'']"

text \<open>The tensors of a complete Granite model, with their shapes and types.\<close>

definition granite_components :: "int \<Rightarrow> int \<Rightarrow> int \<Rightarrow> int \<Rightarrow> (string \<times> int list \<times> string) list" where
  "granite_components width hidden kv_width experts =
     [(''attn_k.weight'', [width, kv_width], ''Q6_K''), (''attn_v.weight'', [width, kv_width], ''Q6_K''),
      (''attn_q.weight'', [width, width], ''Q6_K''), (''attn_output.weight'', [width, width], ''Q6_K''),
      (''attn_norm.weight'', [width], ''F32''), (''ffn_norm.weight'', [width], ''F32''),
      (''ffn_gate_inp.weight'', [width, experts], ''F32''),
      (''ffn_down_exps.weight'', [hidden, width, experts], ''Q6_K''),
      (''ffn_gate_exps.weight'', [width, hidden, experts], ''Q6_K''),
      (''ffn_up_exps.weight'', [width, hidden, experts], ''Q6_K'')]"

definition block_tensor :: "int \<Rightarrow> string \<Rightarrow> string" where
  "block_tensor layer component = ''blk.'' @ int_str layer @ ''.'' @ component"

definition granite_expected :: "int \<Rightarrow> int \<Rightarrow> int \<Rightarrow> int \<Rightarrow> int \<Rightarrow> int \<Rightarrow> (string \<times> int list \<times> string) list" where
  "granite_expected width hidden kv_width experts vocab blocks =
     [(''output_norm.weight'', [width], ''F32''), (''token_embd.weight'', [width, vocab], ''Q6_K'')]
     @ concat (map (\<lambda>layer. map (\<lambda>(name, v). (block_tensor layer name, v))
         (granite_components width hidden kv_width experts)) [0..blocks - 1])"

record granite_scan =
  gs_seen :: "string list"
  gs_intervals :: "(int \<times> int) list"
  gs_total :: int
  gs_routed_total :: int

text \<open>
  One tensor. Once the shape has compared equal to the expected one, its elements have the values of
  the expected integers, and the byte counts are computed from those.
\<close>

definition granite_tensor :: "(string \<times> int list \<times> string) list \<Rightarrow> artifact_identity \<Rightarrow> granite_scan \<Rightarrow> json
    \<Rightarrow> granite_scan res" where
  "granite_tensor expected identity s v =
     rbind (as_record v) (\<lambda>t.
     case jget t ''name'' of JArr _ \<Rightarrow> Inl TypeError | JObj _ \<Rightarrow> Inl TypeError
     | JStr name \<Rightarrow>
       (case map_of expected name of None \<Rightarrow> Inl (ValueError ''invalid Granite tensor name/shape/type'')
        | Some (shape, kind) \<Rightarrow>
          if name \<in> set (gs_seen s) \<or> \<not> jeq (jget t ''shape'') (JArr (map JInt shape)) \<or> jget t ''type'' \<noteq> JStr kind
          then Inl (ValueError ''invalid Granite tensor name/shape/type'')
          else let (block, size) = (if kind = ''Q6_K'' then (256, 210) else (1, 4)) in
          if hd shape mod block \<noteq> 0 \<or> \<not> jeq (jget t ''quant_block_elements'') (JInt block)
            \<or> \<not> jeq (jget t ''quant_block_bytes'') (JInt size)
          then Inl (ValueError ''invalid Granite quantized row layout'')
          else let nbytes = prod_list shape div block * size in
          rbind (require_int (jget t ''data_offset'') ''Granite tensor offset'' 0) (\<lambda>offset.
          let routed = contains ''_exps.weight'' name in
          if \<not> jeq (jget t ''bytes'') (JInt nbytes) \<or> jget t ''routed_expert_tensor'' \<noteq> JBool routed
            \<or> jget t ''slice_contiguous'' \<noteq> JBool True \<or> offset mod 32 \<noteq> 0 \<or> ai_size_bytes identity < offset + nbytes
          then Inl (ValueError ''invalid Granite tensor byte accounting'')
          else if \<not> routed \<and> (jget t ''expert_axis'' \<noteq> JNull \<or> jget t ''bytes_per_expert_slice'' \<noteq> JNull)
          then Inl (ValueError ''invalid Granite dense tensor classification'')
          else Inr \<lparr>gs_seen = gs_seen s @ [name], gs_intervals = gs_intervals s @ [(offset, offset + nbytes)],
            gs_total = gs_total s + nbytes, gs_routed_total = gs_routed_total s + (if routed then nbytes else 0)\<rparr>))
     | _ \<Rightarrow> Inl (ValueError ''invalid Granite tensor name/shape/type''))"

definition overlapping :: "(int \<times> int) list \<Rightarrow> bool" where
  "overlapping intervals \<longleftrightarrow> list_ex (\<lambda>(a, b). fst b < snd a) (zip intervals (tl intervals))"

text \<open>The literal \<open>1e-30\<close>.\<close>

definition TINY :: pyfloat where
  "TINY = dbl (1 / 10 ^ 30)"

definition tensor_count_ok :: "jrecord \<Rightarrow> json \<Rightarrow> int \<Rightarrow> bool res" where
  "tensor_count_ok inventory tensors n = (if \<not> jeq (jget inventory ''tensor_count'') (JInt n) then Inr False
     else rbind (py_len tensors) (\<lambda>k. Inr (k = n)))"

definition granite_complete_inventory :: "jrecord \<Rightarrow> jrecord \<Rightarrow> artifact_identity \<Rightarrow> model_descriptor
    \<Rightarrow> granite_scan res" where
  "granite_complete_inventory inventory metadata identity descriptor =
     (if jget inventory ''schema_version'' \<noteq> JStr ''1.0.0''
        \<or> jget inventory ''measurement_kind'' \<noteq> JStr ''gguf_metadata_derived''
      then Inl (ValueError ''Granite requires metadata-derived inventory provenance'')
      else case jget inventory ''model'' of JObj provenance \<Rightarrow>
        rbind (ArtifactIdentity (jget provenance ''path'') (jget provenance ''bytes'') (jget provenance ''sha256'')) (\<lambda>declared.
        if ai_sha256 declared \<noteq> ai_sha256 identity \<or> ai_size_bytes declared \<noteq> ai_size_bytes identity
        then Inl (ValueError ''Granite inventory/model identity mismatch'')
        else rbind (rmap (\<lambda>key. require_text (jget provenance key) (''Granite model '' @ key)) [''repository'', ''revision'']) (\<lambda>_.
        rbind (rmap (\<lambda>key. rbind (require_int (jget metadata (granite_key key)) (''Granite '' @ key) 1) (\<lambda>n. Inr (key, n)))
          granite_dimension_keys) (\<lambda>dims.
        rbind (rmap (\<lambda>key. require_number (jget metadata (granite_key key)) (''Granite '' @ key) TINY) granite_scale_keys) (\<lambda>_.
        let dim = (\<lambda>key. dict_get dims key 0); width = dim ''embedding_length''; hidden = dim ''feed_forward_length'';
          heads = dim ''attention.head_count''; kv_heads = dim ''attention.head_count_kv'' in
        if width mod heads \<noteq> 0 \<or> heads mod kv_heads \<noteq> 0 \<or> dim ''rope.dimension_count'' \<noteq> width div heads
        then Inl (ValueError ''unsupported Granite attention dimensions'')
        else let kv_width = width div heads * kv_heads;
          expected = granite_expected width hidden kv_width (ds_expert_count descriptor) (dim ''vocab_size'') (dim ''block_count'');
          tensors = dict_get inventory ''tensors'' (JArr []) in
        rbind (tensor_count_ok inventory tensors (int (length expected))) (\<lambda>complete.
        if \<not> complete then Inl (ValueError ''incomplete Granite tensor inventory'')
        else rbind (py_iter tensors) (\<lambda>ts.
        rbind (rfold (granite_tensor expected identity)
          \<lparr>gs_seen = [], gs_intervals = [], gs_total = 0, gs_routed_total = 0\<rparr> ts) (\<lambda>s.
        if overlapping (sort (gs_intervals s)) then Inl (ValueError ''overlapping Granite tensor payloads'')
        else if \<not> jeq (jget inventory ''total_tensor_payload_bytes'') (JInt (gs_total s))
          \<or> \<not> jeq (jget inventory ''total_routed_expert_bank_bytes'') (JInt (gs_routed_total s))
          \<or> \<not> jeq (jget inventory ''non_expert_tensor_bytes'') (JInt (gs_total s - gs_routed_total s))
        then Inl (ValueError ''Granite inventory payload totals mismatch'')
        else Inr s)))))))
      | _ \<Rightarrow> Inl (ValueError ''Granite inventory model provenance missing''))"

text \<open>
  The text of a value in an f-string. The texts of a float and of a container are left out
  (\<open>None\<close>): no tensor of a complete inventory is named by them.
\<close>

definition formatted :: "json \<Rightarrow> string option" where
  "formatted v = (case v of JStr s \<Rightarrow> Some s | JInt n \<Rightarrow> Some (int_str n) | JBool True \<Rightarrow> Some ''True''
     | JBool False \<Rightarrow> Some ''False'' | JNull \<Rightarrow> Some ''None'' | _ \<Rightarrow> None)"

definition formatted_name :: "json \<Rightarrow> json \<Rightarrow> json option" where
  "formatted_name layer_id component = (case (formatted layer_id, formatted component) of
     (Some l, Some c) \<Rightarrow> Some (JStr (''blk.'' @ l @ ''.'' @ c)) | _ \<Rightarrow> None)"

text \<open>\<open>3*v\<close>, as far as it can equal a length.\<close>

definition triple :: "json \<Rightarrow> json res" where
  "triple v = (case v of JInt n \<Rightarrow> Inr (JInt (3 * n)) | JBool b \<Rightarrow> Inr (JInt (if b then 3 else 0))
     | JFloat x \<Rightarrow> Inr (JFloat (fmul (Fin 3) x)) | JStr s \<Rightarrow> Inr v | JArr xs \<Rightarrow> Inr v | _ \<Rightarrow> Inl TypeError)"

definition granite_experts :: "int \<Rightarrow> int \<Rightarrow> int \<Rightarrow> (string \<times> int list) list" where
  "granite_experts width hidden experts = [(''ffn_down_exps.weight'', [hidden, width, experts]),
     (''ffn_gate_exps.weight'', [width, hidden, experts]), (''ffn_up_exps.weight'', [width, hidden, experts])]"

definition granite_expert_tensor :: "int \<Rightarrow> int \<Rightarrow> model_descriptor \<Rightarrow> jrecord \<Rightarrow> (json \<times> json) list \<Rightarrow> jrecord
    \<Rightarrow> (json \<times> json) list res" where
  "granite_expert_tensor width hidden descriptor inventory seen t =
     rbind (dict_index t ''layer_id'') (\<lambda>layer_id.
     rbind (dict_index t ''component'') (\<lambda>component.
     let expected = granite_experts width hidden (ds_expert_count descriptor);
       shape = (case component of JStr c \<Rightarrow> (case map_of expected c of Some s \<Rightarrow> JArr (map JInt s) | None \<Rightarrow> JNull)
         | _ \<Rightarrow> JNull);
       invalid = Inl (ValueError ''invalid Granite expert tensor layout'') in
     if unhashable layer_id \<or> unhashable component then Inl TypeError
     else if list_ex (\<lambda>(l, c). jeq l layer_id \<and> jeq c component) seen \<or> \<not> jeq (jget t ''shape'') shape
       \<or> jget t ''type'' \<noteq> JStr (ds_quantization descriptor) \<or> \<not> jeq (jget t ''expert_axis'') (JInt 2)
       \<or> jget t ''slice_contiguous'' \<noteq> JBool True then invalid
     else rbind (dict_index inventory ''routed_layer_ids'') (\<lambda>ids.
     rbind (py_in layer_id ids) (\<lambda>routed.
     if \<not> routed \<or> Some (jget t ''name'') \<noteq> formatted_name layer_id component
       \<or> \<not> jeq (jget t ''quant_block_elements'') (JInt 256) \<or> \<not> jeq (jget t ''quant_block_bytes'') (JInt 210)
       \<or> \<not> jeq (jget t ''bytes'') (JInt (width * hidden * ds_expert_count descriptor div 256 * 210)) then invalid
     else Inr (seen @ [(layer_id, component)])))))"

definition positive_number :: "json \<Rightarrow> bool" where
  "positive_number v = (case v of JInt n \<Rightarrow> 0 < n | JFloat x \<Rightarrow> \<not> py_le x (Fin 0) | _ \<Rightarrow> False)"

definition granite_normalize :: "(json \<Rightarrow> string) \<Rightarrow> model_descriptor \<Rightarrow> jrecord \<Rightarrow> artifact_identity \<Rightarrow> model_ir res" where
  "granite_normalize digest descriptor inventory identity =
     (if ds_family descriptor \<noteq> ''granitemoe'' \<or> ds_architecture descriptor \<noteq> ''granitemoe''
      then Inl (ValueError ''wrong family/architecture for Granite MoE adapter'')
      else if ds_quantization descriptor \<noteq> ''Q6_K''
      then Inl (ValueError ''unsupported Granite expert quantization layout'')
      else rbind (as_record (dict_get inventory ''gguf_metadata'' (JObj []))) (\<lambda>metadata.
      if jget metadata ''general.architecture'' \<noteq> JStr ''granitemoe''
      then Inl (ValueError ''Granite GGUF architecture mismatch'')
      else if \<not> jeq (jget metadata (granite_key ''expert_count'')) (JInt (ds_expert_count descriptor))
        \<or> \<not> jeq (jget metadata (granite_key ''expert_used_count'')) (JInt (ds_expert_top_k descriptor))
      then Inl (ValueError ''Granite routing metadata mismatch'')
      else if \<not> jeq (jget metadata (granite_key ''block_count'')) (jget inventory ''routed_layer_count'')
      then Inl (ValueError ''Granite block metadata mismatch'')
      else rbind (granite_complete_inventory inventory metadata identity descriptor) (\<lambda>_.
      if list_ex (\<lambda>key. \<not> positive_number (jget metadata (granite_key key)))
        [''embedding_length'', ''feed_forward_length'', ''embedding_scale'', ''logit_scale'', ''residual_scale'']
      then Inl (ValueError ''invalid Granite scaling/dimension metadata'')
      else rbind (require_int (jget metadata (granite_key ''embedding_length'')) ''Granite embedding length'' 1) (\<lambda>width.
      rbind (require_int (jget metadata (granite_key ''feed_forward_length'')) ''Granite feed forward length'' 1) (\<lambda>hidden.
      if \<not> jeq (jget inventory ''expert_component_names'')
        (JArr (map JStr (sort (map fst (granite_experts width hidden (ds_expert_count descriptor))))))
      then Inl (ValueError ''unsupported Granite expert component layout'')
      else rbind (py_iter (dict_get inventory ''tensors'' (JArr []))) (\<lambda>ts.
      rbind (rmap as_record ts) (\<lambda>rows. let tensors = filter (\<lambda>t. jget t ''routed_expert_tensor'' = JBool True) rows in
      rbind (triple (dict_get inventory ''routed_layer_count'' (JInt 0))) (\<lambda>wanted.
      if \<not> jeq (JInt (int (length tensors))) wanted then Inl (ValueError ''incomplete Granite expert tensors'')
      else rbind (rfold (granite_expert_tensor width hidden descriptor inventory) [] tensors) (\<lambda>_.
        normalize_routed_inventory digest descriptor inventory identity)))))))))"

text \<open>\<open>AdapterRegistry.with_builtins\<close>.\<close>

definition gemma_adapter :: "(json \<Rightarrow> string) \<Rightarrow> model_adapter" where
  "gemma_adapter digest = \<lparr>ad_family = ''gemma4'', ad_normalize = gemma_normalize digest\<rparr>"

definition granite_adapter :: "(json \<Rightarrow> string) \<Rightarrow> model_adapter" where
  "granite_adapter digest = \<lparr>ad_family = ''granitemoe'', ad_normalize = granite_normalize digest\<rparr>"

definition with_builtins :: "(json \<Rightarrow> string) \<Rightarrow> adapter_registry res" where
  "with_builtins digest = rbind (register (gemma_adapter digest) []) (register (granite_adapter digest))"

section \<open>Normalised models\<close>

lemma map_sort_key: "map f (sort_key f xs) = sort (map f xs)"
  by (rule properties_for_sort [symmetric]) simp_all

lemma routed_layer_ok:
  assumes "routed_layer d tensors components row = Inr l"
  shows "wf_layer l \<and> ml_expert_count l = ds_expert_count d \<and> ml_expert_top_k l = ds_expert_top_k d
    \<and> ml_expert_bundle_bytes l * ml_expert_count l = ml_routed_expert_bank_bytes l"
proof -
  from assms obtain i bun bank bs where "MoELayerIR i (JInt (ds_expert_count d)) (JInt (ds_expert_top_k d)) bun bank bs = Inr l"
    and "ml_expert_bundle_bytes l * ml_expert_count l = ml_routed_expert_bank_bytes l"
    unfolding routed_layer_def rbind_eq_Inr if_Inl_eq_Inr by (elim exE conjE) (simp split: if_splits)
  then show ?thesis using MoELayerIR_wf by fastforce
qed

definition exact_model :: "artifact_identity \<Rightarrow> model_ir \<Rightarrow> bool" where
  "exact_model identity m \<longleftrightarrow> wf_model m \<and> md_identity m = identity
     \<and> map ml_layer_id (md_moe_layers m) = map int [0..<length (md_moe_layers m)]
     \<and> (\<forall>l \<in> set (md_moe_layers m). ml_expert_bundle_bytes l * md_expert_count m = ml_routed_expert_bank_bytes l)"

lemma normalize_routed_inventory_ok:
  assumes "normalize_routed_inventory digest d inventory identity = Inr m"
  shows "exact_model identity m \<and> md_family m = ds_family d"
proof -
  from assms obtain rows layers sha where
    rows: "rmap (routed_layer d (dict_get inventory ''tensors'' (JArr [])) (jget inventory ''expert_component_names'')) rows = Inr layers"
    and ids: "sort (map ml_layer_id layers) = map int [0..<length layers]"
    and m: "ModelIR (JStr PLAN_SCHEMA) identity (JStr (ds_family d)) (JStr (ds_architecture d))
          (JStr (ds_quantization d)) (JInt (ds_expert_count d)) (JInt (ds_expert_top_k d))
          layers (JStr (ds_kv_kind d)) (JStr (ds_mtp_kind d)) (JInt 256) (JStr sha) = Inr m"
    unfolding normalize_routed_inventory_def Let_def rbind_eq_Inr if_Inl_eq_Inr by (elim exE conjE) simp
  have layers: "\<forall>l \<in> set layers. wf_layer l \<and> ml_expert_count l = ds_expert_count d
      \<and> ml_expert_bundle_bytes l * ml_expert_count l = ml_routed_expert_bank_bytes l"
    using rmap_elem [OF rows] routed_layer_ok by fastforce
  have "wf_model m" "md_moe_layers m = sort_key ml_layer_id layers" "md_identity m = identity"
    "md_expert_count m = ds_expert_count d" "md_family m = ds_family d"
    using model_normalised [OF m] layers m [unfolded ModelIR_eq_Inr] by auto
  then show ?thesis using layers ids by (auto simp: exact_model_def map_sort_key)
qed

section \<open>Placement of the tensors in the model file\<close>

text \<open>A symmetric relation between all pairs of a list does not depend on the order of the list.\<close>

lemma pairwise_mset:
  assumes "\<And>x y. P x y \<Longrightarrow> P y x"
  shows "sorted_wrt P xs \<longleftrightarrow> (\<forall>x \<in># mset xs. \<forall>y \<in># mset xs - {#x#}. P x y)"
proof (induction xs)
  case Nil
  then show ?case by simp
next
  case (Cons z xs)
  have *: "y \<in># add_mset z M - {#x#} \<longleftrightarrow> (if x = z then y \<in># M else y = z \<or> y \<in># M - {#x#})" for x y and M
    by (cases "x = z") (auto simp: diff_add_mset_swap)
  show ?case
  proof
    assume "sorted_wrt P (z # xs)"
    then show "\<forall>x \<in># mset (z # xs). \<forall>y \<in># mset (z # xs) - {#x#}. P x y"
      using Cons.IH assms by (auto simp: * split: if_splits dest: in_diffD)
  next
    assume a: "\<forall>x \<in># mset (z # xs). \<forall>y \<in># mset (z # xs) - {#x#}. P x y"
    then have "\<forall>y \<in> set xs. P z y" by simp
    moreover have "\<forall>x \<in># mset xs. \<forall>y \<in># mset xs - {#x#}. P x y"
    proof (intro ballI)
      fix x y assume x: "x \<in># mset xs" and y: "y \<in># mset xs - {#x#}"
      then have "y \<in># mset (z # xs) - {#x#}" by (auto simp: * dest: in_diffD)
      then show "P x y" using a x by auto
    qed
    ultimately show "sorted_wrt P (z # xs)" using Cons.IH by simp
  qed
qed

definition apart :: "int \<times> int \<Rightarrow> int \<times> int \<Rightarrow> bool" where
  "apart a b \<longleftrightarrow> snd a \<le> fst b \<or> snd b \<le> fst a"

lemma sorted_intervals:
  assumes "\<not> overlapping ivs" and "\<forall>a \<in> set ivs. fst a \<le> snd a"
  shows "sorted_wrt (\<lambda>a b. snd a \<le> fst b) ivs"
  using assms
proof (induction ivs)
  case Nil
  then show ?case by simp
next
  case (Cons a ivs)
  show ?case
  proof (cases ivs)
    case Nil
    then show ?thesis by simp
  next
    case (Cons b rest)
    with Cons.prems have ab: "snd a \<le> fst b" and r: "\<not> overlapping ivs" by (auto simp: overlapping_def)
    from Cons.IH [OF r] Cons.prems have s: "sorted_wrt (\<lambda>a b. snd a \<le> fst b) ivs" by simp
    have "snd a \<le> fst c" if "c \<in> set ivs" for c
      using that s ab Cons.prems(2) \<open>ivs = b # rest\<close> by fastforce
    with s show ?thesis by simp
  qed
qed

lemma intervals_apart:
  assumes "\<not> overlapping (sort ivs)" and "\<forall>a \<in> set ivs. fst a \<le> snd a"
  shows "sorted_wrt apart ivs"
proof -
  have "sorted_wrt (\<lambda>a b. snd a \<le> fst b) (sort ivs)" using assms by (intro sorted_intervals) auto
  then have "sorted_wrt apart (sort ivs)" by (rule sorted_wrt_mono_rel [rotated]) (simp add: apart_def)
  then show ?thesis
    using pairwise_mset [of apart "sort ivs"] pairwise_mset [of apart ivs] by (auto simp: apart_def)
qed

lemma sorted_intervals_total:
  assumes "sorted_wrt (\<lambda>a b. snd a \<le> fst b) ivs" and "\<forall>a \<in> set ivs. n \<le> fst a \<and> fst a \<le> snd a \<and> snd a \<le> (m :: int)" "n \<le> m"
  shows "sum_list (map (\<lambda>a. snd a - fst a) ivs) \<le> m - n"
  using assms
proof (induction ivs arbitrary: n)
  case Nil
  then show ?case by simp
next
  case (Cons a ivs)
  then have "sum_list (map (\<lambda>a. snd a - fst a) ivs) \<le> m - snd a" by (intro Cons.IH) auto
  with Cons.prems show ?case by fastforce
qed

lemma intervals_total:
  assumes "\<not> overlapping (sort ivs)" and "\<forall>a \<in> set ivs. 0 \<le> fst a \<and> fst a \<le> snd a \<and> snd a \<le> m" and "0 \<le> m"
  shows "sum_list (map (\<lambda>a. snd a - fst a) ivs) \<le> m"
proof -
  have "sorted_wrt (\<lambda>a b. snd a \<le> fst b) (sort ivs)" using assms by (intro sorted_intervals) auto
  then have "sum_list (map (\<lambda>a. snd a - fst a) (sort ivs)) \<le> m - 0" using assms by (intro sorted_intervals_total) auto
  moreover have "mset (map (\<lambda>a. snd a - fst a) (sort ivs)) = mset (map (\<lambda>a. snd a - fst a) ivs)" by simp
  then have "sum_list (map (\<lambda>a. snd a - fst a) (sort ivs)) = sum_list (map (\<lambda>a. snd a - fst a) ivs)"
    by (metis sum_mset_sum_list)
  ultimately show ?thesis by simp
qed

text \<open>
  What an entry of the inventory's list of tensors says: its name, where its payload starts in the
  file and how many bytes it has, which are those of the shape and type the plan gives that name.
\<close>

definition tensor_bytes :: "int list \<Rightarrow> string \<Rightarrow> int" where
  "tensor_bytes shape kind = (if kind = ''Q6_K'' then prod_list shape div 256 * 210 else prod_list shape * 4)"

definition granite_entry :: "(string \<times> int list \<times> string) list \<Rightarrow> json \<Rightarrow> string \<times> int \<times> int \<Rightarrow> bool" where
  "granite_entry expected v = (\<lambda>(name, first, nbytes). case v of JObj t \<Rightarrow>
       jget t ''name'' = JStr name \<and> jget t ''data_offset'' = JInt first \<and> jeq (jget t ''bytes'') (JInt nbytes)
       \<and> (case map_of expected name of None \<Rightarrow> False | Some (shape, kind) \<Rightarrow>
            jeq (jget t ''shape'') (JArr (map JInt shape)) \<and> jget t ''type'' = JStr kind \<and> nbytes = tensor_bytes shape kind)
     | _ \<Rightarrow> False)"

abbreviation entry_interval :: "string \<times> int \<times> int \<Rightarrow> int \<times> int" where
  "entry_interval \<equiv> \<lambda>(name, first, nbytes). (first, first + nbytes)"

abbreviation entry_bytes :: "string \<times> int \<times> int \<Rightarrow> int" where
  "entry_bytes \<equiv> \<lambda>(name, first, nbytes). nbytes"

abbreviation entry_routed :: "string \<times> int \<times> int \<Rightarrow> bool" where
  "entry_routed \<equiv> \<lambda>(name, first, nbytes). contains ''_exps.weight'' name"

abbreviation entry_fits :: "int \<Rightarrow> string \<times> int \<times> int \<Rightarrow> bool" where
  "entry_fits limit \<equiv> \<lambda>(name, first, nbytes). 0 \<le> first \<and> first mod 32 = 0 \<and> 0 \<le> nbytes \<and> first + nbytes \<le> limit"

text \<open>One step of the loop reads one entry and records it.\<close>

lemma granite_tensor_ok:
  assumes step: "granite_tensor expected identity s v = Inr s'"
    and shapes: "\<forall>(name, shape, kind) \<in> set expected. \<forall>n \<in> set shape. 0 \<le> n"
  shows "\<exists>e. granite_entry expected v e \<and> entry_fits (ai_size_bytes identity) e \<and> fst e \<notin> set (gs_seen s)
    \<and> s' = \<lparr>gs_seen = gs_seen s @ [fst e], gs_intervals = gs_intervals s @ [entry_interval e],
        gs_total = gs_total s + entry_bytes e, gs_routed_total = gs_routed_total s + (if entry_routed e then entry_bytes e else 0)\<rparr>"
proof -
  obtain t where t: "as_record v = Inr t" using step by (auto simp: granite_tensor_def rbind_eq_Inr)
  with step obtain name where name: "jget t ''name'' = JStr name"
    by (auto simp: granite_tensor_def split: json.splits)
  with step t obtain shape kind where e: "map_of expected name = Some (shape, kind)"
    by (auto simp: granite_tensor_def split: option.splits)
  define block bsize :: int where "block = (if kind = ''Q6_K'' then 256 else 1)" and "bsize = (if kind = ''Q6_K'' then 210 else 4)"
  define nbytes where "nbytes = prod_list shape div block * bsize"
  have pair: "(if kind = ''Q6_K'' then (256, 210) else (1, 4)) = (block, bsize)" by (simp add: block_def bsize_def)
  define routed where "routed = contains ''_exps.weight'' name"
  obtain offset where o: "0 \<le> offset" "offset mod 32 = 0" "offset + nbytes \<le> ai_size_bytes identity" "name \<notin> set (gs_seen s)"
    and read: "jget t ''data_offset'' = JInt offset" "jeq (jget t ''bytes'') (JInt nbytes)"
      "jeq (jget t ''shape'') (JArr (map JInt shape))" "jget t ''type'' = JStr kind"
    and out: "\<lparr>gs_seen = gs_seen s @ [name], gs_intervals = gs_intervals s @ [(offset, offset + nbytes)],
      gs_total = gs_total s + nbytes, gs_routed_total = gs_routed_total s + (if routed then nbytes else 0)\<rparr> = s'"
    using step unfolding granite_tensor_def t rbind_Inr name json.case e option.case prod.case pair Let_def
      if_Inl_eq_Inr rbind_eq_Inr require_int_ok nbytes_def [symmetric] routed_def [symmetric]
    by (elim exE conjE, intro that, simp_all)
  have "\<forall>n \<in> set shape. 0 \<le> n" using shapes map_of_SomeD [OF e] by auto
  then have "0 \<le> prod_list shape" by (induction shape) auto
  then have "0 \<le> nbytes" by (auto simp: nbytes_def block_def bsize_def intro: pos_imp_zdiv_nonneg_iff [THEN iffD2])
  moreover have "v = JObj t" using t by (simp add: as_record_def split: json.splits)
  moreover have "nbytes = tensor_bytes shape kind" by (simp add: nbytes_def block_def bsize_def tensor_bytes_def)
  ultimately show ?thesis using o read e name
    by (intro exI [of _ "(name, offset, nbytes)"]) (simp add: granite_entry_def out [symmetric] routed_def)
qed

lemma granite_tensors_ok:
  assumes "rfold (granite_tensor expected identity) s ts = Inr s'" and "distinct (gs_seen s)"
    and "\<forall>(name, shape, kind) \<in> set expected. \<forall>n \<in> set shape. 0 \<le> n"
  shows "\<exists>es. list_all2 (granite_entry expected) ts es \<and> list_all (entry_fits (ai_size_bytes identity)) es
    \<and> distinct (gs_seen s @ map fst es)
    \<and> s' = \<lparr>gs_seen = gs_seen s @ map fst es, gs_intervals = gs_intervals s @ map entry_interval es,
        gs_total = gs_total s + sum_list (map entry_bytes es),
        gs_routed_total = gs_routed_total s + sum_list (map entry_bytes (filter entry_routed es))\<rparr>"
  using assms
proof (induction ts arbitrary: s)
  case Nil
  then show ?case by simp
next
  case (Cons v ts)
  then obtain s1 where s1: "granite_tensor expected identity s v = Inr s1"
    "rfold (granite_tensor expected identity) s1 ts = Inr s'" by (auto simp: rbind_eq_Inr)
  obtain e where e: "granite_entry expected v e" "entry_fits (ai_size_bytes identity) e" "fst e \<notin> set (gs_seen s)"
    and s1': "s1 = \<lparr>gs_seen = gs_seen s @ [fst e], gs_intervals = gs_intervals s @ [entry_interval e],
        gs_total = gs_total s + entry_bytes e, gs_routed_total = gs_routed_total s + (if entry_routed e then entry_bytes e else 0)\<rparr>"
    using granite_tensor_ok [OF s1(1) Cons.prems(3)] by (elim exE conjE)
  have "distinct (gs_seen s1)" using Cons.prems(2) e(3) by (simp add: s1')
  from Cons.IH [OF s1(2) this Cons.prems(3)] obtain es where
    es: "list_all2 (granite_entry expected) ts es" "list_all (entry_fits (ai_size_bytes identity)) es"
      "distinct (gs_seen s1 @ map fst es)"
    and s': "s' = \<lparr>gs_seen = gs_seen s1 @ map fst es, gs_intervals = gs_intervals s1 @ map entry_interval es,
        gs_total = gs_total s1 + sum_list (map entry_bytes es),
        gs_routed_total = gs_routed_total s1 + sum_list (map entry_bytes (filter entry_routed es))\<rparr>"
    by (elim exE conjE)
  show ?case
  proof (intro exI [of _ "e # es"] conjI)
    show "list_all2 (granite_entry expected) (v # ts) (e # es)" using e es by simp
    show "list_all (entry_fits (ai_size_bytes identity)) (e # es)" using e es by simp
    show "distinct (gs_seen s @ map fst (e # es))" using es(3) by (auto simp: s1')
    show "s' = \<lparr>gs_seen = gs_seen s @ map fst (e # es), gs_intervals = gs_intervals s @ map entry_interval (e # es),
        gs_total = gs_total s + sum_list (map entry_bytes (e # es)),
        gs_routed_total = gs_routed_total s + sum_list (map entry_bytes (filter entry_routed (e # es)))\<rparr>"
      by (simp add: s' s1')
  qed
qed

lemma granite_expected_shapes:
  assumes "0 \<le> width" "0 \<le> hidden" "0 \<le> kv_width" "0 \<le> experts" "0 \<le> vocab"
  shows "\<forall>(name, shape, kind) \<in> set (granite_expected width hidden kv_width experts vocab blocks). \<forall>n \<in> set shape. 0 \<le> n"
  using assms by (auto simp: granite_expected_def granite_components_def)

lemma granite_expected_names:
  "block_tensor layer component \<in> fst ` set (granite_expected width hidden kv_width experts vocab blocks)"
  if "0 \<le> layer" "layer < blocks" "component \<in> fst ` set (granite_components a b c d)"
proof -
  have "fst ` set (granite_components a b c d) = fst ` set (granite_components width hidden kv_width experts)"
    by (simp add: granite_components_def)
  with that(3) have "component \<in> fst ` set (granite_components width hidden kv_width experts)" by simp
  then obtain v where v: "(component, v) \<in> set (granite_components width hidden kv_width experts)"
    by (elim imageE) (metis prod.collapse)
  let ?f = "\<lambda>layer. map (\<lambda>(name, v). (block_tensor layer name, v)) (granite_components width hidden kv_width experts)"
  have "(block_tensor layer component, v) \<in> set (?f layer)"
    unfolding set_map using v by (rule rev_image_eqI) simp
  moreover have "layer \<in> set [0..blocks - 1]" using that(1,2) by simp
  ultimately have "(block_tensor layer component, v) \<in> (\<Union>l \<in> set [0..blocks - 1]. set (?f l))" by (intro UN_I)
  then have "(block_tensor layer component, v) \<in> set (concat (map ?f [0..blocks - 1]))"
    by (simp only: set_concat set_map image_image)
  then have "(block_tensor layer component, v) \<in> set (granite_expected width hidden kv_width experts vocab blocks)"
    unfolding granite_expected_def set_append by (rule UnI2)
  then show ?thesis by (rule rev_image_eqI) simp
qed

lemma entries_cover_plan:
  assumes "list_all2 (granite_entry plan) ts es" and "distinct (map fst es)" and "length ts = length plan"
  shows "fst ` set es = fst ` set plan"
proof -
  have named: "fst e \<in> fst ` set plan" if "granite_entry plan v e" for v e
  proof -
    obtain name first nbytes where e: "e = (name, first, nbytes)" by (cases e)
    have "map_of plan name \<noteq> None" using that unfolding granite_entry_def e by (auto split: json.splits option.splits)
    then show ?thesis by (simp add: e map_of_eq_None_iff)
  qed
  have "fst e \<in> fst ` set plan" if "e \<in> set es" for e
    using assms(1) that named by (metis in_set_conv_nth list_all2_conv_all_nth)
  then have "set (map fst es) \<subseteq> fst ` set plan" unfolding set_map by (rule image_subsetI)
  moreover have "card (set (map fst es)) = length plan" using assms by (simp add: distinct_card list_all2_lengthD del: set_map)
  moreover have "card (fst ` set plan) \<le> length plan" by (metis card_length list.set_map length_map)
  ultimately have "set (map fst es) = fst ` set plan" by (intro card_seteq) auto
  then show ?thesis by simp
qed

text \<open>The tensors a model with the dimensions of the metadata has.\<close>

definition granite_plan :: "jrecord \<Rightarrow> int \<Rightarrow> (string \<times> int list \<times> string) list" where
  "granite_plan metadata experts = (let dim = (\<lambda>key. the_int (jget metadata (granite_key key))) in
     granite_expected (dim ''embedding_length'') (dim ''feed_forward_length'')
       (dim ''embedding_length'' div dim ''attention.head_count'' * dim ''attention.head_count_kv'') experts
       (dim ''vocab_size'') (dim ''block_count''))"

lemma granite_plan_blocks:
  assumes "jget metadata (granite_key ''block_count'') = JInt blocks" and "0 \<le> layer" "layer < blocks"
    and "component \<in> fst ` set (granite_components a b c d)"
  shows "block_tensor layer component \<in> fst ` set (granite_plan metadata experts)"
  using assms by (simp add: granite_plan_def Let_def the_int_def granite_expected_names)

text \<open>The run of the loop when the inventory is accepted.\<close>

lemma granite_complete_scan:
  assumes accepted: "granite_complete_inventory inventory metadata identity d = Inr s" and count: "0 \<le> ds_expert_count d"
  shows "\<exists>ts. jget inventory ''tensors'' = JArr ts \<and> length ts = length (granite_plan metadata (ds_expert_count d))
    \<and> rfold (granite_tensor (granite_plan metadata (ds_expert_count d)) identity)
        \<lparr>gs_seen = [], gs_intervals = [], gs_total = 0, gs_routed_total = 0\<rparr> ts = Inr s
    \<and> (\<forall>(name, shape, kind) \<in> set (granite_plan metadata (ds_expert_count d)). \<forall>n \<in> set shape. 0 \<le> n)
    \<and> \<not> overlapping (sort (gs_intervals s)) \<and> 1 \<le> ai_size_bytes identity
    \<and> jeq (jget inventory ''total_tensor_payload_bytes'') (JInt (gs_total s))
    \<and> jeq (jget inventory ''total_routed_expert_bank_bytes'') (JInt (gs_routed_total s))
    \<and> jeq (jget inventory ''non_expert_tensor_bytes'') (JInt (gs_total s - gs_routed_total s))"
proof -
  have *: "(case jget inventory ''model'' of JObj p \<Rightarrow> f p | _ \<Rightarrow> Inl e) = Inr s \<longleftrightarrow>
      (\<exists>p. jget inventory ''model'' = JObj p \<and> f p = Inr s)" for f :: "jrecord \<Rightarrow> granite_scan res" and e
    by (cases "jget inventory ''model''") auto
  have count_ok: "tensor_count_ok inventory v n = Inr True \<Longrightarrow> py_len v = Inr n" for v n
    by (auto simp: tensor_count_ok_def rbind_eq_Inr if_Inl_eq_Inr split: if_splits)
  from accepted obtain declared p dims width hidden heads kv_heads ts where
    declared: "ArtifactIdentity (jget p ''path'') (jget p ''bytes'') (jget p ''sha256'') = Inr declared"
      "ai_size_bytes declared = ai_size_bytes identity"
    and dims: "rmap (\<lambda>key. rbind (require_int (jget metadata (granite_key key)) (''Granite '' @ key) 1) (\<lambda>n. Inr (key, n)))
        granite_dimension_keys = Inr dims"
    and w: "width = dict_get dims ''embedding_length'' 0" "hidden = dict_get dims ''feed_forward_length'' 0"
      "heads = dict_get dims ''attention.head_count'' 0" "kv_heads = dict_get dims ''attention.head_count_kv'' 0"
    and ts: "py_iter (dict_get inventory ''tensors'' (JArr [])) = Inr ts"
    and len: "py_len (dict_get inventory ''tensors'' (JArr [])) = Inr (int (length (granite_expected width hidden
        (width div heads * kv_heads) (ds_expert_count d) (dict_get dims ''vocab_size'' 0) (dict_get dims ''block_count'' 0))))"
    and run: "rfold (granite_tensor (granite_expected width hidden (width div heads * kv_heads) (ds_expert_count d)
        (dict_get dims ''vocab_size'' 0) (dict_get dims ''block_count'' 0)) identity)
        \<lparr>gs_seen = [], gs_intervals = [], gs_total = 0, gs_routed_total = 0\<rparr> ts = Inr s"
    and o: "\<not> overlapping (sort (gs_intervals s))"
    and totals: "jeq (jget inventory ''total_tensor_payload_bytes'') (JInt (gs_total s))"
      "jeq (jget inventory ''total_routed_expert_bank_bytes'') (JInt (gs_routed_total s))"
      "jeq (jget inventory ''non_expert_tensor_bytes'') (JInt (gs_total s - gs_routed_total s))"
    unfolding granite_complete_inventory_def * Let_def rbind_eq_Inr if_Inl_eq_Inr
    by (elim exE conjE) (simp add: count_ok)
  let ?m = "\<lambda>key. jget metadata (granite_key key)"
  obtain n1 n2 n3 n4 n5 n6 n7 n8 where ns: "dims = zip granite_dimension_keys [n1, n2, n3, n4, n5, n6, n7, n8]"
    "\<forall>n \<in> {n1, n2, n3, n4, n5, n6, n7, n8}. 1 \<le> n"
    and m: "?m ''embedding_length'' = JInt n1" "?m ''feed_forward_length'' = JInt n2" "?m ''block_count'' = JInt n3"
      "?m ''vocab_size'' = JInt n4" "?m ''attention.head_count'' = JInt n6" "?m ''attention.head_count_kv'' = JInt n7"
    using dims by (auto simp: granite_dimension_keys_def rbind_eq_Inr require_simps)
  then have n: "width = n1" "hidden = n2" "heads = n6" "kv_heads = n7" "dict_get dims ''vocab_size'' 0 = n4"
    "dict_get dims ''block_count'' 0 = n3"
    by (simp_all add: w granite_dimension_keys_def dict_get_def)
  define expected where "expected = granite_plan metadata (ds_expert_count d)"
  have expected: "granite_expected n1 n2 (n1 div n6 * n7) (ds_expert_count d) n4 n3 = expected"
    by (simp add: expected_def granite_plan_def Let_def m the_int_def)
  note run = run [unfolded n expected]
  have length: "length ts = length expected" using ts len
    by (auto simp: py_iter_def py_len_def n expected split: json.splits)
  have "0 \<le> n1 div n6 * n7" using ns(2) by (simp add: pos_imp_zdiv_nonneg_iff)
  then have shapes: "\<forall>(name, shape, kind) \<in> set expected. \<forall>n \<in> set shape. 0 \<le> n"
    unfolding expected [symmetric] using ns(2) count by (intro granite_expected_shapes) auto
  have "expected \<noteq> []" by (simp add: expected [symmetric] granite_expected_def)
  then obtain v vs where "ts = v # vs" using length by (cases ts) auto
  moreover obtain t where "as_record v = Inr t" using run \<open>ts = v # vs\<close> by (auto simp: granite_tensor_def rbind_eq_Inr)
  then have "\<nexists>s. v = JStr s" by (auto simp: as_record_def)
  ultimately have "dict_get inventory ''tensors'' (JArr []) = JArr ts"
    using ts by (auto simp: py_iter_def split: json.splits)
  then have "jget inventory ''tensors'' = JArr ts"
    using \<open>ts = v # vs\<close> by (auto simp: jget_def dict_get_def split: option.splits)
  moreover have "1 \<le> ai_size_bytes identity" using declared by (auto simp: ArtifactIdentity_def rbind_eq_Inr require_simps)
  ultimately show ?thesis unfolding expected_def [symmetric]
    by (intro exI [of _ ts] conjI length run shapes o totals)
qed

text \<open>
  C37. An accepted Granite inventory describes a model file that can hold it. Each entry of its list
  of tensors names a tensor of the model with the dimensions of the metadata, with that tensor's
  shape, type and byte count; no tensor is missing or listed twice, so every component of every
  block is there. The payload of an entry starts at the entry's \<open>data_offset\<close>, which is aligned, lies
  in the file and shares no byte with the payload of another entry, so all payloads together are no
  larger than the file. The totals the inventory declares for all, the routed and the other tensors
  are the sums over the entries.
\<close>

theorem granite_tensors_fit:
  assumes "granite_complete_inventory inventory metadata identity d = Inr s" and "0 \<le> ds_expert_count d"
  shows "\<exists>tensors entries. jget inventory ''tensors'' = JArr tensors
    \<and> list_all2 (granite_entry (granite_plan metadata (ds_expert_count d))) tensors entries
    \<and> distinct (map fst entries) \<and> fst ` set entries = fst ` set (granite_plan metadata (ds_expert_count d))
    \<and> (\<forall>layer blocks component. jget metadata (granite_key ''block_count'') = JInt blocks \<longrightarrow> 0 \<le> layer \<longrightarrow> layer < blocks
        \<longrightarrow> component \<in> fst ` set (granite_components a b c e) \<longrightarrow> block_tensor layer component \<in> fst ` set entries)
    \<and> (\<forall>(name, first, nbytes) \<in> set entries. 0 \<le> first \<and> first mod 32 = 0 \<and> 0 \<le> nbytes
        \<and> first + nbytes \<le> ai_size_bytes identity)
    \<and> sorted_wrt (\<lambda>(name1, first1, nbytes1) (name2, first2, nbytes2). first1 + nbytes1 \<le> first2 \<or> first2 + nbytes2 \<le> first1) entries
    \<and> sum_list (map (snd \<circ> snd) entries) \<le> ai_size_bytes identity
    \<and> jeq (jget inventory ''total_tensor_payload_bytes'') (JInt (sum_list (map (snd \<circ> snd) entries)))
    \<and> jeq (jget inventory ''total_routed_expert_bank_bytes'')
        (JInt (sum_list (map (snd \<circ> snd) (filter (\<lambda>e. contains ''_exps.weight'' (fst e)) entries))))
    \<and> jeq (jget inventory ''non_expert_tensor_bytes'')
        (JInt (sum_list (map (snd \<circ> snd) (filter (\<lambda>e. \<not> contains ''_exps.weight'' (fst e)) entries))))"
proof -
  define plan where "plan = granite_plan metadata (ds_expert_count d)"
  obtain ts where ts: "jget inventory ''tensors'' = JArr ts" "length ts = length plan"
    and run: "rfold (granite_tensor plan identity) \<lparr>gs_seen = [], gs_intervals = [], gs_total = 0, gs_routed_total = 0\<rparr> ts = Inr s"
    and shapes: "\<forall>(name, shape, kind) \<in> set plan. \<forall>n \<in> set shape. 0 \<le> n"
    and free: "\<not> overlapping (sort (gs_intervals s))" and limit: "1 \<le> ai_size_bytes identity"
    and totals: "jeq (jget inventory ''total_tensor_payload_bytes'') (JInt (gs_total s))"
      "jeq (jget inventory ''total_routed_expert_bank_bytes'') (JInt (gs_routed_total s))"
      "jeq (jget inventory ''non_expert_tensor_bytes'') (JInt (gs_total s - gs_routed_total s))"
    using granite_complete_scan [OF assms] unfolding plan_def [symmetric] by (elim exE conjE) (rule that)
  from granite_tensors_ok [OF run _ shapes] obtain es where
    es: "list_all2 (granite_entry plan) ts es" "list_all (entry_fits (ai_size_bytes identity)) es" "distinct (map fst es)"
    and s: "gs_intervals s = map entry_interval es" "gs_total s = sum_list (map entry_bytes es)"
      "gs_routed_total s = sum_list (map entry_bytes (filter entry_routed es))" by auto
  have names: "fst ` set es = fst ` set plan" by (rule entries_cover_plan [OF es(1,3) ts(2)])
  have fits: "\<forall>(name, first, nbytes) \<in> set es. 0 \<le> first \<and> first mod 32 = 0 \<and> 0 \<le> nbytes
        \<and> first + nbytes \<le> ai_size_bytes identity" using es(2) by (auto simp: list_all_iff)
  have bytes: "entry_bytes = snd \<circ> snd" and routed: "entry_routed = (\<lambda>e. contains ''_exps.weight'' (fst e))" by auto
  have widths: "map (\<lambda>a. snd a - fst a) (map entry_interval es) = map (snd \<circ> snd) es" by auto
  have ivs: "\<forall>a \<in> set (gs_intervals s). 0 \<le> fst a \<and> fst a \<le> snd a \<and> snd a \<le> ai_size_bytes identity"
    using fits by (auto simp: s)
  then have "sorted_wrt apart (gs_intervals s)" by (intro intervals_apart free) auto
  then have apart: "sorted_wrt (\<lambda>(name1, first1, nbytes1) (name2, first2, nbytes2).
      first1 + nbytes1 \<le> first2 \<or> first2 + nbytes2 \<le> first1) es"
    unfolding s sorted_wrt_map by (rule sorted_wrt_mono_rel [rotated]) (auto simp: apart_def)
  have "sum_list (map (\<lambda>a. snd a - fst a) (gs_intervals s)) \<le> ai_size_bytes identity"
    using limit by (intro intervals_total free ivs) simp
  then have total_fits: "sum_list (map (snd \<circ> snd) es) \<le> ai_size_bytes identity" unfolding s widths .
  have "sum_list (map (snd \<circ> snd) es) = sum_list (map (snd \<circ> snd) (filter P es))
      + sum_list (map (snd \<circ> snd) (filter (\<lambda>e. \<not> P e) es))" for P by (induction es) auto
  then have rest: "gs_total s - gs_routed_total s
      = sum_list (map (snd \<circ> snd) (filter (\<lambda>e. \<not> contains ''_exps.weight'' (fst e)) es))"
    unfolding s bytes routed by (metis add_diff_cancel_left')
  have blocks: "\<forall>layer blocks component. jget metadata (granite_key ''block_count'') = JInt blocks \<longrightarrow> 0 \<le> layer
      \<longrightarrow> layer < blocks \<longrightarrow> component \<in> fst ` set (granite_components a b c e)
      \<longrightarrow> block_tensor layer component \<in> fst ` set es"
    unfolding names plan_def using granite_plan_blocks by blast
  show ?thesis unfolding plan_def [symmetric]
    using totals unfolding rest unfolding s bytes routed
    by (intro exI [of _ ts] exI [of _ es] conjI ts es names blocks fits apart total_fits)
qed

section \<open>Registry\<close>

lemma builtin_cases:
  assumes "with_builtins digest = Inr r" and "resolve_adapter family r = Inr a"
  shows "family = ''gemma4'' \<and> a = gemma_adapter digest \<or> family = ''granitemoe'' \<and> a = granite_adapter digest"
  using assms by (auto simp: with_builtins_def register_def resolve_adapter_def gemma_adapter_def granite_adapter_def
      split: if_splits)

lemma granite_normalize_ok:
  assumes "granite_normalize digest d inventory identity = Inr m"
  shows "normalize_routed_inventory digest d inventory identity = Inr m \<and> ds_family d = ''granitemoe''
    \<and> (\<exists>metadata s. granite_complete_inventory inventory metadata identity d = Inr s)"
  using assms unfolding granite_normalize_def Let_def rbind_eq_Inr if_Inl_eq_Inr by (elim exE conjE) auto

text \<open>
  Whatever inventory a built-in adapter accepts, the model it returns belongs to the family the
  adapter was resolved for and to the given file, is well-formed, has exactly the layers
  \<open>0 .. n - 1\<close>, and the expert bank of each layer is the whole number of expert bundles its experts
  need.
\<close>

theorem builtin_adapters_exact:
  assumes "with_builtins digest = Inr r" and "resolve_adapter family r = Inr a"
    and "ad_normalize a d inventory identity = Inr m"
  shows "md_family m = family \<and> exact_model identity m"
  using builtin_cases [OF assms(1,2)]
proof
  assume a: "family = ''gemma4'' \<and> a = gemma_adapter digest"
  then have "normalize_routed_inventory digest d inventory identity = Inr m" "ds_family d = ''gemma4''"
    using assms(3) by (simp_all add: gemma_adapter_def gemma_normalize_def split: if_splits)
  then show ?thesis using a normalize_routed_inventory_ok by auto
next
  assume "family = ''granitemoe'' \<and> a = granite_adapter digest"
  then have "granite_normalize digest d inventory identity = Inr m" "family = ''granitemoe''"
    using assms(3) by (simp_all add: granite_adapter_def)
  then show ?thesis using granite_normalize_ok normalize_routed_inventory_ok by metis
qed

section \<open>An example model\<close>

definition example_granite_digest :: "json \<Rightarrow> string" where
  "example_granite_digest v = replicate 64 CHR ''0''"

definition example_granite :: model_descriptor where
  "example_granite = \<lparr>ds_family = ''granitemoe'', ds_architecture = ''granitemoe'', ds_quantization = ''Q6_K'',
     ds_expert_count = 1, ds_expert_top_k = 1, ds_kv_kind = ''full'', ds_mtp_kind = ''none''\<rparr>"

definition example_granite_file :: artifact_identity where
  "example_granite_file = \<lparr>ai_path = ''m.gguf'', ai_size_bytes = 400000, ai_sha256 = replicate 64 CHR ''0''\<rparr>"

definition example_granite_metadata :: jrecord where
  "example_granite_metadata = (''general.architecture'', JStr ''granitemoe'') # map (\<lambda>(k, n). (granite_key k, JInt n))
     ([(''expert_count'', 1), (''expert_used_count'', 1), (''embedding_length'', 256), (''feed_forward_length'', 256),
       (''rope.dimension_count'', 256)] @ map (\<lambda>k. (k, 1)) [''block_count'', ''vocab_size'', ''context_length'',
       ''attention.head_count'', ''attention.head_count_kv'', ''embedding_scale'', ''logit_scale'', ''residual_scale'',
       ''attention.scale'', ''attention.layer_norm_rms_epsilon'', ''rope.freq_base''])"

definition example_granite_tensor :: "string \<times> int list \<times> string \<times> int \<times> int \<times> bool \<Rightarrow> json" where
  "example_granite_tensor = (\<lambda>(component, shape, kind, offset, nbytes, routed). JObj
     ([(''name'', JStr (if component = ''output_norm.weight'' \<or> component = ''token_embd.weight'' then component
         else ''blk.0.'' @ component)),
       (''shape'', JArr (map JInt shape)), (''type'', JStr kind),
       (''quant_block_elements'', JInt (if kind = ''Q6_K'' then 256 else 1)),
       (''quant_block_bytes'', JInt (if kind = ''Q6_K'' then 210 else 4)),
       (''data_offset'', JInt offset), (''bytes'', JInt nbytes), (''routed_expert_tensor'', JBool routed),
       (''slice_contiguous'', JBool True)]
      @ (if routed then [(''layer_id'', JInt 0), (''component'', JStr component), (''expert_axis'', JInt 2)] else [])))"

definition example_granite_inventory :: jrecord where
  "example_granite_inventory = (let experts = JArr [JStr ''ffn_down_exps.weight'', JStr ''ffn_gate_exps.weight'', JStr ''ffn_up_exps.weight''] in
     [(''schema_version'', JStr ''1.0.0''), (''measurement_kind'', JStr ''gguf_metadata_derived''),
      (''model'', JObj [(''path'', JStr ''m.gguf''), (''bytes'', JInt 400000), (''sha256'', JStr (replicate 64 CHR ''0'')),
        (''repository'', JStr ''r''), (''revision'', JStr ''v'')]),
      (''gguf_metadata'', JObj example_granite_metadata), (''component_sets_consistent'', JBool True), (''expert_count'', JInt 1),
      (''expert_component_names'', experts), (''routed_layer_count'', JInt 1), (''routed_layer_ids'', JArr [JInt 0]),
      (''layers'', JArr [JObj [(''layer_id'', JInt 0), (''components'', experts),
        (''complete_expert_bundle_bytes'', JInt 161280), (''routed_expert_bank_bytes'', JInt 161280)]]),
      (''tensor_count'', JInt 12), (''total_tensor_payload_bytes'', JInt 380626),
      (''total_routed_expert_bank_bytes'', JInt 161280), (''non_expert_tensor_bytes'', JInt 219346),
      (''tensors'', JArr (map example_granite_tensor
        [(''output_norm.weight'', [256], ''F32'', 0, 1024, False), (''token_embd.weight'', [256, 1], ''Q6_K'', 1024, 210, False),
         (''attn_k.weight'', [256, 256], ''Q6_K'', 1248, 53760, False), (''attn_v.weight'', [256, 256], ''Q6_K'', 55008, 53760, False),
         (''attn_q.weight'', [256, 256], ''Q6_K'', 108768, 53760, False),
         (''attn_output.weight'', [256, 256], ''Q6_K'', 162528, 53760, False),
         (''attn_norm.weight'', [256], ''F32'', 216288, 1024, False), (''ffn_norm.weight'', [256], ''F32'', 217312, 1024, False),
         (''ffn_gate_inp.weight'', [256, 1], ''F32'', 218336, 1024, False),
         (''ffn_down_exps.weight'', [256, 256, 1], ''Q6_K'', 219360, 53760, True),
         (''ffn_gate_exps.weight'', [256, 256, 1], ''Q6_K'', 273120, 53760, True),
         (''ffn_up_exps.weight'', [256, 256, 1], ''Q6_K'', 326880, 53760, True)]))])"

lemma valid_number_TINY: "valid_number (JInt 1) TINY"
proof -
  have "TINY \<le> dbl 1" unfolding TINY_def by (rule dbl_mono) simp
  moreover have "TINY \<noteq> NaN" by (simp add: TINY_def)
  ultimately show ?thesis using float_of_int_finite [of 1] by (auto simp: valid_number_def py_le_def is_ok_iff)
qed

lemma example_granite_scales:
  "rmap (\<lambda>key. require_number (jget example_granite_metadata (granite_key key)) (''Granite '' @ key) TINY) granite_scale_keys
    = Inr (replicate 6 (JInt 1))"
proof -
  have "list_all (\<lambda>key. jget example_granite_metadata (granite_key key) = JInt 1) granite_scale_keys" by code_simp
  then have "rmap (\<lambda>key. require_number (jget example_granite_metadata (granite_key key)) (''Granite '' @ key) TINY) granite_scale_keys
      = Inr (map (\<lambda>_. JInt 1) granite_scale_keys)"
    by (intro rmap_all_ok) (auto simp: list_all_iff require_number_def valid_number_TINY)
  also have "map (\<lambda>_. JInt 1) granite_scale_keys = replicate 6 (JInt 1)" by code_simp
  finally show ?thesis .
qed

definition example_granite_plan :: "(string \<times> int list \<times> string) list" where
  "example_granite_plan = granite_expected 256 256 256 1 1 1"

lemma example_granite_loop: "is_ok (rbind (py_iter (dict_get example_granite_inventory ''tensors'' (JArr []))) (\<lambda>ts.
  rbind (rfold (granite_tensor example_granite_plan example_granite_file)
          \<lparr>gs_seen = [], gs_intervals = [], gs_total = 0, gs_routed_total = 0\<rparr> ts) (\<lambda>s.
        if overlapping (sort (gs_intervals s)) then Inl (ValueError ''overlapping Granite tensor payloads'')
        else if \<not> jeq (jget example_granite_inventory ''total_tensor_payload_bytes'') (JInt (gs_total s))
          \<or> \<not> jeq (jget example_granite_inventory ''total_routed_expert_bank_bytes'') (JInt (gs_routed_total s))
          \<or> \<not> jeq (jget example_granite_inventory ''non_expert_tensor_bytes'') (JInt (gs_total s - gs_routed_total s))
        then Inl (ValueError ''Granite inventory payload totals mismatch'')
        else Inr s)))"
  by code_simp

definition example_granite_dims :: "(string \<times> int) list" where
  "example_granite_dims = zip granite_dimension_keys [256, 256, 1, 1, 1, 1, 1, 256]"

lemma example_granite_accepted:
  "is_ok (granite_complete_inventory example_granite_inventory example_granite_metadata example_granite_file example_granite)"
proof -
  have head: "jget example_granite_inventory ''schema_version'' = JStr ''1.0.0''"
    "jget example_granite_inventory ''measurement_kind'' = JStr ''gguf_metadata_derived''" by code_simp+
  define p where "p = [(''path'', JStr ''m.gguf''), (''bytes'', JInt 400000), (''sha256'', JStr (replicate 64 CHR ''0'')),
    (''repository'', JStr ''r''), (''revision'', JStr ''v'')]"
  have p: "jget example_granite_inventory ''model'' = JObj p" by (simp add: example_granite_inventory_def Let_def p_def)
  have id: "ArtifactIdentity (jget p ''path'') (jget p ''bytes'') (jget p ''sha256'') = Inr example_granite_file"
    "rmap (\<lambda>key. require_text (jget p key) (''Granite model '' @ key)) [''repository'', ''revision''] = Inr [''r'', ''v'']"
    unfolding p_def by code_simp+
  have dims: "rmap (\<lambda>key. rbind (require_int (jget example_granite_metadata (granite_key key)) (''Granite '' @ key) 1) (\<lambda>n. Inr (key, n)))
      granite_dimension_keys = Inr example_granite_dims" by code_simp
  have d: "dict_get example_granite_dims ''embedding_length'' 0 = 256" "dict_get example_granite_dims ''feed_forward_length'' 0 = 256"
    "dict_get example_granite_dims ''attention.head_count'' 0 = 1" "dict_get example_granite_dims ''attention.head_count_kv'' 0 = 1"
    "dict_get example_granite_dims ''rope.dimension_count'' 0 = 256" "dict_get example_granite_dims ''vocab_size'' 0 = 1"
    "dict_get example_granite_dims ''block_count'' 0 = 1" "ds_expert_count example_granite = 1" by code_simp+
  have n: "tensor_count_ok example_granite_inventory (dict_get example_granite_inventory ''tensors'' (JArr [])) (int (length example_granite_plan)) = Inr True"
    by code_simp
  have plan: "granite_expected 256 256 (256 div 1 * 1) 1 1 1 = example_granite_plan" by (simp add: example_granite_plan_def)
  show ?thesis using example_granite_loop
    unfolding granite_complete_inventory_def head p json.case id rbind_Inr dims example_granite_scales Let_def d plan n
    by simp
qed

lemma example_granite_normalized: "is_ok (granite_normalize example_granite_digest example_granite example_granite_inventory example_granite_file)"
proof -
  obtain s where s: "granite_complete_inventory example_granite_inventory example_granite_metadata example_granite_file example_granite = Inr s"
    using example_granite_accepted by (auto simp: is_ok_iff)
  have metadata: "as_record (dict_get example_granite_inventory ''gguf_metadata'' (JObj [])) = Inr example_granite_metadata"
    by (simp add: example_granite_inventory_def Let_def as_record_def dict_get_def)
  have rest: "is_ok (if list_ex (\<lambda>key. \<not> positive_number (jget example_granite_metadata (granite_key key)))
        [''embedding_length'', ''feed_forward_length'', ''embedding_scale'', ''logit_scale'', ''residual_scale'']
      then Inl (ValueError ''invalid Granite scaling/dimension metadata'')
      else rbind (require_int (jget example_granite_metadata (granite_key ''embedding_length'')) ''Granite embedding length'' 1) (\<lambda>width.
      rbind (require_int (jget example_granite_metadata (granite_key ''feed_forward_length'')) ''Granite feed forward length'' 1) (\<lambda>hidden.
      if \<not> jeq (jget example_granite_inventory ''expert_component_names'')
        (JArr (map JStr (sort (map fst (granite_experts width hidden (ds_expert_count example_granite))))))
      then Inl (ValueError ''unsupported Granite expert component layout'')
      else rbind (py_iter (dict_get example_granite_inventory ''tensors'' (JArr []))) (\<lambda>ts.
      rbind (rmap as_record ts) (\<lambda>rows. let tensors = filter (\<lambda>t. jget t ''routed_expert_tensor'' = JBool True) rows in
      rbind (triple (dict_get example_granite_inventory ''routed_layer_count'' (JInt 0))) (\<lambda>wanted.
      if \<not> jeq (JInt (int (length tensors))) wanted then Inl (ValueError ''incomplete Granite expert tensors'')
      else rbind (rfold (granite_expert_tensor width hidden example_granite example_granite_inventory) [] tensors) (\<lambda>_.
        normalize_routed_inventory example_granite_digest example_granite example_granite_inventory example_granite_file)))))))"
    by code_simp
  have checks: "ds_family example_granite = ''granitemoe''" "ds_architecture example_granite = ''granitemoe''"
    "ds_quantization example_granite = ''Q6_K''" "jget example_granite_metadata ''general.architecture'' = JStr ''granitemoe''"
    "jeq (jget example_granite_metadata (granite_key ''expert_count'')) (JInt (ds_expert_count example_granite))"
    "jeq (jget example_granite_metadata (granite_key ''expert_used_count'')) (JInt (ds_expert_top_k example_granite))"
    "jeq (jget example_granite_metadata (granite_key ''block_count'')) (jget example_granite_inventory ''routed_layer_count'')"
    by code_simp+
  show ?thesis using rest by (simp only: granite_normalize_def metadata rbind_Inr s checks if_False not_True_eq_False simp_thms)
qed

theorem granite_tensors_fit_witness:
  "\<exists>tensors entries. jget example_granite_inventory ''tensors'' = JArr tensors
    \<and> list_all2 (granite_entry (granite_plan example_granite_metadata 1)) tensors entries
    \<and> sum_list (map (snd \<circ> snd) entries) \<le> 400000 \<and> block_tensor 0 ''attn_q.weight'' \<in> fst ` set entries"
proof -
  obtain s where s: "granite_complete_inventory example_granite_inventory example_granite_metadata example_granite_file example_granite = Inr s"
    using example_granite_accepted by (auto simp: is_ok_iff)
  have e: "0 \<le> ds_expert_count example_granite" "ds_expert_count example_granite = 1"
    "jget example_granite_metadata (granite_key ''block_count'') = JInt 1" "ai_size_bytes example_granite_file = 400000" by code_simp+
  obtain tensors entries where t: "jget example_granite_inventory ''tensors'' = JArr tensors"
      "list_all2 (granite_entry (granite_plan example_granite_metadata 1)) tensors entries"
    and blocks: "\<forall>layer blocks component. jget example_granite_metadata (granite_key ''block_count'') = JInt blocks \<longrightarrow> 0 \<le> layer
      \<longrightarrow> layer < blocks \<longrightarrow> component \<in> fst ` set (granite_components 0 0 0 0) \<longrightarrow> block_tensor layer component \<in> fst ` set entries"
    and small: "sum_list (map (snd \<circ> snd) entries) \<le> 400000"
    using granite_tensors_fit [OF s e(1), of 0 0 0 0] unfolding e(2,4) by (elim exE conjE) (rule that)
  have "block_tensor 0 ''attn_q.weight'' \<in> fst ` set entries"
    using blocks e(3) by (simp add: granite_components_def)
  with t small show ?thesis by (intro exI [of _ tensors] exI [of _ entries] conjI)
qed

theorem builtin_adapters_exact_witness:
  "\<exists>r a m. with_builtins example_granite_digest = Inr r \<and> resolve_adapter ''granitemoe'' r = Inr a
    \<and> ad_normalize a example_granite example_granite_inventory example_granite_file = Inr m \<and> exact_model example_granite_file m"
proof -
  obtain m where m: "granite_normalize example_granite_digest example_granite example_granite_inventory example_granite_file = Inr m"
    using example_granite_normalized by (auto simp: is_ok_iff)
  obtain r where r: "with_builtins example_granite_digest = Inr r" "resolve_adapter ''granitemoe'' r = Inr (granite_adapter example_granite_digest)"
    by (simp add: with_builtins_def register_def resolve_adapter_def gemma_adapter_def granite_adapter_def)
  have "ad_normalize (granite_adapter example_granite_digest) example_granite example_granite_inventory example_granite_file = Inr m"
    using m by (simp add: granite_adapter_def)
  with builtin_adapters_exact [OF r this] r show ?thesis by blast
qed

end
