(* ===== verification/Stock.thy ===== *)
theory Stock
  imports Plan
begin

text \<open>
  \<open>compiler/stock.py\<close>: the six pristine candidates of a stock search, the import of their verified
  measurements and the choice of the fastest safe one. \<open>verify\<close> is the evidence store's
  \<open>verify_measurement\<close>; \<open>memory mid\<close> is the decoded memory artifact of measurement \<open>mid\<close> (it raises
  when the record has none). The lemmas show what the selection guarantees, and that what it selects
  can be sealed by \<open>compiler/plan.py\<close>.
\<close>

section \<open>Candidates\<close>

definition stock_settings :: "workload_ir \<Rightarrow> json \<Rightarrow> bool \<Rightarrow> runtime_settings res" where
  "stock_settings w gpu_layers cpu_moe = RuntimeSettings None [(''gpu_layers'', gpu_layers), (''cpu_moe'', JBool cpu_moe),
     (''cuda_graphs'', JStr (wl_cuda_graphs w)), (''kv_type_k'', wl_kv_type_k w), (''kv_type_v'', wl_kv_type_v w),
     (''batch_size'', JInt (wl_batch_size w)), (''microbatch_size'', JInt (wl_microbatch_size w))]"

text \<open>A candidate with the default status, estimate, measurements, reasons and validation.\<close>

definition fresh_candidate :: "plan_identities \<Rightarrow> runtime_settings \<Rightarrow> candidate_plan res" where
  "fresh_candidate identities settings = CandidatePlan identities settings (JStr ''unmeasured'') JNull (JArr []) (JArr []) []"

definition stock_grid :: "(json \<times> bool) list" where
  "stock_grid = List.product [JStr ''auto'', JStr ''all'', JInt 99] [False, True]"

definition stock_candidate_matrix :: "plan_identities \<Rightarrow> candidate_plan list res" where
  "stock_candidate_matrix identities = rmap (\<lambda>(gpu_layers, cpu_moe).
     rbind (stock_settings (pi_workload identities) gpu_layers cpu_moe) (fresh_candidate identities)) stock_grid"

section \<open>Measurements\<close>

record stock_measurement =
  sm_candidate :: candidate_plan
  sm_measurement_ids :: "string list"
  sm_decode_tps :: "json list"
  sm_exact :: bool
  sm_peak_bytes :: json
  sm_cleanup :: bool
  sm_exit_code :: int
  sm_status :: string
  sm_key_sha256 :: string

definition mean_tps :: "stock_measurement \<Rightarrow> json res" where
  "mean_tps m = stat_mean (sm_decode_tps m)"

definition stock_cv_pct :: "stock_measurement \<Rightarrow> json res" where
  "stock_cv_pct m = (if 1 < length (sm_decode_tps m) then cv_pct (sm_decode_tps m) else Inr (JInt 0))"

definition foreign_row :: "(json \<Rightarrow> string) \<Rightarrow> candidate_plan \<Rightarrow> jrecord \<Rightarrow> bool res" where
  "foreign_row digest c r = rbind (dict_index r ''candidate_id'') (\<lambda>v. rbind (candidate_id digest c) (\<lambda>cid.
     if v \<noteq> JStr cid then Inr True else rbind (dict_index r ''measured'') (\<lambda>measured. Inr (\<not> truthy measured))))"

text \<open>\<open>len({r[k] for r in rows})\<close>.\<close>

definition count_field :: "string \<Rightarrow> jrecord list \<Rightarrow> int res" where
  "count_field k rows = rbind (rmap (\<lambda>r. dict_index r k) rows) count_values"

definition peak_memory :: "(string \<Rightarrow> json res) \<Rightarrow> json \<Rightarrow> string \<Rightarrow> json res" where
  "peak_memory memory peak mid = rbind (memory mid) (\<lambda>m. rbind (subscript m ''samples'') (\<lambda>samples.
     rbind (py_iter samples) (\<lambda>items. rbind (rmap (\<lambda>s. subscript s ''dedicated_bytes'') items) (\<lambda>sizes.
     rbind (max_number sizes) (\<lambda>largest. max_number [peak, largest])))))"

text \<open>\<open>dataclasses.replace(candidate, status=MEASURED, measurement_ids=ids)\<close> runs the constructor again.\<close>

definition measured_candidate :: "candidate_plan \<Rightarrow> string list \<Rightarrow> candidate_plan res" where
  "measured_candidate c ids = CandidatePlan (cp_identities c) (cp_settings c) (JStr ''measured'')
     (cp_estimated_decode_tps c) (JArr (map JStr ids)) (JArr (map JStr (cp_rejection_reasons c))) (cp_validation c)"

definition import_stock_measurement :: "(json \<Rightarrow> string) \<Rightarrow> (string \<Rightarrow> jrecord res) \<Rightarrow> (string \<Rightarrow> json res)
    \<Rightarrow> candidate_plan \<Rightarrow> string list \<Rightarrow> stock_measurement res" where
  "import_stock_measurement digest verify memory c ids =
     (if ids = [] \<or> \<not> distinct ids then Inl (ValueError ''missing or duplicate measurement evidence'')
      else rbind (rmap verify ids) (\<lambda>rows.
      rbind (count_field ''owned_run_sha256'' rows) (\<lambda>owned.
      if owned \<noteq> int (length rows) then Inl (ValueError ''duplicate owned run'')
      else rbind (rany (foreign_row digest c) rows) (\<lambda>foreign.
      if foreign then Inl (ValueError ''foreign candidate evidence or warmup'')
      else rbind (count_field ''generated_tokens_sha256'' rows) (\<lambda>tokens.
      rbind (if tokens \<noteq> 1 then Inr True
        else rbind (count_field ''prompt_tokens_sha256'' rows) (\<lambda>prompts. Inr (prompts \<noteq> 1))) (\<lambda>unstable.
      if unstable then Inl (ValueError ''unstable exact tokens'')
      else rbind (rfold (peak_memory memory) (JInt 0) ids) (\<lambda>peak.
      rbind (measured_candidate c ids) (\<lambda>measured.
      rbind (rmap (\<lambda>r. dict_index r ''decode_tps'') rows) (\<lambda>tps.
      rbind (canonical_sha256 digest (identities_payload (cp_identities c))) (\<lambda>key.
      Inr \<lparr>sm_candidate = measured, sm_measurement_ids = ids, sm_decode_tps = tps, sm_exact = True,
        sm_peak_bytes = peak, sm_cleanup = True, sm_exit_code = 0, sm_status = ''measured'', sm_key_sha256 = key\<rparr>))))))))))"

section \<open>Selection\<close>

definition memory_unsafe :: "int \<Rightarrow> int \<Rightarrow> json \<Rightarrow> bool res" where
  "memory_unsafe total_vram_mib reserve_mib peak = (if num_le peak (JInt 0) then Inr True
     else rbind (num_add peak (JInt (reserve_mib * 2 ^ 20))) (\<lambda>needed. Inr (num_less (JInt (total_vram_mib * 2 ^ 20)) needed)))"

definition stock_valid :: "(json \<Rightarrow> string) \<Rightarrow> int \<Rightarrow> int \<Rightarrow> stock_measurement \<Rightarrow> bool res" where
  "stock_valid digest total_vram_mib reserve_mib m =
     (let c = sm_candidate m; w = pi_workload (cp_identities c); tps = sm_decode_tps m in
      rbind (canonical_sha256 digest (identities_payload (cp_identities c))) (\<lambda>key.
      if sm_key_sha256 m \<noteq> key then Inl (ValueError ''stock measurement key mismatch'')
      else rbind (rmap (\<lambda>v. require_number v ''measured TPS'' MICRO) tps) (\<lambda>_.
      if sm_status m \<noteq> ''measured'' \<or> sm_exit_code m \<noteq> 0 \<or> \<not> sm_exact m \<or> \<not> sm_cleanup m
        \<or> rs_static (cp_settings c) \<noteq> None then Inr False
      else if length (sm_measurement_ids m) \<noteq> length tps \<or> int (length tps) < wl_measured_runs w then Inr False
      else if \<not> distinct (sm_measurement_ids m) then Inr False
      else rbind (memory_unsafe total_vram_mib reserve_mib (sm_peak_bytes m)) (\<lambda>unsafe.
      if unsafe then Inr False
      else rbind (stock_cv_pct m) (\<lambda>cv. Inr (\<not> num_less (wl_maximum_cv_pct w) cv))))))"

text \<open>The valid measurements with their sort keys; \<open>min\<close> keeps the first of equal keys.\<close>

definition stock_key :: "(json \<Rightarrow> string) \<Rightarrow> stock_measurement \<Rightarrow> ((pyfloat \<times> string) \<times> stock_measurement) res" where
  "stock_key digest m = rbind (mean_tps m) (\<lambda>mean. rbind (candidate_id digest (sm_candidate m)) (\<lambda>cid.
     Inr ((num_val (num_neg mean), cid), m)))"

definition select_strongest_stock :: "(json \<Rightarrow> string) \<Rightarrow> stock_measurement list \<Rightarrow> int \<Rightarrow> int \<Rightarrow> stock_measurement res" where
  "select_strongest_stock digest measurements total_vram_mib reserve_mib =
     rbind (rmap (\<lambda>m. canonical_sha256 digest (identities_payload (cp_identities (sm_candidate m)))) measurements) (\<lambda>identities.
     if 1 < length (remdups identities) then Inl (ValueError ''stock comparison identity mismatch'')
     else rbind (rmap (\<lambda>m. rbind (stock_valid digest total_vram_mib reserve_mib m) (\<lambda>b. Inr (b, m))) measurements) (\<lambda>judged.
     let valid = map snd (filter fst judged) in
     if valid = [] then Inl (ValueError ''inconclusive: no measured exact memory-safe stock candidate'')
     else rbind (rmap (stock_key digest) valid) (\<lambda>keyed. Inr (snd (min_by fst keyed)))))"

section \<open>What the selection guarantees\<close>

lemma stat_mean_num:
  assumes "stat_mean xs = Inr v"
  shows "\<exists>x. num_val v = Fin x \<and> num_val (num_neg v) = Fin (- x)"
proof -
  from assms have "(\<exists>n. v = JInt n) \<or> (\<exists>x. v = JFloat (Fin x))"
    by (auto simp: stat_mean_def Let_def rbind_eq_Inr float_of_ratio_def split: if_splits pyfloat.splits)
  then show ?thesis by (auto simp: num_val_def exact_num_def num_neg_def)
qed

definition accepted_stock :: "int \<Rightarrow> int \<Rightarrow> stock_measurement \<Rightarrow> bool" where
  "accepted_stock total_vram_mib reserve_mib m \<longleftrightarrow> sm_status m = ''measured'' \<and> sm_exit_code m = 0 \<and> sm_exact m \<and> sm_cleanup m
     \<and> rs_static (cp_settings (sm_candidate m)) = None \<and> distinct (sm_measurement_ids m)
     \<and> length (sm_measurement_ids m) = length (sm_decode_tps m)
     \<and> wl_measured_runs (pi_workload (cp_identities (sm_candidate m))) \<le> int (length (sm_decode_tps m))
     \<and> (\<forall>peak. sm_peak_bytes m = JInt peak \<longrightarrow> 0 < peak \<and> peak + reserve_mib * 2 ^ 20 \<le> total_vram_mib * 2 ^ 20)
     \<and> (\<exists>cv. stock_cv_pct m = Inr cv \<and> \<not> num_less (wl_maximum_cv_pct (pi_workload (cp_identities (sm_candidate m)))) cv)"

lemma memory_safe:
  "memory_unsafe vram reserve (JInt peak) = Inr False \<Longrightarrow> 0 < peak \<and> peak + reserve * 2 ^ 20 \<le> vram * 2 ^ 20"
  by (auto simp: memory_unsafe_def num_le_def num_val_def exact_num_def py_le_def num_add_def num_op_def
      num_less_def py_less_def rbind_eq_Inr not_less split: if_splits simp flip: of_int_mult of_int_add)

lemma stock_valid_accepted: "stock_valid digest vram reserve m = Inr True \<Longrightarrow> accepted_stock vram reserve m"
  unfolding stock_valid_def Let_def rbind_eq_Inr if_Inl_eq_Inr
  by (elim exE conjE) (auto simp: accepted_stock_def rbind_eq_Inr split: if_splits dest: memory_safe [simplified])

lemma stock_valid_rates: "stock_valid digest vram reserve m = Inr True \<Longrightarrow> \<forall>v \<in> set (sm_decode_tps m). valid_number v MICRO"
  unfolding stock_valid_def Let_def rbind_eq_Inr if_Inl_eq_Inr
  by (elim exE conjE) (auto dest!: rmap_elem_fwd simp: require_simps)

lemma select_strongest_stock_valid:
  assumes "select_strongest_stock digest measurements total_vram_mib reserve_mib = Inr m"
  shows "m \<in> set measurements \<and> stock_valid digest total_vram_mib reserve_mib m = Inr True
    \<and> (\<forall>other \<in> set measurements. stock_valid digest total_vram_mib reserve_mib other = Inr True \<longrightarrow>
        (\<exists>mean mean'. mean_tps m = Inr mean \<and> mean_tps other = Inr mean' \<and> num_val mean' \<le> num_val mean))"
proof -
  obtain judged keyed where
    judged: "rmap (\<lambda>m. rbind (stock_valid digest total_vram_mib reserve_mib m) (\<lambda>b. Inr (b, m))) measurements = Inr judged"
    and nonempty: "map snd (filter fst judged) \<noteq> []"
    and keyed: "rmap (stock_key digest) (map snd (filter fst judged)) = Inr keyed" and m: "m = snd (min_by fst keyed)"
    using assms unfolding select_strongest_stock_def Let_def rbind_eq_Inr if_Inl_eq_Inr by (elim exE conjE) simp
  have "judged = map (\<lambda>m. (stock_valid digest total_vram_mib reserve_mib m = Inr True, m)) measurements"
    using judged by (auto simp: rmap_eq_Inr list_all2_conv_all_nth rbind_eq_Inr intro!: nth_equalityI)
  then have valid: "set (map snd (filter fst judged)) = {x \<in> set measurements. stock_valid digest total_vram_mib reserve_mib x = Inr True}"
    by (auto simp: image_iff)
  have "keyed \<noteq> []" using rmap_length [OF keyed] nonempty by auto
  then have min: "min_by fst keyed \<in> set keyed" "\<And>k. k \<in> set keyed \<Longrightarrow> fst (min_by fst keyed) \<le> fst k"
    by (simp_all add: min_by_mem min_by_le)
  have key: "\<exists>mean cid. mean_tps x = Inr mean \<and> k = ((num_val (num_neg mean), cid), x)" if "stock_key digest x = Inr k" for x k
    using that by (auto simp: stock_key_def rbind_eq_Inr)
  obtain x where x: "x \<in> set (map snd (filter fst judged))" "stock_key digest x = Inr (min_by fst keyed)"
    using rmap_elem [OF keyed min(1)] by blast
  then obtain mean cid where mean: "mean_tps x = Inr mean" "min_by fst keyed = ((num_val (num_neg mean), cid), x)"
    using key by blast
  then have "x = m" using m by simp
  have "\<exists>mean'. mean_tps y = Inr mean' \<and> num_val mean' \<le> num_val mean"
    if y: "y \<in> set (map snd (filter fst judged))" for y
  proof -
    obtain k where k: "k \<in> set keyed" "stock_key digest y = Inr k"
      using rmap_elem_fwd [OF keyed y] by blast
    then obtain mean' cid' where mean': "mean_tps y = Inr mean'" "k = ((num_val (num_neg mean'), cid'), y)" using key by blast
    have "num_val (num_neg mean) \<le> num_val (num_neg mean')" using min(2) [OF k(1)] mean(2) mean'(2) by auto
    moreover obtain a b where "num_val mean = Fin a" "num_val (num_neg mean) = Fin (- a)"
      "num_val mean' = Fin b" "num_val (num_neg mean') = Fin (- b)"
      using stat_mean_num mean(1) mean'(1) unfolding mean_tps_def by metis
    ultimately show ?thesis using mean'(1) by simp
  qed
  then show ?thesis using x valid mean(1) unfolding \<open>x = m\<close> by auto
qed

text \<open>
  C38. The selection is the fastest of the admissible measurements: what it returns is one of the given
  measurements, ran exactly and cleanly without static placement as often as its workload asks, keeps
  the memory reserve and the variation limit, and no other admissible measurement has a higher mean
  rate.
\<close>

theorem select_strongest_stock_optimal:
  assumes "select_strongest_stock digest measurements total_vram_mib reserve_mib = Inr m"
  shows "m \<in> set measurements \<and> accepted_stock total_vram_mib reserve_mib m
    \<and> (\<forall>other \<in> set measurements. stock_valid digest total_vram_mib reserve_mib other = Inr True \<longrightarrow>
        (\<exists>mean mean'. mean_tps m = Inr mean \<and> mean_tps other = Inr mean' \<and> num_val mean' \<le> num_val mean))"
  using select_strongest_stock_valid [OF assms] stock_valid_accepted by blast

section \<open>What is selected can be sealed\<close>

lemma canonical_number: "v = JNull \<or> valid_number v m \<Longrightarrow> canonical_payload v = Inr v"
  by (cases v) (auto simp: valid_number_def require_number_def isfinite_def fabs_def py_le_def split: pyfloat.splits)

lemma canonical_strings: "canonical_payload (JArr (map JStr xs)) = Inr (JArr (map JStr xs))"
proof -
  have "rmap canonical_payload (map JStr xs) = Inr (map JStr xs)" by (induction xs) auto
  then show ?thesis by simp
qed

lemma canonical_flags: "canonical_payload (JArr (map (\<lambda>(k, b). JArr [JStr k, JBool b]) vs)) = Inr (JArr (map (\<lambda>(k, b). JArr [JStr k, JBool b]) vs))"
proof -
  have "rmap canonical_payload (map (\<lambda>(k, b). JArr [JStr k, JBool b]) vs) = Inr (map (\<lambda>(k, b). JArr [JStr k, JBool b]) vs)"
    by (induction vs) auto
  then show ?thesis by simp
qed

lemma measured_candidate_ok:
  assumes "measured_candidate c ids = Inr c'"
  shows "c' = c\<lparr>cp_status := MEASURED, cp_measurement_ids := ids, cp_validation := sort (cp_validation c)\<rparr>
    \<and> (cp_estimated_decode_tps c = JNull \<or> valid_number (cp_estimated_decode_tps c) MICRO)"
proof -
  have texts: "text_items (JArr (map JStr xs)) name = Inr ys \<Longrightarrow> ys = xs" for xs ys :: "string list" and name
    by (auto simp: text_items_def py_iter_def rmap_eq_Inr list_all2_conv_all_nth require_simps intro!: nth_equalityI)
  have status: "CandidateStatus (JStr ''measured'') = Inr MEASURED" by (simp add: CandidateStatus_def status_value_def)
  show ?thesis
    using assms by (auto simp: measured_candidate_def CandidatePlan_def rbind_eq_Inr status require_simps
        split: if_splits dest!: texts)
qed

lemma candidate_payload_canonical:
  assumes "candidate_id digest c = Inr cid" and "measured_candidate c ids = Inr c'"
  shows "is_ok (canonical_payload (JObj [(''candidate'', candidate_payload c'), (''fallback'', JNull)]))"
proof -
  have c': "c' = c\<lparr>cp_status := MEASURED, cp_measurement_ids := ids, cp_validation := sort (cp_validation c)\<rparr>"
    and est: "canonical_payload (cp_estimated_decode_tps c) = Inr (cp_estimated_decode_tps c)"
    using measured_candidate_ok [OF assms(2)] canonical_number by blast+
  obtain p q where "canonical_payload (identities_payload (cp_identities c)) = Inr p"
    "canonical_payload (settings_payload (cp_settings c)) = Inr q"
    using assms(1) by (auto simp: candidate_id_def canonical_sha256_def rbind_eq_Inr)
  then show ?thesis
    by (simp add: c' candidate_payload_def est canonical_strings canonical_flags del: canonical_payload.simps(2))
qed

text \<open>
  The row a store returns for a measurement, as \<open>evidence.py\<close> builds it: hashes and flags, and identities and settings that are those of the candidate it names.
\<close>

definition verified_row :: "(json \<Rightarrow> string) \<Rightarrow> candidate_plan \<Rightarrow> jrecord \<Rightarrow> bool" where
  "verified_row digest c row \<longleftrightarrow> (\<exists>owned tokens prompt measured.
     jget row ''owned_run_sha256'' = JStr owned \<and> is_hash owned
     \<and> jget row ''generated_tokens_sha256'' = JStr tokens \<and> is_hash tokens
     \<and> jget row ''prompt_tokens_sha256'' = JStr prompt \<and> is_hash prompt
     \<and> jget row ''measured'' = JBool measured \<and> jget row ''exit_code'' = JInt 0
     \<and> row_valid_flags row [''exact_tokens'', ''memory'', ''cleanup''] = Inr True
     \<and> (\<forall>cid p s. candidate_id digest c = Inr cid \<longrightarrow> canonical_payload (identities_payload (cp_identities c)) = Inr p
         \<longrightarrow> canonical_sha256 digest (settings_payload (cp_settings c)) = Inr s \<longrightarrow> jget row ''candidate_id'' = JStr cid
         \<longrightarrow> jeq (jget row ''identities'') p \<and> jget row ''settings_sha256'' = JStr s))"

lemma dict_index_jget: "dict_index r k = Inr v \<Longrightarrow> jget r k = v"
  by (auto simp: dict_index_def jget_def dict_get_def split: option.splits)

lemma foreign_row_False:
  assumes "foreign_row digest c row = Inr False" and "verified_row digest c row"
  shows "jget row ''measured'' = JBool True \<and> (\<exists>cid. candidate_id digest c = Inr cid \<and> jget row ''candidate_id'' = JStr cid)"
proof -
  have "\<exists>b. jget row ''measured'' = JBool b" using assms(2) by (auto simp: verified_row_def)
  then show ?thesis using assms(1)
    by (auto simp: foreign_row_def rbind_eq_Inr truthy_def dest!: dict_index_jget split: if_splits)
qed

lemma count_values_strings:
  assumes "count_values (map JStr ss) = Inr n"
  shows "n = int (card (set ss))"
proof -
  have "set (foldl (\<lambda>s x. if list_ex (\<lambda>y. jeq y x) s then s else s @ [x]) acc (map JStr ss)) = set acc \<union> JStr ` set ss \<and>
      distinct (foldl (\<lambda>s x. if list_ex (\<lambda>y. jeq y x) s then s else s @ [x]) acc (map JStr ss))"
    if "distinct acc" for acc
    using that
  proof (induction ss arbitrary: acc)
    case (Cons s ss)
    then show ?case by (auto simp: list_ex_iff)
  qed simp
  from this [of "[]"] have l: "set (foldl (\<lambda>s x. if list_ex (\<lambda>y. jeq y x) s then s else s @ [x]) [] (map JStr ss)) = JStr ` set ss"
    "distinct (foldl (\<lambda>s x. if list_ex (\<lambda>y. jeq y x) s then s else s @ [x]) [] (map JStr ss))" by simp_all
  have "length (foldl (\<lambda>s x. if list_ex (\<lambda>y. jeq y x) s then s else s @ [x]) [] (map JStr ss)) = card (JStr ` set ss)"
    using distinct_card [OF l(2)] l(1) by simp
  also have "card (JStr ` set ss) = card (set ss)" by (intro card_image) (auto simp: inj_on_def)
  finally show ?thesis using assms by (auto simp: count_values_def split: if_splits)
qed

lemma count_field_strings:
  assumes "count_field k rows = Inr n" and "list_all2 (\<lambda>row s. jget row k = JStr s) rows ss"
  shows "n = int (card (set ss))"
proof -
  obtain vs where vs: "rmap (\<lambda>r. dict_index r k) rows = Inr vs" "count_values vs = Inr n"
    using assms(1) by (auto simp: count_field_def rbind_eq_Inr)
  have "vs = map JStr ss"
    using assms(2) vs(1) by (induction rows ss arbitrary: vs rule: list_all2_induct) (auto simp: rbind_eq_Inr dest: dict_index_jget)
  then show ?thesis using vs(2) count_values_strings by blast
qed

text \<open>The scan of the sealing over rows that verify as runs of the candidate.\<close>

lemma seal_rows_ok:
  assumes "list_all2 (\<lambda>mid row. verify mid = Inr row \<and> verified_row digest c row \<and> foreign_row digest c row = Inr False) mids rows"
    and "candidate_id digest c' = candidate_id digest c" "cp_settings c' = cp_settings c"
    and "list_all2 (\<lambda>row s. jget row ''owned_run_sha256'' = JStr s) rows owned"
    and "list_all2 (\<lambda>row s. jget row ''generated_tokens_sha256'' = JStr s) rows tokens"
    and "list_all2 (\<lambda>row s. jget row ''prompt_tokens_sha256'' = JStr s) rows prompts"
    and "distinct (sl_owned s @ owned)" and "\<forall>row \<in> set rows. valid_number (jget row ''decode_tps'') MICRO"
  shows "rfold (seal_row digest verify c' (cp_identities c)) s mids = Inr
    \<lparr>sl_owned = sl_owned s @ owned, sl_tokens = fold List.insert tokens (sl_tokens s),
      sl_prompts = fold List.insert prompts (sl_prompts s), sl_tps = sl_tps s @ map (\<lambda>row. jget row ''decode_tps'') rows\<rparr>"
  using assms(1,4-8)
proof (induction mids arbitrary: s rows owned tokens prompts)
  case Nil
  then show ?case by simp
next
  case (Cons mid mids)
  then obtain row rows' o1 owned' t1 tokens' p1 prompts' where eqs: "rows = row # rows'" "owned = o1 # owned'" "tokens = t1 # tokens'"
      "prompts = p1 # prompts'" and row: "verify mid = Inr row" "verified_row digest c row" "foreign_row digest c row = Inr False"
    and keys: "jget row ''owned_run_sha256'' = JStr o1" "jget row ''generated_tokens_sha256'' = JStr t1" "jget row ''prompt_tokens_sha256'' = JStr p1"
    by (auto simp: list_all2_Cons1)
  obtain cid where cid: "candidate_id digest c = Inr cid" "jget row ''candidate_id'' = JStr cid" "jget row ''measured'' = JBool True"
    using foreign_row_False [OF row(3,2)] by blast
  obtain p where p: "canonical_payload (identities_payload (cp_identities c)) = Inr p"
    using cid(1) by (auto simp: candidate_id_def canonical_sha256_def rbind_eq_Inr)
  obtain h where h: "canonical_sha256 digest (settings_payload (cp_settings c)) = Inr h"
    using cid(1) by (auto simp: candidate_id_def canonical_sha256_def rbind_eq_Inr)
  have facts: "is_hash o1" "is_hash t1" "is_hash p1" "jget row ''exit_code'' = JInt 0"
    "row_valid_flags row [''exact_tokens'', ''memory'', ''cleanup''] = Inr True" "valid_number (jget row ''decode_tps'') MICRO"
    "jeq (jget row ''identities'') p" "jget row ''settings_sha256'' = JStr h"
    using row(2) keys cid p h Cons.prems(6) eqs(1) by (auto simp: verified_row_def)
  have "seal_row digest verify c' (cp_identities c) s mid = Inr \<lparr>sl_owned = sl_owned s @ [o1], sl_tokens = List.insert t1 (sl_tokens s),
      sl_prompts = List.insert p1 (sl_prompts s), sl_tps = sl_tps s @ [jget row ''decode_tps'']\<rparr>" (is "_ = Inr ?s1")
    using Cons.prems(5) unfolding eqs
    by (simp add: seal_row_def row(1) keys require_hash_def facts cid assms(2,3) p h require_number_def exact_num_def py_eq_def)
  moreover have "rfold (seal_row digest verify c' (cp_identities c)) ?s1 mids = Inr
    \<lparr>sl_owned = sl_owned ?s1 @ owned', sl_tokens = fold List.insert tokens' (sl_tokens ?s1),
      sl_prompts = fold List.insert prompts' (sl_prompts ?s1), sl_tps = sl_tps ?s1 @ map (\<lambda>row. jget row ''decode_tps'') rows'\<rparr>"
    using Cons.prems unfolding eqs by (intro Cons.IH) auto
  ultimately show ?case by (simp add: eqs)
qed

lemma length_fold_insert: "length (fold List.insert xs []) = card (set xs)"
proof -
  have "set (fold List.insert xs acc) = set acc \<union> set xs \<and> (distinct acc \<longrightarrow> distinct (fold List.insert xs acc))" for acc
    by (induction xs arbitrary: acc) auto
  then show ?thesis by (metis Un_empty_left distinct.simps(1) distinct_card empty_set)
qed

lemma rmap_dict_index: "rmap (\<lambda>r. dict_index r k) rows = Inr vs \<Longrightarrow> vs = map (\<lambda>r. jget r k) rows"
  by (induction rows arbitrary: vs) (auto simp: rbind_eq_Inr dest: dict_index_jget)

definition text_field :: "string \<Rightarrow> jrecord list \<Rightarrow> string list" where
  "text_field k rows = map (\<lambda>row. case jget row k of JStr s \<Rightarrow> s | _ \<Rightarrow> []) rows"

lemma text_field_ok:
  "\<forall>row \<in> set rows. \<exists>s. jget row k = JStr s \<Longrightarrow> list_all2 (\<lambda>row s. jget row k = JStr s) rows (text_field k rows)"
  unfolding text_field_def list_all2_map2 by (induction rows) auto

lemma verified_text:
  "verified_row digest c row \<Longrightarrow> k \<in> {''owned_run_sha256'', ''generated_tokens_sha256'', ''prompt_tokens_sha256''}
    \<Longrightarrow> \<exists>s. jget row k = JStr s"
  unfolding verified_row_def by (elim exE conjE) auto

text \<open>What a successful import has checked.\<close>

lemma import_ok:
  assumes "import_stock_measurement digest verify memory c ids = Inr m"
    and "\<forall>mid row. verify mid = Inr row \<longrightarrow> verified_row digest c row"
  shows "\<exists>rows. list_all2 (\<lambda>mid row. verify mid = Inr row \<and> verified_row digest c row \<and> foreign_row digest c row = Inr False) ids rows
    \<and> ids \<noteq> [] \<and> distinct ids \<and> distinct (text_field ''owned_run_sha256'' rows)
    \<and> card (set (text_field ''generated_tokens_sha256'' rows)) = 1 \<and> card (set (text_field ''prompt_tokens_sha256'' rows)) = 1
    \<and> measured_candidate c ids = Inr (sm_candidate m) \<and> sm_decode_tps m = map (\<lambda>row. jget row ''decode_tps'') rows"
proof -
  obtain rows tokens where ids: "ids \<noteq> []" "distinct ids" and rows: "rmap verify ids = Inr rows"
    and owned: "count_field ''owned_run_sha256'' rows = Inr (int (length rows))"
    and foreign: "rany (foreign_row digest c) rows = Inr False"
    and tokens: "count_field ''generated_tokens_sha256'' rows = Inr tokens"
    and prompts: "(if tokens \<noteq> 1 then Inr True else rbind (count_field ''prompt_tokens_sha256'' rows) (\<lambda>n. Inr (n \<noteq> 1))) = Inr False"
    and m: "measured_candidate c ids = Inr (sm_candidate m)" "rmap (\<lambda>r. dict_index r ''decode_tps'') rows = Inr (sm_decode_tps m)"
    using assms(1) unfolding import_stock_measurement_def rbind_eq_Inr [of "rmap _ _"] rbind_eq_Inr [of "count_field _ _"]
      rbind_eq_Inr [of "rany _ _"] rbind_eq_Inr [of "if _ then _ else _"] rbind_eq_Inr [of "rfold _ _ _"]
      rbind_eq_Inr [of "measured_candidate _ _"] rbind_eq_Inr [of "canonical_sha256 _ _"] if_Inl_eq_Inr
    by (elim exE conjE) (drule sym [of _ "Inr m"], simp)
  have verified: "\<forall>row \<in> set rows. verified_row digest c row" using rmap_elem [OF rows] assms(2) by blast
  have str: "list_all2 (\<lambda>row s. jget row k = JStr s) rows (text_field k rows)"
    if "k \<in> {''owned_run_sha256'', ''generated_tokens_sha256'', ''prompt_tokens_sha256''}" for k
    using verified verified_text that by (intro text_field_ok) blast
  have count: "card (set (text_field ''owned_run_sha256'' rows)) = length rows"
    "card (set (text_field ''generated_tokens_sha256'' rows)) = 1" "card (set (text_field ''prompt_tokens_sha256'' rows)) = 1"
    using count_field_strings [OF owned str] count_field_strings [of "''generated_tokens_sha256''", OF _ str]
      count_field_strings [of "''prompt_tokens_sha256''", OF _ str] tokens prompts
    by (auto simp: rbind_eq_Inr split: if_splits)
  have "distinct (text_field ''owned_run_sha256'' rows)" using count(1) by (intro card_distinct) (simp add: text_field_def)
  moreover have "list_all2 (\<lambda>mid row. verify mid = Inr row \<and> verified_row digest c row \<and> foreign_row digest c row = Inr False) ids rows"
    using rows foreign verified by (auto simp: rmap_eq_Inr rany_False list_all2_conv_all_nth)
  moreover have "sm_decode_tps m = map (\<lambda>row. jget row ''decode_tps'') rows"
    using m(2) by (rule rmap_dict_index)
  ultimately show ?thesis using ids m(1) count(2,3) by blast
qed

lemma selected_stock_plan:
  assumes "import_stock_measurement digest verify memory c ids = Inr m"
    and "select_strongest_stock digest measurements total_vram_mib reserve_mib = Inr m"
    and "\<forall>mid row. verify mid = Inr row \<longrightarrow> verified_row digest c row" and "2 \<le> length ids"
    and "cp_rejection_reasons c = []" and "wl_policy (pi_workload (cp_identities c)) = EXACT"
    and "\<forall>v. is_hash (digest v)" and "is_text now"
  shows "\<exists>p. seal_candidate digest now (sm_candidate m) verify (cp_identities c) None = Inr p"
proof -
  obtain rows where rows: "list_all2 (\<lambda>mid row. verify mid = Inr row \<and> verified_row digest c row \<and> foreign_row digest c row = Inr False) ids rows"
    and ids: "ids \<noteq> []" "distinct ids" and owned: "distinct (text_field ''owned_run_sha256'' rows)"
    and one: "card (set (text_field ''generated_tokens_sha256'' rows)) = 1" "card (set (text_field ''prompt_tokens_sha256'' rows)) = 1"
    and measured: "measured_candidate c ids = Inr (sm_candidate m)" and tps: "sm_decode_tps m = map (\<lambda>row. jget row ''decode_tps'') rows"
    using import_ok [OF assms(1,3)] by blast
  have c': "sm_candidate m = c\<lparr>cp_status := MEASURED, cp_measurement_ids := ids, cp_validation := sort (cp_validation c)\<rparr>"
    using measured_candidate_ok [OF measured] by blast
  then have cid: "candidate_id digest (sm_candidate m) = candidate_id digest c" by (simp add: candidate_id_def)
  have valid: "stock_valid digest total_vram_mib reserve_mib m = Inr True" using select_strongest_stock_valid [OF assms(2)] by blast
  then have ok: "accepted_stock total_vram_mib reserve_mib m" by (rule stock_valid_accepted)
  have rates: "\<forall>row \<in> set rows. valid_number (jget row ''decode_tps'') MICRO"
    using stock_valid_rates [OF valid] by (simp add: tps)
  have len: "length rows = length ids" using rows by (simp add: list_all2_lengthD)
  obtain row0 where "row0 \<in> set rows" using len ids(1) by (cases rows) auto
  then obtain mid0 where row0: "verify mid0 = Inr row0" "verified_row digest c row0" "foreign_row digest c row0 = Inr False"
    using rows by (auto simp: list_all2_conv_all_nth in_set_conv_nth)
  obtain cv where cv: "cv_pct (sm_decode_tps m) = Inr cv" "\<not> num_less (wl_maximum_cv_pct (pi_workload (cp_identities c))) cv"
    using ok assms(4) len by (auto simp: accepted_stock_def stock_cv_pct_def tps c')
  have str: "list_all2 (\<lambda>row s. jget row k = JStr s) rows (text_field k rows)"
    if "k \<in> {''owned_run_sha256'', ''generated_tokens_sha256'', ''prompt_tokens_sha256''}" for k
  proof (rule text_field_ok, rule ballI)
    fix row assume "row \<in> set rows"
    then have "verified_row digest c row" using rows by (auto simp: list_all2_conv_all_nth in_set_conv_nth)
    then show "\<exists>s. jget row k = JStr s" using verified_text that by blast
  qed
  have "seal_evidence digest verify (sm_candidate m) (cp_identities c) = Inr ()"
    using seal_rows_ok [OF rows cid _ str str str _ rates, where s = "\<lparr>sl_owned = [], sl_tokens = [], sl_prompts = [], sl_tps = []\<rparr>"] owned cv
    by (simp add: seal_evidence_def c' length_fold_insert one tps)
  moreover have "validate_candidate (sm_candidate m) = Inr ()"
    using ok assms(5,6) ids len by (auto simp: validate_candidate_def accepted_stock_def c' tps Let_def)
  moreover have "is_ok (sealed_plan digest now (sm_candidate m) None)"
    using foreign_row_False [OF row0(3,2)] candidate_payload_canonical [OF _ measured] sealed_plan_time [OF assms(8,7)] by auto
  ultimately show ?thesis
    using ok by (auto simp: seal_candidate.simps is_ok_iff identities_equal_def c' accepted_stock_def)
qed

text \<open>
  A selected stock measurement can be sealed: when the selection returns a measurement that was
  imported from at least two verified runs of an exact candidate, sealing the measured candidate
  against the same evidence store returns a plan. (One run is enough for the selection, but not for
  the sealing.)
\<close>

theorem selected_stock_seals:
  assumes "import_stock_measurement digest verify memory c ids = Inr m"
    and "select_strongest_stock digest measurements total_vram_mib reserve_mib = Inr m"
    and "\<forall>mid row. verify mid = Inr row \<longrightarrow> verified_row digest c row" and "2 \<le> length ids"
    and "cp_rejection_reasons c = []" and "wl_policy (pi_workload (cp_identities c)) = EXACT"
    and "\<forall>v. is_hash (digest v)" and "is_text now"
  shows "\<exists>p. seal_candidate digest now (sm_candidate m) verify (cp_identities c) None = Inr p"
  by (rule selected_stock_plan [OF assms])

section \<open>An example selection\<close>

definition example_store :: "string \<Rightarrow> jrecord res" where
  "example_store mid = (if mid \<in> {''a'', ''b'', ''c''} then example_row mid else Inl (ValueError ''missing evidence''))"

definition example_memory :: "string \<Rightarrow> json res" where
  "example_memory mid = Inr (JObj [(''samples'', JArr [JObj [(''dedicated_bytes'', JInt 100)]])])"

definition example_stock :: stock_measurement where
  "example_stock = \<lparr>sm_candidate = example_candidate [''a'', ''b'', ''c''], sm_measurement_ids = [''a'', ''b'', ''c''],
     sm_decode_tps = [JInt 20, JInt 20, JInt 20], sm_exact = True, sm_peak_bytes = JInt 100, sm_cleanup = True,
     sm_exit_code = 0, sm_status = ''measured'', sm_key_sha256 = zero_hash\<rparr>"

lemma example_import:
  "import_stock_measurement example_digest example_store example_memory (example_candidate []) [''a'', ''b'', ''c''] = Inr example_stock"
  by code_simp

lemma example_stock_valid: "stock_valid example_digest 1000 256 example_stock = Inr True"
proof -
  have key: "canonical_sha256 example_digest (identities_payload (cp_identities (sm_candidate example_stock))) = Inr (sm_key_sha256 example_stock)"
    by code_simp
  have tps: "rmap (\<lambda>v. require_number v ''measured TPS'' MICRO) (sm_decode_tps example_stock) = Inr (sm_decode_tps example_stock)"
    by (simp add: example_stock_def example_tps)
  have memory: "memory_unsafe 1000 256 (sm_peak_bytes example_stock) = Inr False" by code_simp
  have cv: "stock_cv_pct example_stock = Inr (JFloat (Fin 0))"
    by (simp add: stock_cv_pct_def example_stock_def example_cv)
  show ?thesis
    unfolding stock_valid_def Let_def key rbind_Inr tps memory cv
    by (simp add: example_stock_def example_candidate_def example_settings_def example_identities_def example_workload_ir_def
        num_less_def num_val_def exact_num_def py_less_def)
qed

lemma example_selection: "select_strongest_stock example_digest [example_stock] 1000 256 = Inr example_stock"
proof -
  have "canonical_sha256 example_digest (identities_payload (cp_identities (sm_candidate example_stock))) = Inr zero_hash"
    by code_simp
  moreover have "\<exists>k. stock_key example_digest example_stock = Inr (k, example_stock)"
  proof -
    have "stat_mean [JInt 20, JInt 20, JInt 20] = Inr (JInt 20)" by (simp add: stat_mean_def ratio_def is_int_number_def)
    then show ?thesis
      by (simp add: stock_key_def mean_tps_def example_stock_def example_candidate_id)
  qed
  ultimately show ?thesis
    by (auto simp: select_strongest_stock_def Let_def example_stock_valid min_by_def)
qed

lemma example_verified: "example_store mid = Inr row \<Longrightarrow> verified_row example_digest (example_candidate []) row"
proof -
  assume "example_store mid = Inr row"
  then obtain c where c: "hex_char c" "mid = [c]" "example_row [c] = Inr row"
    by (auto simp: example_store_def hex_char_def split: if_splits)
  have settings: "canonical_sha256 example_digest (settings_payload example_settings) = Inr zero_hash"
    by (simp add: canonical_sha256_def canonical_example example_digest_def)
  have "valid_number (JInt 20) MICRO" by (rule valid_number_int) simp_all
  then show ?thesis using c
    by (auto simp: verified_row_def example_row_def is_hash_example is_hash_zero row_valid_flags_def row_validation_def
        settings example_candidate_def canonical_example ex_bool_eq simp del: replicate.simps)
qed

theorem select_strongest_stock_optimal_witness:
  "select_strongest_stock example_digest [example_stock] 1000 256 = Inr example_stock \<and> accepted_stock 1000 256 example_stock"
  using select_strongest_stock_optimal [OF example_selection] example_selection by blast

theorem selected_stock_seals_witness:
  "\<exists>p. seal_candidate example_digest ''now'' (sm_candidate example_stock) example_store example_identities None = Inr p"
proof -
  have "cp_identities (example_candidate []) = example_identities" "cp_rejection_reasons (example_candidate []) = []"
    "wl_policy (pi_workload (cp_identities (example_candidate []))) = EXACT"
    by (simp_all add: example_candidate_def example_identities_def example_workload_ir_def)
  moreover have "\<forall>v. is_hash (example_digest v)" "is_text ''now''"
    by (simp_all add: example_digest_def is_hash_zero is_text_def py_isspace_def)
  ultimately show ?thesis
    using selected_stock_seals [OF example_import example_selection] example_verified by auto
qed

end
