(* ===== verification/Stock_Search.thy ===== *)
theory Stock_Search
  imports Stock
begin

text \<open>
  \<open>compiler/stock_search.py\<close>: the scheduling space around a pristine candidate (thread counts from
  the host's topology, graph modes on and off), the frozen screening order, and the ranking of a
  complete screen. A host description is a decoded JSON object. The seeded generator's \<open>shuffle\<close> and
  the floating-point \<open>math.log\<close> and \<open>math.exp\<close> are arguments. The lemmas show that every candidate of a
  space differs from the base in threads and graph mode only, that tested and untested thread counts
  cover the machine, and that the ranking is a sorted permutation of the screened candidates.
\<close>

section \<open>Topology\<close>

function popcount :: "int \<Rightarrow> int" where
  "popcount n = (if n \<le> 0 then 0 else n mod 2 + popcount (n div 2))"
  by auto

termination popcount
  by (relation "measure nat") auto

declare popcount.simps [simp del]

text \<open>\<open>n.bit_count()\<close>.\<close>

definition bit_count :: "int \<Rightarrow> int" where
  "bit_count n = popcount \<bar>n\<bar>"

definition topology_anchors :: "jrecord \<Rightarrow> int \<Rightarrow> int list res" where
  "topology_anchors host incumbent_threads =
     (case jget host ''cpu'' of JArr [cpu] \<Rightarrow>
        rbind (as_record cpu) (\<lambda>c.
        rbind (require_int (jget c ''cores'') ''physical cores'' 1) (\<lambda>physical.
        rbind (require_int (jget c ''logical_processors'') ''logical processors'' 1) (\<lambda>logical.
        rbind (require_int (JInt incumbent_threads) ''incumbent threads'' 1) (\<lambda>incumbent.
        if \<not> (physical \<le> logical \<and> logical \<le> 64) \<or> logical < incumbent
        then Inl (ValueError ''unsupported topology or incumbent thread count'')
        else rbind (require_int (jget host ''process_affinity_mask'') ''process affinity'' 1) (\<lambda>process.
        rbind (require_int (jget host ''system_affinity_mask'') ''system affinity'' 1) (\<lambda>mask.
        if process \<noteq> mask \<or> bit_count mask \<noteq> logical then Inl (ValueError ''partial affinity or processor-group topology is unsupported'')
        else Inr (sort (remdups [physical, physical + (logical - physical) div 2, logical, incumbent]))))))))
     | _ \<Rightarrow> Inl (ValueError ''scheduling requires an unambiguous single-socket topology''))"

section \<open>Fingerprints\<close>

text \<open>\<open>d.pop(key)\<close> of a key that is present, on the decoded payload.\<close>

definition drop_keys :: "string list \<Rightarrow> json \<Rightarrow> json" where
  "drop_keys keys v = (case v of JObj d \<Rightarrow> JObj (filter (\<lambda>(k, x). k \<notin> set keys) d) | _ \<Rightarrow> v)"

definition semantic_fingerprint :: "(json \<Rightarrow> string) \<Rightarrow> candidate_plan \<Rightarrow> string res" where
  "semantic_fingerprint digest c =
     rbind (canonical_payload (identities_payload (cp_identities c))) (\<lambda>identities.
     rbind (subscript identities ''workload'') (\<lambda>workload.
     rbind (canonical_payload (settings_payload (cp_settings c))) (\<lambda>settings.
     canonical_sha256 digest (JObj [(''identities'', drop_keys [''workload'', ''workload_sha256''] identities),
       (''workload'', drop_keys [''threads'', ''cuda_graphs''] workload),
       (''settings'', drop_keys [''cuda_graphs''] settings)]))))"

section \<open>Scheduling spaces\<close>

record scheduling_space =
  ss_candidates :: "candidate_plan list"
  ss_excluded_threads :: "(int \<times> string) list"
  ss_untested_threads :: "int list"

text \<open>\<open>dataclasses.replace\<close> runs the constructors again on the stored fields.\<close>

definition with_threads :: "workload_ir \<Rightarrow> int \<Rightarrow> string \<Rightarrow> workload_ir res" where
  "with_threads w threads mode = WorkloadIR
     (map (\<lambda>(k, v). (k, if k = ''threads'' then JInt threads else if k = ''cuda_graphs'' then JStr mode else v)) (workload_fields w))"

definition with_graphs :: "runtime_settings \<Rightarrow> string \<Rightarrow> runtime_settings res" where
  "with_graphs s mode = RuntimeSettings (rs_static s) [(''gpu_layers'', rs_gpu_layers s), (''cpu_moe'', JBool (rs_cpu_moe s)),
     (''cuda_graphs'', JStr mode), (''kv_type_k'', JStr ''f16''), (''kv_type_v'', JStr ''f16''),
     (''batch_size'', JInt (rs_batch_size s)), (''microbatch_size'', JInt (rs_microbatch_size s)),
     (''cuda_pdl'', case rs_cuda_pdl s of None \<Rightarrow> JNull | Some c \<Rightarrow> JStr c)]"

definition space_candidate :: "(json \<Rightarrow> string) \<Rightarrow> candidate_plan \<Rightarrow> int \<Rightarrow> string \<Rightarrow> candidate_plan res" where
  "space_candidate digest base threads mode =
     rbind (with_threads (pi_workload (cp_identities base)) threads mode) (\<lambda>w.
     rbind (canonical_sha256 digest (workload_payload w)) (\<lambda>h. let i = cp_identities base in
     rbind (PlanIdentities digest (JStr (pi_model_sha256 i)) (JStr (pi_hardware_sha256 i)) (JStr h) (JStr (pi_runtime_sha256 i)) w) (\<lambda>identities.
     rbind (with_graphs (cp_settings base) mode) (fresh_candidate identities))))"

definition exclusion :: "int list \<Rightarrow> json \<times> json \<Rightarrow> (int \<times> string) res" where
  "exclusion anchors = (\<lambda>(threads, reason). rbind (require_int threads ''excluded thread count'' 1) (\<lambda>n.
     case reason of JStr r \<Rightarrow> if n \<notin> set anchors \<or> \<not> is_text r
         then Inl (ValueError ''exclusion must name a topology anchor and reason'') else Inr (n, r)
     | _ \<Rightarrow> Inl (ValueError ''exclusion must name a topology anchor and reason'')))"

definition mode_order :: "string list \<Rightarrow> string list" where
  "mode_order modes = sort_key (\<lambda>m. if m = ''on'' then 0 else 1 :: nat) modes"

text \<open>The exclusions are a dictionary from thread counts to reasons.\<close>

definition scheduling_space :: "(json \<Rightarrow> string) \<Rightarrow> candidate_plan \<Rightarrow> jrecord \<Rightarrow> string list \<Rightarrow> (json \<times> json) list
    \<Rightarrow> scheduling_space res" where
  "scheduling_space digest base host modes excluded =
     (if rs_static (cp_settings base) \<noteq> None \<or> rs_cuda_pdl (cp_settings base) \<noteq> None
      then Inl (ValueError ''scheduling space requires pristine fixed placement without PDL/static controls'')
      else if modes = [] \<or> \<not> set modes \<subseteq> {''on'', ''off''} \<or> \<not> distinct modes
      then Inl (ValueError ''invalid graph mode coverage'')
      else if rs_cuda_graphs (cp_settings base) \<notin> set modes
      then Inl (ValueError ''incumbent graph mode must remain covered'')
      else let incumbent = wl_threads (pi_workload (cp_identities base)) in
      rbind (topology_anchors host incumbent) (\<lambda>anchors.
      rbind (rmap (exclusion anchors) excluded) (\<lambda>exclusions.
      if incumbent \<in> fst ` set exclusions then Inl (ValueError ''incumbent cannot be excluded'')
      else rbind (rmap (\<lambda>(threads, mode). space_candidate digest base threads mode)
        (concat (map (\<lambda>threads. map (Pair threads) (mode_order modes))
          (filter (\<lambda>threads. threads \<notin> fst ` set exclusions) anchors)))) (\<lambda>candidates.
      let tested = map (\<lambda>c. wl_threads (pi_workload (cp_identities c))) candidates in
      rbind (case jget host ''cpu'' of JArr (JObj c # _) \<Rightarrow> dict_index c ''logical_processors'' | _ \<Rightarrow> Inl TypeError) (\<lambda>logical.
      Inr \<lparr>ss_candidates = candidates, ss_excluded_threads = sort exclusions,
        ss_untested_threads = filter (\<lambda>i. i \<notin> set tested) [1..the_int logical]\<rparr>)))))"

section \<open>Screening\<close>

definition screening_schedule :: "(nat \<Rightarrow> string list \<Rightarrow> string list) \<Rightarrow> json list \<Rightarrow> string list list res" where
  "screening_schedule shuffle ids =
     rbind (if length ids < 2 then Inr False else unique_values ids) (\<lambda>unique.
     if \<not> unique \<or> list_ex (\<lambda>v. case v of JStr s \<Rightarrow> s = [] | _ \<Rightarrow> True) ids
     then Inl (ValueError ''screening requires unique candidate identities'')
     else let names = map (\<lambda>v. case v of JStr s \<Rightarrow> s | _ \<Rightarrow> []) ids in
       Inr (map (\<lambda>k. shuffle k (sort names)) [0..<3]))"

definition screen_rate :: "jrecord \<times> nat \<times> string \<Rightarrow> ((nat \<times> string) \<times> json) res" where
  "screen_rate = (\<lambda>(row, block, cid).
     if jget row ''block'' \<noteq> JInt (int block) \<or> jget row ''candidate_id'' \<noteq> JStr cid
     then Inl (ValueError ''screening rows do not match frozen order'')
     else rbind (require_number (jget row ''decode_tps'') ''screening native TPS'' (dbl (1 / 10 ^ 12))) (\<lambda>rate.
       Inr ((block, cid), rate)))"

record screen_rank =
  sk_candidate_id :: string
  sk_geometric_ratio :: pyfloat
  sk_block_ratios :: "json list"
  sk_ratio_range :: "json \<times> json"
  sk_ratio_cv_pct :: json

definition rate_of :: "((nat \<times> string) \<times> json) list \<Rightarrow> nat \<Rightarrow> string \<Rightarrow> json" where
  "rate_of rates block cid = dict_get rates (block, cid) JNull"

definition min_number :: "json list \<Rightarrow> json" where
  "min_number xs = foldl (\<lambda>a b. if num_less b a then b else a) (hd xs) (tl xs)"

text \<open>
  One candidate's row: the ratios to the incumbent in the three blocks and their summary. A quotient
  that overflows to infinity makes \<open>statistics.stdev\<close> raise \<open>AttributeError\<close>.
\<close>

definition screen_row :: "(json \<Rightarrow> pyfloat) \<Rightarrow> (pyfloat \<Rightarrow> pyfloat res) \<Rightarrow> ((nat \<times> string) \<times> json) list \<Rightarrow> string
    \<Rightarrow> string \<Rightarrow> screen_rank res" where
  "screen_row logf expf rates incumbent cid =
     rbind (rmap (\<lambda>block. num_div (rate_of rates block cid) (rate_of rates block incumbent)) [0..<3]) (\<lambda>ratios.
     rbind (stat_mean (map (\<lambda>block. JFloat (fsub (logf (rate_of rates block cid)) (logf (rate_of rates block incumbent)))) [0..<3])) (\<lambda>m.
     rbind (expf (num_val m)) (\<lambda>ratio.
     rbind (max_number ratios) (\<lambda>largest.
     rbind (if list_ex (\<lambda>r. \<not> isfinite (num_val r)) ratios then Inl AttributeError else stat_stdev ratios) (\<lambda>s. rbind (num_mul (JInt 100) (JFloat s)) (\<lambda>h.
     rbind (stat_mean ratios) (\<lambda>mean. rbind (num_div h mean) (\<lambda>cv.
     Inr \<lparr>sk_candidate_id = cid, sk_geometric_ratio = ratio, sk_block_ratios = ratios,
       sk_ratio_range = (min_number ratios, largest), sk_ratio_cv_pct = cv\<rparr>))))))))"

definition screen_key :: "string \<Rightarrow> screen_rank \<Rightarrow> pyfloat \<times> bool \<times> string" where
  "screen_key incumbent r = (fneg (sk_geometric_ratio r), sk_candidate_id r \<noteq> incumbent, sk_candidate_id r)"

text \<open>
  The rows are computed in the order of the first block; the code iterates over a set, and the sort
  key is different for different candidates.
\<close>

definition rank_screening :: "(json \<Rightarrow> pyfloat) \<Rightarrow> (pyfloat \<Rightarrow> pyfloat res) \<Rightarrow> jrecord list \<Rightarrow> string
    \<Rightarrow> string list list \<Rightarrow> screen_rank list res" where
  "rank_screening logf expf rows incumbent schedule =
     (if length schedule \<noteq> 3 \<or> schedule ! 0 = [] \<or> incumbent \<notin> set (schedule ! 0)
      then Inl (ValueError ''invalid screening schedule/incumbent'')
      else let ids = remdups (schedule ! 0) in
      if list_ex (\<lambda>block. length block \<noteq> length ids \<or> set block \<noteq> set ids) schedule
      then Inl (ValueError ''screening schedule has missing/duplicate candidates'')
      else let expected = concat (map (\<lambda>block. map (Pair block) (schedule ! block)) [0..<3]) in
      if length rows \<noteq> length expected then Inl (ValueError ''screening incomplete'')
      else rbind (rmap screen_rate (zip rows expected)) (\<lambda>rates.
      rbind (rmap (screen_row logf expf rates incumbent) ids) (\<lambda>ranked. Inr (sort_key (screen_key incumbent) ranked))))"

section \<open>Replacement of threads and graph mode\<close>

lemma canonical_object_ok: "is_ok (canonical_payload (JObj d)) \<longleftrightarrow> (\<forall>v \<in> snd ` set d. is_ok (canonical_payload v))"
proof -
  have "is_ok (canonical_payload (JObj d)) \<longleftrightarrow> is_ok (rmap (\<lambda>(k, v). rbind (canonical_payload v) (\<lambda>w. Inr (k, w))) d)"
    by (simp add: is_ok_rbind) (simp add: is_ok_iff)
  also have "\<dots> \<longleftrightarrow> (\<forall>v \<in> snd ` set d. is_ok (canonical_payload v))"
    by (auto simp: is_ok_rmap is_ok_rbind split: prod.splits) (auto simp: is_ok_iff)
  finally show ?thesis .
qed

lemma canonical_ok: "is_ok (canonical_payload v) \<longleftrightarrow> canonical_payload v = Inr v"
  using canonical_payload_id by (auto simp: is_ok_iff)

lemma with_threads_ok:
  assumes "with_threads w threads mode = Inr w'"
  shows "workload_fields w' = map (\<lambda>(k, v). (k, if k = ''threads'' then JInt threads
      else if k = ''cuda_graphs'' then JStr mode else v)) (workload_fields w)"
    and "wl_threads w' = threads" and "wl_cuda_graphs w' = mode"
proof -
  let ?k = "map (\<lambda>(k, v). (k, if k = ''threads'' then JInt threads else if k = ''cuda_graphs'' then JStr mode else v)) (workload_fields w)"
  have "bind_kwargs workload_defaults ?k = Inr ?k"
    by (rule bind_kwargs_id) (simp_all add: workload_fields_def workload_defaults_def)
  then show f: "workload_fields w' = ?k" using WorkloadIR_fields [OF assms [unfolded with_threads_def]] by simp
  then show "wl_threads w' = threads" "wl_cuda_graphs w' = mode" by (simp_all add: workload_fields_def)
qed

lemma with_graphs_ok:
  assumes "with_graphs s mode = Inr s'"
  shows "s' = s\<lparr>rs_cuda_graphs := mode\<rparr> \<and> gpu_layers_ok (rs_gpu_layers s)"
proof -
  let ?k = "[(''gpu_layers'', rs_gpu_layers s), (''cpu_moe'', JBool (rs_cpu_moe s)),
     (''cuda_graphs'', JStr mode), (''kv_type_k'', JStr ''f16''), (''kv_type_v'', JStr ''f16''),
     (''batch_size'', JInt (rs_batch_size s)), (''microbatch_size'', JInt (rs_microbatch_size s)),
     (''cuda_pdl'', case rs_cuda_pdl s of None \<Rightarrow> JNull | Some c \<Rightarrow> JStr c)]"
  have "bind_kwargs settings_specs ?k = Inr ?k" by (rule bind_kwargs_id) (simp_all add: settings_specs_def)
  then show ?thesis using assms
    by (auto simp: with_graphs_def RuntimeSettings_def rbind_eq_Inr if_Inl_eq_Inr require_simps on_off_ok require_bool_ok
        cuda_pdl_control_def split: option.splits if_splits)
qed

lemma fresh_candidate_ok:
  "fresh_candidate i s = Inr c \<Longrightarrow> cp_identities c = i \<and> cp_settings c = s \<and> cp_status c = UNMEASURED"
  by (auto simp: fresh_candidate_def CandidatePlan_def CandidateStatus_def status_value_def rbind_eq_Inr split: if_splits)

lemma settings_canonical:
  assumes "gpu_layers_ok (rs_gpu_layers s)" and "rs_static s = None"
  shows "canonical_payload (settings_payload s) = Inr (settings_payload s)"
  using assms by (auto simp: settings_payload_def gpu_layers_ok_def split: json.splits option.splits)

text \<open>The fingerprint, once the payloads are canonical.\<close>

definition fingerprint_payload :: "candidate_plan \<Rightarrow> json" where
  "fingerprint_payload c = (let i = cp_identities c in
     JObj [(''identities'', JObj [(''model_sha256'', JStr (pi_model_sha256 i)), (''hardware_sha256'', JStr (pi_hardware_sha256 i)),
         (''runtime_sha256'', JStr (pi_runtime_sha256 i))]),
       (''workload'', drop_keys [''threads'', ''cuda_graphs''] (workload_payload (pi_workload i))),
       (''settings'', drop_keys [''cuda_graphs''] (settings_payload (cp_settings c)))])"

lemma semantic_fingerprint_eq:
  assumes "is_ok (canonical_payload (workload_payload (pi_workload (cp_identities c))))"
    and "canonical_payload (settings_payload (cp_settings c)) = Inr (settings_payload (cp_settings c))"
  shows "semantic_fingerprint digest c = canonical_sha256 digest (fingerprint_payload c)"
proof -
  have "is_ok (canonical_payload (identities_payload (cp_identities c)))"
    unfolding identities_payload_def canonical_object_ok using assms(1) by simp
  then have "canonical_payload (identities_payload (cp_identities c)) = Inr (identities_payload (cp_identities c))"
    by (simp add: canonical_ok)
  then show ?thesis
    by (simp add: semantic_fingerprint_def assms(2) subscript_def dict_index_def identities_payload_def
        drop_keys_def fingerprint_payload_def Let_def)
qed

lemma space_candidate_ok:
  assumes "space_candidate digest base threads mode = Inr c" and "rs_static (cp_settings base) = None"
  shows "semantic_fingerprint digest c = semantic_fingerprint digest base
    \<and> wl_threads (pi_workload (cp_identities c)) = threads \<and> rs_cuda_graphs (cp_settings c) = mode \<and> cp_status c = UNMEASURED"
proof -
  let ?w = "pi_workload (cp_identities base)" and ?i = "cp_identities base" and ?s = "cp_settings base"
  obtain w h i s where w: "with_threads ?w threads mode = Inr w" and h: "canonical_sha256 digest (workload_payload w) = Inr h"
    and i: "PlanIdentities digest (JStr (pi_model_sha256 ?i)) (JStr (pi_hardware_sha256 ?i)) (JStr h) (JStr (pi_runtime_sha256 ?i)) w = Inr i"
    and s: "with_graphs ?s mode = Inr s" and c: "fresh_candidate i s = Inr c"
    using assms(1) by (auto simp: space_candidate_def Let_def rbind_eq_Inr)
  note fields = with_threads_ok [OF w]
  have i': "pi_workload i = w" "pi_model_sha256 i = pi_model_sha256 ?i" "pi_hardware_sha256 i = pi_hardware_sha256 ?i"
    "pi_runtime_sha256 i = pi_runtime_sha256 ?i"
    using i by (auto simp: PlanIdentities_def rbind_eq_Inr if_Inl_eq_Inr require_simps)
  have s': "s = ?s\<lparr>rs_cuda_graphs := mode\<rparr>" "gpu_layers_ok (rs_gpu_layers ?s)" using with_graphs_ok [OF s] by auto
  have c': "cp_identities c = i" "cp_settings c = s" "cp_status c = UNMEASURED" using fresh_candidate_ok [OF c] by auto
  have new: "is_ok (canonical_payload (workload_payload w))"
    using h by (auto simp: canonical_sha256_def rbind_eq_Inr is_ok_iff)
  have old: "is_ok (canonical_payload (workload_payload ?w))"
  proof -
    have "is_ok (canonical_payload v)" if "(k, v) \<in> set (workload_fields ?w)" for k v
    proof (cases "k = ''threads'' \<or> k = ''cuda_graphs''")
      case True
      then have "(\<exists>n. v = JInt n) \<or> (\<exists>x. v = JStr x)" using that by (auto simp: workload_fields_def)
      then show ?thesis by auto
    next
      case False
      then have "(k, v) \<in> set (workload_fields w)" unfolding fields(1) using that by force
      then show ?thesis using new unfolding workload_payload_def canonical_object_ok by force
    qed
    then show ?thesis unfolding workload_payload_def canonical_object_ok by auto
  qed
  have "fingerprint_payload c = fingerprint_payload base"
    by (simp add: fingerprint_payload_def Let_def c' i' s'(1) drop_keys_def workload_payload_def fields(1) settings_payload_def)
      (simp add: workload_fields_def)
  moreover have "semantic_fingerprint digest c = canonical_sha256 digest (fingerprint_payload c)"
    using new s' assms(2) by (intro semantic_fingerprint_eq) (simp_all add: c' i' settings_canonical)
  moreover have "semantic_fingerprint digest base = canonical_sha256 digest (fingerprint_payload base)"
    using old s' assms(2) by (intro semantic_fingerprint_eq) (simp_all add: settings_canonical)
  ultimately show ?thesis using fields c' i' s' by simp
qed

section \<open>Coverage of a space\<close>

lemma dict_index_of_jget: "jget r k = v \<Longrightarrow> v \<noteq> JNull \<Longrightarrow> dict_index r k = Inr v"
  by (auto simp: dict_index_def jget_def dict_get_def split: option.splits)

lemma topology_anchors_ok:
  assumes "topology_anchors host threads = Inr anchors"
  shows "\<exists>c physical logical. jget host ''cpu'' = JArr [JObj c] \<and> jget c ''cores'' = JInt physical
    \<and> jget c ''logical_processors'' = JInt logical \<and> dict_index c ''logical_processors'' = Inr (JInt logical)
    \<and> distinct anchors \<and> sorted anchors \<and> set anchors = {physical, physical + (logical - physical) div 2, logical, threads}
    \<and> 1 \<le> physical \<and> physical \<le> logical \<and> logical \<le> 64 \<and> 1 \<le> threads \<and> threads \<le> logical"
proof -
  obtain cpu where cpu: "jget host ''cpu'' = JArr [cpu]"
    using assms by (auto simp: topology_anchors_def split: json.splits list.splits)
  then obtain c where c: "cpu = JObj c" using assms by (auto simp: topology_anchors_def as_record_def split: json.splits)
  obtain physical logical where l: "jget c ''cores'' = JInt physical" "jget c ''logical_processors'' = JInt logical" "1 \<le> physical" "physical \<le> logical" "logical \<le> 64"
      "1 \<le> threads" "threads \<le> logical"
    and a: "anchors = sort (remdups [physical, physical + (logical - physical) div 2, logical, threads])"
    using assms unfolding topology_anchors_def cpu c as_record_def
    by (simp add: rbind_eq_Inr if_Inl_eq_Inr require_simps del: remdups.simps) (elim exE conjE, simp add: not_less)
  have "dict_index c ''logical_processors'' = Inr (JInt logical)" using l(2) by (rule dict_index_of_jget) simp
  moreover have "distinct anchors" "sorted anchors" unfolding a by simp_all
  moreover have "set anchors = {physical, physical + (logical - physical) div 2, logical, threads}" unfolding a set_sort set_remdups by (simp only: list.set)
  ultimately show ?thesis using cpu c l by blast
qed

lemma exclusion_ok: "exclusion anchors e = Inr (n, reason) \<Longrightarrow> n \<in> set anchors \<and> is_text reason"
  by (cases "snd e") (auto simp: exclusion_def rbind_eq_Inr if_Inl_eq_Inr split: prod.splits)

lemma set_mode_order [simp]: "set (mode_order modes) = set modes"
  by (simp add: mode_order_def)

text \<open>What the candidates of a space are.\<close>

lemma scheduling_space_ok:
  assumes "scheduling_space digest base host modes excluded = Inr s"
  shows "\<exists>anchors exclusions c logical. topology_anchors host (wl_threads (pi_workload (cp_identities base))) = Inr anchors
    \<and> set (ss_excluded_threads s) = set exclusions \<and> fst ` set exclusions \<subseteq> set anchors
    \<and> wl_threads (pi_workload (cp_identities base)) \<notin> fst ` set exclusions
    \<and> rs_static (cp_settings base) = None \<and> rs_cuda_graphs (cp_settings base) \<in> set modes
    \<and> rmap (\<lambda>(threads, mode). space_candidate digest base threads mode)
        (concat (map (\<lambda>threads. map (Pair threads) (mode_order modes))
          (filter (\<lambda>threads. threads \<notin> fst ` set exclusions) anchors))) = Inr (ss_candidates s)
    \<and> jget host ''cpu'' = JArr [JObj c] \<and> dict_index c ''logical_processors'' = Inr (JInt logical)
    \<and> ss_untested_threads s = filter (\<lambda>i. i \<notin> (\<lambda>c. wl_threads (pi_workload (cp_identities c))) ` set (ss_candidates s)) [1..logical]"
proof -
  let ?t = "wl_threads (pi_workload (cp_identities base))"
  obtain anchors exclusions candidates logical where
    a: "topology_anchors host ?t = Inr anchors" and e: "rmap (exclusion anchors) excluded = Inr exclusions"
    and p: "rs_static (cp_settings base) = None" "rs_cuda_graphs (cp_settings base) \<in> set modes" "?t \<notin> fst ` set exclusions"
    and r: "rmap (\<lambda>(threads, mode). space_candidate digest base threads mode)
        (concat (map (\<lambda>threads. map (Pair threads) (mode_order modes))
          (filter (\<lambda>threads. threads \<notin> fst ` set exclusions) anchors))) = Inr candidates"
    and l: "(case jget host ''cpu'' of JArr (JObj c # _) \<Rightarrow> dict_index c ''logical_processors'' | _ \<Rightarrow> Inl TypeError) = Inr logical"
    and s: "s = \<lparr>ss_candidates = candidates, ss_excluded_threads = sort exclusions,
        ss_untested_threads = filter (\<lambda>i. i \<notin> set (map (\<lambda>c. wl_threads (pi_workload (cp_identities c))) candidates)) [1..the_int logical]\<rparr>"
    using assms unfolding scheduling_space_def Let_def rbind_eq_Inr if_Inl_eq_Inr by (elim exE conjE) simp
  obtain c n where c: "jget host ''cpu'' = JArr [JObj c]" "dict_index c ''logical_processors'' = Inr (JInt n)"
    using topology_anchors_ok [OF a] by blast
  then have n: "logical = JInt n" using l by simp
  have "fst ` set exclusions \<subseteq> set anchors"
  proof
    fix x assume "x \<in> fst ` set exclusions"
    then obtain reason where "(x, reason) \<in> set exclusions" by auto
    then show "x \<in> set anchors" using rmap_elem [OF e] exclusion_ok by blast
  qed
  then show ?thesis using a p r c by (intro exI [of _ anchors] exI [of _ exclusions] exI [of _ c] exI [of _ n]) (simp add: s n the_int_def)
qed

text \<open>
  C39. A scheduling space is a controlled experiment: every candidate has the semantic fingerprint of
  the base plan, so it differs in threads and graph mode only; the incumbent's own setting is among
  them. The thread counts tried are the anchors of the host's one processor (its physical cores,
  its logical processors, the middle between them and the incumbent's count) that are not excluded,
  each in every graph mode; and the tested and the untested thread counts partition the range from
  one to the number of logical processors the host description gives.
\<close>

theorem scheduling_space_controlled:
  assumes "scheduling_space digest base host modes excluded = Inr s"
  shows "(\<forall>c \<in> set (ss_candidates s). semantic_fingerprint digest c = semantic_fingerprint digest base)
    \<and> (\<exists>anchors cpu physical logical. topology_anchors host (wl_threads (pi_workload (cp_identities base))) = Inr anchors
        \<and> jget host ''cpu'' = JArr [JObj cpu] \<and> jget cpu ''cores'' = JInt physical
        \<and> jget cpu ''logical_processors'' = JInt logical
        \<and> set anchors = {physical, physical + (logical - physical) div 2, logical, wl_threads (pi_workload (cp_identities base))}
        \<and> (\<lambda>c. (wl_threads (pi_workload (cp_identities c)), rs_cuda_graphs (cp_settings c))) ` set (ss_candidates s)
            = (set anchors - fst ` set (ss_excluded_threads s)) \<times> set modes
        \<and> wl_threads (pi_workload (cp_identities base)) \<in> set anchors - fst ` set (ss_excluded_threads s)
        \<and> rs_cuda_graphs (cp_settings base) \<in> set modes
        \<and> (\<lambda>c. wl_threads (pi_workload (cp_identities c))) ` set (ss_candidates s) \<union> set (ss_untested_threads s) = {1..logical}
        \<and> (\<lambda>c. wl_threads (pi_workload (cp_identities c))) ` set (ss_candidates s) \<inter> set (ss_untested_threads s) = {}
        \<and> distinct (ss_untested_threads s) \<and> sorted (ss_untested_threads s))"
proof -
  let ?t = "wl_threads (pi_workload (cp_identities base))" and ?th = "\<lambda>c. wl_threads (pi_workload (cp_identities c))"
  obtain anchors exclusions c logical where a: "topology_anchors host ?t = Inr anchors"
    and e: "set (ss_excluded_threads s) = set exclusions" "fst ` set exclusions \<subseteq> set anchors" "?t \<notin> fst ` set exclusions"
    and p: "rs_static (cp_settings base) = None" "rs_cuda_graphs (cp_settings base) \<in> set modes"
    and r: "rmap (\<lambda>(threads, mode). space_candidate digest base threads mode)
        (concat (map (\<lambda>threads. map (Pair threads) (mode_order modes))
          (filter (\<lambda>threads. threads \<notin> fst ` set exclusions) anchors))) = Inr (ss_candidates s)"
    and cpu: "jget host ''cpu'' = JArr [JObj c]" "dict_index c ''logical_processors'' = Inr (JInt logical)"
    and u: "ss_untested_threads s = filter (\<lambda>i. i \<notin> ?th ` set (ss_candidates s)) [1..logical]"
    using scheduling_space_ok [OF assms] by blast
  obtain physical where host: "jget c ''cores'' = JInt physical" "jget c ''logical_processors'' = JInt logical"
    and set: "set anchors = {physical, physical + (logical - physical) div 2, logical, ?t}"
    and bounds: "1 \<le> physical" "physical \<le> logical" "1 \<le> ?t" "?t \<le> logical"
    using topology_anchors_ok [OF a] cpu by auto
  have anchors: "?t \<in> set anchors" "set anchors \<subseteq> {1..logical}" using bounds by (auto simp: set add_increasing2)
  have made: "\<exists>t m. t \<in> set anchors - fst ` set exclusions \<and> m \<in> set modes \<and> space_candidate digest base t m = Inr x"
    if "x \<in> set (ss_candidates s)" for x
    using rmap_elem [OF r that] by auto
  have "\<exists>x \<in> set (ss_candidates s). space_candidate digest base t m = Inr x"
    if "t \<in> set anchors - fst ` set exclusions" "m \<in> set modes" for t m
    using rmap_elem_fwd [OF r, of "(t, m)"] that by auto
  then have grid: "(\<lambda>c. (?th c, rs_cuda_graphs (cp_settings c))) ` set (ss_candidates s)
      = (set anchors - fst ` set exclusions) \<times> set modes" (is "?l = ?r")
  proof -
    have "?l \<subseteq> ?r" using made space_candidate_ok [OF _ p(1)] by fastforce
    moreover have "?r \<subseteq> ?l"
    proof
      fix k assume "k \<in> ?r"
      then obtain t m where k: "k = (t, m)" "t \<in> set anchors - fst ` set exclusions" "m \<in> set modes" by auto
      then obtain x where "x \<in> set (ss_candidates s)" "space_candidate digest base t m = Inr x"
        using rmap_elem_fwd [OF r, of "(t, m)"] by auto
      then show "k \<in> ?l" using space_candidate_ok [OF _ p(1)] k(1) by force
    qed
    ultimately show ?thesis by blast
  qed
  have "?th ` set (ss_candidates s) \<subseteq> {1..logical}" using made space_candidate_ok [OF _ p(1)] anchors(2) by fastforce
  then have "?th ` set (ss_candidates s) \<union> set (ss_untested_threads s) = {1..logical}"
    "?th ` set (ss_candidates s) \<inter> set (ss_untested_threads s) = {}" by (auto simp: u)
  moreover have "distinct (ss_untested_threads s)" "sorted (ss_untested_threads s)" by (simp_all add: u sorted_wrt_filter)
  moreover have "\<forall>x \<in> set (ss_candidates s). semantic_fingerprint digest x = semantic_fingerprint digest base"
    using made space_candidate_ok [OF _ p(1)] by blast
  ultimately show ?thesis unfolding e(1)
    by (intro conjI exI [of _ anchors] exI [of _ c] exI [of _ physical] exI [of _ logical]
        a cpu(1) host set grid p(2) DiffI anchors(1) e(3))
qed

definition example_host :: jrecord where
  "example_host = [(''cpu'', JArr [JObj [(''cores'', JInt 6), (''logical_processors'', JInt 12)]]),
     (''process_affinity_mask'', JInt 4095), (''system_affinity_mask'', JInt 4095)]"

lemma example_anchors: "topology_anchors example_host 12 = Inr [6, 9, 12]"
  by code_simp

lemma example_space_ok:
  "is_ok (scheduling_space example_digest (example_candidate []) example_host [''on''] [(JInt 9, JStr ''noisy'')])"
  by code_simp

theorem scheduling_space_controlled_witness:
  "\<exists>s. scheduling_space example_digest (example_candidate []) example_host [''on''] [(JInt 9, JStr ''noisy'')] = Inr s
    \<and> (\<lambda>c. wl_threads (pi_workload (cp_identities c))) ` set (ss_candidates s) \<union> set (ss_untested_threads s) = {1..12}"
proof -
  obtain s where s: "scheduling_space example_digest (example_candidate []) example_host [''on''] [(JInt 9, JStr ''noisy'')] = Inr s"
    using example_space_ok unfolding is_ok_iff by (elim exE)
  obtain cpu logical where cpu: "jget example_host ''cpu'' = JArr [JObj cpu]" "jget cpu ''logical_processors'' = JInt logical"
    and cover: "(\<lambda>c. wl_threads (pi_workload (cp_identities c))) ` set (ss_candidates s) \<union> set (ss_untested_threads s) = {1..logical}"
    using scheduling_space_controlled [OF s, THEN conjunct2] by (elim exE conjE) (rule that)
  have "logical = 12" using cpu by (auto simp: example_host_def jget_def dict_get_def)
  with s cover show ?thesis by (intro exI [of _ s] conjI) simp_all
qed

end
