(* ===== verification/Reference.thy ===== *)
theory Reference
  imports Compiler_Schema
begin

text \<open>
  \<open>compiler/reference.py\<close>: the strict readers of the reference workload and of the runtime manifest.
  A document is the result of reading and decoding a file; the UTF-8 text of the prompt file and the
  file name of a path (\<open>Path(p).name\<close>) are functions of the path. The canonical text of a workload
  is represented by the value it decodes to, with its keys sorted. The lemmas show that every accepted
  server workload is a workload of the compiler, and that no historical one is.
\<close>

definition read_json :: "json res \<Rightarrow> jrecord res" where
  "read_json document = (case document of Inl e \<Rightarrow> Inl (ValueError ''invalid JSON input'')
     | Inr (JObj d) \<Rightarrow> Inr d | Inr _ \<Rightarrow> Inl (ValueError ''expected JSON object''))"

definition canonical_json :: "json \<Rightarrow> json res" where
  "canonical_json v = rbind (canonical_payload v) (\<lambda>p. Inr (sort_keys p))"

section \<open>Reference workloads\<close>

definition SERVER_FIELDS :: "string list" where
  "SERVER_FIELDS = [''schema_version'', ''objective'', ''concurrency'', ''policy'', ''runtime_interface'',
     ''prompt_file'', ''context_size'', ''predict_tokens'', ''threads'', ''seed'', ''temperature'',
     ''ignore_eos'', ''cache_prompt'', ''kv_type_k'', ''kv_type_v'', ''cuda_graphs'',
     ''batch_size'', ''microbatch_size'', ''warmup_runs'', ''measured_runs'',
     ''minimum_vram_reserve_mib'', ''maximum_cv_pct'', ''confirmation_pairs'',
     ''bootstrap_samples'', ''bootstrap_seed'', ''replay_tolerance_pct'',
     ''health_timeout_seconds'', ''completion_timeout_seconds'']"

definition HISTORICAL_FIELDS :: "string list" where
  "HISTORICAL_FIELDS = [''schema_version'', ''objective'', ''concurrency'', ''policy'', ''runtime_interface'',
     ''prompt'', ''context_size'', ''predict_tokens'', ''threads'', ''seed'', ''temperature'',
     ''ignore_eos'', ''cpu_moe'', ''gpu_layers'', ''cuda_graphs'', ''static_layers'',
     ''static_precompute'', ''runtime_arguments'', ''environment'', ''exact_plan_eligible'']"

definition FIXED_FIELDS :: "(string \<times> json) list" where
  "FIXED_FIELDS = [(''schema_version'', JStr PLAN_SCHEMA), (''objective'', JStr ''decode_tps''), (''policy'', JStr ''exact''),
     (''concurrency'', JInt 1), (''temperature'', JFloat (Fin 0)), (''ignore_eos'', JBool True)]"

text \<open>The literal \<open>0.001\<close>.\<close>

definition MILLI :: pyfloat where
  "MILLI = dbl (1 / 1000)"

definition positive_ints :: "jrecord \<Rightarrow> string list \<Rightarrow> int list res" where
  "positive_ints r names = rmap (\<lambda>name. require_int (jget r name) name 1) names"

definition server_int_fields :: "string list" where
  "server_int_fields = [''warmup_runs'', ''measured_runs'', ''batch_size'', ''microbatch_size'',
     ''minimum_vram_reserve_mib'', ''confirmation_pairs'', ''bootstrap_samples'',
     ''health_timeout_seconds'', ''completion_timeout_seconds'']"

text \<open>The branch of a server workload; it adds the text of the prompt file.\<close>

definition server_workload :: "(string \<Rightarrow> string res) \<Rightarrow> jrecord \<Rightarrow> jrecord res" where
  "server_workload prompt_text value0 =
     rbind (positive_ints value0 server_int_fields) (\<lambda>_.
     rbind (require_int (jget value0 ''bootstrap_seed'') ''bootstrap_seed'' 0) (\<lambda>_.
     rbind (rmap (\<lambda>name. require_number (jget value0 name) name MILLI) [''maximum_cv_pct'', ''replay_tolerance_pct'']) (\<lambda>_.
     if the_int (jget value0 ''batch_size'') < the_int (jget value0 ''microbatch_size'')
     then Inl (ValueError ''microbatch_size exceeds batch_size'')
     else if jget value0 ''kv_type_k'' \<noteq> JStr ''f16'' \<or> jget value0 ''kv_type_v'' \<noteq> JStr ''f16''
     then Inl (ValueError ''exact workload requires f16 KV'')
     else if jget value0 ''cache_prompt'' \<noteq> JBool False then Inl (ValueError ''cache_prompt must be false'')
     else case jget value0 ''prompt_file'' of
       JStr file \<Rightarrow> if file = [] then Inl (ValueError ''prompt_file must be nonempty'')
         else (case prompt_text file of Inl e \<Rightarrow> Inl (ValueError ''cannot read UTF-8 prompt'')
           | Inr s \<Rightarrow> Inr (dict_set ''prompt'' (JStr s) value0))
     | _ \<Rightarrow> Inl (ValueError ''prompt_file must be nonempty''))))"

definition historical_workload :: "jrecord \<Rightarrow> jrecord res" where
  "historical_workload value0 =
     (if jget value0 ''exact_plan_eligible'' \<noteq> JBool False
      then Inl (ValueError ''historical CLI evidence cannot be exact-plan eligible'')
      else if jget value0 ''cpu_moe'' \<noteq> JBool True \<or> jget value0 ''static_precompute'' \<noteq> JBool True
      then Inl (ValueError ''invalid historical static configuration'')
      else case jget value0 ''static_layers'' of
        JArr layers \<Rightarrow> if layers = [] \<or> 12 < length layers then Inl (ValueError ''historical static layer capacity exceeded'')
          else rbind (rmap (\<lambda>layer. require_int layer ''static layer'' 0) layers) (\<lambda>ids.
            if \<not> distinct ids then Inl (ValueError ''duplicate static layers'')
            else case (jget value0 ''runtime_arguments'', jget value0 ''environment'') of
              (JArr args, JObj _) \<Rightarrow> if list_all (\<lambda>a. case a of JStr _ \<Rightarrow> True | _ \<Rightarrow> False) args then Inr value0
                else Inl (ValueError ''invalid historical launch contract'')
            | _ \<Rightarrow> Inl (ValueError ''invalid historical launch contract''))
      | _ \<Rightarrow> Inl (ValueError ''historical static layer capacity exceeded''))"

definition workload_interface :: "jrecord \<Rightarrow> string res" where
  "workload_interface value0 = (case jget value0 ''runtime_interface'' of
     JStr s \<Rightarrow> if s = ''server_completion'' \<or> s = ''historical_cli'' then Inr s
       else Inl (ValueError ''unsupported runtime_interface'')
   | v \<Rightarrow> if unhashable v then Inl TypeError else Inl (ValueError ''unsupported runtime_interface''))"

definition load_reference_workload :: "(string \<Rightarrow> string res) \<Rightarrow> json res \<Rightarrow> json res" where
  "load_reference_workload prompt_text document =
     rbind (read_json document) (\<lambda>v0.
     rbind (workload_interface v0) (\<lambda>interface.
     let expected = (if interface = ''server_completion'' then SERVER_FIELDS else HISTORICAL_FIELDS) in
     if set (jkeys v0) \<noteq> set expected then Inl (ValueError ''workload fields mismatch'')
     else if list_ex (\<lambda>(field, wanted). \<not> jeq (jget v0 field) wanted) FIXED_FIELDS then Inl (ValueError ''unsupported field'')
     else if \<not> is_int_value (jget v0 ''concurrency'') \<or> \<not> is_bool_value (jget v0 ''ignore_eos'')
     then Inl (ValueError ''invalid concurrency/ignore_eos type'')
     else rbind (require_number (jget v0 ''temperature'') ''temperature'' (Fin 0)) (\<lambda>_.
     rbind (positive_ints v0 [''context_size'', ''predict_tokens'', ''threads'']) (\<lambda>_.
     rbind (require_int (jget v0 ''seed'') ''seed'' 0) (\<lambda>_.
     rbind (if interface = ''server_completion'' then server_workload prompt_text v0 else historical_workload v0) (\<lambda>v.
     rbind (on_off (jget v ''cuda_graphs'') ''invalid cuda_graphs setting'') (\<lambda>_.
     rbind (require_text (jget v ''prompt'') ''prompt'') (\<lambda>_.
     if the_int (jget v ''context_size'') \<le> the_int (jget v ''predict_tokens'')
     then Inl (ValueError ''generation must fit context'')
     else canonical_json (JObj v)))))))))"

section \<open>Runtime manifests\<close>

definition is_commit :: "json \<Rightarrow> bool" where
  "is_commit v = (case v of JStr s \<Rightarrow> length s = 40 \<and> list_all hex_char s | _ \<Rightarrow> False)"

definition is_digest :: "json \<Rightarrow> bool" where
  "is_digest v = (case v of JStr s \<Rightarrow> is_hash s | _ \<Rightarrow> False)"

definition REQUIRED_DEPENDENCIES :: "string list" where
  "REQUIRED_DEPENDENCIES = [''ggml-base.dll'', ''ggml-cpu.dll'', ''ggml-cuda.dll'', ''ggml.dll'',
     ''llama-common.dll'', ''llama-cli-impl.dll'', ''llama-server-impl.dll'', ''llama.dll'']"

definition ends_with :: "string \<Rightarrow> string \<Rightarrow> bool" where
  "ends_with suffix s \<longleftrightarrow> length suffix \<le> length s \<and> drop (length s - length suffix) s = suffix"

text \<open>\<open>f'{index:04d}-'\<close>.\<close>

definition patch_prefix :: "nat \<Rightarrow> string" where
  "patch_prefix index = (let digits = int_str (int index) in replicate (4 - length digits) CHR ''0'' @ digits @ ''-'')"

definition manifest_patch :: "(string \<Rightarrow> string) \<Rightarrow> nat \<times> json \<Rightarrow> json res" where
  "manifest_patch path_name = (\<lambda>(index, patch). case patch of
     JObj p \<Rightarrow> if set (jkeys p) \<noteq> {''path'', ''sha256''} then Inl (ValueError ''invalid patch record'')
       else (case jget p ''path'' of
           JStr file \<Rightarrow> let prefix = patch_prefix index in
             if take (length prefix) (path_name file) = prefix then Inr (jget p ''sha256'')
             else Inl (ValueError ''invalid patch order'')
         | _ \<Rightarrow> Inl (ValueError ''invalid patch order''))
   | _ \<Rightarrow> Inl (ValueError ''invalid patch record''))"

definition json_object :: "json \<Rightarrow> string \<Rightarrow> jrecord res" where
  "json_object v message = (case v of JObj d \<Rightarrow> Inr d | _ \<Rightarrow> Inl (ValueError message))"

definition json_array :: "json \<Rightarrow> string \<Rightarrow> json list res" where
  "json_array v message = (case v of JArr xs \<Rightarrow> Inr xs | _ \<Rightarrow> Inl (ValueError message))"

definition nonempty_string :: "json \<Rightarrow> bool" where
  "nonempty_string v = (case v of JStr s \<Rightarrow> s \<noteq> [] | _ \<Rightarrow> False)"

definition load_runtime_manifest :: "(string \<Rightarrow> string) \<Rightarrow> json res \<Rightarrow> jrecord res" where
  "load_runtime_manifest path_name document =
     rbind (read_json document) (\<lambda>v.
     if jget v ''schema_version'' \<noteq> JStr PLAN_SCHEMA \<or> jget v ''launcher_abi'' \<noteq> JStr PLAN_SCHEMA
     then Inl (ValueError ''unsupported runtime schema/launcher ABI'')
     else if \<not> is_commit (jget v ''upstream_commit'') \<or> \<not> is_commit (jget v ''expertflow_commit'')
     then Inl (ValueError ''invalid runtime commit'')
     else rbind (json_object (jget v ''binaries'') ''runtime manifest requires CLI and server binary identities'') (\<lambda>binaries.
     if set (jkeys binaries) \<noteq> {''llama-cli.exe'', ''llama-server.exe''}
     then Inl (ValueError ''runtime manifest requires CLI and server binary identities'')
     else rbind (json_array (jget v ''patches'') ''invalid ordered patches'') (\<lambda>patches.
     rbind (json_object (jget v ''dependencies'') ''runtime manifest requires pinned dependency identities'') (\<lambda>dependencies.
     if dependencies = [] then Inl (ValueError ''runtime manifest requires pinned dependency identities'')
     else if list_ex (\<lambda>name. path_name name \<noteq> name \<or> \<not> ends_with ''.dll'' name) (jkeys dependencies)
     then Inl (ValueError ''invalid runtime dependency name'')
     else if \<not> set REQUIRED_DEPENDENCIES \<subseteq> set (jkeys dependencies)
     then Inl (ValueError ''missing pinned implementation dependency'')
     else rbind (rmap (manifest_patch path_name) (zip [1..<Suc (length patches)] patches)) (\<lambda>patch_digests.
     if \<not> list_all is_digest (map snd binaries @ map snd dependencies @ [jget v ''cuda_runtime_sha256''] @ patch_digests)
     then Inl (ValueError ''invalid runtime SHA-256'')
     else rbind (json_object (jget v ''capabilities'') ''invalid runtime capabilities'') (\<lambda>capabilities.
     if set (jkeys capabilities) \<noteq> {''max_static_layers'', ''max_static_shadows''}
     then Inl (ValueError ''invalid runtime capabilities'')
     else rbind (rmap (\<lambda>(key, capacity). require_int capacity key 0) capabilities) (\<lambda>capacities.
     if patches = [] \<and> (jget v ''expertflow_commit'' \<noteq> jget v ''upstream_commit'' \<or> list_ex (\<lambda>n. n \<noteq> 0) capacities)
     then Inl (ValueError ''stock must be pristine with no static capabilities'')
     else rbind (json_object (jget v ''build'') ''incomplete build identity'') (\<lambda>build.
     if set (jkeys build) \<noteq> {''generator'', ''configuration'', ''compiler'', ''cuda'', ''flags''}
     then Inl (ValueError ''incomplete build identity'')
     else if \<not> list_all (\<lambda>field. nonempty_string (jget build field)) [''generator'', ''configuration'', ''compiler'', ''cuda'']
     then Inl (ValueError ''invalid build identity'')
     else rbind (json_array (jget build ''flags'') ''invalid build flags'') (\<lambda>flags.
     if flags = [] \<or> \<not> list_all nonempty_string flags then Inl (ValueError ''invalid build flags'') else Inr v)))))))))"

section \<open>Accepted workloads\<close>

lemma map_of_sort_key:
  assumes "distinct (map fst d)"
  shows "map_of (sort_key fst d) k = map_of d k"
proof -
  have "mset (map fst (sort_key fst d)) = mset (map fst d)" by simp
  then have d: "distinct (map fst (sort_key fst d))" using assms by (metis mset_eq_imp_distinct_iff)
  show ?thesis
  proof (cases "map_of d k")
    case None
    then have "map_of (sort_key fst d) k = None" unfolding map_of_eq_None_iff by simp
    with None show ?thesis by simp
  next
    case (Some v)
    then have "(k, v) \<in> set (sort_key fst d)" by (simp add: map_of_SomeD)
    then show ?thesis using d Some by simp
  qed
qed

text \<open>What a key of a canonical object maps to.\<close>

lemma canonical_json_get:
  assumes "canonical_json (JObj v) = Inr (JObj payload)" and "distinct (map fst v)"
  shows "map_of payload k = map_option sort_keys (map_of v k)" and "fst ` set payload = fst ` set v"
proof -
  have p: "payload = sort_key fst (map (\<lambda>(k, v). (k, sort_keys v)) v)"
    using assms(1) canonical_payload_id [of "JObj v"] by (auto simp: canonical_json_def rbind_eq_Inr simp del: canonical_payload.simps)
  have "distinct (map fst (map (\<lambda>(k, v). (k, sort_keys v)) v))" using assms(2) by (simp add: comp_def case_prod_unfold)
  then show "map_of payload k = map_option sort_keys (map_of v k)"
    by (simp add: p map_of_sort_key map_of_map)
  show "fst ` set payload = fst ` set v" by (force simp: p)
qed

lemma bind_kwargs_get:
  assumes "bind_kwargs specs kwargs = Inr r" and "distinct (map fst specs)" and "(name, d) \<in> set specs"
  shows "(case map_of kwargs name of Some v \<Rightarrow> Some v | None \<Rightarrow> d) = Some (jget r name)"
proof -
  let ?f = "\<lambda>(name, d). case map_of kwargs name of Some v \<Rightarrow> Inr (name, v)
         | None \<Rightarrow> (case d of Some v \<Rightarrow> Inr (name, v) | None \<Rightarrow> Inl TypeError)"
  have r: "rmap ?f specs = Inr r" using assms(1) by (simp add: bind_kwargs_def if_Inl_eq_Inr)
  obtain e where e: "e \<in> set r" "?f (name, d) = Inr e" using rmap_elem_fwd [OF r assms(3)] by blast
  have "distinct (map fst r)" using bind_kwargs_keys [OF assms(1)] assms(2) by simp
  moreover obtain v where "e = (name, v)" using e(2) by (auto split: option.splits)
  ultimately have "jget r name = v" using e(1) by (simp add: jget_def dict_get_distinct)
  then show ?thesis using e(2) \<open>e = (name, v)\<close> by (auto split: option.splits)
qed

lemma bind_kwargs_ok:
  assumes "fst ` set kwargs \<subseteq> fst ` set specs" and "\<forall>(name, d) \<in> set specs. d = None \<longrightarrow> name \<in> fst ` set kwargs"
  shows "is_ok (bind_kwargs specs kwargs)"
proof -
  have "map_of kwargs name = None \<Longrightarrow> \<exists>v. d = Some v" if "(name, d) \<in> set specs" for name d
    using assms(2) that by (cases d) (auto simp: map_of_eq_None_iff)
  then have "is_ok (rmap (\<lambda>(name, d). case map_of kwargs name of Some v \<Rightarrow> Inr (name, v)
      | None \<Rightarrow> (case d of Some v \<Rightarrow> Inr (name, v) | None \<Rightarrow> Inl TypeError)) specs)"
    unfolding is_ok_rmap by (fastforce split: option.splits)
  moreover have "\<not> list_ex (\<lambda>k. k \<notin> fst ` set specs) (jkeys kwargs)" using assms(1) by (auto simp: list_ex_iff jkeys_def)
  ultimately show ?thesis by (simp add: bind_kwargs_def)
qed

text \<open>A server workload is accepted field by field.\<close>

lemma WorkloadIR_accepts:
  assumes bind: "bind_kwargs workload_defaults kwargs = Inr r"
    and ints: "\<forall>name \<in> set workload_int_fields. \<exists>n \<ge> 1. jget r name = JInt n"
    and seeds: "\<forall>name \<in> {''seed'', ''bootstrap_seed''}. \<exists>n \<ge> 0. jget r name = JInt n"
    and numbers: "\<forall>name \<in> {''temperature'', ''maximum_cv_pct'', ''replay_tolerance_pct''}. valid_number (jget r name) (Fin 0)"
    and fixed: "jget r ''schema_version'' = JStr PLAN_SCHEMA" "jget r ''objective'' = JStr ''decode_tps''" "jget r ''policy'' = JStr ''exact''"
      "jget r ''concurrency'' = JInt 1" "jget r ''runtime_interface'' = JStr ''server_completion''" "jeq (jget r ''temperature'') (JInt 0)"
      "jget r ''ignore_eos'' = JBool True" "jget r ''cache_prompt'' = JBool False" "jget r ''kv_type_k'' = JStr ''f16''"
      "jget r ''kv_type_v'' = JStr ''f16''" "jget r ''approximate_quality_budget'' = JNull"
    and prompt: "jget r ''prompt'' = JStr p" "is_text p"
    and graphs: "jget r ''cuda_graphs'' = JStr g" "g = ''on'' \<or> g = ''off''"
    and batch: "the_int (jget r ''microbatch_size'') \<le> the_int (jget r ''batch_size'')"
  shows "\<exists>w. WorkloadIR kwargs = Inr w \<and> wl_policy w = EXACT"
proof -
  have "\<exists>ns. rmap (\<lambda>name. require_int (jget r name) name 1) workload_int_fields = Inr ns"
    by (rule rmap_ex) (use ints in \<open>fastforce simp: require_int_def\<close>)
  then obtain ns where ns: "rmap (\<lambda>name. require_int (jget r name) name 1) workload_int_fields = Inr ns" ..
  have "\<exists>ms. rmap (\<lambda>name. require_int (jget r name) name 0) [''seed'', ''bootstrap_seed''] = Inr ms"
    by (rule rmap_ex) (use seeds in \<open>fastforce simp: require_int_def\<close>)
  then obtain ms where ms: "rmap (\<lambda>name. require_int (jget r name) name 0) [''seed'', ''bootstrap_seed''] = Inr ms" ..
  have "\<exists>vs. rmap (\<lambda>name. require_number (jget r name) name (Fin 0)) [''temperature'', ''maximum_cv_pct'', ''replay_tolerance_pct''] = Inr vs"
    by (rule rmap_ex) (use numbers in \<open>auto simp: require_number_def\<close>)
  then obtain vs where vs: "rmap (\<lambda>name. require_number (jget r name) name (Fin 0)) [''temperature'', ''maximum_cv_pct'', ''replay_tolerance_pct''] = Inr vs" ..
  have checks: "require_schema (jget r ''schema_version'') = Inr PLAN_SCHEMA" "objective_of (jget r ''objective'') = Inr DECODE_TPS"
    "policy_of (jget r ''policy'') = Inr EXACT" "require_text (jget r ''prompt'') ''prompt'' = Inr p"
    "on_off (jget r ''cuda_graphs'') ''invalid CUDA graph setting'' = Inr g"
    using fixed prompt graphs by (auto simp: require_schema_def objective_of_def policy_of_def require_text_def on_off_def)
  have "\<not> approximate_setting r" using fixed by (simp add: approximate_setting_def)
  then show ?thesis
    unfolding WorkloadIR_def bind rbind_Inr ns ms vs checks using fixed batch by (simp add: require_bool_def not_less)
qed

lemma map_of_filter_key: "map_of (filter (\<lambda>(k, v). P k) d) k = (if P k then map_of d k else None)"
  by (induction d) auto

lemma positive_ints_ok: "positive_ints d names = Inr ns \<Longrightarrow> name \<in> set names \<Longrightarrow> \<exists>n \<ge> 1. jget d name = JInt n"
  unfolding positive_ints_def by (drule (1) require_ints_ok) blast

lemma valid_number_scalar: "valid_number v m \<Longrightarrow> sort_keys v = v"
  by (erule valid_number_cases) simp_all

lemma valid_number_zero: "valid_number v m \<Longrightarrow> jeq v (JFloat (Fin 0)) \<Longrightarrow> jeq v (JInt 0)"
  by (erule valid_number_cases) (auto simp: exact_num_def py_eq_def)

lemma valid_number_weaken: "valid_number v m \<Longrightarrow> Fin 0 \<le> m \<Longrightarrow> valid_number v (Fin 0)"
  by (erule valid_number_cases) (use order_trans [of "Fin 0" m] in \<open>fastforce simp: valid_number_def isfinite_def py_le_def\<close>)+

lemma MILLI_nonneg: "Fin 0 \<le> MILLI"
proof -
  have "dbl 0 \<le> dbl (1 / 1000)" by (rule dbl_mono) simp
  then show ?thesis by (simp add: MILLI_def)
qed

text \<open>What the two branches have checked.\<close>

lemma server_workload_ok:
  assumes "server_workload prompt_text d = Inr v"
  shows "(\<forall>name \<in> set server_int_fields. \<exists>n \<ge> 1. jget d name = JInt n) \<and> (\<exists>n \<ge> 0. jget d ''bootstrap_seed'' = JInt n)
    \<and> (\<forall>name \<in> {''maximum_cv_pct'', ''replay_tolerance_pct''}. valid_number (jget d name) MILLI)
    \<and> the_int (jget d ''microbatch_size'') \<le> the_int (jget d ''batch_size'')
    \<and> jget d ''kv_type_k'' = JStr ''f16'' \<and> jget d ''kv_type_v'' = JStr ''f16'' \<and> jget d ''cache_prompt'' = JBool False
    \<and> (\<exists>s. v = dict_set ''prompt'' (JStr s) d)"
proof -
  obtain ns where ns: "positive_ints d server_int_fields = Inr ns" using assms by (auto simp: server_workload_def rbind_eq_Inr)
  have "jget d ''prompt_file'' \<noteq> JNull" using assms by (auto simp: server_workload_def rbind_eq_Inr if_Inl_eq_Inr)
  then show ?thesis using assms positive_ints_ok [OF ns] unfolding server_workload_def ns rbind_Inr
    by (auto simp: rbind_eq_Inr if_Inl_eq_Inr require_simps not_less split: json.splits sum.splits if_splits)
qed

lemma load_reference_ok:
  assumes "load_reference_workload prompt_text (Inr (JObj d)) = Inr p"
  shows "\<exists>interface v. workload_interface d = Inr interface
    \<and> set (jkeys d) = set (if interface = ''server_completion'' then SERVER_FIELDS else HISTORICAL_FIELDS)
    \<and> (\<forall>(field, wanted) \<in> set FIXED_FIELDS. jeq (jget d field) wanted)
    \<and> is_int_value (jget d ''concurrency'') \<and> is_bool_value (jget d ''ignore_eos'') \<and> valid_number (jget d ''temperature'') (Fin 0)
    \<and> (\<forall>name \<in> {''context_size'', ''predict_tokens'', ''threads''}. \<exists>n \<ge> 1. jget d name = JInt n) \<and> (\<exists>n \<ge> 0. jget d ''seed'' = JInt n)
    \<and> (if interface = ''server_completion'' then server_workload prompt_text d else historical_workload d) = Inr v
    \<and> (\<exists>g. jget v ''cuda_graphs'' = JStr g \<and> (g = ''on'' \<or> g = ''off'')) \<and> (\<exists>s. jget v ''prompt'' = JStr s \<and> is_text s)
    \<and> canonical_json (JObj v) = Inr p"
proof -
  obtain interface ns n v g s where "workload_interface d = Inr interface"
    "set (jkeys d) = set (if interface = ''server_completion'' then SERVER_FIELDS else HISTORICAL_FIELDS)"
    and fixed: "\<not> list_ex (\<lambda>(field, wanted). \<not> jeq (jget d field) wanted) FIXED_FIELDS"
    and "is_int_value (jget d ''concurrency'')" "is_bool_value (jget d ''ignore_eos'')" "valid_number (jget d ''temperature'') (Fin 0)"
    and ns: "positive_ints d [''context_size'', ''predict_tokens'', ''threads''] = Inr ns"
    and "jget d ''seed'' = JInt n" "0 \<le> n"
    and "(if interface = ''server_completion'' then server_workload prompt_text d else historical_workload d) = Inr v"
    and g: "on_off (jget v ''cuda_graphs'') ''invalid cuda_graphs setting'' = Inr g" and "jget v ''prompt'' = JStr s" "is_text s"
    and "canonical_json (JObj v) = Inr p"
    using assms unfolding load_reference_workload_def read_json_def sum.case json.case rbind_Inr Let_def
      rbind_eq_Inr if_Inl_eq_Inr require_simps de_Morgan_disj not_not by (elim exE conjE) simp
  moreover have "\<forall>(field, wanted) \<in> set FIXED_FIELDS. jeq (jget d field) wanted" using fixed by (auto simp: list_ex_iff)
  moreover have "\<forall>name \<in> {''context_size'', ''predict_tokens'', ''threads''}. \<exists>n \<ge> 1. jget d name = JInt n"
    using positive_ints_ok [OF ns] by simp
  moreover have "jget v ''cuda_graphs'' = JStr g \<and> (g = ''on'' \<or> g = ''off'')" using g unfolding on_off_ok .
  ultimately show ?thesis by (intro exI [of _ interface] exI [of _ v]) blast
qed

text \<open>
  C40. Server references and compiler workloads agree: for a decoded document with distinct keys that
  is accepted as a reference workload, the compiler's workload of it can be built exactly when it is
  a server workload, and then it follows the exact policy. A historical command-line workload is
  always refused.
\<close>

theorem reference_becomes_workload:
  assumes loaded: "load_reference_workload prompt_text (Inr (JObj d)) = Inr (JObj payload)" and dict: "distinct (map fst d)"
  shows "if jget d ''runtime_interface'' = JStr ''server_completion''
    then \<exists>w. workload_from_reference payload = Inr w \<and> wl_policy w = EXACT
    else \<exists>e. workload_from_reference payload = Inl e"
proof -
  obtain interface v where interface: "workload_interface d = Inr interface"
    and keys: "set (jkeys d) = set (if interface = ''server_completion'' then SERVER_FIELDS else HISTORICAL_FIELDS)"
    and fixed: "\<forall>(field, wanted) \<in> set FIXED_FIELDS. jeq (jget d field) wanted"
    and types: "is_int_value (jget d ''concurrency'')" "is_bool_value (jget d ''ignore_eos'')" "valid_number (jget d ''temperature'') (Fin 0)"
    and ints: "\<forall>name \<in> {''context_size'', ''predict_tokens'', ''threads''}. \<exists>n \<ge> 1. jget d name = JInt n" "\<exists>n \<ge> 0. jget d ''seed'' = JInt n"
    and branch: "(if interface = ''server_completion'' then server_workload prompt_text d else historical_workload d) = Inr v"
    and gp: "\<exists>g. jget v ''cuda_graphs'' = JStr g \<and> (g = ''on'' \<or> g = ''off'')" "\<exists>s. jget v ''prompt'' = JStr s \<and> is_text s"
    and canonical: "canonical_json (JObj v) = Inr (JObj payload)"
    using load_reference_ok [OF loaded] by blast
  obtain g p where graphs: "jget v ''cuda_graphs'' = JStr g" "g = ''on'' \<or> g = ''off''" and prompt: "jget v ''prompt'' = JStr p" "is_text p"
    using gp by blast
  have i: "jget d ''runtime_interface'' = JStr interface" "interface = ''server_completion'' \<or> interface = ''historical_cli''"
    using interface by (auto simp: workload_interface_def split: json.splits if_splits)
  let ?kwargs = "filter (\<lambda>(k, v). k \<noteq> ''prompt_file'') payload"
  show ?thesis
  proof (cases "interface = ''server_completion''")
    case False
    then have h: "historical_workload d = Inr v" using branch by simp
    then have "v = d" by (auto simp: historical_workload_def rbind_eq_Inr if_Inl_eq_Inr split: json.splits if_splits)
    then have "fst ` set payload = set HISTORICAL_FIELDS"
      using canonical_json_get(2) [OF canonical] dict keys False by (simp add: jkeys_def)
    then have "''cpu_moe'' \<in> fst ` set payload" by (simp add: HISTORICAL_FIELDS_def)
    then have "''cpu_moe'' \<in> set (jkeys ?kwargs)" by (force simp: jkeys_def)
    then have "bind_kwargs workload_defaults ?kwargs = Inl TypeError"
      unfolding bind_kwargs_def list_ex_iff by (intro if_P bexI) (simp_all add: workload_defaults_def)
    then show ?thesis using i False by (simp add: workload_from_reference_def WorkloadIR_def)
  next
    case True
    then have "server_workload prompt_text d = Inr v" using branch by simp
    note s = server_workload_ok [OF this]
    then obtain s' where v: "v = dict_set ''prompt'' (JStr s') d" by blast
    have dv: "distinct (map fst v)" unfolding v using dict by (rule distinct_dict_set)
    have kd: "fst ` set d = set SERVER_FIELDS" using keys True by (simp add: jkeys_def)
    have get: "map_of ?kwargs k = (if k = ''prompt_file'' then None else map_option sort_keys (map_of v k))" for k
      using canonical_json_get(1) [OF canonical dv] by (simp add: map_of_filter_key)
    have kk: "fst ` set ?kwargs = insert ''prompt'' (set SERVER_FIELDS) - {''prompt_file''}"
    proof -
      have "fst ` set payload = insert ''prompt'' (set SERVER_FIELDS)"
        using canonical_json_get(2) [OF canonical dv] kd by (simp add: v keys_dict_set)
      moreover have "fst ` set ?kwargs = fst ` set payload - {''prompt_file''}" by force
      ultimately show ?thesis by simp
    qed
    have "is_ok (bind_kwargs workload_defaults ?kwargs)"
      by (rule bind_kwargs_ok; unfold kk) (simp_all add: SERVER_FIELDS_def workload_defaults_def insert_Diff_if)
    then obtain r where r: "bind_kwargs workload_defaults ?kwargs = Inr r" by (auto simp: is_ok_iff)
    have names: "distinct (map fst workload_defaults)" by (simp add: workload_defaults_def)
    have bound: "jget r name = w" if "map_of ?kwargs name = Some w" "name \<in> fst ` set workload_defaults" for name w
      using bind_kwargs_get [OF r names] that by fastforce
    have scalar: "jget r name = sort_keys (jget d name)" if "name \<in> set SERVER_FIELDS" "name \<noteq> ''prompt_file''" for name
    proof (rule bound)
      have "name \<noteq> ''prompt''" using that by (auto simp: SERVER_FIELDS_def)
      moreover have "name \<in> fst ` set d" using that kd by simp
      then have "map_of d name = Some (jget d name)" unfolding jget_def by (rule map_of_eq_dict_get)
      ultimately show "map_of ?kwargs name = Some (sort_keys (jget d name))" using that by (simp add: get v update_conv')
      show "name \<in> fst ` set workload_defaults" using that by (auto simp: SERVER_FIELDS_def workload_defaults_def)
    qed
    have int: "\<exists>n \<ge> m. jget r name = JInt n" if "\<exists>n \<ge> m. jget d name = JInt n" "name \<in> set SERVER_FIELDS" "name \<noteq> ''prompt_file''" for name m
      using scalar that by auto
    have num: "valid_number (jget r name) (Fin 0) \<and> jget r name = jget d name"
      if "valid_number (jget d name) (Fin 0)" "name \<in> set SERVER_FIELDS" "name \<noteq> ''prompt_file''" for name
      using scalar that valid_number_scalar by metis
    have eq: "jget r name = jget d name" if "sort_keys (jget d name) = jget d name" "name \<in> set SERVER_FIELDS" "name \<noteq> ''prompt_file''" for name
      using scalar that by simp
    have f: "jget d ''schema_version'' = JStr PLAN_SCHEMA" "jget d ''objective'' = JStr ''decode_tps''" "jget d ''policy'' = JStr ''exact''"
      "jeq (jget d ''concurrency'') (JInt 1)" "jeq (jget d ''temperature'') (JFloat (Fin 0))" "jeq (jget d ''ignore_eos'') (JBool True)"
      using fixed by (simp_all add: FIXED_FIELDS_def)
    have types': "jget d ''concurrency'' = JInt 1" "jget d ''ignore_eos'' = JBool True" "jeq (jget d ''temperature'') (JInt 0)"
      using types f valid_number_zero
      by (auto simp: is_int_value_def is_bool_value_def exact_num_def py_eq_def split: json.splits if_splits)
    have limits: "\<forall>name \<in> {''maximum_cv_pct'', ''replay_tolerance_pct''}. valid_number (jget d name) (Fin 0)"
      using s valid_number_weaken MILLI_nonneg by blast
    have "\<exists>w. WorkloadIR ?kwargs = Inr w \<and> wl_policy w = EXACT"
    proof (rule WorkloadIR_accepts [OF r])
      show "\<forall>name \<in> set workload_int_fields. \<exists>n \<ge> 1. jget r name = JInt n"
      proof
        fix name assume "name \<in> set workload_int_fields"
        then have "\<exists>n \<ge> 1. jget d name = JInt n" "name \<in> set SERVER_FIELDS" "name \<noteq> ''prompt_file''"
          using ints s by (auto simp: workload_int_fields_def server_int_fields_def SERVER_FIELDS_def)
        then show "\<exists>n \<ge> 1. jget r name = JInt n" by (rule int)
      qed
      show "\<forall>name \<in> {''seed'', ''bootstrap_seed''}. \<exists>n \<ge> 0. jget r name = JInt n"
        using ints s by (auto intro!: int simp: SERVER_FIELDS_def)
      show "\<forall>name \<in> {''temperature'', ''maximum_cv_pct'', ''replay_tolerance_pct''}. valid_number (jget r name) (Fin 0)"
        using types(3) limits num by (auto simp: SERVER_FIELDS_def)
      have "''kv_type_k'' \<in> set SERVER_FIELDS" "''kv_type_v'' \<in> set SERVER_FIELDS" "''cache_prompt'' \<in> set SERVER_FIELDS"
        "''schema_version'' \<in> set SERVER_FIELDS" "''objective'' \<in> set SERVER_FIELDS" "''policy'' \<in> set SERVER_FIELDS"
        "''concurrency'' \<in> set SERVER_FIELDS" "''runtime_interface'' \<in> set SERVER_FIELDS" "''temperature'' \<in> set SERVER_FIELDS"
        "''ignore_eos'' \<in> set SERVER_FIELDS" "''cuda_graphs'' \<in> set SERVER_FIELDS" "''batch_size'' \<in> set SERVER_FIELDS"
        "''microbatch_size'' \<in> set SERVER_FIELDS" by (simp_all add: SERVER_FIELDS_def)
      note mem = this
      show "jget r ''schema_version'' = JStr PLAN_SCHEMA" "jget r ''objective'' = JStr ''decode_tps''" "jget r ''policy'' = JStr ''exact''"
        "jget r ''concurrency'' = JInt 1" "jget r ''ignore_eos'' = JBool True" "jget r ''cache_prompt'' = JBool False"
        "jget r ''kv_type_k'' = JStr ''f16''" "jget r ''kv_type_v'' = JStr ''f16''"
        "jget r ''runtime_interface'' = JStr ''server_completion''"
        using f types' s i True by (simp_all add: scalar mem)
      show "jeq (jget r ''temperature'') (JInt 0)" using num [OF types(3) mem(9)] types'(3) by simp
      have "jget d ''cuda_graphs'' = JStr g" using graphs(1) by (simp add: v jget_def dict_get_set)
      then show "jget r ''cuda_graphs'' = JStr g" by (simp add: scalar mem)
      show "jget r ''approximate_quality_budget'' = JNull"
      proof -
        have "map_of ?kwargs ''approximate_quality_budget'' = None"
          using kk by (simp add: map_of_eq_None_iff SERVER_FIELDS_def)
        moreover have "(''approximate_quality_budget'', Some JNull) \<in> set workload_defaults" by (simp add: workload_defaults_def)
        ultimately show ?thesis using bind_kwargs_get [OF r names] by fastforce
      qed
      have "map_of v ''prompt'' = Some (JStr s')" by (simp add: v update_conv')
      moreover have "s' = p" using prompt(1) by (simp add: v jget_def dict_get_set)
      ultimately show "jget r ''prompt'' = JStr p" by (intro bound) (simp_all add: get workload_defaults_def)
      have "\<exists>n \<ge> 1. jget d ''batch_size'' = JInt n" "\<exists>n \<ge> 1. jget d ''microbatch_size'' = JInt n"
        using s by (simp_all add: server_int_fields_def)
      then show "the_int (jget r ''microbatch_size'') \<le> the_int (jget r ''batch_size'')"
        using s by (auto simp: scalar mem)
    qed (use prompt graphs in auto)
    then show ?thesis using i True by (simp add: workload_from_reference_def)
  qed
qed

section \<open>Examples\<close>

definition example_reference :: jrecord where
  "example_reference = map (\<lambda>name. (name, if name = ''schema_version'' then JStr PLAN_SCHEMA else if name = ''objective'' then JStr ''decode_tps''
     else if name = ''policy'' then JStr ''exact'' else if name = ''runtime_interface'' then JStr ''server_completion''
     else if name = ''prompt_file'' then JStr ''p.txt'' else if name = ''kv_type_k'' \<or> name = ''kv_type_v'' then JStr ''f16''
     else if name = ''cuda_graphs'' then JStr ''on'' else if name = ''ignore_eos'' then JBool True
     else if name = ''cache_prompt'' then JBool False else if name = ''temperature'' then JFloat (Fin 0)
     else if name = ''predict_tokens'' \<or> name = ''concurrency'' then JInt 1 else JInt 2)) SERVER_FIELDS"

lemma valid_number_MILLI: "valid_number (JInt 2) MILLI"
proof -
  have "MILLI \<le> dbl 2" unfolding MILLI_def by (rule dbl_mono) simp
  moreover have "dbl 2 = Fin 2" using dround_pow2 [of 1] by (simp add: dbl_def pow2_def)
  moreover have "MILLI \<noteq> NaN" by (simp add: MILLI_def)
  ultimately show ?thesis using float_of_int_finite [of 2] by (auto simp: valid_number_def py_le_def is_ok_iff)
qed

lemma example_reference_loaded:
  "\<exists>payload. load_reference_workload (\<lambda>_. Inr ''hello'') (Inr (JObj example_reference)) = Inr (JObj payload)"
proof -
  have ints: "is_ok (positive_ints example_reference server_int_fields)" "require_int (jget example_reference ''bootstrap_seed'') ''bootstrap_seed'' 0 = Inr 2"
    by code_simp+
  have numbers: "rmap (\<lambda>name. require_number (jget example_reference name) name MILLI) [''maximum_cv_pct'', ''replay_tolerance_pct''] = Inr [JInt 2, JInt 2]"
    by (simp add: example_reference_def SERVER_FIELDS_def require_number_def valid_number_MILLI)
  have rest: "the_int (jget example_reference ''microbatch_size'') = 2" "the_int (jget example_reference ''batch_size'') = 2"
    "jget example_reference ''kv_type_k'' = JStr ''f16''" "jget example_reference ''kv_type_v'' = JStr ''f16''"
    "jget example_reference ''cache_prompt'' = JBool False" "jget example_reference ''prompt_file'' = JStr ''p.txt''" by code_simp+
  obtain ns where ns: "positive_ints example_reference server_int_fields = Inr ns" using ints(1) by (auto simp: is_ok_iff)
  have server: "server_workload (\<lambda>_. Inr ''hello'') example_reference = Inr (dict_set ''prompt'' (JStr ''hello'') example_reference)"
    unfolding server_workload_def ns rbind_Inr ints(2) numbers rest by simp
  let ?v = "dict_set ''prompt'' (JStr ''hello'') example_reference"
  have f: "workload_interface example_reference = Inr ''server_completion''" "set (jkeys example_reference) = set SERVER_FIELDS"
    "\<not> list_ex (\<lambda>(field, wanted). \<not> jeq (jget example_reference field) wanted) FIXED_FIELDS"
    "is_int_value (jget example_reference ''concurrency'')" "is_bool_value (jget example_reference ''ignore_eos'')"
    "require_number (jget example_reference ''temperature'') ''temperature'' (Fin 0) = Inr (JFloat (Fin 0))"
    "positive_ints example_reference [''context_size'', ''predict_tokens'', ''threads''] = Inr [2, 1, 2]"
    "require_int (jget example_reference ''seed'') ''seed'' 0 = Inr 2"
    "on_off (jget ?v ''cuda_graphs'') ''invalid cuda_graphs setting'' = Inr ''on''"
    "require_text (jget ?v ''prompt'') ''prompt'' = Inr ''hello''"
    "the_int (jget ?v ''context_size'') = 2" "the_int (jget ?v ''predict_tokens'') = 1" by code_simp+
  obtain p where "canonical_payload (JObj ?v) = Inr p"
  proof -
    have "is_ok (canonical_payload (JObj ?v))" by code_simp
    then show thesis using that by (auto simp: is_ok_iff)
  qed
  then have "canonical_json (JObj ?v) = Inr (sort_keys (JObj ?v))"
    using canonical_payload_id by (fastforce simp: canonical_json_def)
  then have "load_reference_workload (\<lambda>_. Inr ''hello'') (Inr (JObj example_reference)) = Inr (sort_keys (JObj ?v))"
    unfolding load_reference_workload_def read_json_def sum.case json.case rbind_Inr Let_def f server by (simp add: f server)
  then show ?thesis by simp
qed

theorem reference_becomes_workload_witness:
  "\<exists>payload w. load_reference_workload (\<lambda>_. Inr ''hello'') (Inr (JObj example_reference)) = Inr (JObj payload)
    \<and> workload_from_reference payload = Inr w"
proof -
  obtain payload where p: "load_reference_workload (\<lambda>_. Inr ''hello'') (Inr (JObj example_reference)) = Inr (JObj payload)"
    using example_reference_loaded by blast
  have "distinct (map fst example_reference)" "jget example_reference ''runtime_interface'' = JStr ''server_completion''" by code_simp+
  with reference_becomes_workload [OF p] p show ?thesis by auto
qed

end
