(* ===== verification/Launch.thy ===== *)
theory Launch
  imports Reference Plan
begin

text \<open>
  \<open>compiler/runner.py\<close>: the pinned runtime of a measurement and the exact command line, environment
  and request a candidate is lowered to. The operating system and \<open>pathlib\<close> are a \<open>host\<close>: the
  readable files with their size, SHA-256 digest, decoded content and time stamps, and the path
  operations. Starting the process, the HTTP exchange and the memory sampler are not modelled.
\<close>

section \<open>The host\<close>

record host_file =
  hf_size :: int
  hf_sha256 :: string
  hf_json :: "json res"
  hf_stamp :: "int \<times> int"

text \<open>
  \<open>ho_file p\<close> is \<open>None\<close> when \<open>p\<close> is not a readable regular file; \<open>hf_stamp\<close> is the pair of
  \<open>st_mtime_ns\<close> and \<open>st_ctime_ns\<close>; \<open>ho_dlls d\<close> lists the names that \<open>glob('*.dll')\<close> finds in \<open>d\<close>.
\<close>

record host =
  ho_file :: "string \<Rightarrow> host_file option"
  ho_resolve :: "string \<Rightarrow> string"
  ho_parent :: "string \<Rightarrow> string"
  ho_name :: "string \<Rightarrow> string"
  ho_join :: "string \<Rightarrow> string \<Rightarrow> string"
  ho_dlls :: "string \<Rightarrow> string list"
  ho_pathsep :: string

text \<open>\<open>p.is_file() and file_sha256(p) == expected\<close>.\<close>

definition file_digest :: "host \<Rightarrow> string \<Rightarrow> string option" where
  "file_digest h p = map_option hf_sha256 (ho_file h p)"

text \<open>\<open>read_json\<close> of a path.\<close>

definition read_json_file :: "host \<Rightarrow> string \<Rightarrow> jrecord res" where
  "read_json_file h p = read_json (case ho_file h p of None \<Rightarrow> Inl OSError | Some f \<Rightarrow> hf_json f)"

text \<open>\<open>str.lower\<close> of the first 256 code points, and \<open>str.upper\<close> of the ASCII letters; the upper case of
  no other character contains a letter of the prefixes it is compared with.\<close>

definition py_lower :: "string \<Rightarrow> string" where
  "py_lower s = map (\<lambda>c. let n = (of_char c :: nat) in
     if 65 \<le> n \<and> n \<le> 90 \<or> 192 \<le> n \<and> n \<le> 222 \<and> n \<noteq> 215 then char_of (n + 32) else c) s"

definition ascii_upper :: "string \<Rightarrow> string" where
  "ascii_upper s = map (\<lambda>c. let n = (of_char c :: nat) in if 97 \<le> n \<and> n \<le> 122 then char_of (n - 32) else c) s"

definition starts_with :: "string \<Rightarrow> string \<Rightarrow> bool" where
  "starts_with prefix s \<longleftrightarrow> take (length prefix) s = prefix"

section \<open>Runtime bindings\<close>

record runtime_binding =
  rb_server :: artifact_identity
  rb_manifest_json :: json
  rb_dependencies :: "artifact_identity list"
  rb_cuda_runtime :: "artifact_identity option"

definition artifact_payload :: "artifact_identity \<Rightarrow> json" where
  "artifact_payload a = JObj [(''path'', JStr (ai_path a)), (''size_bytes'', JInt (ai_size_bytes a)),
     (''sha256'', JStr (ai_sha256 a))]"

definition binding_payload :: "runtime_binding \<Rightarrow> json" where
  "binding_payload b = JObj [(''server'', artifact_payload (rb_server b)), (''manifest_json'', rb_manifest_json b),
     (''dependencies'', JArr (map artifact_payload (rb_dependencies b))),
     (''cuda_runtime'', case rb_cuda_runtime b of None \<Rightarrow> JNull | Some a \<Rightarrow> artifact_payload a)]"

definition binding_sha256 :: "(json \<Rightarrow> string) \<Rightarrow> runtime_binding \<Rightarrow> string res" where
  "binding_sha256 digest b = canonical_sha256 digest (binding_payload b)"

text \<open>The file named by an identity still has its size and digest.\<close>

definition identity_holds :: "host \<Rightarrow> artifact_identity \<Rightarrow> bool" where
  "identity_holds h a = (case ho_file h (ai_path a) of None \<Rightarrow> False
     | Some f \<Rightarrow> hf_size f = ai_size_bytes a \<and> hf_sha256 f = ai_sha256 a)"

definition binding_identities :: "runtime_binding \<Rightarrow> artifact_identity list" where
  "binding_identities b = rb_server b # rb_dependencies b @ (case rb_cuda_runtime b of None \<Rightarrow> [] | Some a \<Rightarrow> [a])"

definition binding_verify :: "host \<Rightarrow> runtime_binding \<Rightarrow> unit res" where
  "binding_verify h b = (if list_all (identity_holds h) (binding_identities b) then Inr ()
     else Inl (ValueError ''runtime dependency identity mismatch''))"

text \<open>A dictionary comprehension over names: the last entry of a name wins.\<close>

definition named_digests :: "host \<Rightarrow> artifact_identity list \<Rightarrow> jrecord" where
  "named_digests h deps = foldl (\<lambda>d a. dict_set (ho_name h (ai_path a)) (JStr (ai_sha256 a)) d) [] deps"

definition server_binding_pinned :: "host \<Rightarrow> runtime_binding \<Rightarrow> json \<Rightarrow> bool res" where
  "server_binding_pinned h b manifest = (if ho_name h (ai_path (rb_server b)) \<noteq> ''llama-server.exe'' then Inr False
     else rbind (subscript manifest ''binaries'') (\<lambda>binaries. rbind (subscript binaries ''llama-server.exe'') (\<lambda>expected.
       Inr (jeq (JStr (ai_sha256 (rb_server b))) expected))))"

text \<open>The dependencies are exactly those of the manifest, beside the server, and no other library is there.\<close>

definition inventory_pinned :: "host \<Rightarrow> runtime_binding \<Rightarrow> string \<Rightarrow> json \<Rightarrow> bool" where
  "inventory_pinned h b binary_dir dependencies \<longleftrightarrow> (case dependencies of
     JObj expected \<Rightarrow> let actual = named_digests h (rb_dependencies b) in
       length actual = length (rb_dependencies b) \<and> jeq (JObj actual) (JObj expected)
       \<and> list_all (\<lambda>a. ho_parent h (ho_resolve h (ai_path a)) = binary_dir) (rb_dependencies b)
       \<and> py_lower ` set (ho_dlls h binary_dir) = py_lower ` set (jkeys expected)
   | _ \<Rightarrow> False)"

definition cuda_pinned :: "runtime_binding \<Rightarrow> json \<Rightarrow> bool res" where
  "cuda_pinned b manifest = (case rb_cuda_runtime b of None \<Rightarrow> Inr False
     | Some a \<Rightarrow> rbind (subscript manifest ''cuda_runtime_sha256'') (\<lambda>expected. Inr (jeq (JStr (ai_sha256 a)) expected)))"

definition binary_differs :: "host \<Rightarrow> string \<Rightarrow> string \<times> json \<Rightarrow> bool" where
  "binary_differs h binary_dir = (\<lambda>(name, expected). case file_digest h (ho_join h binary_dir name) of
     None \<Rightarrow> True | Some actual \<Rightarrow> \<not> jeq (JStr actual) expected)"

definition verify_manifest_bindings :: "(string \<Rightarrow> json res) \<Rightarrow> host \<Rightarrow> runtime_binding \<Rightarrow> unit res" where
  "verify_manifest_bindings loads h b =
     rbind (case rb_manifest_json b of JStr s \<Rightarrow> loads s | _ \<Rightarrow> Inl TypeError) (\<lambda>manifest.
     let binary_dir = ho_parent h (ho_resolve h (ai_path (rb_server b))) in
     rbind (server_binding_pinned h b manifest) (\<lambda>pinned.
     if \<not> pinned then Inl (ValueError ''pinned runtime server binding mismatch'')
     else rbind (subscript manifest ''dependencies'') (\<lambda>dependencies.
     if \<not> inventory_pinned h b binary_dir dependencies
     then Inl (ValueError ''pinned runtime dependency inventory mismatch'')
     else rbind (cuda_pinned b manifest) (\<lambda>cuda.
     if \<not> cuda then Inl (ValueError ''pinned runtime CUDA binding mismatch'')
     else rbind (subscript manifest ''binaries'') (\<lambda>bs. rbind (as_record bs) (\<lambda>binaries.
     if list_ex (binary_differs h binary_dir) binaries
     then Inl (ValueError ''pinned runtime binary identity mismatch'')
     else if \<not> is_ok (binding_verify h b) then Inl (ValueError ''pinned runtime identity mismatch'')
     else Inr ()))))))"

text \<open>The local function \<open>identity\<close> of \<open>from_manifest\<close>.\<close>

definition pinned_identity :: "host \<Rightarrow> string \<Rightarrow> json \<Rightarrow> artifact_identity res" where
  "pinned_identity h p expected = (let path = ho_resolve h p in
     case ho_file h path of None \<Rightarrow> Inl (ValueError ''pinned runtime identity mismatch'')
     | Some f \<Rightarrow> if \<not> jeq (JStr (hf_sha256 f)) expected then Inl (ValueError ''pinned runtime identity mismatch'')
         else ArtifactIdentity (JStr path) (JInt (hf_size f)) expected)"

definition patch_path :: "host \<Rightarrow> string \<Rightarrow> string \<Rightarrow> string" where
  "patch_path h base file = (let p = ho_join h base file in
     if ho_file h p = None \<and> starts_with ''release/'' file then ho_join h (ho_join h base ''docs/research'') file else p)"

definition patch_identity :: "host \<Rightarrow> string \<Rightarrow> json \<Rightarrow> artifact_identity res" where
  "patch_identity h base patch = (case patch of
     JObj d \<Rightarrow> (case jget d ''path'' of JStr file \<Rightarrow> pinned_identity h (patch_path h base file) (jget d ''sha256'') | _ \<Rightarrow> Inl TypeError)
   | _ \<Rightarrow> Inl TypeError)"

definition from_manifest :: "(json \<Rightarrow> string) \<Rightarrow> host \<Rightarrow> string \<Rightarrow> json res \<Rightarrow> string \<Rightarrow> string \<Rightarrow> runtime_binding res" where
  "from_manifest dumps h base document binary_dir cuda_runtime =
     rbind (load_runtime_manifest (ho_name h) document) (\<lambda>manifest.
     rbind (py_iter (jget manifest ''patches'')) (\<lambda>patches.
     rbind (rmap (patch_identity h base) patches) (\<lambda>_.
     rbind (as_record (jget manifest ''dependencies'')) (\<lambda>dependencies.
     if py_lower ` set (ho_dlls h binary_dir) \<noteq> py_lower ` set (jkeys dependencies)
     then Inl (ValueError ''runtime contains missing or unpinned DLLs'')
     else rbind (as_record (jget manifest ''binaries'')) (\<lambda>binaries.
     rbind (rmap (\<lambda>(name, expected). pinned_identity h (ho_join h binary_dir name) expected) binaries) (\<lambda>_.
     rbind (pinned_identity h (ho_join h binary_dir ''llama-server.exe'') (jget binaries ''llama-server.exe'')) (\<lambda>server.
     rbind (canonical_json (JObj manifest)) (\<lambda>text_value.
     rbind (rmap (\<lambda>(name, expected). pinned_identity h (ho_join h binary_dir name) expected) (sort_key fst dependencies)) (\<lambda>deps.
     rbind (pinned_identity h cuda_runtime (jget manifest ''cuda_runtime_sha256'')) (\<lambda>cuda.
       Inr \<lparr>rb_server = server, rb_manifest_json = JStr (dumps text_value), rb_dependencies = deps,
         rb_cuda_runtime = Some cuda\<rparr>))))))))))"

section \<open>Lowering a candidate\<close>

record lowered_launch =
  ll_argv :: "string list"
  ll_environment :: "(string \<times> string) list"
  ll_request :: jrecord

definition CONTROL_PREFIXES :: "string list" where
  "CONTROL_PREFIXES = [''EXPERTFLOW'', ''LLAMA_EXPERTFLOW'', ''LLAMA_ARG_'', ''GGML_'']"

definition is_control :: "string \<Rightarrow> bool" where
  "is_control name \<longleftrightarrow> list_ex (\<lambda>prefix. starts_with prefix (ascii_upper name)) CONTROL_PREFIXES"

text \<open>\<open>sep.join(parts)\<close>.\<close>

fun str_join :: "string \<Rightarrow> string list \<Rightarrow> string" where
  "str_join sep [] = []"
| "str_join sep [s] = s"
| "str_join sep (s # t # ts) = s @ sep @ str_join sep (t # ts)"

definition launch_path :: "host \<Rightarrow> runtime_binding \<Rightarrow> (string \<times> string) list \<Rightarrow> string" where
  "launch_path h b env = str_join (ho_pathsep h)
     (ho_parent h (ai_path (rb_server b)) # (case rb_cuda_runtime b of None \<Rightarrow> [] | Some a \<Rightarrow> [ho_parent h (ai_path a)])
       @ [dict_get env ''PATH'' []])"

definition launch_environment :: "host \<Rightarrow> runtime_settings \<Rightarrow> runtime_binding \<Rightarrow> (string \<times> string) list \<Rightarrow> (string \<times> string) list" where
  "launch_environment h s b inherited =
     (let env0 = filter (\<lambda>(name, v). \<not> is_control name) inherited;
          env1 = dict_set ''PATH'' (launch_path h b env0) env0;
          env2 = (if rs_cuda_graphs s = ''off'' then dict_set ''GGML_CUDA_DISABLE_GRAPHS'' ''1'' env1 else env1);
          env3 = (case rs_cuda_pdl s of None \<Rightarrow> env2
            | Some mode \<Rightarrow> dict_set ''GGML_CUDA_PDL'' (if mode = ''on'' then ''1'' else ''0'') env2)
      in case rs_static s of None \<Rightarrow> env3
        | Some p \<Rightarrow> dict_set ''LLAMA_EXPERTFLOW_STATIC_PRECOMPUTE'' ''1''
            (dict_set ''LLAMA_EXPERTFLOW_STATIC_ISLAND_LAYER'' (str_join '','' (map int_str (sp_layer_ids p))) env3))"

text \<open>\<open>str(settings.gpu_layers)\<close>, an integer or one of two words.\<close>

definition layers_text :: "json \<Rightarrow> string" where
  "layers_text v = (case v of JInt n \<Rightarrow> int_str n | JStr s \<Rightarrow> s | _ \<Rightarrow> [])"

definition launch_argv :: "candidate_plan \<Rightarrow> artifact_identity \<Rightarrow> runtime_binding \<Rightarrow> int \<Rightarrow> string list" where
  "launch_argv c model b port = (let w = pi_workload (cp_identities c); s = cp_settings c in
     [ai_path (rb_server b), ''-m'', ai_path model, ''-ngl'', layers_text (rs_gpu_layers s),
      ''-c'', int_str (wl_context_size w), ''-b'', int_str (rs_batch_size s), ''-ub'', int_str (rs_microbatch_size s),
      ''-t'', int_str (wl_threads w), ''-tb'', int_str (wl_threads w), ''-ctk'', ''f16'', ''-ctv'', ''f16'',
      ''-np'', ''1'', ''--host'', ''127.0.0.1'', ''--port'', int_str port]
     @ (if rs_cpu_moe s then [''--cpu-moe''] else []))"

definition launch_request :: "workload_ir \<Rightarrow> jrecord" where
  "launch_request w = [(''n_predict'', JInt (wl_predict_tokens w)), (''seed'', JInt (wl_seed w)),
     (''temperature'', wl_temperature w), (''ignore_eos'', JBool (wl_ignore_eos w)), (''cache_prompt'', JBool False),
     (''return_tokens'', JBool True), (''stream'', JBool False)]"

definition lower_launch :: "host \<Rightarrow> candidate_plan \<Rightarrow> artifact_identity \<Rightarrow> runtime_binding \<Rightarrow> json
    \<Rightarrow> (string \<times> string) list \<Rightarrow> lowered_launch res" where
  "lower_launch h c model b port inherited =
     rbind (require_int port ''owned port'' 1) (\<lambda>n.
     if 65535 < n then Inl (ValueError ''invalid owned port'')
     else Inr \<lparr>ll_argv = launch_argv c model b n,
       ll_environment = launch_environment h (cp_settings c) b inherited,
       ll_request = launch_request (pi_workload (cp_identities c))\<rparr>)"

end
