(* ===== verification/Evidence.thy ===== *)
theory Evidence
  imports Launch
begin

text \<open>
  \<open>compiler/evidence.py\<close>: the append-only store of native measurements and the verification that
  recomputes a measurement from its raw artifacts. The three SQLite tables are lists of rows with the
  constraints the schema declares (a failing transaction leaves them as they were); a payload column
  holds the value its text decodes to, with its keys sorted. The JSON texts inside a record are read
  and written by the arguments \<open>loads\<close> and \<open>dumps\<close> (keys sorted, compact); a comparison identifier that is not a string, which its annotation excludes, is refused.
\<close>

section \<open>Records\<close>

record measurement_key =
  mk_model_sha256 :: string
  mk_hardware_sha256 :: string
  mk_workload_sha256 :: string
  mk_runtime_sha256 :: string
  mk_settings_sha256 :: string

definition key_specs :: "(string \<times> json option) list" where
  "key_specs = [(''model_sha256'', None), (''hardware_sha256'', None), (''workload_sha256'', None),
     (''runtime_sha256'', None), (''settings_sha256'', None)]"

definition MeasurementKey :: "jrecord \<Rightarrow> measurement_key res" where
  "MeasurementKey kwargs = rbind (bind_kwargs key_specs kwargs) (\<lambda>r.
     rbind (require_hash (jget r ''model_sha256'') ''model_sha256'') (\<lambda>m.
     rbind (require_hash (jget r ''hardware_sha256'') ''hardware_sha256'') (\<lambda>h.
     rbind (require_hash (jget r ''workload_sha256'') ''workload_sha256'') (\<lambda>w.
     rbind (require_hash (jget r ''runtime_sha256'') ''runtime_sha256'') (\<lambda>rt.
     rbind (require_hash (jget r ''settings_sha256'') ''settings_sha256'') (\<lambda>s.
       Inr \<lparr>mk_model_sha256 = m, mk_hardware_sha256 = h, mk_workload_sha256 = w, mk_runtime_sha256 = rt,
         mk_settings_sha256 = s\<rparr>))))))"

definition key_fields :: "measurement_key \<Rightarrow> jrecord" where
  "key_fields k = [(''model_sha256'', JStr (mk_model_sha256 k)), (''hardware_sha256'', JStr (mk_hardware_sha256 k)),
     (''workload_sha256'', JStr (mk_workload_sha256 k)), (''runtime_sha256'', JStr (mk_runtime_sha256 k)),
     (''settings_sha256'', JStr (mk_settings_sha256 k))]"

definition key_from_candidate :: "(json \<Rightarrow> string) \<Rightarrow> candidate_plan \<Rightarrow> measurement_key res" where
  "key_from_candidate digest c = (let i = cp_identities c in
     rbind (canonical_sha256 digest (settings_payload (cp_settings c))) (\<lambda>s.
       MeasurementKey [(''model_sha256'', JStr (pi_model_sha256 i)), (''hardware_sha256'', JStr (pi_hardware_sha256 i)),
         (''workload_sha256'', JStr (pi_workload_sha256 i)), (''runtime_sha256'', JStr (pi_runtime_sha256 i)),
         (''settings_sha256'', JStr s)]))"

record evidence_artifact =
  ea_role :: string
  ea_identity :: artifact_identity

text \<open>\<open>ArtifactIdentity(**v)\<close> and \<open>EvidenceArtifact(a['role'], ArtifactIdentity(**a['identity']))\<close>.\<close>

definition artifact_specs :: "(string \<times> json option) list" where
  "artifact_specs = [(''path'', None), (''size_bytes'', None), (''sha256'', None)]"

definition artifact_of_json :: "json \<Rightarrow> artifact_identity res" where
  "artifact_of_json v = rbind (unpack v) (\<lambda>kwargs. rbind (bind_kwargs artifact_specs kwargs) (\<lambda>r.
     ArtifactIdentity (jget r ''path'') (jget r ''size_bytes'') (jget r ''sha256'')))"

definition evidence_artifact_of_json :: "json \<Rightarrow> evidence_artifact res" where
  "evidence_artifact_of_json a = rbind (subscript a ''role'') (\<lambda>role. rbind (subscript a ''identity'') (\<lambda>v.
     rbind (artifact_of_json v) (\<lambda>identity. rbind (require_text role ''artifact role'') (\<lambda>r.
       Inr \<lparr>ea_role = r, ea_identity = identity\<rparr>))))"

definition evidence_artifact_payload :: "evidence_artifact \<Rightarrow> json" where
  "evidence_artifact_payload a = JObj [(''role'', JStr (ea_role a)), (''identity'', artifact_payload (ea_identity a))]"

record measurement_record =
  mr_key :: measurement_key
  mr_candidate_id :: string
  mr_identities_json :: string
  mr_settings_json :: string
  mr_artifacts :: "evidence_artifact list"
  mr_metrics_json :: string
  mr_validation_json :: string
  mr_exit_code :: int
  mr_measured :: bool
  mr_stage :: string
  mr_numerical_path :: string
  mr_comparison_ids :: "string list"
  mr_measurement_id :: json
  mr_owned_run_sha256 :: json

definition NUMERICAL_PATHS :: "string list" where
  "NUMERICAL_PATHS = [''stock_same_runtime'', ''fork_off_vs_pristine'', ''numerical_path_change'']"

text \<open>\<open>v in {...}\<close> for a set of strings; a list or a dictionary is not hashable.\<close>

definition in_strings :: "json \<Rightarrow> string list \<Rightarrow> bool res" where
  "in_strings v names = (if unhashable v then Inl TypeError else Inr (list_ex (\<lambda>s. v = JStr s) names))"

text \<open>One of the four JSON texts, rewritten in canonical form.\<close>

definition canonical_text :: "(string \<Rightarrow> json res) \<Rightarrow> (json \<Rightarrow> string) \<Rightarrow> json \<Rightarrow> string res" where
  "canonical_text loads dumps v = rbind (case v of JStr s \<Rightarrow> loads s | _ \<Rightarrow> Inl TypeError) (\<lambda>payload.
     case payload of JObj _ \<Rightarrow> rbind (canonical_json payload) (\<lambda>p. Inr (dumps p))
     | _ \<Rightarrow> Inl (ValueError ''requires JSON object''))"

definition comparison_id :: "json \<Rightarrow> string res" where
  "comparison_id v = (case v of JStr s \<Rightarrow> Inr s | _ \<Rightarrow> Inl TypeError)"

definition record_specs :: "(string \<times> json option) list" where
  "record_specs = [(''candidate_id'', None), (''identities_json'', None), (''settings_json'', None), (''metrics_json'', None),
     (''validation_json'', None), (''exit_code'', None), (''measured'', None), (''stage'', None), (''numerical_path'', None),
     (''comparison_ids'', Some (JArr [])), (''measurement_id'', Some (JStr [])), (''owned_run_sha256'', Some (JStr []))]"

definition MeasurementRecord :: "(string \<Rightarrow> json res) \<Rightarrow> (json \<Rightarrow> string) \<Rightarrow> measurement_key \<Rightarrow> evidence_artifact list
    \<Rightarrow> jrecord \<Rightarrow> measurement_record res" where
  "MeasurementRecord loads dumps key artifacts kwargs = rbind (bind_kwargs record_specs kwargs) (\<lambda>r.
     rbind (require_text (jget r ''candidate_id'') ''candidate ID'') (\<lambda>cid.
     rbind (require_text (jget r ''stage'') ''measurement stage'') (\<lambda>stage.
     case (jget r ''exit_code'', jget r ''measured'') of
       (JInt code, JBool measured) \<Rightarrow>
         rbind (in_strings (jget r ''numerical_path'') NUMERICAL_PATHS) (\<lambda>supported.
         if \<not> supported then Inl (ValueError ''unsupported numerical path'')
         else rbind (canonical_text loads dumps (jget r ''identities_json'')) (\<lambda>identities.
         rbind (canonical_text loads dumps (jget r ''settings_json'')) (\<lambda>settings.
         rbind (canonical_text loads dumps (jget r ''metrics_json'')) (\<lambda>metrics.
         rbind (canonical_text loads dumps (jget r ''validation_json'')) (\<lambda>validation.
         if \<not> distinct (map ea_role artifacts) then Inl (ValueError ''duplicate artifact role'')
         else rbind (py_iter (jget r ''comparison_ids'')) (\<lambda>items. rbind (rmap comparison_id items) (\<lambda>comparisons.
           Inr \<lparr>mr_key = key, mr_candidate_id = cid, mr_identities_json = identities, mr_settings_json = settings,
             mr_artifacts = artifacts, mr_metrics_json = metrics, mr_validation_json = validation, mr_exit_code = code,
             mr_measured = measured, mr_stage = stage,
             mr_numerical_path = (case jget r ''numerical_path'' of JStr s \<Rightarrow> s | _ \<Rightarrow> []),
             mr_comparison_ids = comparisons, mr_measurement_id = jget r ''measurement_id'',
             mr_owned_run_sha256 = jget r ''owned_run_sha256''\<rparr>)))))))
     | _ \<Rightarrow> Inl (ValueError ''invalid measurement exit/status''))))"

text \<open>The fields of a record other than the key and the artifacts, as keyword arguments.\<close>

definition record_fields :: "measurement_record \<Rightarrow> jrecord" where
  "record_fields m = [(''candidate_id'', JStr (mr_candidate_id m)), (''identities_json'', JStr (mr_identities_json m)),
     (''settings_json'', JStr (mr_settings_json m)), (''metrics_json'', JStr (mr_metrics_json m)),
     (''validation_json'', JStr (mr_validation_json m)), (''exit_code'', JInt (mr_exit_code m)),
     (''measured'', JBool (mr_measured m)), (''stage'', JStr (mr_stage m)), (''numerical_path'', JStr (mr_numerical_path m)),
     (''comparison_ids'', JArr (map JStr (mr_comparison_ids m))), (''measurement_id'', mr_measurement_id m),
     (''owned_run_sha256'', mr_owned_run_sha256 m)]"

text \<open>\<open>replace(record, ...)\<close> runs the constructor's checks again.\<close>

definition replace_record :: "(string \<Rightarrow> json res) \<Rightarrow> (json \<Rightarrow> string) \<Rightarrow> measurement_record \<Rightarrow> measurement_record res" where
  "replace_record loads dumps m = MeasurementRecord loads dumps (mr_key m) (mr_artifacts m) (record_fields m)"

definition record_payload :: "measurement_record \<Rightarrow> json" where
  "record_payload m = JObj ([(''key'', JObj (key_fields (mr_key m))),
     (''artifacts'', JArr (map evidence_artifact_payload (mr_artifacts m)))] @ record_fields m)"

section \<open>The store\<close>

record measurement_row =
  ro_id :: string
  ro_key_sha256 :: string
  ro_payload :: json
  ro_payload_sha256 :: string
  ro_created_at :: string
  ro_owned_run_sha256 :: string

record evidence_store =
  es_measurement :: "measurement_row list"
  es_artifact :: "(string \<times> string \<times> json) list"
  es_validation :: "(string \<times> string \<times> bool) list"

text \<open>What the store and its verification use of the host: reading and writing JSON, SHA-256, the files.\<close>

record evidence_host =
  eh_loads :: "string \<Rightarrow> json res"
  eh_dumps :: "json \<Rightarrow> string"
  eh_digest :: "json \<Rightarrow> string"
  eh_host :: host

definition verify_artifacts :: "host \<Rightarrow> measurement_record \<Rightarrow> unit res" where
  "verify_artifacts h m = (if list_all (\<lambda>a. identity_holds h (ea_identity a)) (mr_artifacts m) then Inr ()
     else Inl (ValueError ''artifact identity mismatch''))"

definition artifact_path :: "measurement_record \<Rightarrow> string \<Rightarrow> string option" where
  "artifact_path m role = map_of (map (\<lambda>a. (ea_role a, ai_path (ea_identity a))) (mr_artifacts m)) role"

definition owned_run :: "evidence_host \<Rightarrow> measurement_record \<Rightarrow> string res" where
  "owned_run x m = (case artifact_path m ''run-start'' of
     None \<Rightarrow> Inl (ValueError ''missing owned run start proof'')
   | Some p \<Rightarrow> rbind (read_json_file (eh_host x) p) (\<lambda>start.
       rbind (rmap (\<lambda>k. require_int (jget start k) (''owned run '' @ k) 1) [''pid'', ''creation_time_100ns'', ''started_monotonic_ns'']) (\<lambda>_.
       rbind (require_text (jget start ''run_id'') ''owned run UUID'') (\<lambda>_.
       rbind (in_strings (jget start ''creation_source'') [''GetProcessTimes'', ''proc-start-ticks'']) (\<lambda>known.
       if \<not> known then Inl (ValueError ''invalid owned run creation source'')
       else canonical_sha256 (eh_digest x) (JObj (map (\<lambda>k. (k, jget start k)) [''pid'', ''creation_time_100ns'', ''creation_source''])))))))"

text \<open>The validation flags of a record; a value that is not a boolean aborts the transaction.\<close>

definition validation_rows :: "evidence_host \<Rightarrow> measurement_record \<Rightarrow> (string \<times> bool) list res" where
  "validation_rows x m = rbind (eh_loads x (mr_validation_json m)) (\<lambda>v. rbind (as_record v) (\<lambda>flags.
     rmap (\<lambda>(name, passed). case passed of JBool b \<Rightarrow> Inr (name, b)
       | _ \<Rightarrow> Inl (ValueError ''validation requires boolean values'')) flags))"

text \<open>
  \<open>append_measurement\<close>: \<open>fresh\<close> is the identifier \<open>uuid4\<close> draws when none is given, \<open>now\<close> the time
  stamp of the row.
\<close>

definition append_measurement :: "evidence_host \<Rightarrow> string \<Rightarrow> string \<Rightarrow> evidence_store \<Rightarrow> measurement_record \<Rightarrow> string
    \<Rightarrow> (string \<times> evidence_store) res" where
  "append_measurement x now fresh db m0 measurement_id =
     rbind (require_text (JStr (if measurement_id = [] then fresh else measurement_id)) ''measurement ID'') (\<lambda>mid.
     rbind (replace_record (eh_loads x) (eh_dumps x) (m0\<lparr>mr_measurement_id := JStr mid\<rparr>)) (\<lambda>m1.
     rbind (verify_artifacts (eh_host x) m1) (\<lambda>_.
     rbind (owned_run x m1) (\<lambda>owned.
     rbind (replace_record (eh_loads x) (eh_dumps x) (m1\<lparr>mr_owned_run_sha256 := JStr owned\<rparr>)) (\<lambda>m.
     rbind (canonical_json (record_payload m)) (\<lambda>payload.
     rbind (canonical_sha256 (eh_digest x) (JObj (key_fields (mr_key m)))) (\<lambda>key.
     rbind (canonical_sha256 (eh_digest x) (record_payload m)) (\<lambda>h.
     if mid \<in> ro_id ` set (es_measurement db) \<or> owned \<in> ro_owned_run_sha256 ` set (es_measurement db)
     then Inl (ValueError ''duplicate owned run or invalid evidence ID'')
     else rbind (validation_rows x m) (\<lambda>flags.
       Inr (mid, \<lparr>es_measurement = es_measurement db @ [\<lparr>ro_id = mid, ro_key_sha256 = key, ro_payload = payload,
             ro_payload_sha256 = h, ro_created_at = now, ro_owned_run_sha256 = owned\<rparr>],
           es_artifact = es_artifact db
             @ map (\<lambda>a. (mid, ea_role a, sort_keys (evidence_artifact_payload a))) (mr_artifacts m),
           es_validation = es_validation db @ map (\<lambda>(name, passed). (mid, name, passed)) flags\<rparr>))))))))))"

text \<open>\<open>_decode\<close>: the stored text must still have its digest.\<close>

definition decode_row :: "evidence_host \<Rightarrow> measurement_row \<Rightarrow> measurement_record res" where
  "decode_row x row = (let payload = ro_payload row in
     rbind (canonical_sha256 (eh_digest x) payload) (\<lambda>h.
     if h \<noteq> ro_payload_sha256 row then Inl (ValueError ''measurement payload hash mismatch'')
     else rbind (subscript payload ''key'') (\<lambda>k. rbind (unpack k) (\<lambda>kwargs. rbind (MeasurementKey kwargs) (\<lambda>key.
     rbind (subscript payload ''artifacts'') (\<lambda>as. rbind (py_iter as) (\<lambda>items.
     rbind (rmap evidence_artifact_of_json items) (\<lambda>artifacts.
     rbind (unpack payload) (\<lambda>fields0.
       MeasurementRecord (eh_loads x) (eh_dumps x) key artifacts
         (filter (\<lambda>(name, v). name \<noteq> ''key'' \<and> name \<noteq> ''artifacts'') fields0))))))))))"

definition measurement :: "evidence_host \<Rightarrow> evidence_store \<Rightarrow> string \<Rightarrow> measurement_record res" where
  "measurement x db mid = (case find (\<lambda>row. ro_id row = mid) (es_measurement db) of
     None \<Rightarrow> Inl (ValueError ''missing evidence'') | Some row \<Rightarrow> decode_row x row)"

definition measurements_for :: "evidence_host \<Rightarrow> evidence_store \<Rightarrow> measurement_key \<Rightarrow> measurement_record list res" where
  "measurements_for x db key = rbind (canonical_sha256 (eh_digest x) (JObj (key_fields key))) (\<lambda>h.
     rmap (decode_row x) (filter (\<lambda>row. ro_key_sha256 row = h) (es_measurement db)))"

text \<open>The public \<open>verify_artifacts\<close>, and the one operation that would change a row.\<close>

definition verify_stored_artifacts :: "evidence_host \<Rightarrow> evidence_store \<Rightarrow> string \<Rightarrow> unit res" where
  "verify_stored_artifacts x db mid = rbind (measurement x db mid) (verify_artifacts (eh_host x))"

definition replace_measurement :: "'a \<Rightarrow> evidence_store res" where
  "replace_measurement args = Inl (ValueError ''append-only evidence'')"

section \<open>Sorted payloads\<close>

lemma insort_key_map: "(\<And>x. k (f x) = k x) \<Longrightarrow> insort_key k (f x) (map f xs) = map f (insort_key k x xs)"
  by (induction xs) simp_all

lemma sort_key_map: "(\<And>x. k (f x) = k x) \<Longrightarrow> sort_key k (map f xs) = map f (sort_key k xs)"
  by (induction xs) (simp_all add: insort_key_map)

lemma sort_keys_again: "sort_keys (sort_keys v) = sort_keys v"
proof (induction v rule: sort_keys.induct)
  case (2 d)
  let ?f = "\<lambda>(k, v). (k, sort_keys v)"
  have same: "map ?f (sort_key fst (map ?f d)) = sort_key fst (map ?f d)"
    by (rule map_idI) (use "2.IH" in fastforce)
  show ?case unfolding sort_keys.simps same by (simp add: sort_key_id_if_sorted)
qed simp_all

lemma rmap_same: "(\<And>x. x \<in> set xs \<Longrightarrow> f x = Inr x) \<Longrightarrow> rmap f xs = Inr xs"
  by (induction xs) simp_all

lemma rmap_same_elem: "rmap f xs = Inr xs \<Longrightarrow> x \<in> set xs \<Longrightarrow> f x = Inr x"
  by (induction xs) (auto simp: rbind_eq_Inr)

lemma canonical_sort_keys: "canonical_payload v = Inr v \<Longrightarrow> canonical_payload (sort_keys v) = Inr (sort_keys v)"
proof (induction v rule: sort_keys.induct)
  case (1 xs)
  then have "rmap canonical_payload xs = Inr xs" by (auto simp: rbind_eq_Inr)
  then have "rmap canonical_payload (map sort_keys xs) = Inr (map sort_keys xs)"
    using "1.IH" by (intro rmap_same) (auto dest: rmap_same_elem)
  then show ?case by simp
next
  case (2 d)
  let ?g = "\<lambda>(k, v). rbind (canonical_payload v) (\<lambda>w. Inr (k, w))"
  have d: "rmap ?g d = Inr d" using "2.prems" by (auto simp: rbind_eq_Inr)
  have "rmap ?g (sort_key fst (map (\<lambda>(k, v). (k, sort_keys v)) d)) = Inr (sort_key fst (map (\<lambda>(k, v). (k, sort_keys v)) d))"
  proof (rule rmap_same)
    fix e assume "e \<in> set (sort_key fst (map (\<lambda>(k, v). (k, sort_keys v)) d))"
    then obtain k v where kv: "(k, v) \<in> set d" "e = (k, sort_keys v)" by auto
    have "canonical_payload v = Inr v" using rmap_same_elem [OF d kv(1)] by (auto simp: rbind_eq_Inr)
    then show "?g e = Inr e" using "2.IH" [OF kv(1) refl] kv(2) by simp
  qed
  then show ?case by simp
qed simp_all

lemma bind_kwargs_cong:
  assumes "fst ` set d = fst ` set e" and "\<And>k. k \<in> fst ` set specs \<Longrightarrow> map_of d k = map_of e k"
  shows "bind_kwargs specs d = bind_kwargs specs e"
proof -
  have keys: "list_ex (\<lambda>k. k \<notin> fst ` set specs) (jkeys d) = list_ex (\<lambda>k. k \<notin> fst ` set specs) (jkeys e)"
    using assms(1) by (auto simp: list_ex_iff jkeys_def)
  have "rmap (\<lambda>(name, default). case map_of d name of Some v \<Rightarrow> Inr (name, v)
         | None \<Rightarrow> (case default of Some v \<Rightarrow> Inr (name, v) | None \<Rightarrow> Inl TypeError)) specs
      = rmap (\<lambda>(name, default). case map_of e name of Some v \<Rightarrow> Inr (name, v)
         | None \<Rightarrow> (case default of Some v \<Rightarrow> Inr (name, v) | None \<Rightarrow> Inl TypeError)) specs"
    using assms(2) by (intro rmap_cong) force+
  then show ?thesis using keys by (simp add: bind_kwargs_def)
qed

text \<open>The entries of a sorted object.\<close>

lemma sorted_entries:
  assumes "distinct (map fst d)"
  shows "map_of (sort_key fst (map (\<lambda>(k, v). (k, sort_keys v)) d)) k = map_option sort_keys (map_of d k)"
    and "fst ` set (sort_key fst (map (\<lambda>(k, v). (k, sort_keys v)) d)) = fst ` set d"
proof -
  have "distinct (map fst (map (\<lambda>(k, v). (k, sort_keys v)) d))" using assms by (simp add: comp_def case_prod_unfold)
  then show "map_of (sort_key fst (map (\<lambda>(k, v). (k, sort_keys v)) d)) k = map_option sort_keys (map_of d k)"
    by (simp add: map_of_sort_key map_of_map)
  show "fst ` set (sort_key fst (map (\<lambda>(k, v). (k, sort_keys v)) d)) = fst ` set d" by force
qed

text \<open>Keyword arguments from a sorted object whose values have no keys to sort.\<close>

lemma bind_sorted:
  assumes "distinct (map fst d)" and "\<forall>(k, v) \<in> set d. sort_keys v = v"
  shows "bind_kwargs specs (sort_key fst (map (\<lambda>(k, v). (k, sort_keys v)) d)) = bind_kwargs specs d"
proof (rule bind_kwargs_cong)
  show "fst ` set (sort_key fst (map (\<lambda>(k, v). (k, sort_keys v)) d)) = fst ` set d" using assms(1) by (rule sorted_entries)
  fix k
  have "map_option sort_keys (map_of d k) = map_of d k"
    using assms(2) by (cases "map_of d k") (auto dest: map_of_SomeD)
  then show "map_of (sort_key fst (map (\<lambda>(k, v). (k, sort_keys v)) d)) k = map_of d k"
    using sorted_entries(1) [OF assms(1)] by simp
qed

section \<open>Reading back what was written\<close>

definition wf_key :: "measurement_key \<Rightarrow> bool" where
  "wf_key k \<longleftrightarrow> list_all is_hash [mk_model_sha256 k, mk_hardware_sha256 k, mk_workload_sha256 k, mk_runtime_sha256 k, mk_settings_sha256 k]"

definition wf_evidence_artifact :: "evidence_artifact \<Rightarrow> bool" where
  "wf_evidence_artifact a \<longleftrightarrow> is_text (ea_role a) \<and> is_text (ai_path (ea_identity a)) \<and> 1 \<le> ai_size_bytes (ea_identity a)
     \<and> is_hash (ai_sha256 (ea_identity a))"

lemma key_again:
  assumes "wf_key k"
  shows "MeasurementKey (sort_key fst (map (\<lambda>(k, v). (k, sort_keys v)) (key_fields k))) = Inr k"
proof -
  have "bind_kwargs key_specs (sort_key fst (map (\<lambda>(k, v). (k, sort_keys v)) (key_fields k))) = bind_kwargs key_specs (key_fields k)"
    by (rule bind_sorted) (simp_all add: key_fields_def)
  also have "\<dots> = Inr (key_fields k)" by (rule bind_kwargs_id) (simp_all add: key_fields_def key_specs_def)
  finally show ?thesis using assms by (simp add: MeasurementKey_def key_fields_def require_hash_def wf_key_def)
qed

lemma artifact_again:
  assumes "wf_evidence_artifact a"
  shows "evidence_artifact_of_json (sort_keys (evidence_artifact_payload a)) = Inr a"
proof -
  let ?d = "[(''path'', JStr (ai_path (ea_identity a))), (''size_bytes'', JInt (ai_size_bytes (ea_identity a))),
     (''sha256'', JStr (ai_sha256 (ea_identity a)))]"
  have "bind_kwargs artifact_specs (sort_key fst (map (\<lambda>(k, v). (k, sort_keys v)) ?d)) = bind_kwargs artifact_specs ?d"
    by (rule bind_sorted) simp_all
  also have "\<dots> = Inr ?d" by (rule bind_kwargs_id) (simp_all add: artifact_specs_def)
  finally have identity: "artifact_of_json (sort_keys (artifact_payload (ea_identity a))) = Inr (ea_identity a)"
    using assms by (simp add: artifact_of_json_def artifact_payload_def unpack_def ArtifactIdentity_def wf_evidence_artifact_def
        require_text_def require_int_def require_hash_def)
  let ?e = "[(''role'', JStr (ea_role a)), (''identity'', artifact_payload (ea_identity a))]"
  have e: "map_of (sort_key fst (map (\<lambda>(k, v). (k, sort_keys v)) ?e)) k = map_option sort_keys (map_of ?e k)" for k
    by (rule sorted_entries) simp
  have "sort_keys (evidence_artifact_payload a) = JObj (sort_key fst (map (\<lambda>(k, v). (k, sort_keys v)) ?e))"
    by (simp add: evidence_artifact_payload_def)
  then have get: "subscript (sort_keys (evidence_artifact_payload a)) ''role'' = Inr (JStr (ea_role a))"
      "subscript (sort_keys (evidence_artifact_payload a)) ''identity'' = Inr (sort_keys (artifact_payload (ea_identity a)))"
    unfolding subscript_def dict_index_def json.case e by simp_all
  show ?thesis using assms
    by (simp add: evidence_artifact_of_json_def get identity require_text_def wf_evidence_artifact_def)
qed

lemma comparison_ids_strings: "rmap comparison_id (map JStr cs) = Inr cs"
  by (induction cs) (simp_all add: comparison_id_def)

lemma record_fields_get:
  "jget (record_fields m) ''candidate_id'' = JStr (mr_candidate_id m)" "jget (record_fields m) ''stage'' = JStr (mr_stage m)"
  "jget (record_fields m) ''identities_json'' = JStr (mr_identities_json m)" "jget (record_fields m) ''settings_json'' = JStr (mr_settings_json m)"
  "jget (record_fields m) ''metrics_json'' = JStr (mr_metrics_json m)" "jget (record_fields m) ''validation_json'' = JStr (mr_validation_json m)"
  "jget (record_fields m) ''exit_code'' = JInt (mr_exit_code m)" "jget (record_fields m) ''measured'' = JBool (mr_measured m)"
  "jget (record_fields m) ''numerical_path'' = JStr (mr_numerical_path m)"
  "jget (record_fields m) ''comparison_ids'' = JArr (map JStr (mr_comparison_ids m))"
  "jget (record_fields m) ''measurement_id'' = mr_measurement_id m" "jget (record_fields m) ''owned_run_sha256'' = mr_owned_run_sha256 m"
  by (simp_all add: record_fields_def)

text \<open>Running the constructor's checks on a record again rewrites its four texts and nothing else.\<close>

lemma replace_record_iff:
  "replace_record loads dumps m = Inr m' \<longleftrightarrow> is_text (mr_candidate_id m) \<and> is_text (mr_stage m)
     \<and> mr_numerical_path m \<in> set NUMERICAL_PATHS \<and> distinct (map ea_role (mr_artifacts m))
     \<and> (\<exists>i s q v. canonical_text loads dumps (JStr (mr_identities_json m)) = Inr i
          \<and> canonical_text loads dumps (JStr (mr_settings_json m)) = Inr s
          \<and> canonical_text loads dumps (JStr (mr_metrics_json m)) = Inr q
          \<and> canonical_text loads dumps (JStr (mr_validation_json m)) = Inr v
          \<and> m' = m\<lparr>mr_identities_json := i, mr_settings_json := s, mr_metrics_json := q, mr_validation_json := v\<rparr>)"
proof -
  have bind: "bind_kwargs record_specs (record_fields m) = Inr (record_fields m)"
    by (rule bind_kwargs_id) (simp_all add: record_specs_def record_fields_def)
  have path: "in_strings (JStr (mr_numerical_path m)) NUMERICAL_PATHS = Inr (mr_numerical_path m \<in> set NUMERICAL_PATHS)"
    by (auto simp: in_strings_def unhashable_def list_ex_iff)
  show ?thesis
    unfolding replace_record_def MeasurementRecord_def bind rbind_Inr record_fields_get path prod.case json.case
      py_iter_def comparison_ids_strings rbind_eq_Inr if_Inl_eq_Inr require_text_ok
    by auto
qed

text \<open>A text written by \<open>canonical_text\<close> that reads back as what was written is canonical itself.\<close>

lemma canonical_text_again:
  assumes "canonical_text loads dumps (JStr t) = Inr t'" and "\<forall>v. loads t = Inr v \<longrightarrow> loads (dumps (sort_keys v)) = Inr (sort_keys v)"
  shows "canonical_text loads dumps (JStr t') = Inr t'"
proof -
  obtain d p where d: "loads t = Inr (JObj d)" "canonical_json (JObj d) = Inr p" "t' = dumps p"
  proof -
    obtain u where u: "loads t = Inr u" "(case u of JObj _ \<Rightarrow> rbind (canonical_json u) (\<lambda>p. Inr (dumps p))
       | _ \<Rightarrow> Inl (ValueError ''requires JSON object'')) = Inr t'"
      using assms(1) by (auto simp: canonical_text_def rbind_eq_Inr)
    then show thesis by (cases u) (auto simp: rbind_eq_Inr intro: that)
  qed
  obtain q where "canonical_payload (JObj d) = Inr q" "p = sort_keys q" using d(2) by (auto simp: canonical_json_def rbind_eq_Inr)
  then have c: "canonical_payload (JObj d) = Inr (JObj d)" and p: "p = sort_keys (JObj d)"
    using canonical_payload_id [of "JObj d" q] by simp_all
  have "loads t' = Inr p" using assms(2) d(1,3) p by blast
  moreover have "canonical_json p = Inr p"
    using canonical_sort_keys [OF c] by (simp add: canonical_json_def p sort_keys_again del: sort_keys.simps)
  ultimately show ?thesis using d(3) p by (simp add: canonical_text_def)
qed

lemma artifacts_again:
  assumes "\<forall>a \<in> set as. wf_evidence_artifact a"
  shows "rmap evidence_artifact_of_json (map (sort_keys \<circ> evidence_artifact_payload) as) = Inr as"
  using assms by (induction as) (simp_all add: artifact_again)

lemma decode_row_again:
  assumes again: "replace_record (eh_loads x) (eh_dumps x) m = Inr m" and wf: "wf_key (mr_key m)" "\<forall>a \<in> set (mr_artifacts m). wf_evidence_artifact a"
    and ids: "sort_keys (mr_measurement_id m) = mr_measurement_id m" "sort_keys (mr_owned_run_sha256 m) = mr_owned_run_sha256 m"
    and canonical: "canonical_payload (record_payload m) = Inr (record_payload m)" "canonical_sha256 (eh_digest x) (record_payload m) = Inr h"
    and row: "ro_payload row = sort_keys (record_payload m)" "ro_payload_sha256 row = h"
  shows "decode_row x row = Inr m"
proof -
  let ?P = "[(''key'', JObj (key_fields (mr_key m))), (''artifacts'', JArr (map evidence_artifact_payload (mr_artifacts m)))] @ record_fields m"
  let ?S = "sort_key fst (map (\<lambda>(k, v). (k, sort_keys v)) ?P)"
  have P: "distinct (map fst ?P)" by (simp add: record_fields_def)
  have S: "sort_keys (record_payload m) = JObj ?S" by (simp add: record_payload_def)
  have digest: "canonical_sha256 (eh_digest x) (sort_keys (record_payload m)) = Inr h"
    using canonical_sort_keys [OF canonical(1)] canonical by (simp add: canonical_sha256_def sort_keys_again)
  have get: "map_of ?S k = map_option sort_keys (map_of ?P k)" for k using P by (rule sorted_entries)
  have key: "subscript (JObj ?S) ''key'' = Inr (sort_keys (JObj (key_fields (mr_key m))))"
    and arts: "subscript (JObj ?S) ''artifacts'' = Inr (JArr (map (sort_keys \<circ> evidence_artifact_payload) (mr_artifacts m)))"
    unfolding subscript_def dict_index_def json.case get by (simp_all del: sort_keys.simps add: sort_keys.simps(1))
  let ?F = "filter (\<lambda>(name, v). name \<noteq> ''key'' \<and> name \<noteq> ''artifacts'') ?S"
  have fields: "bind_kwargs record_specs ?F = bind_kwargs record_specs (record_fields m)"
  proof (rule bind_kwargs_cong)
    have "fst ` set ?F = fst ` set ?S - {''key'', ''artifacts''}" by force
    also have "\<dots> = fst ` set ?P - {''key'', ''artifacts''}" using sorted_entries(2) [OF P] by simp
    also have "\<dots> = fst ` set (record_fields m)" by (simp add: record_fields_def insert_Diff_if)
    finally show "fst ` set ?F = fst ` set (record_fields m)" .
    fix k assume "k \<in> fst ` set record_specs"
    then have k: "k \<noteq> ''key''" "k \<noteq> ''artifacts''" by (auto simp: record_specs_def)
    have "map_of ?F k = map_option sort_keys (map_of (record_fields m) k)"
      unfolding map_of_filter_key get using k by simp
    also have "\<dots> = map_of (record_fields m) k" using ids by (simp add: record_fields_def comp_def)
    finally show "map_of ?F k = map_of (record_fields m) k" .
  qed
  have "MeasurementRecord (eh_loads x) (eh_dumps x) (mr_key m) (mr_artifacts m) ?F = replace_record (eh_loads x) (eh_dumps x) m"
    unfolding replace_record_def MeasurementRecord_def fields ..
  then have rec_ok: "MeasurementRecord (eh_loads x) (eh_dumps x) (mr_key m) (mr_artifacts m) ?F = Inr m" using again by simp
  have k: "unpack (sort_keys (JObj (key_fields (mr_key m)))) = Inr (sort_key fst (map (\<lambda>(k, v). (k, sort_keys v)) (key_fields (mr_key m))))"
    by (simp add: unpack_def)
  show ?thesis
    unfolding decode_row_def Let_def row digest S rbind_Inr key k key_again [OF wf(1)] arts
    using rec_ok artifacts_again [OF wf(2)] digest by (simp add: py_iter_def unpack_def S del: sort_keys.simps)
qed

end
