(* ===== verification/Evidence_Check.thy ===== *)
theory Evidence_Check
  imports Evidence
begin

text \<open>
  \<open>EvidenceStore.verify_measurement\<close>: the recomputation of a stored measurement from its raw
  artifacts, and of the pristine measurements a fork is compared with. The set of models whose
  weights have been hashed in this session is passed along; it changes even when a later check
  fails. The recursion ends because every nested call excludes one more stored identifier.
\<close>

section \<open>Small pieces\<close>

text \<open>\<open>except (KeyError, TypeError, IndexError, OSError)\<close>; the first handler has no \<open>IndexError\<close>, which
  its body never raises.\<close>

definition catch_malformed :: "string \<Rightarrow> 'a res \<Rightarrow> 'a res" where
  "catch_malformed message m = (case m of Inl KeyError \<Rightarrow> Inl (ValueError message) | Inl TypeError \<Rightarrow> Inl (ValueError message)
     | Inl IndexError \<Rightarrow> Inl (ValueError message) | Inl OSError \<Rightarrow> Inl (ValueError message) | _ \<Rightarrow> m)"

text \<open>\<open>int(s)\<close> of a text: surrounding space, a sign, and digits that single underscores may separate.\<close>

definition digit :: "char \<Rightarrow> bool" where
  "digit c \<longleftrightarrow> 48 \<le> (of_char c :: nat) \<and> (of_char c :: nat) \<le> 57"

fun digits_value :: "int \<Rightarrow> string \<Rightarrow> int option" where
  "digits_value n [] = Some n"
| "digits_value n (c # cs) =
     (if digit c then digits_value (10 * n + (of_char c - 48)) cs
      else if c = CHR ''_'' then (case cs of d # _ \<Rightarrow> if digit d then digits_value n cs else None | [] \<Rightarrow> None)
      else None)"

definition unsigned_int :: "string \<Rightarrow> int option" where
  "unsigned_int s = (case s of [] \<Rightarrow> None | c # _ \<Rightarrow> if digit c then digits_value 0 s else None)"

definition strip :: "string \<Rightarrow> string" where
  "strip s = rev (dropWhile py_isspace (rev (dropWhile py_isspace s)))"

definition parse_int :: "string \<Rightarrow> int option" where
  "parse_int s = (case strip s of [] \<Rightarrow> None
     | c # cs \<Rightarrow> if c = CHR ''-'' then map_option uminus (unsigned_int cs)
         else if c = CHR ''+'' then unsigned_int cs else unsigned_int (c # cs))"

definition py_int :: "json \<Rightarrow> int res" where
  "py_int v = (case v of JInt n \<Rightarrow> Inr n | JBool b \<Rightarrow> Inr (if b then 1 else 0)
     | JFloat (Fin q) \<Rightarrow> Inr (if 0 \<le> q then \<lfloor>q\<rfloor> else \<lceil>q\<rceil>)
     | JFloat NaN \<Rightarrow> Inl (ValueError ''cannot convert float NaN to integer'') | JFloat _ \<Rightarrow> Inl OverflowError
     | JStr s \<Rightarrow> (case parse_int s of None \<Rightarrow> Inl (ValueError ''invalid literal for int()'') | Some n \<Rightarrow> Inr n)
     | _ \<Rightarrow> Inl TypeError)"

text \<open>\<open>int(argv[argv.index('--port') + 1])\<close>; the character after the position in a text is a dash.\<close>

definition argv_port :: "json \<Rightarrow> int res" where
  "argv_port argv = (case argv of
     JArr xs \<Rightarrow> (case dropWhile (\<lambda>a. \<not> jeq a (JStr ''--port'')) xs of [] \<Rightarrow> Inl (ValueError ''not in list'')
       | [_] \<Rightarrow> Inl IndexError | _ # p # _ \<Rightarrow> py_int p)
   | JStr _ \<Rightarrow> Inl (ValueError ''invalid literal for int()'')
   | _ \<Rightarrow> Inl AttributeError)"

section \<open>The frozen inputs of a record\<close>

definition NATIVE_ROLES :: "string list" where
  "NATIVE_ROLES = [''completion'', ''tokenize'', ''tokenize-request'', ''request'', ''memory'', ''process'', ''launch'',
     ''run-start'', ''completion-wall'']"

definition native_artifacts :: "evidence_host \<Rightarrow> measurement_record \<Rightarrow> (string \<times> jrecord) list res" where
  "native_artifacts x m =
     rbind (rmap (\<lambda>a. rbind (read_json_file (eh_host x) (ai_path (ea_identity a))) (\<lambda>d. Inr (ea_role a, d)))
       (filter (\<lambda>a. ea_role a \<in> set NATIVE_ROLES) (mr_artifacts m))) (\<lambda>arts.
     if fst ` set arts \<noteq> set NATIVE_ROLES then Inl (ValueError ''missing native measurement artifacts'') else Inr arts)"

text \<open>A static placement is rebuilt when the stored value is truthy.\<close>

definition record_settings :: "json \<Rightarrow> runtime_settings res" where
  "record_settings v = rbind (subscript v ''static'') (\<lambda>p.
     rbind (if truthy p then rbind (unpack p) (\<lambda>kwargs. rbind (StaticPlacement kwargs) (\<lambda>q. Inr (Some q))) else Inr None) (\<lambda>static.
     rbind (unpack v) (\<lambda>s. RuntimeSettings static (filter (\<lambda>(k, _). k \<noteq> ''static'') s))))"

definition record_candidate :: "evidence_host \<Rightarrow> measurement_record \<Rightarrow> candidate_plan res" where
  "record_candidate x m =
     rbind (eh_loads x (mr_identities_json m)) (\<lambda>raw_i. rbind (unpack raw_i) (\<lambda>_.
     rbind (decode_identities (eh_digest x) raw_i) (\<lambda>i.
     rbind (eh_loads x (mr_settings_json m)) (\<lambda>raw_s. rbind (record_settings raw_s) (\<lambda>settings.
     rbind (CandidatePlan i settings (JStr ''unmeasured'') JNull (JArr []) (JArr []) []) (\<lambda>c.
     rbind (key_from_candidate (eh_digest x) c) (\<lambda>key.
     if key \<noteq> mr_key m then Inl (ValueError ''record identity/settings mismatch'')
     else rbind (candidate_id (eh_digest x) c) (\<lambda>cid.
     if cid \<noteq> mr_candidate_id m then Inl (ValueError ''record identity/settings mismatch'') else Inr c))))))))"

text \<open>The runtime binding the launch proof names.\<close>

definition binding_of_json :: "json \<Rightarrow> runtime_binding res" where
  "binding_of_json v = rbind (subscript v ''server'') (\<lambda>s. rbind (artifact_of_json s) (\<lambda>server.
     rbind (subscript v ''manifest_json'') (\<lambda>manifest.
     rbind (subscript v ''dependencies'') (\<lambda>d. rbind (py_iter d) (\<lambda>items. rbind (rmap artifact_of_json items) (\<lambda>deps.
     rbind (subscript v ''cuda_runtime'') (\<lambda>cr.
     rbind (if truthy cr then rbind (artifact_of_json cr) (\<lambda>a. Inr (Some a)) else Inr None) (\<lambda>cuda.
       Inr \<lparr>rb_server = server, rb_manifest_json = manifest, rb_dependencies = deps, rb_cuda_runtime = cuda\<rparr>))))))))"

definition is_fork :: "evidence_host \<Rightarrow> runtime_binding \<Rightarrow> bool res" where
  "is_fork x b = rbind (case rb_manifest_json b of JStr s \<Rightarrow> eh_loads x s | _ \<Rightarrow> Inl TypeError) (\<lambda>manifest.
     rbind (as_record manifest) (\<lambda>d. Inr (truthy (jget d ''patches''))))"

definition verified_binding :: "evidence_host \<Rightarrow> measurement_record \<Rightarrow> plan_identities \<Rightarrow> jrecord \<Rightarrow> runtime_binding res" where
  "verified_binding x m i launch = catch_malformed ''missing or malformed verified runtime binding''
     (rbind (dict_index launch ''runtime_binding'') (\<lambda>raw. rbind (binding_of_json raw) (\<lambda>b.
      rbind (binding_verify (eh_host x) b) (\<lambda>_.
      rbind (binding_sha256 (eh_digest x) b) (\<lambda>h.
      if h \<noteq> pi_runtime_sha256 i then Inl (ValueError ''runtime binding hash mismatch'')
      else rbind (is_fork x b) (\<lambda>fork.
      if fork \<noteq> (mr_numerical_path m = ''fork_off_vs_pristine'') \<and> mr_numerical_path m \<noteq> ''numerical_path_change''
      then Inl (ValueError ''runtime comparison role mismatch'') else Inr b))))))"

definition launch_expectations :: "(json \<Rightarrow> string) \<Rightarrow> candidate_plan \<Rightarrow> (string \<times> string) list res" where
  "launch_expectations digest c = (let i = cp_identities c in
     rbind (candidate_id digest c) (\<lambda>cid. rbind (canonical_sha256 digest (settings_payload (cp_settings c))) (\<lambda>s.
       Inr [(''candidate_id'', cid), (''settings_sha256'', s), (''runtime_sha256'', pi_runtime_sha256 i),
         (''model_sha256'', pi_model_sha256 i), (''workload_sha256'', pi_workload_sha256 i)])))"

definition check_launch_fields :: "(json \<Rightarrow> string) \<Rightarrow> candidate_plan \<Rightarrow> jrecord \<Rightarrow> unit res" where
  "check_launch_fields digest c launch = rbind (launch_expectations digest c) (\<lambda>expected.
     if list_all (\<lambda>(name, v). jget launch name = JStr v) expected then Inr ()
     else Inl (ValueError ''launch mismatch''))"

text \<open>The model snapshot of the launch proof.\<close>

definition layer_specs :: "(string \<times> json option) list" where
  "layer_specs = [(''layer_id'', None), (''expert_count'', None), (''expert_top_k'', None), (''expert_bundle_bytes'', None),
     (''routed_expert_bank_bytes'', None), (''component_bank_bytes'', Some (JArr []))]"

definition layer_of_json :: "json \<Rightarrow> moe_layer_ir res" where
  "layer_of_json v = rbind (unpack v) (\<lambda>kwargs. rbind (bind_kwargs layer_specs kwargs) (\<lambda>r.
     rbind (py_iter (jget r ''component_bank_bytes'')) (\<lambda>components.
       MoELayerIR (jget r ''layer_id'') (jget r ''expert_count'') (jget r ''expert_top_k'') (jget r ''expert_bundle_bytes'')
         (jget r ''routed_expert_bank_bytes'') components)))"

definition model_specs :: "(string \<times> json option) list" where
  "model_specs = [(''schema_version'', None), (''identity'', None), (''family'', None), (''architecture'', None),
     (''quantization'', None), (''expert_count'', None), (''expert_top_k'', None), (''moe_layers'', None), (''kv_kind'', None),
     (''mtp_kind'', None), (''alignment_bytes'', Some (JInt 256)), (''inventory_sha256'', Some JNull)]"

definition model_of_json :: "json \<Rightarrow> model_ir res" where
  "model_of_json v = rbind (unpack v) (\<lambda>raw.
     rbind (dict_index raw ''identity'') (\<lambda>i. rbind (artifact_of_json i) (\<lambda>identity.
     rbind (dict_index raw ''moe_layers'') (\<lambda>l. rbind (py_iter l) (\<lambda>items. rbind (rmap layer_of_json items) (\<lambda>layers.
     rbind (bind_kwargs model_specs raw) (\<lambda>r.
       ModelIR (jget r ''schema_version'') identity (jget r ''family'') (jget r ''architecture'') (jget r ''quantization'')
         (jget r ''expert_count'') (jget r ''expert_top_k'') layers (jget r ''kv_kind'') (jget r ''mtp_kind'')
         (jget r ''alignment_bytes'') (jget r ''inventory_sha256''))))))))"

definition layer_payload :: "moe_layer_ir \<Rightarrow> json" where
  "layer_payload l = JObj [(''layer_id'', JInt (ml_layer_id l)), (''expert_count'', JInt (ml_expert_count l)),
     (''expert_top_k'', JInt (ml_expert_top_k l)), (''expert_bundle_bytes'', JInt (ml_expert_bundle_bytes l)),
     (''routed_expert_bank_bytes'', JInt (ml_routed_expert_bank_bytes l)),
     (''component_bank_bytes'', JArr (map JInt (ml_component_bank_bytes l)))]"

definition model_payload :: "model_ir \<Rightarrow> json" where
  "model_payload m = JObj [(''schema_version'', JStr (md_schema_version m)), (''identity'', artifact_payload (md_identity m)),
     (''family'', JStr (md_family m)), (''architecture'', JStr (md_architecture m)), (''quantization'', JStr (md_quantization m)),
     (''expert_count'', JInt (md_expert_count m)), (''expert_top_k'', JInt (md_expert_top_k m)),
     (''moe_layers'', JArr (map layer_payload (md_moe_layers m))), (''kv_kind'', JStr (md_kv_kind m)),
     (''mtp_kind'', JStr (md_mtp_kind m)), (''alignment_bytes'', JInt (md_alignment_bytes m)),
     (''inventory_sha256'', case md_inventory_sha256 m of None \<Rightarrow> JNull | Some h \<Rightarrow> JStr h)]"

definition launch_model :: "evidence_host \<Rightarrow> plan_identities \<Rightarrow> jrecord \<Rightarrow> model_ir res" where
  "launch_model x i launch = catch_malformed ''missing or malformed actual launch proof''
     (rbind (dict_index launch ''model_ir'') (\<lambda>raw. rbind (model_of_json raw) (\<lambda>model.
      rbind (canonical_sha256 (eh_digest x) (model_payload model)) (\<lambda>h.
      if h \<noteq> pi_model_sha256 i then Inl (ValueError ''model snapshot hash mismatch'') else Inr model))))"

section \<open>The session's verified models\<close>

type_synonym primed = "(artifact_identity \<times> int \<times> int) set"

definition prime_model :: "host \<Rightarrow> primed \<Rightarrow> artifact_identity \<Rightarrow> primed \<times> unit res" where
  "prime_model h primed identity = (case ho_file h (ai_path identity) of None \<Rightarrow> (primed, Inl OSError)
     | Some f \<Rightarrow> let entry = (identity, hf_stamp f) in
         if hf_size f \<noteq> ai_size_bytes identity then (primed, Inl (ValueError ''model artifact size mismatch''))
         else if entry \<in> primed then (primed, Inr ())
         else if hf_sha256 f \<noteq> ai_sha256 identity then (primed, Inl (ValueError ''model artifact hash mismatch''))
         else (insert entry primed, Inr ()))"

section \<open>Checks of the raw artifacts\<close>

text \<open>The actual launch: the command line of the settings, and no other control in the environment.\<close>

definition json_controls :: "jrecord \<Rightarrow> jrecord" where
  "json_controls env = filter (\<lambda>(k, _). is_control k) env"

definition text_controls :: "(string \<times> string) list \<Rightarrow> jrecord" where
  "text_controls env = map (\<lambda>(k, v). (k, JStr v)) (filter (\<lambda>(k, _). is_control k) env)"

definition environment_matches :: "jrecord \<Rightarrow> (string \<times> string) list \<Rightarrow> bool res" where
  "environment_matches env expected =
     (if \<not> jeq (JObj (json_controls env)) (JObj (text_controls expected)) then Inr False
      else case dict_get env ''PATH'' (JStr []) of JStr p \<Rightarrow> Inr (starts_with (dict_get expected ''PATH'' []) p)
        | _ \<Rightarrow> Inl AttributeError)"

definition check_launch :: "evidence_host \<Rightarrow> candidate_plan \<Rightarrow> artifact_identity \<Rightarrow> runtime_binding \<Rightarrow> jrecord \<Rightarrow> unit res" where
  "check_launch x c model b launch = catch_malformed ''missing or malformed actual launch proof''
     (rbind (dict_index launch ''argv'') (\<lambda>argv. rbind (argv_port argv) (\<lambda>port.
      rbind (lower_launch (eh_host x) c model b (JInt port) [(''PATH'', [])]) (\<lambda>expected.
      if \<not> jeq (JArr (map JStr (ll_argv expected))) argv
      then Inl (ValueError ''actual launch argv differs from frozen settings'')
      else rbind (dict_index launch ''environment'') (\<lambda>e. rbind (as_record e) (\<lambda>env.
      rbind (environment_matches env (ll_environment expected)) (\<lambda>same.
      if same then Inr () else Inl (ValueError ''actual launch environment differs from frozen settings''))))))))"

text \<open>The literals \<open>1e6\<close> and \<open>1e-9\<close>.\<close>

definition MILLION :: json where
  "MILLION = JFloat (Fin 1000000)"

definition NANO :: json where
  "NANO = JFloat (dbl (1 / 10 ^ 9))"

definition wall_milliseconds :: "jrecord \<Rightarrow> json res" where
  "wall_milliseconds wall =
     rbind (rmap (\<lambda>k. require_int (jget wall k) k 1) [''started_monotonic_ns'', ''finished_monotonic_ns'']) (\<lambda>_.
     rbind (num_div (JInt (the_int (jget wall ''finished_monotonic_ns'') - the_int (jget wall ''started_monotonic_ns''))) MILLION) (\<lambda>elapsed.
     rbind (require_number (jget wall ''elapsed_ms'') ''completion wall milliseconds'' MICRO) (\<lambda>reported.
     rbind (num_sub reported elapsed) (\<lambda>difference.
     if num_less (JFloat MICRO) (num_abs difference) then Inl (ValueError ''completion wall timing mismatch'')
     else Inr elapsed))))"

definition native_tokens :: "json \<Rightarrow> json list res" where
  "native_tokens v = (case v of
     JArr xs \<Rightarrow> if xs = [] \<or> list_ex (\<lambda>t. case t of JInt n \<Rightarrow> n < 0 | _ \<Rightarrow> True) xs
       then Inl (ValueError ''missing or invalid native token IDs'') else Inr xs
   | _ \<Rightarrow> Inl (ValueError ''missing or invalid native token IDs''))"

definition request_controls :: "workload_ir \<Rightarrow> json list \<Rightarrow> jrecord" where
  "request_controls w prompt_tokens = [(''prompt'', JArr prompt_tokens), (''n_predict'', JInt (wl_predict_tokens w)),
     (''seed'', JInt (wl_seed w)), (''temperature'', wl_temperature w), (''ignore_eos'', JBool (wl_ignore_eos w)),
     (''cache_prompt'', JBool False), (''return_tokens'', JBool True), (''stream'', JBool False)]"

text \<open>The rate recomputed from the native timings, which the recorded one must agree with.\<close>

definition native_tps :: "workload_ir \<Rightarrow> jrecord \<Rightarrow> json list \<Rightarrow> json res" where
  "native_tps w completion tokens =
     rbind (as_record (dict_get completion ''timings'' (JObj []))) (\<lambda>timing.
     rbind (require_int (jget timing ''predicted_n'') ''native predicted_n'' 1) (\<lambda>n.
     rbind (require_number (jget timing ''predicted_ms'') ''native predicted_ms'' MICRO) (\<lambda>ms.
     if int (length tokens) \<noteq> wl_predict_tokens w \<or> n \<noteq> int (length tokens)
     then Inl (ValueError ''incomplete native generated tokens'')
     else num_div (JInt (n * 1000)) ms)))"

definition check_reported_tps :: "json \<Rightarrow> json \<Rightarrow> unit res" where
  "check_reported_tps tps metrics = rbind (as_record metrics) (\<lambda>d.
     rbind (require_number (jget d ''decode_tps'') ''recorded TPS'' MICRO) (\<lambda>reported.
     rbind (num_sub tps reported) (\<lambda>difference. rbind (num_mul NANO (num_max (JInt 1) tps)) (\<lambda>bound.
     if num_le (num_abs difference) bound then Inr ()
     else Inl (ValueError ''recorded TPS differs from native timings'')))))"

definition check_process :: "measurement_record \<Rightarrow> string \<Rightarrow> jrecord \<Rightarrow> jrecord \<Rightarrow> int res" where
  "check_process m owned start process =
     (if mr_owned_run_sha256 m \<noteq> JStr owned
        \<or> list_ex (\<lambda>k. \<not> jeq (jget process k) (jget start k)) [''pid'', ''run_id'', ''creation_time_100ns'']
      then Inl (ValueError ''owned run process provenance mismatch'')
      else rbind (require_int (jget process ''pid'') ''owned PID'' 1) (\<lambda>pid.
      if mr_exit_code m \<noteq> 0 \<or> \<not> jeq (jget process ''exit_code'') (JInt 0) \<or> jget process ''exited'' \<noteq> JBool True
        \<or> jget process ''cleanup'' \<noteq> JBool True
      then Inl (ValueError ''child process did not exit cleanly'') else Inr pid))"

text \<open>\<open>minimum_vram_reserve_mib << 20\<close>.\<close>

definition reserve_bytes :: "workload_ir \<Rightarrow> int" where
  "reserve_bytes w = wl_minimum_vram_reserve_mib w * 1048576"

definition check_reading :: "int \<Rightarrow> jrecord \<Rightarrow> string \<Rightarrow> string \<Rightarrow> unit res" where
  "check_reading reserve d dedicated device_free =
     rbind (require_int (jget d ''dedicated_bytes'') dedicated 1) (\<lambda>_.
     rbind (require_int (jget d ''device_free_bytes'') device_free 0) (\<lambda>available.
     if available < reserve then Inl (ValueError ''VRAM reserve violated'') else Inr ()))"

text \<open>The short-circuiting conditions on the state of an observation.\<close>

definition unknown_observation :: "int \<Rightarrow> jrecord \<Rightarrow> bool res" where
  "unknown_observation pid d = (if jget d ''counter_available'' \<noteq> JBool True then Inr True
     else rbind (in_strings (jget d ''state'') [''allocated'', ''absent'']) (\<lambda>known.
       Inr (\<not> known \<or> \<not> jeq (jget d ''pid'') (JInt pid))))"

definition check_observation :: "int \<Rightarrow> int \<Rightarrow> json \<Rightarrow> unit res" where
  "check_observation reserve pid v = rbind (as_record v) (\<lambda>d.
     rbind (unknown_observation pid d) (\<lambda>unknown.
     if unknown then Inl (ValueError ''unknown memory observation'')
     else rbind (in_strings (jget d ''phase'') [''startup'', ''measurement'']) (\<lambda>known.
     if \<not> known then Inl (ValueError ''unknown memory observation phase'')
     else rbind (if jget d ''state'' = JStr ''allocated''
         then check_reading reserve d ''observed process-owned memory'' ''observed device free memory''
         else if \<not> jeq (jget d ''dedicated_bytes'') (JInt 0) then Inl (ValueError ''invalid absent memory observation'')
         else Inr ()) (\<lambda>_.
     if jget d ''phase'' = JStr ''measurement'' \<and> jget d ''state'' \<noteq> JStr ''allocated''
     then Inl (ValueError ''memory absent during measurement'') else Inr ()))))"

definition check_sample :: "int \<Rightarrow> int \<Rightarrow> json \<Rightarrow> unit res" where
  "check_sample reserve pid v = rbind (as_record v) (\<lambda>d.
     if \<not> jeq (jget d ''pid'') (JInt pid) then Inl (ValueError ''foreign memory PID'')
     else check_reading reserve d ''process-owned GPU memory'' ''device free memory'')"

definition settled :: "int \<Rightarrow> jrecord \<Rightarrow> json \<Rightarrow> bool" where
  "settled pid process v = (case v of
     JObj d \<Rightarrow> jget d ''state'' = JStr ''absent'' \<and> jget d ''counter_available'' = JBool True
       \<and> jeq (jget d ''dedicated_bytes'') (JInt 0) \<and> jeq (jget d ''pid'') (JInt pid)
       \<and> jget process ''memory_settled'' = JBool True
   | _ \<Rightarrow> False)"

definition nonempty_array :: "json \<Rightarrow> string \<Rightarrow> json list res" where
  "nonempty_array v message = (case v of JArr xs \<Rightarrow> if xs = [] then Inl (ValueError message) else Inr xs
     | _ \<Rightarrow> Inl (ValueError message))"

definition check_memory :: "int \<Rightarrow> int \<Rightarrow> jrecord \<Rightarrow> jrecord \<Rightarrow> unit res" where
  "check_memory reserve pid process memory =
     rbind (nonempty_array (jget memory ''observations'') ''missing memory observations'') (\<lambda>observations.
     rbind (rmap (check_observation reserve pid) observations) (\<lambda>_.
     if \<not> settled pid process (jget memory ''teardown_reading'') then Inl (ValueError ''unknown memory teardown'')
     else if truthy (jget memory ''errors'') then Inl (ValueError ''memory counter failed'')
     else rbind (nonempty_array (jget memory ''samples'') ''unknown process-owned memory'') (\<lambda>samples.
     rbind (rmap (check_sample reserve pid) samples) (\<lambda>_. Inr ()))))"

section \<open>A measurement on its own\<close>

record opened_run =
  op_record :: measurement_record
  op_artifacts :: "(string \<times> jrecord) list"
  op_candidate :: candidate_plan
  op_binding :: runtime_binding
  op_model :: model_ir

definition artifact_of :: "opened_run \<Rightarrow> string \<Rightarrow> jrecord" where
  "artifact_of r role = dict_get (op_artifacts r) role []"

text \<open>The checks before the weights of the model are hashed.\<close>

definition open_measurement :: "evidence_host \<Rightarrow> evidence_store \<Rightarrow> string \<Rightarrow> opened_run res" where
  "open_measurement x db mid =
     rbind (measurement x db mid) (\<lambda>m.
     rbind (verify_artifacts (eh_host x) m) (\<lambda>_.
     rbind (native_artifacts x m) (\<lambda>arts.
     rbind (record_candidate x m) (\<lambda>c.
     let launch = dict_get arts ''launch'' [] in
     rbind (verified_binding x m (cp_identities c) launch) (\<lambda>b.
     rbind (check_launch_fields (eh_digest x) c launch) (\<lambda>_.
     rbind (launch_model x (cp_identities c) launch) (\<lambda>model.
       Inr \<lparr>op_record = m, op_artifacts = arts, op_candidate = c, op_binding = b, op_model = model\<rparr>)))))))"

record checked_run =
  ck_tokens :: "json list"
  ck_prompt_tokens :: "json list"
  ck_tps :: json
  ck_elapsed :: json
  ck_owned :: string

definition token_input :: "workload_ir \<Rightarrow> json" where
  "token_input w = JObj [(''content'', JStr (wl_prompt w)), (''add_special'', JBool True)]"

text \<open>The checks after it, up to the comparison with pristine measurements.\<close>

definition check_measurement :: "evidence_host \<Rightarrow> opened_run \<Rightarrow> checked_run res" where
  "check_measurement x r =
     (let m = op_record r; c = op_candidate r; w = pi_workload (cp_identities c) in
      rbind (check_launch x c (md_identity (op_model r)) (op_binding r) (artifact_of r ''launch'')) (\<lambda>_.
      if \<not> jeq (JObj (artifact_of r ''tokenize-request'')) (token_input w)
      then Inl (ValueError ''tokenization input differs from frozen prompt'')
      else rbind (wall_milliseconds (artifact_of r ''completion-wall'')) (\<lambda>elapsed.
      rbind (native_tokens (jget (artifact_of r ''completion'') ''tokens'')) (\<lambda>tokens.
      rbind (native_tokens (jget (artifact_of r ''tokenize'') ''tokens'')) (\<lambda>prompt_tokens.
      if list_ex (\<lambda>(k, v). \<not> jeq (jget (artifact_of r ''request'') k) v) (request_controls w prompt_tokens)
      then Inl (ValueError ''completion request differs from frozen workload/tokenization'')
      else rbind (native_tps w (artifact_of r ''completion'') tokens) (\<lambda>tps.
      rbind (eh_loads x (mr_metrics_json m)) (\<lambda>metrics.
      rbind (check_reported_tps tps metrics) (\<lambda>_.
      rbind (owned_run x m) (\<lambda>owned.
      rbind (check_process m owned (artifact_of r ''run-start'') (artifact_of r ''process'')) (\<lambda>pid.
      rbind (check_memory (reserve_bytes w) pid (artifact_of r ''process'') (artifact_of r ''memory'')) (\<lambda>_.
      if mr_numerical_path m = ''numerical_path_change'' \<or> rs_static (cp_settings c) \<noteq> None
      then Inl (ValueError ''numerical_path_change'')
      else Inr \<lparr>ck_tokens = tokens, ck_prompt_tokens = prompt_tokens, ck_tps = tps, ck_elapsed = elapsed,
        ck_owned = owned\<rparr>)))))))))))"

lemma catch_malformed_ok [simp]: "catch_malformed message m = Inr y \<longleftrightarrow> m = Inr y"
  by (auto simp: catch_malformed_def split: sum.splits py_error.splits)

end
