(* ===== verification/Verification.thy ===== *)
theory Verification
  imports Evidence_Check Stock
begin

text \<open>
  The recursion of \<open>verify_measurement\<close> over the pristine measurements of a fork, and the store as
  the state machine of its appends. The lemmas show that the recursion ends on every store, that the
  session's set of hashed models never changes a verdict, that rows are never lost or overwritten, and
  that what the store verifies is what sealing and the stock import rely on.
\<close>

section \<open>Verification\<close>

definition comparison_fails :: "evidence_host \<Rightarrow> opened_run \<Rightarrow> checked_run \<Rightarrow> jrecord \<Rightarrow> bool res" where
  "comparison_fails x r run baseline =
     rbind (as_record (jget baseline ''identities'')) (\<lambda>b.
     rbind (eh_loads x (mr_identities_json (op_record r))) (\<lambda>raw. rbind (unpack raw) (\<lambda>own.
     rbind (canonical_sha256 (eh_digest x) (JArr (ck_tokens run))) (\<lambda>tokens.
     rbind (canonical_sha256 (eh_digest x) (JArr (ck_prompt_tokens run))) (\<lambda>prompt.
       Inr (jget baseline ''numerical_path'' \<noteq> JStr ''stock_same_runtime''
         \<or> jget b ''runtime_sha256'' = JStr (pi_runtime_sha256 (cp_identities (op_candidate r)))
         \<or> list_ex (\<lambda>name. \<not> jeq (jget b name) (jget own name)) [''model_sha256'', ''hardware_sha256'', ''workload_sha256'']
         \<or> jget baseline ''generated_tokens_sha256'' \<noteq> JStr tokens
         \<or> jget baseline ''prompt_tokens_sha256'' \<noteq> JStr prompt))))))"

text \<open>The validations and the returned row.\<close>

definition verified_result :: "evidence_host \<Rightarrow> opened_run \<Rightarrow> checked_run \<Rightarrow> jrecord res" where
  "verified_result x r run = (let m = op_record r; c = op_candidate r in
     rbind (eh_loads x (mr_validation_json m)) (\<lambda>validations. rbind (as_record validations) (\<lambda>flags.
     if list_ex (\<lambda>name. jget flags name \<noteq> JBool True) [''exact_tokens'', ''memory'', ''cleanup'']
     then Inl (ValueError ''record validation failed'')
     else rbind (canonical_payload (identities_payload (cp_identities c))) (\<lambda>identities.
     rbind (canonical_sha256 (eh_digest x) (settings_payload (cp_settings c))) (\<lambda>settings.
     rbind (canonical_sha256 (eh_digest x) (JArr (ck_tokens run))) (\<lambda>tokens.
     rbind (canonical_sha256 (eh_digest x) (JArr (ck_prompt_tokens run))) (\<lambda>prompt.
       Inr [(''candidate_id'', JStr (mr_candidate_id m)), (''identities'', identities), (''settings_sha256'', JStr settings),
         (''validations'', validations), (''exit_code'', JInt (mr_exit_code m)), (''measured'', JBool (mr_measured m)),
         (''stage'', JStr (mr_stage m)), (''decode_tps'', ck_tps run), (''generated_tokens_sha256'', JStr tokens),
         (''prompt_tokens_sha256'', JStr prompt), (''numerical_path'', JStr (mr_numerical_path m)),
         (''owned_run_sha256'', JStr (ck_owned run)), (''completion_wall_ms'', ck_elapsed run)])))))))"

text \<open>A loop that passes a state along and stops at the first exception, keeping the state.\<close>

fun sfold :: "('s \<Rightarrow> 'a \<Rightarrow> 's \<times> unit res) \<Rightarrow> 's \<Rightarrow> 'a list \<Rightarrow> 's \<times> unit res" where
  "sfold f s [] = (s, Inr ())"
| "sfold f s (x # xs) = (case f s x of (s', Inl e) \<Rightarrow> (s', Inl e) | (s', Inr _) \<Rightarrow> sfold f s' xs)"

lemma sfold_cong [fundef_cong]:
  "xs = ys \<Longrightarrow> s = t \<Longrightarrow> (\<And>s x. x \<in> set ys \<Longrightarrow> f s x = g s x) \<Longrightarrow> sfold f s xs = sfold g t ys"
  by (induction ys arbitrary: xs s t) (auto split: prod.splits sum.splits)

definition stored_ids :: "evidence_store \<Rightarrow> string set" where
  "stored_ids db = ro_id ` set (es_measurement db)"

lemma measurement_stored: "measurement x db mid = Inr m \<Longrightarrow> mid \<in> stored_ids db"
  by (auto simp: measurement_def stored_ids_def find_Some_iff split: option.splits)

lemma open_measurement_stored: "open_measurement x db mid = Inr r \<Longrightarrow> mid \<in> stored_ids db"
  by (auto simp: open_measurement_def rbind_eq_Inr dest: measurement_stored)

text \<open>The comparison of a fork with its pristine measurements; \<open>verify\<close> is the recursive call.\<close>

definition compare_all :: "(primed \<Rightarrow> string \<Rightarrow> primed \<times> jrecord res) \<Rightarrow> evidence_host \<Rightarrow> opened_run \<Rightarrow> checked_run
    \<Rightarrow> primed \<Rightarrow> string list \<Rightarrow> primed \<times> unit res" where
  "compare_all verify x r run = sfold (\<lambda>primed comparison. case verify primed comparison of
       (primed', Inl e) \<Rightarrow> (primed', Inl e)
     | (primed', Inr baseline) \<Rightarrow> (primed', rbind (comparison_fails x r run baseline) (\<lambda>fails.
         if fails then Inl (ValueError ''pristine comparison mismatch'') else Inr ())))"

definition compare_pristine :: "(primed \<Rightarrow> string \<Rightarrow> primed \<times> jrecord res) \<Rightarrow> evidence_host \<Rightarrow> opened_run \<Rightarrow> checked_run
    \<Rightarrow> primed \<Rightarrow> primed \<times> unit res" where
  "compare_pristine verify x r run primed =
     (if mr_numerical_path (op_record r) \<noteq> ''fork_off_vs_pristine'' then (primed, Inr ())
      else if mr_comparison_ids (op_record r) = [] then (primed, Inl (ValueError ''missing pristine comparison''))
      else compare_all verify x r run primed (mr_comparison_ids (op_record r)))"

lemma compare_pristine_cong [fundef_cong]:
  assumes "x = x'" and "r = r'" and "run = run'" and "s = s'" and "\<And>p c. v p c = v' p c"
  shows "compare_pristine v x r run s = compare_pristine v' x' r' run' s'"
proof -
  have "v = v'" using assms(5) by blast
  then show ?thesis using assms(1-4) by simp
qed

function verify_measurement :: "evidence_host \<Rightarrow> evidence_store \<Rightarrow> string set \<Rightarrow> primed \<Rightarrow> string \<Rightarrow> primed \<times> jrecord res" where
  "verify_measurement x db seen primed mid =
     (if mid \<in> seen then (primed, Inl (ValueError ''comparison evidence cycle''))
      else case open_measurement x db mid of Inl e \<Rightarrow> (primed, Inl e)
      | Inr r \<Rightarrow>
        (case prime_model (eh_host x) primed (md_identity (op_model r)) of
           (primed', Inl e) \<Rightarrow> (primed', catch_malformed ''missing or malformed actual launch proof'' (Inl e))
         | (primed', Inr _) \<Rightarrow>
           (case check_measurement x r of Inl e \<Rightarrow> (primed', Inl e)
            | Inr run \<Rightarrow>
              (case compare_pristine (verify_measurement x db (insert mid seen)) x r run primed' of
                 (primed'', Inl e) \<Rightarrow> (primed'', Inl e)
               | (primed'', Inr _) \<Rightarrow> (primed'', verified_result x r run)))))"
  by pat_completeness auto

lemma verify_decreases:
  assumes "open_measurement x db mid = Inr r" and "mid \<notin> seen"
  shows "card (stored_ids db - insert mid seen) < card (stored_ids db - seen)"
proof (rule psubset_card_mono)
  show "finite (stored_ids db - seen)" by (simp add: stored_ids_def)
  show "stored_ids db - insert mid seen \<subset> stored_ids db - seen"
    using open_measurement_stored [OF assms(1)] assms(2) by auto
qed

termination verify_measurement
  by (relation "measure (\<lambda>(x, db, seen, primed, mid). card (stored_ids db - seen))") (simp_all add: verify_decreases)

declare verify_measurement.simps [simp del]

section \<open>Verification ends\<close>

text \<open>
  \<open>verify_measurement\<close> with a bound on the nesting of its calls: the interpreter's recursion limit,
  whose overrun is a \<open>RecursionError\<close> (a \<open>RuntimeError\<close>).
\<close>

fun verify_bounded :: "nat \<Rightarrow> evidence_host \<Rightarrow> evidence_store \<Rightarrow> string set \<Rightarrow> primed \<Rightarrow> string \<Rightarrow> primed \<times> jrecord res" where
  "verify_bounded 0 x db seen primed mid = (primed, Inl (RuntimeError ''maximum recursion depth exceeded''))"
| "verify_bounded (Suc n) x db seen primed mid =
     (if mid \<in> seen then (primed, Inl (ValueError ''comparison evidence cycle''))
      else case open_measurement x db mid of Inl e \<Rightarrow> (primed, Inl e)
      | Inr r \<Rightarrow>
        (case prime_model (eh_host x) primed (md_identity (op_model r)) of
           (primed', Inl e) \<Rightarrow> (primed', catch_malformed ''missing or malformed actual launch proof'' (Inl e))
         | (primed', Inr _) \<Rightarrow>
           (case check_measurement x r of Inl e \<Rightarrow> (primed', Inl e)
            | Inr run \<Rightarrow>
              (case compare_pristine (verify_bounded n x db (insert mid seen)) x r run primed' of
                 (primed'', Inl e) \<Rightarrow> (primed'', Inl e)
               | (primed'', Inr _) \<Rightarrow> (primed'', verified_result x r run)))))"

lemma verify_bounded_enough:
  "card (stored_ids db - seen) < n \<Longrightarrow> verify_bounded n x db seen primed mid = verify_measurement x db seen primed mid"
proof (induction n arbitrary: seen primed mid)
  case 0
  then show ?case by simp
next
  case (Suc n)
  have nested: "verify_bounded n x db (insert mid seen) = verify_measurement x db (insert mid seen)"
    if "open_measurement x db mid = Inr r" "mid \<notin> seen" for r
    using verify_decreases [OF that] Suc.prems by (intro ext Suc.IH) simp
  show ?case
  proof (cases "mid \<in> seen")
    case True
    then show ?thesis by (simp add: verify_measurement.simps)
  next
    case False
    show ?thesis
    proof (cases "open_measurement x db mid")
      case (Inr r)
      then show ?thesis unfolding verify_measurement.simps [of x db seen primed mid] verify_bounded.simps
        by (simp only: nested [OF Inr False] sum.case)
    qed (simp add: verify_measurement.simps False)
  qed
qed

text \<open>
  C7. Verification ends on every store: however the stored comparison lists refer to each other, the
  recursion is never nested deeper than there are stored measurements. A limit on the nesting of the
  calls that is above the number of rows of the store has no effect on the verdict or on the session.
\<close>

theorem verification_ends:
  "verify_bounded (Suc (length (es_measurement db) + k)) x db {} primed mid = verify_measurement x db {} primed mid"
proof (rule verify_bounded_enough)
  have "card (stored_ids db) \<le> length (es_measurement db)"
    unfolding stored_ids_def using card_image_le [of "set (es_measurement db)" ro_id] card_length [of "es_measurement db"]
    by simp
  then show "card (stored_ids db - {}) < Suc (length (es_measurement db) + k)" by simp
qed

section \<open>The session's verified models\<close>

text \<open>
  A store's memory of the models it has hashed is sound for a host when every check that consults it
  has the outcome it would have without it.
\<close>

locale sound_cache =
  fixes h :: host and sound :: "primed \<Rightarrow> bool"
  assumes sound_empty: "sound {}"
    and prime_sound: "sound p \<Longrightarrow> sound (fst (prime_model h p a)) \<and> snd (prime_model h p a) = snd (prime_model h {} a)"
begin

lemma compare_all_sound:
  assumes "sound primed" "sound primed0"
    and "\<And>p c. sound p \<Longrightarrow> c \<in> set ids \<Longrightarrow> sound (fst (v p c)) \<and> snd (v p c) = snd (v {} c)"
  shows "sound (fst (compare_all v x r run primed ids))
    \<and> snd (compare_all v x r run primed ids) = snd (compare_all v x r run primed0 ids)"
  using assms
proof (induction ids arbitrary: primed primed0)
  case Nil
  then show ?case by (simp add: compare_all_def)
next
  case (Cons c ids)
  obtain p1 r1 p2 r2 where v: "v primed c = (p1, r1)" "v primed0 c = (p2, r2)" by fastforce
  have s: "sound p1" "sound p2" "r2 = r1"
    using Cons.prems(3) [OF Cons.prems(1), of c] Cons.prems(3) [OF Cons.prems(2), of c] v by simp_all
  note IH = Cons.IH [OF s(1,2) Cons.prems(3), unfolded compare_all_def]
  show ?case
  proof (cases r1)
    case (Inl e)
    then show ?thesis using v s by (simp add: compare_all_def)
  next
    case (Inr baseline)
    show ?thesis
    proof (cases "comparison_fails x r run baseline")
      case (Inl e)
      then show ?thesis using v s \<open>r1 = Inr baseline\<close> by (simp add: compare_all_def)
    next
      case (Inr b)
      then show ?thesis using v s \<open>r1 = Inr baseline\<close> IH by (cases b) (simp_all add: compare_all_def)
    qed
  qed
qed

lemma verify_sound:
  "eh_host x = h \<Longrightarrow> sound primed \<Longrightarrow> sound (fst (verify_measurement x db seen primed mid))
    \<and> snd (verify_measurement x db seen primed mid) = snd (verify_measurement x db seen {} mid)"
proof (induction "card (stored_ids db - seen)" arbitrary: seen primed mid rule: less_induct)
  case less
  show ?case
  proof (cases "mid \<in> seen \<or> (\<exists>e. open_measurement x db mid = Inl e)")
    case True
    then show ?thesis using less.prems by (auto simp: verify_measurement.simps)
  next
    case False
    then obtain r where r: "open_measurement x db mid = Inr r" and new: "mid \<notin> seen"
      by (cases "open_measurement x db mid") auto
    obtain p1 o1 p2 o2 where p: "prime_model (eh_host x) primed (md_identity (op_model r)) = (p1, o1)"
        "prime_model (eh_host x) {} (md_identity (op_model r)) = (p2, o2)" by fastforce
    have s: "sound p1" "sound p2" "o2 = o1"
      using prime_sound [OF less.prems(2), of "md_identity (op_model r)"] prime_sound [OF sound_empty, of "md_identity (op_model r)"]
      unfolding less.prems(1) [symmetric] p fst_conv snd_conv by blast+
    let ?v = "verify_measurement x db (insert mid seen)"
    have nested: "sound (fst (compare_pristine ?v x r run p1))
        \<and> snd (compare_pristine ?v x r run p1) = snd (compare_pristine ?v x r run p2)" for run
      using compare_all_sound [OF s(1,2), where v = ?v] less.hyps [OF verify_decreases [OF r new] less.prems(1)] s(1)
      by (simp add: compare_pristine_def)
    have step: "verify_measurement x db seen q mid = (case prime_model (eh_host x) q (md_identity (op_model r)) of
         (q', Inl e) \<Rightarrow> (q', catch_malformed ''missing or malformed actual launch proof'' (Inl e))
       | (q', Inr _) \<Rightarrow> (case check_measurement x r of Inl e \<Rightarrow> (q', Inl e)
         | Inr run \<Rightarrow> (case compare_pristine ?v x r run q' of (q'', Inl e) \<Rightarrow> (q'', Inl e)
           | (q'', Inr _) \<Rightarrow> (q'', verified_result x r run))))" for q
      using r new by (simp add: verify_measurement.simps [of x db seen q mid])
    show ?thesis
    proof (cases o1)
      case (Inl e)
      then show ?thesis using p s by (simp add: step)
    next
      case (Inr u)
      show ?thesis
      proof (cases "check_measurement x r")
        case (Inl e)
        then show ?thesis using p s \<open>o1 = Inr u\<close> by (simp add: step)
      next
        case (Inr run)
        obtain q1 c1 q2 c2 where c: "compare_pristine ?v x r run p1 = (q1, c1)" "compare_pristine ?v x r run p2 = (q2, c2)"
          by fastforce
        then have "sound q1" "c2 = c1" using nested [of run] by simp_all
        then show ?thesis using p s \<open>o1 = Inr u\<close> Inr c by (simp add: step split: sum.split)
      qed
    qed
  qed
qed

end

text \<open>Every remembered identity was hashed: a file that still has its time stamps has its digest.\<close>

definition primed_sound :: "host \<Rightarrow> primed \<Rightarrow> bool" where
  "primed_sound h primed \<longleftrightarrow> (\<forall>e \<in> primed. \<forall>f. ho_file h (ai_path (fst e)) = Some f \<longrightarrow>
     hf_stamp f = snd e \<longrightarrow> hf_sha256 f = ai_sha256 (fst e))"

text \<open>What the guard on the time stamps relies on: the contents of a file do not change under them.\<close>

definition stamps_guard :: "host set \<Rightarrow> bool" where
  "stamps_guard H \<longleftrightarrow> (\<forall>h \<in> H. \<forall>h' \<in> H. \<forall>p f f'. ho_file h p = Some f \<longrightarrow> ho_file h' p = Some f' \<longrightarrow>
     hf_stamp f' = hf_stamp f \<longrightarrow> hf_sha256 f' = hf_sha256 f)"

lemma guarded_cache:
  assumes guard: "stamps_guard H" and h: "h \<in> H"
  shows "sound_cache h (\<lambda>p. \<forall>h' \<in> H. primed_sound h' p)"
proof
  fix p a assume p: "\<forall>h' \<in> H. primed_sound h' p"
  show "(\<forall>h' \<in> H. primed_sound h' (fst (prime_model h p a))) \<and> snd (prime_model h p a) = snd (prime_model h {} a)"
  proof (cases "ho_file h (ai_path a)")
    case None
    then show ?thesis using p by (simp add: prime_model_def)
  next
    case (Some f)
    have hit: "(a, hf_stamp f) \<in> p \<Longrightarrow> hf_sha256 f = ai_sha256 a" using p h Some by (force simp: primed_sound_def)
    have "primed_sound h' (insert (a, hf_stamp f) p)" if "h' \<in> H" "hf_sha256 f = ai_sha256 a" for h'
      using p that guard [unfolded stamps_guard_def, rule_format, OF h that(1) Some] by (auto simp: primed_sound_def)
    then show ?thesis using p hit Some by (auto simp: prime_model_def Let_def)
  qed
qed (simp add: primed_sound_def)

interpretation one_host: sound_cache h "primed_sound h" for h
  using guarded_cache [of "{h}" h] by (simp add: stamps_guard_def)

text \<open>The verdicts of a session: calls of one store object, each on the files as they are at the time.\<close>

fun session :: "primed \<Rightarrow> (evidence_host \<times> evidence_store \<times> string) list \<Rightarrow> jrecord res list" where
  "session primed [] = []"
| "session primed ((x, db, mid) # calls) =
     (let (primed', verdict) = verify_measurement x db {} primed mid in verdict # session primed' calls)"

lemma session_sound:
  assumes "stamps_guard H" and "(\<lambda>(x, db, mid). eh_host x) ` set calls \<subseteq> H" and "\<forall>h \<in> H. primed_sound h primed"
  shows "session primed calls = map (\<lambda>(x, db, mid). snd (verify_measurement x db {} {} mid)) calls"
  using assms(2,3)
proof (induction calls arbitrary: primed)
  case (Cons call calls)
  obtain x db mid where c: "call = (x, db, mid)" by (cases call)
  obtain p v where pv: "verify_measurement x db {} primed mid = (p, v)" by fastforce
  have "(\<forall>h \<in> H. primed_sound h p) \<and> v = snd (verify_measurement x db {} {} mid)"
    using sound_cache.verify_sound [OF guarded_cache [OF assms(1)], of "eh_host x" x primed db "{}" mid] Cons.prems c pv by auto
  then show ?case using Cons.IH [of p] Cons.prems(1) c pv by auto
qed simp

text \<open>
  C6. Remembering hashed models never changes a verdict: in a session of any number of verifications,
  on stores and files that change in between, every verdict is the one a fresh session would give,
  as long as no file changes its contents under the same time stamps.
\<close>

theorem session_cache_transparent:
  assumes "stamps_guard ((\<lambda>(x, db, mid). eh_host x) ` set calls)"
  shows "session {} calls = map (\<lambda>(x, db, mid). snd (verify_measurement x db {} {} mid)) calls"
  using session_sound [OF assms, of calls "{}"] by (simp add: primed_sound_def)

section \<open>What a verified measurement shows\<close>

lemma verify_ok:
  assumes "verify_measurement x db seen primed mid = (primed', Inr row)"
  obtains r run p where "mid \<notin> seen" "open_measurement x db mid = Inr r"
    "prime_model (eh_host x) primed (md_identity (op_model r)) = (p, Inr ())" "check_measurement x r = Inr run"
    "compare_pristine (verify_measurement x db (insert mid seen)) x r run p = (primed', Inr ())"
    "verified_result x r run = Inr row"
  using assms
  by (auto simp: verify_measurement.simps [of x db seen primed mid] catch_malformed_def split: if_splits sum.splits prod.splits py_error.splits)

lemma open_measurement_ok:
  assumes "open_measurement x db mid = Inr r"
  shows "measurement x db mid = Inr (op_record r)" and "verify_artifacts (eh_host x) (op_record r) = Inr ()"
    and "native_artifacts x (op_record r) = Inr (op_artifacts r)" and "record_candidate x (op_record r) = Inr (op_candidate r)"
    and "verified_binding x (op_record r) (cp_identities (op_candidate r)) (artifact_of r ''launch'') = Inr (op_binding r)"
    and "launch_model x (cp_identities (op_candidate r)) (artifact_of r ''launch'') = Inr (op_model r)"
    and "check_launch_fields (eh_digest x) (op_candidate r) (artifact_of r ''launch'') = Inr ()"
  using assms by (auto simp: open_measurement_def rbind_eq_Inr Let_def artifact_of_def)

lemma check_measurement_ok:
  assumes "check_measurement x r = Inr run" and w: "w = pi_workload (cp_identities (op_candidate r))"
  shows "check_launch x (op_candidate r) (md_identity (op_model r)) (op_binding r) (artifact_of r ''launch'') = Inr ()"
    and "native_tokens (jget (artifact_of r ''completion'') ''tokens'') = Inr (ck_tokens run)"
    and "native_tokens (jget (artifact_of r ''tokenize'') ''tokens'') = Inr (ck_prompt_tokens run)"
    and "native_tps w (artifact_of r ''completion'') (ck_tokens run) = Inr (ck_tps run)"
    and "owned_run x (op_record r) = Inr (ck_owned run)"
    and "\<exists>metrics. eh_loads x (mr_metrics_json (op_record r)) = Inr metrics \<and> check_reported_tps (ck_tps run) metrics = Inr ()"
    and "\<exists>pid. check_process (op_record r) (ck_owned run) (artifact_of r ''run-start'') (artifact_of r ''process'') = Inr pid
      \<and> check_memory (reserve_bytes w) pid (artifact_of r ''process'') (artifact_of r ''memory'') = Inr ()"
    and "rs_static (cp_settings (op_candidate r)) = None"
    and "mr_numerical_path (op_record r) \<noteq> ''numerical_path_change''"
    and "wall_milliseconds (artifact_of r ''completion-wall'') = Inr (ck_elapsed run)"
    and "jeq (JObj (artifact_of r ''tokenize-request'')) (token_input w)"
    and "list_all (\<lambda>(k, v). jeq (jget (artifact_of r ''request'') k) v) (request_controls w (ck_prompt_tokens run))"
  using assms(1) unfolding w
  by (auto simp: check_measurement_def Let_def rbind_eq_Inr if_Inl_eq_Inr list_all_iff list_ex_iff)

lemma record_candidate_ok:
  assumes "record_candidate x m = Inr c"
  shows "candidate_id (eh_digest x) c = Inr (mr_candidate_id m)" and "key_from_candidate (eh_digest x) c = Inr (mr_key m)"
    and "cp_measurement_ids c = []" and "cp_status c = UNMEASURED"
  using assms
  by (auto simp: record_candidate_def rbind_eq_Inr if_Inl_eq_Inr CandidatePlan_def CandidateStatus_def status_value_def
      text_items_def py_iter_def split: if_splits)

lemma check_launch_ok:
  assumes "check_launch x c model b launch = Inr ()"
  shows "\<exists>port \<in> {1..65535}. jeq (JArr (map JStr (launch_argv c model b port))) (jget launch ''argv'')
    \<and> (\<exists>env. jget launch ''environment'' = JObj env
        \<and> environment_matches env (launch_environment (eh_host x) (cp_settings c) b [(''PATH'', [])]) = Inr True)"
proof -
  obtain argv port l e env where a: "dict_index launch ''argv'' = Inr argv" "argv_port argv = Inr port"
      "lower_launch (eh_host x) c model b (JInt port) [(''PATH'', [])] = Inr l" "jeq (JArr (map JStr (ll_argv l))) argv"
      "dict_index launch ''environment'' = Inr e" "as_record e = Inr env" "environment_matches env (ll_environment l) = Inr True"
    using assms by (auto simp: check_launch_def rbind_eq_Inr if_Inl_eq_Inr split: if_splits)
  have l: "1 \<le> port" "port \<le> 65535" "ll_argv l = launch_argv c model b port"
      "ll_environment l = launch_environment (eh_host x) (cp_settings c) b [(''PATH'', [])]"
    using a(3) by (auto simp: lower_launch_def rbind_eq_Inr require_simps if_Inl_eq_Inr)
  have "e = JObj env" using a(6) by (auto simp: as_record_def split: json.splits)
  with a l dict_index_jget [OF a(1)] dict_index_jget [OF a(5)] show ?thesis by (intro bexI [of _ port]) auto
qed

text \<open>A reading of the memory of the run: the process holds device memory, and the reserve stays free.\<close>

definition reading_within :: "int \<Rightarrow> jrecord \<Rightarrow> bool" where
  "reading_within reserve d \<longleftrightarrow> (\<exists>dedicated available. jget d ''dedicated_bytes'' = JInt dedicated \<and> 1 \<le> dedicated
     \<and> jget d ''device_free_bytes'' = JInt available \<and> reserve \<le> available)"

lemma check_reading_ok: "check_reading reserve d a b = Inr () \<Longrightarrow> reading_within reserve d"
  by (auto simp: check_reading_def rbind_eq_Inr require_simps if_Inl_eq_Inr reading_within_def)

text \<open>
  The memory record of the run with process \<open>pid\<close>: every observation and every sample is one of this
  process, the process holds device memory in every sample and throughout the measurement, the reserve
  is free in each of these readings, and after the run its memory was seen to be released.
\<close>

definition observation_within :: "int \<Rightarrow> int \<Rightarrow> jrecord \<Rightarrow> bool" where
  "observation_within reserve pid d \<longleftrightarrow> jget d ''counter_available'' = JBool True \<and> jeq (jget d ''pid'') (JInt pid)
     \<and> (jget d ''phase'' = JStr ''startup'' \<or> jget d ''phase'' = JStr ''measurement'')
     \<and> (jget d ''state'' = JStr ''allocated'' \<and> reading_within reserve d
        \<or> jget d ''state'' = JStr ''absent'' \<and> jget d ''phase'' = JStr ''startup'' \<and> jeq (jget d ''dedicated_bytes'') (JInt 0))"

definition memory_within :: "int \<Rightarrow> int \<Rightarrow> jrecord \<Rightarrow> jrecord \<Rightarrow> bool" where
  "memory_within reserve pid process memory \<longleftrightarrow> (\<exists>observations samples teardown.
     jget memory ''observations'' = JArr (map JObj observations) \<and> observations \<noteq> []
     \<and> (\<forall>d \<in> set observations. observation_within reserve pid d)
     \<and> jget memory ''samples'' = JArr (map JObj samples) \<and> samples \<noteq> []
     \<and> (\<forall>d \<in> set samples. jeq (jget d ''pid'') (JInt pid) \<and> reading_within reserve d)
     \<and> jget memory ''teardown_reading'' = JObj teardown \<and> jget teardown ''state'' = JStr ''absent''
     \<and> jget teardown ''counter_available'' = JBool True \<and> jeq (jget teardown ''dedicated_bytes'') (JInt 0)
     \<and> jeq (jget teardown ''pid'') (JInt pid) \<and> jget process ''memory_settled'' = JBool True
     \<and> \<not> truthy (jget memory ''errors''))"

lemma as_record_ok: "as_record v = Inr d \<longleftrightarrow> v = JObj d"
  by (auto simp: as_record_def split: json.splits)

lemma in_strings_True: "in_strings v xs = Inr True \<Longrightarrow> \<exists>s \<in> set xs. v = JStr s"
  by (auto simp: in_strings_def list_ex_iff split: if_splits)

lemma check_observation_ok:
  assumes "check_observation reserve pid v = Inr ()"
  shows "\<exists>d. v = JObj d \<and> observation_within reserve pid d"
proof -
  obtain d where v: "v = JObj d" and known: "unknown_observation pid d = Inr False"
    and phase: "in_strings (jget d ''phase'') [''startup'', ''measurement''] = Inr True"
    and reading: "(if jget d ''state'' = JStr ''allocated''
         then check_reading reserve d ''observed process-owned memory'' ''observed device free memory''
         else if \<not> jeq (jget d ''dedicated_bytes'') (JInt 0) then Inl (ValueError ''invalid absent memory observation'')
         else Inr ()) = Inr ()"
    and measured: "\<not> (jget d ''phase'' = JStr ''measurement'' \<and> jget d ''state'' \<noteq> JStr ''allocated'')"
    using assms by (auto simp: check_observation_def rbind_eq_Inr as_record_ok if_Inl_eq_Inr)
  have state: "in_strings (jget d ''state'') [''allocated'', ''absent''] = Inr True"
    and "jget d ''counter_available'' = JBool True" "jeq (jget d ''pid'') (JInt pid)"
    using known by (auto simp: unknown_observation_def rbind_eq_Inr split: if_splits)
  then have "observation_within reserve pid d"
    using reading measured in_strings_True [OF phase] in_strings_True [OF state]
    by (auto simp: observation_within_def dest: check_reading_ok split: if_splits)
  with v show ?thesis by blast
qed

lemma check_sample_ok:
  "check_sample reserve pid v = Inr () \<Longrightarrow> \<exists>d. v = JObj d \<and> jeq (jget d ''pid'') (JInt pid) \<and> reading_within reserve d"
  by (auto simp: check_sample_def rbind_eq_Inr as_record_ok if_Inl_eq_Inr dest: check_reading_ok)

lemma all_records:
  assumes "rmap f vs = Inr us" and "\<And>v. f v = Inr () \<Longrightarrow> \<exists>d. v = JObj d \<and> P d"
  shows "\<exists>ds. vs = map JObj ds \<and> (\<forall>d \<in> set ds. P d)"
  using assms(1)
proof (induction vs arbitrary: us)
  case (Cons v vs)
  then obtain u us' where "f v = Inr u" "rmap f vs = Inr us'" by (auto simp: rbind_eq_Inr)
  moreover obtain ds where "vs = map JObj ds" "\<forall>d \<in> set ds. P d" using Cons.IH [OF \<open>rmap f vs = Inr us'\<close>] by blast
  moreover obtain d where "v = JObj d" "P d" using assms(2) [of v] \<open>f v = Inr u\<close> by auto
  ultimately show ?case by (intro exI [of _ "d # ds"]) simp
qed simp

lemma check_memory_ok:
  assumes "check_memory reserve pid process memory = Inr ()"
  shows "memory_within reserve pid process memory"
proof -
  obtain observations us samples vs where o: "jget memory ''observations'' = JArr observations" "observations \<noteq> []"
      "rmap (check_observation reserve pid) observations = Inr us"
    and s: "jget memory ''samples'' = JArr samples" "samples \<noteq> []" "rmap (check_sample reserve pid) samples = Inr vs"
    and t: "settled pid process (jget memory ''teardown_reading'')" "\<not> truthy (jget memory ''errors'')"
    using assms by (auto simp: check_memory_def rbind_eq_Inr nonempty_array_def if_Inl_eq_Inr split: json.splits if_splits)
  obtain os where "observations = map JObj os" "\<forall>d \<in> set os. observation_within reserve pid d"
    using all_records [OF o(3) check_observation_ok] by blast
  moreover obtain ss where "samples = map JObj ss" "\<forall>d \<in> set ss. jeq (jget d ''pid'') (JInt pid) \<and> reading_within reserve d"
    using all_records [OF s(3) check_sample_ok] by blast
  moreover obtain d where "jget memory ''teardown_reading'' = JObj d" using t(1) by (auto simp: settled_def split: json.splits)
  ultimately show ?thesis using o(1,2) s(1,2) t
    by (intro memory_within_def [THEN iffD2] exI [of _ os] exI [of _ ss] exI [of _ d]) (auto simp: settled_def)
qed

definition jstr :: "json \<Rightarrow> string" where
  "jstr v = (case v of JStr s \<Rightarrow> s | _ \<Rightarrow> [])"

text \<open>
  The launch proof: it names the candidate and the identities of the plan; its runtime binding and its
  model snapshot have the digests of the plan, the files of the runtime and the weights of the model
  are those (\<open>primed\<close> holds the models hashed before in the session, under the stamps of their files);
  the command line is the one the candidate lowers to for some port, and the controls in the
  environment are those of the settings.
\<close>

definition native_launch :: "evidence_host \<Rightarrow> primed \<Rightarrow> candidate_plan \<Rightarrow> jrecord \<Rightarrow> bool" where
  "native_launch x primed c launch \<longleftrightarrow> (let i = cp_identities c; digest = eh_digest x in
     candidate_id digest c = Inr (jstr (jget launch ''candidate_id''))
     \<and> canonical_sha256 digest (settings_payload (cp_settings c)) = Inr (jstr (jget launch ''settings_sha256''))
     \<and> jget launch ''runtime_sha256'' = JStr (pi_runtime_sha256 i) \<and> jget launch ''model_sha256'' = JStr (pi_model_sha256 i)
     \<and> jget launch ''workload_sha256'' = JStr (pi_workload_sha256 i)
     \<and> (\<exists>binding model f port env.
         binding_of_json (jget launch ''runtime_binding'') = Inr binding \<and> binding_verify (eh_host x) binding = Inr ()
         \<and> binding_sha256 digest binding = Inr (pi_runtime_sha256 i)
         \<and> model_of_json (jget launch ''model_ir'') = Inr model
         \<and> canonical_sha256 digest (model_payload model) = Inr (pi_model_sha256 i)
         \<and> ho_file (eh_host x) (ai_path (md_identity model)) = Some f \<and> hf_size f = ai_size_bytes (md_identity model)
         \<and> ((md_identity model, hf_stamp f) \<in> primed \<or> hf_sha256 f = ai_sha256 (md_identity model))
         \<and> 1 \<le> port \<and> port \<le> 65535
         \<and> jeq (JArr (map JStr (launch_argv c (md_identity model) binding port))) (jget launch ''argv'')
         \<and> jget launch ''environment'' = JObj env
         \<and> environment_matches env (launch_environment (eh_host x) (cp_settings c) binding [(''PATH'', [])]) = Inr True))"

text \<open>The input: the prompt was tokenized as it is, and exactly these tokens were sent with the controls of the workload.\<close>

definition native_input :: "workload_ir \<Rightarrow> (string \<Rightarrow> jrecord) \<Rightarrow> json list \<Rightarrow> bool" where
  "native_input w art prompt_tokens \<longleftrightarrow>
     jeq (JObj (art ''tokenize-request'')) (JObj [(''content'', JStr (wl_prompt w)), (''add_special'', JBool True)])
     \<and> jget (art ''tokenize'') ''tokens'' = JArr prompt_tokens
     \<and> (let request = jget (art ''request'') in
        jeq (request ''prompt'') (JArr prompt_tokens) \<and> jeq (request ''n_predict'') (JInt (wl_predict_tokens w))
        \<and> jeq (request ''seed'') (JInt (wl_seed w)) \<and> jeq (request ''temperature'') (wl_temperature w)
        \<and> jeq (request ''ignore_eos'') (JBool (wl_ignore_eos w)) \<and> jeq (request ''cache_prompt'') (JBool False)
        \<and> jeq (request ''return_tokens'') (JBool True) \<and> jeq (request ''stream'') (JBool False))"

text \<open>The rate: the number of tokens times 1000, divided by the milliseconds the completion's own timings give.\<close>

definition native_rate :: "workload_ir \<Rightarrow> jrecord \<Rightarrow> json list \<Rightarrow> json \<Rightarrow> bool" where
  "native_rate w completion tokens tps \<longleftrightarrow> (\<exists>timing. jget completion ''tokens'' = JArr tokens
     \<and> int (length tokens) = wl_predict_tokens w \<and> jget completion ''timings'' = JObj timing
     \<and> jget timing ''predicted_n'' = JInt (int (length tokens)) \<and> valid_number (jget timing ''predicted_ms'') MICRO
     \<and> num_div (JInt (int (length tokens) * 1000)) (jget timing ''predicted_ms'') = Inr tps)"

text \<open>The wall time: the difference of the two clock readings, in milliseconds.\<close>

definition native_wall :: "jrecord \<Rightarrow> json \<Rightarrow> bool" where
  "native_wall wall elapsed \<longleftrightarrow> (\<exists>started finished. jget wall ''started_monotonic_ns'' = JInt started
     \<and> jget wall ''finished_monotonic_ns'' = JInt finished \<and> num_div (JInt (finished - started)) MILLION = Inr elapsed)"

text \<open>The exit: the process that ended is the one that was started, it exited with code 0 and was cleaned up.\<close>

definition clean_exit :: "int \<Rightarrow> jrecord \<Rightarrow> jrecord \<Rightarrow> bool" where
  "clean_exit pid start process \<longleftrightarrow> 1 \<le> pid \<and> jget process ''pid'' = JInt pid
     \<and> jeq (jget process ''pid'') (jget start ''pid'') \<and> jeq (jget process ''run_id'') (jget start ''run_id'')
     \<and> jeq (jget process ''creation_time_100ns'') (jget start ''creation_time_100ns'')
     \<and> jeq (jget process ''exit_code'') (JInt 0) \<and> jget process ''exited'' = JBool True \<and> jget process ''cleanup'' = JBool True"

definition native_run :: "evidence_host \<Rightarrow> primed \<Rightarrow> measurement_record \<Rightarrow> candidate_plan \<Rightarrow> (string \<times> jrecord) list \<Rightarrow> jrecord \<Rightarrow> bool" where
  "native_run x primed m c arts row \<longleftrightarrow> (let w = pi_workload (cp_identities c); art = (\<lambda>role. dict_get arts role []) in
     list_all (\<lambda>a. identity_holds (eh_host x) (ea_identity a)) (mr_artifacts m)
     \<and> candidate_id (eh_digest x) c = Inr (mr_candidate_id m) \<and> jget row ''candidate_id'' = JStr (mr_candidate_id m)
     \<and> rs_static (cp_settings c) = None
     \<and> native_launch x primed c (art ''launch'')
     \<and> (\<exists>pid. clean_exit pid (art ''run-start'') (art ''process'')
          \<and> memory_within (reserve_bytes w) pid (art ''process'') (art ''memory''))
     \<and> mr_exit_code m = 0 \<and> jget row ''exit_code'' = JInt 0
     \<and> (\<exists>owned. owned_run x m = Inr owned \<and> mr_owned_run_sha256 m = JStr owned \<and> jget row ''owned_run_sha256'' = JStr owned)
     \<and> (\<exists>prompt_tokens. native_input w art prompt_tokens
          \<and> canonical_sha256 (eh_digest x) (JArr prompt_tokens) = Inr (jstr (jget row ''prompt_tokens_sha256'')))
     \<and> (\<exists>tokens. native_rate w (art ''completion'') tokens (jget row ''decode_tps'')
          \<and> canonical_sha256 (eh_digest x) (JArr tokens) = Inr (jstr (jget row ''generated_tokens_sha256'')))
     \<and> native_wall (art ''completion-wall'') (jget row ''completion_wall_ms''))"

lemma native_tokens_ok: "native_tokens v = Inr xs \<Longrightarrow> v = JArr xs"
  by (auto simp: native_tokens_def split: json.splits if_splits)

lemma native_rate_ok:
  assumes "native_tps w completion tokens = Inr tps" and "jget completion ''tokens'' = JArr tokens"
  shows "native_rate w completion tokens tps"
proof -
  obtain timing where t: "dict_get completion ''timings'' (JObj []) = JObj timing"
    and n: "jget timing ''predicted_n'' = JInt (int (length tokens))" "int (length tokens) = wl_predict_tokens w"
    and ms: "valid_number (jget timing ''predicted_ms'') MICRO"
      "num_div (JInt (int (length tokens) * 1000)) (jget timing ''predicted_ms'') = Inr tps"
    using assms(1) by (auto simp: native_tps_def rbind_eq_Inr require_simps if_Inl_eq_Inr as_record_ok)
  have "timing \<noteq> []" using n(1) by (auto simp: jget_def dict_get_def)
  then have "jget completion ''timings'' = JObj timing" using t by (auto simp: jget_def dict_get_def split: option.splits)
  with n ms assms(2) show ?thesis unfolding native_rate_def by blast
qed

lemma clean_exit_ok:
  assumes "check_process m owned start process = Inr pid"
  shows "clean_exit pid start process" and "mr_exit_code m = 0" and "mr_owned_run_sha256 m = JStr owned"
  using assms by (auto simp: check_process_def rbind_eq_Inr require_simps if_Inl_eq_Inr clean_exit_def)

lemma native_wall_ok: "wall_milliseconds wall = Inr elapsed \<Longrightarrow> native_wall wall elapsed"
  by (auto simp: wall_milliseconds_def rbind_eq_Inr require_simps if_Inl_eq_Inr native_wall_def the_int_def)

lemma prime_model_ok:
  assumes "prime_model h primed identity = (p, Inr ())"
  shows "\<exists>f. ho_file h (ai_path identity) = Some f \<and> hf_size f = ai_size_bytes identity
    \<and> ((identity, hf_stamp f) \<in> primed \<or> hf_sha256 f = ai_sha256 identity)"
  using assms by (auto simp: prime_model_def Let_def split: option.splits if_splits)

lemma verified_result_ok:
  assumes "verified_result x r run = Inr row"
  shows "jget row ''candidate_id'' = JStr (mr_candidate_id (op_record r))" and "jget row ''exit_code'' = JInt (mr_exit_code (op_record r))"
    and "jget row ''decode_tps'' = ck_tps run" and "jget row ''owned_run_sha256'' = JStr (ck_owned run)"
    and "\<exists>h. canonical_sha256 (eh_digest x) (JArr (ck_tokens run)) = Inr h \<and> jget row ''generated_tokens_sha256'' = JStr h"
    and "\<exists>h. canonical_sha256 (eh_digest x) (JArr (ck_prompt_tokens run)) = Inr h \<and> jget row ''prompt_tokens_sha256'' = JStr h"
    and "jget row ''measured'' = JBool (mr_measured (op_record r))" and "jget row ''numerical_path'' = JStr (mr_numerical_path (op_record r))"
    and "canonical_payload (identities_payload (cp_identities (op_candidate r))) = Inr (jget row ''identities'')"
    and "\<exists>h. canonical_sha256 (eh_digest x) (settings_payload (cp_settings (op_candidate r))) = Inr h \<and> jget row ''settings_sha256'' = JStr h"
    and "row_valid_flags row [''exact_tokens'', ''memory'', ''cleanup''] = Inr True"
    and "jget row ''completion_wall_ms'' = ck_elapsed run"
proof -
  let ?c = "op_candidate r" and ?m = "op_record r"
  obtain validations flags identities settings tokens prompt where v: "as_record validations = Inr flags"
      "\<not> list_ex (\<lambda>name. jget flags name \<noteq> JBool True) [''exact_tokens'', ''memory'', ''cleanup'']"
    and i: "canonical_payload (identities_payload (cp_identities ?c)) = Inr identities"
    and s: "canonical_sha256 (eh_digest x) (settings_payload (cp_settings ?c)) = Inr settings"
    and h: "canonical_sha256 (eh_digest x) (JArr (ck_tokens run)) = Inr tokens" "canonical_sha256 (eh_digest x) (JArr (ck_prompt_tokens run)) = Inr prompt"
    and row: "row = [(''candidate_id'', JStr (mr_candidate_id ?m)), (''identities'', identities), (''settings_sha256'', JStr settings),
         (''validations'', validations), (''exit_code'', JInt (mr_exit_code ?m)), (''measured'', JBool (mr_measured ?m)),
         (''stage'', JStr (mr_stage ?m)), (''decode_tps'', ck_tps run), (''generated_tokens_sha256'', JStr tokens),
         (''prompt_tokens_sha256'', JStr prompt), (''numerical_path'', JStr (mr_numerical_path ?m)),
         (''owned_run_sha256'', JStr (ck_owned run)), (''completion_wall_ms'', ck_elapsed run)]"
    using assms unfolding verified_result_def Let_def rbind_eq_Inr if_Inl_eq_Inr
    by (elim exE conjE) (drule sum.inject(2) [THEN iffD1], rule that, assumption+, rule sym, assumption)
  show "jget row ''candidate_id'' = JStr (mr_candidate_id ?m)" "jget row ''exit_code'' = JInt (mr_exit_code ?m)"
    "jget row ''decode_tps'' = ck_tps run" "jget row ''owned_run_sha256'' = JStr (ck_owned run)"
    "jget row ''measured'' = JBool (mr_measured ?m)" "jget row ''numerical_path'' = JStr (mr_numerical_path ?m)"
    "jget row ''completion_wall_ms'' = ck_elapsed run"
    by (simp_all add: row)
  show "\<exists>h. canonical_sha256 (eh_digest x) (JArr (ck_tokens run)) = Inr h \<and> jget row ''generated_tokens_sha256'' = JStr h"
    "\<exists>h. canonical_sha256 (eh_digest x) (JArr (ck_prompt_tokens run)) = Inr h \<and> jget row ''prompt_tokens_sha256'' = JStr h"
    "\<exists>h. canonical_sha256 (eh_digest x) (settings_payload (cp_settings ?c)) = Inr h \<and> jget row ''settings_sha256'' = JStr h"
    "canonical_payload (identities_payload (cp_identities ?c)) = Inr (jget row ''identities'')"
    using h s i by (simp_all add: row)
  have "map_of row ''validations'' = Some (JObj flags)" using v(1) by (simp add: row as_record_ok)
  then show "row_valid_flags row [''exact_tokens'', ''memory'', ''cleanup''] = Inr True"
    using v(2) by (simp add: row_valid_flags_def row_validation_def)
qed

lemma native_launch_ok:
  assumes "open_measurement x db mid = Inr r" and "prime_model (eh_host x) primed (md_identity (op_model r)) = (p, Inr ())"
    and "check_launch x (op_candidate r) (md_identity (op_model r)) (op_binding r) (artifact_of r ''launch'') = Inr ()"
  shows "native_launch x primed (op_candidate r) (artifact_of r ''launch'')"
proof -
  note op = open_measurement_ok [OF assms(1)]
  let ?c = "op_candidate r" and ?launch = "artifact_of r ''launch''"
  have fields: "candidate_id (eh_digest x) ?c = Inr (jstr (jget ?launch ''candidate_id''))"
      "canonical_sha256 (eh_digest x) (settings_payload (cp_settings ?c)) = Inr (jstr (jget ?launch ''settings_sha256''))"
      "jget ?launch ''runtime_sha256'' = JStr (pi_runtime_sha256 (cp_identities ?c))"
      "jget ?launch ''model_sha256'' = JStr (pi_model_sha256 (cp_identities ?c))"
      "jget ?launch ''workload_sha256'' = JStr (pi_workload_sha256 (cp_identities ?c))"
    using op(7) by (auto simp: check_launch_fields_def launch_expectations_def Let_def rbind_eq_Inr jstr_def split: if_splits)
  have binding: "binding_of_json (jget ?launch ''runtime_binding'') = Inr (op_binding r)"
      "binding_verify (eh_host x) (op_binding r) = Inr ()"
      "binding_sha256 (eh_digest x) (op_binding r) = Inr (pi_runtime_sha256 (cp_identities ?c))"
    using op(5) by (auto simp: verified_binding_def rbind_eq_Inr if_Inl_eq_Inr dest!: dict_index_jget)
  have model: "model_of_json (jget ?launch ''model_ir'') = Inr (op_model r)"
      "canonical_sha256 (eh_digest x) (model_payload (op_model r)) = Inr (pi_model_sha256 (cp_identities ?c))"
    using op(6) by (auto simp: launch_model_def rbind_eq_Inr if_Inl_eq_Inr dest!: dict_index_jget)
  obtain port env where port: "1 \<le> port" "port \<le> 65535"
      "jeq (JArr (map JStr (launch_argv ?c (md_identity (op_model r)) (op_binding r) port))) (jget ?launch ''argv'')"
    and env: "jget ?launch ''environment'' = JObj env"
      "environment_matches env (launch_environment (eh_host x) (cp_settings ?c) (op_binding r) [(''PATH'', [])]) = Inr True"
    using check_launch_ok [OF assms(3)] by auto
  obtain f where f: "ho_file (eh_host x) (ai_path (md_identity (op_model r))) = Some f" "hf_size f = ai_size_bytes (md_identity (op_model r))"
      "(md_identity (op_model r), hf_stamp f) \<in> primed \<or> hf_sha256 f = ai_sha256 (md_identity (op_model r))"
    using prime_model_ok [OF assms(2)] by blast
  show ?thesis unfolding native_launch_def Let_def
    by (intro conjI exI [of _ "op_binding r"] exI [of _ "op_model r"] exI [of _ f] exI [of _ port] exI [of _ env]
        fields binding model f port env)
qed

lemma opened_run_native:
  assumes "open_measurement x db mid = Inr r" and "prime_model (eh_host x) primed (md_identity (op_model r)) = (p, Inr ())"
    and "check_measurement x r = Inr run" and "verified_result x r run = Inr row"
  shows "native_run x primed (op_record r) (op_candidate r) (op_artifacts r) row"
proof -
  note op = open_measurement_ok [OF assms(1)] and ck = check_measurement_ok [OF assms(3) refl] and res = verified_result_ok [OF assms(4)]
  let ?c = "op_candidate r" and ?m = "op_record r" and ?w = "pi_workload (cp_identities (op_candidate r))"
  obtain pid where "check_process ?m (ck_owned run) (artifact_of r ''run-start'') (artifact_of r ''process'') = Inr pid"
      "check_memory (reserve_bytes ?w) pid (artifact_of r ''process'') (artifact_of r ''memory'') = Inr ()"
    using ck(7) by (elim exE conjE)
  note process = clean_exit_ok [OF this(1)] and memory = check_memory_ok [OF this(2)]
  have launch: "native_launch x primed ?c (artifact_of r ''launch'')" by (rule native_launch_ok [OF assms(1,2) ck(1)])
  have "jget (artifact_of r ''completion'') ''tokens'' = JArr (ck_tokens run)" using ck(2) by (rule native_tokens_ok)
  then have rate: "native_rate ?w (artifact_of r ''completion'') (ck_tokens run) (ck_tps run)" by (rule native_rate_ok [OF ck(4)])
  have input: "native_input ?w (artifact_of r) (ck_prompt_tokens run)"
    using native_tokens_ok [OF ck(3)] ck(11,12) by (simp add: native_input_def request_controls_def token_input_def Let_def)
  have artifacts: "list_all (\<lambda>a. identity_holds (eh_host x) (ea_identity a)) (mr_artifacts ?m)"
    using op(2) by (simp add: verify_artifacts_def split: if_splits)
  have art: "(\<lambda>role. dict_get (op_artifacts r) role []) = artifact_of r" by (simp add: artifact_of_def fun_eq_iff)
  have hashes: "canonical_sha256 (eh_digest x) (JArr (ck_tokens run)) = Inr (jstr (jget row ''generated_tokens_sha256''))"
      "canonical_sha256 (eh_digest x) (JArr (ck_prompt_tokens run)) = Inr (jstr (jget row ''prompt_tokens_sha256''))"
    using res(5,6) by (auto simp: jstr_def)
  have exit: "jget row ''exit_code'' = JInt 0" using res(2) process(2) by simp
  show ?thesis
    unfolding native_run_def Let_def art
    using artifacts record_candidate_ok(1) [OF op(4)] res(1) ck(8) launch process memory exit ck(5) res(4) input hashes
      rate [folded res(3)] native_wall_ok [OF ck(10), folded res(12)]
    by (intro conjI) (assumption | blast)+
qed

lemma verified_row_native:
  assumes "snd (verify_measurement x db seen primed mid) = Inr row"
  shows "\<exists>m c arts. measurement x db mid = Inr m \<and> record_candidate x m = Inr c \<and> native_artifacts x m = Inr arts
    \<and> native_run x primed m c arts row"
proof -
  obtain primed' where "verify_measurement x db seen primed mid = (primed', Inr row)" using assms by (metis prod.collapse)
  then obtain r run p where v: "open_measurement x db mid = Inr r" "prime_model (eh_host x) primed (md_identity (op_model r)) = (p, Inr ())"
    "check_measurement x r = Inr run" "verified_result x r run = Inr row"
    by (rule verify_ok)
  then show ?thesis by (intro exI conjI) (rule open_measurement_ok opened_run_native, assumption+)+
qed

text \<open>
  C2. A row comes from a native run of exactly the frozen plan. When verification returns a row, the
  stored record decodes to one whose raw files are unchanged on disk, and these files show such a
  run. The launch proof names the candidate; its runtime and model have the digests of the plan, with
  the runtime's files and the model's weights unchanged (the weights unless the session hashed them
  before under the same time stamps), and its command line and environment controls are those the
  candidate lowers to. The frozen prompt was tokenized and sent with the controls of the workload.
  The process that was started is the one that exited with code 0 and was cleaned up; every
  observation and sample of its memory kept the workload's reserve free, and it was released in
  the end. The tokens, the wall time and the rate of the row are those of the native output, the
  rate being the number of tokens over the completion's own \<open>predicted_ms\<close>, not the recorded one.
\<close>

theorem verified_measurement_native:
  assumes "snd (verify_measurement x db seen primed mid) = Inr row"
  shows "\<exists>m c arts. measurement x db mid = Inr m \<and> record_candidate x m = Inr c \<and> native_artifacts x m = Inr arts
    \<and> native_run x primed m c arts row"
  by (rule verified_row_native [OF assms])

section \<open>Forks and their pristine measurements\<close>

context sound_cache
begin

lemma compare_all_ok:
  assumes "compare_all v x r run primed ids = (primed', Inr ())" and "sound primed"
    and "\<And>p c. sound p \<Longrightarrow> c \<in> set ids \<Longrightarrow> sound (fst (v p c)) \<and> snd (v p c) = snd (v {} c)" and "c \<in> set ids"
  shows "\<exists>baseline. snd (v {} c) = Inr baseline \<and> comparison_fails x r run baseline = Inr False"
  using assms
proof (induction ids arbitrary: primed)
  case Nil
  then show ?case by simp
next
  case (Cons d ids)
  obtain p o1 where v: "v primed d = (p, o1)" by fastforce
  have s: "sound p" "o1 = snd (v {} d)" using Cons.prems(3) [OF Cons.prems(2), of d] v by simp_all
  obtain baseline where b: "o1 = Inr baseline" "comparison_fails x r run baseline = Inr False"
      "compare_all v x r run p ids = (primed', Inr ())"
    using Cons.prems(1) v by (auto simp: compare_all_def rbind_def split: sum.splits if_splits)
  show ?case
  proof (cases "c = d")
    case True
    then show ?thesis using s(2) b(1,2) by metis
  next
    case False
    then show ?thesis using Cons.IH [OF b(3) s(1) Cons.prems(3)] Cons.prems(4) by auto
  qed
qed

end

text \<open>A measurement that is not a fork's is verified without a look at the identifiers seen before.\<close>

lemma verify_plain_seen:
  assumes "verify_measurement x db seen primed mid = (primed', Inr row)" and "jget row ''numerical_path'' \<noteq> JStr ''fork_off_vs_pristine''"
  shows "verify_measurement x db {} primed mid = (primed', Inr row)"
proof -
  obtain r run p where v: "open_measurement x db mid = Inr r"
    "prime_model (eh_host x) primed (md_identity (op_model r)) = (p, Inr ())" "check_measurement x r = Inr run"
    "compare_pristine (verify_measurement x db (insert mid seen)) x r run p = (primed', Inr ())"
    "verified_result x r run = Inr row"
    using assms(1) by (rule verify_ok)
  have "mr_numerical_path (op_record r) \<noteq> ''fork_off_vs_pristine''"
    using verified_result_ok(8) [OF v(5)] assms(2) by simp
  then show ?thesis using v by (simp add: verify_measurement.simps [of x db "{}" primed mid] compare_pristine_def)
qed

definition pristine_match :: "jrecord \<Rightarrow> jrecord \<Rightarrow> bool" where
  "pristine_match row baseline \<longleftrightarrow> jget baseline ''numerical_path'' = JStr ''stock_same_runtime''
     \<and> jget baseline ''generated_tokens_sha256'' = jget row ''generated_tokens_sha256''
     \<and> jget baseline ''prompt_tokens_sha256'' = jget row ''prompt_tokens_sha256''
     \<and> (\<exists>b i. jget baseline ''identities'' = JObj b \<and> jget row ''identities'' = JObj i
          \<and> jget b ''runtime_sha256'' \<noteq> jget i ''runtime_sha256'')"

lemma comparison_fails_False:
  assumes "comparison_fails x r run baseline = Inr False" and "verified_result x r run = Inr row"
  shows "pristine_match row baseline"
proof -
  obtain b where b: "jget baseline ''identities'' = JObj b"
      "jget b ''runtime_sha256'' \<noteq> JStr (pi_runtime_sha256 (cp_identities (op_candidate r)))"
      "jget baseline ''numerical_path'' = JStr ''stock_same_runtime''"
    and h: "\<exists>h. canonical_sha256 (eh_digest x) (JArr (ck_tokens run)) = Inr h \<and> jget baseline ''generated_tokens_sha256'' = JStr h"
      "\<exists>h. canonical_sha256 (eh_digest x) (JArr (ck_prompt_tokens run)) = Inr h \<and> jget baseline ''prompt_tokens_sha256'' = JStr h"
    using assms(1) by (auto simp: comparison_fails_def rbind_eq_Inr as_record_ok)
  note res = verified_result_ok [OF assms(2)]
  have "jget row ''identities'' = identities_payload (cp_identities (op_candidate r))"
    using canonical_payload_id [OF res(9)] .
  then show ?thesis using b h res(5,6) unfolding pristine_match_def by (auto simp: identities_payload_def)
qed

text \<open>
  C3. A fork is only ever trusted against the pristine runtime: when verification returns the row of a
  fork's measurement, its record names at least one comparison, and each comparison is itself verified
  by the store, as a run of the unpatched program on another runtime, with the same prompt tokens and
  the same generated tokens.
\<close>

theorem verified_fork_has_pristine:
  assumes "snd (verify_measurement x db {} {} mid) = Inr row" and "jget row ''numerical_path'' = JStr ''fork_off_vs_pristine''"
  shows "\<exists>m. measurement x db mid = Inr m \<and> mr_comparison_ids m \<noteq> []
    \<and> (\<forall>c \<in> set (mr_comparison_ids m). c \<noteq> mid \<and>
         (\<exists>baseline. snd (verify_measurement x db {} {} c) = Inr baseline \<and> pristine_match row baseline))"
proof -
  obtain primed' where "verify_measurement x db {} {} mid = (primed', Inr row)" using assms(1) by (metis prod.collapse)
  then obtain r run p where v: "open_measurement x db mid = Inr r"
    "prime_model (eh_host x) {} (md_identity (op_model r)) = (p, Inr ())"
    "compare_pristine (verify_measurement x db {mid}) x r run p = (primed', Inr ())"
    "verified_result x r run = Inr row"
    by (rule verify_ok) simp
  let ?ids = "mr_comparison_ids (op_record r)"
  have fork: "mr_numerical_path (op_record r) = ''fork_off_vs_pristine''"
    using verified_result_ok(8) [OF v(4)] assms(2) by simp
  have ids: "?ids \<noteq> []" and all: "compare_all (verify_measurement x db {mid}) x r run p ?ids = (primed', Inr ())"
    using v(3) fork by (simp_all add: compare_pristine_def split: if_splits)
  have sound: "primed_sound (eh_host x) p"
    using one_host.prime_sound [of "eh_host x" "{}" "md_identity (op_model r)"] one_host.sound_empty [of "eh_host x"] v(2) by simp
  have "c \<noteq> mid \<and> (\<exists>baseline. snd (verify_measurement x db {} {} c) = Inr baseline \<and> pristine_match row baseline)" if c: "c \<in> set ?ids" for c
  proof -
    obtain baseline where b: "snd (verify_measurement x db {mid} {} c) = Inr baseline" "comparison_fails x r run baseline = Inr False"
      using one_host.compare_all_ok [OF all sound _ c] one_host.verify_sound [OF refl] by blast
    have m: "pristine_match row baseline" using b(2) v(4) by (rule comparison_fails_False)
    obtain q where q: "verify_measurement x db {mid} {} c = (q, Inr baseline)" using b(1) by (metis prod.collapse)
    have "c \<noteq> mid" using verify_ok [OF q] by blast
    moreover have "verify_measurement x db {} {} c = (q, Inr baseline)"
      using q m by (intro verify_plain_seen [OF q]) (simp add: pristine_match_def)
    ultimately show ?thesis using m by simp
  qed
  then show ?thesis using ids open_measurement_ok(1) [OF v(1)] by blast
qed

end
