(* ===== verification/Evidence_History.thy ===== *)
theory Evidence_History
  imports Verification
begin

text \<open>
  The evidence store as a state machine: its only transition is a successful append, on whatever
  files, time and identifier. The lemmas show the constraints its states satisfy, that nothing stored
  is ever lost or changed, and that what was appended is what is read back.
\<close>

section \<open>Histories\<close>

definition empty_store :: evidence_store where
  "empty_store = \<lparr>es_measurement = [], es_artifact = [], es_validation = []\<rparr>"

inductive store_step :: "evidence_store \<Rightarrow> evidence_store \<Rightarrow> bool" where
  append: "append_measurement x now fresh db m measurement_id = Inr (mid, db') \<Longrightarrow> store_step db db'"

inductive_cases store_stepE: "store_step db db'"

abbreviation store_steps :: "evidence_store \<Rightarrow> evidence_store \<Rightarrow> bool" where
  "store_steps \<equiv> store_step\<^sup>*\<^sup>*"

text \<open>A successful append adds one row under a fresh identifier and a fresh owned run.\<close>

lemma append_ok:
  assumes "append_measurement x now fresh db m0 measurement_id = Inr (mid, db')"
  obtains m1 m owned key h flags where
    "mid = (if measurement_id = [] then fresh else measurement_id)" "is_text mid"
    "replace_record (eh_loads x) (eh_dumps x) (m0\<lparr>mr_measurement_id := JStr mid\<rparr>) = Inr m1"
    "verify_artifacts (eh_host x) m1 = Inr ()" "owned_run x m1 = Inr owned"
    "replace_record (eh_loads x) (eh_dumps x) (m1\<lparr>mr_owned_run_sha256 := JStr owned\<rparr>) = Inr m"
    "canonical_payload (record_payload m) = Inr (record_payload m)"
    "canonical_sha256 (eh_digest x) (JObj (key_fields (mr_key m))) = Inr key"
    "canonical_sha256 (eh_digest x) (record_payload m) = Inr h"
    "mid \<notin> ro_id ` set (es_measurement db)" "owned \<notin> ro_owned_run_sha256 ` set (es_measurement db)"
    "validation_rows x m = Inr flags"
    "db' = \<lparr>es_measurement = es_measurement db @ [\<lparr>ro_id = mid, ro_key_sha256 = key,
         ro_payload = sort_keys (record_payload m), ro_payload_sha256 = h, ro_created_at = now, ro_owned_run_sha256 = owned\<rparr>],
       es_artifact = es_artifact db @ map (\<lambda>a. (mid, ea_role a, sort_keys (evidence_artifact_payload a))) (mr_artifacts m),
       es_validation = es_validation db @ map (\<lambda>(name, passed). (mid, name, passed)) flags\<rparr>"
proof -
  obtain m1 owned m payload key h flags where a: "is_text mid" "mid = (if measurement_id = [] then fresh else measurement_id)"
    "replace_record (eh_loads x) (eh_dumps x) (m0\<lparr>mr_measurement_id := JStr mid\<rparr>) = Inr m1"
    "verify_artifacts (eh_host x) m1 = Inr ()" "owned_run x m1 = Inr owned"
    "replace_record (eh_loads x) (eh_dumps x) (m1\<lparr>mr_owned_run_sha256 := JStr owned\<rparr>) = Inr m"
    "canonical_json (record_payload m) = Inr payload"
    "canonical_sha256 (eh_digest x) (JObj (key_fields (mr_key m))) = Inr key"
    "canonical_sha256 (eh_digest x) (record_payload m) = Inr h"
    "mid \<notin> ro_id ` set (es_measurement db)" "owned \<notin> ro_owned_run_sha256 ` set (es_measurement db)"
    "validation_rows x m = Inr flags"
    "db' = \<lparr>es_measurement = es_measurement db @ [\<lparr>ro_id = mid, ro_key_sha256 = key, ro_payload = payload,
             ro_payload_sha256 = h, ro_created_at = now, ro_owned_run_sha256 = owned\<rparr>],
           es_artifact = es_artifact db
             @ map (\<lambda>a. (mid, ea_role a, sort_keys (evidence_artifact_payload a))) (mr_artifacts m),
           es_validation = es_validation db @ map (\<lambda>(name, passed). (mid, name, passed)) flags\<rparr>"
    using assms unfolding append_measurement_def rbind_eq_Inr if_Inl_eq_Inr require_text_ok
    by (elim exE conjE) (simp add: eq_commute)
  obtain q where "canonical_payload (record_payload m) = Inr q" "payload = sort_keys q"
    using a(7) by (auto simp: canonical_json_def rbind_eq_Inr)
  then have "canonical_payload (record_payload m) = Inr (record_payload m)" "payload = sort_keys (record_payload m)"
    using canonical_payload_id by blast+
  then show thesis using a by (intro that) simp_all
qed

section \<open>Reading back an append\<close>

lemma find_snoc: "\<forall>x \<in> set xs. \<not> P x \<Longrightarrow> P y \<Longrightarrow> find P (xs @ [y]) = Some y"
  by (induction xs) auto

text \<open>
  C4. What is appended is what is read back: after a successful append, reading the new identifier gives
  the given record with its texts in canonical form, its identifier, and the identity of the owned
  process its run-start proof names; the identifier was not in use, and no text but the four inside
  the record has to survive being written and read.
\<close>

theorem append_then_measurement:
  assumes "append_measurement x now fresh db m0 measurement_id = Inr (mid, db')"
    and "wf_key (mr_key m0)" and "\<forall>a \<in> set (mr_artifacts m0). wf_evidence_artifact a"
    and "\<forall>t \<in> {mr_identities_json m0, mr_settings_json m0, mr_metrics_json m0, mr_validation_json m0}. \<forall>v.
      eh_loads x t = Inr v \<longrightarrow> eh_loads x (eh_dumps x (sort_keys v)) = Inr (sort_keys v)"
  shows "mid \<notin> stored_ids db \<and> (\<exists>owned i s q v. owned_run x m0 = Inr owned
    \<and> canonical_text (eh_loads x) (eh_dumps x) (JStr (mr_identities_json m0)) = Inr i
    \<and> canonical_text (eh_loads x) (eh_dumps x) (JStr (mr_settings_json m0)) = Inr s
    \<and> canonical_text (eh_loads x) (eh_dumps x) (JStr (mr_metrics_json m0)) = Inr q
    \<and> canonical_text (eh_loads x) (eh_dumps x) (JStr (mr_validation_json m0)) = Inr v
    \<and> measurement x db' mid = Inr (m0\<lparr>mr_identities_json := i, mr_settings_json := s, mr_metrics_json := q,
        mr_validation_json := v, mr_measurement_id := JStr mid, mr_owned_run_sha256 := JStr owned\<rparr>))"
proof -
  let ?l = "eh_loads x" and ?d = "eh_dumps x"
  obtain m1 m owned key h flags where
    "mid = (if measurement_id = [] then fresh else measurement_id)" and ok: "is_text mid"
    "replace_record (eh_loads x) (eh_dumps x) (m0\<lparr>mr_measurement_id := JStr mid\<rparr>) = Inr m1"
    "verify_artifacts (eh_host x) m1 = Inr ()" "owned_run x m1 = Inr owned"
    "replace_record (eh_loads x) (eh_dumps x) (m1\<lparr>mr_owned_run_sha256 := JStr owned\<rparr>) = Inr m"
    "canonical_payload (record_payload m) = Inr (record_payload m)"
    "canonical_sha256 (eh_digest x) (JObj (key_fields (mr_key m))) = Inr key"
    "canonical_sha256 (eh_digest x) (record_payload m) = Inr h"
    "mid \<notin> ro_id ` set (es_measurement db)" "owned \<notin> ro_owned_run_sha256 ` set (es_measurement db)"
    "validation_rows x m = Inr flags"
    and db': "db' = \<lparr>es_measurement = es_measurement db @ [\<lparr>ro_id = mid, ro_key_sha256 = key,
         ro_payload = sort_keys (record_payload m), ro_payload_sha256 = h, ro_created_at = now, ro_owned_run_sha256 = owned\<rparr>],
       es_artifact = es_artifact db @ map (\<lambda>a. (mid, ea_role a, sort_keys (evidence_artifact_payload a))) (mr_artifacts m),
       es_validation = es_validation db @ map (\<lambda>(name, passed). (mid, name, passed)) flags\<rparr>"
    using assms(1) by (rule append_ok)
  note a = ok(2,4,5,6,8,9)
  obtain i s q v where texts: "canonical_text ?l ?d (JStr (mr_identities_json m0)) = Inr i"
      "canonical_text ?l ?d (JStr (mr_settings_json m0)) = Inr s" "canonical_text ?l ?d (JStr (mr_metrics_json m0)) = Inr q"
      "canonical_text ?l ?d (JStr (mr_validation_json m0)) = Inr v"
    and checks: "is_text (mr_candidate_id m0)" "is_text (mr_stage m0)" "mr_numerical_path m0 \<in> set NUMERICAL_PATHS"
      "distinct (map ea_role (mr_artifacts m0))"
    and m1: "m1 = m0\<lparr>mr_measurement_id := JStr mid, mr_identities_json := i, mr_settings_json := s, mr_metrics_json := q,
        mr_validation_json := v\<rparr>"
    using a(1) unfolding replace_record_iff by auto
  have again: "canonical_text ?l ?d (JStr i) = Inr i" "canonical_text ?l ?d (JStr s) = Inr s"
      "canonical_text ?l ?d (JStr q) = Inr q" "canonical_text ?l ?d (JStr v) = Inr v"
    using canonical_text_again [OF texts(1)] canonical_text_again [OF texts(2)] canonical_text_again [OF texts(3)]
      canonical_text_again [OF texts(4)] assms(4) by simp_all
  then have m: "m = m0\<lparr>mr_identities_json := i, mr_settings_json := s, mr_metrics_json := q,
        mr_validation_json := v, mr_measurement_id := JStr mid, mr_owned_run_sha256 := JStr owned\<rparr>"
    using a(3) unfolding replace_record_iff m1 by simp
  have "replace_record ?l ?d m = Inr m" unfolding replace_record_iff m using checks again by simp
  then have "decode_row x (last (es_measurement db')) = Inr m"
    by (rule decode_row_again [where h = h]) (use assms(2,3) a(4,5) in \<open>simp_all add: m db'\<close>)
  moreover have "find (\<lambda>row. ro_id row = mid) (es_measurement db') = Some (last (es_measurement db'))"
    using a(6) unfolding db' by (auto intro!: find_snoc)
  moreover have "owned_run x m0 = Inr owned" using a(2) by (simp add: owned_run_def artifact_path_def m1)
  ultimately show ?thesis using texts a(6) unfolding measurement_def stored_ids_def m by auto
qed

section \<open>Nothing is lost\<close>

definition store_wf :: "evidence_store \<Rightarrow> bool" where
  "store_wf db \<longleftrightarrow> distinct (map ro_id (es_measurement db)) \<and> distinct (map ro_owned_run_sha256 (es_measurement db))
     \<and> (\<forall>mid \<in> stored_ids db. is_text mid)
     \<and> distinct (map (\<lambda>(mid, role, _). (mid, role)) (es_artifact db))
     \<and> fst ` set (es_artifact db) \<subseteq> stored_ids db \<and> fst ` set (es_validation db) \<subseteq> stored_ids db"

definition extends :: "evidence_store \<Rightarrow> evidence_store \<Rightarrow> bool" where
  "extends db db' \<longleftrightarrow> (\<exists>rows artifacts flags. es_measurement db' = es_measurement db @ rows
     \<and> es_artifact db' = es_artifact db @ artifacts \<and> es_validation db' = es_validation db @ flags)"

lemma append_step_wf:
  assumes "store_step db db'" and "store_wf db"
  shows "store_wf db' \<and> extends db db'"
proof -
  obtain x now fresh m0 measurement_id mid where step: "append_measurement x now fresh db m0 measurement_id = Inr (mid, db')"
    using assms(1) by (rule store_stepE)
  obtain m1 m owned key h flags where
    "mid = (if measurement_id = [] then fresh else measurement_id)" and ok: "is_text mid"
    "replace_record (eh_loads x) (eh_dumps x) (m0\<lparr>mr_measurement_id := JStr mid\<rparr>) = Inr m1"
    "verify_artifacts (eh_host x) m1 = Inr ()" "owned_run x m1 = Inr owned"
    "replace_record (eh_loads x) (eh_dumps x) (m1\<lparr>mr_owned_run_sha256 := JStr owned\<rparr>) = Inr m"
    "canonical_payload (record_payload m) = Inr (record_payload m)"
    "canonical_sha256 (eh_digest x) (JObj (key_fields (mr_key m))) = Inr key"
    "canonical_sha256 (eh_digest x) (record_payload m) = Inr h"
    "mid \<notin> ro_id ` set (es_measurement db)" "owned \<notin> ro_owned_run_sha256 ` set (es_measurement db)"
    "validation_rows x m = Inr flags"
    and db': "db' = \<lparr>es_measurement = es_measurement db @ [\<lparr>ro_id = mid, ro_key_sha256 = key,
         ro_payload = sort_keys (record_payload m), ro_payload_sha256 = h, ro_created_at = now, ro_owned_run_sha256 = owned\<rparr>],
       es_artifact = es_artifact db @ map (\<lambda>a. (mid, ea_role a, sort_keys (evidence_artifact_payload a))) (mr_artifacts m),
       es_validation = es_validation db @ map (\<lambda>(name, passed). (mid, name, passed)) flags\<rparr>"
    using step by (rule append_ok)
  note a = ok(1,9,10,5)
  have roles: "distinct (map ea_role (mr_artifacts m))" using a(4) unfolding replace_record_iff by auto
  have "distinct (map (\<lambda>a. (mid, ea_role a)) (mr_artifacts m))"
    using roles by (auto simp: distinct_map inj_on_def)
  then have "store_wf db'"
    using assms(2) a(1-3) by (auto simp: store_wf_def db' stored_ids_def comp_def image_subset_iff)
  then show ?thesis by (auto simp: extends_def db')
qed

lemma extends_refl: "extends db db"
  by (simp add: extends_def)

lemma extends_trans: "extends a b \<Longrightarrow> extends b c \<Longrightarrow> extends a c"
  unfolding extends_def by (elim exE conjE) simp

lemma steps_wf: "store_steps db db' \<Longrightarrow> store_wf db \<Longrightarrow> store_wf db' \<and> extends db db'"
  by (induction rule: rtranclp_induct) (use append_step_wf extends_refl extends_trans in blast)+

lemma extends_measurement:
  assumes "extends db db'" and "measurement x db mid = Inr m"
  shows "measurement x db' mid = Inr m"
proof -
  obtain rows where rows: "es_measurement db' = es_measurement db @ rows" using assms(1) by (auto simp: extends_def)
  obtain row where row: "find (\<lambda>row. ro_id row = mid) (es_measurement db) = Some row" "decode_row x row = Inr m"
    using assms(2) by (auto simp: measurement_def split: option.splits)
  have "find P (xs @ ys) = Some y" if "find P xs = Some y" for P xs ys and y :: measurement_row
    using that by (induction xs) auto
  then show ?thesis using row by (simp add: measurement_def rows)
qed

text \<open>
  C5. The store only grows: in every state reachable by appends the identifiers and the owned runs of
  the measurements are pairwise different, an artifact is stored once per measurement and role, and
  every artifact and flag belongs to a stored measurement; and along every further history the tables
  keep their rows, so a measurement that can be read once is read the same ever after.
\<close>

theorem store_append_only:
  assumes "store_steps empty_store db" and "store_steps db db'"
  shows "store_wf db \<and> extends db db' \<and> (\<forall>x mid m. measurement x db mid = Inr m \<longrightarrow> measurement x db' mid = Inr m)"
proof -
  have "store_wf empty_store" by (simp add: store_wf_def empty_store_def stored_ids_def)
  then have wf: "store_wf db" using steps_wf [OF assms(1)] by blast
  then have "extends db db'" using steps_wf [OF assms(2)] by blast
  then show ?thesis using wf extends_measurement by blast
qed

section \<open>Equality up to the order of keys\<close>

text \<open>A value as Python holds it: no key twice, and only numbers that are equal to themselves.\<close>

fun proper :: "json \<Rightarrow> bool" where
  "proper (JFloat x) \<longleftrightarrow> isfinite x"
| "proper (JArr xs) \<longleftrightarrow> (\<forall>v \<in> set xs. proper v)"
| "proper (JObj d) \<longleftrightarrow> distinct (map fst d) \<and> (\<forall>(k, v) \<in> set d. proper v)"
| "proper v \<longleftrightarrow> True"

lemma sort_keys_cases:
  assumes "sort_keys a = sort_keys b"
  obtains (arr) xs ys where "a = JArr xs" "b = JArr ys" "map sort_keys xs = map sort_keys ys"
    | (obj) d e where "a = JObj d" "b = JObj e"
        "sort_key fst (map (\<lambda>(k, v). (k, sort_keys v)) d) = sort_key fst (map (\<lambda>(k, v). (k, sort_keys v)) e)"
    | (scalar) "a = b" "sort_keys a = a" "\<forall>xs. a \<noteq> JArr xs" "\<forall>d. a \<noteq> JObj d"
  using assms by (cases a; cases b) auto

lemma jeq_scalar: "proper a \<Longrightarrow> \<forall>xs. a \<noteq> JArr xs \<Longrightarrow> \<forall>d. a \<noteq> JObj d \<Longrightarrow> jeq a a"
  by (cases a) (auto simp: exact_num_def py_eq_def isfinite_def split: pyfloat.splits)

lemma jeq_sort_keys: "proper a \<Longrightarrow> proper b \<Longrightarrow> sort_keys a = sort_keys b \<Longrightarrow> jeq a b"
proof (induction a arbitrary: b rule: proper.induct)
  case (2 xs)
  then obtain ys where b: "b = JArr ys" "map sort_keys xs = map sort_keys ys" by (cases b) auto
  have "length xs = length ys" using b(2) by (metis length_map)
  moreover have "jeq x y" if "(x, y) \<in> set (zip xs ys)" for x y
  proof -
    have "x \<in> set xs" "y \<in> set ys" using that by (auto dest: set_zip_leftD set_zip_rightD)
    moreover have "sort_keys x = sort_keys y"
      using that b(2) by (auto simp: in_set_zip) (metis nth_map)
    ultimately show ?thesis using "2.IH" "2.prems"(1,2) b(1) by auto
  qed
  ultimately show ?case by (auto simp: b(1) list_all_iff)
next
  case (3 d)
  let ?f = "\<lambda>(k, v). (k, sort_keys v)"
  obtain e where b: "b = JObj e" and eq: "sort_key fst (map ?f d) = sort_key fst (map ?f e)"
    using "3.prems"(3) by (cases b) auto
  have dd: "distinct (map fst d)" "distinct (map fst e)" using "3.prems"(1,2) b by simp_all
  have "length d = length e" using arg_cong [OF eq, of length] by simp
  moreover have "case map_of e k of None \<Rightarrow> False | Some y \<Rightarrow> jeq x y" if "(k, x) \<in> set d" for k x
  proof -
    have "map_option sort_keys (map_of e k) = Some (sort_keys x)"
      using sorted_entries(1) [OF dd(1), of k] sorted_entries(1) [OF dd(2), of k] eq dd(1) that by simp
    then obtain y where y: "map_of e k = Some y" "sort_keys y = sort_keys x" by auto
    then have "(k, y) \<in> set e" by (simp add: map_of_SomeD)
    then have "jeq x y" using "3.IH" [OF that refl, of y] "3.prems"(1,2) b that y(2) by auto
    with y(1) show ?thesis by simp
  qed
  ultimately show ?case by (simp add: b list_all_iff case_prod_unfold)
qed (metis jeq_scalar json.distinct sort_keys_cases json.simps)+

section \<open>What the store verifies is what sealing needs\<close>

lemma workload_numbers:
  assumes "WorkloadIR (workload_fields w) = Inr w"
  shows "valid_number (wl_temperature w) (Fin 0) \<and> valid_number (wl_maximum_cv_pct w) (Fin 0)
    \<and> valid_number (wl_replay_tolerance_pct w) (Fin 0)
    \<and> (wl_policy w = EXACT \<longrightarrow> wl_approximate_quality_budget w = JNull)"
proof -
  have bind: "bind_kwargs workload_defaults (workload_fields w) = Inr (workload_fields w)"
    by (rule bind_kwargs_id) (simp_all add: workload_fields_def workload_defaults_def)
  have get: "jget (workload_fields w) ''temperature'' = wl_temperature w" "jget (workload_fields w) ''maximum_cv_pct'' = wl_maximum_cv_pct w"
      "jget (workload_fields w) ''replay_tolerance_pct'' = wl_replay_tolerance_pct w"
      "jget (workload_fields w) ''approximate_quality_budget'' = wl_approximate_quality_budget w"
    by (simp_all add: workload_fields_def)
  obtain vs policy where vs: "rmap (\<lambda>name. require_number (jget (workload_fields w) name) name (Fin 0))
       [''temperature'', ''maximum_cv_pct'', ''replay_tolerance_pct''] = Inr vs"
    and policy: "policy_of (jget (workload_fields w) ''policy'') = Inr policy"
      "\<not> (policy = EXACT \<and> approximate_setting (workload_fields w))"
    using assms unfolding WorkloadIR_def bind rbind_Inr rbind_eq_Inr if_Inl_eq_Inr Let_def
    by (elim exE conjE) (rule that, assumption+)
  have "policy = wl_policy w"
    using policy(1) by (simp add: workload_fields_def policy_of_def policy_value_def split: exactness_policy.splits)
  show ?thesis using vs policy(2) \<open>policy = wl_policy w\<close> by (auto simp: rbind_eq_Inr require_simps get approximate_setting_def)
qed

lemma valid_number_proper: "valid_number v m \<Longrightarrow> proper v"
  by (erule valid_number_cases) (simp_all add: isfinite_def)

lemma identities_proper:
  assumes "wf_candidate digest c" and "wl_policy (pi_workload (cp_identities c)) = EXACT"
  shows "proper (identities_payload (cp_identities c))"
proof -
  let ?w = "pi_workload (cp_identities c)"
  have "WorkloadIR (workload_fields ?w) = Inr ?w" "wl_kv_type_k ?w = JStr ''f16''" "wl_kv_type_v ?w = JStr ''f16''"
    using assms(1) by (auto simp: wf_candidate_def wf_identities_def settings_match_def)
  moreover have "proper (wl_temperature ?w)" "proper (wl_maximum_cv_pct ?w)" "proper (wl_replay_tolerance_pct ?w)"
      "wl_approximate_quality_budget ?w = JNull"
    using workload_numbers [OF calculation(1)] assms(2) valid_number_proper by blast+
  ultimately show ?thesis
    by (simp add: identities_payload_def workload_payload_def workload_fields_def policy_value_def split: exactness_policy.split)
qed

text \<open>The store as the argument of sealing and of the stock import; \<open>store_memory\<close> reads the memory artifact.\<close>

definition store_verify :: "evidence_host \<Rightarrow> evidence_store \<Rightarrow> string \<Rightarrow> jrecord res" where
  "store_verify x db mid = snd (verify_measurement x db {} {} mid)"

definition store_memory :: "evidence_host \<Rightarrow> evidence_store \<Rightarrow> string \<Rightarrow> json res" where
  "store_memory x db mid = rbind (measurement x db mid) (\<lambda>m. case artifact_path m ''memory'' of
     None \<Rightarrow> Inl StopIteration
   | Some p \<Rightarrow> (case ho_file (eh_host x) p of None \<Rightarrow> Inl OSError | Some f \<Rightarrow> hf_json f))"

text \<open>No stored record of another plan has the identifier of the candidate: SHA-256 did not collide.\<close>

definition no_collision :: "evidence_host \<Rightarrow> evidence_store \<Rightarrow> candidate_plan \<Rightarrow> bool" where
  "no_collision x db c \<longleftrightarrow> (\<forall>mid r c0. measurement x db mid = Inr r \<longrightarrow> record_candidate x r = Inr c0 \<longrightarrow>
     candidate_id (eh_digest x) c0 = candidate_id (eh_digest x) c \<longrightarrow>
     sort_keys (identities_payload (cp_identities c0)) = sort_keys (identities_payload (cp_identities c))
     \<and> sort_keys (settings_payload (cp_settings c0)) = sort_keys (settings_payload (cp_settings c)))"

lemma record_settings_wf: "record_settings v = Inr s \<Longrightarrow> wf_settings s"
  using RuntimeSettings_wf StaticPlacement_wf
  by (fastforce simp: record_settings_def rbind_eq_Inr split: if_splits)

lemma record_candidate_wf: "record_candidate x m = Inr c \<Longrightarrow> wf_candidate (eh_digest x) c"
  using CandidatePlan_wf decode_identities_wf record_settings_wf
  by (fastforce simp: record_candidate_def rbind_eq_Inr if_Inl_eq_Inr)

definition unobj :: "json \<Rightarrow> jrecord" where
  "unobj v = (case v of JObj d \<Rightarrow> d | _ \<Rightarrow> [])"

lemma same_policy:
  assumes "sort_keys (identities_payload i) = sort_keys (identities_payload j)"
  shows "wl_policy (pi_workload i) = wl_policy (pi_workload j)"
proof -
  let ?f = "\<lambda>(k, v). (k, sort_keys v)"
  let ?W = "\<lambda>i. workload_fields (pi_workload i)"
  have W: "distinct (map fst (?W i))" for i by (simp add: workload_fields_def)
  have get: "map_of (unobj (sort_keys (identities_payload i))) ''workload'' = Some (sort_keys (JObj (?W i)))" for i
  proof -
    let ?P = "[(''model_sha256'', JStr (pi_model_sha256 i)), (''hardware_sha256'', JStr (pi_hardware_sha256 i)),
      (''workload_sha256'', JStr (pi_workload_sha256 i)), (''runtime_sha256'', JStr (pi_runtime_sha256 i)), (''workload'', JObj (?W i))]"
    have "map_of (sort_key fst (map ?f ?P)) ''workload'' = map_option sort_keys (map_of ?P ''workload'')"
      by (rule sorted_entries) simp
    then show ?thesis by (simp add: identities_payload_def workload_payload_def unobj_def)
  qed
  have "sort_keys (JObj (?W i)) = sort_keys (JObj (?W j))" using get [of i] get [of j] assms by simp
  then have "map_option sort_keys (map_of (?W i) ''policy'') = map_option sort_keys (map_of (?W j) ''policy'')"
    using sorted_entries(1) [OF W, of i "''policy''"] sorted_entries(1) [OF W, of j "''policy''"] by simp
  then show ?thesis by (simp add: workload_fields_def policy_value_def split: exactness_policy.splits)
qed

lemma store_row_verified:
  assumes "store_verify x db mid = Inr row" and "\<forall>v. is_hash (eh_digest x v)" and "no_collision x db c"
    and "wf_candidate (eh_digest x) c" and "wl_policy (pi_workload (cp_identities c)) = EXACT"
  shows "verified_row (eh_digest x) c row"
proof -
  let ?digest = "eh_digest x"
  obtain primed' where "verify_measurement x db {} {} mid = (primed', Inr row)"
    using assms(1) unfolding store_verify_def by (metis prod.collapse)
  then obtain r run where v: "open_measurement x db mid = Inr r" "check_measurement x r = Inr run" "verified_result x r run = Inr row"
    by (rule verify_ok)
  note op = open_measurement_ok [OF v(1)] and ck = check_measurement_ok [OF v(2) refl] and res = verified_result_ok [OF v(3)]
  let ?c0 = "op_candidate r"
  have hash: "is_hash h" if "canonical_sha256 ?digest v = Inr h" for v h
    using that assms(2) by (auto simp: canonical_sha256_def rbind_eq_Inr)
  have owned: "is_hash (ck_owned run)"
    using ck(5) hash by (auto simp: owned_run_def rbind_eq_Inr if_Inl_eq_Inr split: option.splits)
  have exit: "jget row ''exit_code'' = JInt 0"
    using ck(7) res(2) by (auto simp: check_process_def rbind_eq_Inr if_Inl_eq_Inr)
  have id0: "candidate_id ?digest ?c0 = Inr (mr_candidate_id (op_record r))" by (rule record_candidate_ok [OF op(4)])
  have "jeq (jget row ''identities'') p \<and> jget row ''settings_sha256'' = JStr s"
    if cid: "candidate_id ?digest c = Inr cid" and p: "canonical_payload (identities_payload (cp_identities c)) = Inr p"
      and s: "canonical_sha256 ?digest (settings_payload (cp_settings c)) = Inr s" and row: "jget row ''candidate_id'' = JStr cid" for cid p s
  proof -
    have same: "sort_keys (identities_payload (cp_identities ?c0)) = sort_keys (identities_payload (cp_identities c))"
        "sort_keys (settings_payload (cp_settings ?c0)) = sort_keys (settings_payload (cp_settings c))"
      using assms(3) op(1,4) id0 cid row res(1) unfolding no_collision_def by auto
    have "proper (identities_payload (cp_identities ?c0))"
      using record_candidate_wf [OF op(4)] same_policy [OF same(1)] assms(5) by (intro identities_proper) simp_all
    moreover have "proper (identities_payload (cp_identities c))" using assms(4,5) by (rule identities_proper)
    ultimately have "jeq (identities_payload (cp_identities ?c0)) (identities_payload (cp_identities c))"
      using same(1) by (intro jeq_sort_keys)
    moreover have "jget row ''identities'' = identities_payload (cp_identities ?c0)" using canonical_payload_id [OF res(9)] .
    moreover have "p = identities_payload (cp_identities c)" using canonical_payload_id [OF p] .
    moreover obtain h where h: "canonical_sha256 ?digest (settings_payload (cp_settings ?c0)) = Inr h" "jget row ''settings_sha256'' = JStr h"
      using res(10) by blast
    have "h = s"
      using h(1) s same(2) canonical_payload_id unfolding canonical_sha256_def rbind_eq_Inr by (metis Inr_inject)
    ultimately show ?thesis using h(2) by simp
  qed
  then show ?thesis
    unfolding verified_row_def using owned exit res(4-7,11) hash by blast
qed

text \<open>What a successful import has read, whatever the rows are.\<close>

lemma import_rows:
  assumes "import_stock_measurement digest verify memory c ids = Inr m"
  shows "(\<exists>rows. rmap verify ids = Inr rows) \<and> measured_candidate c ids = Inr (sm_candidate m)"
  using assms by (auto simp: import_stock_measurement_def rbind_eq_Inr if_Inl_eq_Inr)

lemma sealed_candidate_exact:
  assumes "seal_candidate digest now c verify identities fallback = Inr p"
  shows "cp_rejection_reasons c = [] \<and> wl_policy (pi_workload (cp_identities c)) = EXACT"
proof -
  have "validate_candidate c = Inr ()" using assms by (auto simp: seal_candidate.simps rbind_eq_Inr)
  then show ?thesis by (auto simp: validate_candidate_def Let_def split: if_splits)
qed

text \<open>
  C1. The store, the stock search and the sealing fit together. Take a stock measurement that is
  imported from at least two runs the evidence store verifies and that the selection returns, for a
  candidate as its constructors build it. Sealing the measured candidate against the same store
  returns a plan exactly when the candidate has no rejection reason and its workload asks for the
  exact policy; import and selection check neither, and sealing raises without them. And every run
  behind the measurement was a native run of the plan its own record holds, recomputed from raw files
  that are unchanged on disk, with the model's weights hashed. The theorem assumes that the digest
  returns 64 hexadecimal digits and has no collision between this candidate and the stored ones, and
  that the time stamp is not blank.
\<close>

theorem imported_stock_seals:
  assumes "import_stock_measurement (eh_digest x) (store_verify x db) (store_memory x db) c ids = Inr m"
    and "select_strongest_stock (eh_digest x) measurements total_vram_mib reserve_mib = Inr m" and "2 \<le> length ids"
    and "wf_candidate (eh_digest x) c"
    and "\<forall>v. is_hash (eh_digest x v)" and "no_collision x db c" and "is_text now"
  shows "((\<exists>p. seal_candidate (eh_digest x) now (sm_candidate m) (store_verify x db) (cp_identities c) None = Inr p)
      \<longleftrightarrow> cp_rejection_reasons c = [] \<and> wl_policy (pi_workload (cp_identities c)) = EXACT)
    \<and> (\<forall>mid \<in> set ids. \<exists>row r c0 arts. store_verify x db mid = Inr row \<and> measurement x db mid = Inr r
         \<and> record_candidate x r = Inr c0 \<and> native_artifacts x r = Inr arts \<and> native_run x {} r c0 arts row)"
proof (intro conjI ballI iffI)
  assume exact: "cp_rejection_reasons c = [] \<and> wl_policy (pi_workload (cp_identities c)) = EXACT"
  then have verified: "\<forall>mid row. store_verify x db mid = Inr row \<longrightarrow> verified_row (eh_digest x) c row"
    using store_row_verified [OF _ assms(5,6,4)] by blast
  show "\<exists>p. seal_candidate (eh_digest x) now (sm_candidate m) (store_verify x db) (cp_identities c) None = Inr p"
    by (rule selected_stock_plan [OF assms(1,2) verified assms(3) conjunct1 [OF exact] conjunct2 [OF exact] assms(5,7)])
next
  have c': "sm_candidate m = c\<lparr>cp_status := MEASURED, cp_measurement_ids := ids, cp_validation := sort (cp_validation c)\<rparr>"
    using measured_candidate_ok [OF import_rows [OF assms(1), THEN conjunct2]] by blast
  assume "\<exists>p. seal_candidate (eh_digest x) now (sm_candidate m) (store_verify x db) (cp_identities c) None = Inr p"
  then have "cp_rejection_reasons (sm_candidate m) = [] \<and> wl_policy (pi_workload (cp_identities (sm_candidate m))) = EXACT"
    using sealed_candidate_exact by blast
  then show "cp_rejection_reasons c = []" "wl_policy (pi_workload (cp_identities c)) = EXACT" by (simp_all add: c')
next
  fix mid assume mid: "mid \<in> set ids"
  obtain rows where rows: "rmap (store_verify x db) ids = Inr rows" using import_rows [OF assms(1)] by blast
  obtain row where "store_verify x db mid = Inr row" using rmap_elem_fwd [OF rows mid] by auto
  then show "\<exists>row r c0 arts. store_verify x db mid = Inr row \<and> measurement x db mid = Inr r
         \<and> record_candidate x r = Inr c0 \<and> native_artifacts x r = Inr arts \<and> native_run x {} r c0 arts row"
    using verified_row_native [of x db "{}" "{}" mid row] unfolding store_verify_def by blast
qed

end
