(* ===== verification/Evidence_Example.thy ===== *)
theory Evidence_Example
  imports Evidence_Check
begin

text \<open>
  A small evidence store for the witnesses: three measurements of the pristine runtime and one of a
  fork, each on files named by a letter. One digest stands for all payloads except the owned processes
  and the fork's runtime, which need different ones.
\<close>

definition tagged_hash :: "char \<Rightarrow> string" where
  "tagged_hash c = c # replicate 63 CHR ''0''"

definition ev_digest :: "json \<Rightarrow> string" where
  "ev_digest v = (case v of JObj d \<Rightarrow>
       (case jget d ''pid'' of JInt n \<Rightarrow> tagged_hash (if n = 1 then CHR ''1'' else if n = 2 then CHR ''2'' else if n = 3 then CHR ''3'' else CHR ''4'')
        | _ \<Rightarrow> if jget d ''manifest_json'' = JStr ''F'' then tagged_hash CHR ''f'' else zero_hash)
     | _ \<Rightarrow> zero_hash)"

definition runtime_hash :: "bool \<Rightarrow> string" where
  "runtime_hash fork = (if fork then tagged_hash CHR ''f'' else zero_hash)"

definition ev_identities :: "bool \<Rightarrow> plan_identities" where
  "ev_identities fork = example_identities\<lparr>pi_runtime_sha256 := runtime_hash fork\<rparr>"

section \<open>Texts\<close>

definition ev_texts :: "(string \<times> json) list" where
  "ev_texts = [(''I'', sort_keys (identities_payload (ev_identities False))), (''J'', sort_keys (identities_payload (ev_identities True))),
     (''S'', sort_keys (settings_payload example_settings)), (''M'', JObj [(''decode_tps'', JInt 1)]),
     (''V'', JObj [(''cleanup'', JBool True), (''exact_tokens'', JBool True), (''memory'', JBool True)]),
     (''N'', JObj []), (''F'', JObj [(''patches'', JArr [JNull])])]"

definition ev_loads :: "string \<Rightarrow> json res" where
  "ev_loads s = (case map_of ev_texts s of None \<Rightarrow> Inl (ValueError ''invalid JSON'') | Some v \<Rightarrow> Inr v)"

definition ev_dumps :: "json \<Rightarrow> string" where
  "ev_dumps v = (case v of JObj d \<Rightarrow>
       if jget d ''runtime_sha256'' = JStr zero_hash then ''I'' else if jget d ''runtime_sha256'' \<noteq> JNull then ''J''
       else if jget d ''gpu_layers'' \<noteq> JNull then ''S'' else if jget d ''decode_tps'' \<noteq> JNull then ''M'' else ''V''
     | _ \<Rightarrow> ''?'')"

section \<open>Files\<close>

definition ev_identity :: "string \<Rightarrow> artifact_identity" where
  "ev_identity p = \<lparr>ai_path = p, ai_size_bytes = 1, ai_sha256 = zero_hash\<rparr>"

definition ev_binding :: "bool \<Rightarrow> runtime_binding" where
  "ev_binding fork = \<lparr>rb_server = ev_identity ''x'', rb_manifest_json = JStr (if fork then ''F'' else ''N''),
     rb_dependencies = [], rb_cuda_runtime = None\<rparr>"

definition ev_candidate :: "bool \<Rightarrow> candidate_plan" where
  "ev_candidate fork = \<lparr>cp_identities = ev_identities fork, cp_settings = example_settings, cp_status = UNMEASURED,
     cp_estimated_decode_tps = JNull, cp_measurement_ids = [], cp_rejection_reasons = [], cp_validation = []\<rparr>"

definition ev_model :: model_ir where
  "ev_model = \<lparr>md_schema_version = PLAN_SCHEMA, md_identity = ev_identity ''w'', md_family = ''f'', md_architecture = ''a'',
     md_quantization = ''q'', md_expert_count = 4, md_expert_top_k = 2,
     md_moe_layers = [\<lparr>ml_layer_id = 0, ml_expert_count = 4, ml_expert_top_k = 2, ml_expert_bundle_bytes = 8,
       ml_routed_expert_bank_bytes = 32, ml_component_bank_bytes = [32]\<rparr>],
     md_kv_kind = ''k'', md_mtp_kind = ''m'', md_alignment_bytes = 256, md_inventory_sha256 = None\<rparr>"

definition ev_argv :: json where
  "ev_argv = JArr (map JStr [''x'', ''-m'', ''w'', ''-ngl'', ''99'', ''-c'', ''8'', ''-b'', ''2048'', ''-ub'', ''512'', ''-t'', ''12'',
     ''-tb'', ''12'', ''-ctk'', ''f16'', ''-ctv'', ''f16'', ''-np'', ''1'', ''--host'', ''127.0.0.1'', ''--port'', ''9'', ''--cpu-moe''])"

definition ev_launch :: "bool \<Rightarrow> jrecord" where
  "ev_launch fork = [(''runtime_binding'', binding_payload (ev_binding fork)), (''candidate_id'', JStr zero_hash),
     (''settings_sha256'', JStr zero_hash), (''runtime_sha256'', JStr (runtime_hash fork)), (''model_sha256'', JStr zero_hash),
     (''workload_sha256'', JStr zero_hash), (''model_ir'', model_payload ev_model), (''argv'', ev_argv),
     (''environment'', JObj [(''PATH'', JStr ''b;c'')])]"

definition ev_completion :: jrecord where
  "ev_completion = [(''tokens'', JArr [JInt 5, JInt 6, JInt 7, JInt 8]),
     (''timings'', JObj [(''predicted_n'', JInt 4), (''predicted_ms'', JInt 4000)])]"

definition ev_tokenize :: jrecord where
  "ev_tokenize = [(''tokens'', JArr [JInt 3])]"

definition ev_wall :: jrecord where
  "ev_wall = [(''started_monotonic_ns'', JInt 1), (''finished_monotonic_ns'', JInt 1000001), (''elapsed_ms'', JInt 1)]"

definition ev_start :: "string \<Rightarrow> int \<Rightarrow> jrecord" where
  "ev_start tag pid = [(''pid'', JInt pid), (''run_id'', JStr tag), (''creation_time_100ns'', JInt 7),
     (''started_monotonic_ns'', JInt 1), (''creation_source'', JStr ''GetProcessTimes'')]"

definition ev_process :: "string \<Rightarrow> int \<Rightarrow> jrecord" where
  "ev_process tag pid = [(''pid'', JInt pid), (''run_id'', JStr tag), (''creation_time_100ns'', JInt 7),
     (''exit_code'', JInt 0), (''exited'', JBool True), (''cleanup'', JBool True), (''memory_settled'', JBool True)]"

definition ev_reading :: "int \<Rightarrow> jrecord" where
  "ev_reading pid = [(''pid'', JInt pid), (''dedicated_bytes'', JInt 9), (''device_free_bytes'', JInt 268435456),
     (''counter_available'', JBool True), (''state'', JStr ''allocated''), (''phase'', JStr ''measurement'')]"

definition ev_memory :: "int \<Rightarrow> jrecord" where
  "ev_memory pid = [(''observations'', JArr [JObj (ev_reading pid)]), (''samples'', JArr [JObj (ev_reading pid)]),
     (''teardown_reading'', JObj [(''state'', JStr ''absent''), (''counter_available'', JBool True), (''dedicated_bytes'', JInt 0),
       (''pid'', JInt pid)])]"

definition ev_docs :: "(string \<times> jrecord) list" where
  "ev_docs = [(''C'', ev_completion), (''T'', ev_tokenize),
     (''Q'', [(''content'', JStr ''p''), (''add_special'', JBool True)]), (''R'', request_controls example_workload_ir [JInt 3]),
     (''W'', ev_wall), (''L'', ev_launch False), (''K'', ev_launch True)]"

definition ev_run_docs :: "string \<times> int \<Rightarrow> (string \<times> jrecord) list" where
  "ev_run_docs = (\<lambda>(tag, pid). [(CHR ''s'' # tag, ev_start tag pid), (CHR ''e'' # tag, ev_process tag pid), (CHR ''m'' # tag, ev_memory pid)])"

definition ev_runs :: "(string \<times> int) list" where
  "ev_runs = [(''1'', 1), (''2'', 2), (''3'', 3), (''4'', 4)]"

definition ev_host :: host where
  "ev_host = \<lparr>ho_file = (\<lambda>p. if p \<in> {''x'', ''w''} then Some \<lparr>hf_size = 1, hf_sha256 = zero_hash, hf_json = Inl (ValueError []), hf_stamp = (0, 0)\<rparr>
       else map_option (\<lambda>d. \<lparr>hf_size = 1, hf_sha256 = zero_hash, hf_json = Inr (JObj d), hf_stamp = (0, 0)\<rparr>)
         (map_of (ev_docs @ concat (map ev_run_docs ev_runs)) p)),
     ho_resolve = (\<lambda>p. p), ho_parent = (\<lambda>p. ''b''), ho_name = (\<lambda>p. p), ho_join = (\<lambda>a b. b), ho_dlls = (\<lambda>p. []), ho_pathsep = '';''\<rparr>"

definition ev_world :: evidence_host where
  "ev_world = \<lparr>eh_loads = ev_loads, eh_dumps = ev_dumps, eh_digest = ev_digest, eh_host = ev_host\<rparr>"

section \<open>Records\<close>

definition ev_key :: "bool \<Rightarrow> measurement_key" where
  "ev_key fork = \<lparr>mk_model_sha256 = zero_hash, mk_hardware_sha256 = zero_hash, mk_workload_sha256 = zero_hash,
     mk_runtime_sha256 = runtime_hash fork, mk_settings_sha256 = zero_hash\<rparr>"

definition ev_roles :: "string \<Rightarrow> bool \<Rightarrow> (string \<times> string) list" where
  "ev_roles tag fork = [(''completion'', ''C''), (''tokenize'', ''T''), (''tokenize-request'', ''Q''), (''request'', ''R''),
     (''completion-wall'', ''W''), (''launch'', if fork then ''K'' else ''L''), (''run-start'', CHR ''s'' # tag),
     (''process'', CHR ''e'' # tag), (''memory'', CHR ''m'' # tag)]"

text \<open>The record as the runner submits it, and as it is stored.\<close>

definition ev_submitted :: "string \<Rightarrow> bool \<Rightarrow> string list \<Rightarrow> measurement_record" where
  "ev_submitted tag fork comparisons = \<lparr>mr_key = ev_key fork, mr_candidate_id = zero_hash,
     mr_identities_json = (if fork then ''J'' else ''I''), mr_settings_json = ''S'',
     mr_artifacts = map (\<lambda>(role, p). \<lparr>ea_role = role, ea_identity = ev_identity p\<rparr>) (ev_roles tag fork),
     mr_metrics_json = ''M'', mr_validation_json = ''V'', mr_exit_code = 0, mr_measured = True, mr_stage = ''stock'',
     mr_numerical_path = (if fork then ''fork_off_vs_pristine'' else ''stock_same_runtime''), mr_comparison_ids = comparisons,
     mr_measurement_id = JStr [], mr_owned_run_sha256 = JStr []\<rparr>"

definition ev_stored :: "string \<Rightarrow> bool \<Rightarrow> string list \<Rightarrow> measurement_record" where
  "ev_stored tag fork comparisons = (ev_submitted tag fork comparisons)\<lparr>mr_measurement_id := JStr tag,
     mr_owned_run_sha256 := JStr (tagged_hash (hd tag))\<rparr>"

definition ev_row :: "string \<Rightarrow> bool \<Rightarrow> string list \<Rightarrow> measurement_row" where
  "ev_row tag fork comparisons = \<lparr>ro_id = tag, ro_key_sha256 = zero_hash, ro_payload = sort_keys (record_payload (ev_stored tag fork comparisons)),
     ro_payload_sha256 = zero_hash, ro_created_at = ''now'', ro_owned_run_sha256 = tagged_hash (hd tag)\<rparr>"

definition ev_store :: evidence_store where
  "ev_store = \<lparr>es_measurement = [ev_row ''1'' False [], ev_row ''2'' False [], ev_row ''3'' False [], ev_row ''4'' True [''1'']],
     es_artifact = [], es_validation = []\<rparr>"

section \<open>Its measurements\<close>

lemma ev_doc: "map_of (ev_docs @ concat (map ev_run_docs ev_runs)) p = Some d \<Longrightarrow> p \<notin> {''x'', ''w''} \<Longrightarrow>
    read_json_file ev_host p = Inr d \<and> identity_holds ev_host (ev_identity p)"
  by (simp add: read_json_file_def ev_host_def read_json_def identity_holds_def ev_identity_def)

lemma ev_wf: "wf_key (ev_key fork)"
  by (cases fork) (simp_all add: wf_key_def ev_key_def runtime_hash_def is_hash_zero tagged_hash_def is_hash_example hex_char_def del: replicate.simps)

text \<open>The texts are canonical, and the value of each reads back.\<close>

lemma ev_sorted_text:
  assumes "ev_loads t = Inr (sort_keys (JObj d))" and "canonical_payload (JObj d) = Inr (JObj d)"
    and "ev_dumps (sort_keys (JObj d)) = t"
  shows "canonical_text ev_loads ev_dumps (JStr t) = Inr t" and "ev_loads t = Inr v \<Longrightarrow> ev_loads (ev_dumps (sort_keys v)) = Inr (sort_keys v)"
proof -
  have "canonical_payload (sort_keys (JObj d)) = Inr (sort_keys (JObj d))" using assms(2) by (rule canonical_sort_keys)
  then have "canonical_json (sort_keys (JObj d)) = Inr (sort_keys (JObj d))" by (simp only: canonical_json_def rbind_Inr sort_keys_again)
  moreover have "\<exists>e. sort_keys (JObj d) = JObj e" by simp
  ultimately show "canonical_text ev_loads ev_dumps (JStr t) = Inr t" using assms(1,3) by (auto simp: canonical_text_def)
  show "ev_loads t = Inr v \<Longrightarrow> ev_loads (ev_dumps (sort_keys v)) = Inr (sort_keys v)"
    using assms(1,3) sort_keys_again [of "JObj d"] by auto
qed

lemma ev_dumps_sorted:
  assumes "distinct (map fst d)"
  shows "ev_dumps (sort_keys (JObj d)) =
    (let f = \<lambda>k. map_option sort_keys (map_of d k) in
     if f ''runtime_sha256'' = Some (JStr zero_hash) then ''I'' else if f ''runtime_sha256'' \<notin> {None, Some JNull} then ''J''
     else if f ''gpu_layers'' \<notin> {None, Some JNull} then ''S'' else if f ''decode_tps'' \<notin> {None, Some JNull} then ''M'' else ''V'')"
  using sorted_entries(1) [OF assms]
  by (cases "map_of d ''runtime_sha256''"; cases "map_of d ''gpu_layers''"; cases "map_of d ''decode_tps''")
    (simp_all add: ev_dumps_def jget_def dict_get_def)

lemma ev_text_docs:
  "\<exists>d. ev_loads ''I'' = Inr (sort_keys (JObj d)) \<and> canonical_payload (JObj d) = Inr (JObj d) \<and> ev_dumps (sort_keys (JObj d)) = ''I''"
  "\<exists>d. ev_loads ''J'' = Inr (sort_keys (JObj d)) \<and> canonical_payload (JObj d) = Inr (JObj d) \<and> ev_dumps (sort_keys (JObj d)) = ''J''"
  "\<exists>d. ev_loads ''S'' = Inr (sort_keys (JObj d)) \<and> canonical_payload (JObj d) = Inr (JObj d) \<and> ev_dumps (sort_keys (JObj d)) = ''S''"
  "\<exists>d. ev_loads ''M'' = Inr (sort_keys (JObj d)) \<and> canonical_payload (JObj d) = Inr (JObj d) \<and> ev_dumps (sort_keys (JObj d)) = ''M''"
  "\<exists>d. ev_loads ''V'' = Inr (sort_keys (JObj d)) \<and> canonical_payload (JObj d) = Inr (JObj d) \<and> ev_dumps (sort_keys (JObj d)) = ''V''"
proof -
  have ne: "tagged_hash CHR ''f'' \<noteq> zero_hash" by code_simp
  have c: "canonical_payload (identities_payload (ev_identities b)) = Inr (identities_payload (ev_identities b))" for b
    using canonical_example(1) by (auto simp: identities_payload_def ev_identities_def example_identities_def rbind_eq_Inr)
  have i: "\<exists>d. identities_payload (ev_identities b) = JObj d \<and> distinct (map fst d)
     \<and> map_of d ''runtime_sha256'' = Some (JStr (runtime_hash b))" for b
    by (simp add: identities_payload_def ev_identities_def)
  show "\<exists>d. ev_loads ''I'' = Inr (sort_keys (JObj d)) \<and> canonical_payload (JObj d) = Inr (JObj d) \<and> ev_dumps (sort_keys (JObj d)) = ''I''"
  proof -
    obtain d where "identities_payload (ev_identities False) = JObj d" "distinct (map fst d)" "map_of d ''runtime_sha256'' = Some (JStr zero_hash)"
      using i [of False] by (auto simp: runtime_hash_def)
    then show ?thesis using c [of False] ev_dumps_sorted [of d] by (intro exI [of _ d]) (simp add: ev_loads_def ev_texts_def Let_def del: sort_keys.simps(1,2))
  qed
  show "\<exists>d. ev_loads ''J'' = Inr (sort_keys (JObj d)) \<and> canonical_payload (JObj d) = Inr (JObj d) \<and> ev_dumps (sort_keys (JObj d)) = ''J''"
  proof -
    obtain d where "identities_payload (ev_identities True) = JObj d" "distinct (map fst d)"
        "map_of d ''runtime_sha256'' = Some (JStr (tagged_hash CHR ''f''))"
      using i [of True] by (auto simp: runtime_hash_def)
    then show ?thesis using c [of True] ev_dumps_sorted [of d] ne by (intro exI [of _ d]) (simp add: ev_loads_def ev_texts_def Let_def del: sort_keys.simps(1,2))
  qed
  show "\<exists>d. ev_loads ''S'' = Inr (sort_keys (JObj d)) \<and> canonical_payload (JObj d) = Inr (JObj d) \<and> ev_dumps (sort_keys (JObj d)) = ''S''"
  proof -
    have c: "canonical_payload (settings_payload example_settings) = Inr (settings_payload example_settings)" by (rule canonical_example)
    obtain d where "settings_payload example_settings = JObj d" "distinct (map fst d)" "map_of d ''runtime_sha256'' = None"
        "map_of d ''gpu_layers'' = Some (JInt 99)"
      by (simp add: settings_payload_def example_settings_def)
    then show ?thesis using c ev_dumps_sorted [of d] by (intro exI [of _ d]) (simp add: ev_loads_def ev_texts_def Let_def del: sort_keys.simps(1,2))
  qed
  show "\<exists>d. ev_loads ''M'' = Inr (sort_keys (JObj d)) \<and> canonical_payload (JObj d) = Inr (JObj d) \<and> ev_dumps (sort_keys (JObj d)) = ''M''"
    by (intro exI [of _ "[(''decode_tps'', JInt 1)]"]) (simp add: ev_loads_def ev_texts_def ev_dumps_def jget_def dict_get_def)
  show "\<exists>d. ev_loads ''V'' = Inr (sort_keys (JObj d)) \<and> canonical_payload (JObj d) = Inr (JObj d) \<and> ev_dumps (sort_keys (JObj d)) = ''V''"
  proof -
    let ?d = "[(''cleanup'', JBool True), (''exact_tokens'', JBool True), (''memory'', JBool True)]"
    have "sort_keys (JObj ?d) = JObj ?d" by code_simp
    then show ?thesis by (intro exI [of _ ?d]) (simp add: ev_loads_def ev_texts_def ev_dumps_def jget_def dict_get_def Let_def del: sort_keys.simps(1,2))
  qed
qed

lemma ev_canonical_texts:
  "canonical_text ev_loads ev_dumps (JStr ''I'') = Inr ''I''" "canonical_text ev_loads ev_dumps (JStr ''J'') = Inr ''J''"
  "canonical_text ev_loads ev_dumps (JStr ''S'') = Inr ''S''" "canonical_text ev_loads ev_dumps (JStr ''M'') = Inr ''M''"
  "canonical_text ev_loads ev_dumps (JStr ''V'') = Inr ''V''"
  using ev_text_docs ev_sorted_text(1) by blast+

lemma ev_read_back:
  "t \<in> {''I'', ''J'', ''S'', ''M'', ''V''} \<Longrightarrow> ev_loads t = Inr v \<Longrightarrow> ev_loads (ev_dumps (sort_keys v)) = Inr (sort_keys v)"
  using ev_text_docs ev_sorted_text(2) by blast

lemma ev_again_any:
  "replace_record ev_loads ev_dumps ((ev_submitted tag fork comparisons)\<lparr>mr_measurement_id := a, mr_owned_run_sha256 := b\<rparr>)
    = Inr ((ev_submitted tag fork comparisons)\<lparr>mr_measurement_id := a, mr_owned_run_sha256 := b\<rparr>)"
proof -
  note t = ev_canonical_texts
  have z: "is_text zero_hash" by code_simp
  show ?thesis unfolding replace_record_iff
    by (cases fork) (simp_all add: ev_submitted_def t z, simp_all add: is_text_def py_isspace_def NUMERICAL_PATHS_def ev_roles_def)
qed

lemma ev_again: "replace_record ev_loads ev_dumps (ev_stored tag fork comparisons) = Inr (ev_stored tag fork comparisons)"
  using ev_again_any by (simp add: ev_stored_def)

lemma ev_payload: "canonical_payload (record_payload (ev_stored tag fork comparisons)) = Inr (record_payload (ev_stored tag fork comparisons))"
proof -
  have "rmap canonical_payload (map JStr cs) = Inr (map JStr cs)" for cs by (induction cs) simp_all
  then show ?thesis
  by (simp add: record_payload_def record_fields_def key_fields_def ev_stored_def ev_submitted_def evidence_artifact_payload_def artifact_payload_def
     ev_roles_def)
qed

lemma ev_digest_plain: "jget d ''pid'' = JNull \<Longrightarrow> jget d ''manifest_json'' = JNull \<Longrightarrow> ev_digest (JObj d) = zero_hash"
  by (simp add: ev_digest_def)

lemma ev_digest_record: "ev_digest (sort_keys (record_payload m)) = zero_hash"
proof -
  let ?P = "[(''key'', JObj (key_fields (mr_key m))), (''artifacts'', JArr (map evidence_artifact_payload (mr_artifacts m)))] @ record_fields m"
  have d: "distinct (map fst ?P)" by (simp add: record_fields_def)
  have "sort_keys (record_payload m) = JObj (sort_key fst (map (\<lambda>(k, v). (k, sort_keys v)) ?P))" by (simp add: record_payload_def)
  also have "ev_digest \<dots> = zero_hash"
    by (rule ev_digest_plain; unfold jget_def dict_get_def sorted_entries(1) [OF d]) (simp_all add: record_fields_def)
  finally show ?thesis .
qed

lemma ev_measurement:
  assumes "tag \<noteq> []" "is_text tag"
  shows "decode_row ev_world (ev_row tag fork comparisons) = Inr (ev_stored tag fork comparisons)"
proof (rule decode_row_again [where h = zero_hash])
  show "replace_record (eh_loads ev_world) (eh_dumps ev_world) (ev_stored tag fork comparisons) = Inr (ev_stored tag fork comparisons)"
    using ev_again by (simp add: ev_world_def)
  show "wf_key (mr_key (ev_stored tag fork comparisons))" using ev_wf by (simp add: ev_stored_def ev_submitted_def)
  show "\<forall>a \<in> set (mr_artifacts (ev_stored tag fork comparisons)). wf_evidence_artifact a"
    using assms by (auto simp: ev_stored_def ev_submitted_def ev_roles_def wf_evidence_artifact_def ev_identity_def is_hash_zero
      is_text_def py_isspace_def)
  show "canonical_payload (record_payload (ev_stored tag fork comparisons)) = Inr (record_payload (ev_stored tag fork comparisons))"
    by (rule ev_payload)
  show "canonical_sha256 (eh_digest ev_world) (record_payload (ev_stored tag fork comparisons)) = Inr zero_hash"
    unfolding canonical_sha256_def ev_payload rbind_Inr ev_world_def evidence_host.select_convs
    by (simp only: ev_digest_record)
qed (simp_all add: ev_stored_def ev_submitted_def ev_row_def)

lemma ev_native:
  assumes "(tag, pid) \<in> set ev_runs"
  shows "native_artifacts ev_world (ev_stored tag fork comparisons) = Inr [(''completion'', ev_completion), (''tokenize'', ev_tokenize),
     (''tokenize-request'', [(''content'', JStr ''p''), (''add_special'', JBool True)]), (''request'', request_controls example_workload_ir [JInt 3]),
     (''completion-wall'', ev_wall), (''launch'', ev_launch fork), (''run-start'', ev_start tag pid), (''process'', ev_process tag pid),
     (''memory'', ev_memory pid)]"
    and "verify_artifacts ev_host (ev_stored tag fork comparisons) = Inr ()"
proof -
  let ?f = "map_of (ev_docs @ concat (map ev_run_docs ev_runs))"
  have docs: "?f ''C'' = Some ev_completion" "?f ''T'' = Some ev_tokenize" "?f ''W'' = Some ev_wall" "?f ''L'' = Some (ev_launch False)"
     "?f ''K'' = Some (ev_launch True)" "?f ''Q'' = Some [(''content'', JStr ''p''), (''add_special'', JBool True)]"
     "?f ''R'' = Some (request_controls example_workload_ir [JInt 3])"
    by (simp_all add: ev_docs_def)
  have run: "?f (CHR ''s'' # tag) = Some (ev_start tag pid)" "?f (CHR ''e'' # tag) = Some (ev_process tag pid)" "?f (CHR ''m'' # tag) = Some (ev_memory pid)"
    using assms by (auto simp: ev_docs_def ev_run_docs_def ev_runs_def)
  note all = docs [THEN ev_doc, simplified] run [THEN ev_doc, simplified]
  show "native_artifacts ev_world (ev_stored tag fork comparisons) = Inr [(''completion'', ev_completion), (''tokenize'', ev_tokenize),
     (''tokenize-request'', [(''content'', JStr ''p''), (''add_special'', JBool True)]), (''request'', request_controls example_workload_ir [JInt 3]),
     (''completion-wall'', ev_wall), (''launch'', ev_launch fork), (''run-start'', ev_start tag pid), (''process'', ev_process tag pid),
     (''memory'', ev_memory pid)]"
    by (cases fork) (auto simp: native_artifacts_def ev_stored_def ev_submitted_def ev_roles_def NATIVE_ROLES_def ev_world_def all ev_identity_def)
  show "verify_artifacts ev_host (ev_stored tag fork comparisons) = Inr ()"
    by (cases fork) (simp_all add: verify_artifacts_def ev_stored_def ev_submitted_def ev_roles_def all)
qed

lemma record_candidate_cong:
  "mr_identities_json m = mr_identities_json m' \<Longrightarrow> mr_settings_json m = mr_settings_json m' \<Longrightarrow> mr_key m = mr_key m' \<Longrightarrow>
    mr_candidate_id m = mr_candidate_id m' \<Longrightarrow> record_candidate x m = record_candidate x m'"
  by (simp add: record_candidate_def cong: if_cong)

lemma ev_record_candidate: "record_candidate ev_world (ev_stored tag fork comparisons) = Inr (ev_candidate fork)"
proof -
  have "record_candidate ev_world (ev_stored ''1'' b []) = Inr (ev_candidate b)" for b
    by (cases b; simp only:; code_simp)
  moreover have "record_candidate ev_world (ev_stored tag fork comparisons) = record_candidate ev_world (ev_stored ''1'' fork [])"
    by (rule record_candidate_cong) (simp_all add: ev_stored_def ev_submitted_def)
  ultimately show ?thesis by simp
qed

lemma ev_binding_of_json: "binding_of_json (binding_payload (ev_binding fork)) = Inr (ev_binding fork)"
  by (cases fork; simp only:; code_simp)

lemma ev_binding_sha256: "binding_sha256 ev_digest (ev_binding fork) = Inr (runtime_hash fork)"
  by (cases fork; simp only:; code_simp)

lemma ev_is_fork: "is_fork ev_world (ev_binding fork) = Inr fork"
  by (cases fork; simp only:; code_simp)

lemma ev_binding_verify: "binding_verify ev_host (ev_binding fork) = Inr ()"
  by (simp add: binding_verify_def binding_identities_def ev_binding_def identity_holds_def ev_host_def ev_identity_def)

lemma ev_verified_binding:
  "verified_binding ev_world (ev_stored tag fork comparisons) (ev_identities fork) (ev_launch fork) = Inr (ev_binding fork)"
proof -
  have "dict_index (ev_launch fork) ''runtime_binding'' = Inr (binding_payload (ev_binding fork))"
    by (simp add: ev_launch_def dict_index_def)
  moreover have "pi_runtime_sha256 (ev_identities fork) = runtime_hash fork" by (simp add: ev_identities_def)
  moreover have "(mr_numerical_path (ev_stored tag fork comparisons) = ''fork_off_vs_pristine'') = fork"
    by (simp add: ev_stored_def ev_submitted_def)
  ultimately show ?thesis
    using ev_binding_of_json ev_binding_sha256 ev_is_fork ev_binding_verify
    by (simp add: verified_binding_def ev_world_def)
qed

lemma ev_launch_model: "launch_model ev_world (ev_identities fork) (ev_launch fork) = Inr ev_model"
proof -
  have "model_of_json (model_payload ev_model) = Inr ev_model" by code_simp
  moreover have "canonical_sha256 ev_digest (model_payload ev_model) = Inr zero_hash" by code_simp
  moreover have "dict_index (ev_launch fork) ''model_ir'' = Inr (model_payload ev_model)" by (simp add: ev_launch_def dict_index_def)
  moreover have "pi_model_sha256 (ev_identities fork) = zero_hash" by (simp add: ev_identities_def example_identities_def)
  ultimately show ?thesis by (simp add: launch_model_def ev_world_def)
qed

lemma ev_candidate_id: "candidate_id ev_digest (ev_candidate fork) = Inr zero_hash"
  by (cases fork; simp only:; code_simp)

lemma ev_settings_sha256: "canonical_sha256 ev_digest (settings_payload example_settings) = Inr zero_hash"
  by code_simp

lemma ev_launch_fields: "check_launch_fields ev_digest (ev_candidate fork) (ev_launch fork) = Inr ()"
proof -
  have "launch_expectations ev_digest (ev_candidate fork) = Inr [(''candidate_id'', zero_hash), (''settings_sha256'', zero_hash),
     (''runtime_sha256'', runtime_hash fork), (''model_sha256'', zero_hash), (''workload_sha256'', zero_hash)]"
    using ev_settings_sha256
    by (simp add: launch_expectations_def ev_candidate_id Let_def) (simp add: ev_candidate_def ev_identities_def example_identities_def)
  then show ?thesis by (simp add: check_launch_fields_def ev_launch_def)
qed

text \<open>The measurement of a run, opened.\<close>

definition ev_opened :: "string \<Rightarrow> int \<Rightarrow> bool \<Rightarrow> string list \<Rightarrow> opened_run" where
  "ev_opened tag pid fork comparisons = \<lparr>op_record = ev_stored tag fork comparisons,
     op_artifacts = [(''completion'', ev_completion), (''tokenize'', ev_tokenize),
     (''tokenize-request'', [(''content'', JStr ''p''), (''add_special'', JBool True)]), (''request'', request_controls example_workload_ir [JInt 3]),
     (''completion-wall'', ev_wall), (''launch'', ev_launch fork), (''run-start'', ev_start tag pid), (''process'', ev_process tag pid),
     (''memory'', ev_memory pid)], op_candidate = ev_candidate fork, op_binding = ev_binding fork, op_model = ev_model\<rparr>"

lemma ev_open:
  assumes "measurement ev_world db mid = Inr (ev_stored tag fork comparisons)" and "(tag, pid) \<in> set ev_runs"
  shows "open_measurement ev_world db mid = Inr (ev_opened tag pid fork comparisons)"
proof -
  have "cp_identities (ev_candidate fork) = ev_identities fork" by (simp add: ev_candidate_def)
  moreover have "eh_host ev_world = ev_host" "eh_digest ev_world = ev_digest" by (simp_all add: ev_world_def)
  ultimately show ?thesis
    using ev_native [OF assms(2), of fork comparisons]
    by (simp add: open_measurement_def assms(1) ev_record_candidate Let_def dict_get_def ev_verified_binding ev_launch_model
        ev_launch_fields ev_opened_def)
qed

lemma ev_check_launch: "check_launch ev_world (ev_candidate fork) (ev_identity ''w'') (ev_binding fork) (ev_launch fork) = Inr ()"
  by (cases fork; simp only:; code_simp)

lemma ev_check_wall: "wall_milliseconds ev_wall = Inr (JFloat (Fin 1))"
proof -
  have ints: "rmap (\<lambda>k. require_int (jget ev_wall k) k 1) [''started_monotonic_ns'', ''finished_monotonic_ns''] = Inr [1, 1000001]"
    by (simp add: ev_wall_def require_int_def)
  have elapsed: "num_div (JInt (the_int (jget ev_wall ''finished_monotonic_ns'') - the_int (jget ev_wall ''started_monotonic_ns''))) MILLION
      = Inr (JFloat (Fin 1))"
    using dbl_int [of 1000000]
    by (simp add: ev_wall_def the_int_def MILLION_def num_div_def num_op_def json_float_def float_of_int_def fdiv_def)
  have reported: "require_number (jget ev_wall ''elapsed_ms'') ''completion wall milliseconds'' MICRO = Inr (JInt 1)"
    by (simp add: ev_wall_def require_number_def valid_number_int)
  have difference: "num_sub (JInt 1) (JFloat (Fin 1)) = Inr (JFloat (Fin 0))"
    by (simp add: num_sub_def num_op_def json_float_def float_of_int_def fsub_def)
  obtain q where q: "MICRO = Fin q" "0 < q" using MICRO_pos by blast
  have "\<not> num_less (JFloat MICRO) (num_abs (JFloat (Fin 0)))"
    using q(2) by (simp add: q(1) num_less_def num_val_def exact_num_def num_abs_def fabs_def py_less_def)
  then show ?thesis unfolding wall_milliseconds_def ints rbind_Inr elapsed reported difference by simp
qed

lemma ev_check_tps: "native_tps example_workload_ir ev_completion [JInt 5, JInt 6, JInt 7, JInt 8] = Inr (JFloat (Fin 1))"
proof -
  have "valid_number (JInt 4000) MICRO" by (rule valid_number_int) simp_all
  moreover have "num_div (JInt 4000) (JInt 4000) = Inr (JFloat (Fin 1))" by (simp add: num_div_def num_op_def int_truediv_def)
  ultimately show ?thesis
    by (simp add: native_tps_def ev_completion_def dict_get_def as_record_def require_int_def require_number_def example_workload_ir_def)
qed

lemma NANO_pos: "\<exists>q. NANO = JFloat (Fin q) \<and> 0 \<le> q"
  by (rule dbl_unit_interval [of "1 / 10 ^ 9"]) (auto simp: NANO_def)

lemma ev_check_reported: "check_reported_tps (JFloat (Fin 1)) (JObj [(''decode_tps'', JInt 1)]) = Inr ()"
proof -
  have reported: "require_number (JInt 1) ''recorded TPS'' MICRO = Inr (JInt 1)" by (simp add: require_number_def valid_number_int)
  have difference: "num_sub (JFloat (Fin 1)) (JInt 1) = Inr (JFloat (Fin 0))"
    by (simp add: num_sub_def num_op_def json_float_def float_of_int_def fsub_def)
  have larger: "num_max (JInt 1) (JFloat (Fin 1)) = JInt 1"
    by (simp add: num_max_def num_less_def num_val_def exact_num_def py_less_def)
  obtain q where q: "NANO = JFloat (Fin q)" "0 \<le> q" using NANO_pos by blast
  have "dbl q \<noteq> NInf \<and> Fin 0 \<le> dbl q" using dbl_mono [OF q(2)] by (auto simp: less_eq_pyfloat_def)
  then have "\<exists>b. num_mul NANO (JInt 1) = Inr (JFloat b) \<and> py_le (Fin 0) b"
    by (auto simp: q(1) num_mul_def num_op_def json_float_def float_of_int_def fmul_def py_le_def)
  then obtain b where b: "num_mul NANO (JInt 1) = Inr (JFloat b)" "py_le (Fin 0) b" by blast
  have "num_le (num_abs (JFloat (Fin 0))) (JFloat b)" using b(2) by (simp add: num_le_def num_val_def exact_num_def num_abs_def fabs_def)
  then show ?thesis by (simp add: check_reported_tps_def as_record_def reported difference larger b(1))
qed

lemma ev_owned:
  assumes "(tag, pid) \<in> set ev_runs"
  shows "owned_run ev_world (ev_submitted tag fork comparisons) = Inr (tagged_hash (hd tag))"
proof -
  have "map_of (ev_docs @ concat (map ev_run_docs ev_runs)) (CHR ''s'' # tag) = Some (ev_start tag pid)"
    using assms by (auto simp: ev_docs_def ev_run_docs_def ev_runs_def)
  then have doc: "read_json_file ev_host (CHR ''s'' # tag) = Inr (ev_start tag pid)" by (rule ev_doc [THEN conjunct1]) simp
  have "canonical_sha256 ev_digest (JObj (map (\<lambda>k. (k, jget (ev_start tag pid) k)) [''pid'', ''creation_time_100ns'', ''creation_source'']))
      = Inr (tagged_hash (hd tag))"
    using assms by (auto simp: ev_runs_def ev_start_def; code_simp)
  moreover have "1 \<le> pid" "is_text tag" using assms by (auto simp: ev_runs_def is_text_def py_isspace_def)
  ultimately show ?thesis
    by (simp add: owned_run_def artifact_path_def ev_submitted_def ev_roles_def ev_identity_def ev_world_def doc)
      (simp add: ev_start_def require_int_def require_text_def in_strings_def unhashable_def)
qed

lemma ev_check_process:
  assumes "(tag, pid) \<in> set ev_runs"
  shows "check_process (ev_stored tag fork comparisons) (tagged_hash (hd tag)) (ev_start tag pid) (ev_process tag pid) = Inr pid"
proof -
  have "1 \<le> pid" using assms by (auto simp: ev_runs_def)
  then show ?thesis by (simp add: check_process_def ev_stored_def ev_submitted_def ev_start_def ev_process_def require_int_def exact_num_def py_eq_def)
qed

lemma ev_check_memory: "check_memory (reserve_bytes example_workload_ir) pid (ev_process tag pid) (ev_memory pid) = Inr ()"
  by (simp add: check_memory_def ev_memory_def nonempty_array_def check_observation_def check_sample_def as_record_def ev_reading_def
      unknown_observation_def in_strings_def unhashable_def check_reading_def require_int_def reserve_bytes_def example_workload_ir_def
      settled_def ev_process_def truthy_def exact_num_def py_eq_def)

definition ev_checked :: "string \<Rightarrow> checked_run" where
  "ev_checked tag = \<lparr>ck_tokens = [JInt 5, JInt 6, JInt 7, JInt 8], ck_prompt_tokens = [JInt 3], ck_tps = JFloat (Fin 1),
     ck_elapsed = JFloat (Fin 1), ck_owned = tagged_hash (hd tag)\<rparr>"

lemma ev_check:
  assumes "(tag, pid) \<in> set ev_runs"
  shows "check_measurement ev_world (ev_opened tag pid fork comparisons) = Inr (ev_checked tag)"
proof -
  let ?r = "ev_opened tag pid fork comparisons"
  have r: "op_record ?r = ev_stored tag fork comparisons" "op_candidate ?r = ev_candidate fork" "op_binding ?r = ev_binding fork"
      "md_identity (op_model ?r) = ev_identity ''w''"
      "pi_workload (cp_identities (ev_candidate fork)) = example_workload_ir" "rs_static (cp_settings (ev_candidate fork)) = None"
    by (simp_all add: ev_opened_def ev_model_def ev_candidate_def ev_identities_def example_identities_def example_settings_def)
  have a: "artifact_of ?r ''launch'' = ev_launch fork" "artifact_of ?r ''completion'' = ev_completion" "artifact_of ?r ''tokenize'' = ev_tokenize"
      "artifact_of ?r ''completion-wall'' = ev_wall" "artifact_of ?r ''process'' = ev_process tag pid" "artifact_of ?r ''run-start'' = ev_start tag pid"
      "artifact_of ?r ''memory'' = ev_memory pid" "artifact_of ?r ''request'' = request_controls example_workload_ir [JInt 3]"
      "artifact_of ?r ''tokenize-request'' = [(''content'', JStr ''p''), (''add_special'', JBool True)]"
    by (simp_all add: artifact_of_def ev_opened_def dict_get_def)
  have t: "native_tokens (jget ev_completion ''tokens'') = Inr [JInt 5, JInt 6, JInt 7, JInt 8]" "native_tokens (jget ev_tokenize ''tokens'') = Inr [JInt 3]"
    by (simp_all add: native_tokens_def ev_completion_def ev_tokenize_def)
  have q: "jeq (JObj [(''content'', JStr ''p''), (''add_special'', JBool True)]) (token_input example_workload_ir)"
      "\<not> list_ex (\<lambda>(k, v). \<not> jeq (jget (request_controls example_workload_ir [JInt 3]) k) v) (request_controls example_workload_ir [JInt 3])"
    by code_simp+
  have own: "owned_run ev_world (ev_stored tag fork comparisons) = Inr (tagged_hash (hd tag))"
    using ev_owned [OF assms] by (simp add: ev_stored_def owned_run_def artifact_path_def)
  have m: "mr_metrics_json (ev_stored tag fork comparisons) = ''M''" "eh_loads ev_world ''M'' = Inr (JObj [(''decode_tps'', JInt 1)])"
      "mr_numerical_path (ev_stored tag fork comparisons) \<noteq> ''numerical_path_change''"
    by (simp_all add: ev_stored_def ev_submitted_def ev_world_def ev_loads_def ev_texts_def)
  show ?thesis
    unfolding check_measurement_def Let_def r a ev_check_launch rbind_Inr ev_check_wall t ev_check_tps m ev_check_reported own
      ev_check_process [OF assms] ev_check_memory
    using q m(3) by (simp add: ev_checked_def)
qed

end
