(* ===== verification/Evidence_Witness.thy ===== *)
theory Evidence_Witness
  imports Evidence_History Evidence_Example
begin

text \<open>
  The properties of the evidence store at a concrete store: its four measurements verify, the fork's
  against the first of the pristine runtime, and the three pristine ones can be imported, selected
  and sealed.
\<close>

section \<open>The example store verifies\<close>

definition ev_result :: "string \<Rightarrow> bool \<Rightarrow> jrecord" where
  "ev_result tag fork = [(''candidate_id'', JStr zero_hash), (''identities'', identities_payload (ev_identities fork)),
     (''settings_sha256'', JStr zero_hash),
     (''validations'', JObj [(''cleanup'', JBool True), (''exact_tokens'', JBool True), (''memory'', JBool True)]),
     (''exit_code'', JInt 0), (''measured'', JBool True), (''stage'', JStr ''stock''), (''decode_tps'', JFloat (Fin 1)),
     (''generated_tokens_sha256'', JStr zero_hash), (''prompt_tokens_sha256'', JStr zero_hash),
     (''numerical_path'', JStr (if fork then ''fork_off_vs_pristine'' else ''stock_same_runtime'')),
     (''owned_run_sha256'', JStr (tagged_hash (hd tag))), (''completion_wall_ms'', JFloat (Fin 1))]"

lemma ev_verified_result: "verified_result ev_world (ev_opened tag pid fork comparisons) (ev_checked tag) = Inr (ev_result tag fork)"
proof -
  have i: "canonical_payload (identities_payload (ev_identities fork)) = Inr (identities_payload (ev_identities fork))"
    by (cases fork; simp only:; code_simp)
  have t: "canonical_sha256 ev_digest (JArr (ck_tokens (ev_checked tag))) = Inr zero_hash"
      "canonical_sha256 ev_digest (JArr (ck_prompt_tokens (ev_checked tag))) = Inr zero_hash"
    by (simp_all add: ev_checked_def canonical_sha256_def ev_digest_def)
  have w: "eh_digest ev_world = ev_digest" "eh_loads ev_world ''V'' = Inr (JObj [(''cleanup'', JBool True), (''exact_tokens'', JBool True), (''memory'', JBool True)])"
    by (simp_all add: ev_world_def ev_loads_def ev_texts_def)
  have r: "op_record (ev_opened tag pid fork comparisons) = ev_stored tag fork comparisons" "op_candidate (ev_opened tag pid fork comparisons) = ev_candidate fork"
      "cp_identities (ev_candidate fork) = ev_identities fork" "cp_settings (ev_candidate fork) = example_settings"
      "mr_validation_json (ev_stored tag fork comparisons) = ''V''"
    by (simp_all add: ev_opened_def ev_candidate_def ev_stored_def ev_submitted_def)
  show ?thesis
    unfolding verified_result_def Let_def r w rbind_Inr i t ev_settings_sha256
    by (simp add: as_record_def ev_result_def ev_checked_def ev_stored_def ev_submitted_def)
qed

lemma ev_stored_measurement:
  assumes "(tag, fork, comparisons) \<in> {(''1'', False, []), (''2'', False, []), (''3'', False, []), (''4'', True, [''1''])}"
  shows "measurement ev_world ev_store tag = Inr (ev_stored tag fork comparisons)"
proof -
  have "find (\<lambda>row. ro_id row = tag) (es_measurement ev_store) = Some (ev_row tag fork comparisons)"
    using assms by (auto simp: ev_store_def ev_row_def)
  moreover have "tag \<noteq> []" "is_text tag" using assms by (auto simp: is_text_def py_isspace_def)
  ultimately show ?thesis using ev_measurement by (simp add: measurement_def)
qed

definition ev_primed :: primed where
  "ev_primed = {(ev_identity ''w'', 0, 0)}"

lemma ev_prime: "primed \<subseteq> ev_primed \<Longrightarrow> prime_model ev_host primed (ev_identity ''w'') = (ev_primed, Inr ())"
  by (auto simp: prime_model_def ev_host_def ev_identity_def ev_primed_def Let_def)

lemma ev_verify_stock_in:
  assumes "measurement ev_world db tag = Inr (ev_stored tag False [])" and run: "(tag, pid) \<in> set ev_runs"
    and "tag \<notin> seen" and "primed \<subseteq> ev_primed"
  shows "verify_measurement ev_world db seen primed tag = (ev_primed, Inr (ev_result tag False))"
proof -
  have op: "open_measurement ev_world db tag = Inr (ev_opened tag pid False [])" using assms(1) run by (rule ev_open)
  have "md_identity (op_model (ev_opened tag pid False [])) = ev_identity ''w''" "eh_host ev_world = ev_host"
      "mr_numerical_path (op_record (ev_opened tag pid False [])) \<noteq> ''fork_off_vs_pristine''"
    by (simp_all add: ev_opened_def ev_model_def ev_world_def ev_stored_def ev_submitted_def)
  then show ?thesis
    using op ev_prime [OF assms(4)] ev_check [OF run] assms(3)
    by (simp add: verify_measurement.simps [of ev_world db seen primed tag] compare_pristine_def ev_verified_result)
qed

lemma ev_verify_stock:
  assumes "(tag, pid) \<in> {(''1'', 1 :: int), (''2'', 2), (''3'', 3)}" and "tag \<notin> seen" and "primed \<subseteq> ev_primed"
  shows "verify_measurement ev_world ev_store seen primed tag = (ev_primed, Inr (ev_result tag False))"
proof (rule ev_verify_stock_in [OF _ _ assms(2,3)])
  show "measurement ev_world ev_store tag = Inr (ev_stored tag False [])" using assms(1) by (intro ev_stored_measurement) auto
  show "(tag, pid) \<in> set ev_runs" using assms(1) by (auto simp: ev_runs_def)
qed

lemma ev_verify_fork: "verify_measurement ev_world ev_store {} {} ''4'' = (ev_primed, Inr (ev_result ''4'' True))"
proof -
  let ?r = "ev_opened ''4'' 4 True [''1'']"
  have "measurement ev_world ev_store ''4'' = Inr (ev_stored ''4'' True [''1''])" by (intro ev_stored_measurement) simp
  moreover have run: "(''4'', 4) \<in> set ev_runs" by (simp add: ev_runs_def)
  ultimately have op: "open_measurement ev_world ev_store ''4'' = Inr ?r" by (rule ev_open)
  have r: "md_identity (op_model ?r) = ev_identity ''w''" "eh_host ev_world = ev_host"
      "mr_numerical_path (op_record ?r) = ''fork_off_vs_pristine''" "mr_comparison_ids (op_record ?r) = [''1'']"
    by (simp_all add: ev_opened_def ev_model_def ev_world_def ev_stored_def ev_submitted_def)
  have fails: "comparison_fails ev_world ?r (ev_checked ''4'') (ev_result ''1'' False) = Inr False"
  proof -
    have j: "mr_identities_json (op_record ?r) = ''J''" "eh_loads ev_world ''J'' = Inr (sort_keys (identities_payload (ev_identities True)))"
        "eh_digest ev_world = ev_digest"
      by (simp_all add: ev_opened_def ev_stored_def ev_submitted_def ev_world_def ev_loads_def ev_texts_def)
    have t: "canonical_sha256 ev_digest (JArr (ck_tokens (ev_checked ''4''))) = Inr zero_hash"
        "canonical_sha256 ev_digest (JArr (ck_prompt_tokens (ev_checked ''4''))) = Inr zero_hash"
      by (simp_all add: ev_checked_def canonical_sha256_def ev_digest_def)
    have g: "jget (ev_result ''1'' False) ''identities'' = identities_payload (ev_identities False)"
        "jget (ev_result ''1'' False) ''numerical_path'' = JStr ''stock_same_runtime''"
        "jget (ev_result ''1'' False) ''generated_tokens_sha256'' = JStr zero_hash"
        "jget (ev_result ''1'' False) ''prompt_tokens_sha256'' = JStr zero_hash"
        "pi_runtime_sha256 (cp_identities (op_candidate ?r)) = tagged_hash CHR ''f''"
      by (simp_all add: ev_result_def ev_opened_def ev_candidate_def ev_identities_def runtime_hash_def)
    have h: "zero_hash \<noteq> tagged_hash CHR ''f''" by code_simp
    obtain b where b: "identities_payload (ev_identities False) = JObj b" "jget b ''runtime_sha256'' = JStr zero_hash"
        "jget b ''model_sha256'' = JStr zero_hash" "jget b ''hardware_sha256'' = JStr zero_hash" "jget b ''workload_sha256'' = JStr zero_hash"
      by (simp add: identities_payload_def ev_identities_def example_identities_def runtime_hash_def)
    obtain own where own: "sort_keys (identities_payload (ev_identities True)) = JObj own" "jget own ''model_sha256'' = JStr zero_hash"
        "jget own ''hardware_sha256'' = JStr zero_hash" "jget own ''workload_sha256'' = JStr zero_hash"
      by (simp add: identities_payload_def ev_identities_def example_identities_def)
    show ?thesis
      unfolding comparison_fails_def g(1) b(1) j rbind_Inr own(1) t as_record_def json.case unpack_def
      using b own g h by simp
  qed
  have "compare_pristine (verify_measurement ev_world ev_store {''4''}) ev_world ?r (ev_checked ''4'') ev_primed = (ev_primed, Inr ())"
    using ev_verify_stock [of "''1''" 1 "{''4''}" ev_primed] by (simp add: compare_pristine_def r compare_all_def fails)
  then show ?thesis
    using op ev_prime [of "{}"] ev_check [OF run] r
    by (simp add: verify_measurement.simps [of ev_world ev_store "{}" "{}" "''4''"] ev_verified_result)
qed

section \<open>Witnesses\<close>

theorem session_cache_transparent_witness:
  "session {} [(ev_world, ev_store, ''1''), (ev_world, ev_store, ''4'')] = [Inr (ev_result ''1'' False), Inr (ev_result ''4'' True)]"
proof -
  have "stamps_guard ((\<lambda>(x, db, mid). eh_host x) ` set [(ev_world, ev_store, ''1''), (ev_world, ev_store, ''4'')])"
    by (simp add: stamps_guard_def)
  from session_cache_transparent [OF this] show ?thesis
    using ev_verify_stock [of "''1''" 1 "{}" "{}"] ev_verify_fork by simp
qed

theorem verified_measurement_native_witness:
  "\<exists>m c arts. measurement ev_world ev_store ''1'' = Inr m \<and> record_candidate ev_world m = Inr c \<and> native_artifacts ev_world m = Inr arts
    \<and> native_run ev_world {} m c arts (ev_result ''1'' False)"
  by (rule verified_measurement_native [of ev_world ev_store "{}" "{}"]) (use ev_verify_stock [of "''1''" 1 "{}" "{}"] in simp)

theorem verified_fork_has_pristine_witness:
  "\<exists>m. measurement ev_world ev_store ''4'' = Inr m \<and> mr_comparison_ids m = [''1'']
    \<and> (\<exists>baseline. snd (verify_measurement ev_world ev_store {} {} ''1'') = Inr baseline \<and> pristine_match (ev_result ''4'' True) baseline)"
proof -
  have m: "measurement ev_world ev_store ''4'' = Inr (ev_stored ''4'' True [''1''])" by (intro ev_stored_measurement) simp
  have ids: "mr_comparison_ids (ev_stored ''4'' True [''1'']) = [''1'']" by (simp add: ev_stored_def ev_submitted_def)
  have "snd (verify_measurement ev_world ev_store {} {} ''4'') = Inr (ev_result ''4'' True)"
      "jget (ev_result ''4'' True) ''numerical_path'' = JStr ''fork_off_vs_pristine''"
    by (simp_all add: ev_verify_fork ev_result_def)
  from verified_fork_has_pristine [OF this] show ?thesis using m ids by simp
qed

lemma ev_append:
  "append_measurement ev_world ''now'' fresh empty_store (ev_submitted ''1'' False []) ''1'' = Inr (''1'', \<lparr>es_measurement = [ev_row ''1'' False []],
     es_artifact = map (\<lambda>a. (''1'', ea_role a, sort_keys (evidence_artifact_payload a))) (mr_artifacts (ev_submitted ''1'' False [])),
     es_validation = [(''1'', ''cleanup'', True), (''1'', ''exact_tokens'', True), (''1'', ''memory'', True)]\<rparr>)"
proof -
  let ?m1 = "(ev_submitted ''1'' False [])\<lparr>mr_measurement_id := JStr ''1''\<rparr>"
  have w: "eh_loads ev_world = ev_loads" "eh_dumps ev_world = ev_dumps" "eh_digest ev_world = ev_digest" "eh_host ev_world = ev_host"
    by (simp_all add: ev_world_def)
  have mid: "require_text (JStr ''1'') ''measurement ID'' = Inr ''1''" by (simp add: require_text_ok is_text_def py_isspace_def)
  have r1: "replace_record ev_loads ev_dumps ?m1 = Inr ?m1"
    using ev_again_any [where tag = "''1''" and fork = False and comparisons = "[]" and a = "JStr ''1''" and b = "JStr []"]
    by (simp add: ev_submitted_def)
  have run: "(''1'', 1) \<in> set ev_runs" by (simp add: ev_runs_def)
  have files: "verify_artifacts ev_host ?m1 = Inr ()"
    using ev_native(2) [OF run, of False "[]"] by (simp add: verify_artifacts_def ev_stored_def)
  have owned: "owned_run ev_world ?m1 = Inr (tagged_hash CHR ''1'')"
    using ev_owned [OF run, of False "[]"] by (simp add: owned_run_def artifact_path_def)
  have r2: "replace_record ev_loads ev_dumps (?m1\<lparr>mr_owned_run_sha256 := JStr (tagged_hash CHR ''1'')\<rparr>) = Inr (ev_stored ''1'' False [])"
    using ev_again [of "''1''" False "[]"] by (simp add: ev_stored_def)
  have payload: "canonical_json (record_payload (ev_stored ''1'' False [])) = Inr (sort_keys (record_payload (ev_stored ''1'' False [])))"
    by (simp add: canonical_json_def ev_payload)
  have key: "canonical_sha256 ev_digest (JObj (key_fields (mr_key (ev_stored ''1'' False [])))) = Inr zero_hash" by code_simp
  have hash: "canonical_sha256 ev_digest (record_payload (ev_stored ''1'' False [])) = Inr zero_hash"
    by (simp add: canonical_sha256_def ev_payload ev_digest_record)
  have flags: "validation_rows ev_world (ev_stored ''1'' False []) = Inr [(''cleanup'', True), (''exact_tokens'', True), (''memory'', True)]"
    by (simp add: validation_rows_def w ev_stored_def ev_submitted_def ev_loads_def ev_texts_def as_record_def)
  have given: "(if ''1'' = [] then fresh else ''1'') = ''1''" by simp
  show ?thesis
    unfolding append_measurement_def given mid rbind_Inr w r1 files owned r2 payload key hash flags
    by (simp add: empty_store_def ev_row_def) (simp add: ev_stored_def)
qed

theorem append_then_measurement_witness:
  "\<exists>db'. append_measurement ev_world ''now'' [] empty_store (ev_submitted ''1'' False []) ''1'' = Inr (''1'', db')
    \<and> measurement ev_world db' ''1'' = Inr (ev_stored ''1'' False [])"
proof -
  have texts: "\<forall>t \<in> {mr_identities_json (ev_submitted ''1'' False []), mr_settings_json (ev_submitted ''1'' False []),
      mr_metrics_json (ev_submitted ''1'' False []), mr_validation_json (ev_submitted ''1'' False [])}. \<forall>v.
      eh_loads ev_world t = Inr v \<longrightarrow> eh_loads ev_world (eh_dumps ev_world (sort_keys v)) = Inr (sort_keys v)"
  proof -
    have "ev_loads t = Inr v \<Longrightarrow> t \<in> set [''I'', ''S'', ''M'', ''V''] \<Longrightarrow> ev_loads (ev_dumps (sort_keys v)) = Inr (sort_keys v)" for t v
      using ev_read_back by auto
    then show ?thesis by (simp add: ev_submitted_def ev_world_def)
  qed
  have key: "wf_key (mr_key (ev_submitted ''1'' False []))" using ev_wf by (simp add: ev_submitted_def)
  have files: "\<forall>a \<in> set (mr_artifacts (ev_submitted ''1'' False [])). wf_evidence_artifact a"
    by (auto simp: ev_submitted_def ev_roles_def wf_evidence_artifact_def ev_identity_def is_hash_zero is_text_def py_isspace_def)
  note canonical = ev_canonical_texts
  have owned: "owned_run ev_world (ev_submitted ''1'' False []) = Inr (tagged_hash CHR ''1'')"
    using ev_owned [of "''1''" 1] by (simp add: ev_runs_def)
  show ?thesis
    using append_then_measurement [OF ev_append key files texts] ev_append [of "[]"] owned canonical
    by (simp add: ev_world_def) (simp add: ev_stored_def ev_submitted_def)
qed

theorem store_append_only_witness:
  "\<exists>db. store_steps empty_store db \<and> store_wf db \<and> measurement ev_world db ''1'' = Inr (ev_stored ''1'' False [])"
proof -
  let ?db = "\<lparr>es_measurement = [ev_row ''1'' False []],
     es_artifact = map (\<lambda>a. (''1'', ea_role a, sort_keys (evidence_artifact_payload a))) (mr_artifacts (ev_submitted ''1'' False [])),
     es_validation = [(''1'', ''cleanup'', True), (''1'', ''exact_tokens'', True), (''1'', ''memory'', True)]\<rparr>"
  have "store_step empty_store ?db" using ev_append [of "[]"] by (rule store_step.append)
  then have steps: "store_steps empty_store ?db" by (rule r_into_rtranclp)
  have "measurement ev_world ?db ''1'' = Inr (ev_stored ''1'' False [])"
    using ev_measurement [of "''1''" False "[]"] by (simp add: measurement_def ev_row_def is_text_def py_isspace_def)
  then show ?thesis using store_append_only [OF steps rtranclp.rtrancl_refl] steps by (intro exI conjI) simp_all
qed

section \<open>Importing and sealing\<close>

text \<open>A store with the three measurements of the pristine runtime only.\<close>

definition ev_stock_store :: evidence_store where
  "ev_stock_store = \<lparr>es_measurement = [ev_row ''1'' False [], ev_row ''2'' False [], ev_row ''3'' False []], es_artifact = [], es_validation = []\<rparr>"

definition ev_stock :: stock_measurement where
  "ev_stock = \<lparr>sm_candidate = (ev_candidate False)\<lparr>cp_status := MEASURED, cp_measurement_ids := [''1'', ''2'', ''3'']\<rparr>,
     sm_measurement_ids = [''1'', ''2'', ''3''], sm_decode_tps = [JFloat (Fin 1), JFloat (Fin 1), JFloat (Fin 1)], sm_exact = True,
     sm_peak_bytes = JInt 9, sm_cleanup = True, sm_exit_code = 0, sm_status = ''measured'', sm_key_sha256 = zero_hash\<rparr>"

lemma ev_stock_measurement:
  "measurement ev_world ev_stock_store mid = Inr r \<Longrightarrow> mid \<in> {''1'', ''2'', ''3''} \<and> r = ev_stored mid False []"
  "mid \<in> {''1'', ''2'', ''3''} \<Longrightarrow> measurement ev_world ev_stock_store mid = Inr (ev_stored mid False [])"
proof -
  have rows: "decode_row ev_world (ev_row tag False []) = Inr (ev_stored tag False [])" if "tag \<in> {''1'', ''2'', ''3''}" for tag
    using that by (intro ev_measurement) (auto simp: is_text_def py_isspace_def)
  have id: "ro_id (ev_row tag False []) = tag" for tag by (simp add: ev_row_def)
  show "measurement ev_world ev_stock_store mid = Inr r \<Longrightarrow> mid \<in> {''1'', ''2'', ''3''} \<and> r = ev_stored mid False []"
    using rows by (auto simp: measurement_def ev_stock_store_def id split: if_splits)
  show "mid \<in> {''1'', ''2'', ''3''} \<Longrightarrow> measurement ev_world ev_stock_store mid = Inr (ev_stored mid False [])"
    using rows by (auto simp: measurement_def ev_stock_store_def id)
qed

lemma ev_store_verify: "mid \<in> {''1'', ''2'', ''3''} \<Longrightarrow> store_verify ev_world ev_stock_store mid = Inr (ev_result mid False)"
  using ev_verify_stock_in [OF ev_stock_measurement(2), of mid 1 "{}" "{}"] ev_verify_stock_in [OF ev_stock_measurement(2), of mid 2 "{}" "{}"]
    ev_verify_stock_in [OF ev_stock_measurement(2), of mid 3 "{}" "{}"]
  by (auto simp: store_verify_def ev_runs_def)

lemma ev_store_memory:
  assumes "(mid, pid) \<in> {(''1'', 1), (''2'', 2), (''3'', 3)}"
  shows "store_memory ev_world ev_stock_store mid = Inr (JObj (ev_memory pid))"
proof -
  have "map_of (ev_docs @ concat (map ev_run_docs ev_runs)) (CHR ''m'' # mid) = Some (ev_memory pid)"
    using assms by (auto simp: ev_docs_def ev_run_docs_def ev_runs_def)
  then have "ho_file ev_host (CHR ''m'' # mid) = Some \<lparr>hf_size = 1, hf_sha256 = zero_hash, hf_json = Inr (JObj (ev_memory pid)), hf_stamp = (0, 0)\<rparr>"
    by (simp add: ev_host_def)
  moreover have "artifact_path (ev_stored mid False []) ''memory'' = Some (CHR ''m'' # mid)"
    by (simp add: artifact_path_def ev_stored_def ev_submitted_def ev_roles_def ev_identity_def)
  moreover have "measurement ev_world ev_stock_store mid = Inr (ev_stored mid False [])"
    using assms by (intro ev_stock_measurement(2)) auto
  ultimately show ?thesis by (simp add: store_memory_def ev_world_def)
qed

lemma ev_identities_sha256: "canonical_sha256 ev_digest (identities_payload (ev_identities False)) = Inr zero_hash"
  by code_simp

lemma ev_measured: "measured_candidate (ev_candidate False) [''1'', ''2'', ''3''] = Inr (sm_candidate ev_stock)"
  by code_simp

lemma ev_foreign: "foreign_row ev_digest (ev_candidate False) (ev_result mid False) = Inr False"
  by (simp add: foreign_row_def dict_index_def ev_result_def ev_candidate_id truthy_def)

lemma ev_peak: "rfold (peak_memory (store_memory ev_world ev_stock_store)) (JInt 0) [''1'', ''2'', ''3''] = Inr (JInt 9)"
proof -
  have "peak_memory (store_memory ev_world ev_stock_store) v mid = max_number [v, JInt 9]" if mid: "mid \<in> {''1'', ''2'', ''3''}" for v mid
  proof -
    obtain pid :: int where "(mid, pid) \<in> {(''1'', 1), (''2'', 2), (''3'', 3)}"
      using mid that by (cases "mid = ''1''"; cases "mid = ''2''") auto
    from ev_store_memory [OF this] show ?thesis
      by (simp add: peak_memory_def ev_memory_def subscript_def dict_index_def py_iter_def ev_reading_def)
        (simp add: max_number_def exact_num_def)
  qed
  moreover have "max_number [JInt 0, JInt 9] = Inr (JInt 9)" "max_number [JInt 9, JInt 9] = Inr (JInt 9)"
    by (simp_all add: max_number_def num_max_def num_less_def num_val_def exact_num_def py_less_def)
  ultimately show ?thesis by simp
qed

lemma ev_import:
  "import_stock_measurement ev_digest (store_verify ev_world ev_stock_store) (store_memory ev_world ev_stock_store) (ev_candidate False)
     [''1'', ''2'', ''3''] = Inr ev_stock"
proof -
  let ?rows = "[ev_result ''1'' False, ev_result ''2'' False, ev_result ''3'' False]"
  have rows: "rmap (store_verify ev_world ev_stock_store) [''1'', ''2'', ''3''] = Inr ?rows" by (simp add: ev_store_verify)
  have foreign: "rany (foreign_row ev_digest (ev_candidate False)) ?rows = Inr False" by (simp add: ev_foreign)
  have owned: "count_field ''owned_run_sha256'' ?rows = Inr 3" by code_simp
  have same: "count_field ''generated_tokens_sha256'' ?rows = Inr 1" "count_field ''prompt_tokens_sha256'' ?rows = Inr 1"
    by code_simp+
  have rates: "rmap (\<lambda>r. dict_index r ''decode_tps'') ?rows = Inr (sm_decode_tps ev_stock)"
    by (simp add: dict_index_def ev_result_def ev_stock_def)
  have i: "cp_identities (ev_candidate False) = ev_identities False" by (simp add: ev_candidate_def)
  show ?thesis
    unfolding import_stock_measurement_def rows rbind_Inr owned foreign same ev_peak ev_measured rates i ev_identities_sha256
    by (simp add: ev_stock_def)
qed

lemma ev_selection: "select_strongest_stock ev_digest [ev_stock] 1000 256 = Inr ev_stock"
proof -
  have i: "cp_identities (sm_candidate ev_stock) = ev_identities False" by (simp add: ev_stock_def ev_candidate_def)
  have w: "pi_workload (ev_identities False) = example_workload_ir" by (simp add: ev_identities_def example_identities_def)
  have mean: "stat_mean (sm_decode_tps ev_stock) = Inr (JFloat (Fin 1))"
    using dbl_int [of 1] by (simp add: ev_stock_def stat_mean_def ratio_def is_int_number_def float_of_ratio_def)
  have "stat_stdev (sm_decode_tps ev_stock) = Inr (Fin 0)" by (simp add: ev_stock_def stat_stdev_def ratio_def float_sqrt_0)
  moreover obtain r where "float_of_int 100 = Inr (Fin r)" using float_of_int_pos [of 100] by auto
  ultimately have "cv_pct (sm_decode_tps ev_stock) = Inr (JFloat (Fin 0))"
    using mean by (simp add: cv_pct_def num_mul_def num_div_def num_op_def json_float_def fmul_def fdiv_def)
  then have cv: "stock_cv_pct ev_stock = Inr (JFloat (Fin 0))" by (simp add: stock_cv_pct_def) (simp add: ev_stock_def cv_pct_def)
  obtain q where q: "MICRO = Fin q" "q \<le> 1" by (rule dbl_unit_interval [of "1 / 1000000"]) (auto simp: MICRO_def)
  have tps: "rmap (\<lambda>v. require_number v ''measured TPS'' MICRO) (sm_decode_tps ev_stock) = Inr (sm_decode_tps ev_stock)"
    unfolding q(1) using q(2) by (simp add: ev_stock_def require_number_def valid_number_def isfinite_def py_le_def)
  have memory: "memory_unsafe 1000 256 (sm_peak_bytes ev_stock) = Inr False" by code_simp
  have "stock_valid ev_digest 1000 256 ev_stock = Inr True"
    unfolding stock_valid_def Let_def i ev_identities_sha256 rbind_Inr tps memory cv w
    by (simp add: ev_stock_def ev_candidate_def example_settings_def example_workload_ir_def
        num_less_def num_val_def exact_num_def py_less_def)
  moreover have "\<exists>k. stock_key ev_digest ev_stock = Inr (k, ev_stock)"
    using mean ev_candidate_id [of False] by (simp add: stock_key_def mean_tps_def) (simp add: ev_stock_def candidate_id_def)
  ultimately show ?thesis
    using ev_identities_sha256 by (auto simp: select_strongest_stock_def Let_def min_by_def i)
qed

theorem imported_stock_seals_witness:
  "(\<exists>p. seal_candidate ev_digest ''now'' (sm_candidate ev_stock) (store_verify ev_world ev_stock_store) (ev_identities False) None = Inr p)
    \<and> (\<exists>row r c0 arts. store_verify ev_world ev_stock_store ''2'' = Inr row
         \<and> measurement ev_world ev_stock_store ''2'' = Inr r \<and> record_candidate ev_world r = Inr c0
         \<and> native_artifacts ev_world r = Inr arts \<and> native_run ev_world {} r c0 arts row)"
proof -
  have w: "eh_digest ev_world = ev_digest" by (simp add: ev_world_def)
  have c: "cp_identities (ev_candidate False) = ev_identities False" "cp_rejection_reasons (ev_candidate False) = []"
      "wl_policy (pi_workload (cp_identities (ev_candidate False))) = EXACT"
    by (simp_all add: ev_candidate_def ev_identities_def example_identities_def example_workload_ir_def)
  have wf: "wf_candidate ev_digest (ev_candidate False)" using record_candidate_wf [OF ev_record_candidate] unfolding w .
  have "hex_char CHR ''f''" "hex_char CHR ''1''" "hex_char CHR ''2''" "hex_char CHR ''3''" "hex_char CHR ''4''"
    by (simp_all add: hex_char_def)
  then have "\<forall>v. is_hash (ev_digest v)"
    by (auto simp: ev_digest_def tagged_hash_def is_hash_example is_hash_zero simp del: replicate.simps split: json.split)
  moreover have "no_collision ev_world ev_stock_store (ev_candidate False)"
    using ev_stock_measurement(1) ev_record_candidate by (fastforce simp: no_collision_def)
  moreover have "is_text ''now''" by (simp add: is_text_def py_isspace_def)
  ultimately show ?thesis
    using imported_stock_seals [where x = ev_world, unfolded w, OF ev_import ev_selection _ wf] c(2,3) unfolding c(1) by simp
qed

end
