(* ===== verification/Heldout.thy ===== *)
theory Heldout
  imports Capacity_Curve Pyvalue
begin

text \<open>
  \<open>analysis/heldout_breakdown.py\<close>: the held-out evaluation per conversation, per domain and in total.
  The decoded collection manifest is an argument, and \<open>traces path\<close> stands for \<open>load_router_events\<close> of the
  resolved path. The lemmas show that the breakdown only regroups the held-out capacity curve: its total
  and every domain agree with the curve whose caches are empty at the start of each conversation, and
  that loading keeps training and held-out shards apart.
\<close>

section \<open>Inputs\<close>

record evaluation_trace =
  et_conversation_id :: string
  et_split :: string
  et_domain :: string
  et_source_trace :: string
  et_events :: "router_trace_event list"

record excluded_shard =
  xs_conversation_id :: string
  xs_split :: string
  xs_domain :: string
  xs_latest_status :: string
  xs_attempt_count :: int

record breakdown_inputs =
  bi_training :: "router_trace_event list"
  bi_evaluations :: "evaluation_trace list"
  bi_excluded :: "excluded_shard list"

definition PHASES :: "string list" where
  "PHASES = [''prefill'', ''decode'']"

definition check_collection_summary :: "bool \<Rightarrow> json \<Rightarrow> unit res" where
  "check_collection_summary exclude_failed v = (case v of
     JObj s \<Rightarrow> (case (jget s ''conversation_count'', jget s ''passed'', jget s ''failed'') of
         (JInt conversations, JInt passed, JInt failed) \<Rightarrow>
           if passed + failed \<noteq> conversations then Inl (ValueError ''collection manifest is incomplete'')
           else if failed \<noteq> 0 \<and> \<not> exclude_failed then Inl (ValueError ''collection manifest has failed shards'')
           else Inr ()
       | _ \<Rightarrow> Inl (ValueError ''collection summary counts must be integers''))
   | _ \<Rightarrow> Inr ())"

text \<open>\<open>latest["trace"]["artifact"]["path"]\<close>, its \<open>KeyError\<close> and \<open>TypeError\<close> turned into a \<open>ValueError\<close>.\<close>

definition collection_trace_path :: "json \<Rightarrow> string res" where
  "collection_trace_path latest =
     (case rbind (subscript latest ''trace'') (\<lambda>t. rbind (subscript t ''artifact'') (\<lambda>a. subscript a ''path'')) of
        Inl e \<Rightarrow> if e = KeyError \<or> e = TypeError then Inl (ValueError ''has no trace artifact path'') else Inl e
      | Inr (JStr path) \<Rightarrow> Inr path
      | Inr _ \<Rightarrow> Inl (ValueError ''trace path must be a string''))"

definition excluded_shard_of :: "jrecord \<Rightarrow> int \<Rightarrow> excluded_shard res" where
  "excluded_shard_of shard attempt_count =
     (case (jget shard ''conversation_id'', jget shard ''split'', jget shard ''domain'', jget shard ''latest_status'') of
        (JStr c, JStr s, JStr d, JStr status) \<Rightarrow> Inr \<lparr>xs_conversation_id = c, xs_split = s, xs_domain = d,
          xs_latest_status = status, xs_attempt_count = attempt_count\<rparr>
      | _ \<Rightarrow> Inl (ValueError ''identity is invalid''))"

definition selected_event :: "string \<Rightarrow> int option \<Rightarrow> router_trace_event \<Rightarrow> bool" where
  "selected_event phase max_layer e \<longleftrightarrow> ev_phase e = phase
     \<and> (case max_layer of None \<Rightarrow> True | Some m \<Rightarrow> ev_layer_id e \<le> m)"

text \<open>A parity-passed shard: its events go to training, or to one held-out trace.\<close>

definition passed_shard :: "(string \<Rightarrow> router_trace_event list res) \<Rightarrow> (string \<Rightarrow> string) \<Rightarrow> string \<Rightarrow> string \<Rightarrow> int option
    \<Rightarrow> breakdown_inputs \<Rightarrow> jrecord \<Rightarrow> string \<Rightarrow> breakdown_inputs res" where
  "passed_shard traces resolve phase evaluation_phase max_layer s shard trace_value =
     (let path = resolve trace_value; split = jget shard ''split'';
          selected_phase = (if split = JStr ''train'' then phase else evaluation_phase) in
      rbind (traces path) (\<lambda>all_events.
      let events = filter (selected_event selected_phase max_layer) all_events in
      if events = [] then Inl (ValueError ''selection produced no events'')
      else if split = JStr ''train'' then Inr (s\<lparr>bi_training := bi_training s @ events\<rparr>)
      else if unhashable split then Inl TypeError
      else if split \<notin> {JStr ''validation'', JStr ''test''} then Inl (ValueError ''has unsupported split'')
      else case (jget shard ''conversation_id'', split, jget shard ''domain'') of
          (JStr c, JStr sp, JStr d) \<Rightarrow> Inr (s\<lparr>bi_evaluations := bi_evaluations s @
            [\<lparr>et_conversation_id = c, et_split = sp, et_domain = d, et_source_trace = path, et_events = events\<rparr>]\<rparr>)
        | _ \<Rightarrow> Inl (ValueError ''identity is invalid'')))"

definition collection_shard :: "(string \<Rightarrow> router_trace_event list res) \<Rightarrow> (string \<Rightarrow> string) \<Rightarrow> string \<Rightarrow> string \<Rightarrow> int option
    \<Rightarrow> bool \<Rightarrow> breakdown_inputs \<Rightarrow> json \<Rightarrow> breakdown_inputs res" where
  "collection_shard traces resolve phase evaluation_phase max_layer exclude_failed s v = (case v of
     JObj shard \<Rightarrow> (case jget shard ''attempts'' of
         JArr attempts \<Rightarrow>
           if attempts = [] then Inl (ValueError ''has no collection attempt'')
           else if jget shard ''latest_status'' \<noteq> JStr ''passed'' then
             (if \<not> exclude_failed then Inl (ValueError ''is not parity-passed'')
              else rbind (excluded_shard_of shard (int (length attempts))) (\<lambda>x.
                Inr (s\<lparr>bi_excluded := bi_excluded s @ [x]\<rparr>)))
           else rbind (collection_trace_path (last attempts))
             (passed_shard traces resolve phase evaluation_phase max_layer s shard)
       | _ \<Rightarrow> Inl (ValueError ''has no collection attempt''))
   | _ \<Rightarrow> Inl (ValueError ''must be an object''))"

definition load_collection_breakdown_inputs :: "(string \<Rightarrow> router_trace_event list res) \<Rightarrow> (string \<Rightarrow> string) \<Rightarrow> json res
    \<Rightarrow> string \<Rightarrow> string option \<Rightarrow> int option \<Rightarrow> bool \<Rightarrow> breakdown_inputs res" where
  "load_collection_breakdown_inputs traces resolve manifest phase evaluation_phase max_layer exclude_failed =
     (let selected = (case evaluation_phase of None \<Rightarrow> phase | Some p \<Rightarrow> if p = [] then phase else p) in
      if phase \<notin> set PHASES \<or> selected \<notin> set PHASES
      then Inl (ValueError ''training and evaluation phases must be prefill or decode'')
      else if (case max_layer of None \<Rightarrow> False | Some m \<Rightarrow> m < 0) then Inl (ValueError ''max_layer must be non-negative'')
      else case manifest of
        Inl e \<Rightarrow> Inl (ValueError ''cannot read collection manifest'')
      | Inr (JObj payload) \<Rightarrow>
          rbind (check_collection_summary exclude_failed (jget payload ''summary'')) (\<lambda>_.
          case jget payload ''shards'' of
            JArr shards \<Rightarrow>
              if shards = [] then Inl (ValueError ''collection manifest shards must be a non-empty array'')
              else rbind (rfold (collection_shard traces resolve phase selected max_layer exclude_failed)
                  \<lparr>bi_training = [], bi_evaluations = [], bi_excluded = []\<rparr> shards) (\<lambda>s.
                if bi_training s = [] \<or> bi_evaluations s = []
                then Inl (ValueError ''collection must contain training and held-out shards'') else Inr s)
          | _ \<Rightarrow> Inl (ValueError ''collection manifest shards must be a non-empty array''))
      | Inr _ \<Rightarrow> Inl (ValueError ''collection manifest must be an object''))"

section \<open>The breakdown\<close>

record policy_metrics =
  pm_policy :: string
  pm_demand_count :: int
  pm_hit_count :: int
  pm_miss_count :: int
  pm_load_count :: int
  pm_hit_rate :: pyfloat
  pm_cold_bytes :: int
  pm_cold_bytes_per_token :: pyfloat
  pm_serialized_transfer_ms :: pyfloat
  pm_serialized_transfer_ms_per_token :: pyfloat

definition token_count :: "router_trace_event list \<Rightarrow> int" where
  "token_count events = int (length (remdups (map (\<lambda>e. (ev_request_id e, ev_forward_id e)) events)))"

text \<open>The fields both of the code's functions compute from the four counts.\<close>

definition metrics_of :: "int \<Rightarrow> int \<Rightarrow> pyfloat \<Rightarrow> string \<Rightarrow> int \<Rightarrow> int \<Rightarrow> int \<Rightarrow> int \<Rightarrow> policy_metrics res" where
  "metrics_of tokens slot_bytes transfer_ms policy demand hits misses loads =
     rbind (int_truediv hits demand) (\<lambda>rate.
     rbind (int_truediv (misses * slot_bytes) tokens) (\<lambda>cold.
     rbind (float_of_int misses) (\<lambda>m. rbind (float_of_int tokens) (\<lambda>n. rbind (fdiv (fmul m transfer_ms) n) (\<lambda>per_token.
       Inr \<lparr>pm_policy = policy, pm_demand_count = demand, pm_hit_count = hits, pm_miss_count = misses, pm_load_count = loads,
         pm_hit_rate = rate, pm_cold_bytes = misses * slot_bytes, pm_cold_bytes_per_token = cold,
         pm_serialized_transfer_ms = fmul m transfer_ms, pm_serialized_transfer_ms_per_token = per_token\<rparr>)))))"

definition policy_metrics_of :: "int \<Rightarrow> int \<Rightarrow> pyfloat \<Rightarrow> policy_result \<Rightarrow> policy_metrics res" where
  "policy_metrics_of tokens slot_bytes transfer_ms r = metrics_of tokens slot_bytes transfer_ms
     (pr_policy r) (pr_demand_count r) (pr_hit_count r) (pr_miss_count r) (pr_load_count r)"

definition combine_policy_metrics :: "int \<Rightarrow> int \<Rightarrow> pyfloat \<Rightarrow> policy_metrics list \<Rightarrow> policy_metrics res" where
  "combine_policy_metrics tokens slot_bytes transfer_ms rows = (case rows of
     [] \<Rightarrow> Inl (ValueError ''policy metric rows must not be empty'')
   | row # _ \<Rightarrow> metrics_of tokens slot_bytes transfer_ms (pm_policy row) (sum_of pm_demand_count rows)
       (sum_of pm_hit_count rows) (sum_of pm_miss_count rows) (sum_of pm_load_count rows))"

record prompt_row =
  hp_conversation_id :: string
  hp_split :: string
  hp_domain :: string
  hp_source_trace :: string
  hp_event_count :: int
  hp_token_count :: int
  hp_expert_demand_count :: int
  hp_static_hotset :: policy_metrics
  hp_lru :: policy_metrics

record breakdown_group =
  bg_conversation_count :: int
  bg_event_count :: int
  bg_token_count :: int
  bg_expert_demand_count :: int
  bg_static_hotset :: policy_metrics
  bg_lru :: policy_metrics

record heldout_breakdown =
  hb_capacity_per_layer :: int
  hb_slot_bytes :: int
  hb_expert_transfer_ms :: pyfloat
  hb_layer_ids :: "int list"
  hb_training_event_count :: int
  hb_evaluation_event_count :: int
  hb_per_prompt :: "prompt_row list"
  hb_per_domain :: "(string \<times> breakdown_group) list"
  hb_aggregate :: breakdown_group

definition breakdown_prompt :: "router_trace_event list \<Rightarrow> int \<Rightarrow> int \<Rightarrow> pyfloat \<Rightarrow> evaluation_trace \<Rightarrow> prompt_row res" where
  "breakdown_prompt training capacity slot_bytes transfer_ms item =
     (let tokens = token_count (et_events item) in
      rbind (build_held_out_capacity_curve training (et_events item) None [capacity] slot_bytes transfer_ms) (\<lambda>curve.
      case cc_points curve of
        [] \<Rightarrow> Inl IndexError
      | point # _ \<Rightarrow>
          rbind (policy_metrics_of tokens slot_bytes transfer_ms (pp_result (cp_static_hotset point))) (\<lambda>static.
          rbind (policy_metrics_of tokens slot_bytes transfer_ms (pp_result (cp_lru point))) (\<lambda>lru.
            Inr \<lparr>hp_conversation_id = et_conversation_id item, hp_split = et_split item, hp_domain = et_domain item,
              hp_source_trace = et_source_trace item, hp_event_count = int (length (et_events item)),
              hp_token_count = tokens, hp_expert_demand_count = sum_of ev_width (et_events item),
              hp_static_hotset = static, hp_lru = lru\<rparr>))))"

definition aggregate_rows :: "int \<Rightarrow> pyfloat \<Rightarrow> prompt_row list \<Rightarrow> breakdown_group res" where
  "aggregate_rows slot_bytes transfer_ms rows =
     (let tokens = sum_of hp_token_count rows in
      rbind (combine_policy_metrics tokens slot_bytes transfer_ms (map hp_static_hotset rows)) (\<lambda>static.
      rbind (combine_policy_metrics tokens slot_bytes transfer_ms (map hp_lru rows)) (\<lambda>lru.
        Inr \<lparr>bg_conversation_count = int (length rows), bg_event_count = sum_of hp_event_count rows, bg_token_count = tokens,
          bg_expert_demand_count = sum_of hp_expert_demand_count rows, bg_static_hotset = static, bg_lru = lru\<rparr>)))"

definition build_heldout_breakdown :: "router_trace_event list \<Rightarrow> evaluation_trace list \<Rightarrow> int \<Rightarrow> int \<Rightarrow> pyfloat
    \<Rightarrow> heldout_breakdown res" where
  "build_heldout_breakdown training evaluations capacity slot_bytes transfer_ms =
     (if training = [] \<or> evaluations = [] \<or> (\<exists>item \<in> set evaluations. et_events item = [])
      then Inl (ValueError ''training and evaluation traces must not be empty'')
      else if capacity \<le> 0 \<or> slot_bytes \<le> 0 \<or> py_le transfer_ms (Fin 0)
      then Inl (ValueError ''capacity, slot bytes, and transfer time must be positive'')
      else if \<not> distinct (map et_conversation_id evaluations)
      then Inl (ValueError ''evaluation conversation IDs must be unique'')
      else if \<exists>item \<in> set evaluations. ev_layer_id ` set (et_events item) \<noteq> ev_layer_id ` set training
      then Inl (ValueError ''training and evaluation layer sets must match'')
      else rbind (rmap (breakdown_prompt training capacity slot_bytes transfer_ms) evaluations) (\<lambda>per_prompt.
      rbind (rmap (\<lambda>(domain, rows). rbind (aggregate_rows slot_bytes transfer_ms rows) (\<lambda>g. Inr (domain, g)))
        (sort_key fst (group_by hp_domain per_prompt))) (\<lambda>per_domain.
      rbind (aggregate_rows slot_bytes transfer_ms per_prompt) (\<lambda>aggregate.
        Inr \<lparr>hb_capacity_per_layer = capacity, hb_slot_bytes = slot_bytes, hb_expert_transfer_ms = transfer_ms,
          hb_layer_ids = layer_ids_of training, hb_training_event_count = int (length training),
          hb_evaluation_event_count = sum_of (\<lambda>item. int (length (et_events item))) evaluations,
          hb_per_prompt = per_prompt, hb_per_domain = per_domain, hb_aggregate = aggregate\<rparr>))))"

section \<open>One held-out point\<close>

text \<open>The LRU hits of a conversation on empty caches.\<close>

definition lru_hits :: "int \<Rightarrow> router_trace_event list \<Rightarrow> int" where
  "lru_hits capacity events = (case simulate_policies events capacity of Inl _ \<Rightarrow> 0 | Inr s \<Rightarrow> pr_hit_count (cs_lru s))"

lemma capacity_point_results:
  "capacity_point_of c n k slot ms r s l = Inr p \<Longrightarrow> pp_result (cp_static_hotset p) = s \<and> pp_result (cp_lru p) = l"
  by (auto simp: capacity_point_of_def policy_point_def rbind_eq_Inr)

text \<open>The counts of a result, given its demand and hits.\<close>

definition counts_to :: "string \<Rightarrow> int \<Rightarrow> int \<Rightarrow> policy_result \<Rightarrow> bool" where
  "counts_to policy demand hits r \<longleftrightarrow> pr_policy r = policy \<and> pr_demand_count r = demand \<and> pr_hit_count r = hits
     \<and> pr_miss_count r = demand - hits \<and> pr_load_count r = demand - hits \<and> int_truediv hits demand = Inr (pr_hit_rate r)"

lemma held_out_point_counts:
  assumes "\<forall>e \<in> set evaluation. wf_event e \<and> ev_width e = k" and "k \<le> c" and "0 < c"
    and "concat groups = evaluation" and "evaluation \<noteq> []" and "ev_layer_id ` set evaluation = ev_layer_id ` set training"
  shows "\<exists>p. held_out_point training evaluation groups k slot ms c = Inr p
    \<and> counts_to ''static_hotset'' (demand_total evaluation) (served_by (\<lambda>l. hot_set (dict_get (layer_counts training) l []) c) evaluation)
        (pp_result (cp_static_hotset p))
    \<and> counts_to ''lru'' (demand_total evaluation) (sum_of (lru_hits c) groups) (pp_result (cp_lru p))"
proof -
  obtain p where p: "held_out_point training evaluation groups k slot ms c = Inr p" "point_consistent (demand_total evaluation) p"
    "pr_hit_count (pp_result (cp_static_hotset p)) = served_by (\<lambda>l. hot_set (dict_get (layer_counts training) l []) c) evaluation"
    using held_out_point_ok [OF assms(1-5) eq_refl [OF assms(6)]] by blast
  obtain hits rate sims reactive lru static where
    s: "int_truediv hits (demand_total evaluation) = Inr rate" "rmap (\<lambda>g. simulate_policies g c) groups = Inr sims"
      "combine_policy_results ''lru'' (map cs_lru sims) = Inr lru"
      "static = \<lparr>pr_policy = ''static_hotset'', pr_demand_count = demand_total evaluation, pr_hit_count = hits,
          pr_miss_count = demand_total evaluation - hits, pr_load_count = demand_total evaluation - hits,
          pr_preload_count = sum_of (\<lambda>(l, R). int (card R)) (static_residents training c), pr_hit_rate = rate\<rparr>"
      "capacity_point_of c (int (length (layer_ids_of evaluation))) k slot ms reactive static lru = Inr p"
    using p(1) unfolding held_out_point_def Let_def rbind_eq_Inr if_Inl_eq_Inr by (elim exE conjE) simp
  have r: "pp_result (cp_static_hotset p) = static" "pp_result (cp_lru p) = lru" using capacity_point_results [OF s(5)] by simp_all
  have "list_all2 (\<lambda>g s. simulate_policies g c = Inr s) groups sims" using s(2) by (simp add: rmap_eq_Inr)
  then have "sum_of pr_hit_count (map cs_lru sims) = sum_of (lru_hits c) groups"
    by (induction rule: list_all2_induct) (simp_all add: lru_hits_def)
  then have lru: "pr_policy lru = ''lru''" "pr_hit_count lru = sum_of (lru_hits c) groups"
      "int_truediv (pr_hit_count lru) (pr_demand_count lru) = Inr (pr_hit_rate lru)"
    using s(3) by (auto simp: combine_policy_results_def rbind_eq_Inr Let_def)
  have "counts_to ''lru'' (demand_total evaluation) (sum_of (lru_hits c) groups) lru"
    using p(2) lru by (auto simp: counts_to_def point_consistent_def result_consistent_def r(2))
  moreover have "counts_to ''static_hotset'' (demand_total evaluation) hits static" using s(1) by (simp add: counts_to_def s(4))
  moreover have "hits = served_by (\<lambda>l. hot_set (dict_get (layer_counts training) l []) c) evaluation" using p(3) by (simp add: r(1) s(4))
  ultimately show ?thesis using p(1) by (simp add: r)
qed

section \<open>The breakdown regroups the curve\<close>

text \<open>The metrics of a row or group have the counts and the rate of a policy result.\<close>

definition same_counts :: "policy_metrics \<Rightarrow> policy_result \<Rightarrow> bool" where
  "same_counts m r \<longleftrightarrow> pm_policy m = pr_policy r \<and> pm_demand_count m = pr_demand_count r \<and> pm_hit_count m = pr_hit_count r
     \<and> pm_miss_count m = pr_miss_count r \<and> pm_load_count m = pr_load_count r \<and> pm_hit_rate m = pr_hit_rate r"

definition metrics_to :: "int \<Rightarrow> string \<Rightarrow> int \<Rightarrow> int \<Rightarrow> policy_metrics \<Rightarrow> bool" where
  "metrics_to slot_bytes policy demand hits m \<longleftrightarrow> pm_policy m = policy \<and> pm_demand_count m = demand \<and> pm_hit_count m = hits
     \<and> pm_miss_count m = demand - hits \<and> pm_load_count m = demand - hits \<and> int_truediv hits demand = Inr (pm_hit_rate m)
     \<and> pm_cold_bytes m = (demand - hits) * slot_bytes"

lemma metrics_of_counts:
  "metrics_of tokens slot ms policy demand hits (demand - hits) (demand - hits) = Inr m \<Longrightarrow> metrics_to slot policy demand hits m"
  by (auto simp: metrics_of_def metrics_to_def rbind_eq_Inr)

lemma same_counts_iff: "metrics_to slot policy demand hits m \<Longrightarrow> counts_to policy demand hits r \<Longrightarrow> same_counts m r"
  by (auto simp: metrics_to_def counts_to_def same_counts_def)

lemma served_by_append: "served_by R (xs @ ys) = served_by R xs + served_by R ys"
  by (simp add: served_by_def)

lemma demand_total_concat: "demand_total (concat xss) = sum_of demand_total xss"
  by (induction xss) (simp_all add: demand_total_def)

lemma served_by_concat: "served_by R (concat xss) = sum_of (served_by R) xss"
  by (induction xss) (simp_all add: served_by_append, simp add: served_by_def)

text \<open>A row of the breakdown is the held-out point of its conversation.\<close>

definition prompt_counts :: "router_trace_event list \<Rightarrow> int \<Rightarrow> int \<Rightarrow> evaluation_trace \<Rightarrow> prompt_row \<Rightarrow> bool" where
  "prompt_counts training c slot item row \<longleftrightarrow>
     hp_conversation_id row = et_conversation_id item \<and> hp_domain row = et_domain item
     \<and> hp_event_count row = int (length (et_events item)) \<and> hp_token_count row = token_count (et_events item)
     \<and> hp_expert_demand_count row = demand_total (et_events item)
     \<and> metrics_to slot ''static_hotset'' (demand_total (et_events item))
         (served_by (\<lambda>l. hot_set (dict_get (layer_counts training) l []) c) (et_events item)) (hp_static_hotset row)
     \<and> metrics_to slot ''lru'' (demand_total (et_events item)) (lru_hits c (et_events item)) (hp_lru row)"

definition heldout_item :: "router_trace_event list \<Rightarrow> int \<Rightarrow> int \<Rightarrow> evaluation_trace \<Rightarrow> bool" where
  "heldout_item training k c item \<longleftrightarrow> et_events item \<noteq> [] \<and> (\<forall>e \<in> set (et_events item). wf_event e \<and> ev_width e = k) \<and> k \<le> c
     \<and> ev_layer_id ` set (et_events item) = ev_layer_id ` set training"

lemma remdups_single: "remdups xs = [k] \<longleftrightarrow> set xs = {k}"
  by (metis distinct.simps(2) distinct_remdups empty_iff empty_set insert_not_empty list.set_intros(1) list.simps(15) remdups_constant
      set_remdups singletonD)

lemma breakdown_prompt_counts:
  assumes row: "breakdown_prompt training c slot ms item = Inr row" and wf: "\<forall>e \<in> set (training @ et_events item). wf_event e"
    and c: "0 < c" "training \<noteq> []" "k = ev_width (hd training)"
  shows "heldout_item training k c item \<and> (\<forall>e \<in> set training. ev_width e = k) \<and> prompt_counts training c slot item row"
proof -
  let ?ev = "et_events item"
  obtain curve where curve: "build_held_out_capacity_curve training ?ev None [c] slot ms = Inr curve"
    and rest: "(case cc_points curve of [] \<Rightarrow> Inl IndexError
      | point # _ \<Rightarrow>
          rbind (policy_metrics_of (token_count ?ev) slot ms (pp_result (cp_static_hotset point))) (\<lambda>static.
          rbind (policy_metrics_of (token_count ?ev) slot ms (pp_result (cp_lru point))) (\<lambda>lru.
            Inr \<lparr>hp_conversation_id = et_conversation_id item, hp_split = et_split item, hp_domain = et_domain item,
              hp_source_trace = et_source_trace item, hp_event_count = int (length ?ev),
              hp_token_count = token_count ?ev, hp_expert_demand_count = sum_of ev_width ?ev,
              hp_static_hotset = static, hp_lru = lru\<rparr>))) = Inr row"
    using row unfolding breakdown_prompt_def Let_def rbind_eq_Inr by blast
  obtain p ps where points: "cc_points curve = p # ps" using rest by (cases "cc_points curve") simp_all
  obtain static lru where
    m: "policy_metrics_of (token_count ?ev) slot ms (pp_result (cp_static_hotset p)) = Inr static"
      "policy_metrics_of (token_count ?ev) slot ms (pp_result (cp_lru p)) = Inr lru"
    and r: "row = \<lparr>hp_conversation_id = et_conversation_id item, hp_split = et_split item, hp_domain = et_domain item,
              hp_source_trace = et_source_trace item, hp_event_count = int (length ?ev),
              hp_token_count = token_count ?ev, hp_expert_demand_count = sum_of ev_width ?ev,
              hp_static_hotset = static, hp_lru = lru\<rparr>"
    using rest by (auto simp: points rbind_eq_Inr)
  obtain k' where ev: "?ev \<noteq> []" and top: "remdups (map ev_width (training @ ?ev)) = [k']"
    and layers: "set (map ev_layer_id training) = set (map ev_layer_id ?ev)"
    and rp: "rmap (held_out_point training ?ev [?ev] k' slot ms) [c] = Inr (cc_points curve)"
    using curve c(1) unfolding build_held_out_capacity_curve_def Let_def
    by (auto simp: rbind_eq_Inr fromkeys_def split: if_splits list.splits)
  have widths: "ev_width ` set (training @ ?ev) = {k'}" using top by (simp only: remdups_single set_map)
  then have "k' = k" using c(2,3) by (cases training) auto
  then have w: "\<forall>e \<in> set training. ev_width e = k" "\<forall>e \<in> set ?ev. ev_width e = k" using widths by auto
  have point: "held_out_point training ?ev [?ev] k slot ms c = Inr p" using rp \<open>k' = k\<close> points by (auto simp: rbind_eq_Inr)
  then have kc: "k \<le> c" by (auto simp: held_out_point_def split: if_splits)
  have item: "heldout_item training k c item" using ev wf w kc layers by (auto simp: heldout_item_def)
  let ?served = "served_by (\<lambda>l. hot_set (dict_get (layer_counts training) l []) c) ?ev"
  have "counts_to ''static_hotset'' (demand_total ?ev) ?served (pp_result (cp_static_hotset p))"
      "counts_to ''lru'' (demand_total ?ev) (sum_of (lru_hits c) [?ev]) (pp_result (cp_lru p))"
    using held_out_point_counts [of ?ev k c "[?ev]" training slot ms] item c(1) point by (auto simp: heldout_item_def)
  then have "metrics_to slot ''static_hotset'' (demand_total ?ev) ?served static"
      "metrics_to slot ''lru'' (demand_total ?ev) (lru_hits c ?ev) lru"
    using m by (auto simp: policy_metrics_of_def counts_to_def intro!: metrics_of_counts)
  then show ?thesis using item w(1) by (simp add: prompt_counts_def r demand_total_def)
qed

section \<open>Groups of conversations\<close>

text \<open>A grp agrees with the held-out curve that resets its caches at each conversation of the grp.\<close>

definition breakdown_agrees :: "router_trace_event list \<Rightarrow> int \<Rightarrow> int \<Rightarrow> pyfloat \<Rightarrow> evaluation_trace list \<Rightarrow> breakdown_group \<Rightarrow> bool" where
  "breakdown_agrees training c slot ms items g \<longleftrightarrow> (\<exists>curve p.
     build_held_out_capacity_curve training (concat (map et_events items)) (Some (map et_events items)) [c] slot ms = Inr curve
     \<and> cc_points curve = [p]
     \<and> same_counts (bg_static_hotset g) (pp_result (cp_static_hotset p)) \<and> same_counts (bg_lru g) (pp_result (cp_lru p))
     \<and> bg_event_count g = cc_event_count curve \<and> bg_expert_demand_count g = cc_expert_demand_count curve
     \<and> bg_conversation_count g = int (length items))"

lemma combine_metrics:
  assumes "combine_policy_metrics tokens slot ms ms' = Inr m" and "list_all2 (\<lambda>item m. metrics_to slot policy (f item) (h item) m) items ms'"
  shows "metrics_to slot policy (sum_of f items) (sum_of h items) m"
proof -
  obtain row rows where ms': "ms' = row # rows" using assms(1) by (cases ms') (simp_all add: combine_policy_metrics_def)
  have sums: "sum_of pm_demand_count ms' = sum_of f items" "sum_of pm_hit_count ms' = sum_of h items"
      "sum_of pm_miss_count ms' = sum_of f items - sum_of h items" "sum_of pm_load_count ms' = sum_of f items - sum_of h items"
    using assms(2) by (induction rule: list_all2_induct) (simp_all add: metrics_to_def)
  have "pm_policy row = policy" using assms(2) by (auto simp: ms' list_all2_Cons2 metrics_to_def)
  then show ?thesis using assms(1) sums by (intro metrics_of_counts [where tokens = tokens and ms = ms]) (simp add: combine_policy_metrics_def ms')
qed

lemma aggregate_counts:
  assumes "aggregate_rows slot ms rows = Inr g" and "list_all2 (prompt_counts training c slot) items rows"
  shows "metrics_to slot ''static_hotset'' (demand_total (concat (map et_events items)))
      (served_by (\<lambda>l. hot_set (dict_get (layer_counts training) l []) c) (concat (map et_events items))) (bg_static_hotset g)"
    and "metrics_to slot ''lru'' (demand_total (concat (map et_events items))) (sum_of (lru_hits c) (map et_events items)) (bg_lru g)"
    and "bg_event_count g = int (length (concat (map et_events items)))"
    and "bg_expert_demand_count g = demand_total (concat (map et_events items))" and "bg_conversation_count g = int (length items)"
proof -
  let ?R = "\<lambda>l. hot_set (dict_get (layer_counts training) l []) c"
  obtain static lru where
    s: "combine_policy_metrics (sum_of hp_token_count rows) slot ms (map hp_static_hotset rows) = Inr static"
    and l: "combine_policy_metrics (sum_of hp_token_count rows) slot ms (map hp_lru rows) = Inr lru"
    and g: "g = \<lparr>bg_conversation_count = int (length rows), bg_event_count = sum_of hp_event_count rows,
        bg_token_count = sum_of hp_token_count rows, bg_expert_demand_count = sum_of hp_expert_demand_count rows,
        bg_static_hotset = static, bg_lru = lru\<rparr>"
    using assms(1) by (auto simp: aggregate_rows_def Let_def rbind_eq_Inr)
  have "metrics_to slot ''static_hotset'' (sum_of (\<lambda>item. demand_total (et_events item)) items)
      (sum_of (\<lambda>item. served_by ?R (et_events item)) items) static"
    by (rule combine_metrics [OF s]) (use assms(2) in \<open>auto simp: list_all2_map2 prompt_counts_def elim!: list_all2_mono\<close>)
  then show "metrics_to slot ''static_hotset'' (demand_total (concat (map et_events items)))
      (served_by ?R (concat (map et_events items))) (bg_static_hotset g)"
    by (simp add: g demand_total_concat served_by_concat comp_def)
  have "metrics_to slot ''lru'' (sum_of (\<lambda>item. demand_total (et_events item)) items) (sum_of (\<lambda>item. lru_hits c (et_events item)) items) lru"
    by (rule combine_metrics [OF l]) (use assms(2) in \<open>auto simp: list_all2_map2 prompt_counts_def elim!: list_all2_mono\<close>)
  then show "metrics_to slot ''lru'' (demand_total (concat (map et_events items))) (sum_of (lru_hits c) (map et_events items)) (bg_lru g)"
    by (simp add: g demand_total_concat comp_def)
  show "bg_event_count g = int (length (concat (map et_events items)))"
    using assms(2) unfolding g by (induction rule: list_all2_induct) (auto simp: prompt_counts_def)
  show "bg_expert_demand_count g = demand_total (concat (map et_events items))"
    using assms(2) unfolding g by (induction rule: list_all2_induct) (auto simp: prompt_counts_def demand_total_def)
  show "bg_conversation_count g = int (length items)" using list_all2_lengthD [OF assms(2)] by (simp add: g)
qed

lemma grouped_curve:
  assumes "\<forall>item \<in> set items. heldout_item training k c item" and "items \<noteq> []" and "\<forall>e \<in> set training. ev_width e = k"
    and "training \<noteq> []" and "0 < c" and "0 < slot" and "\<not> py_le ms (Fin 0)"
  shows "\<exists>curve p. build_held_out_capacity_curve training (concat (map et_events items)) (Some (map et_events items)) [c] slot ms = Inr curve
    \<and> cc_points curve = [p] \<and> cc_event_count curve = int (length (concat (map et_events items)))
    \<and> cc_expert_demand_count curve = demand_total (concat (map et_events items))
    \<and> counts_to ''static_hotset'' (demand_total (concat (map et_events items)))
        (served_by (\<lambda>l. hot_set (dict_get (layer_counts training) l []) c) (concat (map et_events items))) (pp_result (cp_static_hotset p))
    \<and> counts_to ''lru'' (demand_total (concat (map et_events items))) (sum_of (lru_hits c) (map et_events items)) (pp_result (cp_lru p))"
proof -
  let ?ev = "concat (map et_events items)"
  obtain item items' where items: "items = item # items'" using assms(2) by (cases items) auto
  have ev: "?ev \<noteq> []" "\<forall>e \<in> set ?ev. wf_event e \<and> ev_width e = k" "k \<le> c" "[] \<notin> set (map et_events items)"
    using assms(1) by (auto simp: items heldout_item_def)
  have layers: "ev_layer_id ` set ?ev = ev_layer_id ` set training"
    using assms(1) by (auto simp: items heldout_item_def) (metis imageE imageI)+
  obtain p where p: "held_out_point training ?ev (map et_events items) k slot ms c = Inr p"
    "counts_to ''static_hotset'' (demand_total ?ev)
        (served_by (\<lambda>l. hot_set (dict_get (layer_counts training) l []) c) ?ev) (pp_result (cp_static_hotset p))"
    "counts_to ''lru'' (demand_total ?ev) (sum_of (lru_hits c) (map et_events items)) (pp_result (cp_lru p))"
    using held_out_point_counts [OF ev(2,3) assms(5) refl ev(1) layers] by blast
  have top: "remdups (map ev_width (training @ ?ev)) = [k]"
    using assms(3,4) ev(2) by (intro remdups_constant) auto
  have layers': "set (map ev_layer_id training) = set (map ev_layer_id ?ev)" using layers by simp
  have groups: "map et_events items \<noteq> []" using assms(2) by simp
  show ?thesis
    using p assms(4-7) ev(1,4) groups
    by (simp only: build_held_out_capacity_curve_def Let_def option.case list.case if_False if_True top layers') (auto simp: fromkeys_def)
qed

lemma group_agrees:
  assumes "aggregate_rows slot ms rows = Inr g" and "list_all2 (prompt_counts training c slot) items rows"
    and "\<forall>item \<in> set items. heldout_item training k c item" and "items \<noteq> []" and "\<forall>e \<in> set training. ev_width e = k"
    and "training \<noteq> []" and "0 < c" and "0 < slot" and "\<not> py_le ms (Fin 0)"
  shows "breakdown_agrees training c slot ms items g"
proof -
  obtain curve p where curve: "build_held_out_capacity_curve training (concat (map et_events items)) (Some (map et_events items)) [c] slot ms = Inr curve"
      "cc_points curve = [p]" "cc_event_count curve = int (length (concat (map et_events items)))"
      "cc_expert_demand_count curve = demand_total (concat (map et_events items))"
      "counts_to ''static_hotset'' (demand_total (concat (map et_events items)))
        (served_by (\<lambda>l. hot_set (dict_get (layer_counts training) l []) c) (concat (map et_events items))) (pp_result (cp_static_hotset p))"
      "counts_to ''lru'' (demand_total (concat (map et_events items))) (sum_of (lru_hits c) (map et_events items)) (pp_result (cp_lru p))"
    using grouped_curve [OF assms(3-9)] by blast
  note agg = aggregate_counts [OF assms(1,2)]
  have "same_counts (bg_static_hotset g) (pp_result (cp_static_hotset p))" "same_counts (bg_lru g) (pp_result (cp_lru p))"
    using same_counts_iff [OF agg(1) curve(5)] same_counts_iff [OF agg(2) curve(6)] .
  then show ?thesis using curve(1-4) agg(3-5) unfolding breakdown_agrees_def by (intro exI [of _ curve] exI [of _ p]) simp
qed

lemma list_all2_filter:
  "list_all2 P xs ys \<Longrightarrow> (\<And>x y. P x y \<Longrightarrow> q x = r y) \<Longrightarrow> list_all2 P (filter q xs) (filter r ys)"
  by (induction rule: list_all2_induct) auto

lemma breakdown_regroups:
  assumes "build_heldout_breakdown training evaluations c slot ms = Inr r"
    and "\<forall>e \<in> set (training @ concat (map et_events evaluations)). wf_event e"
  shows "breakdown_agrees training c slot ms evaluations (hb_aggregate r)
    \<and> sorted_wrt (<) (map fst (hb_per_domain r)) \<and> set (map fst (hb_per_domain r)) = et_domain ` set evaluations
    \<and> (\<forall>(domain, g) \<in> set (hb_per_domain r).
         breakdown_agrees training c slot ms (filter (\<lambda>item. et_domain item = domain) evaluations) g)"
proof -
  let ?k = "ev_width (hd training)"
  let ?agg = "\<lambda>(domain, rows). rbind (aggregate_rows slot ms rows) (\<lambda>g. Inr (domain, g))"
  obtain per_prompt per_domain aggregate where
    ne: "training \<noteq> []" "evaluations \<noteq> []" and pos: "0 < c" "0 < slot" "\<not> py_le ms (Fin 0)"
    and rows: "rmap (breakdown_prompt training c slot ms) evaluations = Inr per_prompt"
    and domains: "rmap ?agg (sort_key fst (group_by hp_domain per_prompt)) = Inr per_domain"
    and agg: "aggregate_rows slot ms per_prompt = Inr aggregate"
    and r: "hb_per_domain r = per_domain" "hb_aggregate r = aggregate"
    using assms(1) unfolding build_heldout_breakdown_def rbind_eq_Inr if_Inl_eq_Inr by (elim exE conjE) (auto simp: not_le)
  have rows2: "list_all2 (\<lambda>item row. breakdown_prompt training c slot ms item = Inr row) evaluations per_prompt"
    using rows by (simp add: rmap_eq_Inr)
  have one: "heldout_item training ?k c item \<and> (\<forall>e \<in> set training. ev_width e = ?k) \<and> prompt_counts training c slot item row"
    if "breakdown_prompt training c slot ms item = Inr row" "item \<in> set evaluations" for item row
    using that assms(2) by (intro breakdown_prompt_counts [OF that(1) _ pos(1) ne(1) refl]) auto
  have all2: "list_all2 (prompt_counts training c slot) evaluations per_prompt"
    using rows2 one by (auto simp: list_all2_conv_all_nth)
  have items: "\<forall>item \<in> set evaluations. heldout_item training ?k c item"
    using rmap_elem_fwd [OF rows] one by blast
  have widths: "\<forall>e \<in> set training. ev_width e = ?k"
    using rmap_elem_fwd [OF rows] one ne(2) by (metis list.set_sel(1))
  have "breakdown_agrees training c slot ms evaluations aggregate"
    by (rule group_agrees [OF agg all2 items ne(2) widths ne(1) pos])
  moreover have "breakdown_agrees training c slot ms (filter (\<lambda>item. et_domain item = domain) evaluations) g"
    if entry: "(domain, g) \<in> set per_domain" for domain g
  proof -
    obtain grp where grp: "(domain, grp) \<in> set (group_by hp_domain per_prompt)" "aggregate_rows slot ms grp = Inr g"
      using rmap_elem [OF domains entry] by (auto simp: rbind_eq_Inr)
    have rows': "grp = filter (\<lambda>row. hp_domain row = domain) per_prompt" "grp \<noteq> []"
      using group_by_entry [OF grp(1)] by blast+
    have sub: "list_all2 (prompt_counts training c slot) (filter (\<lambda>item. et_domain item = domain) evaluations) grp"
      unfolding rows'(1) by (rule list_all2_filter [OF all2]) (simp add: prompt_counts_def)
    then have "filter (\<lambda>item. et_domain item = domain) evaluations \<noteq> []" using rows'(2) by auto
    then show ?thesis using items by (intro group_agrees [OF grp(2) sub _ _ widths ne(1) pos]) auto
  qed
  moreover have "map fst per_domain = map fst (sort_key fst (group_by hp_domain per_prompt))"
  proof -
    have "list_all2 (\<lambda>x y. ?agg x = Inr y) (sort_key fst (group_by hp_domain per_prompt)) per_domain"
      using domains by (simp add: rmap_eq_Inr)
    then show ?thesis by (induction rule: list_all2_induct) (auto simp: rbind_eq_Inr)
  qed
  moreover have "hp_domain ` set per_prompt = et_domain ` set evaluations"
  proof -
    have "map hp_domain per_prompt = map et_domain evaluations"
      using all2 by (induction rule: list_all2_induct) (auto simp: prompt_counts_def)
    then show ?thesis by (metis list.set_map)
  qed
  moreover have "sorted_wrt (<) (map fst (sort_key fst (group_by hp_domain per_prompt)))"
  proof -
    have "distinct (map fst (sort_key fst (group_by hp_domain per_prompt)))"
      using distinct_group_by [of hp_domain per_prompt] by (simp add: distinct_map)
    then show ?thesis by (simp add: strict_sorted_iff)
  qed
  ultimately show ?thesis unfolding r by (auto simp: keys_group_by)
qed

lemmas heldout_breakdown_agrees = breakdown_regroups [THEN conjunct1]

text \<open>
  C13. The held-out breakdown only regroups the held-out capacity curve: whenever it returns on valid
  events, its total has the demands, hits, misses, loads and hit rate of the curve point computed on
  all conversations together with the caches emptied at the start of each, for the static hot set and
  for the LRU policy; the domains are listed once each in order, and every domain agrees in the same way
  with the curve of its own conversations.
\<close>

theorem heldout_breakdown_regroups:
  assumes "build_heldout_breakdown training evaluations c slot ms = Inr r"
    and "\<forall>e \<in> set (training @ concat (map et_events evaluations)). wf_event e"
  shows "breakdown_agrees training c slot ms evaluations (hb_aggregate r)
    \<and> sorted_wrt (<) (map fst (hb_per_domain r)) \<and> set (map fst (hb_per_domain r)) = et_domain ` set evaluations
    \<and> (\<forall>(domain, g) \<in> set (hb_per_domain r).
         breakdown_agrees training c slot ms (filter (\<lambda>item. et_domain item = domain) evaluations) g)"
  by (rule breakdown_regroups [OF assms])


section \<open>The breakdown returns\<close>

lemma within:
  fixes x d s b :: int
  assumes "0 \<le> x" and "x \<le> d" and "0 < s" and "d * s \<le> b"
  shows "x * s \<le> b" and "x \<le> b" and "0 \<le> x * s"
proof -
  have "x * s \<le> d * s" using assms(2,3) by (intro mult_right_mono) auto
  then show "x * s \<le> b" using assms(4) by linarith
  have "x * 1 \<le> x * s" using assms(1,3) by (intro mult_left_mono) auto
  then show "x \<le> b" using \<open>x * s \<le> b\<close> by linarith
  show "0 \<le> x * s" using assms(1,3) by simp
qed

lemma metrics_of_total:
  assumes "0 \<le> hits" and "hits \<le> demand" and "0 < demand" and "0 < tokens" and "tokens \<le> 2 ^ 1000"
    and "0 < slot" and "demand * slot \<le> 2 ^ 1000"
  shows "is_ok (metrics_of tokens slot ms policy demand hits (demand - hits) (demand - hits))"
proof -
  let ?m = "demand - hits"
  obtain rate where rate: "int_truediv hits demand = Inr rate" using int_truediv_rate [OF assms(1-3)] by blast
  have le: "0 \<le> ?m" "?m \<le> demand" using assms(1,2) by simp_all
  note m = within [OF le assms(6,7)]
  obtain cold where cold: "int_truediv (?m * slot) tokens = Inr cold" using int_truediv_finite [OF m(3,1) assms(4)] by blast
  obtain m where m: "float_of_int ?m = Inr m" using float_of_int_finite [OF le(1) m(2)] by blast
  obtain n where n: "float_of_int tokens = Inr (Fin n)" "1 \<le> n" using float_of_int_pos [of tokens] assms(4,5) by auto
  then have "Fin n \<noteq> Fin 0" by auto
  then show ?thesis by (simp add: metrics_of_def rate cold m n(1) fdiv_def)
qed

lemma metrics_of_total_counts:
  assumes "counts_to policy demand hits r" and "0 \<le> hits" and "hits \<le> demand" and "0 < demand" and "0 < tokens"
    and "tokens \<le> 2 ^ 1000" and "0 < slot" and "demand * slot \<le> 2 ^ 1000"
  shows "is_ok (policy_metrics_of tokens slot ms r)"
  using assms(1) metrics_of_total [OF assms(2-8)] by (simp add: counts_to_def policy_metrics_of_def)

lemma sum_of_pos: "xs \<noteq> [] \<Longrightarrow> \<forall>x \<in> set xs. 0 < f x \<Longrightarrow> 0 < sum_of f xs"
  by (induction xs rule: list_nonempty_induct) auto

text \<open>Enough for every quotient to be a float.\<close>

definition sizes_ok :: "int \<Rightarrow> evaluation_trace list \<Rightarrow> bool" where
  "sizes_ok slot items \<longleftrightarrow> demand_total (concat (map et_events items)) * slot \<le> 2 ^ 1000"

lemma lru_hits_bounds:
  assumes "heldout_item training k c item" and "0 < c"
  shows "0 \<le> lru_hits c (et_events item) \<and> lru_hits c (et_events item) \<le> demand_total (et_events item)"
proof -
  have "trace_fits c (et_events item)" using assms by (auto simp: heldout_item_def trace_fits_def intro!: wf_fits)
  then obtain s where "simulate_policies (et_events item) c = Inr s" "result_consistent (cs_lru s)"
      "pr_demand_count (cs_lru s) = demand_total (et_events item)"
    using simulate_policies_ok by blast
  then show ?thesis by (auto simp: lru_hits_def result_consistent_def)
qed

lemma token_count_bounds: "events \<noteq> [] \<Longrightarrow> 0 < token_count events \<and> token_count events \<le> int (length events)"
  by (simp add: token_count_def) (metis length_map length_remdups_leq)

lemma events_le_demand: "\<forall>e \<in> set events. wf_event e \<Longrightarrow> int (length events) \<le> demand_total events"
  using width_bound(1) by (induction events) (fastforce simp: demand_total_def)+

lemma demand_sublist: "item \<in> set items \<Longrightarrow> demand_total (et_events item) \<le> demand_total (concat (map et_events items))"
proof -
  have "0 \<le> demand_total events" for events unfolding demand_total_def ev_width_def by (rule sum_of_nonneg) simp
  then show "item \<in> set items \<Longrightarrow> demand_total (et_events item) \<le> demand_total (concat (map et_events items))"
    unfolding demand_total_concat by (intro elem_le_sum_list) auto
qed

lemma breakdown_prompt_total:
  assumes training: "training \<noteq> []" "\<forall>e \<in> set training. ev_width e = k" and pos: "0 < c" "0 < slot" "\<not> py_le ms (Fin 0)"
    and item: "heldout_item training k c item" and size: "demand_total (et_events item) * slot \<le> 2 ^ 1000"
  shows "is_ok (breakdown_prompt training c slot ms item)"
proof -
  let ?ev = "et_events item"
  have ev: "?ev \<noteq> []" "\<forall>e \<in> set ?ev. wf_event e \<and> ev_width e = k" "k \<le> c" "ev_layer_id ` set ?ev = ev_layer_id ` set training"
    using item by (auto simp: heldout_item_def)
  let ?served = "served_by (\<lambda>l. hot_set (dict_get (layer_counts training) l []) c) ?ev"
  obtain p where p: "held_out_point training ?ev [?ev] k slot ms c = Inr p" "counts_to ''static_hotset'' (demand_total ?ev) ?served (pp_result (cp_static_hotset p))"
      "counts_to ''lru'' (demand_total ?ev) (lru_hits c ?ev) (pp_result (cp_lru p))"
    using held_out_point_counts [OF ev(2,3) pos(1), of "[?ev]" training slot ms] ev(1,4) by auto
  have "remdups (map ev_width (training @ ?ev)) = [k]" using training ev(2) by (intro remdups_constant) auto
  moreover have "set (map ev_layer_id training) = set (map ev_layer_id ?ev)" using ev(4) by simp
  ultimately obtain curve where curve: "build_held_out_capacity_curve training ?ev None [c] slot ms = Inr curve" "cc_points curve = [p]"
    using p(1) training(1) ev(1) pos
    by (simp only: build_held_out_capacity_curve_def Let_def option.case list.case if_False if_True) (auto simp: fromkeys_def)
  have sizes: "0 < token_count ?ev" "token_count ?ev \<le> demand_total ?ev" "0 < demand_total ?ev"
    using token_count_bounds [OF ev(1)] events_le_demand [of ?ev] ev(2) by auto
  have t: "0 < demand_total ?ev" "0 < token_count ?ev" "token_count ?ev \<le> 2 ^ 1000"
    using sizes within(2) [OF less_imp_le [OF sizes(1)] sizes(2) pos(2) size] by simp_all
  have "is_ok (policy_metrics_of (token_count ?ev) slot ms (pp_result (cp_static_hotset p)))"
    using metrics_of_total_counts [OF p(2) _ _ t pos(2) size] served_by_bounds by blast
  moreover have "is_ok (policy_metrics_of (token_count ?ev) slot ms (pp_result (cp_lru p)))"
    using metrics_of_total_counts [OF p(3) _ _ t pos(2) size] lru_hits_bounds [OF item pos(1)] by blast
  ultimately show ?thesis using curve by (auto simp: breakdown_prompt_def Let_def is_ok_iff)
qed

lemma aggregate_total:
  assumes training: "training \<noteq> []" "\<forall>e \<in> set training. ev_width e = k" and pos: "0 < c" "0 < slot" "\<not> py_le ms (Fin 0)"
    and counted: "list_all2 (prompt_counts training c slot) items rows" and items: "\<forall>item \<in> set items. heldout_item training k c item"
    and ne: "items \<noteq> []" and size: "sizes_ok slot items"
  shows "is_ok (aggregate_rows slot ms rows)"
proof -
  let ?ev = "concat (map et_events items)" and ?R = "\<lambda>l. hot_set (dict_get (layer_counts training) l []) c"
  have tokens: "sum_of hp_token_count rows = sum_of (\<lambda>item. token_count (et_events item)) items"
    using counted by (induction rule: list_all2_induct) (auto simp: prompt_counts_def)
  have item: "0 < token_count (et_events item) \<and> token_count (et_events item) \<le> demand_total (et_events item)" if "item \<in> set items" for item
    using items that token_count_bounds [of "et_events item"] events_le_demand [of "et_events item"] by (fastforce simp: heldout_item_def)
  have t: "0 < sum_of hp_token_count rows" "sum_of hp_token_count rows \<le> demand_total ?ev"
    unfolding tokens demand_total_concat map_map comp_def using item ne by (auto intro!: sum_of_pos sum_of_mono)
  then have d: "0 < demand_total ?ev" by linarith
  have tb: "sum_of hp_token_count rows \<le> 2 ^ 1000"
    by (rule within(2) [OF less_imp_le [OF t(1)] t(2) pos(2)]) (use size in \<open>simp only: sizes_ok_def\<close>)
  have "is_ok (combine_policy_metrics (sum_of hp_token_count rows) slot ms ms')"
    if ms': "list_all2 (\<lambda>item m. metrics_to slot policy (demand_total (et_events item)) (h item) m) items ms'"
      and h: "\<forall>item \<in> set items. 0 \<le> h item \<and> h item \<le> demand_total (et_events item)" for policy h ms'
  proof -
    have sums: "sum_of pm_demand_count ms' = demand_total ?ev" "sum_of pm_hit_count ms' = sum_of h items"
      "sum_of pm_miss_count ms' = demand_total ?ev - sum_of h items" "sum_of pm_load_count ms' = demand_total ?ev - sum_of h items"
      unfolding demand_total_concat map_map comp_def
      using ms' by (induction rule: list_all2_induct) (simp_all add: metrics_to_def)
    have "0 \<le> sum_of h items" "sum_of h items \<le> demand_total ?ev"
      unfolding demand_total_concat map_map comp_def using h by (auto intro!: sum_of_nonneg sum_of_mono)
    from metrics_of_total [OF this d t(1) tb pos(2)] size sums ms' ne
    show ?thesis by (cases ms') (auto simp: combine_policy_metrics_def sizes_ok_def)
  qed
  note combine = this
  have counts: "list_all2 (\<lambda>item m. metrics_to slot ''static_hotset'' (demand_total (et_events item)) (served_by ?R (et_events item)) m) items (map hp_static_hotset rows)"
    "list_all2 (\<lambda>item m. metrics_to slot ''lru'' (demand_total (et_events item)) (lru_hits c (et_events item)) m) items (map hp_lru rows)"
    using counted by (auto simp: list_all2_map2 prompt_counts_def elim!: list_all2_mono)
  have "is_ok (combine_policy_metrics (sum_of hp_token_count rows) slot ms (map hp_static_hotset rows))"
    by (rule combine [OF counts(1)]) (use served_by_bounds in blast)
  moreover have "is_ok (combine_policy_metrics (sum_of hp_token_count rows) slot ms (map hp_lru rows))"
    by (rule combine [OF counts(2)]) (use lru_hits_bounds items pos(1) in blast)
  ultimately show ?thesis by (auto simp: aggregate_rows_def Let_def is_ok_iff)
qed

lemma heldout_breakdown_total:
  assumes items: "\<forall>item \<in> set evaluations. heldout_item training k c item" "evaluations \<noteq> []" "distinct (map et_conversation_id evaluations)"
    and training: "training \<noteq> []" "\<forall>e \<in> set training. wf_event e \<and> ev_width e = k"
    and pos: "0 < c" "0 < slot" "\<not> py_le ms (Fin 0)" and sizes: "sizes_ok slot evaluations"
  shows "\<exists>r. build_heldout_breakdown training evaluations c slot ms = Inr r"
proof -
  have widths: "\<forall>e \<in> set training. ev_width e = k" using training(2) by blast
  have size: "demand_total (et_events item) * slot \<le> 2 ^ 1000" if "item \<in> set evaluations" for item
    using mult_right_mono [OF demand_sublist [OF that] less_imp_le [OF pos(2)]] sizes unfolding sizes_ok_def by (rule order_trans)
  obtain rows where rows: "rmap (breakdown_prompt training c slot ms) evaluations = Inr rows"
    using rmap_ex [of evaluations "breakdown_prompt training c slot ms"] breakdown_prompt_total [OF training(1) widths pos] items(1) size by blast
  have k: "k = ev_width (hd training)" using training by (cases training) auto
  have all2: "list_all2 (prompt_counts training c slot) evaluations rows"
    using rows breakdown_prompt_counts [OF _ _ pos(1) training(1) k] training(2) items(1)
    by (fastforce simp: rmap_eq_Inr list_all2_conv_all_nth heldout_item_def)
  obtain aggregate where agg: "aggregate_rows slot ms rows = Inr aggregate"
    using aggregate_total [OF training(1) widths pos all2 items(1,2) sizes] by (auto simp: is_ok_iff)
  have each: "is_ok (case entry of (domain, grp) \<Rightarrow> rbind (aggregate_rows slot ms grp) (\<lambda>g. Inr (domain, g)))"
    if entry: "entry \<in> set (sort_key fst (group_by hp_domain rows))" for entry
  proof -
    obtain domain grp where e: "entry = (domain, grp)" "(domain, grp) \<in> set (group_by hp_domain rows)" using entry that by (metis prod.collapse set_sort)
    have grp: "grp = filter (\<lambda>row. hp_domain row = domain) rows" "grp \<noteq> []" using group_by_entry [OF e(2)] by blast+
    let ?items = "filter (\<lambda>item. et_domain item = domain) evaluations"
    have sub: "list_all2 (prompt_counts training c slot) ?items grp"
      unfolding grp(1) by (rule list_all2_filter [OF all2]) (simp add: prompt_counts_def)
    have "demand_total (concat (map et_events ?items)) \<le> demand_total (concat (map et_events evaluations))"
    proof -
      have "0 \<le> demand_total events" for events unfolding demand_total_def ev_width_def by (rule sum_of_nonneg) simp
      then show ?thesis unfolding demand_total_concat map_map comp_def by (induction evaluations) (auto simp: add_increasing)
    qed
    then have "demand_total (concat (map et_events ?items)) * slot \<le> demand_total (concat (map et_events evaluations)) * slot"
      using pos(2) by (intro mult_right_mono) auto
    then have "sizes_ok slot ?items" using sizes unfolding sizes_ok_def by (rule order_trans)
    moreover have "?items \<noteq> []" using sub grp(2) by auto
    ultimately have "is_ok (aggregate_rows slot ms grp)" using items(1) by (intro aggregate_total [OF training(1) widths pos sub]) auto
    then show ?thesis by (auto simp: e(1) is_ok_iff)
  qed
  have "\<exists>per_domain. rmap (\<lambda>(domain, rows). rbind (aggregate_rows slot ms rows) (\<lambda>g. Inr (domain, g)))
      (sort_key fst (group_by hp_domain rows)) = Inr per_domain"
    by (rule rmap_ex) (rule each)
  then obtain per_domain where
    "rmap (\<lambda>(domain, rows). rbind (aggregate_rows slot ms rows) (\<lambda>g. Inr (domain, g))) (sort_key fst (group_by hp_domain rows)) = Inr per_domain"
    by blast
  then show ?thesis
    using items training pos rows agg by (auto simp: build_heldout_breakdown_def heldout_item_def not_le)
qed

definition example_evaluations :: "evaluation_trace list" where
  "example_evaluations = [\<lparr>et_conversation_id = ''a'', et_split = ''test'', et_domain = ''m'', et_source_trace = ''p'', et_events = example_trace\<rparr>,
     \<lparr>et_conversation_id = ''b'', et_split = ''test'', et_domain = ''c'', et_source_trace = ''q'', et_events = take 1 example_trace\<rparr>]"

lemma example_breakdown: "\<exists>r. build_heldout_breakdown [example_event 9 0 [3, 1]] example_evaluations 2 4096 (Fin 3) = Inr r"
  by (rule heldout_breakdown_total [where k = 2])
    (auto simp: example_evaluations_def heldout_item_def example_trace_def wf_example_event ev_width_def py_le_def sizes_ok_def demand_total_def)

theorem heldout_breakdown_regroups_witness:
  "\<exists>r. build_heldout_breakdown [example_event 9 0 [3, 1]] example_evaluations 2 4096 (Fin 3) = Inr r
    \<and> breakdown_agrees [example_event 9 0 [3, 1]] 2 4096 (Fin 3) example_evaluations (hb_aggregate r)"
proof -
  obtain r where r: "build_heldout_breakdown [example_event 9 0 [3, 1]] example_evaluations 2 4096 (Fin 3) = Inr r"
    using example_breakdown by blast
  have "\<forall>e \<in> set ([example_event 9 0 [3, 1]] @ concat (map et_events example_evaluations)). wf_event e"
    by (simp add: example_evaluations_def example_trace_def wf_example_event)
  from heldout_breakdown_regroups [OF r this] r show ?thesis by blast
qed

section \<open>Loading a collection\<close>

text \<open>
  What the loaded inputs are in terms of the shards of the manifest: the path of a shard's last
  attempt, the events selected from the trace at that path, and the shards of a split that passed.
\<close>

definition latest_path :: "jrecord \<Rightarrow> string option" where
  "latest_path shard = (case jget shard ''attempts'' of
     JArr attempts \<Rightarrow> if attempts = [] then None else (case last attempts of
       JObj latest \<Rightarrow> (case jget latest ''trace'' of JObj trace \<Rightarrow> (case jget trace ''artifact'' of
           JObj artifact \<Rightarrow> (case jget artifact ''path'' of JStr path \<Rightarrow> Some path | _ \<Rightarrow> None) | _ \<Rightarrow> None) | _ \<Rightarrow> None)
       | _ \<Rightarrow> None)
   | _ \<Rightarrow> None)"

definition shard_events :: "(string \<Rightarrow> router_trace_event list res) \<Rightarrow> (string \<Rightarrow> string) \<Rightarrow> string \<Rightarrow> int option \<Rightarrow> jrecord
    \<Rightarrow> router_trace_event list" where
  "shard_events traces resolve phase max_layer shard = (case latest_path shard of None \<Rightarrow> [] | Some path \<Rightarrow>
     (case traces (resolve path) of Inl _ \<Rightarrow> [] | Inr events \<Rightarrow> filter (selected_event phase max_layer) events))"

definition passed_in :: "string set \<Rightarrow> jrecord \<Rightarrow> bool" where
  "passed_in splits shard \<longleftrightarrow> jget shard ''latest_status'' = JStr ''passed'' \<and> jget shard ''split'' \<in> JStr ` splits"

definition evaluates :: "(string \<Rightarrow> router_trace_event list res) \<Rightarrow> (string \<Rightarrow> string) \<Rightarrow> string \<Rightarrow> int option \<Rightarrow> jrecord
    \<Rightarrow> evaluation_trace \<Rightarrow> bool" where
  "evaluates traces resolve phase max_layer shard x \<longleftrightarrow> jget shard ''conversation_id'' = JStr (et_conversation_id x)
     \<and> jget shard ''split'' = JStr (et_split x) \<and> jget shard ''domain'' = JStr (et_domain x)
     \<and> Some (et_source_trace x) = map_option resolve (latest_path shard)
     \<and> et_events x = shard_events traces resolve phase max_layer shard \<and> et_events x \<noteq> []"

definition excludes :: "jrecord \<Rightarrow> excluded_shard \<Rightarrow> bool" where
  "excludes shard x \<longleftrightarrow> jget shard ''conversation_id'' = JStr (xs_conversation_id x)
     \<and> jget shard ''split'' = JStr (xs_split x) \<and> jget shard ''domain'' = JStr (xs_domain x)
     \<and> jget shard ''latest_status'' = JStr (xs_latest_status x)
     \<and> (\<exists>attempts. jget shard ''attempts'' = JArr attempts \<and> xs_attempt_count x = int (length attempts))"

text \<open>
  The inputs hold, in the order of the manifest, the events of the passed training shards, one trace
  for each passed validation or test shard, and one entry for each shard that did not pass.
\<close>

definition separated :: "(string \<Rightarrow> router_trace_event list res) \<Rightarrow> (string \<Rightarrow> string) \<Rightarrow> string \<Rightarrow> string \<Rightarrow> int option \<Rightarrow> bool
    \<Rightarrow> jrecord list \<Rightarrow> breakdown_inputs \<Rightarrow> bool" where
  "separated traces resolve phase evaluation_phase max_layer exclude_failed shards s \<longleftrightarrow>
     bi_training s = concat (map (shard_events traces resolve phase max_layer) (filter (passed_in {''train''}) shards))
     \<and> list_all2 (evaluates traces resolve evaluation_phase max_layer)
         (filter (passed_in {''validation'', ''test''}) shards) (bi_evaluations s)
     \<and> list_all2 excludes (filter (\<lambda>shard. jget shard ''latest_status'' \<noteq> JStr ''passed'') shards) (bi_excluded s)
     \<and> (\<forall>shard \<in> set shards. passed_in {''train'', ''validation'', ''test''} shard
          \<or> jget shard ''latest_status'' \<noteq> JStr ''passed'' \<and> exclude_failed)"

lemma collection_trace_path_ok:
  assumes "collection_trace_path (last attempts) = Inr path" and "jget shard ''attempts'' = JArr attempts" and "attempts \<noteq> []"
  shows "latest_path shard = Some path"
proof -
  obtain v where v: "rbind (subscript (last attempts) ''trace'') (\<lambda>t. rbind (subscript t ''artifact'') (\<lambda>a. subscript a ''path'')) = Inr v"
    using assms(1) by (auto simp: collection_trace_path_def split: sum.splits if_splits)
  then have "v = JStr path" using assms(1) by (auto simp: collection_trace_path_def split: json.splits)
  moreover have sub: "subscript x k = Inr y \<Longrightarrow> \<exists>d. x = JObj d \<and> jget d k = y" for x k y
    by (auto simp: subscript_def dict_index_def jget_def dict_get_def split: json.splits option.splits)
  obtain t a where "subscript (last attempts) ''trace'' = Inr t" "subscript t ''artifact'' = Inr a" "subscript a ''path'' = Inr v"
    using v by (auto simp: rbind_eq_Inr)
  ultimately obtain d e f where "last attempts = JObj d" "jget d ''trace'' = JObj e" "jget e ''artifact'' = JObj f"
    "jget f ''path'' = JStr path" using sub by metis
  then show ?thesis using assms(2,3) by (simp add: latest_path_def)
qed

lemma passed_shard_separated:
  assumes "passed_shard traces resolve phase evaluation_phase max_layer s shard path = Inr s'"
    and "latest_path shard = Some path" and "jget shard ''latest_status'' = JStr ''passed''"
    and "separated traces resolve phase evaluation_phase max_layer x shards s"
  shows "separated traces resolve phase evaluation_phase max_layer x (shards @ [shard]) s'"
proof -
  let ?path = "resolve path" and ?split = "jget shard ''split''"
  let ?p = "if ?split = JStr ''train'' then phase else evaluation_phase"
  obtain all_events where all: "traces ?path = Inr all_events" using assms(1) by (auto simp: passed_shard_def Let_def rbind_eq_Inr)
  let ?ev = "filter (selected_event ?p max_layer) all_events"
  have ev: "shard_events traces resolve ?p max_layer shard = ?ev" by (simp add: shard_events_def assms(2) all)
  show ?thesis
  proof (cases "?split = JStr ''train''")
    case True
    then have "s' = s\<lparr>bi_training := bi_training s @ ?ev\<rparr>" using assms(1) by (simp add: passed_shard_def Let_def all split: if_splits)
    then show ?thesis using assms(3,4) ev True by (simp add: separated_def passed_in_def)
  next
    case False
    then obtain c sp d where e: "jget shard ''conversation_id'' = JStr c" "?split = JStr sp" "jget shard ''domain'' = JStr d"
        "sp \<in> {''validation'', ''test''}" "?ev \<noteq> []"
      using assms(1) by (auto simp: passed_shard_def Let_def all split: if_splits json.splits)
    let ?x = "\<lparr>et_conversation_id = c, et_split = sp, et_domain = d, et_source_trace = ?path, et_events = ?ev\<rparr>"
    have s': "s' = s\<lparr>bi_evaluations := bi_evaluations s @ [?x]\<rparr>"
      using assms(1) False e by (simp add: passed_shard_def Let_def all unhashable_def split: if_splits)
    have "evaluates traces resolve evaluation_phase max_layer shard ?x"
      using e ev False by (simp add: evaluates_def assms(2))
    moreover have "passed_in {''validation'', ''test''} shard" "\<not> passed_in {''train''} shard"
      "passed_in {''train'', ''validation'', ''test''} shard"
      using e(2,4) False assms(3) by (auto simp: passed_in_def)
    ultimately show ?thesis using assms(3,4) False by (simp add: separated_def s' list_all2_appendI)
  qed
qed

lemma collection_shard_separated:
  assumes "collection_shard traces resolve phase evaluation_phase max_layer x s v = Inr s'"
    and "separated traces resolve phase evaluation_phase max_layer x shards s"
  shows "\<exists>shard. v = JObj shard \<and> separated traces resolve phase evaluation_phase max_layer x (shards @ [shard]) s'"
proof -
  obtain shard where v: "v = JObj shard" using assms(1) by (cases v) (simp_all add: collection_shard_def)
  obtain attempts where a: "jget shard ''attempts'' = JArr attempts" "attempts \<noteq> []"
    using assms(1) by (cases "jget shard ''attempts''") (simp_all add: collection_shard_def v split: if_splits)
  have "separated traces resolve phase evaluation_phase max_layer x (shards @ [shard]) s'"
  proof (cases "jget shard ''latest_status'' = JStr ''passed''")
    case True
    then obtain path where p: "collection_trace_path (last attempts) = Inr path"
      "passed_shard traces resolve phase evaluation_phase max_layer s shard path = Inr s'"
      using assms(1) a by (auto simp: collection_shard_def v rbind_eq_Inr)
    show ?thesis by (rule passed_shard_separated [OF p(2) collection_trace_path_ok [OF p(1) a] True assms(2)])
  next
    case False
    then obtain y where "x" and y: "excluded_shard_of shard (int (length attempts)) = Inr y" "s' = s\<lparr>bi_excluded := bi_excluded s @ [y]\<rparr>"
      using assms(1) a by (auto simp: collection_shard_def v rbind_eq_Inr split: if_splits)
    have "excludes shard y" using y(1) a(1) by (auto simp: excluded_shard_of_def excludes_def split: json.splits)
    moreover have "\<not> passed_in splits shard" for splits using False by (simp add: passed_in_def)
    ultimately show ?thesis using assms(2) \<open>x\<close> False by (simp add: separated_def y(2) list_all2_appendI)
  qed
  then show ?thesis by (simp add: v)
qed

lemma collection_shards_separated:
  "rfold (collection_shard traces resolve phase evaluation_phase max_layer x)
      \<lparr>bi_training = [], bi_evaluations = [], bi_excluded = []\<rparr> vs = Inr s
    \<Longrightarrow> \<exists>shards. vs = map JObj shards \<and> separated traces resolve phase evaluation_phase max_layer x shards s"
proof (induction vs arbitrary: s rule: rev_induct)
  case Nil
  then show ?case by (intro exI [of _ "[]"]) (auto simp: separated_def)
next
  case (snoc v vs)
  then obtain s0 where s0: "rfold (collection_shard traces resolve phase evaluation_phase max_layer x)
      \<lparr>bi_training = [], bi_evaluations = [], bi_excluded = []\<rparr> vs = Inr s0"
    and step: "collection_shard traces resolve phase evaluation_phase max_layer x s0 v = Inr s"
    by (auto simp: rfold_append rbind_eq_Inr)
  obtain shards where "vs = map JObj shards" and sep: "separated traces resolve phase evaluation_phase max_layer x shards s0"
    using snoc.IH [OF s0] by blast
  moreover obtain shard where "v = JObj shard" "separated traces resolve phase evaluation_phase max_layer x (shards @ [shard]) s"
    using collection_shard_separated [OF step sep] by blast
  ultimately show ?case by (intro exI [of _ "shards @ [shard]"]) simp
qed

definition evaluation_phase_of :: "string \<Rightarrow> string option \<Rightarrow> string" where
  "evaluation_phase_of phase evaluation_phase = (case evaluation_phase of None \<Rightarrow> phase | Some p \<Rightarrow> if p = [] then phase else p)"

lemma load_collection_ok:
  assumes "load_collection_breakdown_inputs traces resolve manifest phase evaluation_phase max_layer x = Inr s"
  shows "\<exists>payload shards. manifest = Inr (JObj payload) \<and> jget payload ''shards'' = JArr (map JObj shards)
    \<and> separated traces resolve phase (evaluation_phase_of phase evaluation_phase) max_layer x shards s
    \<and> bi_training s \<noteq> [] \<and> bi_evaluations s \<noteq> []"
proof -
  let ?p = "evaluation_phase_of phase evaluation_phase"
  obtain payload where m: "manifest = Inr (JObj payload)"
    using assms by (auto simp: load_collection_breakdown_inputs_def Let_def split: if_splits sum.splits json.splits)
  obtain vs where sh: "jget payload ''shards'' = JArr vs"
    using assms by (auto simp: load_collection_breakdown_inputs_def Let_def m rbind_eq_Inr split: if_splits json.splits)
  have s: "rfold (collection_shard traces resolve phase ?p max_layer x)
      \<lparr>bi_training = [], bi_evaluations = [], bi_excluded = []\<rparr> vs = Inr s" "bi_training s \<noteq> []" "bi_evaluations s \<noteq> []"
    using assms unfolding load_collection_breakdown_inputs_def Let_def m evaluation_phase_of_def [symmetric]
    by (simp_all add: sh rbind_eq_Inr split: if_splits option.splits)
  obtain shards where "vs = map JObj shards" "separated traces resolve phase ?p max_layer x shards s"
    using collection_shards_separated [OF s(1)] by blast
  then show ?thesis using s(2,3) m sh by blast
qed

lemma shard_events_traces:
  assumes "e \<in> set (shard_events traces resolve phase max_layer shard)"
  shows "\<exists>path events. traces path = Inr events \<and> e \<in> set events"
  using assms by (cases "latest_path shard"; cases "traces (resolve (the (latest_path shard)))")
    (auto simp: shard_events_def)

lemma separated_traces:
  assumes "separated traces resolve phase evaluation_phase max_layer x shards s"
    and "e \<in> set (bi_training s @ concat (map et_events (bi_evaluations s)))"
  shows "\<exists>path events. traces path = Inr events \<and> e \<in> set events"
proof -
  have "et_events t = shard_events traces resolve evaluation_phase max_layer shard" if "evaluates traces resolve evaluation_phase max_layer shard t" for shard t
    using that by (simp add: evaluates_def)
  then have "\<exists>phase shard. e \<in> set (shard_events traces resolve phase max_layer shard)"
    using assms by (fastforce simp: separated_def list_all2_conv_all_nth in_set_conv_nth)
  then show ?thesis using shard_events_traces by blast
qed

text \<open>
  C14. A collection is split without leakage. Whenever loading returns, the training events are, in
  order, the events of the training phase and layers in the traces of exactly those shards of the
  manifest that passed with the split \<open>train\<close>. There is one held-out trace for each shard that passed
  with the split \<open>validation\<close> or \<open>test\<close>, with that shard's identity and exactly the selected events of
  its own trace. Every other shard did not pass; it is reported as excluded, and only when
  the caller asked for that. The breakdown of the loaded inputs regroups the held-out curve when the
  trace reader returns valid events.
\<close>

theorem loaded_collection_breakdown:
  assumes "load_collection_breakdown_inputs traces resolve manifest phase evaluation_phase max_layer exclude_failed = Inr s"
    and "\<forall>path events. traces path = Inr events \<longrightarrow> (\<forall>e \<in> set events. wf_event e)"
  shows "(\<exists>payload shards. manifest = Inr (JObj payload) \<and> jget payload ''shards'' = JArr (map JObj shards)
      \<and> separated traces resolve phase (evaluation_phase_of phase evaluation_phase) max_layer exclude_failed shards s)
    \<and> (\<forall>c slot ms r. build_heldout_breakdown (bi_training s) (bi_evaluations s) c slot ms = Inr r \<longrightarrow>
         breakdown_agrees (bi_training s) c slot ms (bi_evaluations s) (hb_aggregate r))"
proof -
  obtain payload shards where sep: "manifest = Inr (JObj payload)" "jget payload ''shards'' = JArr (map JObj shards)"
    "separated traces resolve phase (evaluation_phase_of phase evaluation_phase) max_layer exclude_failed shards s"
    using load_collection_ok [OF assms(1)] by blast
  have "\<forall>e \<in> set (bi_training s @ concat (map et_events (bi_evaluations s))). wf_event e"
    using separated_traces [OF sep(3)] assms(2) by blast
  then show ?thesis using sep heldout_breakdown_agrees by blast
qed

definition example_traces :: "string \<Rightarrow> router_trace_event list res" where
  "example_traces path = (if path = ''t'' then Inr [example_event 9 0 [3, 1]] else if path = ''e'' then Inr example_trace else Inl OSError)"

definition example_shard :: "string \<Rightarrow> string \<Rightarrow> json" where
  "example_shard split path = JObj [(''attempts'', JArr [JObj [(''trace'', JObj [(''artifact'', JObj [(''path'', JStr path)])])]]),
     (''latest_status'', JStr ''passed''), (''split'', JStr split), (''conversation_id'', JStr path), (''domain'', JStr ''m'')]"

definition example_collection :: json where
  "example_collection = JObj [(''shards'', JArr [example_shard ''train'' ''t'', example_shard ''test'' ''e''])]"

definition example_inputs :: breakdown_inputs where
  "example_inputs = \<lparr>bi_training = [example_event 9 0 [3, 1]], bi_evaluations = [\<lparr>et_conversation_id = ''e'', et_split = ''test'',
     et_domain = ''m'', et_source_trace = ''e'', et_events = example_trace\<rparr>], bi_excluded = []\<rparr>"

lemma example_loaded:
  "load_collection_breakdown_inputs example_traces (\<lambda>p. p) (Inr example_collection) ''decode'' None None False = Inr example_inputs"
  by code_simp

theorem loaded_collection_breakdown_witness:
  "(\<exists>shards. map JObj shards = [example_shard ''train'' ''t'', example_shard ''test'' ''e'']
      \<and> separated example_traces (\<lambda>p. p) ''decode'' ''decode'' None False shards example_inputs)
    \<and> (\<exists>r. build_heldout_breakdown (bi_training example_inputs) (bi_evaluations example_inputs) 2 4096 (Fin 3) = Inr r
         \<and> breakdown_agrees (bi_training example_inputs) 2 4096 (Fin 3) (bi_evaluations example_inputs) (hb_aggregate r))"
proof -
  have "\<forall>path events. example_traces path = Inr events \<longrightarrow> (\<forall>e \<in> set events. wf_event e)"
    by (auto simp: example_traces_def example_trace_def wf_example_event split: if_splits)
  note claim = loaded_collection_breakdown [OF example_loaded this]
  obtain payload shards where "Inr example_collection = (Inr (JObj payload) :: json res)"
    "jget payload ''shards'' = JArr (map JObj shards)"
    and sep: "separated example_traces (\<lambda>p. p) ''decode'' (evaluation_phase_of ''decode'' None) None False shards example_inputs"
    using claim [THEN conjunct1] by (elim exE conjE) (rule that)
  then have shards: "map JObj shards = [example_shard ''train'' ''t'', example_shard ''test'' ''e'']"
    by (auto simp: example_collection_def jget_def dict_get_def)
  have "evaluation_phase_of ''decode'' None = ''decode''" by (simp add: evaluation_phase_of_def)
  with sep shards have first: "\<exists>shards. map JObj shards = [example_shard ''train'' ''t'', example_shard ''test'' ''e'']
      \<and> separated example_traces (\<lambda>p. p) ''decode'' ''decode'' None False shards example_inputs" by metis
  have all: "\<And>r. build_heldout_breakdown (bi_training example_inputs) (bi_evaluations example_inputs) 2 4096 (Fin 3) = Inr r \<Longrightarrow>
         breakdown_agrees (bi_training example_inputs) 2 4096 (Fin 3) (bi_evaluations example_inputs) (hb_aggregate r)"
    using claim [THEN conjunct2] by blast
  have "\<exists>r. build_heldout_breakdown (bi_training example_inputs) (bi_evaluations example_inputs) 2 4096 (Fin 3) = Inr r"
    by (rule heldout_breakdown_total [where k = 2])
      (auto simp: example_inputs_def heldout_item_def example_trace_def wf_example_event ev_width_def py_le_def sizes_ok_def demand_total_def)
  then show ?thesis using first all by blast
qed

end
