(* ===== verification/Expert_Layout.thy ===== *)
theory Expert_Layout
  imports Prelude
begin

text \<open>
  \<open>analysis/expert_layout.py\<close>: the byte spans of every expert inside the layer-level tensors of a GGUF
  file, and the aligned slot each expert would take in the CUDA cache. The lemmas show that the spans
  of the experts tile their tensor, that the components of a slot are aligned and never overlap, that every
  slot fits the projected slot size, and that no encoded byte is lost.
\<close>

section \<open>Tensors\<close>

record expert_tensor =
  xt_layer_id :: int
  xt_component :: string
  xt_tensor_name :: string
  xt_tensor_type :: string
  xt_shape :: "int list"
  xt_expert_count :: int
  xt_encoded_bytes :: int
  xt_data_offset :: int
  xt_ne0 :: int
  xt_quant_block_elements :: "int option"
  xt_quant_block_bytes :: "int option"

text \<open>The pattern \<open>blk\.[0-9]+\.(name)\<close>: the digits of the layer and the name after them.\<close>

definition ascii_digit :: "char \<Rightarrow> bool" where
  "ascii_digit c \<longleftrightarrow> c \<in> set ''0123456789''"

definition EXPERT_NAMES :: "string list" where
  "EXPERT_NAMES = [''ffn_down_exps.weight'', ''ffn_gate_up_exps.weight'', ''ffn_down_exps.scale'']"

definition match_expert_name :: "string \<Rightarrow> (string \<times> string) option" where
  "match_expert_name name =
     (let rest = drop 4 name; digits = takeWhile ascii_digit rest; after = dropWhile ascii_digit rest in
      if take 4 name = ''blk.'' \<and> digits \<noteq> [] \<and> take 1 after = ''.'' \<and> drop 1 after \<in> set EXPERT_NAMES
      then Some (digits, drop 1 after) else None)"

definition digit_value :: "char \<Rightarrow> int" where
  "digit_value c = int (of_char c) - 48"

text \<open>\<open>int(digits)\<close>; Python refuses texts of more than 4300 digits.\<close>

definition layer_number :: "string \<Rightarrow> int res" where
  "layer_number digits = (if 4300 < length digits then Inl (ValueError ''Exceeds the limit (4300 digits)'')
     else Inr (foldl (\<lambda>n c. 10 * n + digit_value c) 0 digits))"

definition expert_tensor_from_gguf_metadata :: "string \<Rightarrow> int list \<Rightarrow> string \<Rightarrow> int \<Rightarrow> int \<Rightarrow> expert_tensor option res" where
  "expert_tensor_from_gguf_metadata name shape tensor_type encoded_bytes data_offset =
     (case match_expert_name name of
        None \<Rightarrow> Inr None
      | Some (digits, suffix) \<Rightarrow>
          rbind (if suffix = ''ffn_down_exps.scale''
            then (if tensor_type \<noteq> ''F32'' \<or> length shape \<noteq> 1
              then Inl (ValueError ''expert scale tensor must be one-dimensional F32'')
              else Inr (''down_scale'', hd shape, 1, None, None))
            else (if tensor_type \<noteq> ''Q4_0'' \<or> length shape \<noteq> 3
              then Inl (ValueError ''expert weight tensors must be three-dimensional Q4_0'')
              else Inr (if suffix = ''ffn_down_exps.weight'' then ''down_weight'' else ''gate_up_weight'',
                last shape, hd shape, Some 32, Some 18)))
            (\<lambda>(component, expert_count, ne0, block_elements, block_bytes).
          rbind (layer_number digits) (\<lambda>layer.
            Inr (Some \<lparr>xt_layer_id = layer, xt_component = component, xt_tensor_name = name, xt_tensor_type = tensor_type,
              xt_shape = shape, xt_expert_count = expert_count, xt_encoded_bytes = encoded_bytes, xt_data_offset = data_offset,
              xt_ne0 = ne0, xt_quant_block_elements = block_elements, xt_quant_block_bytes = block_bytes\<rparr>))))"

definition align_up :: "int \<Rightarrow> int \<Rightarrow> int" where
  "align_up value alignment = (value + alignment - 1) div alignment * alignment"

definition row_padding_bytes :: "expert_tensor \<Rightarrow> int \<Rightarrow> int res" where
  "row_padding_bytes t matrix_row_padding = (case (xt_quant_block_elements t, xt_quant_block_bytes t) of
     (None, None) \<Rightarrow> Inr 0
   | (Some elements, Some bytes) \<Rightarrow>
       if elements \<le> 0 \<or> bytes \<le> 0 then Inl (ValueError ''quantization block metadata must be positive'')
       else let remainder = xt_ne0 t mod matrix_row_padding; padding = matrix_row_padding - remainder in
         if remainder = 0 then Inr 0
         else if padding mod elements \<noteq> 0 then Inl (ValueError ''matrix row padding must align to quantization blocks'')
         else Inr (padding div elements * bytes)
   | _ \<Rightarrow> Inl (ValueError ''quantization block metadata must be complete''))"

section \<open>The inventory\<close>

record component_span =
  cs_component :: string
  cs_tensor_name :: string
  cs_tensor_type :: string
  cs_shape :: "int list"
  cs_source_start :: int
  cs_source_end :: int
  cs_encoded_bytes :: int
  cs_row_padding :: int
  cs_allocation :: int
  cs_slot_start :: int
  cs_start_padding :: int

record expert_object =
  xo_layer_id :: int
  xo_expert_id :: int
  xo_encoded_packed :: int
  xo_slot_bytes :: int
  xo_end_padding :: int
  xo_components :: "component_span list"

record layer_summary =
  ls_layer_id :: int
  ls_expert_count :: int
  ls_encoded_bytes :: int
  ls_slot_bytes :: int
  ls_all_experts_bytes :: int

record expert_inventory =
  xi_alignment :: int
  xi_row_padding_elements :: int
  xi_component_order :: "string list"
  xi_layer_ids :: "int list"
  xi_layer_count :: int
  xi_expert_count :: int
  xi_object_count :: int
  xi_same_encoded :: bool
  xi_same_slot :: bool
  xi_encoded_min :: int
  xi_encoded_max :: int
  xi_slot_min :: int
  xi_slot_max :: int
  xi_target_layer_ids :: "int list"
  xi_target_layer_count :: int
  xi_capacity_per_layer :: int
  xi_slot_count :: int
  xi_slot_bytes :: int
  xi_cache_bytes :: int
  xi_tensors :: "expert_tensor list"
  xi_layers :: "layer_summary list"
  xi_objects :: "expert_object list"

type_synonym layer_table = "(int, (string, expert_tensor) dict) dict"

definition add_tensor :: "layer_table \<Rightarrow> expert_tensor \<Rightarrow> layer_table res" where
  "add_tensor by_layer t = (let components = dict_get by_layer (xt_layer_id t) [] in
     if xt_layer_id t < 0 \<or> xt_expert_count t \<le> 0 then Inl (ValueError ''layer IDs and expert counts must be valid'')
     else if xt_encoded_bytes t \<le> 0 \<or> xt_data_offset t < 0 \<or> xt_ne0 t \<le> 0
     then Inl (ValueError ''tensor byte ranges and ne0 must be valid'')
     else if xt_encoded_bytes t mod xt_expert_count t \<noteq> 0 then Inl (ValueError ''tensor encoded bytes must be divisible by experts'')
     else if xt_component t \<in> fst ` set components then Inl (ValueError ''layer component values must be unique'')
     else Inr (dict_set (xt_layer_id t) (dict_set (xt_component t) t components) by_layer))"

text \<open>One component of a slot: the state is the cursor, the encoded total and the components so far.\<close>

definition place_component :: "(string, expert_tensor) dict \<Rightarrow> int \<Rightarrow> int \<Rightarrow> int \<Rightarrow> int \<times> int \<times> component_span list \<Rightarrow> string
    \<Rightarrow> (int \<times> int \<times> component_span list) res" where
  "place_component components alignment matrix_row_padding expert_id = (\<lambda>(cursor, encoded_total, placed) component.
     rbind (dict_index components component) (\<lambda>t.
     let encoded = xt_encoded_bytes t div xt_expert_count t in
     rbind (row_padding_bytes t matrix_row_padding) (\<lambda>padding.
     let slot_start = align_up cursor alignment; source_start = xt_data_offset t + expert_id * encoded;
         source_end = source_start + encoded in
     if xt_data_offset t + xt_encoded_bytes t < source_end then Inl (ValueError ''expert source span exceeds tensor bounds'')
     else Inr (slot_start + (encoded + padding), encoded_total + encoded, placed @
       [\<lparr>cs_component = component, cs_tensor_name = xt_tensor_name t, cs_tensor_type = xt_tensor_type t, cs_shape = xt_shape t,
         cs_source_start = source_start, cs_source_end = source_end, cs_encoded_bytes = encoded, cs_row_padding = padding,
         cs_allocation = encoded + padding, cs_slot_start = slot_start, cs_start_padding = slot_start - cursor\<rparr>]))))"

definition place_expert :: "layer_table \<Rightarrow> int \<Rightarrow> int \<Rightarrow> string list \<Rightarrow> int \<times> int \<Rightarrow> expert_object res" where
  "place_expert by_layer alignment matrix_row_padding component_order = (\<lambda>(layer_id, expert_id).
     rbind (rfold (place_component (dict_get by_layer layer_id []) alignment matrix_row_padding expert_id) (0, 0, []) component_order)
       (\<lambda>(cursor, encoded_total, placed). let slot = align_up cursor alignment in
         Inr \<lparr>xo_layer_id = layer_id, xo_expert_id = expert_id, xo_encoded_packed = encoded_total, xo_slot_bytes = slot,
           xo_end_padding = slot - cursor, xo_components = placed\<rparr>))"

definition layer_summary_of :: "expert_object list \<Rightarrow> int \<Rightarrow> int \<Rightarrow> int \<Rightarrow> layer_summary" where
  "layer_summary_of objects expert_count slot_bytes layer_id = \<lparr>ls_layer_id = layer_id, ls_expert_count = expert_count,
     ls_encoded_bytes = sum_of xo_encoded_packed (filter (\<lambda>x. xo_layer_id x = layer_id) objects),
     ls_slot_bytes = slot_bytes, ls_all_experts_bytes = slot_bytes * expert_count\<rparr>"

definition build_expert_inventory :: "expert_tensor list \<Rightarrow> int \<Rightarrow> int \<Rightarrow> string list \<Rightarrow> int list \<Rightarrow> int \<Rightarrow> expert_inventory res" where
  "build_expert_inventory tensors alignment matrix_row_padding component_order target_layer_ids capacity_per_layer =
     (if tensors = [] then Inl (ValueError ''tensors must not be empty'')
      else if alignment \<le> 0 \<or> matrix_row_padding \<le> 0 \<or> capacity_per_layer \<le> 0
      then Inl (ValueError ''alignment, row padding, and capacity must be positive'')
      else if component_order = [] \<or> \<not> distinct component_order then Inl (ValueError ''component_order must contain unique values'')
      else if target_layer_ids = [] \<or> \<not> distinct target_layer_ids then Inl (ValueError ''target_layer_ids must contain unique values'')
      else rbind (rfold add_tensor [] tensors) (\<lambda>by_layer.
      let layer_ids = sort (map fst by_layer);
          expert_counts = remdups (map xt_expert_count (concat (map (map snd \<circ> snd) by_layer))) in
      if \<not> set target_layer_ids \<subseteq> set layer_ids then Inl (ValueError ''target layers must exist in the tensor inventory'')
      else if length expert_counts \<noteq> 1 then Inl (ValueError ''all expert tensors must use one expert count'')
      else if \<not> (\<forall>(_, components) \<in> set by_layer. fst ` set components = set component_order)
      then Inl (ValueError ''every layer must contain the declared components'')
      else let expert_count = hd expert_counts in
      rbind (rmap (place_expert by_layer alignment matrix_row_padding component_order)
        (List.product layer_ids [0..expert_count - 1])) (\<lambda>objects.
      let encoded = map xo_encoded_packed objects; slots = map xo_slot_bytes objects; slot_bytes = Max (set slots) in
      Inr \<lparr>xi_alignment = alignment, xi_row_padding_elements = matrix_row_padding, xi_component_order = component_order,
        xi_layer_ids = layer_ids, xi_layer_count = int (length layer_ids), xi_expert_count = expert_count,
        xi_object_count = int (length objects), xi_same_encoded = (card (set encoded) = 1), xi_same_slot = (card (set slots) = 1),
        xi_encoded_min = Min (set encoded), xi_encoded_max = Max (set encoded), xi_slot_min = Min (set slots), xi_slot_max = slot_bytes,
        xi_target_layer_ids = target_layer_ids, xi_target_layer_count = int (length target_layer_ids),
        xi_capacity_per_layer = capacity_per_layer, xi_slot_count = int (length target_layer_ids) * capacity_per_layer,
        xi_slot_bytes = slot_bytes, xi_cache_bytes = slot_bytes * int (length target_layer_ids) * capacity_per_layer,
        xi_tensors = tensors, xi_layers = map (layer_summary_of objects expert_count slot_bytes) layer_ids, xi_objects = objects\<rparr>)))"

section \<open>The table of tensors\<close>

definition table_tensors :: "layer_table \<Rightarrow> expert_tensor list" where
  "table_tensors by_layer = concat (map (\<lambda>(_, components). map snd components) by_layer)"

definition valid_tensor :: "expert_tensor \<Rightarrow> bool" where
  "valid_tensor t \<longleftrightarrow> 0 \<le> xt_layer_id t \<and> 0 < xt_expert_count t \<and> 0 < xt_encoded_bytes t \<and> 0 \<le> xt_data_offset t
     \<and> xt_expert_count t dvd xt_encoded_bytes t"

definition layer_ok :: "int \<Rightarrow> (string, expert_tensor) dict \<Rightarrow> bool" where
  "layer_ok l components \<longleftrightarrow> distinct (map fst components)
     \<and> (\<forall>(c, t) \<in> set components. xt_layer_id t = l \<and> xt_component t = c \<and> valid_tensor t)"

definition table_ok :: "layer_table \<Rightarrow> bool" where
  "table_ok by_layer \<longleftrightarrow> distinct (map fst by_layer) \<and> (\<forall>(l, components) \<in> set by_layer. layer_ok l components)"

lemma table_tensors_set:
  "distinct (map fst d) \<Longrightarrow> mset (table_tensors (dict_set l (dict_set c t (dict_get d l [])) d)) = add_mset t (mset (table_tensors d))"
  if "c \<notin> fst ` set (dict_get d l [])"
  using that
proof (induction d)
  case Nil
  then show ?case by (simp add: table_tensors_def dict_get_def)
next
  case (Cons entry d)
  obtain l' components where e: "entry = (l', components)" by (cases entry)
  show ?case
  proof (cases "l' = l")
    case True
    then have "dict_set c t components = components @ [(c, t)]" using Cons.prems by (intro dict_set_new) (simp add: e dict_get_def)
    then show ?thesis using True by (simp add: e table_tensors_def dict_get_def)
  next
    case False
    then have "dict_get (entry # d) l [] = dict_get d l []" by (simp add: e dict_get_def)
    then show ?thesis using Cons False by (simp add: e table_tensors_def)
  qed
qed

lemma add_tensor_ok:
  assumes "add_tensor d t = Inr d'" and "table_ok d"
  shows "table_ok d' \<and> mset (table_tensors d') = add_mset t (mset (table_tensors d))"
proof -
  let ?l = "xt_layer_id t" and ?c = "xt_component t"
  let ?old = "dict_get d ?l []"
  have new: "?c \<notin> fst ` set ?old" "valid_tensor t" "d' = dict_set ?l (dict_set ?c t ?old) d"
    using assms(1) by (auto simp: add_tensor_def Let_def valid_tensor_def dvd_eq_mod_eq_0 split: if_splits)
  have old: "layer_ok ?l ?old"
    using assms(2) dict_get_default_or_in [of d ?l "[]"] by (auto simp: table_ok_def) (simp add: layer_ok_def)
  have set: "dict_set ?c t ?old = ?old @ [(?c, t)]" using new(1) by (rule dict_set_new)
  have "layer_ok ?l (?old @ [(?c, t)])" using old new(1,2) by (auto simp: layer_ok_def)
  then have "table_ok d'"
    using assms(2) set_dict_set [of ?l "?old @ [(?c, t)]" d] distinct_dict_set [of d ?l "?old @ [(?c, t)]"]
    unfolding new(3) set table_ok_def by auto
  then show ?thesis using table_tensors_set [OF new(1)] assms(2) by (simp add: table_ok_def new(3))
qed

lemma add_tensors_ok:
  assumes "rfold add_tensor [] tensors = Inr d"
  shows "table_ok d \<and> mset (table_tensors d) = mset tensors"
proof -
  have "table_ok d \<and> mset (table_tensors d) = mset ts + mset (table_tensors d0)" if "rfold add_tensor d0 ts = Inr d" "table_ok d0" for ts d0
    using that
  proof (induction ts arbitrary: d0)
    case (Cons t ts)
    then obtain d1 where "add_tensor d0 t = Inr d1" "rfold add_tensor d1 ts = Inr d" by (auto simp: rbind_eq_Inr)
    then show ?case using Cons.IH [of d1] add_tensor_ok [of d0 t d1] Cons.prems(2) by simp
  qed simp
  from this [OF assms] show ?thesis by (simp add: table_ok_def table_tensors_def)
qed

section \<open>Slots\<close>

lemma align_up:
  assumes "0 < a"
  shows "a dvd align_up v a" and "v \<le> align_up v a" and "align_up v a < v + a"
proof -
  show "a dvd align_up v a" by (simp add: align_up_def)
  have "(v + a - 1) mod a = v + a - 1 - align_up v a" by (simp add: align_up_def minus_div_mult_eq_mod)
  moreover have "0 \<le> (v + a - 1) mod a" "(v + a - 1) mod a < a" using assms by simp_all
  ultimately show "v \<le> align_up v a" "align_up v a < v + a" by linarith+
qed

lemma row_padding_nonneg:
  assumes "row_padding_bytes t p = Inr n" and "0 < p"
  shows "0 \<le> n"
proof -
  have "0 \<le> p - xt_ne0 t mod p" using pos_mod_bound [OF assms(2), of "xt_ne0 t"] by linarith
  then show ?thesis
    using assms(1) by (auto simp: row_padding_bytes_def Let_def not_le pos_imp_zdiv_nonneg_iff split: option.splits if_splits)
qed

text \<open>The components of a slot from one cursor to another: aligned, in order, with less than one alignment between them.\<close>

fun slots_ok :: "int \<Rightarrow> int \<Rightarrow> component_span list \<Rightarrow> int \<Rightarrow> bool" where
  "slots_ok a start [] stop \<longleftrightarrow> stop = start"
| "slots_ok a start (s # ss) stop \<longleftrightarrow> a dvd cs_slot_start s \<and> start \<le> cs_slot_start s \<and> cs_slot_start s < start + a
     \<and> cs_start_padding s = cs_slot_start s - start \<and> cs_encoded_bytes s \<le> cs_allocation s
     \<and> slots_ok a (cs_slot_start s + cs_allocation s) ss stop"

text \<open>The bytes of one expert in a tensor.\<close>

definition span_of :: "expert_tensor \<Rightarrow> int \<Rightarrow> component_span \<Rightarrow> bool" where
  "span_of t expert_id s \<longleftrightarrow> cs_component s = xt_component t \<and> cs_tensor_name s = xt_tensor_name t
     \<and> cs_encoded_bytes s = xt_encoded_bytes t div xt_expert_count t
     \<and> cs_source_start s = xt_data_offset t + expert_id * cs_encoded_bytes s \<and> cs_source_end s = cs_source_start s + cs_encoded_bytes s"

lemma place_components:
  assumes "rfold (place_component components a p expert_id) (cursor, encoded, placed) order = Inr (cursor', encoded', placed')"
    and "0 < a" "0 < p" and "\<forall>(c, t) \<in> set components. xt_component t = c"
  shows "\<exists>spans. placed' = placed @ spans \<and> slots_ok a cursor spans cursor' \<and> encoded' = encoded + sum_of cs_encoded_bytes spans
    \<and> list_all2 (\<lambda>c s. cs_component s = c \<and> (\<exists>t. (c, t) \<in> set components \<and> map_of components c = Some t \<and> span_of t expert_id s)) order spans"
  using assms(1)
proof (induction order arbitrary: cursor encoded placed)
  case Nil
  then show ?case by simp
next
  case (Cons c order)
  obtain t padding where t: "dict_index components c = Inr t" and padding: "row_padding_bytes t p = Inr padding"
    using Cons.prems by (auto simp: place_component_def Let_def rbind_eq_Inr split: if_splits)
  define s where "s = \<lparr>cs_component = c, cs_tensor_name = xt_tensor_name t, cs_tensor_type = xt_tensor_type t, cs_shape = xt_shape t,
         cs_source_start = xt_data_offset t + expert_id * (xt_encoded_bytes t div xt_expert_count t),
         cs_source_end = xt_data_offset t + expert_id * (xt_encoded_bytes t div xt_expert_count t) + xt_encoded_bytes t div xt_expert_count t,
         cs_encoded_bytes = xt_encoded_bytes t div xt_expert_count t, cs_row_padding = padding,
         cs_allocation = xt_encoded_bytes t div xt_expert_count t + padding, cs_slot_start = align_up cursor a,
         cs_start_padding = align_up cursor a - cursor\<rparr>"
  have rest: "rfold (place_component components a p expert_id)
      (cs_slot_start s + cs_allocation s, encoded + cs_encoded_bytes s, placed @ [s]) order = Inr (cursor', encoded', placed')"
    using Cons.prems t padding by (simp add: place_component_def Let_def s_def split: if_splits)
  from Cons.IH [OF this] obtain spans where spans: "placed' = (placed @ [s]) @ spans" "slots_ok a (cs_slot_start s + cs_allocation s) spans cursor'"
      "encoded' = encoded + cs_encoded_bytes s + sum_of cs_encoded_bytes spans"
      "list_all2 (\<lambda>c s. cs_component s = c \<and> (\<exists>t. (c, t) \<in> set components \<and> map_of components c = Some t \<and> span_of t expert_id s)) order spans"
    by blast
  have m: "map_of components c = Some t" using t by (simp add: dict_index_def split: option.splits)
  then have in_c: "(c, t) \<in> set components" by (rule map_of_SomeD)
  then have "span_of t expert_id s" using assms(4) by (auto simp: span_of_def s_def)
  moreover have "a dvd cs_slot_start s" "cursor \<le> cs_slot_start s" "cs_slot_start s < cursor + a" "cs_start_padding s = cs_slot_start s - cursor"
      "cs_encoded_bytes s \<le> cs_allocation s" "cs_component s = c"
    using align_up [OF assms(2), of cursor] row_padding_nonneg [OF padding assms(3)] by (simp_all add: s_def)
  ultimately show ?case using spans m in_c by (intro exI [of _ "s # spans"]) auto
qed

section \<open>Tiling\<close>

fun tiles :: "int \<Rightarrow> component_span list \<Rightarrow> int \<Rightarrow> bool" where
  "tiles start [] stop \<longleftrightarrow> start = stop"
| "tiles start (s # ss) stop \<longleftrightarrow> cs_source_start s = start \<and> start < cs_source_end s \<and> tiles (cs_source_end s) ss stop"

text \<open>The spans of a tensor, in the order of the inventory.\<close>

definition tensor_spans :: "expert_inventory \<Rightarrow> expert_tensor \<Rightarrow> component_span list" where
  "tensor_spans r t = concat (map (\<lambda>x. filter (\<lambda>s. cs_component s = xt_component t) (xo_components x))
     (filter (\<lambda>x. xo_layer_id x = xt_layer_id t) (xi_objects r)))"

lemma filter_product: "distinct ls \<Longrightarrow> l \<in> set ls \<Longrightarrow> filter (\<lambda>p. fst p = l) (List.product ls es) = map (Pair l) es"
proof (induction ls)
  case (Cons k ls)
  have "filter (\<lambda>p. fst p = l) (List.product ls es) = []" if "l \<notin> set ls"
    using that by (auto simp: filter_empty_conv)
  then show ?case using Cons by (cases "k = l") (auto simp: filter_map comp_def)
qed simp

lemma one_component:
  "list_all2 (\<lambda>c s. cs_component s = c \<and> P c s) order ss \<Longrightarrow> distinct order \<Longrightarrow> c \<in> set order \<Longrightarrow>
    \<exists>s. filter (\<lambda>s. cs_component s = c) ss = [s] \<and> P c s"
proof (induction order ss rule: list_all2_induct)
  case (Cons d order s ss)
  have "filter (\<lambda>s. cs_component s = d) ss = []"
  proof -
    have "map cs_component ss = order" using Cons.hyps(2) by (induction rule: list_all2_induct) auto
    then have "d \<notin> cs_component ` set ss" using Cons.prems(1) by (metis distinct.simps(2) list.set_map)
    then show ?thesis by (auto simp: filter_empty_conv)
  qed
  then show ?case using Cons by (cases "c = d") auto
qed simp

lemma tiles_upto:
  assumes "0 < b" and "i \<le> j" and "\<And>e. i \<le> e \<Longrightarrow> e < j \<Longrightarrow> cs_source_start (f e) = off + e * b \<and> cs_source_end (f e) = off + e * b + b"
  shows "tiles (off + i * b) (map f [i..j - 1]) (off + j * b)"
  using assms(2,3)
proof (induction "nat (j - i)" arbitrary: i)
  case 0
  then show ?case by simp
next
  case (Suc n)
  then have "i < j" by linarith
  moreover have "tiles (off + (i + 1) * b) (map f [i + 1..j - 1]) (off + j * b)" using Suc.hyps(2) Suc.prems by (intro Suc.hyps(1)) auto
  ultimately show ?case using assms(1) Suc.prems(2) [of i] by (simp add: upto_rec1 algebra_simps)
qed

section \<open>The whole inventory\<close>

lemma order_sum:
  fixes f :: "expert_tensor \<Rightarrow> int"
  assumes "list_all2 (\<lambda>c s. \<exists>t. map_of components c = Some t \<and> g s = f t) order spans" and "distinct order"
    and "distinct (map fst components)" and "fst ` set components = set order"
  shows "sum_of g spans = sum_of (f \<circ> snd) components"
proof -
  let ?f = "\<lambda>c. f (the (map_of components c))"
  have "sum_of g spans = sum_of ?f order" using assms(1) by (induction rule: list_all2_induct) auto
  also have "\<dots> = sum ?f (set order)" using assms(2) by (rule sum_list_distinct_conv_sum_set)
  also have "\<dots> = sum_of ?f (map fst components)"
    using sum_list_distinct_conv_sum_set [OF assms(3), of ?f] assms(4) by simp
  also have "\<dots> = sum_of (f \<circ> snd) components"
    using assms(3) by (intro arg_cong [where f = sum_list]) (auto simp: map_of_is_SomeI)
  finally show ?thesis .
qed

lemma product_sum:
  fixes h :: "'a \<Rightarrow> int"
  shows "sum_of (\<lambda>q. h (fst q)) (List.product ls es) = sum_of (\<lambda>l. int (length es) * h l) ls"
  by (induction ls) (simp_all add: comp_def sum_list_triv)

lemma table_sum:
  fixes f :: "expert_tensor \<Rightarrow> int"
  shows "sum_of f (table_tensors d) = sum_of (\<lambda>(_, components). sum_of (f \<circ> snd) components) d"
  by (induction d) (auto simp: table_tensors_def comp_def)

lemma sum_of_mset: "mset xs = mset ys \<Longrightarrow> sum_of f xs = sum_of f ys" for f :: "'a \<Rightarrow> int"
  by (metis mset_map sum_mset_sum_list)

text \<open>The object of an expert.\<close>

definition object_ok :: "layer_table \<Rightarrow> int \<Rightarrow> string list \<Rightarrow> int \<Rightarrow> int \<Rightarrow> expert_object \<Rightarrow> bool" where
  "object_ok d a order l e x \<longleftrightarrow> xo_layer_id x = l \<and> xo_expert_id x = e
     \<and> slots_ok a 0 (xo_components x) (xo_slot_bytes x - xo_end_padding x) \<and> a dvd xo_slot_bytes x
     \<and> 0 \<le> xo_end_padding x \<and> xo_end_padding x < a \<and> xo_encoded_packed x = sum_of cs_encoded_bytes (xo_components x)
     \<and> list_all2 (\<lambda>c s. cs_component s = c \<and> (\<exists>t. (c, t) \<in> set (dict_get d l []) \<and> map_of (dict_get d l []) c = Some t \<and> span_of t e s))
         order (xo_components x)"

lemma layer_components: "table_ok d \<Longrightarrow> layer_ok l (dict_get d l [])"
  using dict_get_default_or_in [of d l "[]"] by (auto simp: table_ok_def) (simp add: layer_ok_def)

lemma place_expert_ok:
  assumes "place_expert d a p order (l, e) = Inr x" and "0 < a" "0 < p" and "table_ok d"
  shows "object_ok d a order l e x"
proof -
  obtain cursor encoded placed where
    fold: "rfold (place_component (dict_get d l []) a p e) (0, 0, []) order = Inr (cursor, encoded, placed)"
    and x: "x = \<lparr>xo_layer_id = l, xo_expert_id = e, xo_encoded_packed = encoded, xo_slot_bytes = align_up cursor a,
           xo_end_padding = align_up cursor a - cursor, xo_components = placed\<rparr>"
    using assms(1) by (auto simp: place_expert_def Let_def rbind_eq_Inr)
  have "\<forall>(c, t) \<in> set (dict_get d l []). xt_component t = c"
    using layer_components [OF assms(4), of l] by (auto simp: layer_ok_def)
  from place_components [OF fold assms(2,3) this] show ?thesis
    using align_up [OF assms(2), of cursor] by (auto simp: object_ok_def x)
qed

definition inventory_spec :: "expert_tensor list \<Rightarrow> int \<Rightarrow> string list \<Rightarrow> expert_inventory \<Rightarrow> bool" where
  "inventory_spec tensors a order r \<longleftrightarrow>
     (\<forall>t \<in> set tensors. tiles (xt_data_offset t) (tensor_spans r t) (xt_data_offset t + xt_encoded_bytes t)
        \<and> int (length (tensor_spans r t)) = xi_expert_count r)
     \<and> (\<forall>x \<in> set (xi_objects r). map cs_component (xo_components x) = order
          \<and> slots_ok a 0 (xo_components x) (xo_slot_bytes x - xo_end_padding x) \<and> a dvd xo_slot_bytes x
          \<and> 0 \<le> xo_end_padding x \<and> xo_end_padding x < a \<and> xo_slot_bytes x \<le> xi_slot_bytes r)
     \<and> sum_of xo_encoded_packed (xi_objects r) = sum_of xt_encoded_bytes tensors"

text \<open>The tables and objects behind an inventory.\<close>

definition parts_ok :: "layer_table \<Rightarrow> int \<Rightarrow> string list \<Rightarrow> int \<Rightarrow> expert_object list \<Rightarrow> bool" where
  "parts_ok d a order n objects \<longleftrightarrow> table_ok d \<and> distinct order \<and> (\<forall>t \<in> set (table_tensors d). xt_expert_count t = n)
     \<and> (\<forall>(_, components) \<in> set d. fst ` set components = set order)
     \<and> list_all2 (\<lambda>q x. object_ok d a order (fst q) (snd q) x) (List.product (sort (map fst d)) [0..n - 1]) objects"

lemma inventory_parts:
  assumes "build_expert_inventory tensors a p order targets cap = Inr r"
  obtains d where "parts_ok d a order (xi_expert_count r) (xi_objects r)" "mset (table_tensors d) = mset tensors"
    "xi_slot_bytes r = Max (set (map xo_slot_bytes (xi_objects r)))"
proof -
  obtain d objects n where pos: "0 < a" "0 < p" and order: "distinct order" and d: "rfold add_tensor [] tensors = Inr d"
    and one: "length (remdups (map xt_expert_count (concat (map (map snd \<circ> snd) d)))) = 1"
    and n: "n = hd (remdups (map xt_expert_count (concat (map (map snd \<circ> snd) d))))"
    and keys: "\<forall>(_, components) \<in> set d. fst ` set components = set order"
    and objects: "rmap (place_expert d a p order) (List.product (sort (map fst d)) [0..n - 1]) = Inr objects"
    and r: "xi_objects r = objects" "xi_slot_bytes r = Max (set (map xo_slot_bytes objects))" "xi_expert_count r = n"
    using assms unfolding build_expert_inventory_def Let_def rbind_eq_Inr if_Inl_eq_Inr not_not
    by (elim exE conjE) (drule sym [of _ "Inr r"], simp add: not_le del: length_remdups_card_conv)
  have table: "table_ok d" "mset (table_tensors d) = mset tensors" using add_tensors_ok [OF d] by blast+
  have same: "concat (map (map snd \<circ> snd) d) = table_tensors d" by (simp add: table_tensors_def comp_def case_prod_unfold)
  obtain k where k: "remdups (map xt_expert_count (table_tensors d)) = [k]"
    using one unfolding same by (cases "remdups (map xt_expert_count (table_tensors d))") auto
  then have "set (map xt_expert_count (table_tensors d)) = {k}" by (metis list.set(1) list.simps(15) set_remdups)
  then have "\<forall>t \<in> set (table_tensors d). xt_expert_count t = n" using k n unfolding same by auto
  moreover have "list_all2 (\<lambda>q x. object_ok d a order (fst q) (snd q) x) (List.product (sort (map fst d)) [0..n - 1]) objects"
    using objects place_expert_ok [OF _ pos table(1)] by (auto simp: rmap_eq_Inr elim!: list_all2_mono)
  ultimately have "parts_ok d a order n objects" using table(1) order keys by (simp add: parts_ok_def)
  then show thesis using that table(2) r by simp
qed

lemma parts_slots:
  assumes "parts_ok d a order n objects" and "x \<in> set objects"
  shows "map cs_component (xo_components x) = order \<and> slots_ok a 0 (xo_components x) (xo_slot_bytes x - xo_end_padding x)
      \<and> a dvd xo_slot_bytes x \<and> 0 \<le> xo_end_padding x \<and> xo_end_padding x < a"
proof -
  obtain q where "object_ok d a order (fst q) (snd q) x"
    using assms by (auto simp: parts_ok_def list_all2_conv_all_nth in_set_conv_nth)
  moreover have "map cs_component ss = cs" if "list_all2 (\<lambda>c s. cs_component s = c \<and> P c s) cs ss" for P cs ss
    using that by (induction rule: list_all2_induct) auto
  ultimately show ?thesis by (auto simp: object_ok_def)
qed

lemma parts_keys: "parts_ok d a order n objects \<Longrightarrow> (l, components) \<in> set d \<Longrightarrow> fst ` set components = set order"
  unfolding parts_ok_def by (elim conjE) (drule (1) bspec, simp)

lemma parts_tensor:
  assumes "parts_ok d a order n objects" and "(l, components) \<in> set d" and "(c, t) \<in> set components"
  shows "l = xt_layer_id t" and "c = xt_component t" and "valid_tensor t" and "xt_expert_count t = n"
    and "map_of components c = Some t" and "dict_get d l [] = components" and "c \<in> set order"
    and "0 < n" and "n * (xt_encoded_bytes t div n) = xt_encoded_bytes t" and "0 < xt_encoded_bytes t div n"
proof -
  have ok: "layer_ok l components" using assms(1,2) by (auto simp: parts_ok_def table_ok_def)
  then show "l = xt_layer_id t" "c = xt_component t" "valid_tensor t" "map_of components c = Some t"
    using assms(3) by (auto simp: layer_ok_def)
  then have valid: "valid_tensor t" by simp
  have "t \<in> set (table_tensors d)" using assms(2,3) by (force simp: table_tensors_def)
  then show n: "xt_expert_count t = n" using assms(1) by (simp add: parts_ok_def)
  show "dict_get d l [] = components" using assms(1,2) by (intro dict_get_distinct) (auto simp: parts_ok_def table_ok_def)
  have "fst ` set components = set order" using assms(1,2) by (rule parts_keys)
  then show "c \<in> set order" using assms(3) by force
  show "0 < n" "n * (xt_encoded_bytes t div n) = xt_encoded_bytes t" "0 < xt_encoded_bytes t div n"
    using valid n by (auto simp: valid_tensor_def zdvd_imp_le pos_imp_zdiv_pos_iff)
qed

lemma parts_tile:
  assumes parts: "parts_ok d a order n (xi_objects r)" and t: "t \<in> set (table_tensors d)"
  shows "tiles (xt_data_offset t) (tensor_spans r t) (xt_data_offset t + xt_encoded_bytes t) \<and> int (length (tensor_spans r t)) = n"
proof -
  let ?l = "xt_layer_id t" and ?c = "xt_component t" and ?b = "xt_encoded_bytes t div n" and ?ls = "sort (map fst d)" and ?es = "[0..n - 1]"
  obtain l components c where lc: "(l, components) \<in> set d" "(c, t) \<in> set components" using t unfolding table_tensors_def by auto
  note p = parts_tensor [OF parts lc]
  have ls: "distinct ?ls" "set ?ls = fst ` set d" using parts by (simp_all add: parts_ok_def table_ok_def)
  have "?l \<in> set ?ls" using lc(1) p(1) ls(2) by force
  then have layer: "filter (\<lambda>q. fst q = ?l) (List.product ?ls ?es) = map (Pair ?l) ?es" by (rule filter_product [OF ls(1)])
  have all2: "list_all2 (\<lambda>q x. object_ok d a order (fst q) (snd q) x) (List.product ?ls ?es) (xi_objects r)"
    using parts by (simp add: parts_ok_def)
  then have "list_all2 (\<lambda>q x. object_ok d a order (fst q) (snd q) x) (filter (\<lambda>q. fst q = ?l) (List.product ?ls ?es))
        (filter (\<lambda>x. xo_layer_id x = ?l) (xi_objects r))"
    by (induction rule: list_all2_induct) (auto simp: object_ok_def)
  then have objs: "list_all2 (\<lambda>e x. object_ok d a order ?l e x) ?es (filter (\<lambda>x. xo_layer_id x = ?l) (xi_objects r))"
    unfolding layer by (simp add: list_all2_map1)
  have span: "\<exists>s. filter (\<lambda>s. cs_component s = ?c) (xo_components x) = [s] \<and> span_of t e s" if "object_ok d a order ?l e x" for e x
  proof -
    have "list_all2 (\<lambda>c s. cs_component s = c \<and> (\<exists>u. (c, u) \<in> set components \<and> map_of components c = Some u \<and> span_of u e s))
          order (xo_components x)" using that p(1,6) by (simp add: object_ok_def)
    from one_component [OF this _ p(7)] show ?thesis using p(2,5) parts by (auto simp: parts_ok_def)
  qed
  have "list_all2 (\<lambda>e s. span_of t e s) ?es (tensor_spans r t)"
    unfolding tensor_spans_def using objs
  proof (induction rule: list_all2_induct)
    case (Cons e es x xs)
    then show ?case using span [of e x] by auto
  qed simp
  then have all: "length (tensor_spans r t) = nat n" "\<forall>i < nat n. span_of t (int i) (tensor_spans r t ! i)"
    by (auto simp: list_all2_conv_all_nth)
  then have spans: "tensor_spans r t = map (\<lambda>e. tensor_spans r t ! nat e) ?es" by (auto intro!: nth_equalityI)
  have each: "span_of t e (tensor_spans r t ! nat e)" if "0 \<le> e" "e < n" for e
    using all(2) [rule_format, of "nat e"] that by simp
  have "tiles (xt_data_offset t + 0 * ?b) (map (\<lambda>e. tensor_spans r t ! nat e) ?es) (xt_data_offset t + n * ?b)"
    using each p(4,8) by (intro tiles_upto [OF p(10)]) (auto simp: span_of_def)
  then show ?thesis using spans all(1) p(8,9) by simp
qed

lemma parts_object_sum:
  assumes parts: "parts_ok d a order n objects" and entry: "(l, components) \<in> set d" and x: "object_ok d a order l e x"
  shows "xo_encoded_packed x = sum_of ((\<lambda>t. xt_encoded_bytes t div n) \<circ> snd) components"
proof -
  have get: "dict_get d l [] = components" using parts entry by (intro dict_get_distinct) (auto simp: parts_ok_def table_ok_def)
  have "xo_encoded_packed x = sum_of cs_encoded_bytes (xo_components x)" using x by (simp add: object_ok_def)
  also have "\<dots> = sum_of ((\<lambda>t. xt_encoded_bytes t div n) \<circ> snd) components"
  proof (rule order_sum)
    have "list_all2 (\<lambda>c s. cs_component s = c \<and> (\<exists>t. (c, t) \<in> set components \<and> map_of components c = Some t \<and> span_of t e s))
         order (xo_components x)" using x by (simp add: object_ok_def get)
    then show "list_all2 (\<lambda>c s. \<exists>t. map_of components c = Some t \<and> cs_encoded_bytes s = xt_encoded_bytes t div n) order (xo_components x)"
      by (rule list_all2_mono) (use parts_tensor(4) [OF parts entry] in \<open>auto simp: span_of_def\<close>)
    show "distinct order" using parts by (simp add: parts_ok_def)
    show "distinct (map fst components)" using parts entry by (auto simp: parts_ok_def table_ok_def layer_ok_def)
    show "fst ` set components = set order" using parts entry by (rule parts_keys)
  qed
  finally show ?thesis .
qed

lemma list_all2_mono_on:
  "list_all2 P xs ys \<Longrightarrow> (\<And>x. x \<in> set xs \<Longrightarrow> q x) \<Longrightarrow> (\<And>x y. q x \<Longrightarrow> P x y \<Longrightarrow> r x y) \<Longrightarrow> list_all2 r xs ys"
  by (induction rule: list_all2_induct) auto

lemma parts_sum:
  assumes parts: "parts_ok d a order n objects"
  shows "sum_of xo_encoded_packed objects = sum_of xt_encoded_bytes (table_tensors d)"
proof -
  let ?ls = "sort (map fst d)" and ?es = "[0..n - 1]"
  let ?h = "\<lambda>l. sum_of ((\<lambda>t. xt_encoded_bytes t div n) \<circ> snd) (dict_get d l [])"
  have get: "dict_get d l [] = components" if "(l, components) \<in> set d" for l components
    using that parts by (intro dict_get_distinct) (auto simp: parts_ok_def table_ok_def)
  have "list_all2 (\<lambda>q x. object_ok d a order (fst q) (snd q) x) (List.product ?ls ?es) objects"
    using parts by (simp add: parts_ok_def)
  moreover have "fst q \<in> fst ` set d" if "q \<in> set (List.product ?ls ?es)" for q
  proof -
    obtain l e where q: "q = (l, e)" by (rule prod.exhaust)
    then have "l \<in> set ?ls" using that by simp
    then show ?thesis by (simp add: q)
  qed
  moreover have "xo_encoded_packed x = ?h l" if l: "l \<in> fst ` set d" and x: "object_ok d a order l e x" for l e x
  proof -
    obtain components where entry: "(l, components) \<in> set d" using l by auto
    from parts_object_sum [OF parts this x] show ?thesis unfolding get [OF entry] .
  qed
  ultimately have "list_all2 (\<lambda>q x. xo_encoded_packed x = ?h (fst q)) (List.product ?ls ?es) objects"
    by (rule list_all2_mono_on [where q = "\<lambda>q. fst q \<in> fst ` set d"])
  then have "sum_of xo_encoded_packed objects = sum_of (\<lambda>q. ?h (fst q)) (List.product ?ls ?es)"
    by (induction rule: list_all2_induct) (simp_all add: comp_def)
  also have "\<dots> = sum_of (\<lambda>l. int (length ?es) * ?h l) ?ls" by (rule product_sum)
  also have "\<dots> = sum_of (\<lambda>l. int (length ?es) * ?h l) (map fst d)" by (rule sum_of_mset) simp
  also have "\<dots> = sum_of (\<lambda>(_, components). sum_of (xt_encoded_bytes \<circ> snd) components) d"
  proof -
    have "int (length ?es) * ?h l = sum_of (xt_encoded_bytes \<circ> snd) components" if entry: "(l, components) \<in> set d" for l components
    proof -
      have "int (length ?es) * (xt_encoded_bytes t div n) = xt_encoded_bytes t" if "(c, t) \<in> set components" for c t
        using parts_tensor(8,9) [OF parts entry that] by simp
      then have "sum_of ((\<lambda>t. int (length ?es) * (xt_encoded_bytes t div n)) \<circ> snd) components = sum_of (xt_encoded_bytes \<circ> snd) components"
        by (intro arg_cong [where f = sum_list]) auto
      then show ?thesis using get [OF entry] by (simp only: sum_list_const_mult comp_def)
    qed
    then show ?thesis by (intro arg_cong [where f = sum_list]) auto
  qed
  finally show ?thesis by (simp add: table_sum)
qed

text \<open>
  C15. The inventory cuts every tensor into its experts: whenever it is built, the source spans of the
  experts of a tensor start at the tensor's offset, follow each other without gap or overlap, and end at
  its last byte; in every slot the components stand in the declared order at aligned positions without
  overlapping, with less than one alignment of padding before each and at the end; every slot fits the
  projected slot size; and the encoded bytes of all experts add up to those of all tensors.
\<close>

theorem expert_inventory_exact:
  assumes "build_expert_inventory tensors a p order targets cap = Inr r"
  shows "inventory_spec tensors a order r"
proof -
  obtain d where parts: "parts_ok d a order (xi_expert_count r) (xi_objects r)" and m: "mset (table_tensors d) = mset tensors"
    and slot: "xi_slot_bytes r = Max (set (map xo_slot_bytes (xi_objects r)))"
    using assms by (rule inventory_parts)
  have "set (table_tensors d) = set tensors" using m by (rule mset_eq_setD)
  moreover have "xo_slot_bytes x \<le> xi_slot_bytes r" if "x \<in> set (xi_objects r)" for x using that by (simp add: slot)
  moreover have "sum_of xo_encoded_packed (xi_objects r) = sum_of xt_encoded_bytes tensors"
    using parts_sum [OF parts] sum_of_mset [OF m] by simp
  ultimately show ?thesis using parts_tile [OF parts] parts_slots [OF parts] unfolding inventory_spec_def by blast
qed

text \<open>Two layers of one weight tensor and its scale, for four experts.\<close>

definition example_layer_tensors :: "int \<Rightarrow> int \<Rightarrow> expert_tensor list" where
  "example_layer_tensors layer offset = [
     \<lparr>xt_layer_id = layer, xt_component = ''down_weight'', xt_tensor_name = ''w'', xt_tensor_type = ''Q4_0'', xt_shape = [32, 2, 4],
       xt_expert_count = 4, xt_encoded_bytes = 144, xt_data_offset = offset, xt_ne0 = 32, xt_quant_block_elements = Some 32,
       xt_quant_block_bytes = Some 18\<rparr>,
     \<lparr>xt_layer_id = layer, xt_component = ''down_scale'', xt_tensor_name = ''s'', xt_tensor_type = ''F32'', xt_shape = [4],
       xt_expert_count = 4, xt_encoded_bytes = 16, xt_data_offset = offset + 144, xt_ne0 = 1, xt_quant_block_elements = None,
       xt_quant_block_bytes = None\<rparr>]"

lemma example_inventory: "is_ok (build_expert_inventory (example_layer_tensors 1 512 @ example_layer_tensors 0 0) 32 64
    [''down_scale'', ''down_weight''] [1] 2)"
  by code_simp

theorem expert_inventory_exact_witness:
  "\<exists>r. build_expert_inventory (example_layer_tensors 1 512 @ example_layer_tensors 0 0) 32 64 [''down_scale'', ''down_weight''] [1] 2 = Inr r
    \<and> inventory_spec (example_layer_tensors 1 512 @ example_layer_tensors 0 0) 32 [''down_scale'', ''down_weight''] r"
proof -
  obtain r where r: "build_expert_inventory (example_layer_tensors 1 512 @ example_layer_tensors 0 0) 32 64 [''down_scale'', ''down_weight''] [1] 2 = Inr r"
    using example_inventory unfolding is_ok_iff by blast
  from expert_inventory_exact [OF r] r show ?thesis by blast
qed

end
