(* ===== verification/Bytes.thy ===== *)
theory Bytes
  imports Pyvalue "HOL-Library.Word"
begin

text \<open>
  Python's \<open>bytes\<close> as lists of \<open>8 word\<close>, and the fixed little-endian layouts of the \<open>struct\<close> module the
  artifacts use: unsigned integers, padded byte strings and binary64 floats. Also \<open>bytes.hex\<close> and
  \<open>bytes.fromhex\<close>. The lemmas are the round trips: integers below the field's range, every float a Python
  program can hold, and lower-case hexadecimal digests read back as they were written. Conversely the
  eight bytes of a finite float that is not negative are those it is written as, but for a zero with
  a minus sign.
\<close>

type_synonym bytes = "8 word list"

section \<open>Little-endian integers\<close>

text \<open>\<open>int.to_bytes(k, 'little')\<close> and the formats \<open>H\<close>, \<open>I\<close>, \<open>Q\<close>, for values below \<open>256 ^ k\<close>; \<open>int.from_bytes\<close>.\<close>

primrec le_bytes :: "nat \<Rightarrow> nat \<Rightarrow> bytes" where
  "le_bytes 0 n = []"
| "le_bytes (Suc k) n = word_of_nat n # le_bytes k (n div 256)"

primrec le_value :: "bytes \<Rightarrow> nat" where
  "le_value [] = 0"
| "le_value (b # bs) = unat b + 256 * le_value bs"

lemma length_le_bytes [simp]: "length (le_bytes k n) = k"
  by (induction k arbitrary: n) auto

lemma byte_unat [simp]: "unat (word_of_nat n :: 8 word) = n mod 256"
  by (simp add: unat_of_nat)

lemma le_value_bytes [simp]: "le_value (le_bytes k n) = n mod 256 ^ k"
proof (induction k arbitrary: n)
  case (Suc k)
  then show ?case by (simp add: mod_mult2_eq)
qed simp

lemma byte_less: "unat (b :: 8 word) < 256"
  using unsigned_less [of b] by simp

lemma le_value_less: "le_value bs < 256 ^ length bs"
proof (induction bs)
  case (Cons b bs)
  have "unat b + 256 * le_value bs < 256 + 256 * le_value bs" using byte_less [of b] by simp
  also have "\<dots> = 256 * (le_value bs + 1)" by simp
  also have "\<dots> \<le> 256 * 256 ^ length bs" using Cons by (intro mult_le_mono) auto
  finally show ?case by simp
qed simp

lemma le_bytes_value [simp]: "le_bytes (length bs) (le_value bs) = bs"
proof (induction bs)
  case (Cons b bs)
  have "word_of_nat (unat b + 256 * le_value bs) = (b :: 8 word)"
    unfolding word_unat_eq_iff byte_unat using byte_less [of b] by simp
  moreover have "(unat b + 256 * le_value bs) div 256 = le_value bs" using byte_less [of b] by simp
  ultimately show ?case using Cons by simp
qed simp

section \<open>Padded byte strings\<close>

definition ascii_bytes :: "string \<Rightarrow> bytes" where
  "ascii_bytes s = map (\<lambda>c. word_of_nat (of_char c)) s"

text \<open>The format \<open>ns\<close>: a shorter value is padded with zero bytes, a longer one truncated.\<close>

definition pack_string :: "nat \<Rightarrow> bytes \<Rightarrow> bytes" where
  "pack_string width b = take width (b @ replicate width 0)"

text \<open>\<open>value.rstrip(b"\0").decode("ascii")\<close>; a \<open>UnicodeDecodeError\<close> is a \<open>ValueError\<close>.\<close>

definition decode_identifier :: "bytes \<Rightarrow> string res" where
  "decode_identifier b = rmap (\<lambda>w. if unat w < 128 then Inr (char_of (unat w)) else Inl (ValueError ''ordinal not in range(128)''))
     (rev (dropWhile (\<lambda>w. w = 0) (rev b)))"

lemma length_ascii_bytes [simp]: "length (ascii_bytes s) = length s"
  by (simp add: ascii_bytes_def)

lemma length_pack_string [simp]: "length (pack_string w b) = w"
  by (simp add: pack_string_def)

lemma pack_string_full: "length b = w \<Longrightarrow> pack_string w b = b"
  by (simp add: pack_string_def)

section \<open>Hexadecimal texts\<close>

definition hex_value :: "char \<Rightarrow> nat option" where
  "hex_value c = (let n = (of_char c :: nat) in
     if 48 \<le> n \<and> n \<le> 57 then Some (n - 48)
     else if 97 \<le> n \<and> n \<le> 102 then Some (n - 87)
     else if 65 \<le> n \<and> n \<le> 70 then Some (n - 55) else None)"

text \<open>The ASCII white space \<open>bytes.fromhex\<close> skips before each pair of digits.\<close>

definition ascii_space :: "char \<Rightarrow> bool" where
  "ascii_space c = (let n = (of_char c :: nat) in 9 \<le> n \<and> n \<le> 13 \<or> n = 32)"

fun fromhex :: "string \<Rightarrow> bytes res" where
  "fromhex [] = Inr []"
| "fromhex [c] = (if ascii_space c then Inr [] else Inl (ValueError ''non-hexadecimal number found in fromhex() arg''))"
| "fromhex (c # d # s) = (if ascii_space c then fromhex (d # s) else
     (case (hex_value c, hex_value d) of
        (Some h, Some l) \<Rightarrow> rbind (fromhex s) (\<lambda>b. Inr (word_of_nat (16 * h + l) # b))
      | _ \<Rightarrow> Inl (ValueError ''non-hexadecimal number found in fromhex() arg'')))"

definition hex_digit :: "nat \<Rightarrow> char" where
  "hex_digit n = ''0123456789abcdef'' ! n"

definition bytes_hex :: "bytes \<Rightarrow> string" where
  "bytes_hex b = concat (map (\<lambda>w. [hex_digit (unat w div 16), hex_digit (unat w mod 16)]) b)"

lemma hex_char_cases: "hex_char c \<Longrightarrow> c \<in> {CHR ''0'', CHR ''1'', CHR ''2'', CHR ''3'', CHR ''4'', CHR ''5'', CHR ''6'', CHR ''7'',
    CHR ''8'', CHR ''9'', CHR ''a'', CHR ''b'', CHR ''c'', CHR ''d'', CHR ''e'', CHR ''f''}"
  by (simp add: hex_char_def)

lemma hex_char_value:
  assumes "hex_char c"
  shows "\<exists>n. hex_value c = Some n \<and> n < 16 \<and> hex_digit n = c \<and> \<not> ascii_space c"
  using hex_char_cases [OF assms]
  by (elim insertE emptyE) (simp_all add: hex_value_def hex_digit_def ascii_space_def)

lemma fromhex_hex:
  assumes "list_all hex_char s" and "even (length s)"
  shows "\<exists>b. fromhex s = Inr b \<and> length b = length s div 2 \<and> bytes_hex b = s"
  using assms
proof (induction s rule: fromhex.induct)
  case (3 c d s)
  have cd: "hex_char c" "hex_char d" and s: "list_all hex_char s" "even (length s)" using "3.prems" by simp_all
  obtain h where h: "hex_value c = Some h" "h < 16" "hex_digit h = c" "\<not> ascii_space c" using hex_char_value [OF cd(1)] by blast
  obtain l where l: "hex_value d = Some l" "l < 16" "hex_digit l = d" using hex_char_value [OF cd(2)] by blast
  obtain b where b: "fromhex s = Inr b" "length b = length s div 2" "bytes_hex b = s"
    using "3.IH"(2) [OF h(4) refl h(1) l(1) s] by blast
  have "unat (word_of_nat (16 * h + l) :: 8 word) = 16 * h + l" using h(2) l(2) by (subst byte_unat) simp
  then show ?case using h l b by (simp add: bytes_hex_def)
qed (auto simp: bytes_hex_def)

lemma hex_digit_char: "n < 16 \<Longrightarrow> hex_char (hex_digit n)"
  unfolding hex_char_def hex_digit_def by (rule nth_mem) simp

lemma is_hash_bytes_hex: "length b = 32 \<Longrightarrow> is_hash (bytes_hex b)"
proof -
  have "length (bytes_hex b) = 2 * length b" for b by (induction b) (auto simp: bytes_hex_def)
  moreover have "list_all hex_char (bytes_hex b)"
    unfolding bytes_hex_def list_all_iff using byte_less by (auto intro!: hex_digit_char simp: less_mult_imp_div_less)
  ultimately show "length b = 32 \<Longrightarrow> is_hash (bytes_hex b)" by (simp add: is_hash_def)
qed

section \<open>Binary64 floats\<close>

text \<open>
  The bits of a float: sign, eleven bits of biased exponent, 52 bits of fraction. A value on the grid of step
  \<open>2\<^sup>g\<close> has the bits of \<open>(g + 1074) 2\<^sup>5\<^sup>2\<close> plus its multiple of the step, subnormal or not. Zero has one
  representation here, as in \<open>PyFloat\<close>, so the two zeros are read as the same value.
\<close>

definition float_bits :: "pyfloat \<Rightarrow> nat" where
  "float_bits x = (case x of
     Fin q \<Rightarrow> if q = 0 then 0 else
       let g = grid \<bar>q\<bar>; m = nat \<lfloor>\<bar>q\<bar> / pow2 g\<rfloor> in nat (g + 1074) * 2 ^ 52 + m + (if q < 0 then 2 ^ 63 else 0)
   | PInf \<Rightarrow> 2047 * 2 ^ 52 | NInf \<Rightarrow> 2 ^ 63 + 2047 * 2 ^ 52 | NaN \<Rightarrow> 2047 * 2 ^ 52 + 2 ^ 51)"

definition bits_float :: "nat \<Rightarrow> pyfloat" where
  "bits_float n = (let negative = odd (n div 2 ^ 63); e = n div 2 ^ 52 mod 2048; m = n mod 2 ^ 52;
       magnitude = (if e = 0 then of_nat m * pow2 (- 1074) else of_nat (2 ^ 52 + m) * pow2 (int e - 1075)) in
     if e = 2047 then (if m \<noteq> 0 then NaN else if negative then NInf else PInf)
     else Fin (if negative then - magnitude else magnitude))"

definition encode64 :: "pyfloat \<Rightarrow> bytes" where
  "encode64 x = le_bytes 8 (float_bits x)"

definition decode64 :: "bytes \<Rightarrow> pyfloat" where
  "decode64 b = bits_float (le_value b)"

text \<open>What a Python float can be.\<close>

definition representable :: "pyfloat \<Rightarrow> bool" where
  "representable x = (case x of Fin q \<Rightarrow> dbl q = Fin q | _ \<Rightarrow> True)"

lemma dround_on_grid:
  assumes "y = of_int m * pow2 e" and "- 1074 \<le> e" and "\<bar>y\<bar> < pow2 (e + 53)"
  shows "dround y = y"
proof (cases "y = 0")
  case False
  let ?g = "grid \<bar>y\<bar>"
  have "pow2 (rexp \<bar>y\<bar>) < pow2 (e + 53)" using rexp_bounds(1) [of "\<bar>y\<bar>"] False assms(3) by simp
  then have "rexp \<bar>y\<bar> < e + 53" using pow2_mono [of "e + 53" "rexp \<bar>y\<bar>"] by linarith
  then have g: "?g \<le> e" using assms(2) by (simp add: grid_def)
  have "y / pow2 ?g = of_int m * (pow2 e / pow2 ?g)" by (simp add: assms(1))
  also have "\<dots> = of_int (m * 2 ^ nat (e - ?g))" using pow2_diff_nat [OF g] by simp
  finally have "of_int (rhe (y / pow2 ?g)) = y / pow2 ?g" by (metis rhe_of_int)
  then show ?thesis using False by (simp add: dround_def)
qed simp

lemma dround_idem: "dround (dround x) = dround x"
proof -
  have pos: "dround (dround x) = dround x" if x: "0 < x" for x
  proof -
    let ?g = "grid x" and ?m = "rhe (x / pow2 (grid x))"
    have y: "dround x = of_int ?m * pow2 ?g" using x by (simp add: dround_def)
    have g: "- 1074 \<le> ?g" by (simp add: grid_def)
    have "x < pow2 (rexp x + 1)" using rexp_bounds(2) [OF x] .
    also have "\<dots> \<le> pow2 (?g + 53)" by (rule pow2_mono) (simp add: grid_def)
    finally have le: "dround x \<le> pow2 (?g + 53)" using x by (intro dround_le_pow2) auto
    have nn: "0 \<le> dround x" using x by (intro dround_nonneg) simp
    show ?thesis
    proof (cases "dround x = pow2 (?g + 53)")
      case True
      then show ?thesis using dround_pow2 [of "?g + 53"] g by simp
    next
      case False
      then show ?thesis using le nn by (intro dround_on_grid [OF y g]) simp
    qed
  qed
  consider "0 < x" | "x = 0" | "0 < - x" by linarith
  then show ?thesis
  proof cases
    case 3
    from pos [OF 3] show ?thesis by (simp add: dround_minus)
  qed (auto intro: pos)
qed

lemma representable_dbl [simp]: "representable (dbl x)"
proof -
  have "dbl x = Fin r \<Longrightarrow> dbl r = Fin r" for r
    by (auto simp: dbl_def Let_def dround_idem split: if_splits)
  then show ?thesis by (simp add: representable_def split: pyfloat.splits)
qed

lemma representable_simps [simp]: "representable PInf" "representable NInf" "representable NaN" "representable (Fin 0)" "representable (Fin 1)"
  by (simp_all add: representable_def)

lemma representable_fin:
  assumes "representable (Fin q)" and "q \<noteq> 0"
  obtains m where "\<bar>q\<bar> = of_nat m * pow2 (grid \<bar>q\<bar>)" and "m < 2 ^ 53" and "2 ^ 52 \<le> m \<or> grid \<bar>q\<bar> = - 1074"
    and "- 1074 \<le> grid \<bar>q\<bar>" and "grid \<bar>q\<bar> \<le> 971"
proof -
  let ?x = "\<bar>q\<bar>" let ?g = "grid ?x" let ?n = "rhe (?x / pow2 ?g)"
  have d: "dround q = q" and b: "q < pow2 1024" "- pow2 1024 < q"
    using assms(1) by (auto simp: representable_def dbl_def Let_def split: if_splits)
  have dx: "dround ?x = ?x" using d dround_minus [of q] by (simp add: abs_if)
  have x0: "0 < ?x" using assms(2) by simp
  have x: "?x = of_int ?n * pow2 ?g" using dx x0 by (simp add: dround_def split: if_splits)
  have n0: "0 \<le> ?n" by (rule rhe_ge_int) simp
  have up: "?x < pow2 (rexp ?x + 1)" and lo: "pow2 (rexp ?x) \<le> ?x" using rexp_bounds [OF x0] by auto
  have "pow2 (rexp ?x) < pow2 1024" using lo b by (simp add: abs_if split: if_splits)
  then have e: "rexp ?x < 1024" using pow2_mono [of 1024 "rexp ?x"] by linarith
  have "rexp ?x + 1 \<le> ?g + 53" by (simp add: grid_def)
  then have "?x < pow2 (?g + 53)" using up pow2_mono order_less_le_trans by blast
  then have "of_int ?n * pow2 ?g < pow2 (?g + 53)" using x by simp
  then have "of_int ?n < pow2 53" by (simp add: pow2_add)
  then have n1: "?n < 2 ^ 53" using pow2_nat [of 53] by (simp only: of_nat_numeral of_int_less_iff)
  have n2: "2 ^ 52 \<le> ?n" if "?g \<noteq> - 1074"
  proof -
    have "?g = rexp ?x - 52" using that by (auto simp: grid_def)
    then have "pow2 (52 + ?g) \<le> of_int ?n * pow2 ?g" using lo x by simp
    then have "pow2 52 \<le> of_int ?n" by (simp add: pow2_add)
    then show ?thesis using pow2_nat [of 52] by (simp only: of_nat_numeral of_int_le_iff)
  qed
  have "nat ?n < 2 ^ 53" using n1 n0 by (simp add: nat_less_iff)
  moreover have "2 ^ 52 \<le> nat ?n \<or> ?g = - 1074" using n2 n0 by (auto simp: le_nat_iff)
  moreover have "?x = of_nat (nat ?n) * pow2 ?g" using x n0 by (simp add: of_nat_nat)
  moreover have "- 1074 \<le> ?g" "?g \<le> 971" using e by (simp_all add: grid_def)
  ultimately show thesis using that by blast
qed

lemma bits_float_bits:
  assumes "m < 2 ^ 52" and "e < 2048"
  shows "bits_float ((if s then 2 ^ 63 else 0) + e * 2 ^ 52 + m) =
    (let magnitude = (if e = 0 then of_nat m * pow2 (- 1074) else of_nat (2 ^ 52 + m) * pow2 (int e - 1075)) in
     if e = 2047 then (if m \<noteq> 0 then NaN else if s then NInf else PInf) else Fin (if s then - magnitude else magnitude))"
proof -
  let ?n = "(if s then 2 ^ 63 else 0) + e * 2 ^ 52 + m"
  have cut: "(k * 2 ^ 52 + m) div 2 ^ 52 = k" "(k * 2 ^ 52 + m) mod 2 ^ 52 = m" for k using assms(1) by simp_all
  have "?n = (of_bool s * 2048 + e) * 2 ^ 52 + m" by (cases s) simp_all
  then have n: "?n div 2 ^ 52 = of_bool s * 2048 + e" "?n mod 2 ^ 52 = m" by (simp_all only: cut)
  have "?n div 2 ^ 63 = ?n div 2 ^ 52 div 2048" by (simp flip: div_mult2_eq)
  also have "\<dots> = of_bool s" unfolding n using assms(2) by simp
  finally have d: "odd (?n div 2 ^ 63) \<longleftrightarrow> s" by simp
  have e: "(of_bool s * 2048 + e) mod 2048 = e" using assms(2) by simp
  show ?thesis unfolding bits_float_def Let_def d n e ..
qed

lemma float_bits_special: "bits_float (float_bits PInf) = PInf" "bits_float (float_bits NInf) = NInf"
    "bits_float (float_bits NaN) = NaN" "bits_float (float_bits (Fin 0)) = Fin 0"
  using bits_float_bits [of 0 2047 False] bits_float_bits [of 0 2047 True] bits_float_bits [of "2 ^ 51" 2047 False]
    bits_float_bits [of 0 0 False]
  by (simp_all add: float_bits_def)

lemma float_bits_fin:
  assumes "representable (Fin q)" and "q \<noteq> 0"
  shows "bits_float (float_bits (Fin q)) = Fin q \<and> float_bits (Fin q) < 2 ^ 64"
proof -
  let ?g = "grid \<bar>q\<bar>"
  obtain m where m: "\<bar>q\<bar> = of_nat m * pow2 ?g" "m < 2 ^ 53" "2 ^ 52 \<le> m \<or> ?g = - 1074" and g: "- 1074 \<le> ?g" "?g \<le> 971"
    using representable_fin [OF assms] by blast
  let ?b = "nat (?g + 1074)" and ?s = "q < 0"
  have "\<bar>q\<bar> / pow2 ?g = of_nat m" using m(1) by (metis nonzero_mult_div_cancel_right pow2_nonzero)
  then have "\<lfloor>\<bar>q\<bar> / pow2 ?g\<rfloor> = int m" by simp
  then have bits: "float_bits (Fin q) = (if ?s then 2 ^ 63 else 0) + ?b * 2 ^ 52 + m"
    using assms(2) by (simp add: float_bits_def Let_def)
  have b: "?b \<le> 2045" using g by simp
  have sign: "(if ?s then - \<bar>q\<bar> else \<bar>q\<bar>) = q" by simp
  have same: "bits_float (float_bits (Fin q)) = Fin q"
  proof (cases "2 ^ 52 \<le> m")
    case True
    then have "float_bits (Fin q) = (if ?s then 2 ^ 63 else 0) + (?b + 1) * 2 ^ 52 + (m - 2 ^ 52)" unfolding bits by simp
    moreover have "m - 2 ^ 52 < 2 ^ 52" using m(2) by simp
    moreover have "int (?b + 1) - 1075 = ?g" using g by simp
    moreover have "2 ^ 52 + (m - 2 ^ 52) = m" using True by simp
    ultimately show ?thesis
      using bits_float_bits [of "m - 2 ^ 52" "?b + 1" ?s] b m(1) sign by (simp only: Let_def) simp
  next
    case False
    then have g0: "?g = - 1074" using m(3) by simp
    then have "float_bits (Fin q) = (if ?s then 2 ^ 63 else 0) + 0 * 2 ^ 52 + m" unfolding bits by simp
    moreover have "m < 2 ^ 52" using False by simp
    ultimately have "bits_float (float_bits (Fin q)) = Fin (if ?s then - (of_nat m * pow2 (- 1074)) else of_nat m * pow2 (- 1074))"
      using bits_float_bits [of m 0 ?s] by (simp only: Let_def) simp
    then show ?thesis using m(1) sign unfolding g0 by (simp only:)
  qed
  have "?b * 2 ^ 52 + m < 2 ^ 63" using b m(2) mult_le_mono1 [OF b, of "2 ^ 52"] by simp
  moreover have "(if s then 2 ^ 63 else 0) + k < 2 ^ 64" if "k < 2 ^ 63" for s and k :: nat using that by (cases s) simp_all
  ultimately have "float_bits (Fin q) < 2 ^ 64" unfolding bits by (simp only: add.assoc)
  with same show ?thesis ..
qed

lemma float_bits_less: "representable x \<Longrightarrow> float_bits x < 2 ^ 64"
  using float_bits_fin by (cases x) (auto simp: float_bits_def)

lemma decode_encode64:
  assumes "representable x"
  shows "decode64 (encode64 x) = x"
proof -
  have "float_bits x mod 256 ^ 8 = float_bits x" using float_bits_less [OF assms] by simp
  moreover have "bits_float (float_bits x) = x" using float_bits_special float_bits_fin assms by (cases x) auto
  ultimately show ?thesis by (simp only: decode64_def encode64_def le_value_bytes)
qed

lemma length_encode64 [simp]: "length (encode64 x) = 8"
  by (simp add: encode64_def)

text \<open>\<open>struct.pack\<close> and \<open>struct.unpack_from\<close> of \<open>n\<close> doubles.\<close>

definition pack_doubles :: "pyfloat list \<Rightarrow> bytes" where
  "pack_doubles xs = concat (map encode64 xs)"

primrec unpack_doubles :: "nat \<Rightarrow> bytes \<Rightarrow> pyfloat list" where
  "unpack_doubles 0 b = []"
| "unpack_doubles (Suc n) b = decode64 (take 8 b) # unpack_doubles n (drop 8 b)"

lemma length_pack_doubles [simp]: "length (pack_doubles xs) = 8 * length xs"
  by (induction xs) (auto simp: pack_doubles_def)

lemma pack_doubles_append: "pack_doubles (xs @ ys) = pack_doubles xs @ pack_doubles ys"
  by (simp add: pack_doubles_def)

lemma length_unpack_doubles [simp]: "length (unpack_doubles n b) = n"
  by (induction n arbitrary: b) auto

lemma unpack_pack_doubles: "\<forall>x \<in> set xs. representable x \<Longrightarrow> unpack_doubles (length xs) (pack_doubles xs @ rest) = xs"
  by (induction xs) (auto simp: pack_doubles_def decode_encode64)

section \<open>The bytes of a score\<close>

text \<open>The magnitude of a float grows with its bits.\<close>

definition magnitude :: "nat \<Rightarrow> nat \<Rightarrow> rat" where
  "magnitude e m = (if e = 0 then of_nat m * pow2 (- 1074) else of_nat (2 ^ 52 + m) * pow2 (int e - 1075))"

lemma magnitude_nonneg: "0 \<le> magnitude e m"
  by (simp add: magnitude_def)

lemma nat_pow2: "(of_nat (2 ^ k) :: rat) = pow2 (int k)"
  by (simp add: pow2_def)

lemma magnitude_bounds:
  assumes "m < 2 ^ 52"
  shows "magnitude e m < pow2 (int e - 1022)" and "e \<noteq> 0 \<Longrightarrow> pow2 (int e - 1023) \<le> magnitude e m"
proof -
  have m: "(of_nat m :: rat) < pow2 52" using assms nat_pow2 [of 52] by (metis of_nat_less_iff of_nat_numeral)
  have two: "pow2 53 = 2 * pow2 52" using pow2_add [of 1 52] by (simp add: pow2_def [of 1])
  show "magnitude e m < pow2 (int e - 1022)"
  proof (cases "e = 0")
    case True
    have "of_nat m * pow2 (- 1074) < pow2 52 * pow2 (- 1074)" using m by (intro mult_strict_right_mono) auto
    also have "\<dots> = pow2 (- 1022)" by (simp flip: pow2_add)
    finally show ?thesis using True by (simp add: magnitude_def)
  next
    case False
    have "of_nat (2 ^ 52 + m) < pow2 53" using m nat_pow2 [of 52] two by (simp del: of_nat_power)
    then have "of_nat (2 ^ 52 + m) * pow2 (int e - 1075) < pow2 53 * pow2 (int e - 1075)" by (rule mult_strict_right_mono) simp
    also have "\<dots> = pow2 (int e - 1022)" by (simp flip: pow2_add)
    finally show ?thesis using False by (simp add: magnitude_def)
  qed
  assume "e \<noteq> 0"
  have "pow2 52 \<le> of_nat (2 ^ 52 + m)" using nat_pow2 [of 52] by (simp del: of_nat_power)
  then have "pow2 52 * pow2 (int e - 1075) \<le> of_nat (2 ^ 52 + m) * pow2 (int e - 1075)" by (rule mult_right_mono) simp
  moreover have "pow2 52 * pow2 (int e - 1075) = pow2 (int e - 1023)" by (simp flip: pow2_add)
  ultimately show "pow2 (int e - 1023) \<le> magnitude e m" using \<open>e \<noteq> 0\<close> by (simp add: magnitude_def)
qed

lemma magnitude_less:
  assumes "m < 2 ^ 52" and "m' < 2 ^ 52" and "e < e' \<or> e = e' \<and> m < m'"
  shows "magnitude e m < magnitude e' m'"
proof (cases "e = e'")
  case True
  then have "(of_nat m :: rat) < of_nat m'" using assms(3) by simp
  then show ?thesis using True by (auto simp: magnitude_def intro: mult_strict_right_mono)
next
  case False
  then have "e < e'" using assms(3) by simp
  then have "pow2 (int e - 1022) \<le> pow2 (int e' - 1023)" by (intro pow2_mono) simp
  then show ?thesis using magnitude_bounds(1) [OF assms(1), of e] magnitude_bounds(2) [OF assms(2), of e'] \<open>e < e'\<close> by linarith
qed

lemma magnitude_inject:
  assumes "magnitude e m = magnitude e' m'" and "m < 2 ^ 52" and "m' < 2 ^ 52"
  shows "e = e' \<and> m = m'"
  using magnitude_less [of m m' e e'] magnitude_less [of m' m e' e] assms by (metis less_irrefl nat_neq_iff)

lemma bits_split:
  fixes n :: nat
  assumes "n < 2 ^ 64"
  obtains s e m where "n = (if s then 2 ^ 63 else 0) + e * 2 ^ 52 + m" and "m < 2 ^ 52" and "e < 2048"
proof -
  let ?h = "n div 2 ^ 52"
  have "?h < 4096" using assms by (simp add: less_mult_imp_div_less)
  then have h: "?h = of_bool (2048 \<le> ?h) * 2048 + ?h mod 2048" by (cases "2048 \<le> ?h") (simp_all add: mod_if)
  have "n = ?h * 2 ^ 52 + n mod 2 ^ 52" by simp
  also have "\<dots> = (if 2048 \<le> ?h then 2 ^ 63 else 0) + (?h mod 2048) * 2 ^ 52 + n mod 2 ^ 52"
    by (subst h) (simp add: algebra_simps)
  finally show thesis by (rule that) simp_all
qed

text \<open>The bits of a finite float that is not negative: those \<open>float_bits\<close> gives it, or the sign bit of a zero.\<close>

lemma bits_float_nonneg:
  assumes "bits_float n = Fin q" and "0 \<le> q" and "n < 2 ^ 64"
  shows "(\<exists>e m. n = e * 2 ^ 52 + m \<and> m < 2 ^ 52 \<and> e < 2047 \<and> q = magnitude e m) \<or> q = 0 \<and> n = 2 ^ 63"
proof -
  obtain s e m where n: "n = (if s then 2 ^ 63 else 0) + e * 2 ^ 52 + m" and m: "m < 2 ^ 52" and e: "e < 2048"
    using bits_split [OF assms(3)] by blast
  have fin: "(if e = 2047 then (if m \<noteq> 0 then NaN else if s then NInf else PInf) else Fin (if s then - magnitude e m else magnitude e m)) = Fin q"
    using bits_float_bits [OF m e, of s] assms(1) unfolding n Let_def magnitude_def by simp
  then have e': "e \<noteq> 2047" and q: "q = (if s then - magnitude e m else magnitude e m)" by (auto split: if_splits)
  show ?thesis
  proof (cases s)
    case False
    then show ?thesis using n m e e' q by (intro disjI1 exI [of _ e] exI [of _ m]) simp
  next
    case True
    then have "magnitude e m = magnitude 0 0" using q assms(2) magnitude_nonneg [of e m] by (simp add: magnitude_def [of 0 0])
    then have "e = 0 \<and> m = 0" using m by (intro magnitude_inject) simp_all
    then show ?thesis using True n q by (simp add: magnitude_def)
  qed
qed

lemma representable_magnitude:
  assumes "m < 2 ^ 52" and "e < 2047"
  shows "representable (Fin (magnitude e m))"
proof -
  let ?g = "if e = 0 then - 1074 else int e - 1075" and ?m = "int (if e = 0 then m else 2 ^ 52 + m)"
  have y: "magnitude e m = of_int ?m * pow2 ?g" by (simp add: magnitude_def)
  have up: "magnitude e m < pow2 (int e - 1022)" by (rule magnitude_bounds) fact
  have "pow2 (int e - 1022) \<le> pow2 (?g + 53)" by (rule pow2_mono) simp
  then have "dround (magnitude e m) = magnitude e m"
    using up magnitude_nonneg [of e m] by (intro dround_on_grid [OF y]) simp_all
  moreover have "pow2 (int e - 1022) \<le> pow2 1024" using assms(2) by (intro pow2_mono) simp
  moreover have "- pow2 1024 < magnitude e m" using magnitude_nonneg [of e m] by (meson less_le_trans neg_less_0_iff_less pow2_pos)
  ultimately show ?thesis using up by (simp add: representable_def dbl_def Let_def)
qed

lemma float_bits_bits:
  assumes "bits_float n = Fin q" and "0 \<le> q" and "n < 2 ^ 64"
  shows "n = float_bits (Fin q) \<or> q = 0 \<and> n = 2 ^ 63"
proof (rule ccontr)
  assume other: "\<not> ?thesis"
  then obtain e m where n: "n = e * 2 ^ 52 + m" "m < 2 ^ 52" "e < 2047" and q: "q = magnitude e m"
    using bits_float_nonneg [OF assms] by blast
  show False
  proof (cases "q = 0")
    case True
    then have "magnitude e m = magnitude 0 0" using q by (simp add: magnitude_def [of 0 0])
    then have "e = 0 \<and> m = 0" using n by (intro magnitude_inject) simp_all
    then show False using other True n by (simp add: float_bits_def)
  next
    case False
    have "representable (Fin q)" unfolding q using n by (intro representable_magnitude)
    then have "bits_float (float_bits (Fin q)) = Fin q" "float_bits (Fin q) < 2 ^ 64" using float_bits_fin False by auto
    then obtain e' m' where n': "float_bits (Fin q) = e' * 2 ^ 52 + m'" "m' < 2 ^ 52" "q = magnitude e' m'"
      using bits_float_nonneg [of "float_bits (Fin q)" q] assms(2) False by auto
    then have "e = e' \<and> m = m'" using magnitude_inject [of e m e' m'] n(2) q by simp
    then show False using other n n' by simp
  qed
qed

text \<open>The eight bytes a score is stored in; a zero may carry a minus sign.\<close>

definition score_bytes :: "pyfloat \<Rightarrow> bytes \<Rightarrow> bool" where
  "score_bytes x b \<longleftrightarrow> b = encode64 x \<or> x = Fin 0 \<and> b = le_bytes 8 (2 ^ 63)"

lemma decode64_score:
  assumes "length b = 8" and "isfinite (decode64 b)" and "\<not> py_less (decode64 b) (Fin 0)"
  shows "score_bytes (decode64 b) b"
proof -
  obtain q where q: "decode64 b = Fin q" using assms(2) by (cases "decode64 b") (auto simp: isfinite_def)
  moreover have "0 \<le> q" using assms(3) by (simp add: q py_less_def)
  moreover have n: "le_value b < 2 ^ 64" using le_value_less [of b] assms(1) by simp
  ultimately have "le_value b = float_bits (Fin q) \<or> q = 0 \<and> le_value b = 2 ^ 63"
    using float_bits_bits by (simp only: decode64_def)
  moreover have "b = le_bytes 8 (le_value b)" using le_bytes_value [of b] assms(1) by simp
  ultimately show ?thesis unfolding score_bytes_def q encode64_def by metis
qed

text \<open>Eight-byte pieces.\<close>

lemma unpack_doubles_chunks:
  assumes "8 * n \<le> length b" and "\<forall>x \<in> set (unpack_doubles n b). isfinite x \<and> \<not> py_less x (Fin 0)"
  shows "\<exists>cs. list_all2 score_bytes (unpack_doubles n b) cs \<and> take (8 * n) b = concat cs"
  using assms
proof (induction n arbitrary: b)
  case (Suc n)
  have "8 * n \<le> length (drop 8 b)" "\<forall>x \<in> set (unpack_doubles n (drop 8 b)). isfinite x \<and> \<not> py_less x (Fin 0)"
    using Suc.prems by auto
  from Suc.IH [OF this] obtain cs where cs: "list_all2 score_bytes (unpack_doubles n (drop 8 b)) cs"
    "take (8 * n) (drop 8 b) = concat cs" by blast
  have "score_bytes (decode64 (take 8 b)) (take 8 b)" using Suc.prems by (intro decode64_score) auto
  moreover have "take (8 * Suc n) b = take 8 b @ take (8 * n) (drop 8 b)" by (simp add: take_add)
  ultimately show ?case using cs by (intro exI [of _ "take 8 b # cs"]) simp
qed simp

section \<open>Layouts\<close>

text \<open>A header is the concatenation of its fields; \<open>split_fields\<close> cuts the data at the widths of a format.\<close>

primrec split_fields :: "nat list \<Rightarrow> bytes \<Rightarrow> bytes list" where
  "split_fields [] b = []"
| "split_fields (w # ws) b = take w b # split_fields ws (drop w b)"

lemma split_fields_concat: "map length fs = ws \<Longrightarrow> split_fields ws (concat fs @ rest) = fs"
  by (induction fs arbitrary: ws) auto

lemma length_split_fields [simp]: "length (split_fields ws b) = length ws"
  by (induction ws arbitrary: b) auto

lemma concat_split_fields: "concat (split_fields ws b) = take (sum_list ws) b"
  by (induction ws arbitrary: b) (auto simp: take_add)

lemma split_fields_lengths: "sum_list ws \<le> length b \<Longrightarrow> map length (split_fields ws b) = ws"
  by (induction ws arbitrary: b) auto

end
