(* ===== verification/Runtime_Artifact.thy ===== *)
theory Runtime_Artifact
  imports Ranking Bytes
begin

text \<open>
  \<open>predictor/runtime_artifact.py\<close>: the binary artifact a fitted transition ranker is exported to, its reader,
  and the prediction the runtime makes from it. The SHA-256 digest of a payload and the built-in sum of
  floats are arguments. The lemmas show that an exported ranker is read back exactly, that a file the
  reader accepts has the bytes the exporter packs for what was read, and that prediction from the file agrees with the ranker.
\<close>

section \<open>The artifact\<close>

definition RUNTIME_PHASES :: "string list" where
  "RUNTIME_PHASES = [''prefill'', ''decode'']"

definition HEADER_WIDTHS :: "nat list" where
  "HEADER_WIDTHS = [8, 4, 4, 32, 32, 2, 2, 2, 2, 2, 2, 24, 24, 24, 24, 32, 32, 8, 32]"

definition HEADER_SIZE :: nat where
  "HEADER_SIZE = sum_list HEADER_WIDTHS"

definition PAYLOAD_BYTES :: nat where
  "PAYLOAD_BYTES = (2 * 128 * 128 + 128) * 8 + 2 * 128 * 16"

text \<open>\<open>SCORING\<close>, \<open>TABLES\<close>, \<open>ADMISSION\<close> and \<open>TIE_BREAK\<close>.\<close>

definition IDENTIFIERS :: "string list" where
  "IDENTIFIERS = [''source_normalized'', ''phase_separated'', ''observed_support'', ''ascending_expert_id'']"

record runtime_identity =
  ri_model_sha256 :: string
  ri_runtime_sha256 :: string
  ri_manifest_sha256 :: string
  ri_configuration_sha256 :: string

definition artifact_identity_payload :: "runtime_identity \<Rightarrow> (string, string) dict" where
  "artifact_identity_payload i = [(''model_sha256'', ri_model_sha256 i), (''runtime_sha256'', ri_runtime_sha256 i),
     (''manifest_sha256'', ri_manifest_sha256 i), (''configuration_sha256'', ri_configuration_sha256 i)]"

record runtime_artifact =
  ra_format_version :: int
  ra_source_layer :: int
  ra_target_layer :: int
  ra_expert_count :: int
  ra_source_width :: int
  ra_candidate_width :: int
  ra_identity :: runtime_identity
  ra_payload_sha256 :: string
  ra_payload :: bytes
  ra_scores :: "(string, pyfloat list list) dict"
  ra_support :: "(string, nat list) dict"
  ra_fallback_scores :: "pyfloat list"

definition fixed_field :: "bytes \<Rightarrow> nat \<Rightarrow> bytes res" where
  "fixed_field value width = (if width < length value then Inl (ValueError ''fixed artifact identifier is too long'')
     else Inr (value @ replicate (width - length value) 0))"

definition hex_digest :: "string \<Rightarrow> bytes res" where
  "hex_digest value = (if length value \<noteq> 64 then Inl (ValueError ''must be a SHA-256 hexadecimal digest'')
     else case fromhex value of Inl e \<Rightarrow> Inl (ValueError ''must be a SHA-256 hexadecimal digest'') | Inr b \<Rightarrow> Inr b)"

section \<open>Export\<close>

definition score_row :: "(int, int counter) dict \<Rightarrow> int \<Rightarrow> pyfloat list res" where
  "score_row by_source source = (let counts = dict_get by_source source []; row_total = counter_total counts in
     rmap (\<lambda>target. if row_total = 0 then Inr (Fin 0) else
       rbind (float_of_int (counter_get counts target)) (\<lambda>a. rbind (float_of_int row_total) (\<lambda>b. fdiv a b))) experts)"

text \<open>\<open>sum(1 << target for target, score in enumerate(row) if score > 0.0)\<close>\<close>

definition support_mask :: "pyfloat list \<Rightarrow> nat" where
  "support_mask row = sum_list (map (\<lambda>(target, score). if py_less (Fin 0) score then 2 ^ target else 0) (enumerate 0 row))"

definition phase_table :: "transition_predictor \<Rightarrow> string \<Rightarrow> pyfloat list list res" where
  "phase_table p phase = rmap (score_row (dict_get (dict_get (tp_transitions p) phase []) 24 [])) experts"

definition table_payload :: "transition_predictor
    \<Rightarrow> (bytes \<times> (string, pyfloat list list) dict \<times> (string, nat list) dict) res" where
  "table_payload p =
     rbind (rmap (\<lambda>phase. rbind (phase_table p phase) (\<lambda>rows. Inr (phase, rows))) RUNTIME_PHASES) (\<lambda>tables.
       let rows = concat (map snd tables) in
       Inr (pack_doubles (concat rows) @ concat (map (le_bytes 16 \<circ> support_mask) rows),
         tables, map (\<lambda>(phase, rows). (phase, map support_mask rows)) tables))"

definition fallback_scores_of :: "transition_predictor \<Rightarrow> pyfloat list res" where
  "fallback_scores_of p = rmap (\<lambda>x. float_of_int (counter_get (dict_get (fp_counts (tp_fallback p)) 24 []) x)) experts"

definition header_fields :: "(bytes \<Rightarrow> bytes) \<Rightarrow> runtime_identity \<Rightarrow> bytes \<Rightarrow> bytes list res" where
  "header_fields digest identity payload =
     rbind (hex_digest (ri_model_sha256 identity)) (\<lambda>model.
     rbind (hex_digest (ri_runtime_sha256 identity)) (\<lambda>runtime.
     rbind (rmap (\<lambda>s. fixed_field (ascii_bytes s) 24) IDENTIFIERS) (\<lambda>names.
     rbind (hex_digest (ri_manifest_sha256 identity)) (\<lambda>manifest.
     rbind (hex_digest (ri_configuration_sha256 identity)) (\<lambda>configuration.
       Inr ([pack_string 8 (ascii_bytes ''EFB2RT01''), le_bytes 4 1, le_bytes 4 HEADER_SIZE, pack_string 32 model, pack_string 32 runtime,
           le_bytes 2 23, le_bytes 2 24, le_bytes 2 128, le_bytes 2 8, le_bytes 2 12, le_bytes 2 0]
         @ map (pack_string 24) names
         @ [pack_string 32 manifest, pack_string 32 configuration, le_bytes 8 (length payload), pack_string 32 (digest payload)]))))))"

definition build_runtime_artifact :: "(bytes \<Rightarrow> bytes) \<Rightarrow> transition_predictor \<Rightarrow> runtime_identity \<Rightarrow> bytes res" where
  "build_runtime_artifact digest p identity =
     (if tp_weighting p \<noteq> ''source_normalized'' then Inl (ValueError ''runtime artifact requires source-normalized scoring'')
      else if tp_phase_mode p \<noteq> ''separate'' then Inl (ValueError ''runtime artifact requires phase-separated tables'')
      else rbind (table_payload p) (\<lambda>(table, _, _).
      rbind (fallback_scores_of p) (\<lambda>fallback.
      let payload = table @ pack_doubles fallback in
      if length payload \<noteq> PAYLOAD_BYTES then Inl (ValueError ''runtime artifact payload dimensions are invalid'')
      else rbind (header_fields digest identity payload) (\<lambda>fs. Inr (concat fs @ payload)))))"

section \<open>The reader\<close>

definition invalid_scores :: "pyfloat list \<Rightarrow> bool" where
  "invalid_scores row \<longleftrightarrow> (\<exists>x \<in> set row. \<not> isfinite x \<or> py_less x (Fin 0))"

text \<open>The loops of the reader keep the bytes after \<open>offset\<close>.\<close>

primrec read_score_rows :: "nat \<Rightarrow> bytes \<Rightarrow> (pyfloat list list \<times> bytes) res" where
  "read_score_rows 0 rest = Inr ([], rest)"
| "read_score_rows (Suc n) rest = (let row = unpack_doubles 128 rest in
     if invalid_scores row then Inl (ValueError ''runtime artifact contains invalid scores'')
     else rbind (read_score_rows n (drop (128 * 8) rest)) (\<lambda>(rows, rest'). Inr (row # rows, rest')))"

primrec read_masks :: "nat \<Rightarrow> bytes \<Rightarrow> nat list \<times> bytes" where
  "read_masks 0 rest = ([], rest)"
| "read_masks (Suc n) rest = (let (masks, rest') = read_masks n (drop 16 rest) in (le_value (take 16 rest) # masks, rest'))"

definition read_tables :: "bytes \<Rightarrow> ((string, pyfloat list list) dict \<times> bytes) res" where
  "read_tables payload = rfold (\<lambda>(tables, rest) phase. rbind (read_score_rows 128 rest) (\<lambda>(rows, rest').
     Inr (dict_set phase rows tables, rest'))) ([], payload) RUNTIME_PHASES"

definition read_support :: "bytes \<Rightarrow> (string, nat list) dict \<times> bytes" where
  "read_support payload = foldl (\<lambda>(tables, rest) phase. let (masks, rest') = read_masks 128 rest in
     (dict_set phase masks tables, rest')) ([], payload) RUNTIME_PHASES"

definition read_payload :: "bytes \<Rightarrow> ((string, pyfloat list list) dict \<times> (string, nat list) dict \<times> pyfloat list) res" where
  "read_payload payload =
     rbind (read_tables payload) (\<lambda>(tables, rest).
     let (support, rest') = read_support rest; fallback = unpack_doubles 128 rest' in
     if invalid_scores fallback then Inl (ValueError ''runtime artifact contains invalid fallback scores'')
     else if drop (128 * 8) rest' \<noteq> [] then Inl (ValueError ''runtime artifact payload dimensions are invalid'')
     else if \<exists>phase \<in> set RUNTIME_PHASES. map support_mask (dict_get tables phase []) \<noteq> dict_get support phase []
     then Inl (ValueError ''runtime artifact observed-support mask is invalid'')
     else Inr (tables, support, fallback))"

definition parse_runtime_artifact :: "(bytes \<Rightarrow> bytes) \<Rightarrow> bytes \<Rightarrow> runtime_artifact res" where
  "parse_runtime_artifact digest data =
     (if length data < HEADER_SIZE then Inl (ValueError ''runtime artifact is truncated'')
      else let f = split_fields HEADER_WIDTHS data; payload = drop HEADER_SIZE data; payload_bytes = le_value (f ! 17) in
      if f ! 0 \<noteq> ascii_bytes ''EFB2RT01'' then Inl (ValueError ''runtime artifact magic is invalid'')
      else if le_value (f ! 1) \<noteq> 1 then Inl (ValueError ''runtime artifact version is unsupported'')
      else if le_value (f ! 2) \<noteq> HEADER_SIZE \<or> le_value (f ! 10) \<noteq> 0
      then Inl (ValueError ''runtime artifact header dimensions are invalid'')
      else if map (\<lambda>i. le_value (f ! i)) [5, 6, 7, 8, 9] \<noteq> [23, 24, 128, 8, 12]
      then Inl (ValueError ''runtime artifact predictor dimensions are invalid'')
      else rbind (rany (\<lambda>(b, name). rbind (decode_identifier b) (\<lambda>s. Inr (s \<noteq> name)))
        (zip [f ! 11, f ! 12, f ! 13, f ! 14] IDENTIFIERS)) (\<lambda>differs.
      if differs then Inl (ValueError ''runtime artifact predictor configuration is invalid'')
      else if payload_bytes \<noteq> PAYLOAD_BYTES then Inl (ValueError ''runtime artifact payload dimensions are invalid'')
      else if length data < HEADER_SIZE + payload_bytes then Inl (ValueError ''runtime artifact is truncated'')
      else if length data \<noteq> HEADER_SIZE + payload_bytes then Inl (ValueError ''runtime artifact has trailing bytes'')
      else if digest payload \<noteq> f ! 18 then Inl (ValueError ''runtime artifact payload checksum does not match'')
      else rbind (read_payload payload) (\<lambda>(tables, support, fallback).
        Inr \<lparr>ra_format_version = int (le_value (f ! 1)), ra_source_layer = int (le_value (f ! 5)), ra_target_layer = int (le_value (f ! 6)),
          ra_expert_count = int (le_value (f ! 7)), ra_source_width = int (le_value (f ! 8)), ra_candidate_width = int (le_value (f ! 9)),
          ra_identity = \<lparr>ri_model_sha256 = bytes_hex (f ! 3), ri_runtime_sha256 = bytes_hex (f ! 4),
            ri_manifest_sha256 = bytes_hex (f ! 15), ri_configuration_sha256 = bytes_hex (f ! 16)\<rparr>,
          ra_payload_sha256 = bytes_hex (f ! 18), ra_payload = payload, ra_scores = tables, ra_support = support,
          ra_fallback_scores = fallback\<rparr>)))"

section \<open>Prediction\<close>

definition score_at :: "pyfloat list list \<Rightarrow> int \<Rightarrow> int \<Rightarrow> pyfloat res" where
  "score_at rows source target = rbind (py_index (length rows) source) (\<lambda>i.
     rbind (py_index (length (rows ! i)) target) (\<lambda>j. Inr (rows ! i ! j)))"

definition predict_runtime_artifact :: "(pyfloat list \<Rightarrow> pyfloat) \<Rightarrow> runtime_artifact \<Rightarrow> string \<Rightarrow> int list
    \<Rightarrow> (int list \<times> pyfloat list) res" where
  "predict_runtime_artifact float_sum a phase sources =
     (if phase \<notin> set RUNTIME_PHASES then Inl (ValueError ''predictor phase must be prefill or decode'')
      else if int (length sources) \<noteq> ra_source_width a \<or> int (card (set sources)) \<noteq> ra_source_width a
        \<or> (\<exists>x \<in> set sources. \<not> (0 \<le> x \<and> x < ra_expert_count a))
      then Inl (ValueError ''source expert IDs must be eight unique valid IDs'')
      else rbind (rmap (\<lambda>target. rbind (dict_index (ra_scores a) phase) (\<lambda>rows.
          rbind (rmap (\<lambda>source. score_at rows source target) sources) (\<lambda>xs. Inr (float_sum xs)))) [0..ra_expert_count a - 1]) (\<lambda>scores.
      let supported = filter (\<lambda>x. py_less (Fin 0) (scores ! nat x)) [0..int (length scores) - 1] in
      if int (length supported) < ra_candidate_width a then Inl (ValueError ''fewer than twelve candidates have observed support'')
      else let selected = take (nat (ra_candidate_width a)) (sort_key (\<lambda>x. (fneg (scores ! nat x), x)) supported) in
        Inr (selected, map (\<lambda>x. scores ! nat x) selected)))"

text \<open>The document \<open>write_parity_fixtures\<close> writes.\<close>

definition parity_fixture :: "(pyfloat list \<Rightarrow> pyfloat) \<Rightarrow> runtime_artifact \<Rightarrow> string \<times> int list \<Rightarrow> json res" where
  "parity_fixture float_sum a = (\<lambda>(phase, source).
     rbind (predict_runtime_artifact float_sum a phase source) (\<lambda>(candidates, scores).
       Inr (JObj [(''phase'', JStr phase), (''source_expert_ids'', JArr (map JInt source)),
         (''predicted_expert_ids'', JArr (map JInt candidates)), (''predicted_scores'', JArr (map JFloat scores))])))"

definition parity_fixtures :: "(pyfloat list \<Rightarrow> pyfloat) \<Rightarrow> runtime_artifact \<Rightarrow> (string \<times> int list) list \<Rightarrow> json res" where
  "parity_fixtures float_sum a cases = rbind (rmap (parity_fixture float_sum a) cases) (\<lambda>fixtures.
     Inr (JObj [(''schema_version'', JStr ''1.0.0''), (''artifact_format_version'', JInt (ra_format_version a)),
       (''artifact_payload_sha256'', JStr (ra_payload_sha256 a)), (''candidate_width'', JInt (ra_candidate_width a)),
       (''fixtures'', JArr fixtures)]))"

section \<open>Reading back\<close>

definition good_row :: "pyfloat list \<Rightarrow> bool" where
  "good_row row \<longleftrightarrow> length row = 128 \<and> (\<forall>x \<in> set row. representable x \<and> isfinite x \<and> \<not> py_less x (Fin 0))"

lemma good_row_valid: "good_row row \<Longrightarrow> \<not> invalid_scores row"
  by (auto simp: good_row_def invalid_scores_def)

lemma unpack_good_row: "good_row row \<Longrightarrow> unpack_doubles 128 (pack_doubles row @ rest) = row"
  using unpack_pack_doubles [of row rest] by (simp add: good_row_def)

lemma read_score_rows_pack:
  assumes "\<forall>row \<in> set rows. good_row row"
  shows "read_score_rows (length rows) (pack_doubles (concat rows) @ rest) = Inr (rows, rest)"
  using assms
proof (induction rows)
  case (Cons row rows)
  have row: "good_row row" and len: "length row = 128" using Cons.prems by (auto simp: good_row_def)
  have cut: "pack_doubles (concat (row # rows)) @ rest = pack_doubles row @ pack_doubles (concat rows) @ rest"
    by (simp add: pack_doubles_append)
  show ?case unfolding cut using Cons row len by (simp add: unpack_good_row good_row_valid)
qed (simp add: pack_doubles_def)

lemma read_masks_bytes:
  assumes "\<forall>m \<in> set ms. m < 2 ^ 128"
  shows "read_masks (length ms) (concat (map (le_bytes 16) ms) @ rest) = (ms, rest)"
  using assms by (induction ms) simp_all

lemma support_mask_Cons_aux:
  "sum_list (map (\<lambda>(t, s). if P s then 2 ^ t else 0) (enumerate k row))
     = 2 ^ k * (sum_list (map (\<lambda>(t, s). if P s then 2 ^ t else 0) (enumerate 0 row)) :: nat)"
proof (induction row arbitrary: k)
  case (Cons x row)
  from Cons [of "Suc k"] Cons [of "Suc 0"] show ?case by (simp add: algebra_simps)
qed simp

lemma support_mask_simps [simp]:
  "support_mask [] = 0" "support_mask (x # row) = of_bool (py_less (Fin 0) x) + 2 * support_mask row"
  using support_mask_Cons_aux [of "py_less (Fin 0)" "Suc 0" row] by (simp_all add: support_mask_def)

lemma support_mask_bit: "bit (support_mask row) t \<longleftrightarrow> t < length row \<and> py_less (Fin 0) (row ! t)"
proof (induction row arbitrary: t)
  case (Cons x row)
  have eq: "of_bool b + 2 * n = (if b then Suc (2 * n) else 2 * n)" for b and n :: nat by simp
  show ?case unfolding support_mask_simps eq using Cons by (cases t) (auto simp: bit_0 bit_Suc)
qed simp

lemma support_mask_less: "support_mask row < 2 ^ length row"
  by (induction row) auto

definition payload_of :: "pyfloat list list \<Rightarrow> pyfloat list list \<Rightarrow> pyfloat list \<Rightarrow> bytes" where
  "payload_of r1 r2 fb = (pack_doubles (concat (r1 @ r2)) @ concat (map (le_bytes 16 \<circ> support_mask) (r1 @ r2))) @ pack_doubles fb"

definition good_table :: "pyfloat list list \<Rightarrow> bool" where
  "good_table rows \<longleftrightarrow> length rows = 128 \<and> (\<forall>row \<in> set rows. good_row row)"

lemma good_table_masks: "good_table rows \<Longrightarrow> \<forall>m \<in> set (map support_mask rows). m < 2 ^ 128"
proof
  fix m assume t: "good_table rows" and "m \<in> set (map support_mask rows)"
  then obtain row where "row \<in> set rows" "m = support_mask row" by auto
  with t support_mask_less [of row] show "m < 2 ^ 128" by (simp add: good_table_def good_row_def)
qed

lemma read_payload_of:
  assumes r1: "good_table r1" and r2: "good_table r2" and fb: "good_row fb"
  shows "read_payload (payload_of r1 r2 fb) = Inr ([(''prefill'', r1), (''decode'', r2)],
      [(''prefill'', map support_mask r1), (''decode'', map support_mask r2)], fb)"
proof -
  let ?m = "\<lambda>rows. concat (map (le_bytes 16) (map support_mask rows))"
  let ?rest = "?m r1 @ ?m r2 @ pack_doubles fb @ []"
  have cut: "payload_of r1 r2 fb = pack_doubles (concat r1) @ pack_doubles (concat r2) @ ?rest"
    by (simp add: payload_of_def pack_doubles_append o_def)
  have l: "length r1 = 128" "length r2 = 128" "length (map support_mask r1) = 128" "length (map support_mask r2) = 128"
    using r1 r2 by (simp_all add: good_table_def)
  have rows: "read_score_rows 128 (pack_doubles (concat r1) @ rest) = Inr (r1, rest)"
      "read_score_rows 128 (pack_doubles (concat r2) @ rest) = Inr (r2, rest)" for rest
    using read_score_rows_pack [of r1] read_score_rows_pack [of r2] r1 r2 l by (simp_all add: good_table_def)
  have masks: "read_masks 128 (?m r1 @ rest) = (map support_mask r1, rest)" "read_masks 128 (?m r2 @ rest) = (map support_mask r2, rest)" for rest
    using read_masks_bytes [OF good_table_masks [OF r1]] read_masks_bytes [OF good_table_masks [OF r2]] l by simp_all
  have tables: "read_tables (payload_of r1 r2 fb) = Inr ([(''prefill'', r1), (''decode'', r2)], ?rest)"
    unfolding read_tables_def RUNTIME_PHASES_def cut by (simp add: rows dict_set_new)
  have support: "read_support ?rest = ([(''prefill'', map support_mask r1), (''decode'', map support_mask r2)], pack_doubles fb @ [])"
    unfolding read_support_def RUNTIME_PHASES_def by (simp only: foldl.simps masks Let_def case_prod_conv) (simp add: dict_set_new)
  have len: "length fb = 128" using fb by (simp add: good_row_def)
  have tail: "drop (128 * 8) (pack_doubles fb @ []) = []" using len by simp
  have same: "\<not> (\<exists>phase \<in> set RUNTIME_PHASES. map support_mask (dict_get [(''prefill'', r1), (''decode'', r2)] phase [])
      \<noteq> dict_get [(''prefill'', map support_mask r1), (''decode'', map support_mask r2)] phase [])"
    by (simp add: RUNTIME_PHASES_def dict_get_def)
  show ?thesis
    unfolding read_payload_def tables rbind_Inr case_prod_conv support Let_def unpack_good_row [OF fb] tail
    using good_row_valid [OF fb] same by simp
qed

lemma length_masks: "length (concat (map (le_bytes 16 \<circ> f) rows)) = 16 * length rows"
  by (induction rows) auto

lemma length_good_concat: "\<forall>row \<in> set rows. good_row row \<Longrightarrow> length (concat rows) = 128 * length rows"
  by (induction rows) (auto simp: good_row_def)

lemma length_payload_of:
  assumes "good_table r1" and "good_table r2" and "good_row fb"
  shows "length (payload_of r1 r2 fb) = PAYLOAD_BYTES"
proof -
  have "length (concat (r1 @ r2)) = 128 * 256" using assms length_good_concat [of "r1 @ r2"] by (auto simp: good_table_def)
  moreover have "length (r1 @ r2) = 256" "length fb = 128" using assms by (simp_all add: good_table_def good_row_def)
  ultimately show ?thesis by (simp add: payload_of_def length_masks PAYLOAD_BYTES_def del: map_append concat_append length_append length_concat)
     (simp add: length_masks del: map_append concat_append length_concat)
qed

section \<open>The header\<close>

definition hash_identity :: "runtime_identity \<Rightarrow> bool" where
  "hash_identity i \<longleftrightarrow> is_hash (ri_model_sha256 i) \<and> is_hash (ri_runtime_sha256 i) \<and> is_hash (ri_manifest_sha256 i)
     \<and> is_hash (ri_configuration_sha256 i)"

lemma hex_digest_hash:
  assumes "is_hash s"
  obtains b where "hex_digest s = Inr b" and "length b = 32" and "bytes_hex b = s"
  using fromhex_hex [of s] assms by (auto simp: hex_digest_def is_hash_def)

lemma hex_value_digit: "n < 16 \<Longrightarrow> hex_value (hex_digit n) = Some n \<and> \<not> ascii_space (hex_digit n)"
proof -
  assume "n < 16"
  then have "n \<in> {0, 1, 2, 3, 4, 5, 6, 7, 8, 9, 10, 11, 12, 13, 14, 15}" by (simp only: insert_iff empty_iff) arith
  then show ?thesis by (elim insertE emptyE) (simp_all add: hex_digit_def hex_value_def ascii_space_def)
qed

lemma fromhex_bytes_hex: "fromhex (bytes_hex b) = Inr b"
proof (induction b)
  case (Cons w b)
  have h: "unat w div 16 < 16" "unat w mod 16 < 16" using byte_less [of w] by simp_all
  have "bytes_hex (w # b) = hex_digit (unat w div 16) # hex_digit (unat w mod 16) # bytes_hex b" by (simp add: bytes_hex_def)
  then show ?case using hex_value_digit [OF h(1)] hex_value_digit [OF h(2)] Cons by simp
qed (simp add: bytes_hex_def)

lemma hex_digest_bytes_hex: "length b = 32 \<Longrightarrow> hex_digest (bytes_hex b) = Inr b"
  using is_hash_bytes_hex [of b] by (simp add: hex_digest_def fromhex_bytes_hex is_hash_def)

lemma decode_ascii:
  assumes "\<forall>c \<in> set s. (of_char c :: nat) < 128" and "s \<noteq> []" and "(of_char (last s) :: nat) \<noteq> 0"
  shows "decode_identifier (ascii_bytes s @ replicate n 0) = Inr s"
proof -
  have code: "(of_char c :: nat) < 256" for c using of_char_mod_256 [of c, where ?'a = nat] by (metis mod_less_divisor zero_less_numeral)
  have byte: "unat (word_of_nat (of_char c) :: 8 word) = (of_char c :: nat)" for c using code [of c] by simp
  have drop: "dropWhile (\<lambda>w. w = 0) (replicate n 0 @ xs) = dropWhile (\<lambda>w. w = 0) xs" for xs :: bytes by (induction n) auto
  have "word_of_nat (of_char (last s)) \<noteq> (0 :: 8 word)" using byte [of "last s"] assms(3) by (metis unat_0)
  moreover have "rev (ascii_bytes s) = word_of_nat (of_char (last s)) # rev (ascii_bytes (butlast s))"
    using assms(2) by (cases s rule: rev_cases) (simp_all add: ascii_bytes_def)
  ultimately have "dropWhile (\<lambda>w. w = 0) (rev (ascii_bytes s)) = rev (ascii_bytes s)" by simp
  then have "decode_identifier (ascii_bytes s @ replicate n 0)
      = rmap (\<lambda>w. if unat w < 128 then Inr (char_of (unat w)) else Inl (ValueError ''ordinal not in range(128)'')) (ascii_bytes s)"
    by (simp add: decode_identifier_def drop)
  also have "\<dots> = Inr s" unfolding ascii_bytes_def using assms(1)
    by (induction s) (simp_all only: list.map byte, simp_all)
  finally show ?thesis .
qed

lemma decode_identifier_padded:
  assumes "decode_identifier b = Inr s"
  shows "b = ascii_bytes s @ replicate (length b - length s) 0"
proof -
  let ?t = "rev (dropWhile (\<lambda>w. w = 0) (rev b))"
  have zeros: "takeWhile (\<lambda>w. w = 0) xs = replicate (length (takeWhile (\<lambda>w. w = 0) xs)) 0" for xs :: bytes
    by (rule replicate_eqI) (auto dest: set_takeWhileD)
  have b: "b = ?t @ rev (takeWhile (\<lambda>w. w = 0) (rev b))"
    by (metis rev_append rev_rev_ident takeWhile_dropWhile_id)
  have t: "ascii_bytes s = ?t"
    using assms unfolding decode_identifier_def rmap_eq_Inr ascii_bytes_def
    by (induction rule: list_all2_induct) (auto split: if_splits simp: of_char_of)
  have "length b = length s + length (takeWhile (\<lambda>w. w = 0) (rev b))"
    by (subst b) (simp only: length_append length_rev flip: t, simp)
  then show ?thesis using b t zeros [of "rev b"] by (metis add_diff_cancel_left' rev_replicate)
qed

lemma fixed_identifiers: "rmap (\<lambda>s. fixed_field (ascii_bytes s) 24) IDENTIFIERS
    = Inr (map (\<lambda>s. ascii_bytes s @ replicate (24 - length s) 0) IDENTIFIERS)"
  by (simp add: IDENTIFIERS_def fixed_field_def)

lemma decode_identifiers: "name \<in> set IDENTIFIERS \<Longrightarrow> decode_identifier (pack_string 24 (ascii_bytes name @ replicate (24 - length name) 0)) = Inr name
    \<and> length (ascii_bytes name @ replicate (24 - length name) (0 :: 8 word)) = 24"
  unfolding IDENTIFIERS_def set_simps
  by (elim insertE emptyE) (simp_all add: pack_string_full decode_ascii)

definition padded_name :: "string \<Rightarrow> bytes" where
  "padded_name name = ascii_bytes name @ replicate (24 - length name) 0"

definition artifact_fields :: "bytes \<Rightarrow> bytes \<Rightarrow> bytes \<Rightarrow> bytes \<Rightarrow> nat \<Rightarrow> bytes \<Rightarrow> bytes list" where
  "artifact_fields model runtime manifest configuration payload_bytes payload_digest =
     [ascii_bytes ''EFB2RT01'', le_bytes 4 1, le_bytes 4 HEADER_SIZE, model, runtime, le_bytes 2 23, le_bytes 2 24, le_bytes 2 128,
      le_bytes 2 8, le_bytes 2 12, le_bytes 2 0, padded_name ''source_normalized'', padded_name ''phase_separated'',
      padded_name ''observed_support'', padded_name ''ascending_expert_id'', manifest, configuration, le_bytes 8 payload_bytes, payload_digest]"

lemma header_size [simp]: "HEADER_SIZE = 292"
  by (simp add: HEADER_SIZE_def HEADER_WIDTHS_def)

lemma padded_names: "map padded_name IDENTIFIERS
    = [padded_name ''source_normalized'', padded_name ''phase_separated'', padded_name ''observed_support'', padded_name ''ascending_expert_id'']"
  by (simp add: IDENTIFIERS_def)

lemma padded_name_decode: "name \<in> set IDENTIFIERS \<Longrightarrow> decode_identifier (padded_name name) = Inr name \<and> length (padded_name name) = 24"
  using decode_identifiers [of name] pack_string_full [of "padded_name name" 24] by (simp add: padded_name_def)

lemma header_fields_bytes:
  assumes "hex_digest (ri_model_sha256 i) = Inr m" "hex_digest (ri_runtime_sha256 i) = Inr r"
    "hex_digest (ri_manifest_sha256 i) = Inr mf" "hex_digest (ri_configuration_sha256 i) = Inr c"
    and "length m = 32" "length r = 32" "length mf = 32" "length c = 32" "length (digest payload) = 32"
  shows "header_fields digest i payload = Inr (artifact_fields m r mf c (length payload) (digest payload))"
proof -
  have names: "rmap (\<lambda>s. fixed_field (ascii_bytes s) 24) IDENTIFIERS = Inr (map padded_name IDENTIFIERS)"
    unfolding padded_name_def by (rule fixed_identifiers)
  have "\<forall>name \<in> set IDENTIFIERS. pack_string 24 (padded_name name) = padded_name name"
    using padded_name_decode pack_string_full by blast
  then have "map (pack_string 24) (map padded_name IDENTIFIERS) = map padded_name IDENTIFIERS" by (simp add: IDENTIFIERS_def)
  then show ?thesis
    unfolding header_fields_def names rbind_Inr assms(1-4)
    using assms(5-9) by (simp add: pack_string_full artifact_fields_def padded_names)
qed

lemma artifact_fields_lengths:
  assumes "length m = 32" "length r = 32" "length mf = 32" "length c = 32" "length d = 32"
  shows "map length (artifact_fields m r mf c n d) = HEADER_WIDTHS"
  using assms padded_name_decode by (simp add: artifact_fields_def HEADER_WIDTHS_def IDENTIFIERS_def)

definition loaded_artifact :: "bytes \<Rightarrow> bytes \<Rightarrow> bytes \<Rightarrow> bytes \<Rightarrow> bytes \<Rightarrow> bytes
    \<Rightarrow> (string, pyfloat list list) dict \<times> (string, nat list) dict \<times> pyfloat list \<Rightarrow> runtime_artifact" where
  "loaded_artifact m r mf c d payload = (\<lambda>(tables, support, fallback).
     \<lparr>ra_format_version = 1, ra_source_layer = 23, ra_target_layer = 24, ra_expert_count = 128, ra_source_width = 8, ra_candidate_width = 12,
      ra_identity = \<lparr>ri_model_sha256 = bytes_hex m, ri_runtime_sha256 = bytes_hex r, ri_manifest_sha256 = bytes_hex mf,
        ri_configuration_sha256 = bytes_hex c\<rparr>,
      ra_payload_sha256 = bytes_hex d, ra_payload = payload, ra_scores = tables, ra_support = support, ra_fallback_scores = fallback\<rparr>)"

lemma parse_fields:
  assumes "length m = 32" "length r = 32" "length mf = 32" "length c = 32" "length (digest payload) = 32"
    and "length payload = PAYLOAD_BYTES"
  shows "parse_runtime_artifact digest (concat (artifact_fields m r mf c (length payload) (digest payload)) @ payload)
    = rbind (read_payload payload) (\<lambda>x. Inr (loaded_artifact m r mf c (digest payload) payload x))"
proof -
  let ?fs = "artifact_fields m r mf c (length payload) (digest payload)"
  have widths: "map length ?fs = HEADER_WIDTHS" using artifact_fields_lengths assms by blast
  have split: "split_fields HEADER_WIDTHS (concat ?fs @ payload) = ?fs" using widths by (rule split_fields_concat)
  have len: "length (concat ?fs) = 292" unfolding length_concat widths by (simp add: HEADER_WIDTHS_def)
  have whole: "length (concat ?fs @ payload) = 292 + PAYLOAD_BYTES" using len assms(6) by simp
  have tail: "drop HEADER_SIZE (concat ?fs @ payload) = payload" using len by simp
  have f: "?fs ! 0 = ascii_bytes ''EFB2RT01''" "?fs ! 1 = le_bytes 4 1" "?fs ! 2 = le_bytes 4 292" "?fs ! 3 = m" "?fs ! 4 = r"
      "?fs ! 5 = le_bytes 2 23" "?fs ! 6 = le_bytes 2 24" "?fs ! 7 = le_bytes 2 128" "?fs ! 8 = le_bytes 2 8" "?fs ! 9 = le_bytes 2 12"
      "?fs ! 10 = le_bytes 2 0" "[?fs ! 11, ?fs ! 12, ?fs ! 13, ?fs ! 14] = map padded_name IDENTIFIERS"
      "?fs ! 15 = mf" "?fs ! 16 = c" "?fs ! 17 = le_bytes 8 PAYLOAD_BYTES" "?fs ! 18 = digest payload"
    by (simp_all add: artifact_fields_def assms(6) padded_names)
  have pb: "le_value (le_bytes 8 PAYLOAD_BYTES) = PAYLOAD_BYTES" by (simp add: PAYLOAD_BYTES_def)
  have names: "rany (\<lambda>(b, name). rbind (decode_identifier b) (\<lambda>s. Inr (s \<noteq> name))) (zip (map padded_name IDENTIFIERS) IDENTIFIERS) = Inr False"
    unfolding rany_False using padded_name_decode by (auto simp: zip_map1 zip_same_conv_map)
  show ?thesis
    unfolding parse_runtime_artifact_def Let_def split tail whole f pb names rbind_Inr
    by (simp add: f loaded_artifact_def split_def)
qed

lemma build_parse:
  assumes "hash_identity i" and "\<And>b. length (digest b) = 32"
    and "good_table r1" and "good_table r2" and "good_row fb"
  obtains fs where "header_fields digest i (payload_of r1 r2 fb) = Inr fs"
    and "parse_runtime_artifact digest (concat fs @ payload_of r1 r2 fb) = Inr
      \<lparr>ra_format_version = 1, ra_source_layer = 23, ra_target_layer = 24, ra_expert_count = 128, ra_source_width = 8, ra_candidate_width = 12,
        ra_identity = i, ra_payload_sha256 = bytes_hex (digest (payload_of r1 r2 fb)), ra_payload = payload_of r1 r2 fb,
        ra_scores = [(''prefill'', r1), (''decode'', r2)],
        ra_support = [(''prefill'', map support_mask r1), (''decode'', map support_mask r2)], ra_fallback_scores = fb\<rparr>"
proof -
  obtain m where m: "hex_digest (ri_model_sha256 i) = Inr m" "length m = 32" "bytes_hex m = ri_model_sha256 i"
    using assms(1) hex_digest_hash unfolding hash_identity_def by blast
  obtain r where r: "hex_digest (ri_runtime_sha256 i) = Inr r" "length r = 32" "bytes_hex r = ri_runtime_sha256 i"
    using assms(1) hex_digest_hash unfolding hash_identity_def by blast
  obtain mf where mf: "hex_digest (ri_manifest_sha256 i) = Inr mf" "length mf = 32" "bytes_hex mf = ri_manifest_sha256 i"
    using assms(1) hex_digest_hash unfolding hash_identity_def by blast
  obtain c where c: "hex_digest (ri_configuration_sha256 i) = Inr c" "length c = 32" "bytes_hex c = ri_configuration_sha256 i"
    using assms(1) hex_digest_hash unfolding hash_identity_def by blast
  let ?p = "payload_of r1 r2 fb"
  have h: "header_fields digest i ?p = Inr (artifact_fields m r mf c (length ?p) (digest ?p))"
    by (rule header_fields_bytes) (use m r mf c assms(2) in auto)
  have len: "length ?p = PAYLOAD_BYTES" using assms(3-5) by (rule length_payload_of)
  have p: "parse_runtime_artifact digest (concat (artifact_fields m r mf c (length ?p) (digest ?p)) @ ?p)
      = rbind (read_payload ?p) (\<lambda>x. Inr (loaded_artifact m r mf c (digest ?p) ?p x))"
    by (rule parse_fields) (use m r mf c assms(2) len in auto)
  show thesis using that [OF h] p m r mf c by (simp add: read_payload_of [OF assms(3-5)] loaded_artifact_def)
qed

section \<open>Every ranker with non-negative counts can be exported\<close>

definition export_row :: "transition_predictor \<Rightarrow> string \<Rightarrow> int \<Rightarrow> int counter" where
  "export_row p phase source = dict_get (dict_get (dict_get (tp_transitions p) phase []) 24 []) source []"

definition export_fallback :: "transition_predictor \<Rightarrow> int counter" where
  "export_fallback p = dict_get (fp_counts (tp_fallback p)) 24 []"

definition exportable :: "transition_predictor \<Rightarrow> bool" where
  "exportable p \<longleftrightarrow> tp_weighting p = ''source_normalized'' \<and> tp_phase_mode p = ''separate''
     \<and> (\<forall>phase source. row_ok (export_row p phase source) \<and> counter_total (export_row p phase source) \<le> 2 ^ 1000)
     \<and> (\<forall>x. 0 \<le> counter_get (export_fallback p) x \<and> counter_get (export_fallback p) x \<le> 2 ^ 1000)"

lemma counter_get_le_total:
  assumes "row_ok c"
  shows "0 \<le> counter_get c x \<and> counter_get c x \<le> counter_total c"
proof -
  have nn: "\<forall>v \<in> set (map snd c). 0 \<le> v" using assms by (auto simp: row_ok_def)
  have total: "0 \<le> counter_total c" unfolding counter_total_def using nn by (intro sum_list_nonneg) auto
  consider "counter_get c x = 0" | "(x, counter_get c x) \<in> set c"
    using dict_get_default_or_in [of c x 0] by (auto simp: counter_get_def)
  then show ?thesis
  proof cases
    case 2
    then have "counter_get c x \<in> set (map snd c)" by force
    then show ?thesis unfolding counter_total_def using nn elem_le_sum_list [of "map snd c"] by blast
  qed (simp add: total)
qed

lemma rmap_total:
  assumes "\<And>x. \<exists>y. f x = Inr y \<and> P y"
  shows "\<exists>ys. rmap f xs = Inr ys \<and> length ys = length xs \<and> (\<forall>y \<in> set ys. P y)"
proof -
  obtain ys where ys: "rmap f xs = Inr ys" using rmap_ex [of xs f] assms by (metis is_ok_Inr)
  moreover have "P y" if "y \<in> set ys" for y using rmap_elem [OF ys that] assms by (metis sum.inject(2))
  ultimately show ?thesis using rmap_length [OF ys] by blast
qed

definition score_value :: "pyfloat \<Rightarrow> bool" where
  "score_value x \<longleftrightarrow> representable x \<and> isfinite x \<and> \<not> py_less x (Fin 0)"

lemma good_row_iff: "good_row row \<longleftrightarrow> length row = 128 \<and> (\<forall>x \<in> set row. score_value x)"
  by (simp add: good_row_def score_value_def)

lemma fdiv_rate:
  assumes "0 \<le> n" and "n \<le> m" and "0 < m" and "m \<le> 2 ^ 1000"
  shows "\<exists>x. rbind (float_of_int n) (\<lambda>a. rbind (float_of_int m) (\<lambda>b. fdiv a b)) = Inr x
    \<and> score_value x"
proof -
  obtain a where a: "float_of_int n = Inr (Fin a)" "0 \<le> a" using float_of_int_finite [of n] assms by auto
  obtain b where b: "float_of_int m = Inr (Fin b)" "1 \<le> b" using float_of_int_pos [of m] assms by auto
  have "dbl (of_int n) \<le> dbl (of_int m)" using assms(2) by (intro dbl_mono) simp
  then have "a \<le> b" using a b by (auto simp: float_of_int_def split: pyfloat.splits)
  then obtain r where r: "dbl (a / b) = Fin r" "0 \<le> r"
    using dbl_unit_interval [of "a / b"] a(2) b(2) by (auto simp: divide_le_eq_1)
  then have "representable (Fin r)" using representable_dbl [of "a / b"] by simp
  then show ?thesis using a b r by (auto simp: score_value_def fdiv_def isfinite_def py_less_def)
qed

lemma score_row_good:
  assumes "row_ok (dict_get t source [])" and "counter_total (dict_get t source []) \<le> 2 ^ 1000"
  shows "\<exists>row. score_row t source = Inr row \<and> good_row row"
proof -
  let ?c = "dict_get t source []"
  let ?f = "\<lambda>x. if counter_total ?c = 0 then Inr (Fin 0) else
       rbind (float_of_int (counter_get ?c x)) (\<lambda>a. rbind (float_of_int (counter_total ?c)) (\<lambda>b. fdiv a b))"
  have "\<exists>y. ?f x = Inr y \<and> score_value y" for x
  proof (cases "counter_total ?c = 0")
    case True
    then show ?thesis by (simp add: score_value_def isfinite_def py_less_def)
  next
    case False
    then show ?thesis using fdiv_rate counter_get_le_total [OF assms(1), of x] assms(2) by simp
  qed
  from rmap_total [of ?f, OF this, of experts] show ?thesis by (simp add: score_row_def Let_def good_row_iff)
qed

lemma phase_table_good:
  assumes "exportable p"
  shows "\<exists>rows. phase_table p phase = Inr rows \<and> good_table rows"
proof -
  let ?t = "dict_get (dict_get (tp_transitions p) phase []) 24 []"
  have "\<exists>row. score_row ?t source = Inr row \<and> good_row row" for source
    using assms by (intro score_row_good) (auto simp: exportable_def export_row_def)
  from rmap_total [of "score_row ?t", OF this, of experts] show ?thesis by (simp add: phase_table_def good_table_def)
qed

lemma fallback_good:
  assumes "exportable p"
  shows "\<exists>fb. fallback_scores_of p = Inr fb \<and> good_row fb"
proof -
  let ?f = "\<lambda>x. float_of_int (counter_get (export_fallback p) x)"
  have "\<exists>y. ?f x = Inr y \<and> score_value y" for x
  proof -
    obtain r where r: "?f x = Inr (Fin r)" "0 \<le> r"
      using assms float_of_int_finite [of "counter_get (export_fallback p) x"] by (auto simp: exportable_def)
    then have "dbl (of_int (counter_get (export_fallback p) x)) = Fin r" by (auto simp: float_of_int_def split: pyfloat.splits)
    then have "representable (Fin r)" using representable_dbl by metis
    then show ?thesis using r by (auto simp: score_value_def isfinite_def py_less_def)
  qed
  from rmap_total [of ?f, OF this, of experts] show ?thesis by (simp add: fallback_scores_of_def export_fallback_def good_row_iff)
qed

lemma export_and_load:
  assumes "exportable p" and "hash_identity i" and "\<And>b. length (digest b) = 32"
  obtains r1 r2 fb data a where "phase_table p ''prefill'' = Inr r1" and "phase_table p ''decode'' = Inr r2" and "fallback_scores_of p = Inr fb"
    and "good_table r1" and "good_table r2"
    and "build_runtime_artifact digest p i = Inr data" and "parse_runtime_artifact digest data = Inr a"
    and "a = \<lparr>ra_format_version = 1, ra_source_layer = 23, ra_target_layer = 24, ra_expert_count = 128, ra_source_width = 8,
        ra_candidate_width = 12, ra_identity = i, ra_payload_sha256 = bytes_hex (digest (payload_of r1 r2 fb)),
        ra_payload = payload_of r1 r2 fb, ra_scores = [(''prefill'', r1), (''decode'', r2)],
        ra_support = [(''prefill'', map support_mask r1), (''decode'', map support_mask r2)], ra_fallback_scores = fb\<rparr>"
proof -
  obtain r1 where r1: "phase_table p ''prefill'' = Inr r1" "good_table r1" using phase_table_good [OF assms(1)] by blast
  obtain r2 where r2: "phase_table p ''decode'' = Inr r2" "good_table r2" using phase_table_good [OF assms(1)] by blast
  obtain fb where fb: "fallback_scores_of p = Inr fb" "good_row fb" using fallback_good [OF assms(1)] by blast
  have len: "length (payload_of r1 r2 fb) = PAYLOAD_BYTES" using r1(2) r2(2) fb(2) by (rule length_payload_of)
  have mode: "tp_weighting p = ''source_normalized''" "tp_phase_mode p = ''separate''" using assms(1) by (simp_all add: exportable_def)
  have table: "table_payload p = Inr (pack_doubles (concat (r1 @ r2)) @ concat (map (le_bytes 16 \<circ> support_mask) (r1 @ r2)),
      [(''prefill'', r1), (''decode'', r2)], [(''prefill'', map support_mask r1), (''decode'', map support_mask r2)])"
    unfolding table_payload_def RUNTIME_PHASES_def by (simp add: r1 r2)
  obtain fs where fs: "header_fields digest i (payload_of r1 r2 fb) = Inr fs"
    and parse: "parse_runtime_artifact digest (concat fs @ payload_of r1 r2 fb) = Inr
      \<lparr>ra_format_version = 1, ra_source_layer = 23, ra_target_layer = 24, ra_expert_count = 128, ra_source_width = 8, ra_candidate_width = 12,
        ra_identity = i, ra_payload_sha256 = bytes_hex (digest (payload_of r1 r2 fb)), ra_payload = payload_of r1 r2 fb,
        ra_scores = [(''prefill'', r1), (''decode'', r2)],
        ra_support = [(''prefill'', map support_mask r1), (''decode'', map support_mask r2)], ra_fallback_scores = fb\<rparr>"
    by (rule build_parse [OF assms(2,3) r1(2) r2(2) fb(2)])
  have build: "build_runtime_artifact digest p i = Inr (concat fs @ payload_of r1 r2 fb)"
    unfolding build_runtime_artifact_def table fb(1) rbind_Inr case_prod_conv Let_def
    by (fold payload_of_def) (simp add: mode len fs)
  show thesis by (rule that [OF r1(1) r2(1) fb(1) r1(2) r2(2) build parse refl])
qed

section \<open>What the reader accepts\<close>

definition read_table :: "pyfloat list list \<Rightarrow> bool" where
  "read_table rows \<longleftrightarrow> length rows = 128 \<and> (\<forall>row \<in> set rows. length row = 128 \<and> \<not> invalid_scores row)"

lemma read_score_rows_ok:
  "read_score_rows n rest = Inr (rows, rest') \<Longrightarrow> length rows = n \<and> (\<forall>row \<in> set rows. length row = 128 \<and> \<not> invalid_scores row)"
proof (induction n arbitrary: rest rows)
  case (Suc n)
  then obtain rows1 where "\<not> invalid_scores (unpack_doubles 128 rest)" "read_score_rows n (drop 1024 rest) = Inr (rows1, rest')"
      "rows = unpack_doubles 128 rest # rows1"
    by (auto simp: Let_def rbind_eq_Inr split: if_splits)
  with Suc.IH show ?case by auto
qed simp

definition read_scores :: "(string, pyfloat list list) dict \<Rightarrow> (string, nat list) dict \<Rightarrow> pyfloat list \<Rightarrow> bool" where
  "read_scores tables support fallback \<longleftrightarrow> (\<exists>r1 r2. tables = [(''prefill'', r1), (''decode'', r2)]
     \<and> support = [(''prefill'', map support_mask r1), (''decode'', map support_mask r2)]
     \<and> read_table r1 \<and> read_table r2 \<and> length fallback = 128 \<and> \<not> invalid_scores fallback)"

lemma read_payload_ok:
  assumes "read_payload payload = Inr (tables, support, fallback)"
  shows "read_scores tables support fallback"
proof -
  obtain t rest where t: "read_tables payload = Inr (t, rest)" using assms by (cases "read_tables payload") (auto simp: read_payload_def)
  obtain r1 s1 r2 where r1: "read_score_rows 128 payload = Inr (r1, s1)" and r2: "read_score_rows 128 s1 = Inr (r2, rest)"
    and rows: "t = [(''prefill'', r1), (''decode'', r2)]"
    using t by (auto simp: read_tables_def RUNTIME_PHASES_def rbind_eq_Inr dict_set_new)
  obtain m1 u1 where m1: "read_masks 128 rest = (m1, u1)" by (cases "read_masks 128 rest")
  obtain m2 u2 where m2: "read_masks 128 u1 = (m2, u2)" by (cases "read_masks 128 u1")
  have s: "read_support rest = ([(''prefill'', m1), (''decode'', m2)], u2)"
    by (simp add: read_support_def RUNTIME_PHASES_def m1 m2 dict_set_new)
  have "\<not> invalid_scores (unpack_doubles 128 u2)" "fallback = unpack_doubles 128 u2" "support = [(''prefill'', m1), (''decode'', m2)]"
      "map support_mask r1 = m1" "map support_mask r2 = m2" "tables = t"
    using assms by (auto simp: read_payload_def t s Let_def rows RUNTIME_PHASES_def dict_get_def split: if_splits)
  then show ?thesis using read_score_rows_ok [OF r1] read_score_rows_ok [OF r2] by (simp add: read_scores_def rows read_table_def)
qed

lemma padded_name_unique:
  assumes "decode_identifier b = Inr name" and "length b = 24"
  shows "b = padded_name name"
  using decode_identifier_padded [OF assms(1)] assms(2) by (simp add: padded_name_def)

lemma names_match:
  assumes "rany (\<lambda>(b, name). rbind (decode_identifier b) (\<lambda>s. Inr (s \<noteq> name))) (zip bs names) = Inr False" and "length bs = length names"
  shows "list_all2 (\<lambda>b name. decode_identifier b = Inr name) bs names"
  using assms unfolding rany_False list_all2_iff by (auto simp: rbind_eq_Inr)

lemma list19: "length f = 19 \<Longrightarrow> f = [f ! 0, f ! 1, f ! 2, f ! 3, f ! 4, f ! 5, f ! 6, f ! 7, f ! 8, f ! 9, f ! 10, f ! 11, f ! 12, f ! 13,
    f ! 14, f ! 15, f ! 16, f ! 17, f ! 18]"
  using map_nth [of f] by (simp add: upt_rec numeral_eq_Suc)

lemma le_bytes_eq: "length b = k \<Longrightarrow> le_value b = n \<Longrightarrow> b = le_bytes k n"
  using le_bytes_value [of b] by simp

lemma parse_inv:
  assumes "parse_runtime_artifact digest data = Inr a"
  obtains m r mf c where "length m = 32" and "length r = 32" and "length mf = 32" and "length c = 32"
    and "data = concat (artifact_fields m r mf c (length (ra_payload a)) (digest (ra_payload a))) @ ra_payload a"
    and "ra_identity a = \<lparr>ri_model_sha256 = bytes_hex m, ri_runtime_sha256 = bytes_hex r, ri_manifest_sha256 = bytes_hex mf,
        ri_configuration_sha256 = bytes_hex c\<rparr>"
    and "length (digest (ra_payload a)) = 32" and "length (ra_payload a) = PAYLOAD_BYTES"
    and "read_payload (ra_payload a) = Inr (ra_scores a, ra_support a, ra_fallback_scores a)"
proof -
  let ?f = "split_fields HEADER_WIDTHS data" and ?payload = "drop HEADER_SIZE data"
  note inv = assms [unfolded parse_runtime_artifact_def Let_def if_Inl_eq_Inr rbind_eq_Inr]
  have long: "sum_list HEADER_WIDTHS \<le> length data" using inv by (simp add: HEADER_WIDTHS_def)
  then have lens: "map length ?f = HEADER_WIDTHS" by (rule split_fields_lengths)
  have len: "length (?f ! i) = HEADER_WIDTHS ! i" if "i < 19" for i
  proof -
    have "length (?f ! i) = map length ?f ! i" by (rule nth_map [symmetric]) (use that in \<open>simp add: HEADER_WIDTHS_def\<close>)
    then show ?thesis unfolding lens .
  qed
  have widths: "length (?f ! 0) = 8" "length (?f ! 1) = 4" "length (?f ! 2) = 4" "length (?f ! 3) = 32" "length (?f ! 4) = 32"
      "length (?f ! 5) = 2" "length (?f ! 6) = 2" "length (?f ! 7) = 2" "length (?f ! 8) = 2" "length (?f ! 9) = 2" "length (?f ! 10) = 2"
      "length (?f ! 11) = 24" "length (?f ! 12) = 24" "length (?f ! 13) = 24" "length (?f ! 14) = 24" "length (?f ! 15) = 32"
      "length (?f ! 16) = 32" "length (?f ! 17) = 8" "length (?f ! 18) = 32"
    by (subst len, simp, simp add: HEADER_WIDTHS_def)+
  have inv2: "\<exists>x. rany (\<lambda>(b, name). rbind (decode_identifier b) (\<lambda>s. Inr (s \<noteq> name))) (zip [?f ! 11, ?f ! 12, ?f ! 13, ?f ! 14] IDENTIFIERS) = Inr False
    \<and> ?f ! 0 = ascii_bytes ''EFB2RT01'' \<and> le_value (?f ! 1) = 1 \<and> le_value (?f ! 2) = HEADER_SIZE \<and> le_value (?f ! 10) = 0
    \<and> map (\<lambda>i. le_value (?f ! i)) [5, 6, 7, 8, 9] = [23, 24, 128, 8, 12]
    \<and> le_value (?f ! 17) = PAYLOAD_BYTES \<and> length data = HEADER_SIZE + le_value (?f ! 17)
    \<and> digest ?payload = ?f ! 18 \<and> read_payload ?payload = Inr x
    \<and> (case x of (tables, support, fallback) \<Rightarrow>
        Inr \<lparr>ra_format_version = int (le_value (?f ! 1)), ra_source_layer = int (le_value (?f ! 5)), ra_target_layer = int (le_value (?f ! 6)),
          ra_expert_count = int (le_value (?f ! 7)), ra_source_width = int (le_value (?f ! 8)), ra_candidate_width = int (le_value (?f ! 9)),
          ra_identity = \<lparr>ri_model_sha256 = bytes_hex (?f ! 3), ri_runtime_sha256 = bytes_hex (?f ! 4),
            ri_manifest_sha256 = bytes_hex (?f ! 15), ri_configuration_sha256 = bytes_hex (?f ! 16)\<rparr>,
          ra_payload_sha256 = bytes_hex (?f ! 18), ra_payload = ?payload, ra_scores = tables, ra_support = support,
          ra_fallback_scores = fallback\<rparr>) = Inr a"
    using inv by (simp only: de_Morgan_disj not_not) (elim exE conjE, intro exI conjI, (assumption | simp only:)+, simp split: prod.splits)
  then obtain tables support fallback where
      names: "rany (\<lambda>(b, name). rbind (decode_identifier b) (\<lambda>s. Inr (s \<noteq> name))) (zip [?f ! 11, ?f ! 12, ?f ! 13, ?f ! 14] IDENTIFIERS) = Inr False"
    and magic: "?f ! 0 = ascii_bytes ''EFB2RT01''" and nums: "le_value (?f ! 1) = 1" "le_value (?f ! 2) = HEADER_SIZE" "le_value (?f ! 10) = 0"
    and dims: "map (\<lambda>i. le_value (?f ! i)) [5, 6, 7, 8, 9] = [23, 24, 128, 8, 12]"
    and count: "le_value (?f ! 17) = PAYLOAD_BYTES" "length data = HEADER_SIZE + le_value (?f ! 17)"
    and check: "digest ?payload = ?f ! 18" and body: "read_payload ?payload = Inr (tables, support, fallback)"
    and a: "ra_payload a = ?payload" "ra_scores a = tables" "ra_support a = support" "ra_fallback_scores a = fallback"
      "ra_identity a = \<lparr>ri_model_sha256 = bytes_hex (?f ! 3), ri_runtime_sha256 = bytes_hex (?f ! 4),
            ri_manifest_sha256 = bytes_hex (?f ! 15), ri_configuration_sha256 = bytes_hex (?f ! 16)\<rparr>"
    by (elim exE conjE) (auto split: prod.splits)
  have len: "length ?payload = PAYLOAD_BYTES" using count by simp
  have ids: "?f ! 11 = padded_name ''source_normalized''" "?f ! 12 = padded_name ''phase_separated''"
      "?f ! 13 = padded_name ''observed_support''" "?f ! 14 = padded_name ''ascending_expert_id''"
    using names_match [OF names] widths by (simp_all add: IDENTIFIERS_def padded_name_unique)
  have fields: "?f ! 1 = le_bytes 4 1" "?f ! 2 = le_bytes 4 HEADER_SIZE" "?f ! 5 = le_bytes 2 23" "?f ! 6 = le_bytes 2 24"
      "?f ! 7 = le_bytes 2 128" "?f ! 8 = le_bytes 2 8" "?f ! 9 = le_bytes 2 12" "?f ! 10 = le_bytes 2 0" "?f ! 17 = le_bytes 8 (length ?payload)"
    by (rule le_bytes_eq; (rule widths | use nums dims count len in simp))+
  have "?f = [?f ! 0, ?f ! 1, ?f ! 2, ?f ! 3, ?f ! 4, ?f ! 5, ?f ! 6, ?f ! 7, ?f ! 8, ?f ! 9, ?f ! 10, ?f ! 11, ?f ! 12, ?f ! 13,
      ?f ! 14, ?f ! 15, ?f ! 16, ?f ! 17, ?f ! 18]" by (rule list19) (simp add: HEADER_WIDTHS_def)
  then have "?f = artifact_fields (?f ! 3) (?f ! 4) (?f ! 15) (?f ! 16) (length ?payload) (digest ?payload)"
    unfolding artifact_fields_def magic fields ids check .
  moreover have "data = concat ?f @ ?payload" unfolding concat_split_fields HEADER_SIZE_def by simp
  ultimately have data: "data = concat (artifact_fields (?f ! 3) (?f ! 4) (?f ! 15) (?f ! 16) (length ?payload) (digest ?payload)) @ ?payload"
    by metis
  show thesis
    by (rule that [of "?f ! 3" "?f ! 4" "?f ! 15" "?f ! 16"]) (use data widths check body len a in \<open>simp_all only:\<close>)
qed

section \<open>Export and load\<close>

text \<open>
  C10. Exporting a fitted ranker and loading the file gives the ranker back: for every ranker with
  normalised scoring, separate phases and non-negative counts, and every identity made of SHA-256 digests, the
  export succeeds, the reader accepts what was written, and the loaded artifact has the identity, the score
  tables of both phases, the fallback scores, and exactly the support bits of the positive scores.
\<close>

theorem runtime_artifact_roundtrip:
  assumes "exportable p" and "hash_identity i" and "\<forall>b. length (digest b) = 32"
  shows "\<exists>data a. build_runtime_artifact digest p i = Inr data \<and> parse_runtime_artifact digest data = Inr a
    \<and> ra_identity a = i \<and> fallback_scores_of p = Inr (ra_fallback_scores a)
    \<and> (\<forall>phase \<in> set RUNTIME_PHASES. phase_table p phase = Inr (dict_get (ra_scores a) phase []))
    \<and> (\<exists>payload. table_payload p = Inr (payload, ra_scores a, ra_support a))"
proof -
  have digest: "length (digest b) = 32" for b using assms(3) by simp
  show ?thesis
  proof (rule export_and_load [OF assms(1,2) digest])
    fix r1 r2 fb data a
    assume r: "phase_table p ''prefill'' = Inr r1" "phase_table p ''decode'' = Inr r2" "fallback_scores_of p = Inr fb"
      and written: "build_runtime_artifact digest p i = Inr data" "parse_runtime_artifact digest data = Inr a"
      and a: "a = \<lparr>ra_format_version = 1, ra_source_layer = 23, ra_target_layer = 24, ra_expert_count = 128, ra_source_width = 8,
        ra_candidate_width = 12, ra_identity = i, ra_payload_sha256 = bytes_hex (digest (payload_of r1 r2 fb)),
        ra_payload = payload_of r1 r2 fb, ra_scores = [(''prefill'', r1), (''decode'', r2)],
        ra_support = [(''prefill'', map support_mask r1), (''decode'', map support_mask r2)], ra_fallback_scores = fb\<rparr>"
    have "table_payload p = Inr (pack_doubles (concat (r1 @ r2)) @ concat (map (le_bytes 16 \<circ> support_mask) (r1 @ r2)), ra_scores a, ra_support a)"
      unfolding table_payload_def RUNTIME_PHASES_def by (simp add: r a)
    moreover have "\<forall>phase \<in> set RUNTIME_PHASES. phase_table p phase = Inr (dict_get (ra_scores a) phase [])"
      by (simp add: RUNTIME_PHASES_def r a dict_get_def)
    moreover have "ra_identity a = i" "fallback_scores_of p = Inr (ra_fallback_scores a)" using r by (simp_all add: a)
    ultimately show ?thesis using written by blast
  qed
qed

definition support_exact :: "runtime_artifact \<Rightarrow> bool" where
  "support_exact a \<longleftrightarrow> (\<forall>phase \<in> set RUNTIME_PHASES. \<forall>source < 128. \<forall>target.
     bit (dict_get (ra_support a) phase [] ! source) target
       = (target < 128 \<and> py_less (Fin 0) (dict_get (ra_scores a) phase [] ! source ! target)))"

lemma read_scores_support:
  assumes "read_scores (ra_scores a) (ra_support a) (ra_fallback_scores a)"
  shows "support_exact a"
proof -
  obtain r1 r2 where t: "ra_scores a = [(''prefill'', r1), (''decode'', r2)]"
      "ra_support a = [(''prefill'', map support_mask r1), (''decode'', map support_mask r2)]" "read_table r1" "read_table r2"
    using assms by (auto simp: read_scores_def)
  have bits: "bit (map support_mask r ! source) target = (target < 128 \<and> py_less (Fin 0) (r ! source ! target))"
    if "read_table r" "source < 128" for r source target
    using that nth_mem [of source r] by (simp add: support_mask_bit read_table_def)
  show ?thesis using bits [OF t(3)] bits [OF t(4)]
    by (auto simp: support_exact_def RUNTIME_PHASES_def t(1,2) dict_get_def)
qed

text \<open>
  The payload of a file in terms of what was read from it: the scores of the prefill rows and then of
  the decode rows, one support mask per row, and the fallback scores. Each score has the eight bytes
  the exporter packs; only a zero may have the bytes of a negative zero instead.
\<close>

definition written_payload :: "pyfloat list list \<Rightarrow> pyfloat list \<Rightarrow> bytes \<Rightarrow> bool" where
  "written_payload rows fallback payload \<longleftrightarrow> (\<exists>score_chunks fallback_chunks. list_all2 score_bytes (concat rows) score_chunks
     \<and> list_all2 score_bytes fallback fallback_chunks
     \<and> payload = concat score_chunks @ concat (map (le_bytes 16 \<circ> support_mask) rows) @ concat fallback_chunks)"

lemma written_payload_of: "written_payload (r1 @ r2) fb (payload_of r1 r2 fb)"
proof -
  have "list_all2 score_bytes xs (map encode64 xs)" for xs by (simp add: list_all2_conv_all_nth score_bytes_def)
  then show ?thesis unfolding written_payload_def payload_of_def pack_doubles_def append_assoc by blast
qed

lemma valid_row: "\<not> invalid_scores row \<longleftrightarrow> (\<forall>x \<in> set row. isfinite x \<and> \<not> py_less x (Fin 0))"
  by (simp add: invalid_scores_def)

lemma read_score_rows_bytes:
  assumes "read_score_rows n rest = Inr (rows, rest')" and "1024 * n \<le> length rest"
  shows "\<exists>cs. list_all2 score_bytes (concat rows) cs \<and> rest = concat cs @ rest' \<and> length rest' = length rest - 1024 * n"
  using assms
proof (induction n arbitrary: rest rows)
  case (Suc n)
  then obtain rows1 where row: "\<not> invalid_scores (unpack_doubles 128 rest)"
      and tail: "read_score_rows n (drop 1024 rest) = Inr (rows1, rest')" and rows: "rows = unpack_doubles 128 rest # rows1"
    by (auto simp: Let_def rbind_eq_Inr split: if_splits)
  have "1024 * n \<le> length (drop 1024 rest)" using Suc.prems(2) by simp
  from Suc.IH [OF tail this] obtain cs where cs: "list_all2 score_bytes (concat rows1) cs" "drop 1024 rest = concat cs @ rest'"
    "length rest' = length (drop 1024 rest) - 1024 * n" by blast
  have "8 * 128 \<le> length rest" using Suc.prems(2) by simp
  from unpack_doubles_chunks [OF this row [unfolded valid_row]] obtain ds where
    ds: "list_all2 score_bytes (unpack_doubles 128 rest) ds" "take 1024 rest = concat ds" by auto
  have "rest = take 1024 rest @ drop 1024 rest" by simp
  also have "\<dots> = concat (ds @ cs) @ rest'" unfolding ds(2) cs(2) by simp
  finally show ?case using ds(1) cs(1,3) Suc.prems(2)
    by (intro exI [of _ "ds @ cs"]) (simp add: rows list_all2_appendI)
qed simp

lemma read_masks_written:
  assumes "read_masks n rest = (ms, rest')" and "16 * n \<le> length rest"
  shows "rest = concat (map (le_bytes 16) ms) @ rest' \<and> length rest' = length rest - 16 * n"
  using assms
proof (induction n arbitrary: rest ms)
  case (Suc n)
  then obtain ms1 where m: "read_masks n (drop 16 rest) = (ms1, rest')" and ms: "ms = le_value (take 16 rest) # ms1"
    by (auto simp: Let_def split: prod.splits)
  have IH: "drop 16 rest = concat (map (le_bytes 16) ms1) @ rest' \<and> length rest' = length (drop 16 rest) - 16 * n"
    using Suc.prems(2) by (intro Suc.IH m) simp
  have "le_bytes 16 (le_value (take 16 rest)) = take 16 rest" using le_bytes_value [of "take 16 rest"] Suc.prems(2) by simp
  moreover have "rest = take 16 rest @ drop 16 rest" by simp
  ultimately have "rest = concat (map (le_bytes 16) ms) @ rest'" using IH unfolding ms by (metis append_assoc concat.simps(2) list.simps(9))
  moreover have "length rest' = length rest - 16 * Suc n" using IH [THEN conjunct2] by simp
  ultimately show ?case by (rule conjI)
qed simp

lemma read_payload_written:
  assumes "read_payload payload = Inr (tables, support, fallback)" and "length payload = PAYLOAD_BYTES"
  shows "written_payload (dict_get tables ''prefill'' [] @ dict_get tables ''decode'' []) fallback payload"
proof -
  obtain t rest where t: "read_tables payload = Inr (t, rest)" using assms by (cases "read_tables payload") (auto simp: read_payload_def)
  obtain r1 s1 r2 where r1: "read_score_rows 128 payload = Inr (r1, s1)" and r2: "read_score_rows 128 s1 = Inr (r2, rest)"
    and rows: "t = [(''prefill'', r1), (''decode'', r2)]"
    using t by (auto simp: read_tables_def RUNTIME_PHASES_def rbind_eq_Inr dict_set_new)
  obtain m1 u1 where m1: "read_masks 128 rest = (m1, u1)" by (cases "read_masks 128 rest")
  obtain m2 u2 where m2: "read_masks 128 u1 = (m2, u2)" by (cases "read_masks 128 u1")
  have s: "read_support rest = ([(''prefill'', m1), (''decode'', m2)], u2)"
    by (simp add: read_support_def RUNTIME_PHASES_def m1 m2 dict_set_new)
  have fb: "\<not> invalid_scores (unpack_doubles 128 u2)" "fallback = unpack_doubles 128 u2" "drop 1024 u2 = []"
      and masks: "m1 = map support_mask r1" "m2 = map support_mask r2" and tables: "tables = t"
    using assms(1) by (auto simp: read_payload_def t s Let_def rows RUNTIME_PHASES_def dict_get_def split: if_splits)
  have len: "length payload = 267264" using assms(2) by (simp add: PAYLOAD_BYTES_def)
  obtain c1 where c1: "list_all2 score_bytes (concat r1) c1" "payload = concat c1 @ s1" "length s1 = 136192"
    using read_score_rows_bytes [OF r1] len by auto
  obtain c2 where c2: "list_all2 score_bytes (concat r2) c2" "s1 = concat c2 @ rest" "length rest = 5120"
    using read_score_rows_bytes [OF r2] c1(3) by auto
  have k1: "rest = concat (map (le_bytes 16) m1) @ u1" "length u1 = 3072" using read_masks_written [OF m1] c2(3) by auto
  have k2: "u1 = concat (map (le_bytes 16) m2) @ u2" "length u2 = 1024" using read_masks_written [OF m2] k1(2) by auto
  obtain d where d: "list_all2 score_bytes fallback d" "u2 = concat d"
    using unpack_doubles_chunks [of 128 u2] fb k2(2) by (auto simp: valid_row)
  have "payload = concat (c1 @ c2) @ concat (map (le_bytes 16 \<circ> support_mask) (r1 @ r2)) @ concat d"
    unfolding c1(2) c2(2) k1(1) k2(1) d(2) masks by (simp add: o_def)
  moreover have "list_all2 score_bytes (concat (r1 @ r2)) (c1 @ c2)" using c1(1) c2(1) by (simp add: list_all2_appendI)
  moreover have "dict_get tables ''prefill'' [] = r1" "dict_get tables ''decode'' [] = r2" by (simp_all add: tables rows dict_get_def)
  ultimately show ?thesis using d(1) unfolding written_payload_def by metis
qed

text \<open>
  C11. A file the reader accepts is a file the exporter writes for what was read, up to the sign of
  zero scores: its header is exactly the header the exporter packs for the loaded identity and
  payload, and its payload has the bytes the exporter packs for the loaded tables, the prefill rows
  before the decode rows, each row of 128 scores, then the support masks of these rows and the
  fallback scores; nothing follows. The identity consists of SHA-256 digests, and a target is in the
  support mask of a source exactly when its score is positive.
\<close>

theorem parsed_artifact_canonical:
  assumes "parse_runtime_artifact digest data = Inr a"
  shows "(\<exists>fs. header_fields digest (ra_identity a) (ra_payload a) = Inr fs \<and> data = concat fs @ ra_payload a)
    \<and> written_payload (dict_get (ra_scores a) ''prefill'' [] @ dict_get (ra_scores a) ''decode'' [])
        (ra_fallback_scores a) (ra_payload a)
    \<and> (\<forall>phase \<in> set RUNTIME_PHASES. read_table (dict_get (ra_scores a) phase []))
    \<and> length (ra_fallback_scores a) = 128
    \<and> hash_identity (ra_identity a) \<and> support_exact a"
proof -
  obtain m r mf c where l: "length m = 32" "length r = 32" "length mf = 32" "length c = 32"
    and data: "data = concat (artifact_fields m r mf c (length (ra_payload a)) (digest (ra_payload a))) @ ra_payload a"
    and i: "ra_identity a = \<lparr>ri_model_sha256 = bytes_hex m, ri_runtime_sha256 = bytes_hex r, ri_manifest_sha256 = bytes_hex mf,
        ri_configuration_sha256 = bytes_hex c\<rparr>"
    and d: "length (digest (ra_payload a)) = 32" and len: "length (ra_payload a) = PAYLOAD_BYTES"
    and body: "read_payload (ra_payload a) = Inr (ra_scores a, ra_support a, ra_fallback_scores a)"
    using assms by (rule parse_inv)
  have "header_fields digest (ra_identity a) (ra_payload a)
      = Inr (artifact_fields m r mf c (length (ra_payload a)) (digest (ra_payload a)))"
    by (rule header_fields_bytes) (simp_all add: i l d hex_digest_bytes_hex)
  moreover have "hash_identity (ra_identity a)" using l by (simp add: hash_identity_def i is_hash_bytes_hex)
  moreover have scores: "read_scores (ra_scores a) (ra_support a) (ra_fallback_scores a)" using body by (rule read_payload_ok)
  moreover have "support_exact a" using scores by (rule read_scores_support)
  moreover have "\<forall>phase \<in> set RUNTIME_PHASES. read_table (dict_get (ra_scores a) phase [])" "length (ra_fallback_scores a) = 128"
    using scores by (auto simp: read_scores_def RUNTIME_PHASES_def dict_get_def)
  ultimately show ?thesis using data read_payload_written [OF body len] by blast
qed

text \<open>A digest text with white space between its digits is not refused, and the missing bytes become zeros.\<close>

lemma spaced_digest_accepted: "hex_digest (replicate 64 CHR '' '') = Inr [] \<and> pack_string 32 [] = replicate 32 0"
proof -
  have spaces: "fromhex (replicate n CHR '' '') = Inr []" for n
  proof (induction n)
    case (Suc n)
    then show ?case by (cases n) (simp_all add: ascii_space_def)
  qed simp
  show ?thesis by (simp add: hex_digest_def spaces pack_string_def)
qed

section \<open>An exported example\<close>

definition example_runtime_identity :: runtime_identity where
  "example_runtime_identity = \<lparr>ri_model_sha256 = replicate 64 CHR ''0'', ri_runtime_sha256 = replicate 64 CHR ''1'',
     ri_manifest_sha256 = replicate 64 CHR ''2'', ri_configuration_sha256 = replicate 64 CHR ''f''\<rparr>"

definition example_ranker :: transition_predictor where
  "example_ranker = \<lparr>tp_transitions = [(''decode'', [(24, [(1, [(5, 1), (6, 1)])])])],
     tp_fallback = \<lparr>fp_counts = [(24, [(5, 1), (6, 1)])]\<rparr>, tp_weighting = ''source_normalized'', tp_phase_mode = ''separate''\<rparr>"

lemma example_ranker_fit: "transition_fit [example_sample 23 [1] [5, 6]] ''source_normalized'' ''separate'' = Inr example_ranker"
  by (simp add: transition_fit_def frequency_fit_def count_transition_def phase_key_def Let_def dict_get_def example_ranker_def
      counter_update_def counter_inc_def counter_get_def)

lemma example_exportable: "exportable example_ranker"
proof -
  have row: "export_row example_ranker phase source = (if phase = ''decode'' \<and> source = 1 then [(5, 1), (6, 1)] else [])" for phase source
    by (simp add: export_row_def example_ranker_def dict_get_def)
  have fb: "export_fallback example_ranker = [(5, 1), (6, 1)]" by (simp add: export_fallback_def example_ranker_def dict_get_def)
  have "(2 :: int) \<le> 2 ^ 1000" using self_le_power [of "2 :: int" 1000] by simp
  then show ?thesis unfolding exportable_def row fb
    by (auto simp: example_ranker_def row_ok_def counter_total_def counter_get_def dict_get_def)
qed

lemma example_hash_identity: "hash_identity example_runtime_identity"
  by (simp add: hash_identity_def example_runtime_identity_def is_hash_def list_all_iff hex_char_def)

lemma runtime_artifact_roundtrip_witness:
  "\<exists>data a. build_runtime_artifact (\<lambda>b. replicate 32 7) example_ranker example_runtime_identity = Inr data
    \<and> parse_runtime_artifact (\<lambda>b. replicate 32 7) data = Inr a \<and> ra_identity a = example_runtime_identity"
  using runtime_artifact_roundtrip [OF example_exportable example_hash_identity, of "\<lambda>b. replicate 32 7"] by auto

lemma example_loads: "\<exists>data a. parse_runtime_artifact (\<lambda>b. replicate 32 7) data = Inr a \<and> ra_identity a = example_runtime_identity"
  by (rule export_and_load [OF example_exportable example_hash_identity, of "\<lambda>b. replicate 32 7"])
    (simp, intro exI conjI, assumption, simp)

lemma parsed_artifact_canonical_witness:
  "\<exists>data a fs. parse_runtime_artifact (\<lambda>b. replicate 32 7) data = Inr a \<and> ra_identity a = example_runtime_identity
    \<and> header_fields (\<lambda>b. replicate 32 7) example_runtime_identity (ra_payload a) = Inr fs \<and> data = concat fs @ ra_payload a
    \<and> written_payload (dict_get (ra_scores a) ''prefill'' [] @ dict_get (ra_scores a) ''decode'' [])
        (ra_fallback_scores a) (ra_payload a)"
proof -
  obtain data a where "parse_runtime_artifact (\<lambda>b. replicate 32 7) data = Inr a" "ra_identity a = example_runtime_identity"
    using example_loads by blast
  with parsed_artifact_canonical [of "\<lambda>b. replicate 32 7" data a] show ?thesis by metis
qed

section \<open>Prediction from the file agrees with the ranker\<close>

text \<open>Counts a float holds exactly.\<close>

definition exact_counts :: "transition_predictor \<Rightarrow> bool" where
  "exact_counts p \<longleftrightarrow> (\<forall>phase source. counter_total (export_row p phase source) < 2 ^ 53)
     \<and> (\<forall>x. counter_get (export_fallback p) x < 2 ^ 53)"

lemma transition_fit_distinct:
  assumes "transition_fit samples weighting phase_mode = Inr p"
  shows "distinct (map fst (dict_get (dict_get (dict_get (tp_transitions p) phase []) layer []) source []))"
proof -
  let ?ok = "\<lambda>t :: transition_table. \<forall>ph l s. distinct (map fst (dict_get (dict_get (dict_get t ph []) l []) s []))"
  have step: "?ok (count_transition ph l targets t source)" if "?ok t" for ph l targets t source
    using that by (auto simp: count_transition_def Let_def dict_get_set distinct_counter_update)
  have inner: "?ok (foldl (count_transition ph l targets) t sources)" if "?ok t" for ph l targets t sources
    using that by (induction sources arbitrary: t) (auto simp: step)
  have "?ok (foldl (\<lambda>t s. foldl
            (count_transition (phase_key phase_mode s) (smp_target_layer s) (smp_target_expert_ids s))
            t (smp_source_expert_ids s)) t samples)" if "?ok t" for t
    using that by (induction samples arbitrary: t) (auto simp: inner)
  from this [of "[]"] assms show ?thesis by (auto simp: transition_fit_def split: if_splits)
qed

lemma fit_exportable:
  assumes "transition_fit samples ''source_normalized'' ''separate'' = Inr p" and "exact_counts p"
  shows "exportable p"
proof -
  have small: "n \<le> 2 ^ 1000" if "n < 2 ^ 53" for n :: int
  proof -
    have "(2 :: int) ^ 53 \<le> 2 ^ 1000" by (rule power_increasing) simp_all
    with that show ?thesis by linarith
  qed
  have p: "tp_weighting p = ''source_normalized''" "tp_phase_mode p = ''separate''" "tp_fallback p = frequency_fit samples"
    using assms(1) by (auto simp: transition_fit_def)
  have "row_ok (export_row p phase source)" for phase source
    using transition_fit_ok [OF assms(1)] by (simp add: transition_ok_def export_row_def)
  moreover have "0 \<le> counter_get (export_fallback p) x" for x
    using frequency_fit_counts [of samples 24 x] by (simp add: export_fallback_def p)
  moreover have "counter_total (export_row p phase source) \<le> 2 ^ 1000" "counter_get (export_fallback p) x \<le> 2 ^ 1000" for phase source x
    using assms(2) unfolding exact_counts_def by (blast intro: small)+
  ultimately show ?thesis unfolding exportable_def p(1,2) by blast
qed

text \<open>The share of a target in a row of counts.\<close>

definition share :: "int counter \<Rightarrow> int \<Rightarrow> pyfloat" where
  "share row x = (if counter_total row = 0 then Fin 0 else dbl (of_int (counter_get row x) / of_int (counter_total row)))"

text \<open>A float between zero and \<open>k\<close>.\<close>

definition within_count :: "nat \<Rightarrow> pyfloat \<Rightarrow> bool" where
  "within_count k x \<longleftrightarrow> representable x \<and> Fin 0 \<le> x \<and> x \<le> Fin (of_nat k)"

lemma within_count_0: "within_count 0 (Fin 0)"
  by (simp add: within_count_def)

lemma within_count_fin: "within_count k x \<Longrightarrow> \<exists>v. x = Fin v \<and> 0 \<le> v \<and> v \<le> of_nat k"
  by (cases x) (auto simp: within_count_def less_eq_pyfloat_def)

lemma fadd_zero: "within_count k x \<Longrightarrow> fadd x (Fin 0) = x"
  using within_count_fin [of k x] by (auto simp: within_count_def representable_def)

lemma within_count_fadd:
  assumes "within_count k x" and "within_count 1 y" and "k < 1000"
  shows "within_count (Suc k) (fadd x y)"
proof -
  obtain v w where vw: "x = Fin v" "0 \<le> v" "v \<le> of_nat k" "y = Fin w" "0 \<le> w" "w \<le> 1"
    using within_count_fin [OF assms(1)] within_count_fin [OF assms(2)] by auto
  have "dbl (of_int (int (Suc k))) = Fin (of_int (int (Suc k)))" by (rule dbl_int) (use assms(3) in simp)
  then have "dbl (of_nat (Suc k)) = Fin (of_nat (Suc k))" by simp
  moreover have "dbl (v + w) \<le> dbl (of_nat (Suc k))" using vw by (intro dbl_mono) simp
  moreover have "dbl 0 \<le> dbl (v + w)" using vw by (intro dbl_mono) simp
  ultimately show ?thesis by (simp add: within_count_def vw)
qed

lemma share_within:
  assumes "row_ok row"
  shows "within_count 1 (share row x)"
proof (cases "counter_total row = 0")
  case False
  have c: "0 \<le> counter_get row x" "counter_get row x \<le> counter_total row" using counter_get_le_total [OF assms] by auto
  then have "0 \<le> (of_int (counter_get row x) / of_int (counter_total row) :: rat)"
      "of_int (counter_get row x) / of_int (counter_total row) \<le> (1 :: rat)" using False by (simp_all add: divide_le_eq_1)
  then have "dbl 0 \<le> dbl (of_int (counter_get row x) / of_int (counter_total row))"
      "dbl (of_int (counter_get row x) / of_int (counter_total row)) \<le> dbl 1" by (simp_all only: dbl_mono)
  then show ?thesis using False by (simp add: within_count_def share_def)
qed (simp add: share_def within_count_def)

lemma score_row_share:
  assumes "row_ok (dict_get t source [])" and "counter_total (dict_get t source []) < 2 ^ 53"
  shows "score_row t source = Inr (map (share (dict_get t source [])) experts)"
proof -
  let ?c = "dict_get t source []"
  have exact: "float_of_int n = Inr (Fin (of_int n))" if "0 \<le> n" "n < 2 ^ 53" for n
    using dbl_int [of n] that by (simp add: float_of_int_def)
  have "(if counter_total ?c = 0 then Inr (Fin 0) else
       rbind (float_of_int (counter_get ?c x)) (\<lambda>a. rbind (float_of_int (counter_total ?c)) (\<lambda>b. fdiv a b))) = Inr (share ?c x)" for x
    using counter_get_le_total [OF assms(1), of x] assms(2) by (simp add: exact share_def fdiv_def)
  then show ?thesis unfolding score_row_def Let_def by (simp only: rmap_Inr_map)
qed

section \<open>The scores of the ranker\<close>

abbreviation score_of :: "(int, pyfloat) dict \<Rightarrow> int \<Rightarrow> pyfloat" where
  "score_of d x \<equiv> dict_get d x (Fin 0)"

lemma add_shares:
  assumes "distinct (map fst entries)" and "\<forall>(x, n) \<in> set entries. \<exists>r. int_truediv n m = Inr (g x) \<and> g x = Fin r"
  shows "\<exists>d'. rfold (add_share m) d entries = Inr d'
    \<and> (\<forall>x. score_of d' x = (if x \<in> fst ` set entries then fadd (score_of d x) (g x) else score_of d x))"
  using assms
proof (induction entries arbitrary: d)
  case (Cons e entries)
  obtain k n where e: "e = (k, n)" by (cases e)
  let ?d = "dict_set k (fadd (score_of d k) (g k)) d"
  have "add_share m d e = Inr ?d" using Cons.prems(2) by (auto simp: add_share_def e)
  moreover obtain d' where "rfold (add_share m) ?d entries = Inr d'"
      "\<forall>x. score_of d' x = (if x \<in> fst ` set entries then fadd (score_of ?d x) (g x) else score_of ?d x)"
    using Cons.IH [of ?d] Cons.prems by auto
  ultimately show ?case using Cons.prems(1) by (auto simp: e dict_get_set)
qed simp

lemma add_row_scores:
  assumes "row_ok row" and "distinct (map fst row)" and "\<And>x. \<exists>k. within_count k (score_of d x)"
  shows "\<exists>d'. add_normalized_row d row = Inr d' \<and> (\<forall>x. score_of d' x = fadd (score_of d x) (share row x))"
proof (cases "counter_total row = 0")
  case True
  moreover have "fadd (score_of d x) (Fin 0) = score_of d x" for x using assms(3) [of x] fadd_zero by blast
  ultimately show ?thesis by (simp add: add_normalized_row_def share_def)
next
  case False
  have entries: "\<forall>(x, n) \<in> set row. \<exists>r. int_truediv n (counter_total row) = Inr (share row x) \<and> share row x = Fin r"
  proof safe
    fix x n assume e: "(x, n) \<in> set row"
    then have get: "counter_get row x = n" using assms(2) by (simp add: counter_get_def dict_get_def)
    obtain r where "int_truediv n (counter_total row) = Inr (Fin r)" using row_share [OF assms(1) e False] by blast
    then show "\<exists>r. int_truediv n (counter_total row) = Inr (share row x) \<and> share row x = Fin r"
      using False by (auto simp: int_truediv_def share_def get split: pyfloat.splits)
  qed
  obtain d' where d': "rfold (add_share (counter_total row)) d row = Inr d'"
      "\<forall>x. score_of d' x = (if x \<in> fst ` set row then fadd (score_of d x) (share row x) else score_of d x)"
    using add_shares [OF assms(2) entries] by blast
  have "share row x = Fin 0" if "x \<notin> fst ` set row" for x
    using that False by (simp add: share_def counter_get_def dict_get_absent)
  then have "score_of d' x = fadd (score_of d x) (share row x)" for x using d'(2) assms(3) fadd_zero by (metis (no_types, lifting))
  then show ?thesis using d'(1) False by (simp add: add_normalized_row_def Let_def)
qed

lemma rows_scores:
  assumes "\<forall>row \<in> set rows. row_ok row \<and> distinct (map fst row)" and "\<And>x. within_count k (score_of d x)" and "k + length rows < 1000"
  shows "\<exists>d'. rfold add_normalized_row d rows = Inr d'
    \<and> (\<forall>x. score_of d' x = foldl fadd (score_of d x) (map (\<lambda>row. share row x) rows) \<and> within_count (k + length rows) (score_of d' x))"
  using assms
proof (induction rows arbitrary: d k)
  case (Cons row rows)
  obtain d1 where d1: "add_normalized_row d row = Inr d1" "\<And>x. score_of d1 x = fadd (score_of d x) (share row x)"
    using add_row_scores [of row d] Cons.prems by auto
  have "within_count (Suc k) (score_of d1 x)" for x
    unfolding d1(2) using Cons.prems share_within [of row x] by (intro within_count_fadd) auto
  from Cons.IH [OF _ this] obtain d' where "rfold add_normalized_row d1 rows = Inr d'"
      "\<forall>x. score_of d' x = foldl fadd (score_of d1 x) (map (\<lambda>row. share row x) rows) \<and> within_count (Suc k + length rows) (score_of d' x)"
    using Cons.prems by auto
  then show ?case by (intro exI [of _ d']) (simp add: d1, metis d1(2))
qed simp

section \<open>Ranking the supported experts\<close>

lemma sort_key_split:
  fixes f :: "'a \<Rightarrow> 'b :: linorder"
  assumes "distinct xs" and "inj f" and "\<And>x y. x \<in> set xs \<Longrightarrow> y \<in> set xs \<Longrightarrow> P x \<Longrightarrow> \<not> P y \<Longrightarrow> f x < f y"
  shows "sort_key f xs = sort_key f (filter P xs) @ sort_key f (filter (\<lambda>x. \<not> P x) xs)"
proof -
  let ?ys = "sort_key f (filter P xs) @ sort_key f (filter (\<lambda>x. \<not> P x) xs)"
  have inj: "inj_on f A" for A using assms(2) by (rule inj_on_subset) simp
  have "sorted (map f ?ys)" using assms(3) by (auto simp: sorted_append intro: less_imp_le)
  moreover have "distinct (map f ?ys)" "distinct (map f (sort_key f xs))" using assms(1) by (auto simp: distinct_map inj dest: injD [OF assms(2)])
  moreover have "set (map f ?ys) = set (map f (sort_key f xs))" by auto
  ultimately have "map f (sort_key f xs) = map f ?ys" by (intro sorted_distinct_set_unique) (auto simp: sorted_sort_key)
  then show ?thesis using assms(2) by (rule map_injective)
qed

lemma experts_nth [simp]: "0 \<le> x \<Longrightarrow> x < 128 \<Longrightarrow> map g experts ! nat x = g x"
  by (simp add: experts_def)

lemma experts_nth_self [simp]: "0 \<le> x \<Longrightarrow> x < 128 \<Longrightarrow> experts ! nat x = x"
  by (simp add: experts_def)

lemma insort_key_same: "f x = g x \<Longrightarrow> (\<And>y. y \<in> set ys \<Longrightarrow> f y = g y) \<Longrightarrow> insort_key f x ys = insort_key g x ys"
  by (induction ys) auto

lemma sort_key_same: "(\<And>x. x \<in> set xs \<Longrightarrow> f x = g x) \<Longrightarrow> sort_key f xs = sort_key g xs"
proof (induction xs)
  case (Cons x xs)
  then have "sort_key f xs = sort_key g xs" by simp
  moreover have "insort_key f x (sort_key g xs) = insort_key g x (sort_key g xs)" using Cons.prems by (intro insort_key_same) auto
  ultimately show ?case by simp
qed simp

lemma experts_upto: "[0..127] = experts"
proof (rule sorted_distinct_set_unique)
  show "sorted experts" by (simp add: experts_def sorted_map)
qed auto

text \<open>The ranking of an export: descending score, then expert; the supported experts come first.\<close>

lemma ranked_supported:
  assumes "\<And>x. \<exists>k. within_count k (score x)" and "w \<le> length (filter (\<lambda>x. py_less (Fin 0) (score x)) experts)"
  shows "take w (sort_key (\<lambda>x. (fneg (score x), x)) (filter (\<lambda>x. py_less (Fin 0) (score x)) experts))
    = take w (sort_key (\<lambda>x. (fneg (score x), x)) experts)"
proof -
  let ?f = "\<lambda>x :: int. (fneg (score x), x)" and ?P = "\<lambda>x. py_less (Fin 0) (score x)"
  have order: "?f x < ?f y" if "?P x" "\<not> ?P y" for x y
  proof -
    obtain v where v: "score x = Fin v" using assms(1) [of x] within_count_fin by blast
    obtain w where w: "score y = Fin w" "0 \<le> w" using assms(1) [of y] within_count_fin by blast
    show ?thesis using that by (auto simp: v w py_less_def less_prod_def less_eq_prod_def)
  qed
  have "sort_key ?f experts = sort_key ?f (filter ?P experts) @ sort_key ?f (filter (\<lambda>x. \<not> ?P x) experts)"
  proof (rule sort_key_split)
    show "?f x < ?f y" if "x \<in> set experts" "y \<in> set experts" "?P x" "\<not> ?P y" for x y using that(3,4) by (rule order)
  qed (simp_all add: inj_def)
  then show ?thesis using assms(2) by simp
qed

definition share_table :: "transition_predictor \<Rightarrow> string \<Rightarrow> pyfloat list list" where
  "share_table p phase = map (\<lambda>source. map (share (export_row p phase source)) experts) experts"

lemma phase_table_share:
  assumes "exportable p" and "exact_counts p"
  shows "phase_table p phase = Inr (share_table p phase)"
proof -
  let ?t = "dict_get (dict_get (tp_transitions p) phase []) 24 []"
  have "score_row ?t source = Inr (map (share (export_row p phase source)) experts)" for source
    using score_row_share [of ?t source] assms by (simp add: export_row_def exportable_def exact_counts_def)
  then show ?thesis unfolding phase_table_def share_table_def by (simp add: rmap_all_ok)
qed

definition runtime_score :: "transition_predictor \<Rightarrow> string \<Rightarrow> int list \<Rightarrow> int \<Rightarrow> pyfloat" where
  "runtime_score p phase sources x = foldl fadd (Fin 0) (map (\<lambda>source. share (export_row p phase source) x) sources)"

lemma score_at_share:
  assumes "0 \<le> source" "source < 128" "0 \<le> x" "x < 128"
  shows "score_at (share_table p phase) source x = Inr (share (export_row p phase source) x)"
  using assms by (simp add: score_at_def share_table_def py_index_def)

lemma predict_scores:
  assumes "phase \<in> set RUNTIME_PHASES" and "ra_scores a = [(''prefill'', share_table p ''prefill''), (''decode'', share_table p ''decode'')]"
    and "ra_expert_count a = 128" "ra_source_width a = 8" "ra_candidate_width a = 12"
    and "length sources = 8" "distinct sources" "set sources \<subseteq> {0..<128}"
  shows "predict_runtime_artifact (foldl fadd (Fin 0)) a phase sources =
    (let supported = filter (\<lambda>x. py_less (Fin 0) (runtime_score p phase sources x)) experts in
     if length supported < 12 then Inl (ValueError ''fewer than twelve candidates have observed support'')
     else let selected = take 12 (sort_key (\<lambda>x. (fneg (runtime_score p phase sources x), x)) supported) in
       Inr (selected, map (runtime_score p phase sources) selected))"
proof -
  let ?s = "runtime_score p phase sources"
  have table: "dict_index (ra_scores a) phase = Inr (share_table p phase)"
    using assms(1) by (auto simp: assms(2) dict_index_def RUNTIME_PHASES_def)
  have one: "rmap (\<lambda>source. score_at (share_table p phase) source x) sources = Inr (map (\<lambda>source. share (export_row p phase source) x) sources)"
    if "x \<in> set experts" for x
    using that assms(8) by (intro rmap_all_ok score_at_share) auto
  have "rmap (\<lambda>target. rbind (dict_index (ra_scores a) phase) (\<lambda>rows.
          rbind (rmap (\<lambda>source. score_at rows source target) sources) (\<lambda>xs. Inr (foldl fadd (Fin 0) xs)))) experts
      = Inr (map ?s experts)"
    unfolding table by (rule rmap_all_ok) (simp add: one runtime_score_def)
  moreover have "filter (\<lambda>x. py_less (Fin 0) (map ?s experts ! nat x)) experts = filter (\<lambda>x. py_less (Fin 0) (?s x)) experts"
    by (rule filter_cong) auto
  moreover have "sort_key (\<lambda>x. (fneg (map ?s experts ! nat x), x)) (filter P experts) = sort_key (\<lambda>x. (fneg (?s x), x)) (filter P experts)" for P
    by (rule sort_key_same) auto
  moreover have "map (\<lambda>x. map ?s experts ! nat x) (take 12 (sort_key f (filter P experts))) = map ?s (take 12 (sort_key f (filter P experts)))"
    for P and f :: "int \<Rightarrow> pyfloat \<times> int"
    by (rule map_cong) (auto dest!: in_set_takeD)
  ultimately show ?thesis
    unfolding predict_runtime_artifact_def using assms by (auto simp: distinct_card experts_upto Let_def)
qed

lemma ranker_scores:
  assumes "transition_fit samples ''source_normalized'' ''separate'' = Inr p"
    and "smp_target_layer s = 24" and "length (smp_source_expert_ids s) = 8"
  obtains scores where "normalized_scores p s = Inr scores"
    and "\<And>x. dict_get scores x (Fin 0) = runtime_score p (smp_phase s) (smp_source_expert_ids s) x"
    and "\<And>x. within_count 8 (runtime_score p (smp_phase s) (smp_source_expert_ids s) x)"
proof -
  let ?phase = "smp_phase s" and ?sources = "smp_source_expert_ids s"
  let ?rows = "map (export_row p ?phase) ?sources"
  have "tp_phase_mode p = ''separate''" using assms(1) by (auto simp: transition_fit_def)
  then have rows: "source_rows p s = ?rows" by (simp add: source_rows_def phase_key_def assms(2) export_row_def fun_eq_iff)
  have "row_ok (export_row p ?phase source) \<and> distinct (map fst (export_row p ?phase source))" for source
    using transition_fit_ok [OF assms(1)] transition_fit_distinct [OF assms(1)] by (simp add: transition_ok_def export_row_def)
  then have "\<exists>d'. rfold add_normalized_row [] ?rows = Inr d' \<and> (\<forall>x. score_of d' x = foldl fadd (score_of [] x) (map (\<lambda>row. share row x) ?rows)
      \<and> within_count (0 + length ?rows) (score_of d' x))"
    by (intro rows_scores) (auto simp: within_count_0 assms(3))
  then obtain scores where s: "rfold add_normalized_row [] ?rows = Inr scores"
    and all: "\<forall>x. score_of scores x = foldl fadd (score_of [] x) (map (\<lambda>row. share row x) ?rows)
      \<and> within_count (0 + length ?rows) (score_of scores x)" by (elim exE conjE)
  have sum: "score_of scores x = runtime_score p ?phase ?sources x" for x using all by (simp add: runtime_score_def o_def)
  moreover have "within_count 8 (score_of scores x)" for x
    using spec [OF all, of x, THEN conjunct2] by (simp only: length_map assms(3) add_0)
  ultimately show thesis using that [of scores] s by (simp add: normalized_scores_def rows)
qed

text \<open>
  C8. The exported file predicts what the ranker ranks: for a normalised, phase-separated ranker fitted on any
  samples, whose counts a float holds exactly, export and load succeed, and for every sample of the target layer
  with eight distinct experts the prediction from the loaded file is the first twelve experts of the ranker's
  ranking with the ranker's own scores, when floats are summed left to right; when fewer than
  twelve experts have support it is an error.
\<close>

theorem exported_ranker_agrees:
  assumes "transition_fit samples ''source_normalized'' ''separate'' = Inr p" and "exact_counts p"
    and "hash_identity i" and "\<forall>b. length (digest b) = 32"
    and "smp_phase s \<in> set RUNTIME_PHASES" and "smp_target_layer s = 24"
    and "length (smp_source_expert_ids s) = 8" and "distinct (smp_source_expert_ids s)" and "set (smp_source_expert_ids s) \<subseteq> {0..<128}"
  shows "\<exists>data a scores ranking. build_runtime_artifact digest p i = Inr data \<and> parse_runtime_artifact digest data = Inr a
    \<and> normalized_scores p s = Inr scores \<and> transition_rank p s = Inr ranking
    \<and> predict_runtime_artifact (foldl fadd (Fin 0)) a (smp_phase s) (smp_source_expert_ids s) =
        (if length (filter (\<lambda>x. has_support p s x = Inr True) experts) < 12
         then Inl (ValueError ''fewer than twelve candidates have observed support'')
         else Inr (take 12 ranking, map (\<lambda>x. dict_get scores x (Fin 0)) (take 12 ranking)))"
proof -
  let ?phase = "smp_phase s" and ?sources = "smp_source_expert_ids s"
  let ?score = "runtime_score p ?phase ?sources"
  let ?supported = "filter (\<lambda>x. py_less (Fin 0) (?score x)) experts"
  have p: "exportable p" using assms(1,2) by (rule fit_exportable)
  have digest: "length (digest b) = 32" for b using assms(4) by simp
  obtain scores where sc: "normalized_scores p s = Inr scores" "\<And>x. dict_get scores x (Fin 0) = ?score x" "\<And>x. within_count 8 (?score x)"
    using assms(1,6,7) by (rule ranker_scores) blast
  obtain data a where io: "build_runtime_artifact digest p i = Inr data" "parse_runtime_artifact digest data = Inr a"
    and a: "ra_scores a = [(''prefill'', share_table p ''prefill''), (''decode'', share_table p ''decode'')]"
      "ra_expert_count a = 128" "ra_source_width a = 8" "ra_candidate_width a = 12"
  proof (rule export_and_load [of p i digest, OF p assms(3) digest])
    fix r1 r2 fb data a
    assume r: "phase_table p ''prefill'' = Inr r1" "phase_table p ''decode'' = Inr r2"
      and written: "build_runtime_artifact digest p i = Inr data" "parse_runtime_artifact digest data = Inr a"
      and a: "a = \<lparr>ra_format_version = 1, ra_source_layer = 23, ra_target_layer = 24, ra_expert_count = 128, ra_source_width = 8,
        ra_candidate_width = 12, ra_identity = i, ra_payload_sha256 = bytes_hex (digest (payload_of r1 r2 fb)),
        ra_payload = payload_of r1 r2 fb, ra_scores = [(''prefill'', r1), (''decode'', r2)],
        ra_support = [(''prefill'', map support_mask r1), (''decode'', map support_mask r2)], ra_fallback_scores = fb\<rparr>"
    have "r1 = share_table p ''prefill''" "r2 = share_table p ''decode''" using r by (simp_all add: phase_table_share [OF p assms(2)])
    then show thesis using that [OF written] by (simp add: a)
  qed
  have mode: "tp_weighting p = ''source_normalized''" using assms(1) by (auto simp: transition_fit_def)
  have support: "has_support p s x = Inr (py_less (Fin 0) (?score x))" for x by (simp add: has_support_def mode sc)
  obtain ranking where r: "transition_rank p s = Inr ranking" using transition_rank_ok [OF transition_fit_ok [OF assms(1)]] by blast
  have ranking: "ranking = sort_key (\<lambda>x. (fneg (?score x), x)) experts" if "12 \<le> length ?supported"
  proof -
    have "scores \<noteq> []"
    proof
      assume "scores = []"
      then have "?score x = Fin 0" for x using sc(2) [of x] by simp
      then show False using that by (simp add: py_less_def)
    qed
    then show ?thesis using r by (simp add: transition_rank_def mode sc)
  qed
  have first: "take 12 (sort_key (\<lambda>x. (fneg (?score x), x)) ?supported) = take 12 ranking" if "12 \<le> length ?supported"
    unfolding ranking [OF that] using sc(3) that by (intro ranked_supported) blast+
  have "predict_runtime_artifact (foldl fadd (Fin 0)) a ?phase ?sources =
    (let supported = ?supported in
     if length supported < 12 then Inl (ValueError ''fewer than twelve candidates have observed support'')
     else let selected = take 12 (sort_key (\<lambda>x. (fneg (?score x), x)) supported) in Inr (selected, map ?score selected))"
    by (rule predict_scores [OF assms(5) a assms(7-9)])
  also have "\<dots> = (if length ?supported < 12 then Inl (ValueError ''fewer than twelve candidates have observed support'')
         else Inr (take 12 ranking, map (\<lambda>x. dict_get scores x (Fin 0)) (take 12 ranking)))"
    by (simp add: Let_def sc(2) not_less first)
  finally show ?thesis using io r sc(1) by (simp add: support)
qed

definition example_prediction :: prediction_sample where
  "example_prediction = example_sample 23 [1, 2, 3, 4, 5, 6, 7, 8] []"

lemma exported_ranker_agrees_witness:
  "\<exists>data a ranking. build_runtime_artifact (\<lambda>b. replicate 32 7) example_ranker example_runtime_identity = Inr data
    \<and> parse_runtime_artifact (\<lambda>b. replicate 32 7) data = Inr a \<and> transition_rank example_ranker example_prediction = Inr ranking"
proof -
  have row: "export_row example_ranker phase source = (if phase = ''decode'' \<and> source = 1 then [(5, 1), (6, 1)] else [])" for phase source
    by (simp add: export_row_def example_ranker_def dict_get_def)
  have fb: "export_fallback example_ranker = [(5, 1), (6, 1)]" by (simp add: export_fallback_def example_ranker_def dict_get_def)
  have "exact_counts example_ranker" unfolding exact_counts_def row fb by (auto simp: counter_total_def counter_get_def dict_get_def)
  from exported_ranker_agrees [OF example_ranker_fit this example_hash_identity, of "\<lambda>b. replicate 32 7" example_prediction]
  show ?thesis by (auto simp: example_prediction_def RUNTIME_PHASES_def)
qed

end
