(* ===== verification/Temporal_Artifact.thy ===== *)
theory Temporal_Artifact
  imports Runtime_Artifact
begin

text \<open>
  \<open>predictor/temporal_runtime_artifact.py\<close>: the binary artifact of the temporal transition ranker, its reader,
  and the scores and predictions the runtime makes from it with the session counts. The lemmas show the
  round trip of the file and the agreement with the combined ranker of \<open>predictor/temporal_models.py\<close>.
\<close>

section \<open>Export\<close>

definition TEMPORAL_WIDTHS :: "nat list" where
  "TEMPORAL_WIDTHS = [8, 4, 4, 32, 32, 32, 32, 2, 2, 2, 2, 8, 8, 8, 8, 32]"

definition TEMPORAL_HEADER_SIZE :: nat where
  "TEMPORAL_HEADER_SIZE = sum_list TEMPORAL_WIDTHS"

definition TEMPORAL_PAYLOAD_BYTES :: nat where
  "TEMPORAL_PAYLOAD_BYTES = 128 * 128 * 8"

definition TEMPORAL_WEIGHTS :: "pyfloat \<times> pyfloat \<times> pyfloat" where
  "TEMPORAL_WEIGHTS = (dbl (1 / 2), dbl (2 / 5), dbl (1 / 10))"

record temporal_identity =
  ti_model_sha256 :: string
  ti_runtime_sha256 :: string
  ti_manifest_sha256 :: string
  ti_configuration_sha256 :: string

record temporal_artifact =
  ta_identity :: temporal_identity
  ta_payload_sha256 :: string
  ta_transition_scores :: "pyfloat list list"

definition temporal_digest :: "string \<Rightarrow> bytes res" where
  "temporal_digest value = (if length value \<noteq> 64 then Inl (ValueError ''must be a SHA-256 hexadecimal digest'')
     else case fromhex value of Inl e \<Rightarrow> Inl (ValueError ''must be a SHA-256 hexadecimal digest'') | Inr b \<Rightarrow> Inr b)"

definition temporal_row :: "temporal_transition \<Rightarrow> int \<Rightarrow> pyfloat list res" where
  "temporal_row p source = (let counts = dict_get (tt_transitions p) source []; row_total = counter_total counts in
     rmap (\<lambda>target. if row_total = 0 then Inr (Fin 0) else
       rbind (float_of_int (counter_get counts target)) (\<lambda>a. rbind (float_of_int row_total) (\<lambda>b. fdiv a b))) experts)"

definition transition_payload :: "temporal_transition \<Rightarrow> (bytes \<times> pyfloat list list) res" where
  "transition_payload p = rbind (rmap (temporal_row p) experts) (\<lambda>rows. Inr (pack_doubles (concat rows), rows))"

definition temporal_fields :: "(bytes \<Rightarrow> bytes) \<Rightarrow> temporal_identity \<Rightarrow> bytes \<Rightarrow> bytes list res" where
  "temporal_fields digest identity payload =
     rbind (temporal_digest (ti_model_sha256 identity)) (\<lambda>model.
     rbind (temporal_digest (ti_runtime_sha256 identity)) (\<lambda>runtime.
     rbind (temporal_digest (ti_manifest_sha256 identity)) (\<lambda>manifest.
     rbind (temporal_digest (ti_configuration_sha256 identity)) (\<lambda>configuration.
     let (w0, w1, w2) = TEMPORAL_WEIGHTS in
       Inr [pack_string 8 (ascii_bytes ''EFT0RT01''), le_bytes 4 1, le_bytes 4 TEMPORAL_HEADER_SIZE,
         pack_string 32 model, pack_string 32 runtime, pack_string 32 manifest, pack_string 32 configuration,
         le_bytes 2 24, le_bytes 2 128, le_bytes 2 8, le_bytes 2 16, encode64 w0, encode64 w1, encode64 w2,
         le_bytes 8 (length payload), pack_string 32 (digest payload)]))))"

definition build_temporal_runtime_artifact :: "(bytes \<Rightarrow> bytes) \<Rightarrow> temporal_transition \<Rightarrow> temporal_identity \<Rightarrow> bytes res" where
  "build_temporal_runtime_artifact digest p identity =
     rbind (transition_payload p) (\<lambda>(payload, _).
     rbind (temporal_fields digest identity payload) (\<lambda>fs. Inr (concat fs @ payload)))"

section \<open>The reader\<close>

definition parse_temporal_runtime_artifact :: "(bytes \<Rightarrow> bytes) \<Rightarrow> bytes \<Rightarrow> temporal_artifact res" where
  "parse_temporal_runtime_artifact digest data =
     (if length data < TEMPORAL_HEADER_SIZE then Inl (ValueError ''temporal runtime artifact is truncated'')
      else let f = split_fields TEMPORAL_WIDTHS data; payload = drop TEMPORAL_HEADER_SIZE data; payload_bytes = le_value (f ! 14) in
      if f ! 0 \<noteq> ascii_bytes ''EFT0RT01'' \<or> le_value (f ! 1) \<noteq> 1 \<or> le_value (f ! 2) \<noteq> TEMPORAL_HEADER_SIZE
      then Inl (ValueError ''temporal runtime artifact header is invalid'')
      else if map (\<lambda>i. le_value (f ! i)) [7, 8, 9, 10] \<noteq> [24, 128, 8, 16]
        \<or> (decode64 (f ! 11), decode64 (f ! 12), decode64 (f ! 13)) \<noteq> TEMPORAL_WEIGHTS \<or> payload_bytes \<noteq> TEMPORAL_PAYLOAD_BYTES
      then Inl (ValueError ''temporal runtime artifact configuration is invalid'')
      else if length data \<noteq> TEMPORAL_HEADER_SIZE + payload_bytes then Inl (ValueError ''temporal runtime artifact dimensions are invalid'')
      else if digest payload \<noteq> f ! 15 then Inl (ValueError ''temporal runtime artifact payload checksum does not match'')
      else let values = unpack_doubles (128 * 128) payload in
      if invalid_scores values then Inl (ValueError ''temporal runtime artifact contains non-finite scores'')
      else Inr \<lparr>ta_identity = \<lparr>ti_model_sha256 = bytes_hex (f ! 3), ti_runtime_sha256 = bytes_hex (f ! 4),
          ti_manifest_sha256 = bytes_hex (f ! 5), ti_configuration_sha256 = bytes_hex (f ! 6)\<rparr>,
        ta_payload_sha256 = bytes_hex (f ! 15),
        ta_transition_scores = map (\<lambda>source. take 128 (drop (source * 128) values)) [0..<128]\<rparr>)"

section \<open>Scores and prediction\<close>

definition score_temporal_runtime_artifact :: "(pyfloat list \<Rightarrow> pyfloat) \<Rightarrow> temporal_artifact \<Rightarrow> int list \<Rightarrow> int counter
    \<Rightarrow> (pyfloat list \<times> int counter) res" where
  "score_temporal_runtime_artifact float_sum a sources session_counts =
     (if length sources \<noteq> 8 \<or> card (set sources) \<noteq> 8 \<or> (\<exists>x \<in> set sources. \<not> (0 \<le> x \<and> x < 128))
      then Inl (ValueError ''source expert IDs must be eight unique valid IDs'')
      else if \<exists>(x, n) \<in> set session_counts. \<not> (0 \<le> x \<and> x < 128) \<or> n < 0
      then Inl (ValueError ''session counts must contain valid expert IDs and non-negative integers'')
      else let updated = counter_update session_counts sources in
      rbind (rmap (\<lambda>target. rbind (rmap (\<lambda>source. score_at (ta_transition_scores a) source target) sources) (\<lambda>xs.
        Inr (float_sum xs))) experts) (\<lambda>transition.
      rbind (rmap (combined_score TEMPORAL_WEIGHTS transition (or_one (py_max_list transition)) (session_scale updated) sources updated)
        experts) (\<lambda>scores.
      if invalid_scores scores then Inl (ValueError ''temporal predictor produced non-finite scores'') else Inr (scores, updated))))"

definition predict_temporal_runtime_artifact :: "(pyfloat list \<Rightarrow> pyfloat) \<Rightarrow> temporal_artifact \<Rightarrow> int list \<Rightarrow> int counter
    \<Rightarrow> (int list \<times> pyfloat list \<times> int counter) res" where
  "predict_temporal_runtime_artifact float_sum a sources session_counts =
     rbind (score_temporal_runtime_artifact float_sum a sources session_counts) (\<lambda>(scores, updated).
     let supported = filter (\<lambda>x. py_less (Fin 0) (scores ! nat x)) [0..int (length scores) - 1] in
     if length supported < 16 then Inl (ValueError ''temporal predictor has fewer than sixteen supported candidates'')
     else let candidates = take 16 (sort_key (\<lambda>x. (fneg (scores ! nat x), x)) supported) in
       Inr (candidates, map (\<lambda>x. scores ! nat x) candidates, updated))"

section \<open>Reading back\<close>

definition temporal_hash_identity :: "temporal_identity \<Rightarrow> bool" where
  "temporal_hash_identity i \<longleftrightarrow> is_hash (ti_model_sha256 i) \<and> is_hash (ti_runtime_sha256 i) \<and> is_hash (ti_manifest_sha256 i)
     \<and> is_hash (ti_configuration_sha256 i)"

lemma temporal_digest_eq: "temporal_digest = hex_digest"
  by (simp add: fun_eq_iff temporal_digest_def hex_digest_def)

lemma temporal_row_eq: "temporal_row p = score_row (tt_transitions p)"
  by (simp add: fun_eq_iff temporal_row_def score_row_def)

lemma temporal_header_size [simp]: "TEMPORAL_HEADER_SIZE = 216"
  by (simp add: TEMPORAL_HEADER_SIZE_def TEMPORAL_WIDTHS_def)

definition temporal_exportable :: "temporal_transition \<Rightarrow> bool" where
  "temporal_exportable p \<longleftrightarrow> (\<forall>source. row_ok (dict_get (tt_transitions p) source [])
     \<and> counter_total (dict_get (tt_transitions p) source []) \<le> 2 ^ 1000)"

lemma transition_payload_good:
  assumes "temporal_exportable p"
  shows "\<exists>rows. rmap (temporal_row p) experts = Inr rows \<and> good_table rows"
proof -
  have "\<exists>row. temporal_row p source = Inr row \<and> good_row row" for source
    using assms unfolding temporal_row_eq by (intro score_row_good) (auto simp: temporal_exportable_def)
  from rmap_total [of "temporal_row p", OF this, of experts] show ?thesis by (simp add: good_table_def)
qed

lemma take_drop_concat:
  assumes "\<forall>row \<in> set rows. length row = 128" and "i < length rows"
  shows "take 128 (drop (i * 128) (concat rows)) = rows ! i"
  using assms
proof (induction rows arbitrary: i)
  case (Cons row rows)
  then show ?case by (cases i) auto
qed simp

lemma build_parse_temporal:
  assumes p: "temporal_exportable p" and i: "temporal_hash_identity i" and digest: "\<And>b. length (digest b) = 32"
  obtains rows data where "rmap (temporal_row p) experts = Inr rows" and "good_table rows"
    and "build_temporal_runtime_artifact digest p i = Inr data"
    and "parse_temporal_runtime_artifact digest data = Inr
      \<lparr>ta_identity = i, ta_payload_sha256 = bytes_hex (digest (pack_doubles (concat rows))), ta_transition_scores = rows\<rparr>"
proof -
  obtain rows where rows: "rmap (temporal_row p) experts = Inr rows" "good_table rows" using transition_payload_good [OF p] by blast
  obtain m where m: "hex_digest (ti_model_sha256 i) = Inr m" "length m = 32" "bytes_hex m = ti_model_sha256 i"
    using i hex_digest_hash unfolding temporal_hash_identity_def by blast
  obtain r where r: "hex_digest (ti_runtime_sha256 i) = Inr r" "length r = 32" "bytes_hex r = ti_runtime_sha256 i"
    using i hex_digest_hash unfolding temporal_hash_identity_def by blast
  obtain mf where mf: "hex_digest (ti_manifest_sha256 i) = Inr mf" "length mf = 32" "bytes_hex mf = ti_manifest_sha256 i"
    using i hex_digest_hash unfolding temporal_hash_identity_def by blast
  obtain c where c: "hex_digest (ti_configuration_sha256 i) = Inr c" "length c = 32" "bytes_hex c = ti_configuration_sha256 i"
    using i hex_digest_hash unfolding temporal_hash_identity_def by blast
  let ?p = "pack_doubles (concat rows)"
  let ?w = "[encode64 (dbl (1 / 2)), encode64 (dbl (2 / 5)), encode64 (dbl (1 / 10))]"
  let ?fs = "[ascii_bytes ''EFT0RT01'', le_bytes 4 1, le_bytes 4 216, m, r, mf, c, le_bytes 2 24, le_bytes 2 128, le_bytes 2 8, le_bytes 2 16]
    @ ?w @ [le_bytes 8 (length ?p), digest ?p]"
  have fields: "temporal_fields digest i ?p = Inr ?fs"
    unfolding temporal_fields_def temporal_digest_eq m(1) r(1) mf(1) c(1) rbind_Inr
    by (simp add: TEMPORAL_WEIGHTS_def m r mf c digest pack_string_full)
  have rl: "\<forall>row \<in> set rows. length row = 128" "length rows = 128" using rows(2) by (auto simp: good_table_def good_row_def)
  have cl: "length (concat rows) = 16384" using length_good_concat [of rows] rows(2) rl(2) by (simp add: good_table_def)
  have len: "length ?p = 131072" by (simp add: cl del: length_concat)
  have widths: "map length ?fs = TEMPORAL_WIDTHS" by (simp add: TEMPORAL_WIDTHS_def m r mf c digest)
  have split: "split_fields TEMPORAL_WIDTHS (concat ?fs @ ?p) = ?fs" using widths by (rule split_fields_concat)
  have hlen: "length (concat ?fs) = 216" unfolding length_concat widths by (simp add: TEMPORAL_WIDTHS_def)
  have whole: "length (concat ?fs @ ?p) = 216 + 131072" using hlen len by (simp del: length_concat concat.simps)
  have tail: "drop TEMPORAL_HEADER_SIZE (concat ?fs @ ?p) = ?p" using hlen by (simp del: length_concat concat.simps)
  have f: "?fs ! 0 = ascii_bytes ''EFT0RT01''" "?fs ! 1 = le_bytes 4 1" "?fs ! 2 = le_bytes 4 216" "?fs ! 3 = m" "?fs ! 4 = r" "?fs ! 5 = mf" "?fs ! 6 = c"
      "?fs ! 7 = le_bytes 2 24" "?fs ! 8 = le_bytes 2 128" "?fs ! 9 = le_bytes 2 8" "?fs ! 10 = le_bytes 2 16"
      "?fs ! 11 = encode64 (dbl (1 / 2))" "?fs ! 12 = encode64 (dbl (2 / 5))" "?fs ! 13 = encode64 (dbl (1 / 10))"
      "?fs ! 14 = le_bytes 8 131072" "?fs ! 15 = digest ?p"
    unfolding len by simp_all
  have scores: "unpack_doubles (128 * 128) ?p = concat rows"
  proof -
    have "\<forall>x \<in> set (concat rows). representable x" using rows(2) by (auto simp: good_table_def good_row_def)
    from unpack_pack_doubles [OF this, of "[]"] show ?thesis unfolding cl by simp
  qed
  have valid: "\<not> invalid_scores (concat rows)" using rows(2) by (auto simp: good_table_def good_row_def invalid_scores_def)
  have cut: "map (\<lambda>source. take 128 (drop (source * 128) (concat rows))) [0..<128] = rows"
    by (rule nth_equalityI) (simp_all add: rl take_drop_concat)
  have decoded: "(decode64 (encode64 (dbl (1 / 2))), decode64 (encode64 (dbl (2 / 5))), decode64 (encode64 (dbl (1 / 10)))) = TEMPORAL_WEIGHTS"
    by (simp add: decode_encode64 TEMPORAL_WEIGHTS_def)
  have "parse_temporal_runtime_artifact digest (concat ?fs @ ?p) = Inr
      \<lparr>ta_identity = i, ta_payload_sha256 = bytes_hex (digest ?p), ta_transition_scores = rows\<rparr>"
    unfolding parse_temporal_runtime_artifact_def Let_def split tail whole f scores cut decoded
    using valid by (simp add: f TEMPORAL_PAYLOAD_BYTES_def m r mf c)
  moreover have "build_temporal_runtime_artifact digest p i = Inr (concat ?fs @ ?p)"
    unfolding build_temporal_runtime_artifact_def transition_payload_def rows(1) rbind_Inr case_prod_conv fields ..
  ultimately show thesis using that [OF rows] by blast
qed

section \<open>The transition scores of the ranker\<close>

definition fitted_row :: "temporal_transition \<Rightarrow> int \<Rightarrow> int counter" where
  "fitted_row p source = dict_get (tt_transitions p) source []"

definition temporal_score :: "temporal_transition \<Rightarrow> int list \<Rightarrow> int \<Rightarrow> pyfloat" where
  "temporal_score p sources x = foldl fadd (Fin 0) (map (\<lambda>source. share (fitted_row p source) x) sources)"

lemma experts_update:
  assumes "0 \<le> k" and "k < 128"
  shows "(map v experts)[nat k := y] = map (v(k := y)) experts"
  using assms by (intro nth_equalityI) (auto simp: nth_list_update experts_def nat_eq_iff)

lemma add_temporal_shares:
  assumes "distinct (map fst entries)" and "fst ` set entries \<subseteq> {0..<128}"
    and "\<forall>(x, n) \<in> set entries. int_truediv n m = Inr (g x)"
  shows "rfold (add_temporal_share m) (map v experts) entries
    = Inr (map (\<lambda>x. if x \<in> fst ` set entries then fadd (v x) (g x) else v x) experts)"
  using assms
proof (induction entries arbitrary: v)
  case (Cons e entries)
  obtain k n where e: "e = (k, n)" by (cases e)
  have k: "0 \<le> k" "k < 128" using Cons.prems(2) by (auto simp: e)
  have "add_temporal_share m (map v experts) e = Inr (map (v(k := fadd (v k) (g k))) experts)"
    using Cons.prems(3) k by (simp add: add_temporal_share_def e py_index_def experts_update)
  moreover have "rfold (add_temporal_share m) (map (v(k := fadd (v k) (g k))) experts) entries
      = Inr (map (\<lambda>x. if x \<in> fst ` set entries then fadd ((v(k := fadd (v k) (g k))) x) (g x) else (v(k := fadd (v k) (g k))) x) experts)"
    using Cons.prems by (intro Cons.IH) auto
  moreover have "k \<notin> fst ` set entries" using Cons.prems(1) by (simp add: e)
  ultimately show ?case by (auto simp: e)
qed simp

lemma add_temporal_row_scores:
  assumes "row_ok (fitted_row p source)" and "distinct (map fst (fitted_row p source))" and "fst ` set (fitted_row p source) \<subseteq> {0..<128}"
    and "\<And>x. within_count k (v x)"
  shows "add_temporal_row p (map v experts) source = Inr (map (\<lambda>x. fadd (v x) (share (fitted_row p source) x)) experts)"
proof (cases "counter_total (fitted_row p source) = 0")
  case True
  have "fadd (v x) (Fin 0) = v x" for x using assms(4) fadd_zero by blast
  then show ?thesis using True by (simp add: add_temporal_row_def share_def flip: fitted_row_def)
next
  case False
  let ?row = "fitted_row p source"
  have entries: "\<forall>(x, n) \<in> set ?row. int_truediv n (counter_total ?row) = Inr (share ?row x)"
  proof safe
    fix x n assume e: "(x, n) \<in> set ?row"
    then have get: "counter_get ?row x = n" using assms(2) by (simp add: counter_get_def dict_get_def)
    obtain r where "int_truediv n (counter_total ?row) = Inr (Fin r)" using row_share [OF assms(1) e False] by blast
    then show "int_truediv n (counter_total ?row) = Inr (share ?row x)"
      using False by (auto simp: int_truediv_def share_def get split: pyfloat.splits)
  qed
  have "share ?row x = Fin 0" if "x \<notin> fst ` set ?row" for x
    using that False by (simp add: share_def counter_get_def dict_get_absent)
  moreover have "fadd (v x) (Fin 0) = v x" for x using assms(4) fadd_zero by blast
  ultimately have "map (\<lambda>x. if x \<in> fst ` set ?row then fadd (v x) (share ?row x) else v x) experts
      = map (\<lambda>x. fadd (v x) (share ?row x)) experts" by simp
  then show ?thesis using add_temporal_shares [OF assms(2,3) entries, of v] False
    by (simp add: add_temporal_row_def Let_def flip: fitted_row_def)
qed

definition fitted_ok :: "temporal_transition \<Rightarrow> bool" where
  "fitted_ok p \<longleftrightarrow> (\<forall>source. row_ok (fitted_row p source) \<and> distinct (map fst (fitted_row p source))
     \<and> fst ` set (fitted_row p source) \<subseteq> {0..<128})"

lemma temporal_rows_scores:
  assumes "fitted_ok p" and "\<And>x. within_count k (v x)" and "k + length sources < 1000"
  shows "rfold (add_temporal_row p) (map v experts) sources
      = Inr (map (\<lambda>x. foldl fadd (v x) (map (\<lambda>source. share (fitted_row p source) x) sources)) experts)
    \<and> (\<forall>x. within_count (k + length sources) (foldl fadd (v x) (map (\<lambda>source. share (fitted_row p source) x) sources)))"
  using assms(2,3)
proof (induction sources arbitrary: v k)
  case (Cons source sources)
  let ?v = "\<lambda>x. fadd (v x) (share (fitted_row p source) x)"
  have row: "row_ok (fitted_row p source)" "distinct (map fst (fitted_row p source))" "fst ` set (fitted_row p source) \<subseteq> {0..<128}"
    using assms(1) by (auto simp: fitted_ok_def)
  have v: "within_count (Suc k) (?v x)" for x
    using Cons.prems share_within [OF row(1), of x] by (intro within_count_fadd) auto
  have "add_temporal_row p (map v experts) source = Inr (map ?v experts)"
    using row Cons.prems(1) by (rule add_temporal_row_scores)
  then show ?case using Cons.IH [of "Suc k" ?v, OF v] Cons.prems(2) by simp
qed simp

lemma temporal_scores_eq:
  assumes "fitted_ok p" and "length (ts_source_expert_ids s) = 8"
  shows "temporal_scores p s = Inr (map (temporal_score p (ts_source_expert_ids s)) experts)"
    and "within_count 8 (temporal_score p (ts_source_expert_ids s) x)"
proof -
  have start: "replicate (nat EXPERT_COUNT) (Fin 0) = map (\<lambda>x. Fin 0) experts" by (simp add: EXPERT_COUNT_def map_replicate_const)
  have "within_count 0 (Fin 0)" by (rule within_count_0)
  from temporal_rows_scores [OF assms(1) this, of "ts_source_expert_ids s"] assms(2)
  show "temporal_scores p s = Inr (map (temporal_score p (ts_source_expert_ids s)) experts)"
    and "within_count 8 (temporal_score p (ts_source_expert_ids s) x)"
    by (simp_all add: temporal_scores_def start temporal_score_def)
qed

lemma temporal_fit_distinct: "distinct (map fst (fitted_row (temporal_transition_fit samples) source))"
proof -
  let ?ok = "\<lambda>rows :: (int, int counter) dict. \<forall>s. distinct (map fst (dict_get rows s []))"
  have inner: "?ok (foldl (\<lambda>rows source. dict_set source (counter_update (dict_get rows source []) ts) rows) rows sources)"
    if "?ok rows" for rows sources ts
    using that by (induction sources arbitrary: rows) (auto simp: dict_get_set distinct_counter_update)
  have "?ok (tt_transitions (foldl (\<lambda>p s.
     \<lparr>tt_transitions = foldl (\<lambda>rows source.
          dict_set source (counter_update (dict_get rows source []) (ts_target_expert_ids s)) rows)
        (tt_transitions p) (ts_source_expert_ids s),
      tt_target_frequency = counter_update (tt_target_frequency p) (ts_target_expert_ids s)\<rparr>) p samples))"
    if "?ok (tt_transitions p)" for p
    using that by (induction samples arbitrary: p) (simp_all add: inner)
  from this [of "\<lparr>tt_transitions = [], tt_target_frequency = []\<rparr>"] show ?thesis
    by (simp add: temporal_transition_fit_def fitted_row_def)
qed

lemma temporal_fit_fitted:
  assumes "\<forall>s \<in> set samples. set (ts_target_expert_ids s) \<subseteq> {0..<128}"
  shows "fitted_ok (temporal_transition_fit samples)"
  using temporal_transition_fit_ok [OF assms] temporal_fit_distinct by (auto simp: fitted_ok_def temporal_ok_def fitted_row_def)

section \<open>The combined scores\<close>

lemma py_max_list_ge:
  assumes "xs \<noteq> []" and "\<forall>x \<in> set xs. x \<noteq> NaN"
  shows "py_max_list xs \<in> set xs \<and> (\<forall>x \<in> set xs. x \<le> py_max_list xs)"
proof -
  have "foldl py_max y ys \<in> set (y # ys) \<and> (\<forall>x \<in> set (y # ys). x \<le> foldl py_max y ys)"
    if "\<forall>x \<in> set (y # ys). x \<noteq> NaN" for y ys
    using that
  proof (induction ys arbitrary: y)
    case (Cons z ys)
    have m: "py_max y z \<in> {y, z}" "y \<le> py_max y z" "z \<le> py_max y z"
      using Cons.prems by (auto simp: py_max_def py_less_def)
    have "\<forall>x \<in> set (py_max y z # ys). x \<noteq> NaN" using Cons.prems m(1) by auto
    from Cons.IH [OF this] m show ?case by fastforce
  qed simp
  with assms show ?thesis by (cases xs) (auto simp: py_max_list_def)
qed

text \<open>A weighted share of a maximum lies between zero and one.\<close>

lemma scaled_within:
  assumes "0 \<le> \<alpha>" "\<alpha> \<le> 1" and "representable (Fin v)" and "0 \<le> v" "v \<le> w" "0 < w"
  shows "\<exists>z. fdiv (fmul (Fin \<alpha>) (Fin v)) (Fin w) = Inr z \<and> within_count 1 z"
proof -
  have "\<alpha> * v \<le> v" "0 \<le> \<alpha> * v" using assms by (simp_all add: mult_left_le_one_le)
  then have "dbl (\<alpha> * v) \<le> dbl v" "dbl 0 \<le> dbl (\<alpha> * v)" by (simp_all only: dbl_mono)
  then obtain u where u: "dbl (\<alpha> * v) = Fin u" "0 \<le> u" "u \<le> v"
    using assms(3) by (cases "dbl (\<alpha> * v)") (auto simp: representable_def less_eq_pyfloat_def)
  have "0 \<le> u / w" "u / w \<le> 1" using u assms by (simp_all add: divide_le_eq_1)
  then have "dbl 0 \<le> dbl (u / w)" "dbl (u / w) \<le> dbl 1" by (simp_all only: dbl_mono)
  then have "within_count 1 (dbl (u / w))" by (simp add: within_count_def)
  then show ?thesis using u assms(6) by (simp add: fmul_def fdiv_def)
qed

lemma weight_unit: "\<exists>\<alpha>. dbl (1 / 2) = Fin \<alpha> \<and> 0 \<le> \<alpha> \<and> \<alpha> \<le> 1" "\<exists>\<alpha>. dbl (2 / 5) = Fin \<alpha> \<and> 0 \<le> \<alpha> \<and> \<alpha> \<le> 1"
    "\<exists>\<alpha>. dbl (1 / 10) = Fin \<alpha> \<and> 0 \<le> \<alpha> \<and> \<alpha> \<le> 1"
proof -
  have unit: "\<exists>\<alpha>. dbl x = Fin \<alpha> \<and> 0 \<le> \<alpha> \<and> \<alpha> \<le> 1" if "0 \<le> x" "x \<le> 1" for x
    using that by (rule dbl_unit_interval) blast
  show "\<exists>\<alpha>. dbl (1 / 2) = Fin \<alpha> \<and> 0 \<le> \<alpha> \<and> \<alpha> \<le> 1" "\<exists>\<alpha>. dbl (2 / 5) = Fin \<alpha> \<and> 0 \<le> \<alpha> \<and> \<alpha> \<le> 1"
    "\<exists>\<alpha>. dbl (1 / 10) = Fin \<alpha> \<and> 0 \<le> \<alpha> \<and> \<alpha> \<le> 1" by (intro unit; simp)+
qed

definition counts_below :: "int \<Rightarrow> int counter \<Rightarrow> bool" where
  "counts_below b c \<longleftrightarrow> (\<forall>(x, n) \<in> set c. 0 \<le> x \<and> x < 128 \<and> 0 \<le> n \<and> n < b)"

lemma session_scale_ge:
  assumes "\<forall>(x, n) \<in> set c. 0 \<le> n \<and> n < b" and "1 < b"
  shows "0 < session_scale c \<and> session_scale c < b \<and> 0 \<le> counter_get c x \<and> counter_get c x \<le> session_scale c"
proof -
  have m: "foldl max v vs \<in> set (v # vs) \<and> (\<forall>n \<in> set (v # vs). n \<le> foldl max v vs)" for v :: int and vs
  proof (induction vs arbitrary: v)
    case (Cons w vs)
    have "max v w \<in> {v, w}" "v \<le> max v w" "w \<le> max v w" by auto
    with Cons [of "max v w"] show ?case by fastforce
  qed simp
  have get: "counter_get c x = 0 \<or> counter_get c x \<in> set (map snd c)"
    using dict_get_default_or_in [of c x 0] by (force simp: counter_get_def)
  show ?thesis
  proof (cases "map snd c")
    case Nil
    then show ?thesis using get assms(2) by (simp add: session_scale_def)
  next
    case (Cons v vs)
    let ?m = "foldl max v vs"
    have mem: "?m \<in> set (map snd c)" and le: "n \<in> set (map snd c) \<Longrightarrow> n \<le> ?m" for n using m [of v vs] unfolding Cons by blast+
    have "0 \<le> ?m \<and> ?m < b" using mem assms(1) by auto
    moreover have "session_scale c = (if ?m = 0 then 1 else ?m)" by (simp add: session_scale_def Cons Let_def)
    moreover have "0 \<le> counter_get c x \<and> counter_get c x \<le> ?m" using get le mem assms(1) \<open>0 \<le> ?m \<and> ?m < b\<close> by auto
    ultimately show ?thesis using assms(2) by auto
  qed
qed

lemma combined_within:
  assumes "x \<in> set experts" and "\<And>y. within_count 8 (v y)" and "\<forall>(x, n) \<in> set c. 0 \<le> n \<and> n < 2 ^ 53"
  shows "\<exists>z. combined_score TEMPORAL_WEIGHTS (map v experts) (or_one (py_max_list (map v experts))) (session_scale c) current c x = Inr z
    \<and> within_count 3 z"
proof -
  let ?m = "py_max_list (map v experts)"
  have fin: "\<exists>u. v y = Fin u \<and> 0 \<le> u" for y using assms(2) [of y] within_count_fin by blast
  have max: "?m \<in> set (map v experts) \<and> (\<forall>y \<in> set (map v experts). y \<le> ?m)"
  proof (rule py_max_list_ge)
    show "map v experts \<noteq> []" by (simp add: experts_def)
    have "v y \<noteq> NaN" for y using fin [of y] by auto
    then show "\<forall>y \<in> set (map v experts). y \<noteq> NaN" by auto
  qed
  obtain m where m: "?m = Fin m" "0 \<le> m" using max fin by (metis ex_map_conv)
  obtain u where u: "v x = Fin u" "0 \<le> u" using fin by blast
  have um: "u \<le> m" using max assms(1) u m by (metis Fin_le image_eqI set_map)
  let ?w = "if m = 0 then 1 else m"
  have w: "or_one ?m = Fin ?w" "0 < ?w" "u \<le> ?w" using um m u by (auto simp: m(1) or_one_def)
  have rep: "representable (Fin u)" using assms(2) [of x] u by (simp add: within_count_def)
  obtain a b d where weights: "dbl (1 / 2) = Fin a" "0 \<le> a" "a \<le> 1" "dbl (2 / 5) = Fin b" "0 \<le> b" "b \<le> 1" "dbl (1 / 10) = Fin d" "0 \<le> d" "d \<le> 1"
    using weight_unit by blast
  obtain z1 where z1: "fdiv (fmul (Fin a) (Fin u)) (Fin ?w) = Inr z1" "within_count 1 z1"
    using scaled_within [OF weights(2,3) rep u(2) w(3,2)] by blast
  have s: "0 < session_scale c" "session_scale c < 2 ^ 53" "0 \<le> counter_get c x" "counter_get c x \<le> session_scale c"
    using session_scale_ge [OF assms(3), of x] by simp_all
  have exact: "float_of_int n = Inr (Fin (of_int n))" "representable (Fin (of_int n))" if "0 \<le> n" "n < 2 ^ 53" for n
    using dbl_int [of n] that by (simp_all add: float_of_int_def representable_def)
  have n: "counter_get c x < 2 ^ 53" using s by linarith
  obtain z3 where z3: "fdiv (fmul (Fin d) (Fin (of_int (counter_get c x)))) (Fin (of_int (session_scale c))) = Inr z3" "within_count 1 z3"
    using scaled_within [OF weights(8,9) exact(2) [OF s(3) n], of "of_int (session_scale c)"] s by auto
  have z2: "within_count 1 (fmul (Fin b) (Fin (if x \<in> set current then 1 else 0)))"
  proof -
    have "dbl 0 \<le> dbl b" "dbl b \<le> dbl 1" using weights by (simp_all only: dbl_mono)
    then show ?thesis by (simp add: fmul_def within_count_def)
  qed
  have "within_count 2 (fadd z1 (fmul (Fin b) (Fin (if x \<in> set current then 1 else 0))))"
    using within_count_fadd [OF z1(2) z2] by (simp add: numeral_2_eq_2)
  then have "within_count 3 (fadd (fadd z1 (fmul (Fin b) (Fin (if x \<in> set current then 1 else 0)))) z3)"
    using within_count_fadd [of 2 _ z3] z3(2) by (simp add: numeral_3_eq_3 numeral_2_eq_2)
  moreover have "map v experts ! nat x = Fin u" using assms(1) u by simp
  ultimately show ?thesis
    using z1(1) z3(1) exact(1) [OF s(3) n] exact(1) [of "session_scale c"] s
    by (simp add: combined_score_def TEMPORAL_WEIGHTS_def weights w(1))
qed

section \<open>Export, load and predict\<close>

text \<open>
  C12. The temporal artifact reads back: for every transition table with non-negative counts and every identity made of
  SHA-256 digests the export succeeds, the reader accepts it, and the loaded artifact has the identity
  and, bit for bit as floats, the score rows the exporter computed.
\<close>

theorem temporal_artifact_roundtrip:
  assumes "temporal_exportable p" and "temporal_hash_identity i" and "\<forall>b. length (digest b) = 32"
  shows "\<exists>data a payload. build_temporal_runtime_artifact digest p i = Inr data \<and> parse_temporal_runtime_artifact digest data = Inr a
    \<and> ta_identity a = i \<and> transition_payload p = Inr (payload, ta_transition_scores a) \<and> ta_payload_sha256 a = bytes_hex (digest payload)"
proof -
  have digest: "length (digest b) = 32" for b using assms(3) by simp
  show ?thesis
    by (rule build_parse_temporal [of p i digest, OF assms(1,2) digest])
      (intro exI conjI, assumption, assumption, simp_all add: transition_payload_def)
qed

definition fitted_table :: "temporal_transition \<Rightarrow> pyfloat list list" where
  "fitted_table p = map (\<lambda>source. map (share (fitted_row p source)) experts) experts"

lemma fitted_table_rows:
  assumes "fitted_ok p" and "\<forall>source. counter_total (fitted_row p source) < 2 ^ 53"
  shows "rmap (temporal_row p) experts = Inr (fitted_table p)"
proof -
  have "temporal_row p source = Inr (map (share (fitted_row p source)) experts)" for source
    unfolding temporal_row_eq fitted_row_def using assms by (intro score_row_share) (auto simp: fitted_ok_def fitted_row_def)
  then show ?thesis unfolding fitted_table_def by (simp add: rmap_all_ok)
qed

lemma fitted_exportable:
  assumes "fitted_ok p" and "\<forall>source. counter_total (fitted_row p source) < 2 ^ 53"
  shows "temporal_exportable p"
proof -
  have "(2 :: int) ^ 53 \<le> 2 ^ 1000" by (rule power_increasing) simp_all
  then have "counter_total (fitted_row p source) \<le> 2 ^ 1000" for source using assms(2) order_less_le_trans less_imp_le by blast
  then show ?thesis using assms(1) unfolding temporal_exportable_def fitted_ok_def fitted_row_def by blast
qed

lemma temporal_scores_loaded:
  assumes "fitted_ok p" and "ta_transition_scores a = fitted_table p"
    and "length sources = 8" "distinct sources" "set sources \<subseteq> {0..<128}" and "counts_below (2 ^ 52) session"
  obtains scores where "score_temporal_runtime_artifact (foldl fadd (Fin 0)) a sources session = Inr (scores, counter_update session sources)"
    and "rmap (combined_score TEMPORAL_WEIGHTS (map (temporal_score p sources) experts)
        (or_one (py_max_list (map (temporal_score p sources) experts))) (session_scale (counter_update session sources)) sources
        (counter_update session sources)) experts = Inr scores"
    and "length scores = 128" and "\<forall>z \<in> set scores. within_count 3 z"
proof -
  let ?v = "temporal_score p sources" and ?c = "counter_update session sources"
  let ?f = "combined_score TEMPORAL_WEIGHTS (map ?v experts) (or_one (py_max_list (map ?v experts))) (session_scale ?c) sources ?c"
  have bound: "\<forall>(x, n) \<in> set ?c. 0 \<le> n \<and> n < 2 ^ 53"
  proof -
    have "\<forall>(x, n) \<in> set session. 0 \<le> n \<and> n \<le> 2 ^ 52" using assms(6) by (auto simp: counts_below_def)
    from counter_update_bound [OF this, of sources] assms(3) show ?thesis by fastforce
  qed
  have v: "within_count 8 (?v y)" for y
    using temporal_scores_eq(2) [OF assms(1), of "example_temporal 0 sources []" y] assms(3) by (simp add: example_temporal_def)
  have z: "\<exists>z. ?f x = Inr z \<and> within_count 3 z" if "x \<in> set experts" for x using that v bound by (rule combined_within)
  obtain scores where scores: "rmap ?f experts = Inr scores" using rmap_ex [of experts ?f] z by (metis is_ok_Inr)
  have len: "length scores = 128" using rmap_length [OF scores] by simp
  have within: "\<forall>y \<in> set scores. within_count 3 y"
  proof
    fix y assume "y \<in> set scores"
    then obtain x where "x \<in> set experts" "?f x = Inr y" using rmap_elem [OF scores] by blast
    with z [of x] show "within_count 3 y" by auto
  qed
  have "\<not> invalid_scores scores"
    unfolding invalid_scores_def using within within_count_fin [of 3] by (fastforce simp: isfinite_def py_less_def)
  moreover have "rmap (\<lambda>target. rbind (rmap (\<lambda>source. score_at (ta_transition_scores a) source target) sources) (\<lambda>xs. Inr (foldl fadd (Fin 0) xs)))
      experts = Inr (map ?v experts)"
  proof (rule rmap_all_ok)
    fix x assume x: "x \<in> set experts"
    have "rmap (\<lambda>source. score_at (ta_transition_scores a) source x) sources = Inr (map (\<lambda>source. share (fitted_row p source) x) sources)"
      using x assms(5) by (intro rmap_all_ok) (auto simp: score_at_def assms(2) fitted_table_def py_index_def)
    then show "rbind (rmap (\<lambda>source. score_at (ta_transition_scores a) source x) sources) (\<lambda>xs. Inr (foldl fadd (Fin 0) xs)) = Inr (?v x)"
      by (simp add: temporal_score_def)
  qed
  moreover have "\<not> (\<exists>(x, n) \<in> set session. \<not> (0 \<le> x \<and> x < 128) \<or> n < 0)" using assms(6) by (force simp: counts_below_def)
  moreover have "card (set sources) = 8" "\<not> (\<exists>x \<in> set sources. \<not> (0 \<le> x \<and> x < 128))" using assms(3-5) by (auto simp: distinct_card)
  ultimately have "score_temporal_runtime_artifact (foldl fadd (Fin 0)) a sources session = Inr (scores, ?c)"
    using scores assms(3) by (simp add: score_temporal_runtime_artifact_def Let_def)
  then show thesis using that scores len within by blast
qed

text \<open>
  C9. The exported temporal file predicts what the combined ranker ranks: for a transition table fitted on any
  samples with valid experts, whose counts a float holds exactly, export and load succeed, and for eight
  distinct sources and any valid session counts the scores of the loaded file are finite and
  non-negative, and the prediction is the first sixteen experts of the combined ranker's ranking on
  the updated counts, with the weights of the file, when floats are summed left to right; with
  fewer than sixteen positive scores it is an error.
\<close>

theorem exported_temporal_agrees:
  assumes "\<forall>x \<in> set samples. set (ts_target_expert_ids x) \<subseteq> {0..<128}" and "p = temporal_transition_fit samples"
    and "\<forall>source. counter_total (fitted_row p source) < 2 ^ 53"
    and "temporal_hash_identity i" and "\<forall>b. length (digest b) = 32"
    and "length (ts_source_expert_ids s) = 8" and "distinct (ts_source_expert_ids s)" and "set (ts_source_expert_ids s) \<subseteq> {0..<128}"
    and "counts_below (2 ^ 52) session" and "updated = counter_update session (ts_source_expert_ids s)"
  shows "\<exists>data a scores ranking. build_temporal_runtime_artifact digest p i = Inr data \<and> parse_temporal_runtime_artifact digest data = Inr a
    \<and> score_temporal_runtime_artifact (foldl fadd (Fin 0)) a (ts_source_expert_ids s) session = Inr (scores, updated)
    \<and> combined_rank \<lparr>tc_transition = p, tc_weights = TEMPORAL_WEIGHTS\<rparr> s updated = Inr ranking
    \<and> predict_temporal_runtime_artifact (foldl fadd (Fin 0)) a (ts_source_expert_ids s) session =
        (if length (filter (\<lambda>x. py_less (Fin 0) (scores ! nat x)) experts) < 16
         then Inl (ValueError ''temporal predictor has fewer than sixteen supported candidates'')
         else Inr (take 16 ranking, map (\<lambda>x. scores ! nat x) (take 16 ranking), updated))"
proof -
  let ?sources = "ts_source_expert_ids s"
  have p: "fitted_ok p" using assms(1) by (simp add: assms(2) temporal_fit_fitted)
  have digest: "length (digest b) = 32" for b using assms(5) by simp
  obtain data a where io: "build_temporal_runtime_artifact digest p i = Inr data" "parse_temporal_runtime_artifact digest data = Inr a"
    and a: "ta_transition_scores a = fitted_table p"
  proof (rule build_parse_temporal [of p i digest, OF fitted_exportable [OF p assms(3)] assms(4) digest])
    fix rows data
    assume r: "rmap (temporal_row p) experts = Inr rows" and written: "build_temporal_runtime_artifact digest p i = Inr data"
      "parse_temporal_runtime_artifact digest data = Inr
        \<lparr>ta_identity = i, ta_payload_sha256 = bytes_hex (digest (pack_doubles (concat rows))), ta_transition_scores = rows\<rparr>"
    show thesis using that [OF written] r fitted_table_rows [OF p assms(3)] by simp
  qed
  obtain scores where sc: "score_temporal_runtime_artifact (foldl fadd (Fin 0)) a ?sources session = Inr (scores, updated)"
    and rank: "rmap (combined_score TEMPORAL_WEIGHTS (map (temporal_score p ?sources) experts)
        (or_one (py_max_list (map (temporal_score p ?sources) experts))) (session_scale updated) ?sources updated) experts = Inr scores"
    and len: "length scores = 128" and within: "\<forall>z \<in> set scores. within_count 3 z"
    unfolding assms(10) by (rule temporal_scores_loaded [OF p a assms(6-9)])
  let ?ranking = "sort_key (\<lambda>x. (fneg (scores ! nat x), x)) experts"
  let ?z = "\<lambda>x. if x \<in> {0..<128} then scores ! nat x else Fin 0"
  have combined: "combined_rank \<lparr>tc_transition = p, tc_weights = TEMPORAL_WEIGHTS\<rparr> s updated = Inr ?ranking"
    using rank temporal_scores_eq(1) [OF p assms(6)] by (simp add: combined_rank_def)
  have same: "sort_key (\<lambda>x. (fneg (scores ! nat x), x)) (filter P experts) = sort_key (\<lambda>x. (fneg (?z x), x)) (filter P experts)" for P
    by (rule sort_key_same) auto
  have filt: "filter (\<lambda>x. py_less (Fin 0) (scores ! nat x)) experts = filter (\<lambda>x. py_less (Fin 0) (?z x)) experts" by (rule filter_cong) auto
  have z: "\<exists>k. within_count k (?z x)" for x
  proof (cases "x \<in> {0..<128}")
    case True
    then have "scores ! nat x \<in> set scores" using len by (intro nth_mem) auto
    then show ?thesis using within True by auto
  next
    case False
    then show ?thesis using within_count_0 by auto
  qed
  have first: "take 16 (sort_key (\<lambda>x. (fneg (scores ! nat x), x)) (filter (\<lambda>x. py_less (Fin 0) (scores ! nat x)) experts)) = take 16 ?ranking"
    if "16 \<le> length (filter (\<lambda>x. py_less (Fin 0) (scores ! nat x)) experts)"
    using ranked_supported [of ?z 16, OF z] that same [of "\<lambda>x. py_less (Fin 0) (?z x)"] same [of "\<lambda>x. True"]
    unfolding filt by simp
  have "predict_temporal_runtime_artifact (foldl fadd (Fin 0)) a ?sources session =
        (if length (filter (\<lambda>x. py_less (Fin 0) (scores ! nat x)) experts) < 16
         then Inl (ValueError ''temporal predictor has fewer than sixteen supported candidates'')
         else Inr (take 16 ?ranking, map (\<lambda>x. scores ! nat x) (take 16 ?ranking), updated))"
    using first by (simp add: predict_temporal_runtime_artifact_def sc len experts_upto Let_def not_less)
  then show ?thesis using io sc combined by blast
qed

section \<open>An exported example\<close>

definition example_temporal_identity :: temporal_identity where
  "example_temporal_identity = \<lparr>ti_model_sha256 = replicate 64 CHR ''0'', ti_runtime_sha256 = replicate 64 CHR ''1'',
     ti_manifest_sha256 = replicate 64 CHR ''2'', ti_configuration_sha256 = replicate 64 CHR ''f''\<rparr>"

lemma example_temporal_hash: "temporal_hash_identity example_temporal_identity"
  by (simp add: temporal_hash_identity_def example_temporal_identity_def is_hash_def list_all_iff hex_char_def)

definition example_fit :: temporal_transition where
  "example_fit = temporal_transition_fit [example_temporal 0 [1, 2] [5, 6]]"

lemma example_fit_rows: "fitted_row example_fit source = (if source = 1 \<or> source = 2 then [(5, 1), (6, 1)] else [])"
  by (simp add: example_fit_def temporal_transition_fit_def fitted_row_def example_temporal_def dict_get_def
      counter_update_def counter_inc_def counter_get_def)

lemma example_fit_small: "\<forall>source. counter_total (fitted_row example_fit source) < 2 ^ 53"
  by (simp add: example_fit_rows counter_total_def)

lemma example_fit_ok: "fitted_ok example_fit"
  unfolding example_fit_def by (rule temporal_fit_fitted) (simp add: example_temporal_def)

lemma temporal_artifact_roundtrip_witness:
  "\<exists>data a. build_temporal_runtime_artifact (\<lambda>b. replicate 32 7) example_fit example_temporal_identity = Inr data
    \<and> parse_temporal_runtime_artifact (\<lambda>b. replicate 32 7) data = Inr a \<and> ta_identity a = example_temporal_identity"
  using temporal_artifact_roundtrip [OF fitted_exportable [OF example_fit_ok example_fit_small] example_temporal_hash, of "\<lambda>b. replicate 32 7"]
  by auto

lemma exported_temporal_agrees_witness:
  "\<exists>data a scores ranking. build_temporal_runtime_artifact (\<lambda>b. replicate 32 7) example_fit example_temporal_identity = Inr data
    \<and> parse_temporal_runtime_artifact (\<lambda>b. replicate 32 7) data = Inr a
    \<and> score_temporal_runtime_artifact (foldl fadd (Fin 0)) a [1, 2, 3, 4, 5, 6, 7, 8] [(3, 2)]
        = Inr (scores, counter_update [(3, 2)] [1, 2, 3, 4, 5, 6, 7, 8])
    \<and> combined_rank \<lparr>tc_transition = example_fit, tc_weights = TEMPORAL_WEIGHTS\<rparr> (example_temporal 0 [1, 2, 3, 4, 5, 6, 7, 8] [])
        (counter_update [(3, 2)] [1, 2, 3, 4, 5, 6, 7, 8]) = Inr ranking"
proof -
  let ?s = "example_temporal 0 [1, 2, 3, 4, 5, 6, 7, 8] []"
  have src: "ts_source_expert_ids ?s = [1, 2, 3, 4, 5, 6, 7, 8]" by (simp add: example_temporal_def)
  have targets: "\<forall>x \<in> set [example_temporal 0 [1, 2] [5, 6]]. set (ts_target_expert_ids x) \<subseteq> {0..<128}" by (simp add: example_temporal_def)
  have counts: "counts_below (2 ^ 52) [(3, 2)]" by (simp add: counts_below_def)
  from exported_temporal_agrees [OF targets example_fit_def example_fit_small example_temporal_hash, of "\<lambda>b. replicate 32 7" ?s, OF _ _ _ _ counts refl]
  show ?thesis unfolding src by fastforce
qed

end
