(* ===== verification/Spec2Isabelle.thy ===== *)
theory Spec2Isabelle
  imports Replay Prefetch Capacity_Curve Shadow Metrics Static_Placement Cost_Model Adapters Stock_Search Reference Evidence_Witness Heldout Expert_Layout Temporal_Artifact
begin

text \<open>
  ExpertFlow studies and compiles the placement of mixture-of-experts models on one machine. Its Python
  package \<open>src/src/expertflow\<close> has four parts, and this development models their logic.

  \<^bold>\<open>Traces and caches.\<close> A router trace lists, per token and layer, the experts the router selected.
  \<^item> \<open>Trace\<close> (\<open>trace/schema.py\<close>, \<open>trace/io.py\<close>, \<open>trace/parity.py\<close>): the record schema, the reader with its line
    numbers, and the comparison of two token sequences.
  \<^item> \<open>Recency\<close>: the contract of a least-recently-used cache as a locale; \<open>Cache_Sim\<close> and \<open>Prefetch\<close> interpret it.
  \<^item> \<open>Cache_Sim\<close> (\<open>analysis/cache_sim.py\<close>): the three residency policies. \<open>Replay\<close> (\<open>analysis/replay.py\<close>),
    \<open>Capacity_Curve\<close> (\<open>analysis/capacity_curve.py\<close>) and \<open>Prefetch\<close> (\<open>analysis/prefetch_sim.py\<close>) are built on it.
  \<^item> \<open>Heldout\<close> (\<open>analysis/heldout_breakdown.py\<close>): held-out shards of a collection, and the evaluation per
    conversation and per domain. \<open>Expert_Layout\<close> (\<open>analysis/expert_layout.py\<close>): the byte spans of the experts.
  The lemmas show that demand is counted once, that the static hot set is optimal, that the caches
  refine the recency order, that the timeline and the aggregate simulation agree, that
  a held-out breakdown regroups the held-out curve without mixing splits, and that the experts' spans tile their tensors.

  \<^bold>\<open>Prediction.\<close>
  \<^item> \<open>Pilot_Dataset\<close>, \<open>Temporal_Dataset\<close> (\<open>predictor/dataset.py\<close>, \<open>predictor/temporal_dataset.py\<close>): from trace
    shards to samples, with sealed splits.
  \<^item> \<open>Ranking\<close> (\<open>predictor/models.py\<close>, \<open>predictor/temporal_models.py\<close>), \<open>Metrics\<close> (\<open>predictor/metrics.py\<close>,
    \<open>predictor/temporal_metrics.py\<close>) and \<open>Shadow\<close> (\<open>predictor/shadow.py\<close>, \<open>predictor/temporal_shadow.py\<close>).
  \<^item> \<open>Bytes\<close>: byte strings, little-endian integers, hexadecimal texts and the bits of floats.
    \<open>Runtime_Artifact\<close>, \<open>Temporal_Artifact\<close> (\<open>predictor/runtime_artifact.py\<close>, \<open>predictor/temporal_runtime_artifact.py\<close>):
    the binary files the rankers are exported to, their readers and the predictions made from them.
  The lemmas show that splits never mix, that rankings are permutations that never look ahead,
  that a shadow cache serves at least what its predictions cover, that an exported ranker is read back
  exactly, and that prediction from the file agrees with the ranker.

  \<^bold>\<open>The compiler.\<close>
  \<^item> \<open>Compiler_Schema\<close> (\<open>compiler/schema.py\<close>), \<open>Reference\<close> (\<open>compiler/reference.py\<close>), \<open>Adapters\<close>
    (\<open>compiler/adapters\<close>): the validated inputs.
  \<^item> \<open>Plan\<close> (\<open>compiler/plan.py\<close>): candidates, sealing, validation and the stored form of a plan.
  \<^item> \<open>Passes\<close> (\<open>compiler/passes/base.py\<close>), \<open>Static_Placement\<close> (\<open>compiler/static_placement.py\<close>),
    \<open>Cost_Model\<close> (\<open>compiler/cost_model.py\<close>), \<open>Stock\<close> (\<open>compiler/stock.py\<close>), \<open>Stock_Search\<close>
    (\<open>compiler/stock_search.py\<close>).
  The lemmas show that schedules respect their dependencies, placements their limits, batches their
  budget, and that a plan is sealed only on distinct, passing evidence.

  \<^bold>\<open>Evidence.\<close>
  \<^item> \<open>Launch\<close> (\<open>compiler/runner.py\<close>: \<open>RuntimeBinding\<close>, \<open>lower_launch\<close>): the pinned runtime and the exact command
    line of a plan.
  \<^item> \<open>Evidence\<close>, \<open>Evidence_Check\<close>, \<open>Verification\<close> (\<open>compiler/evidence.py\<close>): the append-only store, and the
    verification that recomputes a measurement from its raw files, recursively through the pristine
    measurements of a fork. \<open>Evidence_History\<close> is the store as a step relation.
  \<^item> \<open>Evidence_Example\<close>, \<open>Evidence_Witness\<close>: a concrete store on which the properties are applied.
  The lemmas show that verification ends, that its cache of hashed models never changes a verdict,
  what a returned row guarantees, that nothing stored is lost, and that what the store verifies can be
  imported, selected and sealed by the rest of the compiler.

  \<^bold>\<open>How the code is represented.\<close> \<open>Prelude\<close> has Python's exceptions (\<open>py_error\<close>) and the result type \<open>res\<close>,
  insertion-ordered dictionaries and loops that stop at an exception (\<open>rmap\<close>, \<open>rfold\<close>). \<open>PyFloat\<close> is IEEE
  binary64 on rationals with rounding, infinities and NaN; \<open>Json\<close> and \<open>Pyvalue\<close> are the values whose
  type is known at run time only, and \<open>Pystats\<close> the \<open>statistics\<close> module. Integers are unbounded, strings are
  lists of characters, dataclasses are records, and a constructor with checks is a function with a result.
  Messages of exceptions are fixed texts without the interpolated values.

  \<^bold>\<open>Arguments of the model.\<close> \<open>json.loads\<close> and \<open>json.dumps\<close>, the contents of files (\<open>host\<close>), the SHA-256 digest,
  time stamps, \<open>uuid4\<close>, the generator's shuffle, \<open>log\<close> and \<open>exp\<close>, and the built-in sum of floats (which differs
  between the supported versions of Python) are arguments of the definitions that use them. Theorems
  assume of them at most what their statements say: that digests have the form of digests, that no
  two candidates of a store collide, that a written text reads back.

  \<^bold>\<open>Recursion and fuel.\<close> The pass scheduler, the eviction loop, the growth of a measurement batch
  and the recursion of verification are total functions with a termination proof. \<open>verify_bounded\<close> is
  verification with a limit on the depth of the calls; a limit above the number of stored rows is enough.

  \<^bold>\<open>Not modelled.\<close> Operating-system effects: the native server process, its HTTP requests and the
  GPU counter sampler (the rest of \<open>compiler/runner.py\<close>), \<open>runtime/\<close>, \<open>product/\<close>, \<open>collection.py\<close>, \<open>fetching.py\<close>,
  \<open>doctor.py\<close>. Code whose content is a library: the torch models of \<open>predictor/learned.py\<close>, the ctypes interface
  of \<open>runtime/cuda_transfer.py\<close>, the SQLite connection. Presentation and entry points: \<open>reporting.py\<close>,
  \<open>cli/\<close>, \<open>src/scripts\<close>. Experiment drivers and reports that combine the parts above: the rest of
  \<open>analysis/\<close>, \<open>predictor/\<close>, \<open>compiler/\<close>, \<open>stock/\<close> and \<open>quality/\<close>. The copy of the package under
  \<open>docs/research/release\<close> is an older version of the same code.
\<close>

end
